(* ===== verification/Prelude.thy ===== *)
theory Prelude
  imports Complex_Main "HOL-Library.AList" "HOL-Library.List_Lexorder"
    "HOL-Library.Char_ord" "HOL-Library.Sublist" "HOL-Library.Multiset"
begin

text \<open>
  Shared vocabulary of the development: the fragment of Go that the plugin is written in.

  \<^item> \<open>time.Time\<close> is \<open>gtime\<close>, the number of nanoseconds since Go's zero time, so that
    \<open>IsZero\<close> is the test for \<open>0\<close> and \<open>Before\<close>/\<open>After\<close> are the order of \<open>int\<close>.
    \<open>time.Duration\<close> is \<open>duration\<close>, a signed 64-bit number of nanoseconds kept as an \<open>int\<close>;
    where the source multiplies or shifts one, the wrap-around is written out (\<open>wrap64\<close>), and
    \<open>Time.Sub\<close> saturates at the ends of the 64-bit range as the library does.
  \<^item> \<open>float64\<close> is \<open>rat\<close>: arithmetic without rounding.
  \<^item> A Go string is a \<open>string\<close> of bytes. \<open>TrimSpace\<close> and \<open>ToLower\<close> act on ASCII.
  \<^item> A Go map is an association list with distinct keys (\<open>gomap\<close>); its iteration order, which Go
    leaves open, is an argument of every definition whose result could depend on it.
\<close>

named_theorems pool_frame \<open>which fields an operation leaves alone\<close>
named_theorems entry_simps \<open>unfolding of the predicates on entries\<close>

section \<open>Time and durations\<close>

type_synonym gtime = int
type_synonym duration = int

definition IsZero :: "gtime \<Rightarrow> bool" where
  "IsZero t = (t = 0)"

abbreviation (input) Before :: "gtime \<Rightarrow> gtime \<Rightarrow> bool" where
  "Before t u \<equiv> t < u"

abbreviation (input) After :: "gtime \<Rightarrow> gtime \<Rightarrow> bool" where
  "After t u \<equiv> u < t"

definition wrap64 :: "int \<Rightarrow> int" where
  "wrap64 x = (x + 2 ^ 63) mod 2 ^ 64 - 2 ^ 63"

definition maxDuration :: duration where "maxDuration = 2 ^ 63 - 1"
definition minDuration :: duration where "minDuration = - (2 ^ 63)"

definition Sub :: "gtime \<Rightarrow> gtime \<Rightarrow> duration" where
  "Sub t u = (let d = t - u in
     if d > maxDuration then maxDuration else if d < minDuration then minDuration else d)"

definition Millisecond :: duration where "Millisecond = 1000000"
definition Second :: duration where "Second = 1000 * Millisecond"
definition Minute :: duration where "Minute = 60 * Second"
definition Hour :: duration where "Hour = 60 * Minute"

lemmas time_units = Hour_def Minute_def Second_def Millisecond_def

lemma wrap64_id: "- (2 ^ 63) \<le> x \<Longrightarrow> x < 2 ^ 63 \<Longrightarrow> wrap64 x = x"
  by (simp add: wrap64_def)

lemma wrap64_range: "- (2 ^ 63) \<le> wrap64 x \<and> wrap64 x < 2 ^ 63"
  using pos_mod_bound [of "2 ^ 64" "x + 2 ^ 63"] pos_mod_sign [of "2 ^ 64" "x + 2 ^ 63"]
  by (simp add: wrap64_def)

lemma Sub_le_iff:
  "minDuration \<le> d \<Longrightarrow> d < maxDuration \<Longrightarrow> Sub t u \<le> d \<longleftrightarrow> t - u \<le> d"
  by (auto simp: Sub_def maxDuration_def minDuration_def Let_def)

lemma Sub_ge_iff:
  "minDuration < d \<Longrightarrow> d \<le> maxDuration \<Longrightarrow> d \<le> Sub t u \<longleftrightarrow> d \<le> t - u"
  by (auto simp: Sub_def maxDuration_def minDuration_def Let_def)

lemma Sub_mono: "t \<le> t' \<Longrightarrow> Sub t u \<le> Sub t' u"
  by (auto simp: Sub_def maxDuration_def minDuration_def Let_def)

section \<open>Numbers\<close>

text \<open>Go's conversion \<open>int64(f)\<close> truncates towards zero.\<close>

definition trunc_rat :: "rat \<Rightarrow> int" where
  "trunc_rat r = (if r \<ge> 0 then floor r else ceiling r)"

lemma trunc_rat_nonneg: "0 \<le> r \<Longrightarrow> 0 \<le> trunc_rat r"
  by (simp add: trunc_rat_def)

section \<open>Strings\<close>

definition is_space :: "char \<Rightarrow> bool" where
  "is_space c = (c \<in> {CHR 0x20, CHR 0x09, CHR 0x0A, CHR 0x0B, CHR 0x0C, CHR 0x0D})"

definition TrimSpace :: "string \<Rightarrow> string" where
  "TrimSpace s = rev (dropWhile is_space (rev (dropWhile is_space s)))"

definition lower_char :: "char \<Rightarrow> char" where
  "lower_char c = (let n = (of_char c :: nat) in
     if 65 \<le> n \<and> n \<le> 90 then char_of (n + 32) else c)"

definition ToLower :: "string \<Rightarrow> string" where
  "ToLower s = map lower_char s"

definition EqualFold :: "string \<Rightarrow> string \<Rightarrow> bool" where
  "EqualFold s t = (ToLower s = ToLower t)"

abbreviation (input) HasPrefix :: "string \<Rightarrow> string \<Rightarrow> bool" where
  "HasPrefix s p \<equiv> prefix p s"

abbreviation (input) HasSuffix :: "string \<Rightarrow> string \<Rightarrow> bool" where
  "HasSuffix s p \<equiv> suffix p s"

fun Contains :: "string \<Rightarrow> string \<Rightarrow> bool" where
  "Contains [] p = (p = [])"
| "Contains (c # cs) p = (prefix p (c # cs) \<or> Contains cs p)"

lemma Contains_append: "Contains s p \<longleftrightarrow> (\<exists>u v. s = u @ p @ v)"
proof (induction s)
  case Nil
  then show ?case by auto
next
  case (Cons c cs)
  show ?case
  proof
    assume "Contains (c # cs) p"
    then consider "prefix p (c # cs)" | "Contains cs p" by auto
    then show "\<exists>u v. c # cs = u @ p @ v"
    proof cases
      case 1
      then obtain v where "c # cs = [] @ p @ v" by (auto simp: prefix_def)
      then show ?thesis by blast
    next
      case 2
      with Cons.IH obtain u v where "c # cs = (c # u) @ p @ v" by auto
      then show ?thesis by blast
    qed
  next
    assume "\<exists>u v. c # cs = u @ p @ v"
    then obtain u v where uv: "c # cs = u @ p @ v" by blast
    show "Contains (c # cs) p"
    proof (cases u)
      case Nil
      with uv have "prefix p (c # cs)" by (simp add: prefix_def)
      then show ?thesis by simp
    next
      case (Cons d u')
      with uv have "cs = u' @ p @ v" by simp
      with \<open>Contains cs p \<longleftrightarrow> _\<close> show ?thesis by auto
    qed
  qed
qed

lemma TrimSpace_idem: "TrimSpace (TrimSpace s) = TrimSpace s"
proof -
  let ?t = "dropWhile is_space s"
  let ?u = "rev (dropWhile is_space (rev ?t))"
  have "dropWhile is_space ?u = ?u"
  proof (cases ?u)
    case (Cons c cs)
    have "prefix ?u ?t" by (metis prefixI rev_append rev_rev_ident takeWhile_dropWhile_id)
    then obtain zs where "?t = c # zs" using Cons by (auto simp: prefix_def)
    then have "\<not> is_space c" by (metis hd_dropWhile list.distinct(1) list.sel(1))
    then show ?thesis using Cons by simp
  next
    case Nil
    show ?thesis by (simp only: Nil dropWhile.simps)
  qed
  then show ?thesis by (simp add: TrimSpace_def)
qed

lemma TrimSpace_id: "s \<noteq> [] \<Longrightarrow> \<not> is_space (hd s) \<Longrightarrow> \<not> is_space (last s) \<Longrightarrow> TrimSpace s = s"
  by (simp add: TrimSpace_def dropWhile_eq_self_iff [THEN iffD2] hd_rev)

text \<open>The class \<open>[a-zA-Z0-9_]\<close>.\<close>

definition word_char :: "char \<Rightarrow> bool" where
  "word_char c = ((CHR ''a'' \<le> c \<and> c \<le> CHR ''z'') \<or> (CHR ''A'' \<le> c \<and> c \<le> CHR ''Z'') \<or>
     (CHR ''0'' \<le> c \<and> c \<le> CHR ''9'') \<or> c = CHR ''_'')"

text \<open>Printing a number with \<open>%d\<close>.\<close>

fun dec :: "nat \<Rightarrow> string" where
  "dec n = (if n < 10 then [char_of (48 + n)] else dec (n div 10) @ [char_of (48 + n mod 10)])"

declare dec.simps [simp del]

definition show_int :: "int \<Rightarrow> string" where
  "show_int i = (if i < 0 then CHR ''-'' # dec (nat (- i)) else dec (nat i))"

section \<open>Maps\<close>

type_synonym uid = string
type_synonym ('k, 'v) gomap = "('k \<times> 'v) list"

abbreviation (input) gm_get :: "('k, 'v) gomap \<Rightarrow> 'k \<Rightarrow> 'v option" where
  "gm_get m k \<equiv> map_of m k"

abbreviation (input) gm_put :: "'k \<Rightarrow> 'v \<Rightarrow> ('k, 'v) gomap \<Rightarrow> ('k, 'v) gomap" where
  "gm_put k v m \<equiv> AList.update k v m"

abbreviation (input) gm_del :: "'k \<Rightarrow> ('k, 'v) gomap \<Rightarrow> ('k, 'v) gomap" where
  "gm_del k m \<equiv> AList.delete k m"

definition gm_keys :: "('k, 'v) gomap \<Rightarrow> 'k list" where
  "gm_keys m = map fst m"

definition gm_wf :: "('k, 'v) gomap \<Rightarrow> bool" where
  "gm_wf m = distinct (map fst m)"

text \<open>
  What the components rely on of a Go map: the laws of lookup after a store and a delete, and the
  enumeration of the keys that \<open>range\<close> and \<open>len\<close> use.
\<close>

locale go_map =
  fixes get :: "'m \<Rightarrow> 'k \<Rightarrow> 'v option"
    and put :: "'k \<Rightarrow> 'v \<Rightarrow> 'm \<Rightarrow> 'm"
    and del :: "'k \<Rightarrow> 'm \<Rightarrow> 'm"
    and keys :: "'m \<Rightarrow> 'k list"
    and wf :: "'m \<Rightarrow> bool"
  assumes get_put: "get (put k v m) k' = (if k' = k then Some v else get m k')"
    and get_del: "wf m \<Longrightarrow> get (del k m) k' = (if k' = k then None else get m k')"
    and wf_put: "wf m \<Longrightarrow> wf (put k v m)"
    and wf_del: "wf m \<Longrightarrow> wf (del k m)"
    and keys_get: "wf m \<Longrightarrow> k \<in> set (keys m) \<longleftrightarrow> get m k \<noteq> None"
    and keys_distinct: "wf m \<Longrightarrow> distinct (keys m)"
begin

lemma put_put_get: "get (put k v (put k v' m)) k' = get (put k v m) k'"
  by (simp add: get_put)

lemma put_commute_get: "k \<noteq> j \<Longrightarrow> get (put k v (put j w m)) i = get (put j w (put k v m)) i"
  by (simp add: get_put)

lemma keys_put: "wf m \<Longrightarrow> set (keys (put k v m)) = insert k (set (keys m))"
  by (auto simp: keys_get wf_put get_put split: if_splits)

lemma keys_del: "wf m \<Longrightarrow> set (keys (del k m)) = set (keys m) - {k}"
  by (auto simp: keys_get wf_del get_del split: if_splits)

lemma len_put_old: "wf m \<Longrightarrow> get m k \<noteq> None \<Longrightarrow> length (keys (put k v m)) = length (keys m)"
  by (metis distinct_card insert_absorb keys_distinct keys_get keys_put wf_put)

lemma len_del: "wf m \<Longrightarrow> get m k \<noteq> None \<Longrightarrow> Suc (length (keys (del k m))) = length (keys m)"
  by (metis card_Suc_Diff1 distinct_card keys_del keys_distinct keys_get list.set_finite wf_del)

end

lemma gm_get_del: "gm_get (gm_del k m) k' = (if k' = k then None else gm_get m k')"
  by (simp add: delete_conv')

lemma gm_get_put [simp]: "gm_get (gm_put k v m) k' = (if k' = k then Some v else gm_get m k')"
  by (simp add: update_conv')

interpretation gm: go_map map_of AList.update AList.delete gm_keys gm_wf
  by unfold_locales
    (auto simp: gm_get_del gm_keys_def gm_wf_def distinct_update distinct_delete
      map_of_eq_None_iff)

text \<open>A \<open>range\<close> over a map visits its bindings in the order of some enumeration of the keys.\<close>

fun range_map :: "'k list \<Rightarrow> ('k, 'v) gomap \<Rightarrow> ('k \<times> 'v) list" where
  "range_map [] m = []"
| "range_map (k # ks) m =
     (case gm_get m k of None \<Rightarrow> range_map ks m | Some v \<Rightarrow> (k, v) # range_map ks m)"

definition enumerates :: "'k list \<Rightarrow> ('k, 'v) gomap \<Rightarrow> bool" where
  "enumerates ks m = (distinct ks \<and> set ks = set (gm_keys m))"

lemma range_map_in: "(k, v) \<in> set (range_map ks m) \<longleftrightarrow> k \<in> set ks \<and> gm_get m k = Some v"
  by (induction ks) (auto split: option.splits)

lemma range_map_distinct: "distinct ks \<Longrightarrow> distinct (map fst (range_map ks m))"
proof (induction ks)
  case (Cons k ks)
  then show ?case
    by (auto split: option.splits simp: range_map_in)
qed simp

lemma set_range_map:
  "enumerates ks m \<Longrightarrow> (k, v) \<in> set (range_map ks m) \<longleftrightarrow> gm_get m k = Some v"
  unfolding range_map_in enumerates_def gm_keys_def
  by (metis domI dom_map_of_conv_image_fst list.set_map)

lemma enumerates_keys: "gm_wf m \<Longrightarrow> enumerates (gm_keys m) m"
  by (simp add: enumerates_def gm_wf_def gm_keys_def)

lemma range_map_gm_keys: "gm_wf m \<Longrightarrow> range_map (gm_keys m) m = m"
proof -
  have "distinct (map fst (xs @ m)) \<Longrightarrow> range_map (map fst m) (xs @ m) = m" for xs
  proof (induction m arbitrary: xs)
    case (Cons b m)
    have "gm_get xs (fst b) = None" using Cons.prems by (auto simp: map_of_eq_None_iff)
    then have "gm_get (xs @ b # m) (fst b) = Some (snd b)"
      by (simp add: map_add_def split: option.splits)
    moreover have "range_map (map fst m) ((xs @ [b]) @ m) = m"
      by (rule Cons.IH) (use Cons.prems in simp)
    ultimately show ?case by simp
  qed simp
  from this [of "[]"] show "gm_wf m \<Longrightarrow> ?thesis"
    by (simp add: gm_wf_def gm_keys_def)
qed

lemma mset_range_map:
  assumes "gm_wf m" and "enumerates ks m"
  shows "mset (range_map ks m) = mset m"
proof -
  have "set (range_map ks m) = set m"
    using assms set_range_map [OF assms(2)] by (auto simp: gm_wf_def)
  moreover have "distinct (range_map ks m)"
    using assms(2) range_map_distinct [of ks m] by (simp add: enumerates_def distinct_map)
  moreover have "distinct m" using assms(1) by (auto simp: gm_wf_def distinct_map)
  ultimately show ?thesis by (metis set_eq_iff_mset_eq_distinct)
qed

text \<open>Deleting the bindings that fail a test, as the prune loops do.\<close>

definition gm_filter :: "('v \<Rightarrow> bool) \<Rightarrow> ('k, 'v) gomap \<Rightarrow> ('k, 'v) gomap" where
  "gm_filter P m = filter (\<lambda>(k, v). P v) m"

lemma gm_filter_wf: "gm_wf m \<Longrightarrow> gm_wf (gm_filter P m)"
  by (simp add: gm_wf_def gm_filter_def distinct_map_filter)

lemma gm_filter_get:
  "gm_wf m \<Longrightarrow> gm_get (gm_filter P m) k =
     (case gm_get m k of None \<Rightarrow> None | Some v \<Rightarrow> if P v then Some v else None)"
  by (induction m) (auto simp: gm_wf_def gm_filter_def map_of_eq_None_iff split: option.splits
      dest: map_of_SomeD)

lemma gm_filter_idem [simp]: "gm_filter P (gm_filter P m) = gm_filter P m"
  by (simp add: gm_filter_def)

end
