(* ===== verification/Auth.thy ===== *)
theory Auth
  imports Prelude
begin

text \<open>
  Account credentials, after \<^verbatim>\<open>src/internal/auth/auth.go\<close>: the record \<open>Auth\<close>, the realm
  (CN or global) that the pool partitions accounts by, and the realm back-fill of old files. The
  package variable \<open>globalEnabled\<close> is an argument of the definitions that read it; the mutex of
  \<open>Auth\<close> makes each operation atomic and needs no state of its own.
\<close>

record auth =
  a_AccessToken :: string
  a_RefreshToken :: string
  a_ExpiresAt :: int
  a_Domain :: string
  a_realm :: string
  a_UID :: uid
  a_EnterpriseID :: string
  a_Nickname :: string
  a_FilePath :: string
  a_DeviceToken :: string

definition zero_auth :: auth where
  "zero_auth = \<lparr>a_AccessToken = [], a_RefreshToken = [], a_ExpiresAt = 0, a_Domain = [],
     a_realm = [], a_UID = [], a_EnterpriseID = [], a_Nickname = [], a_FilePath = [],
     a_DeviceToken = []\<rparr>"

definition isGlobalDomain :: "string \<Rightarrow> bool" where
  "isGlobalDomain d = (let d' = ToLower (TrimSpace d) in
     d' = ''workbuddy.ai'' \<or> HasSuffix d' ''.workbuddy.ai'')"

definition realmLocked :: "bool \<Rightarrow> auth \<Rightarrow> string" where
  "realmLocked globalEnabled a =
     (if \<not> globalEnabled then ''cn''
      else if TrimSpace (a_realm a) = ''global'' \<or> isGlobalDomain (a_Domain a) then ''global''
      else ''cn'')"

definition Realm :: "bool \<Rightarrow> auth \<Rightarrow> string" where
  "Realm globalEnabled a = realmLocked globalEnabled a"

definition ResolveRealm :: "string \<Rightarrow> string \<Rightarrow> string" where
  "ResolveRealm explicit domain =
     (let r = TrimSpace explicit in
      if r \<noteq> [] then r else if isGlobalDomain domain then ''global'' else ''cn'')"

definition BackfillRealm :: "auth \<Rightarrow> (bool \<times> string) \<times> auth" where
  "BackfillRealm a =
     (if TrimSpace (a_realm a) \<noteq> [] then ((False, a_realm a), a)
      else let r = ResolveRealm [] (a_Domain a) in ((True, r), a\<lparr>a_realm := r\<rparr>))"

definition RealmStored :: "auth \<Rightarrow> string" where
  "RealmStored a = a_realm a"

definition IsGlobal :: "bool \<Rightarrow> auth \<Rightarrow> bool" where
  "IsGlobal globalEnabled a = (Realm globalEnabled a = ''global'')"

text \<open>\<open>Time.Unix\<close>: whole seconds since 1970; Go's zero time is 62135596800 seconds earlier.\<close>

definition Unix :: "gtime \<Rightarrow> int" where
  "Unix t = t div Second - 62135596800"

definition NeedsRefresh :: "gtime \<Rightarrow> duration \<Rightarrow> auth \<Rightarrow> bool" where
  "NeedsRefresh now d a =
     (if a_ExpiresAt a \<le> 0 then True else a_ExpiresAt a \<le> Unix (now + d))"

lemma Realm_cases: "Realm g a = ''cn'' \<or> Realm g a = ''global''"
  by (simp add: Realm_def realmLocked_def)

lemma Realm_disabled [simp]: "Realm False a = ''cn''"
  by (simp add: Realm_def realmLocked_def)

lemma TrimSpace_Nil [simp]: "TrimSpace [] = []"
  by (simp add: TrimSpace_def)

lemma TrimSpace_global: "TrimSpace ''global'' = ''global''"
  by (simp add: TrimSpace_def is_space_def)

lemma TrimSpace_cn: "TrimSpace ''cn'' = ''cn''"
  by (simp add: TrimSpace_def is_space_def)

lemma TrimSpace_zero: "TrimSpace (a_realm zero_auth) = []"
  by (simp add: zero_auth_def)

lemma ResolveRealm_Nil: "ResolveRealm [] d = (if isGlobalDomain d then ''global'' else ''cn'')"
  by (simp add: ResolveRealm_def)

lemma BackfillRealm_stored:
  "TrimSpace (a_realm (snd (BackfillRealm a))) \<noteq> []"
  by (auto simp: BackfillRealm_def Let_def ResolveRealm_Nil TrimSpace_global TrimSpace_cn)

lemma BackfillRealm_second: "snd (BackfillRealm (snd (BackfillRealm a))) = snd (BackfillRealm a)"
  using BackfillRealm_stored [of a] by (subst BackfillRealm_def) simp

lemma BackfillRealm_realm: "Realm g (snd (BackfillRealm a)) = Realm g a"
  by (auto simp: BackfillRealm_def Let_def ResolveRealm_Nil Realm_def realmLocked_def
      TrimSpace_global TrimSpace_cn)

lemma BackfillRealm_frame: "a_UID (snd (BackfillRealm a)) = a_UID a"
  by (simp add: BackfillRealm_def Let_def)

end
