(* ===== verification/Entry.thy ===== *)
theory Entry
  imports Auth
begin

text \<open>
  The state of one account of the pool, after \<^verbatim>\<open>src/internal/pool/entry.go\<close>: the record \<open>entry\<close>,
  its two per-model tables, the predicates that decide whether the account may be selected, and the
  deadlines that the fall-back orders accounts by. Every predicate takes the clock reading \<open>now\<close>
  that the source takes from its caller. A nil table and an empty one are the same \<open>gomap\<close>: the
  code only ever reads them alike.
\<close>

type_synonym CoolKind = int

definition CoolHard :: CoolKind where "CoolHard = 0"
definition CoolSoft :: CoolKind where "CoolSoft = 1"

definition CoolKind_String :: "CoolKind \<Rightarrow> string" where
  "CoolKind_String k =
     (if k = CoolHard then ''hard_credit'' else if k = CoolSoft then ''soft_rate''
      else ''unknown'')"

definition degradeReason :: string where "degradeReason = ''consecutive failures''"

record modelCooldown =
  mc_Until :: gtime
  mc_ResetAt :: gtime
  mc_Reason :: string
  mc_Hits :: int

record modelCostEntry =
  co_CostPer1k :: rat
  co_LastSeen :: gtime
  co_Samples :: int

record entry =
  e_a :: auth
  e_credits :: int
  e_creditsExpiring :: int
  e_successCount :: int
  e_errTotal :: int
  e_lastErr :: gtime
  e_lastSuccess :: gtime
  e_coolKind :: CoolKind
  e_until :: gtime
  e_disabled :: bool
  e_reason :: string
  e_manualDisabled :: bool
  e_manualReason :: string
  e_lastUsed :: gtime
  e_usedSeq :: nat
  e_breakerUntil :: gtime
  e_fails :: int
  e_retryCount :: int
  e_softStreak :: int
  e_modelCooldowns :: "(string, modelCooldown) gomap"
  e_sessionDeadFails :: int
  e_consecutiveFails :: int
  e_degradeUntil :: gtime
  e_inFlight :: int
  e_modelCost :: "(string, modelCostEntry) gomap"

text \<open>\<open>&entry{a: a}\<close>: every other field has its zero value.\<close>

definition new_entry :: "auth \<Rightarrow> entry" where
  "new_entry a = \<lparr>e_a = a, e_credits = 0, e_creditsExpiring = 0, e_successCount = 0,
     e_errTotal = 0, e_lastErr = 0, e_lastSuccess = 0, e_coolKind = 0, e_until = 0,
     e_disabled = False, e_reason = [], e_manualDisabled = False, e_manualReason = [],
     e_lastUsed = 0, e_usedSeq = 0, e_breakerUntil = 0, e_fails = 0, e_retryCount = 0,
     e_softStreak = 0, e_modelCooldowns = [], e_sessionDeadFails = 0, e_consecutiveFails = 0,
     e_degradeUntil = 0, e_inFlight = 0, e_modelCost = []\<rparr>"

section \<open>Constants\<close>

definition modelCostTTL :: duration where "modelCostTTL = 6 * Hour"
definition defaultBreakerThreshold :: int where "defaultBreakerThreshold = 3"
definition defaultBreakerCooldown :: duration where "defaultBreakerCooldown = 30 * Minute"
definition defaultBreakerCooldownMax :: duration where "defaultBreakerCooldownMax = 6 * Hour"
definition defaultSoftRateMax :: duration where "defaultSoftRateMax = 2 * Hour"
definition modelBlockBaseTTL :: duration where "modelBlockBaseTTL = 6 * Hour"
definition modelBlockMaxTTL :: duration where "modelBlockMaxTTL = 24 * Hour"
definition modelBlockShift :: nat where "modelBlockShift = 6"
definition sessionDeadThreshold :: int where "sessionDeadThreshold = 3"
definition defaultDegradeThreshold :: int where "defaultDegradeThreshold = 5"
definition defaultDegradeCooldown :: duration where "defaultDegradeCooldown = 10 * Minute"
definition defaultDegradeCooldownMax :: duration where "defaultDegradeCooldownMax = 2 * Hour"
definition defaultCostExploreInterval :: duration where "defaultCostExploreInterval = 30 * Minute"
definition sessionDeadReason :: string where "sessionDeadReason = ''12153 session dead''"
definition softStreakShiftMax :: int where "softStreakShiftMax = 16"
definition defaultIdleWeightPerHour :: rat where "defaultIdleWeightPerHour = 1 / 2"
definition defaultIdleWeightMax :: rat where "defaultIdleWeightMax = 5"

section \<open>Predicates\<close>

definition cost_stale :: "gtime \<Rightarrow> modelCostEntry \<Rightarrow> bool" where
  "cost_stale now mc = (IsZero (co_LastSeen mc) \<or> Sub now (co_LastSeen mc) > modelCostTTL)"

definition modelCostOf :: "entry \<Rightarrow> string \<Rightarrow> gtime \<Rightarrow> modelCostEntry option" where
  "modelCostOf e model now =
     (if model = [] then None
      else case gm_get (e_modelCost e) model of
        None \<Rightarrow> None
      | Some mc \<Rightarrow>
          if IsZero (co_LastSeen mc) then None
          else if Sub now (co_LastSeen mc) > modelCostTTL then None
          else Some mc)"

definition healthy :: "entry \<Rightarrow> gtime \<Rightarrow> bool" where
  "healthy e now =
     (if e_disabled e \<or> e_manualDisabled e then False
      else if \<not> IsZero (e_until e) \<and> Before now (e_until e) then False
      else if \<not> IsZero (e_breakerUntil e) \<and> Before now (e_breakerUntil e) then False
      else if \<not> IsZero (e_degradeUntil e) \<and> Before now (e_degradeUntil e) then False
      else True)"

definition modelExempt :: "entry \<Rightarrow> bool" where
  "modelExempt e = (e_modelCooldowns e \<noteq> [] \<and> \<not> e_disabled e \<and> \<not> e_manualDisabled e \<and>
     IsZero (e_breakerUntil e))"

definition modelCooled :: "entry \<Rightarrow> gtime \<Rightarrow> string \<Rightarrow> bool" where
  "modelCooled e now reqModel =
     (if reqModel = [] then False
      else case gm_get (e_modelCooldowns e) reqModel of
        None \<Rightarrow> False
      | Some mc \<Rightarrow> \<not> IsZero (mc_Until mc) \<and> Before now (mc_Until mc))"

definition healthyForModel :: "entry \<Rightarrow> gtime \<Rightarrow> string \<Rightarrow> bool" where
  "healthyForModel e now reqModel =
     (if \<not> healthy e now then False else if modelCooled e now reqModel then False else True)"

definition pruneExpiredModelCosts :: "gtime \<Rightarrow> entry \<Rightarrow> entry" where
  "pruneExpiredModelCosts now e =
     (if e_modelCost e = [] then e
      else e\<lparr>e_modelCost := gm_filter (\<lambda>mc. \<not> cost_stale now mc) (e_modelCost e)\<rparr>)"

definition cooldown_over :: "gtime \<Rightarrow> modelCooldown \<Rightarrow> bool" where
  "cooldown_over now mc = (IsZero (mc_Until mc) \<or> \<not> Before now (mc_Until mc))"

definition pruneExpiredModelCooldowns :: "gtime \<Rightarrow> entry \<Rightarrow> entry" where
  "pruneExpiredModelCooldowns now e =
     (if e_modelCooldowns e = [] then e
      else e\<lparr>e_modelCooldowns := gm_filter (\<lambda>mc. \<not> cooldown_over now mc) (e_modelCooldowns e)\<rparr>)"

definition expiry :: "entry \<Rightarrow> gtime \<Rightarrow> gtime" where
  "expiry e now =
     (let t = (if \<not> IsZero (e_until e) \<and> Before now (e_until e) then e_until e else 0);
          t = (if \<not> IsZero (e_breakerUntil e) \<and> Before now (e_breakerUntil e) then
                 (if IsZero t \<or> Before (e_breakerUntil e) t then e_breakerUntil e else t)
               else t);
          t = (if \<not> IsZero (e_degradeUntil e) \<and> Before now (e_degradeUntil e) then
                 (if IsZero t \<or> Before (e_degradeUntil e) t then e_degradeUntil e else t)
               else t)
      in t)"

definition fallbackKind :: "entry \<Rightarrow> gtime \<Rightarrow> string" where
  "fallbackKind e now =
     (if \<not> IsZero (e_breakerUntil e) \<and> Before now (e_breakerUntil e) \<and>
         (IsZero (e_until e) \<or> \<not> Before now (e_until e) \<or> Before (e_breakerUntil e) (e_until e))
      then ''breaker'' else ''soft'')"

text \<open>Well-formed tables: a Go map binds a key once.\<close>

definition wf_entry :: "entry \<Rightarrow> bool" where
  "wf_entry e = (gm_wf (e_modelCooldowns e) \<and> gm_wf (e_modelCost e))"

section \<open>Facts about the predicates\<close>

text \<open>The deadlines of an entry that are running at \<open>now\<close>.\<close>

definition running :: "entry \<Rightarrow> gtime \<Rightarrow> gtime set" where
  "running e now = {t \<in> {e_until e, e_breakerUntil e, e_degradeUntil e}. t \<noteq> 0 \<and> now < t}"

lemma running_finite [simp]: "finite (running e now)"
  by (simp add: running_def)

lemma healthy_iff:
  "healthy e now \<longleftrightarrow> \<not> e_disabled e \<and> \<not> e_manualDisabled e \<and> running e now = {}"
  by (auto simp: healthy_def running_def IsZero_def)

lemma healthyForModel_iff:
  "healthyForModel e now m \<longleftrightarrow> healthy e now \<and> \<not> modelCooled e now m"
  by (simp add: healthyForModel_def)

lemma healthyForModel_Nil [simp]: "healthyForModel e now [] = healthy e now"
  by (simp add: healthyForModel_def modelCooled_def)

lemma running_mono: "now \<le> now' \<Longrightarrow> running e now' \<subseteq> running e now"
  by (auto simp: running_def)

lemma modelCooled_mono: "now \<le> now' \<Longrightarrow> modelCooled e now' m \<Longrightarrow> modelCooled e now m"
  by (auto simp: modelCooled_def split: if_splits option.splits)

text \<open>Health only improves with time: every obstacle but the two disable bits is a deadline.\<close>

lemma healthy_mono: "now \<le> now' \<Longrightarrow> healthy e now \<Longrightarrow> healthy e now'"
  using running_mono [of now now' e] by (auto simp: healthy_iff)

lemma healthyForModel_mono:
  "now \<le> now' \<Longrightarrow> healthyForModel e now m \<Longrightarrow> healthyForModel e now' m"
  using healthy_mono modelCooled_mono by (auto simp: healthyForModel_iff)

lemma expiry_zero_iff: "0 \<le> now \<Longrightarrow> expiry e now = 0 \<longleftrightarrow> running e now = {}"
  by (auto simp: expiry_def running_def IsZero_def Let_def)

lemma expiry_in_running: "running e now \<noteq> {} \<Longrightarrow> expiry e now \<in> running e now"
  by (auto simp: expiry_def running_def IsZero_def Let_def split: if_splits)

lemma expiry_least: "t \<in> running e now \<Longrightarrow> expiry e now \<le> t"
  by (auto simp: expiry_def running_def IsZero_def Let_def split: if_splits)

lemma expiry_Min:
  assumes "running e now \<noteq> {}"
  shows "expiry e now = Min (running e now)"
proof (rule sym, rule Min_eqI)
  show "finite (running e now)" by simp
  show "\<And>t. t \<in> running e now \<Longrightarrow> expiry e now \<le> t" by (rule expiry_least)
  show "expiry e now \<in> running e now" using assms by (rule expiry_in_running)
qed

lemma expiry_idle:
  assumes "running e now = {}"
  shows "expiry e now = 0"
proof -
  have "\<not> (e_until e \<noteq> 0 \<and> now < e_until e)" "\<not> (e_breakerUntil e \<noteq> 0 \<and> now < e_breakerUntil e)"
    "\<not> (e_degradeUntil e \<noteq> 0 \<and> now < e_degradeUntil e)"
    using assms by (auto simp: running_def)
  then show ?thesis by (simp only: expiry_def IsZero_def Let_def if_False)
qed

lemma expiry_cong: "running e now = running f now \<Longrightarrow> expiry e now = expiry f now"
  using expiry_idle [of e now] expiry_idle [of f now] expiry_Min [of e now] expiry_Min [of f now]
  by metis

lemma prune_cooldowns_sel:
  "e_modelCooldowns (pruneExpiredModelCooldowns now e) =
     gm_filter (\<lambda>mc. \<not> cooldown_over now mc) (e_modelCooldowns e)"
  by (simp add: pruneExpiredModelCooldowns_def gm_filter_def)

lemma prune_costs_sel:
  "e_modelCost (pruneExpiredModelCosts now e) =
     gm_filter (\<lambda>mc. \<not> cost_stale now mc) (e_modelCost e)"
  by (simp add: pruneExpiredModelCosts_def gm_filter_def)

definition prune_entry :: "gtime \<Rightarrow> entry \<Rightarrow> entry" where
  "prune_entry now e = pruneExpiredModelCosts now (pruneExpiredModelCooldowns now e)"

lemma prune_entry_frame [simp]:
  "e_a (prune_entry now e) = e_a e"
  "e_credits (prune_entry now e) = e_credits e"
  "e_creditsExpiring (prune_entry now e) = e_creditsExpiring e"
  "e_until (prune_entry now e) = e_until e"
  "e_coolKind (prune_entry now e) = e_coolKind e"
  "e_breakerUntil (prune_entry now e) = e_breakerUntil e"
  "e_degradeUntil (prune_entry now e) = e_degradeUntil e"
  "e_disabled (prune_entry now e) = e_disabled e"
  "e_manualDisabled (prune_entry now e) = e_manualDisabled e"
  "e_manualReason (prune_entry now e) = e_manualReason e"
  "e_usedSeq (prune_entry now e) = e_usedSeq e"
  "e_lastUsed (prune_entry now e) = e_lastUsed e"
  "e_inFlight (prune_entry now e) = e_inFlight e"
  by (simp_all add: prune_entry_def pruneExpiredModelCosts_def pruneExpiredModelCooldowns_def)

lemma prune_entry_cooldowns:
  "e_modelCooldowns (prune_entry now e) =
     gm_filter (\<lambda>mc. \<not> cooldown_over now mc) (e_modelCooldowns e)"
  by (simp add: prune_entry_def pruneExpiredModelCosts_def prune_cooldowns_sel)

lemma prune_entry_costs:
  "e_modelCost (prune_entry now e) = gm_filter (\<lambda>mc. \<not> cost_stale now mc) (e_modelCost e)"
  by (simp add: prune_entry_def prune_costs_sel)
    (simp add: pruneExpiredModelCooldowns_def)

lemma prune_entry_wf: "wf_entry e \<Longrightarrow> wf_entry (prune_entry now e)"
  by (simp add: wf_entry_def prune_entry_cooldowns prune_entry_costs gm_filter_wf)

lemma prune_entry_running [simp]: "running (prune_entry now e) t = running e t"
  by (simp add: running_def)

lemma prune_entry_healthy [simp]: "healthy (prune_entry now e) t = healthy e t"
  by (simp add: healthy_iff)

lemma prune_entry_expiry [simp]: "expiry (prune_entry now e) t = expiry e t"
  by (simp only: expiry_def prune_entry_frame)

text \<open>Pruning removes only what the read side ignores already, now and at any later time.\<close>

lemma prune_entry_modelCooled:
  assumes "wf_entry e" and "now \<le> t"
  shows "modelCooled (prune_entry now e) t m = modelCooled e t m"
  using assms
  by (auto simp: modelCooled_def prune_entry_cooldowns gm_filter_get wf_entry_def
      cooldown_over_def IsZero_def split: option.splits)

lemma prune_entry_healthyForModel:
  assumes "wf_entry e" and "now \<le> t"
  shows "healthyForModel (prune_entry now e) t m = healthyForModel e t m"
  using prune_entry_modelCooled [OF assms] by (simp add: healthyForModel_iff)

lemma prune_entry_modelCostOf:
  assumes "wf_entry e" and "now \<le> t"
  shows "modelCostOf (prune_entry now e) m t = modelCostOf e m t"
  using assms Sub_mono [of now t]
  by (auto simp: modelCostOf_def prune_entry_costs gm_filter_get wf_entry_def cost_stale_def
      IsZero_def split: option.splits dest: order_less_le_trans)

end
