(* ===== verification/Pool.thy ===== *)
theory Pool
  imports Entry
begin

text \<open>
  The account pool itself, after \<^verbatim>\<open>src/internal/pool/pool.go\<close>: its record, the constructor, the
  setters that inject configuration, the per-account in-flight lease, and the insertion of accounts.
  The pool mutex makes each exported method atomic, so a method is a function from the pool to the
  pool. Two package variables that the code reads (\<open>globalEnabled\<close> of the auth package and
  \<open>minPickGap\<close> of the pick code) are the record \<open>pkgvars\<close>. The pool invariant \<open>pool_inv\<close> and the
  interface \<open>entry_update\<close>, through which every single-account operation is shown to keep it, close
  the theory.
\<close>

record pkgvars =
  pv_globalEnabled :: bool
  pv_minPickGap :: duration

record pool =
  p_byUID :: "(uid, entry) gomap"
  p_stateFp :: string
  p_dirty :: bool
  p_store :: bool
  p_breakerThreshold :: int
  p_breakerCooldown :: duration
  p_breakerCooldownMax :: duration
  p_softRateMax :: duration
  p_costExploreInterval :: duration
  p_exploreLast :: "(string, gtime) gomap"
  p_costExploreEvents :: int
  p_degradeThreshold :: int
  p_degradeCooldown :: duration
  p_degradeCooldownMax :: duration
  p_idleWeightPerHour :: rat
  p_idleWeightMax :: rat
  p_maxInFlight :: int
  p_maxInFlightGlobal :: int
  p_persistFails :: int
  p_pickSeq :: nat

text \<open>The literal that \<open>New\<close> builds, before any state file is loaded.\<close>

definition New_pool :: "string \<Rightarrow> pool" where
  "New_pool stateFp = \<lparr>p_byUID = [], p_stateFp = stateFp, p_dirty = False, p_store = False,
     p_breakerThreshold = defaultBreakerThreshold, p_breakerCooldown = defaultBreakerCooldown,
     p_breakerCooldownMax = defaultBreakerCooldownMax, p_softRateMax = 0,
     p_costExploreInterval = defaultCostExploreInterval, p_exploreLast = [],
     p_costExploreEvents = 0, p_degradeThreshold = defaultDegradeThreshold,
     p_degradeCooldown = defaultDegradeCooldown, p_degradeCooldownMax = defaultDegradeCooldownMax,
     p_idleWeightPerHour = defaultIdleWeightPerHour, p_idleWeightMax = defaultIdleWeightMax,
     p_maxInFlight = 0, p_maxInFlightGlobal = 0, p_persistFails = 0, p_pickSeq = 0\<rparr>"

section \<open>Setters\<close>

definition SetBreaker :: "int \<Rightarrow> duration \<Rightarrow> duration \<Rightarrow> pool \<Rightarrow> pool" where
  "SetBreaker threshold cooldown cooldownMax p =
     (let p = (if threshold > 0 then p\<lparr>p_breakerThreshold := threshold\<rparr> else p);
          p = (if cooldown > 0 then p\<lparr>p_breakerCooldown := cooldown\<rparr> else p);
          p = (if cooldownMax > 0 then p\<lparr>p_breakerCooldownMax := cooldownMax\<rparr> else p)
      in p)"

definition SetSoftRateMax :: "duration \<Rightarrow> pool \<Rightarrow> pool" where
  "SetSoftRateMax d p = (if d > 0 then p\<lparr>p_softRateMax := d\<rparr> else p)"

definition SetCostExploreInterval :: "duration \<Rightarrow> pool \<Rightarrow> pool" where
  "SetCostExploreInterval d p = (if d < 0 then p else p\<lparr>p_costExploreInterval := d\<rparr>)"

definition SetDegrade :: "int \<Rightarrow> duration \<Rightarrow> duration \<Rightarrow> pool \<Rightarrow> pool" where
  "SetDegrade threshold cooldown cooldownMax p =
     (let p = (if threshold > 0 then p\<lparr>p_degradeThreshold := threshold\<rparr> else p);
          p = (if cooldown > 0 then p\<lparr>p_degradeCooldown := cooldown\<rparr> else p);
          p = (if cooldownMax > 0 then p\<lparr>p_degradeCooldownMax := cooldownMax\<rparr> else p)
      in p)"

definition SetWeights :: "rat \<Rightarrow> rat \<Rightarrow> pool \<Rightarrow> pool" where
  "SetWeights idlePerHour idleMax p =
     (let p = (if idlePerHour > 0 then p\<lparr>p_idleWeightPerHour := idlePerHour\<rparr> else p);
          p = (if idleMax > 0 then p\<lparr>p_idleWeightMax := idleMax\<rparr> else p)
      in p)"

definition SetMaxInFlight :: "int \<Rightarrow> pool \<Rightarrow> pool" where
  "SetMaxInFlight n p = (if n \<ge> 0 then p\<lparr>p_maxInFlight := n\<rparr> else p)"

definition SetMaxInFlightGlobal :: "int \<Rightarrow> pool \<Rightarrow> pool" where
  "SetMaxInFlightGlobal n p = (if n \<ge> 0 then p\<lparr>p_maxInFlightGlobal := n\<rparr> else p)"

definition SetStore :: "bool \<Rightarrow> pool \<Rightarrow> pool" where
  "SetStore s p = p\<lparr>p_store := s\<rparr>"

text \<open>
  The explore ledger that the status page shows; the separator byte 31 is shown as a bar. Two keys
  that become equal this way overwrite each other, so the iteration order \<open>it\<close> matters.
\<close>

definition bar_key :: "string \<Rightarrow> string" where
  "bar_key k = map (\<lambda>c. if c = CHR 0x1F then CHR ''|'' else c) k"

definition CostExploreStatus :: "string list \<Rightarrow> pool \<Rightarrow> int \<times> (string, gtime) gomap" where
  "CostExploreStatus it p = (p_costExploreEvents p,
     foldl (\<lambda>m (k, ts). gm_put (bar_key k) ts m) [] (range_map it (p_exploreLast p)))"

section \<open>Updating one account\<close>

text \<open>
  The two shapes of a method on one account: look the entry up, do nothing if it is absent, else
  change it in place; \<open>touch_entry\<close> also sets the dirty flag.
\<close>

definition upd_entry :: "uid \<Rightarrow> (entry \<Rightarrow> entry) \<Rightarrow> pool \<Rightarrow> pool" where
  "upd_entry u f p = (case gm_get (p_byUID p) u of
      None \<Rightarrow> p
    | Some e \<Rightarrow> p\<lparr>p_byUID := gm_put u (f e) (p_byUID p)\<rparr>)"

definition touch_entry :: "uid \<Rightarrow> (entry \<Rightarrow> entry) \<Rightarrow> pool \<Rightarrow> pool" where
  "touch_entry u f p = (case gm_get (p_byUID p) u of
      None \<Rightarrow> p
    | Some e \<Rightarrow> p\<lparr>p_byUID := gm_put u (f e) (p_byUID p), p_dirty := True\<rparr>)"

section \<open>The in-flight lease\<close>

definition inFlightLimit :: "pkgvars \<Rightarrow> pool \<Rightarrow> entry \<Rightarrow> int" where
  "inFlightLimit v p e =
     (if p_maxInFlightGlobal p > 0 \<and> Realm (pv_globalEnabled v) (e_a e) = ''global''
      then p_maxInFlightGlobal p else p_maxInFlight p)"

definition inFlightFull :: "pkgvars \<Rightarrow> pool \<Rightarrow> entry \<Rightarrow> bool" where
  "inFlightFull v p e = (let limit = inFlightLimit v p e in
     if limit \<le> 0 then False else e_inFlight e \<ge> limit)"

definition Acquire :: "pkgvars \<Rightarrow> uid \<Rightarrow> pool \<Rightarrow> bool \<times> pool" where
  "Acquire v u p = (case gm_get (p_byUID p) u of
      None \<Rightarrow> (False, p)
    | Some e \<Rightarrow>
        let limit = inFlightLimit v p e;
            p' = upd_entry u (\<lambda>e. e\<lparr>e_inFlight := e_inFlight e + 1\<rparr>) p
        in if limit \<le> 0 then (True, p')
           else if e_inFlight e \<ge> limit then (False, p)
           else (True, p'))"

definition Release :: "uid \<Rightarrow> pool \<Rightarrow> pool" where
  "Release u p = (case gm_get (p_byUID p) u of
      None \<Rightarrow> p
    | Some e \<Rightarrow>
        if e_inFlight e \<le> 0 then p
        else upd_entry u (\<lambda>e. e\<lparr>e_inFlight := e_inFlight e - 1\<rparr>) p)"

section \<open>Inserting accounts\<close>

definition upsertLocked :: "auth \<Rightarrow> pool \<Rightarrow> pool" where
  "upsertLocked a p = (case gm_get (p_byUID p) (a_UID a) of
      Some e \<Rightarrow> p\<lparr>p_byUID := gm_put (a_UID a) (e\<lparr>e_a := a\<rparr>) (p_byUID p)\<rparr>
    | None \<Rightarrow> p\<lparr>p_byUID := gm_put (a_UID a) (new_entry a) (p_byUID p)\<rparr>)"

definition Add :: "auth \<Rightarrow> pool \<Rightarrow> pool" where
  "Add a p = upsertLocked a p"

section \<open>The pool invariant\<close>

definition entry_ok :: "nat \<Rightarrow> uid \<Rightarrow> entry \<Rightarrow> bool" where
  "entry_ok seq u e = (a_UID (e_a e) = u \<and> wf_entry e \<and> e_usedSeq e \<le> seq \<and> 0 \<le> e_inFlight e)"

definition seq_distinct :: "(uid, entry) gomap \<Rightarrow> bool" where
  "seq_distinct m = (\<forall>u v e f. u \<noteq> v \<longrightarrow> gm_get m u = Some e \<longrightarrow> gm_get m v = Some f \<longrightarrow>
     e_usedSeq e = e_usedSeq f \<longrightarrow> e_usedSeq e = 0)"

definition pool_inv :: "pool \<Rightarrow> bool" where
  "pool_inv p = (gm_wf (p_byUID p) \<and>
     (\<forall>u e. gm_get (p_byUID p) u = Some e \<longrightarrow> entry_ok (p_pickSeq p) u e) \<and>
     seq_distinct (p_byUID p))"

lemma pool_invI:
  assumes "gm_wf (p_byUID p)"
    and "\<And>u e. gm_get (p_byUID p) u = Some e \<Longrightarrow> entry_ok (p_pickSeq p) u e"
    and "seq_distinct (p_byUID p)"
  shows "pool_inv p"
  using assms by (simp add: pool_inv_def)

lemma pool_inv_wf: "pool_inv p \<Longrightarrow> gm_wf (p_byUID p)"
  by (simp add: pool_inv_def)

lemma pool_inv_entry:
  "pool_inv p \<Longrightarrow> gm_get (p_byUID p) u = Some e \<Longrightarrow> entry_ok (p_pickSeq p) u e"
  by (simp add: pool_inv_def)

lemma pool_inv_uid: "pool_inv p \<Longrightarrow> gm_get (p_byUID p) u = Some e \<Longrightarrow> a_UID (e_a e) = u"
  by (auto dest: pool_inv_entry simp: entry_ok_def)

lemma pool_inv_wf_entry: "pool_inv p \<Longrightarrow> gm_get (p_byUID p) u = Some e \<Longrightarrow> wf_entry e"
  by (auto dest: pool_inv_entry simp: entry_ok_def)

lemma pool_inv_New: "pool_inv (New_pool fp)"
  by (simp add: pool_inv_def New_pool_def gm_wf_def seq_distinct_def)

text \<open>The invariant speaks of the accounts and the pick counter only.\<close>

lemma pool_inv_cong:
  "p_byUID p = p_byUID q \<Longrightarrow> p_pickSeq p = p_pickSeq q \<Longrightarrow> pool_inv p = pool_inv q"
  by (simp add: pool_inv_def)

lemma pool_inv_map:
  assumes "pool_inv p"
    and "gm_wf m"
    and "\<And>u e'. gm_get m u = Some e' \<Longrightarrow> \<exists>e. gm_get (p_byUID p) u = Some e \<and>
           a_UID (e_a e') = a_UID (e_a e) \<and> e_usedSeq e' = e_usedSeq e \<and>
           wf_entry e' \<and> 0 \<le> e_inFlight e'"
  shows "pool_inv (p\<lparr>p_byUID := m\<rparr>)"
proof (rule pool_invI)
  show "gm_wf (p_byUID (p\<lparr>p_byUID := m\<rparr>))" using assms(2) by simp
next
  fix u e' assume "gm_get (p_byUID (p\<lparr>p_byUID := m\<rparr>)) u = Some e'"
  with assms(3) obtain e where "gm_get (p_byUID p) u = Some e" "a_UID (e_a e') = a_UID (e_a e)"
    "e_usedSeq e' = e_usedSeq e" "wf_entry e'" "0 \<le> e_inFlight e'" by auto
  with pool_inv_entry [OF assms(1)] show "entry_ok (p_pickSeq (p\<lparr>p_byUID := m\<rparr>)) u e'"
    by (auto simp: entry_ok_def)
next
  have "seq_distinct (p_byUID p)" using assms(1) by (simp add: pool_inv_def)
  then show "seq_distinct (p_byUID (p\<lparr>p_byUID := m\<rparr>))"
    unfolding seq_distinct_def using assms(3) by simp (metis option.inject)
qed

text \<open>
  The contract of an operation on one account: it keeps the account's identity, its place in the
  selection order, well-formed tables and a non-negative lease. Such an operation keeps the pool
  invariant, whichever account it is applied to.
\<close>

locale entry_update =
  fixes f :: "entry \<Rightarrow> entry"
  assumes keeps_uid: "a_UID (e_a (f e)) = a_UID (e_a e)"
    and keeps_seq: "e_usedSeq (f e) = e_usedSeq e"
    and keeps_wf: "wf_entry e \<Longrightarrow> wf_entry (f e)"
    and keeps_lease: "0 \<le> e_inFlight e \<Longrightarrow> 0 \<le> e_inFlight (f e)"
begin

lemma upd_inv:
  assumes "pool_inv p"
  shows "pool_inv (upd_entry u f p)"
proof (cases "gm_get (p_byUID p) u")
  case (Some e)
  show ?thesis
    unfolding upd_entry_def Some option.case
    by (rule pool_inv_map [OF assms gm.wf_put [OF pool_inv_wf [OF assms]]])
      (use Some pool_inv_entry [OF assms] keeps_uid keeps_seq keeps_wf keeps_lease in
        \<open>auto simp: entry_ok_def split: if_splits\<close>)
qed (use assms in \<open>simp add: upd_entry_def\<close>)

lemma touch_inv: "pool_inv p \<Longrightarrow> pool_inv (touch_entry u f p)"
proof -
  assume "pool_inv p"
  then have "pool_inv (upd_entry u f p)" by (rule upd_inv)
  moreover have "p_byUID (touch_entry u f p) = p_byUID (upd_entry u f p)"
    "p_pickSeq (touch_entry u f p) = p_pickSeq (upd_entry u f p)"
    by (simp_all add: touch_entry_def upd_entry_def split: option.split)
  ultimately show ?thesis using pool_inv_cong by blast
qed

end

lemma get_upd_entry:
  "gm_get (p_byUID (upd_entry u f p)) v =
     (if v = u then map_option f (gm_get (p_byUID p) u) else gm_get (p_byUID p) v)"
  by (simp add: upd_entry_def split: option.split)

lemma get_touch_entry:
  "gm_get (p_byUID (touch_entry u f p)) v =
     (if v = u then map_option f (gm_get (p_byUID p) u) else gm_get (p_byUID p) v)"
  by (simp add: touch_entry_def split: option.split)

lemma upd_entry_frame [pool_frame]:
  "p_pickSeq (upd_entry u f p) = p_pickSeq p"
  "p_breakerThreshold (upd_entry u f p) = p_breakerThreshold p"
  "p_maxInFlight (upd_entry u f p) = p_maxInFlight p"
  "p_maxInFlightGlobal (upd_entry u f p) = p_maxInFlightGlobal p"
  by (simp_all add: upd_entry_def split: option.split)

lemma touch_entry_frame [pool_frame]:
  "p_pickSeq (touch_entry u f p) = p_pickSeq p"
  "p_breakerThreshold (touch_entry u f p) = p_breakerThreshold p"
  "p_degradeThreshold (touch_entry u f p) = p_degradeThreshold p"
  "p_maxInFlight (touch_entry u f p) = p_maxInFlight p"
  "p_maxInFlightGlobal (touch_entry u f p) = p_maxInFlightGlobal p"
  by (simp_all add: touch_entry_def split: option.split)

interpretation lease_up: entry_update "\<lambda>e. e\<lparr>e_inFlight := e_inFlight e + 1\<rparr>"
  by unfold_locales (simp_all add: wf_entry_def)

lemma pool_inv_Acquire: "pool_inv p \<Longrightarrow> pool_inv (snd (Acquire v u p))"
  by (auto simp: Acquire_def Let_def split: option.split intro: lease_up.upd_inv)

lemma pool_inv_Release:
  assumes "pool_inv p"
  shows "pool_inv (Release u p)"
proof (cases "gm_get (p_byUID p) u")
  case (Some e)
  have "pool_inv (p\<lparr>p_byUID := gm_put u (e\<lparr>e_inFlight := e_inFlight e - 1\<rparr>) (p_byUID p)\<rparr>)"
    if "\<not> e_inFlight e \<le> 0"
    by (rule pool_inv_map [OF assms gm.wf_put [OF pool_inv_wf [OF assms]]])
      (use Some that pool_inv_entry [OF assms] in
        \<open>auto simp: entry_ok_def wf_entry_def split: if_splits\<close>)
  with assms Some show ?thesis by (simp add: Release_def upd_entry_def)
qed (use assms in \<open>simp add: Release_def\<close>)

lemma pool_inv_upsert:
  assumes "pool_inv p"
  shows "pool_inv (upsertLocked a p)"
proof (cases "gm_get (p_byUID p) (a_UID a)")
  case (Some e)
  show ?thesis
    unfolding upsertLocked_def Some option.case
    by (rule pool_inv_map [OF assms gm.wf_put [OF pool_inv_wf [OF assms]]])
      (use Some pool_inv_entry [OF assms] in
        \<open>auto simp: entry_ok_def wf_entry_def split: if_splits\<close>)
next
  case None
  have new: "wf_entry (new_entry a)" "e_usedSeq (new_entry a) = 0" "e_inFlight (new_entry a) = 0"
    "e_a (new_entry a) = a"
    by (simp_all add: new_entry_def wf_entry_def gm_wf_def)
  show ?thesis
  proof (rule pool_invI)
    show "gm_wf (p_byUID (upsertLocked a p))"
      using None gm.wf_put pool_inv_wf [OF assms] by (simp add: upsertLocked_def)
    show "entry_ok (p_pickSeq (upsertLocked a p)) u e"
      if "gm_get (p_byUID (upsertLocked a p)) u = Some e" for u e
      using that None new pool_inv_entry [OF assms]
      by (auto simp: upsertLocked_def entry_ok_def split: if_splits)
    show "seq_distinct (p_byUID (upsertLocked a p))"
      using None new assms unfolding pool_inv_def seq_distinct_def upsertLocked_def
      by auto
  qed
qed

lemma upsert_get:
  "gm_get (p_byUID (upsertLocked a p)) u =
     (if u = a_UID a then
        Some (case gm_get (p_byUID p) u of Some e \<Rightarrow> e\<lparr>e_a := a\<rparr> | None \<Rightarrow> new_entry a)
      else gm_get (p_byUID p) u)"
  by (auto simp: upsertLocked_def split: option.split)

end
