(* ===== verification/Cooldown.thy ===== *)
theory Cooldown
  imports Pool
begin

text \<open>
  Cooling, blocking and degrading an account, after \<^verbatim>\<open>src/internal/pool/transition.go\<close>,
  \<^verbatim>\<open>cooldown.go\<close> and \<^verbatim>\<open>degrade.go\<close>. Each method is the entry transformer (suffix \<open>_e\<close>) that the
  code runs under the lock, lifted to the pool by \<open>touch_entry\<close>; each call of \<open>time.Now()\<close> is an
  argument. Durations are 64-bit: the shifts and doublings that could wrap go through \<open>wrap64\<close>.
\<close>

section \<open>Transition primitives\<close>

definition clearCoolingLocked :: "entry \<Rightarrow> entry" where
  "clearCoolingLocked e = e\<lparr>e_until := 0, e_coolKind := 0, e_reason := [], e_softStreak := 0,
     e_modelCooldowns := []\<rparr>"

definition disableLocked :: "string \<Rightarrow> entry \<Rightarrow> entry" where
  "disableLocked reason e = (clearCoolingLocked e)\<lparr>e_disabled := True, e_reason := reason\<rparr>"

definition reviveCoolingLocked :: "int \<Rightarrow> entry \<Rightarrow> entry" where
  "reviveCoolingLocked credits e = clearCoolingLocked (e\<lparr>e_credits := credits\<rparr>)"

definition setManualDisabledLocked :: "bool \<Rightarrow> string \<Rightarrow> entry \<Rightarrow> entry" where
  "setManualDisabledLocked disabled reason e = e\<lparr>e_manualDisabled := disabled,
     e_manualReason := (if disabled then reason else [])\<rparr>"

section \<open>Credits\<close>

definition SetCredits :: "uid \<Rightarrow> int \<Rightarrow> pool \<Rightarrow> pool" where
  "SetCredits u credits p = touch_entry u (\<lambda>e. e\<lparr>e_credits := credits\<rparr>) p"

definition clamp_expiring :: "int \<Rightarrow> int \<Rightarrow> int" where
  "clamp_expiring credits expiring =
     (let x = (if expiring < 0 then 0 else expiring) in if x > credits then credits else x)"

definition SetCreditsDetailed :: "uid \<Rightarrow> int \<Rightarrow> int \<Rightarrow> pool \<Rightarrow> pool" where
  "SetCreditsDetailed u credits expiring p =
     touch_entry u (\<lambda>e. e\<lparr>e_credits := credits,
       e_creditsExpiring := clamp_expiring credits expiring\<rparr>) p"

section \<open>Cooldowns\<close>

definition Cooldown_e :: "gtime \<Rightarrow> CoolKind \<Rightarrow> duration \<Rightarrow> string \<Rightarrow> entry \<Rightarrow> entry" where
  "Cooldown_e now kind d reason e = e\<lparr>e_until := now + d, e_coolKind := kind, e_reason := reason,
     e_modelCooldowns := []\<rparr>"

definition Cooldown :: "gtime \<Rightarrow> uid \<Rightarrow> CoolKind \<Rightarrow> duration \<Rightarrow> string \<Rightarrow> pool \<Rightarrow> pool" where
  "Cooldown now u kind d reason p = touch_entry u (Cooldown_e now kind d reason) p"

definition softRateMaxOr :: "pool \<Rightarrow> duration" where
  "softRateMaxOr p = (if p_softRateMax p > 0 then p_softRateMax p else defaultSoftRateMax)"

definition cappedSoftUntilLocked :: "pool \<Rightarrow> gtime \<Rightarrow> gtime \<Rightarrow> gtime" where
  "cappedSoftUntilLocked p now resetAt =
     (let cap = now + softRateMaxOr p in
      if After resetAt cap then cap
      else if After resetAt now then resetAt
      else now + Millisecond)"

definition softDurationLocked :: "pool \<Rightarrow> duration \<Rightarrow> int \<Rightarrow> duration" where
  "softDurationLocked p d streak =
     (if streak \<le> 1 then d
      else let shift = (if streak - 1 > softStreakShiftMax then softStreakShiftMax else streak - 1);
               d' = wrap64 (d * 2 ^ nat shift);
               mx = (if p_softRateMax p \<le> 0 then defaultSoftRateMax else p_softRateMax p)
           in if d' > mx \<or> d' \<le> 0 then mx else d')"

text \<open>A new soft limit advances the bounded back-off; one inside a running soft cooldown does not.\<close>

definition soft_backoff :: "pool \<Rightarrow> gtime \<Rightarrow> duration \<Rightarrow> entry \<Rightarrow> entry" where
  "soft_backoff p now base e =
     (if e_coolKind e \<noteq> CoolSoft \<or> \<not> Before now (e_until e) then
        e\<lparr>e_softStreak := e_softStreak e + 1,
          e_until := now + softDurationLocked p base (e_softStreak e + 1)\<rparr>
      else e)"

definition CooldownSoftForModel_e ::
  "pool \<Rightarrow> gtime \<Rightarrow> duration \<Rightarrow> gtime \<Rightarrow> string \<Rightarrow> string \<Rightarrow> entry \<Rightarrow> entry" where
  "CooldownSoftForModel_e p now base resetAt model reason e =
     (if \<not> IsZero resetAt then
        e\<lparr>e_modelCooldowns := gm_put model
          \<lparr>mc_Until = cappedSoftUntilLocked p now resetAt, mc_ResetAt = resetAt,
           mc_Reason = reason, mc_Hits = 0\<rparr> (e_modelCooldowns e)\<rparr>
      else (soft_backoff p now base e)\<lparr>e_coolKind := CoolSoft, e_reason := reason,
        e_modelCooldowns := []\<rparr>)"

definition CooldownSoftForModel ::
  "gtime \<Rightarrow> uid \<Rightarrow> duration \<Rightarrow> gtime \<Rightarrow> string \<Rightarrow> string \<Rightarrow> pool \<Rightarrow> pool" where
  "CooldownSoftForModel now u base resetAt model reason p =
     touch_entry u (CooldownSoftForModel_e p now base resetAt model reason) p"

definition CooldownSoftRate_e ::
  "pool \<Rightarrow> gtime \<Rightarrow> duration \<Rightarrow> gtime \<Rightarrow> string \<Rightarrow> entry \<Rightarrow> entry" where
  "CooldownSoftRate_e p now base resetAt reason e =
     (if \<not> IsZero resetAt then e\<lparr>e_until := cappedSoftUntilLocked p now resetAt\<rparr>
      else soft_backoff p now base e)
       \<lparr>e_coolKind := CoolSoft, e_reason := reason, e_modelCooldowns := []\<rparr>"

definition CooldownSoftRate ::
  "gtime \<Rightarrow> uid \<Rightarrow> duration \<Rightarrow> gtime \<Rightarrow> string \<Rightarrow> pool \<Rightarrow> pool" where
  "CooldownSoftRate now u base resetAt reason p =
     touch_entry u (CooldownSoftRate_e p now base resetAt reason) p"

section \<open>Blocking a model that the backend does not serve (11102)\<close>

text \<open>
  \<open>1 << uint(k)\<close> on a 64-bit integer: a negative \<open>k\<close> converts to a shift beyond the width, which
  yields 0.
\<close>

definition shl1 :: "int \<Rightarrow> int" where
  "shl1 k = (if k < 0 then 0 else wrap64 (2 ^ nat k))"

definition block_ttl :: "int \<Rightarrow> duration" where
  "block_ttl hits =
     (let d = wrap64 (modelBlockBaseTTL * shl1 (min (hits - 1) (int modelBlockShift))) in
      if d < modelBlockMaxTTL then d else modelBlockMaxTTL)"

definition block_hits :: "string \<Rightarrow> entry \<Rightarrow> int" where
  "block_hits model e =
     (case gm_get (e_modelCooldowns e) model of None \<Rightarrow> 0 | Some mc \<Rightarrow> mc_Hits mc) + 1"

definition BlockModelBackoff_e :: "gtime \<Rightarrow> string \<Rightarrow> string \<Rightarrow> entry \<Rightarrow> entry" where
  "BlockModelBackoff_e now model reason e =
     (let hits = block_hits model e in
      e\<lparr>e_modelCooldowns := gm_put model
        \<lparr>mc_Until = now + block_ttl hits, mc_ResetAt = 0, mc_Reason = reason, mc_Hits = hits\<rparr>
        (e_modelCooldowns e)\<rparr>)"

definition BlockModelBackoff :: "gtime \<Rightarrow> uid \<Rightarrow> string \<Rightarrow> string \<Rightarrow> pool \<Rightarrow> pool" where
  "BlockModelBackoff now u model reason p =
     (if u = [] \<or> model = [] then p else touch_entry u (BlockModelBackoff_e now model reason) p)"

definition BlockModelClear :: "uid \<Rightarrow> string \<Rightarrow> pool \<Rightarrow> pool" where
  "BlockModelClear u model p =
     (if u = [] \<or> model = [] then p
      else case gm_get (p_byUID p) u of
        None \<Rightarrow> p
      | Some e \<Rightarrow>
          if e_modelCooldowns e = [] then p
          else (case gm_get (e_modelCooldowns e) model of
              None \<Rightarrow> p
            | Some mc \<Rightarrow>
                if \<not> HasPrefix (mc_Reason mc) ''11102'' then p
                else touch_entry u
                  (\<lambda>e. e\<lparr>e_modelCooldowns := gm_del model (e_modelCooldowns e)\<rparr>) p))"

section \<open>The circuit breaker\<close>

fun breaker_loop :: "nat \<Rightarrow> duration \<Rightarrow> duration \<Rightarrow> duration" where
  "breaker_loop 0 mx d = d"
| "breaker_loop (Suc i) mx d =
     (let d' = wrap64 (d * 2) in if d' \<ge> mx then mx else breaker_loop i mx d')"

definition recordBreakerFailureLocked :: "pool \<Rightarrow> gtime \<Rightarrow> entry \<Rightarrow> entry" where
  "recordBreakerFailureLocked p now e =
     (let e = e\<lparr>e_fails := e_fails e + 1\<rparr> in
      if e_fails e < p_breakerThreshold p then e
      else let d = breaker_loop (nat (e_retryCount e)) (p_breakerCooldownMax p)
                     (p_breakerCooldown p)
           in e\<lparr>e_fails := 0, e_retryCount := e_retryCount e + 1, e_breakerUntil := now + d\<rparr>)"

section \<open>Hard cooldown until 04:00\<close>

text \<open>
  The location of \<open>now\<close> is a fixed offset from UTC, in nanoseconds (a zone without daylight
  saving changes); \<open>time.Date\<close> is then arithmetic on whole days since Go's zero time.
\<close>

definition local_day :: "int \<Rightarrow> gtime \<Rightarrow> int" where
  "local_day off t = (t + off) div (24 * Hour)"

definition local_hour :: "int \<Rightarrow> gtime \<Rightarrow> int" where
  "local_hour off t = (t + off) mod (24 * Hour) div Hour"

definition at_hour :: "int \<Rightarrow> int \<Rightarrow> int \<Rightarrow> gtime" where
  "at_hour off day h = day * (24 * Hour) + h * Hour - off"

definition nextDay4AM :: "int \<Rightarrow> gtime \<Rightarrow> gtime" where
  "nextDay4AM off now =
     (if local_hour off now < 4 then at_hour off (local_day off now) 4
      else at_hour off (local_day off now + 1) 4)"

definition CooldownUntilTomorrow4AM ::
  "int \<Rightarrow> gtime \<Rightarrow> gtime \<Rightarrow> uid \<Rightarrow> string \<Rightarrow> pool \<Rightarrow> pool" where
  "CooldownUntilTomorrow4AM off now now2 u reason p =
     Cooldown now2 u CoolHard (Sub (nextDay4AM off now) now) reason p"

section \<open>Degrading after consecutive unexplained failures\<close>

definition degradeDurationLocked :: "pool \<Rightarrow> duration" where
  "degradeDurationLocked p =
     (let d = (if p_degradeCooldown p \<le> 0 then defaultDegradeCooldown else p_degradeCooldown p);
          mx = (if p_degradeCooldownMax p \<le> 0 then defaultDegradeCooldownMax
                else p_degradeCooldownMax p)
      in if d > mx then mx else d)"

definition NoteFailures_e :: "pool \<Rightarrow> gtime \<Rightarrow> gtime \<Rightarrow> entry \<Rightarrow> entry" where
  "NoteFailures_e p now now2 e =
     (let e = e\<lparr>e_consecutiveFails := e_consecutiveFails e + 1\<rparr> in
      if e_consecutiveFails e < p_degradeThreshold p then e
      else let e = e\<lparr>e_consecutiveFails := 0\<rparr> in
           if \<not> IsZero (e_degradeUntil e) \<and> Before now (e_degradeUntil e) then e
           else e\<lparr>e_degradeUntil := now2 + degradeDurationLocked p\<rparr>)"

definition NoteFailures :: "gtime \<Rightarrow> gtime \<Rightarrow> uid \<Rightarrow> pool \<Rightarrow> pool" where
  "NoteFailures now now2 u p = touch_entry u (NoteFailures_e p now now2) p"

section \<open>Every transformer honours the entry contract\<close>

lemmas entry_trans_defs =
  clearCoolingLocked_def disableLocked_def reviveCoolingLocked_def setManualDisabledLocked_def
  Cooldown_e_def CooldownSoftForModel_e_def CooldownSoftRate_e_def soft_backoff_def
  BlockModelBackoff_e_def recordBreakerFailureLocked_def NoteFailures_e_def

lemma gm_wf_Nil [simp]: "gm_wf []"
  by (simp add: gm_wf_def)

interpretation disable: entry_update "disableLocked reason" for reason
  by unfold_locales (simp_all add: entry_trans_defs wf_entry_def)

interpretation revive: entry_update "reviveCoolingLocked credits" for credits
  by unfold_locales (simp_all add: entry_trans_defs wf_entry_def)

interpretation manual: entry_update "setManualDisabledLocked d reason" for d reason
  by unfold_locales (simp_all add: entry_trans_defs wf_entry_def)

interpretation set_credits: entry_update "\<lambda>e. e\<lparr>e_credits := credits\<rparr>" for credits
  by unfold_locales (simp_all add: wf_entry_def)

interpretation set_credits_detailed: entry_update
  "\<lambda>e. e\<lparr>e_credits := credits, e_creditsExpiring := x\<rparr>" for credits x
  by unfold_locales (simp_all add: wf_entry_def)

interpretation cooldown: entry_update "Cooldown_e now kind d reason" for now kind d reason
  by unfold_locales (simp_all add: entry_trans_defs wf_entry_def)

interpretation soft_model: entry_update "CooldownSoftForModel_e p now base resetAt model reason"
  for p now base resetAt model reason
  by unfold_locales (simp_all add: entry_trans_defs wf_entry_def gm.wf_put)

interpretation soft_rate: entry_update "CooldownSoftRate_e p now base resetAt reason"
  for p now base resetAt reason
  by unfold_locales (simp_all add: entry_trans_defs wf_entry_def)

interpretation block: entry_update "BlockModelBackoff_e now model reason" for now model reason
  by unfold_locales (simp_all add: entry_trans_defs wf_entry_def Let_def gm.wf_put)

interpretation block_clear: entry_update
  "\<lambda>e. e\<lparr>e_modelCooldowns := gm_del model (e_modelCooldowns e)\<rparr>" for model
  by unfold_locales (simp_all add: wf_entry_def gm.wf_del)

interpretation breaker: entry_update "recordBreakerFailureLocked p now" for p now
  by unfold_locales (simp_all add: entry_trans_defs wf_entry_def Let_def)

interpretation note_failures: entry_update "NoteFailures_e p now now2" for p now now2
  by unfold_locales (simp_all add: entry_trans_defs wf_entry_def Let_def)

section \<open>Facts about the durations\<close>

lemma softRateMaxOr_pos: "0 < softRateMaxOr p"
  by (simp add: softRateMaxOr_def defaultSoftRateMax_def time_units)

lemma Millisecond_pos [simp]: "0 < Millisecond"
  by (simp add: Millisecond_def)

lemma cappedSoftUntil_after: "now < cappedSoftUntilLocked p now resetAt"
  using softRateMaxOr_pos [of p] by (simp add: cappedSoftUntilLocked_def Let_def)

lemma cappedSoftUntil_le:
  "Millisecond \<le> softRateMaxOr p \<Longrightarrow> cappedSoftUntilLocked p now resetAt \<le> now + softRateMaxOr p"
  by (simp add: cappedSoftUntilLocked_def Let_def)

lemma softDuration_first: "streak \<le> 1 \<Longrightarrow> softDurationLocked p d streak = d"
  by (simp add: softDurationLocked_def)

lemma softDuration_later:
  assumes "1 < streak"
  shows "softDurationLocked p d streak =
    (let d' = wrap64 (d * 2 ^ nat (min (streak - 1) softStreakShiftMax)) in
     if d' > softRateMaxOr p \<or> d' \<le> 0 then softRateMaxOr p else d')"
proof -
  have "(if p_softRateMax p \<le> 0 then defaultSoftRateMax else p_softRateMax p) = softRateMaxOr p"
    by (simp add: softRateMaxOr_def)
  moreover have "(if streak - 1 > softStreakShiftMax then softStreakShiftMax else streak - 1) =
    min (streak - 1) softStreakShiftMax" by auto
  ultimately show ?thesis using assms by (simp only: softDurationLocked_def Let_def) simp
qed

lemma softDuration_range:
  "1 < streak \<Longrightarrow> 0 < softDurationLocked p d streak \<and> softDurationLocked p d streak \<le> softRateMaxOr p"
  using softRateMaxOr_pos [of p] by (simp add: softDuration_later Let_def)

lemma two_power_shift: "0 \<le> s \<Longrightarrow> s \<le> 16 \<Longrightarrow> (2::int) ^ nat s \<le> 65536"
  using power_increasing [of "nat s" 16 "2::int"] by simp

lemma softDuration_exact:
  assumes "0 < d" and "d \<le> 24 * Hour" and "1 < streak"
  shows "softDurationLocked p d streak =
    min (d * 2 ^ nat (min (streak - 1) softStreakShiftMax)) (softRateMaxOr p)"
proof -
  define s where "s = min (streak - 1) softStreakShiftMax"
  define x where "x = d * 2 ^ nat s"
  have bounds: "0 \<le> s" "s \<le> 16" using assms(3) by (auto simp: s_def softStreakShiftMax_def)
  have "x \<le> (24 * Hour) * 65536"
    using assms(1,2) two_power_shift [OF bounds] unfolding x_def by (intro mult_mono) auto
  moreover have pos: "0 < x" using assms(1) by (simp add: x_def)
  ultimately have "wrap64 x = x"
    by (intro wrap64_id) (simp_all add: time_units)
  with pos show ?thesis
    unfolding softDuration_later [OF assms(3)] s_def [symmetric] x_def [symmetric] Let_def
    by auto
qed

text \<open>
  The breaker loop doubles \<open>n\<close> times and stops at the maximum; below \<open>2 ^ 62\<close> nothing wraps.
\<close>

lemma breaker_loop_eq:
  assumes "0 < d" and "d < 2 ^ 62" and "mx \<le> 2 ^ 62"
  shows "breaker_loop n mx d = (if n = 0 then d else min (d * 2 ^ n) mx)"
  using assms
proof (induction n arbitrary: d)
  case (Suc n)
  have w: "wrap64 (d * 2) = d * 2"
    using Suc.prems by (intro wrap64_id) auto
  have pow: "d * 2 \<le> d * 2 ^ Suc n"
    using Suc.prems(1) by simp
  show ?case
  proof (cases "mx \<le> d * 2")
    case True
    with pow w show ?thesis by (simp add: Let_def min_def)
  next
    case False
    then have "breaker_loop n mx (d * 2) = (if n = 0 then d * 2 else min (d * 2 * 2 ^ n) mx)"
      using Suc.prems by (intro Suc.IH) auto
    with False w show ?thesis by (simp add: Let_def min_def mult.assoc)
  qed
qed simp

lemma block_ttl_first: "block_ttl 1 = modelBlockBaseTTL"
  by (simp add: block_ttl_def shl1_def modelBlockBaseTTL_def modelBlockMaxTTL_def time_units
      wrap64_def modelBlockShift_def)

lemma block_ttl_eq:
  assumes "1 \<le> hits"
  shows "block_ttl hits = min (modelBlockBaseTTL * 2 ^ nat (hits - 1)) modelBlockMaxTTL"
proof -
  define k where "k = nat (hits - 1)"
  have hits: "hits - 1 = int k" using assms by (simp add: k_def)
  show ?thesis
  proof (cases "k < 3")
    case True
    then consider "k = 0" | "k = 1" | "k = 2" by linarith
    then show ?thesis
      unfolding block_ttl_def hits
      by cases (simp_all add: shl1_def wrap64_def modelBlockBaseTTL_def modelBlockMaxTTL_def
          modelBlockShift_def time_units)
  next
    case False
    have big: "modelBlockMaxTTL \<le> modelBlockBaseTTL * 2 ^ m" if "3 \<le> m" for m :: nat
    proof -
      have "(2::int) ^ 3 \<le> 2 ^ m" using that by (rule power_increasing) simp
      then show ?thesis by (simp add: modelBlockBaseTTL_def modelBlockMaxTTL_def time_units)
    qed
    define j where "j = min k 6"
    have j: "3 \<le> j" "j \<le> 6" "min (int k) 6 = int j" using False by (auto simp: j_def)
    have "(2::int) ^ j \<le> 2 ^ 6" using j(2) by (rule power_increasing) simp
    then have "wrap64 (2 ^ j) = 2 ^ j" "wrap64 (modelBlockBaseTTL * 2 ^ j) = modelBlockBaseTTL * 2 ^ j"
      by (auto intro!: wrap64_id simp: modelBlockBaseTTL_def time_units)
        (simp_all add: order_trans [of _ 0])
    then show ?thesis
      using big [OF j(1)] big [of k] False j(3) unfolding block_ttl_def hits
      by (simp add: shl1_def modelBlockShift_def min_def)
  qed
qed

lemma degradeDuration_le:
  "degradeDurationLocked p \<le>
     (if p_degradeCooldownMax p \<le> 0 then defaultDegradeCooldownMax else p_degradeCooldownMax p)"
  by (simp add: degradeDurationLocked_def Let_def)

lemma degradeDuration_pos: "0 < degradeDurationLocked p"
  by (auto simp: degradeDurationLocked_def Let_def defaultDegradeCooldown_def
      defaultDegradeCooldownMax_def time_units)

section \<open>Facts about the local clock\<close>

lemma Hour_ns: "Hour = 3600000000000"
  by (simp add: time_units)

lemma local_split: "t + off = local_day off t * (24 * Hour) + (t + off) mod (24 * Hour)"
  unfolding local_day_def by (rule div_mult_mod_eq [symmetric])

lemma local_hour_of: "local_hour off t < h \<longleftrightarrow> (t + off) mod (24 * Hour) < h * Hour"
  unfolding local_hour_def Hour_ns by linarith

lemma at_hour_local:
  assumes "0 \<le> h" and "h < 24"
  shows "local_day off (at_hour off day h) = day" and "local_hour off (at_hour off day h) = h"
proof -
  have eq: "at_hour off day h + off = day * (24 * Hour) + h * Hour"
    by (simp add: at_hour_def)
  show "local_day off (at_hour off day h) = day"
    unfolding local_day_def eq Hour_ns using assms by (simp add: div_pos_pos_trivial)
  have "(day * (24 * Hour) + h * Hour) mod (24 * Hour) = h * Hour"
    unfolding Hour_ns using assms by (simp add: mod_pos_pos_trivial)
  then show "local_hour off (at_hour off day h) = h"
    unfolding local_hour_def eq by (simp add: Hour_ns)
qed

lemma nextDay4AM_hour: "local_hour off (nextDay4AM off now) = 4"
  by (simp add: nextDay4AM_def at_hour_local)

lemma nextDay4AM_bounds: "now < nextDay4AM off now" "nextDay4AM off now \<le> now + 24 * Hour"
proof -
  define r where "r = (now + off) mod (24 * Hour)"
  have split: "now = local_day off now * (24 * Hour) + r - off"
    using local_split [of now off] by (simp add: r_def)
  have r: "0 \<le> r" "r < 24 * Hour" by (simp_all add: Hour_ns r_def)
  have early: "local_hour off now < 4 \<longleftrightarrow> r < 4 * Hour"
    unfolding r_def by (rule local_hour_of)
  show "now < nextDay4AM off now"
    using split r early unfolding nextDay4AM_def at_hour_def distrib_right
    by (cases "local_hour off now < 4") simp_all
  show "nextDay4AM off now \<le> now + 24 * Hour"
    using split r early unfolding nextDay4AM_def at_hour_def distrib_right
    by (cases "local_hour off now < 4") (simp_all add: Hour_ns)
qed

end
