(* ===== verification/State.thy ===== *)
theory State
  imports Cooldown
begin

text \<open>
  How an account's state evolves with the outcome of requests, and what the pool reports about it,
  after \<^verbatim>\<open>src/internal/pool/state.go\<close> and \<^verbatim>\<open>realm.go\<close> (\<open>cooledReasonLocked\<close> is from
  \<^verbatim>\<open>persist.go\<close>). Queries range over the accounts in an order that Go leaves open: the enumeration
  \<open>it\<close> is an argument.
\<close>

section \<open>Disabling and reviving\<close>

definition Disable :: "uid \<Rightarrow> string \<Rightarrow> pool \<Rightarrow> pool" where
  "Disable u reason p = touch_entry u (disableLocked reason) p"

definition NoteSessionDead_e :: "entry \<Rightarrow> entry" where
  "NoteSessionDead_e e =
     (let e = e\<lparr>e_sessionDeadFails := e_sessionDeadFails e + 1\<rparr> in
      if e_sessionDeadFails e < sessionDeadThreshold then e
      else disableLocked sessionDeadReason (e\<lparr>e_sessionDeadFails := 0\<rparr>))"

definition NoteSessionDead :: "uid \<Rightarrow> pool \<Rightarrow> bool \<times> pool" where
  "NoteSessionDead u p = (case gm_get (p_byUID p) u of
      None \<Rightarrow> (False, p)
    | Some e \<Rightarrow> (\<not> e_sessionDeadFails e + 1 < sessionDeadThreshold,
                 touch_entry u NoteSessionDead_e p))"

definition ClearSessionDead :: "uid \<Rightarrow> pool \<Rightarrow> pool" where
  "ClearSessionDead u p = (case gm_get (p_byUID p) u of
      None \<Rightarrow> p
    | Some e \<Rightarrow> if e_sessionDeadFails e \<noteq> 0
        then touch_entry u (\<lambda>e. e\<lparr>e_sessionDeadFails := 0\<rparr>) p else p)"

definition ReviveDisabled :: "uid \<Rightarrow> pool \<Rightarrow> bool \<times> pool" where
  "ReviveDisabled u p = (case gm_get (p_byUID p) u of
      None \<Rightarrow> (False, p)
    | Some e \<Rightarrow> if \<not> e_disabled e then (False, p)
        else (True, touch_entry u
          (\<lambda>e. e\<lparr>e_disabled := False, e_reason := [], e_sessionDeadFails := 0\<rparr>) p))"

definition SetManualDisabled :: "uid \<Rightarrow> bool \<Rightarrow> string \<Rightarrow> pool \<Rightarrow> (bool \<times> bool) \<times> pool" where
  "SetManualDisabled u disabled reason p = (case gm_get (p_byUID p) u of
      None \<Rightarrow> ((False, False), p)
    | Some e \<Rightarrow>
        if e_manualDisabled e = disabled \<and> (\<not> disabled \<or> e_manualReason e = reason)
        then ((True, False), p)
        else ((True, True), touch_entry u (setManualDisabledLocked disabled reason) p))"

definition ManualDisabledState :: "uid \<Rightarrow> pool \<Rightarrow> bool \<times> string \<times> bool" where
  "ManualDisabledState u p = (case gm_get (p_byUID p) u of
      None \<Rightarrow> (False, [], False)
    | Some e \<Rightarrow> (e_manualDisabled e, e_manualReason e, True))"

definition ReenableIfCredits_e :: "int \<Rightarrow> entry \<Rightarrow> entry" where
  "ReenableIfCredits_e remain e =
     (if remain > 0 \<and> \<not> e_disabled e then reviveCoolingLocked remain e
      else e\<lparr>e_credits := remain\<rparr>)"

definition ReenableIfCredits :: "uid \<Rightarrow> int \<Rightarrow> pool \<Rightarrow> pool" where
  "ReenableIfCredits u remain p = touch_entry u (ReenableIfCredits_e remain) p"

section \<open>Outcomes of requests\<close>

definition NoteError_e :: "pool \<Rightarrow> gtime \<Rightarrow> gtime \<Rightarrow> entry \<Rightarrow> entry" where
  "NoteError_e p now now2 e =
     recordBreakerFailureLocked p now2 (e\<lparr>e_errTotal := e_errTotal e + 1, e_lastErr := now\<rparr>)"

definition NoteError :: "gtime \<Rightarrow> gtime \<Rightarrow> uid \<Rightarrow> pool \<Rightarrow> pool" where
  "NoteError now now2 u p = touch_entry u (NoteError_e p now now2) p"

definition ModelCost :: "gtime \<Rightarrow> uid \<Rightarrow> string \<Rightarrow> pool \<Rightarrow> rat \<times> bool" where
  "ModelCost now u model p = (case gm_get (p_byUID p) u of
      None \<Rightarrow> (0, False)
    | Some e \<Rightarrow> (case modelCostOf e model now of
        None \<Rightarrow> (0, False)
      | Some mc \<Rightarrow> (co_CostPer1k mc, True)))"

text \<open>Deducting the measured spend from the balance and, within it, from the expiring part.\<close>

definition deduct :: "rat \<Rightarrow> entry \<Rightarrow> entry" where
  "deduct credit e =
     (if credit > 0 then
        let d = trunc_rat (credit + 1 / 2);
            d = (if d > e_credits e then e_credits e else d);
            e = e\<lparr>e_credits := e_credits e - d\<rparr>
        in if e_creditsExpiring e > 0 then
             let d = (if d > e_creditsExpiring e then e_creditsExpiring e else d)
             in e\<lparr>e_creditsExpiring := e_creditsExpiring e - d\<rparr>
           else e
      else e)"

definition cost_alpha :: rat where "cost_alpha = 3 / 10"

definition observe_cost :: "gtime \<Rightarrow> rat \<Rightarrow> modelCostEntry option \<Rightarrow> modelCostEntry" where
  "observe_cost now per1k prev = (case prev of
      None \<Rightarrow> \<lparr>co_CostPer1k = per1k, co_LastSeen = now, co_Samples = 1\<rparr>
    | Some mc \<Rightarrow> \<lparr>co_CostPer1k = co_CostPer1k mc * (1 - cost_alpha) + per1k * cost_alpha,
        co_LastSeen = now, co_Samples = co_Samples mc + 1\<rparr>)"

definition NoteModelCost_e :: "gtime \<Rightarrow> string \<Rightarrow> rat \<Rightarrow> rat \<Rightarrow> entry \<Rightarrow> entry" where
  "NoteModelCost_e now model credit per1k e =
     (let e = deduct credit e in
      e\<lparr>e_modelCost := gm_put model (observe_cost now per1k (gm_get (e_modelCost e) model))
          (e_modelCost e)\<rparr>)"

definition NoteModelCost :: "gtime \<Rightarrow> uid \<Rightarrow> string \<Rightarrow> rat \<Rightarrow> int \<Rightarrow> pool \<Rightarrow> pool" where
  "NoteModelCost now u model credit tokens p =
     (if u = [] \<or> model = [] \<or> tokens \<le> 0 then p
      else let per1k = credit / of_int tokens * 1000;
               per1k = (if per1k < 0 then 0 else per1k)
           in touch_entry u (NoteModelCost_e now model credit per1k) p)"

definition NoteSuccess_e :: "gtime \<Rightarrow> entry \<Rightarrow> entry" where
  "NoteSuccess_e now e = e\<lparr>e_successCount := e_successCount e + 1, e_lastSuccess := now,
     e_fails := 0, e_retryCount := 0, e_breakerUntil := 0, e_softStreak := 0,
     e_sessionDeadFails := 0, e_consecutiveFails := 0, e_degradeUntil := 0\<rparr>"

definition NoteSuccess :: "gtime \<Rightarrow> uid \<Rightarrow> pool \<Rightarrow> pool" where
  "NoteSuccess now u p = touch_entry u (NoteSuccess_e now) p"

section \<open>Queries\<close>

definition AuthByUID :: "uid \<Rightarrow> pool \<Rightarrow> auth option" where
  "AuthByUID u p = map_option e_a (gm_get (p_byUID p) u)"

definition realm_matches :: "pkgvars \<Rightarrow> string \<Rightarrow> entry \<Rightarrow> bool" where
  "realm_matches v realm e = (realm = [] \<or> Realm (pv_globalEnabled v) (e_a e) = realm)"

definition availableUIDsLocked ::
  "pkgvars \<Rightarrow> uid list \<Rightarrow> string \<Rightarrow> (entry \<Rightarrow> bool) \<Rightarrow> pool \<Rightarrow> uid list" where
  "availableUIDsLocked v it realm health p =
     sort (map fst (filter (\<lambda>(u, e). realm_matches v realm e \<and> health e \<and> \<not> inFlightFull v p e)
       (range_map it (p_byUID p))))"

definition AvailableUIDs :: "pkgvars \<Rightarrow> uid list \<Rightarrow> gtime \<Rightarrow> pool \<Rightarrow> uid list" where
  "AvailableUIDs v it now p = availableUIDsLocked v it [] (\<lambda>e. healthy e now) p"

definition AvailableUIDsForModel ::
  "pkgvars \<Rightarrow> uid list \<Rightarrow> gtime \<Rightarrow> string \<Rightarrow> pool \<Rightarrow> uid list" where
  "AvailableUIDsForModel v it now model p =
     availableUIDsLocked v it [] (\<lambda>e. healthyForModel e now model) p"

definition AvailableUIDsForRealm ::
  "pkgvars \<Rightarrow> uid list \<Rightarrow> gtime \<Rightarrow> string \<Rightarrow> pool \<Rightarrow> uid list" where
  "AvailableUIDsForRealm v it now realm p = availableUIDsLocked v it realm (\<lambda>e. healthy e now) p"

definition AvailableUIDsForModelRealm ::
  "pkgvars \<Rightarrow> uid list \<Rightarrow> gtime \<Rightarrow> string \<Rightarrow> string \<Rightarrow> pool \<Rightarrow> uid list" where
  "AvailableUIDsForModelRealm v it now model realm p =
     availableUIDsLocked v it realm (\<lambda>e. healthyForModel e now model) p"

definition mark_used :: "gtime \<Rightarrow> uid \<Rightarrow> pool \<Rightarrow> pool" where
  "mark_used now u p = (let seq = Suc (p_pickSeq p) in
     (upd_entry u (\<lambda>e. e\<lparr>e_lastUsed := now, e_usedSeq := seq\<rparr>) p)\<lparr>p_pickSeq := seq\<rparr>)"

definition PickByUIDForModel ::
  "pkgvars \<Rightarrow> gtime \<Rightarrow> uid \<Rightarrow> string \<Rightarrow> pool \<Rightarrow> auth option \<times> pool" where
  "PickByUIDForModel v now u model p = (case gm_get (p_byUID p) u of
      None \<Rightarrow> (None, p)
    | Some e \<Rightarrow>
        if \<not> healthyForModel e now model then (None, p)
        else if inFlightFull v p e then (None, p)
        else (Some (e_a e), mark_used now u p))"

record counts =
  n_total :: nat
  n_healthy :: nat
  n_cooling :: nat
  n_disabled :: nat
  n_inFlightFull :: nat

definition count_step :: "pkgvars \<Rightarrow> gtime \<Rightarrow> string \<Rightarrow> pool \<Rightarrow> counts \<Rightarrow> entry \<Rightarrow> counts" where
  "count_step v now realm p c e =
     (if \<not> realm_matches v realm e then c
      else let c = c\<lparr>n_total := Suc (n_total c)\<rparr> in
        if e_disabled e \<or> e_manualDisabled e then c\<lparr>n_disabled := Suc (n_disabled c)\<rparr>
        else if \<not> healthy e now then c\<lparr>n_cooling := Suc (n_cooling c)\<rparr>
        else let c = c\<lparr>n_healthy := Suc (n_healthy c)\<rparr> in
          if inFlightFull v p e then c\<lparr>n_inFlightFull := Suc (n_inFlightFull c)\<rparr> else c)"

definition countsDetailedForRealm ::
  "pkgvars \<Rightarrow> uid list \<Rightarrow> gtime \<Rightarrow> string \<Rightarrow> pool \<Rightarrow> counts" where
  "countsDetailedForRealm v it now realm p =
     foldl (count_step v now realm p)
       \<lparr>n_total = 0, n_healthy = 0, n_cooling = 0, n_disabled = 0, n_inFlightFull = 0\<rparr>
       (map snd (range_map it (p_byUID p)))"

definition CountsDetailed :: "pkgvars \<Rightarrow> uid list \<Rightarrow> gtime \<Rightarrow> pool \<Rightarrow> counts" where
  "CountsDetailed v it now p = countsDetailedForRealm v it now [] p"

definition CountsDetailedForRealm ::
  "pkgvars \<Rightarrow> uid list \<Rightarrow> gtime \<Rightarrow> string \<Rightarrow> pool \<Rightarrow> counts" where
  "CountsDetailedForRealm v it now realm p = countsDetailedForRealm v it now realm p"

definition servableLocked :: "pkgvars \<Rightarrow> uid list \<Rightarrow> gtime \<Rightarrow> string \<Rightarrow> pool \<Rightarrow> bool" where
  "servableLocked v it now realm p =
     list_ex (\<lambda>(u, e). realm_matches v realm e \<and> \<not> inFlightFull v p e \<and>
       (healthy e now \<or> modelExempt e)) (range_map it (p_byUID p))"

definition ServableNow :: "pkgvars \<Rightarrow> uid list \<Rightarrow> gtime \<Rightarrow> pool \<Rightarrow> bool" where
  "ServableNow v it now p = servableLocked v it now [] p"

definition ServableForRealm :: "pkgvars \<Rightarrow> uid list \<Rightarrow> gtime \<Rightarrow> string \<Rightarrow> pool \<Rightarrow> bool" where
  "ServableForRealm v it now realm p = servableLocked v it now realm p"

section \<open>The status page\<close>

record RateLimitedModel =
  rl_Model :: string
  rl_Until :: gtime
  rl_ResetAt :: gtime
  rl_Reason :: string

record ModelCostStatus =
  ms_Model :: string
  ms_CostPer1k :: rat
  ms_LastSeen :: gtime
  ms_Samples :: int

record Status =
  st_UID :: uid
  st_Realm :: string
  st_Nickname :: string
  st_Credits :: int
  st_Cooling :: bool
  st_CoolKind :: string
  st_CoolRemaining :: int
  st_Until :: gtime
  st_Reason :: string
  st_SoftStreak :: int
  st_RateLimitedModels :: "RateLimitedModel list"
  st_ModelCosts :: "ModelCostStatus list"
  st_Disabled :: bool
  st_DisabledReason :: string
  st_ManualDisabled :: bool
  st_ManualReason :: string
  st_SuccessCount :: int
  st_ErrTotal :: int
  st_LastSuccessTime :: gtime
  st_LastErrTime :: gtime
  st_ConsecutiveFails :: int
  st_DegradeUntil :: gtime
  st_InFlight :: int
  st_BreakerFails :: int
  st_BreakerUntil :: gtime

definition cooledReasonLocked :: "entry \<Rightarrow> gtime \<Rightarrow> CoolKind \<times> string" where
  "cooledReasonLocked e now =
     (if e_disabled e \<or> (\<not> IsZero (e_until e) \<and> Before now (e_until e))
      then (e_coolKind e, e_reason e) else (0, []))"

definition rateLimitedModelsLocked :: "entry \<Rightarrow> gtime \<Rightarrow> RateLimitedModel list" where
  "rateLimitedModelsLocked e now =
     map (\<lambda>(m, mc). \<lparr>rl_Model = m, rl_Until = mc_Until mc, rl_ResetAt = mc_ResetAt mc,
            rl_Reason = mc_Reason mc\<rparr>)
       (filter (\<lambda>(m, mc). \<not> IsZero (mc_Until mc) \<and> Before now (mc_Until mc))
         (range_map (sort (gm_keys (e_modelCooldowns e))) (e_modelCooldowns e)))"

definition modelCostsStatusLocked :: "entry \<Rightarrow> gtime \<Rightarrow> ModelCostStatus list" where
  "modelCostsStatusLocked e now =
     (let models = map fst (filter (\<lambda>(m, mc). \<not> cost_stale now mc) (e_modelCost e)) in
      map (\<lambda>(m, mc). \<lparr>ms_Model = m, ms_CostPer1k = co_CostPer1k mc,
            ms_LastSeen = co_LastSeen mc, ms_Samples = co_Samples mc\<rparr>)
        (range_map (sort models) (e_modelCost e)))"

text \<open>
  \<open>statusOf\<close> reads the clock once for its tests and again in each of the three calls of
  \<open>time.Until\<close>; \<open>status_clock\<close> holds the four readings.
\<close>

record status_clock =
  ck_now :: gtime
  ck_until :: gtime
  ck_breaker :: gtime
  ck_degrade :: gtime

definition cool_remaining :: "status_clock \<Rightarrow> entry \<Rightarrow> int" where
  "cool_remaining ck e =
     (let remain = Sub (e_until e) (ck_until ck);
          remain = (let b = Sub (e_breakerUntil e) (ck_breaker ck) in if b > remain then b else remain);
          remain = (let d = Sub (e_degradeUntil e) (ck_degrade ck) in if d > remain then d else remain);
          secs = trunc_rat (of_int remain / of_int Second + 999 / 1000)
      in if secs < 0 then 0 else secs)"

definition statusOf :: "pkgvars \<Rightarrow> status_clock \<Rightarrow> uid \<Rightarrow> entry \<Rightarrow> Status" where
  "statusOf v ck u e =
     (let now = ck_now ck;
          reason = snd (cooledReasonLocked e now);
          cooling = (Before now (e_until e) \<or> Before now (e_breakerUntil e) \<or>
            Before now (e_degradeUntil e));
          degraded = (cooling \<and> reason = [] \<and> Before now (e_degradeUntil e))
      in \<lparr>st_UID = u, st_Realm = Realm (pv_globalEnabled v) (e_a e),
          st_Nickname = a_Nickname (e_a e), st_Credits = e_credits e, st_Cooling = cooling,
          st_CoolKind = (if degraded then ''degrade''
            else if cooling then CoolKind_String (e_coolKind e) else []),
          st_CoolRemaining = (if cooling then cool_remaining ck e else 0),
          st_Until = e_until e,
          st_Reason = (if degraded then degradeReason else reason),
          st_SoftStreak = e_softStreak e,
          st_RateLimitedModels = rateLimitedModelsLocked e now,
          st_ModelCosts = modelCostsStatusLocked e now,
          st_Disabled = e_disabled e,
          st_DisabledReason = (if e_disabled e then e_reason e else []),
          st_ManualDisabled = e_manualDisabled e,
          st_ManualReason = (if e_manualDisabled e then e_manualReason e else []),
          st_SuccessCount = e_successCount e, st_ErrTotal = e_errTotal e,
          st_LastSuccessTime = e_lastSuccess e, st_LastErrTime = e_lastErr e,
          st_ConsecutiveFails = e_consecutiveFails e, st_DegradeUntil = e_degradeUntil e,
          st_InFlight = e_inFlight e, st_BreakerFails = e_fails e,
          st_BreakerUntil = e_breakerUntil e\<rparr>)"

definition Status_of :: "pkgvars \<Rightarrow> status_clock \<Rightarrow> uid \<Rightarrow> pool \<Rightarrow> Status option" where
  "Status_of v ck u p = map_option (statusOf v ck u) (gm_get (p_byUID p) u)"

definition List_status :: "pkgvars \<Rightarrow> (uid \<Rightarrow> status_clock) \<Rightarrow> pool \<Rightarrow> Status list" where
  "List_status v ck p =
     map (\<lambda>(u, e). statusOf v (ck u) u e)
       (range_map (sort (gm_keys (p_byUID p))) (p_byUID p))"

section \<open>Every transformer honours the entry contract\<close>

lemma deduct_frame [simp]:
  "e_a (deduct c e) = e_a e" "e_usedSeq (deduct c e) = e_usedSeq e"
  "e_modelCooldowns (deduct c e) = e_modelCooldowns e" "e_modelCost (deduct c e) = e_modelCost e"
  "e_inFlight (deduct c e) = e_inFlight e"
  by (simp_all add: deduct_def Let_def)

interpretation session_dead: entry_update NoteSessionDead_e
  by unfold_locales (simp_all add: NoteSessionDead_e_def entry_trans_defs wf_entry_def Let_def)

interpretation clear_dead: entry_update "\<lambda>e. e\<lparr>e_sessionDeadFails := 0\<rparr>"
  by unfold_locales (simp_all add: wf_entry_def)

interpretation revive_disabled: entry_update
  "\<lambda>e. e\<lparr>e_disabled := False, e_reason := [], e_sessionDeadFails := 0\<rparr>"
  by unfold_locales (simp_all add: wf_entry_def)

interpretation reenable: entry_update "ReenableIfCredits_e remain" for remain
  by unfold_locales (simp_all add: ReenableIfCredits_e_def entry_trans_defs wf_entry_def)

interpretation note_error: entry_update "NoteError_e p now now2" for p now now2
  by unfold_locales (simp_all add: NoteError_e_def recordBreakerFailureLocked_def wf_entry_def
      Let_def)

interpretation model_cost: entry_update "NoteModelCost_e now model credit per1k"
  for now model credit per1k
  by unfold_locales (simp_all add: NoteModelCost_e_def wf_entry_def Let_def gm.wf_put)

interpretation note_success: entry_update "NoteSuccess_e now" for now
  by unfold_locales (simp_all add: NoteSuccess_e_def wf_entry_def)

text \<open>Selecting an account gives it the next sequence number, which no other account has.\<close>

lemma get_mark_used:
  "gm_get (p_byUID (mark_used now u p)) w =
     (if w = u then map_option (\<lambda>e. e\<lparr>e_lastUsed := now, e_usedSeq := Suc (p_pickSeq p)\<rparr>)
        (gm_get (p_byUID p) u)
      else gm_get (p_byUID p) w)"
  by (simp add: mark_used_def Let_def get_upd_entry)

lemma mark_used_frame [pool_frame]: "p_pickSeq (mark_used now u p) = Suc (p_pickSeq p)"
  by (simp add: mark_used_def Let_def)

lemma mark_used_keys: "gm_keys (p_byUID (mark_used now u p)) = gm_keys (p_byUID p)"
proof (cases "gm_get (p_byUID p) u")
  case (Some e)
  then have "u \<in> fst ` set (p_byUID p)" by (auto dest: map_of_SomeD intro: rev_image_eqI)
  with Some show ?thesis
    by (simp add: mark_used_def Let_def upd_entry_def gm_keys_def update_keys)
qed (simp add: mark_used_def Let_def upd_entry_def)

lemma pool_inv_mark_used:
  assumes "pool_inv p"
  shows "pool_inv (mark_used now u p)"
proof (rule pool_invI)
  show "gm_wf (p_byUID (mark_used now u p))"
    using pool_inv_wf [OF assms] mark_used_keys [of now u p] by (simp add: gm_wf_def gm_keys_def)
  fix w e assume "gm_get (p_byUID (mark_used now u p)) w = Some e"
  then show "entry_ok (p_pickSeq (mark_used now u p)) w e"
    using pool_inv_entry [OF assms]
    by (fastforce simp: get_mark_used entry_ok_def pool_frame wf_entry_def
        split: if_splits intro: le_SucI)
next
  have le: "e_usedSeq e \<le> p_pickSeq p" if "gm_get (p_byUID p) w = Some e" for w e
    using pool_inv_entry [OF assms that] by (simp add: entry_ok_def)
  have "seq_distinct (p_byUID p)" using assms by (simp add: pool_inv_def)
  then show "seq_distinct (p_byUID (mark_used now u p))"
    unfolding seq_distinct_def
    by (auto simp: get_mark_used split: if_splits dest: le)
qed

lemma pool_inv_PickByUID: "pool_inv p \<Longrightarrow> pool_inv (snd (PickByUIDForModel v now u m p))"
  by (auto simp: PickByUIDForModel_def pool_inv_mark_used split: option.split)

lemma pool_inv_NoteModelCost: "pool_inv p \<Longrightarrow> pool_inv (NoteModelCost now u m c t p)"
  by (auto simp: NoteModelCost_def Let_def intro: model_cost.touch_inv)

section \<open>Counting and listing\<close>

lemma counts_total:
  "n_total (foldl (count_step v now realm p) c es) =
     n_total c + length (filter (realm_matches v realm) es)"
  by (induction es arbitrary: c) (auto simp: count_step_def Let_def)

lemma counts_disabled:
  "n_disabled (foldl (count_step v now realm p) c es) = n_disabled c +
     length (filter (\<lambda>e. realm_matches v realm e \<and> (e_disabled e \<or> e_manualDisabled e)) es)"
  by (induction es arbitrary: c) (auto simp: count_step_def Let_def)

lemma counts_cooling:
  "n_cooling (foldl (count_step v now realm p) c es) = n_cooling c +
     length (filter (\<lambda>e. realm_matches v realm e \<and> \<not> (e_disabled e \<or> e_manualDisabled e) \<and>
       \<not> healthy e now) es)"
  by (induction es arbitrary: c) (auto simp: count_step_def Let_def)

lemma counts_healthy:
  "n_healthy (foldl (count_step v now realm p) c es) = n_healthy c +
     length (filter (\<lambda>e. realm_matches v realm e \<and> healthy e now) es)"
  by (induction es arbitrary: c) (auto simp: count_step_def Let_def healthy_iff)

lemma counts_full:
  "n_inFlightFull (foldl (count_step v now realm p) c es) = n_inFlightFull c +
     length (filter (\<lambda>e. realm_matches v realm e \<and> healthy e now \<and> inFlightFull v p e) es)"
  by (induction es arbitrary: c) (auto simp: count_step_def Let_def healthy_iff)

lemmas counts_fields = counts_total counts_disabled counts_cooling counts_healthy counts_full

lemma length_filter_split:
  "length (filter P xs) = length (filter (\<lambda>x. P x \<and> Q x) xs) + length (filter (\<lambda>x. P x \<and> \<not> Q x) xs)"
  by (induction xs) auto

lemma length_filter_le_imp: "(\<And>x. P x \<Longrightarrow> Q x) \<Longrightarrow> length (filter P xs) \<le> length (filter Q xs)"
  by (induction xs) auto

lemma range_entries_mset:
  assumes "gm_wf m" and "enumerates it m"
  shows "mset (map snd (range_map it m)) = mset (map snd m)"
  using mset_range_map [OF assms] by (metis mset_map)

lemma filter_range_entries:
  assumes "gm_wf m" and "enumerates it m"
  shows "length (filter P (map snd (range_map it m))) = length (filter P (map snd m))"
  using arg_cong [OF range_entries_mset [OF assms], of "\<lambda>M. size (filter_mset P M)"]
  by (metis mset_filter size_mset)

lemma set_available:
  assumes "enumerates it (p_byUID p)"
  shows "u \<in> set (availableUIDsLocked v it realm health p) \<longleftrightarrow>
    (\<exists>e. gm_get (p_byUID p) u = Some e \<and> realm_matches v realm e \<and> health e \<and>
      \<not> inFlightFull v p e)"
  using set_range_map [OF assms]
  by (force simp: availableUIDsLocked_def image_iff)

lemma distinct_available:
  assumes "enumerates it (p_byUID p)"
  shows "distinct (availableUIDsLocked v it realm health p)"
  using assms range_map_distinct [of it "p_byUID p"]
  by (simp add: availableUIDsLocked_def enumerates_def distinct_map_filter)

lemma sorted_available: "sorted (availableUIDsLocked v it realm health p)"
  by (simp add: availableUIDsLocked_def)

lemma available_order_free:
  assumes "enumerates it (p_byUID p)" and "enumerates it' (p_byUID p)"
  shows "availableUIDsLocked v it realm health p = availableUIDsLocked v it' realm health p"
  by (rule sorted_distinct_set_unique)
    (auto simp: sorted_available distinct_available [OF assms(1)] distinct_available [OF assms(2)]
      set_available [OF assms(1)] set_available [OF assms(2)])

lemma length_available:
  "length (availableUIDsLocked v it realm health p) =
     length (filter (\<lambda>e. realm_matches v realm e \<and> health e \<and> \<not> inFlightFull v p e)
       (map snd (range_map it (p_byUID p))))"
  by (simp add: availableUIDsLocked_def filter_map comp_def case_prod_beta')

section \<open>Balances\<close>

text \<open>The expiring part of a balance is a part of it.\<close>

definition credits_ok :: "entry \<Rightarrow> bool" where
  "credits_ok e = (0 \<le> e_creditsExpiring e \<and> e_creditsExpiring e \<le> e_credits e)"

lemma credits_ok_deduct: "credits_ok e \<Longrightarrow> credits_ok (deduct c e)"
  using trunc_rat_nonneg [of "c + 1 / 2"]
  by (auto simp: credits_ok_def deduct_def Let_def)

lemma credits_ok_clamp:
  "0 \<le> c \<Longrightarrow> 0 \<le> clamp_expiring c x \<and> clamp_expiring c x \<le> c"
  by (simp add: clamp_expiring_def Let_def)

lemma deduct_le: "0 \<le> e_credits e \<Longrightarrow> 0 \<le> e_credits (deduct c e) \<and> e_credits (deduct c e) \<le> e_credits e"
  using trunc_rat_nonneg [of "c + 1 / 2"] by (auto simp: deduct_def Let_def)

lemma observe_between:
  assumes "prev = Some mc"
  shows "min (co_CostPer1k mc) x \<le> co_CostPer1k (observe_cost now x prev) \<and>
    co_CostPer1k (observe_cost now x prev) \<le> max (co_CostPer1k mc) x"
proof -
  have "co_CostPer1k (observe_cost now x prev) =
      co_CostPer1k mc + (x - co_CostPer1k mc) * (3 / 10)"
    using assms by (simp add: observe_cost_def cost_alpha_def field_simps)
  then show ?thesis by (auto simp: min_def max_def field_simps)
qed

end
