(* ===== verification/Pick.thy ===== *)
theory Pick
  imports State
begin

text \<open>
  Choosing an account for a request, after \<^verbatim>\<open>src/internal/pool/pick.go\<close>: healthy candidates, the
  cost tiers and the conditional exploration, the three-factor weight, the top-five short list with
  its anti-herd gap, the weighted draw, and the fall-back to the account that recovers first.

  What a run takes from outside is \<open>pick_env\<close> (the two clock readings and the orders in
  which the two \<open>range\<close> loops visit the accounts) and \<open>pick_rand\<close> (the permutation that
  \<open>rand.Shuffle\<close> applies and the draw of \<open>Int64N\<close>). A pointer to an entry is its key.
\<close>

record pick_env =
  pe_now :: gtime
  pe_now2 :: gtime
  pe_it :: "uid list"
  pe_it2 :: "uid list"

record weighted =
  wt_uid :: uid
  wt_e :: entry
  wt_w :: rat
  wt_tier :: nat
  wt_cost1k :: rat

record pick_rand =
  pr_shuf :: "weighted list \<Rightarrow> weighted list"
  pr_int64N :: "int \<Rightarrow> int"

definition expiringWeight :: rat where "expiringWeight = 8"
definition weightEpsilon :: rat where "weightEpsilon = 1 / 1000000000"

section \<open>Weights\<close>

definition weightOf :: "pool \<Rightarrow> entry \<Rightarrow> int \<Rightarrow> gtime \<Rightarrow> rat" where
  "weightOf p e maxCredits now =
     (let w = 1;
          w = (if maxCredits > 0 then w + of_int (e_credits e) / of_int maxCredits * 10 else w);
          w = (if e_credits e > 0 \<and> e_creditsExpiring e > 0
               then w + of_int (e_creditsExpiring e) / of_int (e_credits e) * expiringWeight else w)
      in if IsZero (e_lastUsed e) then w + p_idleWeightMax p
         else let hours = of_int (Sub now (e_lastUsed e)) / of_int Hour;
                  idleW = hours * p_idleWeightPerHour p;
                  idleW = (if idleW > p_idleWeightMax p then p_idleWeightMax p else idleW);
                  idleW = (if idleW < 0 then 0 else idleW)
              in w + idleW)"

definition draw_weight :: "weighted \<Rightarrow> int" where
  "draw_weight c = (let wi = trunc_rat (wt_w c * 1000000 + 1 / 2) in if wi < 1 then 1 else wi)"

fun draw_loop :: "int \<Rightarrow> int \<Rightarrow> weighted list \<Rightarrow> weighted option" where
  "draw_loop r acc [] = None"
| "draw_loop r acc (c # cs) =
     (let acc = acc + draw_weight c in if r < acc then Some c else draw_loop r acc cs)"

definition pickWeighted :: "(int \<Rightarrow> int) \<Rightarrow> weighted list \<Rightarrow> weighted" where
  "pickWeighted rnd cands =
     (let total = sum_list (map draw_weight cands) in
      case draw_loop (rnd total) 0 cands of Some c \<Rightarrow> c | None \<Rightarrow> last cands)"

section \<open>Sorting the short list\<close>

definition wless :: "weighted \<Rightarrow> weighted \<Rightarrow> bool" where
  "wless x y =
     (if wt_cost1k x \<noteq> wt_cost1k y then wt_cost1k x < wt_cost1k y
      else if wt_w x \<noteq> wt_w y then wt_w x > wt_w y
      else a_UID (e_a (wt_e x)) < a_UID (e_a (wt_e y)))"

fun insert_stable :: "('a \<Rightarrow> 'a \<Rightarrow> bool) \<Rightarrow> 'a \<Rightarrow> 'a list \<Rightarrow> 'a list" where
  "insert_stable lt x [] = [x]"
| "insert_stable lt x (y # ys) =
     (if lt y x then y # insert_stable lt x ys else x # y # ys)"

definition SliceStable :: "('a \<Rightarrow> 'a \<Rightarrow> bool) \<Rightarrow> 'a list \<Rightarrow> 'a list" where
  "SliceStable lt xs = foldr (insert_stable lt) xs []"

section \<open>Candidates and tiers\<close>

definition costTier :: "string \<Rightarrow> gtime \<Rightarrow> entry \<Rightarrow> nat \<times> rat" where
  "costTier reqModel now e = (case modelCostOf e reqModel now of
      None \<Rightarrow> (1, 0)
    | Some mc \<Rightarrow> if co_CostPer1k mc \<le> 0 then (0, 0) else (2, co_CostPer1k mc))"

definition pick_candidates ::
  "pkgvars \<Rightarrow> gtime \<Rightarrow> uid list \<Rightarrow> uid list \<Rightarrow> string \<Rightarrow> string \<Rightarrow> pool \<Rightarrow> (uid \<times> entry) list" where
  "pick_candidates v now it tried reqModel realm p =
     filter (\<lambda>(u, e). u \<notin> set tried \<and>
         (realm_matches v realm e \<and>
           (if reqModel \<noteq> [] then healthyForModel e now reqModel else healthy e now)) \<and>
         \<not> inFlightFull v p e)
       (range_map it (p_byUID p))"

definition max_credits :: "(uid \<times> entry) list \<Rightarrow> int" where
  "max_credits cands = foldl (\<lambda>m (u, e). if e_credits e > m then e_credits e else m) 0 cands"

definition best_tier :: "string \<Rightarrow> gtime \<Rightarrow> (uid \<times> entry) list \<Rightarrow> nat" where
  "best_tier reqModel now cands =
     foldl (\<lambda>b (u, e). let ti = fst (costTier reqModel now e) in if ti < b then ti else b) 2 cands"

definition explore_key :: "string \<Rightarrow> string \<Rightarrow> string" where
  "explore_key realm reqModel = realm @ [CHR 0x1F] @ reqModel"

definition explore_last :: "pool \<Rightarrow> string \<Rightarrow> gtime" where
  "explore_last p key = (case gm_get (p_exploreLast p) key of None \<Rightarrow> 0 | Some t \<Rightarrow> t)"

definition explore_due ::
  "gtime \<Rightarrow> string \<Rightarrow> string \<Rightarrow> (uid \<times> entry) list \<Rightarrow> pool \<Rightarrow> bool" where
  "explore_due now reqModel realm cands p =
     (p_costExploreInterval p > 0 \<and> best_tier reqModel now cands = 0 \<and> reqModel \<noteq> [] \<and>
      list_ex (\<lambda>(u, e). fst (costTier reqModel now e) = 1) cands \<and>
      Sub now (explore_last p (explore_key realm reqModel)) \<ge> p_costExploreInterval p)"

definition build_weighted ::
  "pool \<Rightarrow> gtime \<Rightarrow> string \<Rightarrow> nat \<Rightarrow> (uid \<times> entry) list \<Rightarrow> weighted list" where
  "build_weighted p now reqModel tier cands =
     map (\<lambda>(u, e). \<lparr>wt_uid = u, wt_e = e, wt_w = weightOf p e (max_credits cands) now,
            wt_tier = fst (costTier reqModel now e), wt_cost1k = snd (costTier reqModel now e)\<rparr>)
       (filter (\<lambda>(u, e). fst (costTier reqModel now e) = tier) cands)"

definition has_equal_weight :: "weighted list \<Rightarrow> bool" where
  "has_equal_weight ws = (case ws of
      [] \<Rightarrow> False
    | x # xs \<Rightarrow> list_ex (\<lambda>y. \<bar>wt_w y - wt_w x\<bar> < weightEpsilon) xs)"

definition maybe_shuffle :: "(weighted list \<Rightarrow> weighted list) \<Rightarrow> weighted list \<Rightarrow> weighted list" where
  "maybe_shuffle shuf ws = (if length ws > 5 \<and> has_equal_weight ws then shuf ws else ws)"

definition short_list :: "pkgvars \<Rightarrow> gtime \<Rightarrow> weighted list \<Rightarrow> weighted list" where
  "short_list v now ws =
     filter (\<lambda>we. Sub now (e_lastUsed (wt_e we)) \<ge> pv_minPickGap v) (take 5 ws)"

definition lru_choice :: "weighted list \<Rightarrow> weighted" where
  "lru_choice ws = foldl (\<lambda>e c. if e_usedSeq (wt_e c) < e_usedSeq (wt_e e) then c else e)
     (hd ws) (tl ws)"

definition choose_account :: "pkgvars \<Rightarrow> gtime \<Rightarrow> (int \<Rightarrow> int) \<Rightarrow> weighted list \<Rightarrow> weighted" where
  "choose_account v now rnd ws =
     (let eligible = short_list v now ws in
      if eligible = [] then lru_choice ws else pickWeighted rnd eligible)"

section \<open>Picking\<close>

definition prune_all :: "gtime \<Rightarrow> pool \<Rightarrow> pool" where
  "prune_all now p = p\<lparr>p_byUID := map (\<lambda>(u, e). (u, prune_entry now e)) (p_byUID p)\<rparr>"

definition fallback_skip ::
  "pkgvars \<Rightarrow> gtime \<Rightarrow> uid list \<Rightarrow> string \<Rightarrow> pool \<Rightarrow> uid \<Rightarrow> entry \<Rightarrow> bool" where
  "fallback_skip v now tried realm p u e =
     (u \<in> set tried \<or> \<not> realm_matches v realm e \<or> e_disabled e \<or> e_manualDisabled e \<or>
      (e_coolKind e = CoolHard \<and> \<not> IsZero (e_until e) \<and> Before now (e_until e)) \<or>
      inFlightFull v p e \<or> IsZero (expiry e now))"

definition fallback_best ::
  "pkgvars \<Rightarrow> gtime \<Rightarrow> uid list \<Rightarrow> string \<Rightarrow> pool \<Rightarrow> (uid \<times> entry) list \<Rightarrow> (uid \<times> entry) option" where
  "fallback_best v now tried realm p xs =
     foldl (\<lambda>best (u, e).
       if fallback_skip v now tried realm p u e then best
       else case best of
           None \<Rightarrow> Some (u, e)
         | Some (bu, be) \<Rightarrow>
             if Before (expiry e now) (expiry be now) then Some (u, e) else best) None xs"

definition pickEarliestExpiryLocked ::
  "pkgvars \<Rightarrow> pick_env \<Rightarrow> uid list \<Rightarrow> string \<Rightarrow> pool \<Rightarrow> auth option \<times> pool" where
  "pickEarliestExpiryLocked v env tried realm p =
     (case fallback_best v (pe_now env) tried realm p (range_map (pe_it2 env) (p_byUID p)) of
        None \<Rightarrow> (None, p)
      | Some (u, e) \<Rightarrow> (Some (e_a e), mark_used (pe_now2 env) u p))"

definition pick ::
  "pkgvars \<Rightarrow> pick_env \<Rightarrow> pick_rand \<Rightarrow> uid list \<Rightarrow> string \<Rightarrow> string \<Rightarrow> pool \<Rightarrow> auth option \<times> pool"
where
  "pick v env rnd tried reqModel realm p =
     (let now = pe_now env;
          p = prune_all now p;
          cands = pick_candidates v now (pe_it env) tried reqModel realm p
      in if cands = [] then pickEarliestExpiryLocked v env tried realm p
         else
           let explored = explore_due now reqModel realm cands p;
               tier = (if explored then 1 else best_tier reqModel now cands);
               p = (if explored then
                      p\<lparr>p_exploreLast := gm_put (explore_key realm reqModel) now (p_exploreLast p),
                        p_costExploreEvents := p_costExploreEvents p + 1\<rparr>
                    else p);
               ws = SliceStable wless
                      (maybe_shuffle (pr_shuf rnd) (build_weighted p now reqModel tier cands));
               c = choose_account v now (pr_int64N rnd) ws
           in (Some (e_a (wt_e c)), mark_used now (wt_uid c) p))"

definition PickExcludingForRealm ::
  "pkgvars \<Rightarrow> pick_env \<Rightarrow> pick_rand \<Rightarrow> uid list \<Rightarrow> string \<Rightarrow> string \<Rightarrow> pool \<Rightarrow> auth option \<times> pool"
where
  "PickExcludingForRealm v env rnd tried reqModel realm p = pick v env rnd tried reqModel realm p"

definition Pick_model ::
  "pkgvars \<Rightarrow> pick_env \<Rightarrow> pick_rand \<Rightarrow> string \<Rightarrow> pool \<Rightarrow> auth option \<times> pool" where
  "Pick_model v env rnd model p = pick v env rnd [] model [] p"

section \<open>The stable sort\<close>

lemma mset_insert_stable: "mset (insert_stable lt x ys) = add_mset x (mset ys)"
  by (induction ys) auto

lemma mset_SliceStable: "mset (SliceStable lt xs) = mset xs"
  unfolding SliceStable_def by (induction xs) (auto simp: mset_insert_stable)

lemma set_SliceStable [simp]: "set (SliceStable lt xs) = set xs"
  using arg_cong [OF mset_SliceStable, of set_mset] by (metis set_mset_mset)

lemma SliceStable_Nil_iff [simp]: "SliceStable lt xs = [] \<longleftrightarrow> xs = []"
  by (metis mset_SliceStable mset_zero_iff)

text \<open>
  The contract of a comparator that \<open>sort.SliceStable\<close> needs: a strict weak order. Where it also
  separates the elements at hand, the sorted list depends on the set of elements only.
\<close>

locale comparator =
  fixes lt :: "'a \<Rightarrow> 'a \<Rightarrow> bool"
  assumes lt_asym: "lt x y \<Longrightarrow> \<not> lt y x"
    and lt_cotrans: "lt x z \<Longrightarrow> lt x y \<or> lt y z"
begin

lemma lt_trans: "lt x y \<Longrightarrow> lt y z \<Longrightarrow> lt x z"
  using lt_cotrans [of x y z] lt_asym by blast

lemma insert_sorted:
  "sorted_wrt (\<lambda>a b. \<not> lt b a) ys \<Longrightarrow> sorted_wrt (\<lambda>a b. \<not> lt b a) (insert_stable lt x ys)"
proof (induction ys)
  case (Cons y ys)
  have set: "set (insert_stable lt x ys) = insert x (set ys)"
    by (metis mset_insert_stable set_mset_add_mset_insert set_mset_mset)
  show ?case
  proof (cases "lt y x")
    case True
    with Cons set lt_asym show ?thesis by auto
  next
    case False
    with Cons.prems lt_cotrans show ?thesis by auto
  qed
qed simp

lemma SliceStable_sorted: "sorted_wrt (\<lambda>a b. \<not> lt b a) (SliceStable lt xs)"
  unfolding SliceStable_def by (induction xs) (auto intro: insert_sorted)

lemma sorted_unique:
  assumes "mset xs = mset ys" and "distinct xs"
    and "sorted_wrt (\<lambda>a b. \<not> lt b a) xs" and "sorted_wrt (\<lambda>a b. \<not> lt b a) ys"
    and "\<And>a b. a \<in> set xs \<Longrightarrow> b \<in> set xs \<Longrightarrow> a \<noteq> b \<Longrightarrow> lt a b \<or> lt b a"
  shows "xs = ys"
  using assms
proof (induction xs arbitrary: ys)
  case (Cons x xs)
  then obtain y ys' where ys: "ys = y # ys'" by (metis list.exhaust mset_zero_iff list.distinct(1))
  have sets: "set ys = set (x # xs)" using Cons.prems(1) by (metis set_mset_mset)
  have "x = y"
  proof (rule ccontr)
    assume "x \<noteq> y"
    then have "x \<in> set ys'" "y \<in> set xs" using sets ys by auto
    then have "\<not> lt x y" "\<not> lt y x" using Cons.prems(3,4) ys by auto
    with Cons.prems(5) [of x y] \<open>x \<noteq> y\<close> \<open>y \<in> set xs\<close> show False by auto
  qed
  moreover have "xs = ys'"
    by (rule Cons.IH) (use Cons.prems ys \<open>x = y\<close> in auto)
  ultimately show ?case using ys by simp
qed simp

lemma SliceStable_perm:
  assumes "mset xs = mset ys" and "distinct xs"
    and "\<And>a b. a \<in> set xs \<Longrightarrow> b \<in> set xs \<Longrightarrow> a \<noteq> b \<Longrightarrow> lt a b \<or> lt b a"
  shows "SliceStable lt xs = SliceStable lt ys"
proof (rule sorted_unique)
  show "mset (SliceStable lt xs) = mset (SliceStable lt ys)"
    using assms(1) by (simp add: mset_SliceStable)
  show "distinct (SliceStable lt xs)"
    using assms(2) by (metis mset_SliceStable mset_eq_imp_distinct_iff)
qed (use assms(3) SliceStable_sorted in auto)

end

interpretation by_cost: comparator wless
proof
  show "wless x y \<Longrightarrow> \<not> wless y x" for x y
    by (auto simp: wless_def split: if_splits)
  show "wless x z \<Longrightarrow> wless x y \<or> wless y z" for x y z
    by (auto simp: wless_def split: if_splits)
qed

end
