(* ===== verification/Pick_Facts.thy ===== *)
theory Pick_Facts
  imports Pick
begin

text \<open>
  What selection guarantees. \<open>eligible_uid\<close> and \<open>fallback_uid\<close> say, without any loop, who may be
  picked normally and who may be picked when nobody is; the facts below relate the loops of
  \<open>pick\<close> to them, for every iteration order, shuffle and draw.
\<close>

definition env_ok :: "pick_env \<Rightarrow> pool \<Rightarrow> bool" where
  "env_ok env p = (enumerates (pe_it env) (p_byUID p) \<and> enumerates (pe_it2 env) (p_byUID p))"

definition rand_ok :: "pick_rand \<Rightarrow> bool" where
  "rand_ok rnd = (\<forall>xs. mset (pr_shuf rnd xs) = mset xs)"

definition eligible_uid ::
  "pkgvars \<Rightarrow> pool \<Rightarrow> gtime \<Rightarrow> uid list \<Rightarrow> string \<Rightarrow> string \<Rightarrow> uid \<Rightarrow> bool" where
  "eligible_uid v p now tried m realm u = (u \<notin> set tried \<and>
     (\<exists>e. gm_get (p_byUID p) u = Some e \<and> realm_matches v realm e \<and> healthyForModel e now m \<and>
        \<not> inFlightFull v p e))"

definition fallback_uid ::
  "pkgvars \<Rightarrow> pool \<Rightarrow> gtime \<Rightarrow> uid list \<Rightarrow> string \<Rightarrow> uid \<Rightarrow> bool" where
  "fallback_uid v p now tried realm u = (u \<notin> set tried \<and>
     (\<exists>e. gm_get (p_byUID p) u = Some e \<and> realm_matches v realm e \<and>
        \<not> e_disabled e \<and> \<not> e_manualDisabled e \<and>
        \<not> (e_coolKind e = CoolHard \<and> e_until e \<noteq> 0 \<and> now < e_until e) \<and>
        \<not> inFlightFull v p e \<and> running e now \<noteq> {}))"

definition expiry_of :: "pool \<Rightarrow> gtime \<Rightarrow> uid \<Rightarrow> gtime" where
  "expiry_of p now u = (case gm_get (p_byUID p) u of None \<Rightarrow> 0 | Some e \<Rightarrow> expiry e now)"

section \<open>Pruning changes nothing that selection reads\<close>

lemma prune_all_get:
  "gm_get (p_byUID (prune_all now p)) u = map_option (prune_entry now) (gm_get (p_byUID p) u)"
proof -
  have "map_of (map (\<lambda>(u, e). (u, prune_entry now e)) m) u =
      map_option (prune_entry now) (map_of m u)" for m
    by (induction m) auto
  then show ?thesis by (simp add: prune_all_def)
qed

lemma prune_all_keys [simp]: "gm_keys (p_byUID (prune_all now p)) = gm_keys (p_byUID p)"
  by (simp add: prune_all_def gm_keys_def comp_def case_prod_beta')

lemma prune_all_enumerates [simp]:
  "enumerates it (p_byUID (prune_all now p)) = enumerates it (p_byUID p)"
  by (simp add: enumerates_def)

lemma prune_all_frame [simp]:
  "p_pickSeq (prune_all now p) = p_pickSeq p"
  "p_exploreLast (prune_all now p) = p_exploreLast p"
  "p_costExploreInterval (prune_all now p) = p_costExploreInterval p"
  "p_costExploreEvents (prune_all now p) = p_costExploreEvents p"
  "p_maxInFlight (prune_all now p) = p_maxInFlight p"
  "p_maxInFlightGlobal (prune_all now p) = p_maxInFlightGlobal p"
  by (simp_all add: prune_all_def)

lemma pool_inv_prune_all:
  assumes "pool_inv p"
  shows "pool_inv (prune_all now p)"
  unfolding prune_all_def
proof (rule pool_inv_map [OF assms])
  show "gm_wf (map (\<lambda>(u, e). (u, prune_entry now e)) (p_byUID p))"
    using pool_inv_wf [OF assms] by (simp add: gm_wf_def comp_def case_prod_beta')
  fix u e' assume "gm_get (map (\<lambda>(u, e). (u, prune_entry now e)) (p_byUID p)) u = Some e'"
  then obtain e where "gm_get (p_byUID p) u = Some e" "e' = prune_entry now e"
    using prune_all_get [of now p u] by (cases "gm_get (p_byUID p) u") (auto simp: prune_all_def)
  with pool_inv_entry [OF assms] show "\<exists>e. gm_get (p_byUID p) u = Some e \<and>
      a_UID (e_a e') = a_UID (e_a e) \<and> e_usedSeq e' = e_usedSeq e \<and> wf_entry e' \<and>
      0 \<le> e_inFlight e'"
    by (auto simp: entry_ok_def prune_entry_wf)
qed

lemma inFlight_cong:
  "p_maxInFlight p = p_maxInFlight q \<Longrightarrow> p_maxInFlightGlobal p = p_maxInFlightGlobal q \<Longrightarrow>
   e_a e = e_a f \<Longrightarrow> e_inFlight e = e_inFlight f \<Longrightarrow> inFlightFull v p e = inFlightFull v q f"
  by (simp add: inFlightFull_def inFlightLimit_def)

lemma prune_inFlightFull [simp]:
  "inFlightFull v (prune_all now p) (prune_entry now e) = inFlightFull v p e"
  by (rule inFlight_cong) simp_all

lemma realm_matches_prune [simp]: "realm_matches v realm (prune_entry now e) = realm_matches v realm e"
  by (simp add: realm_matches_def)

lemma eligible_prune:
  assumes "pool_inv p" and "now \<le> t"
  shows "eligible_uid v (prune_all now p) t tried m realm u = eligible_uid v p t tried m realm u"
  using pool_inv_wf_entry [OF assms(1)] assms(2)
  by (auto simp: eligible_uid_def prune_all_get prune_entry_healthyForModel)

section \<open>Candidates\<close>

lemma candidates_in:
  assumes "enumerates it (p_byUID p)"
  shows "(u, e) \<in> set (pick_candidates v now it tried m realm p) \<longleftrightarrow>
    u \<notin> set tried \<and> gm_get (p_byUID p) u = Some e \<and> realm_matches v realm e \<and>
    healthyForModel e now m \<and> \<not> inFlightFull v p e"
  using set_range_map [OF assms] by (auto simp: pick_candidates_def)

lemma candidates_eligible:
  assumes "enumerates it (p_byUID p)"
  shows "(\<exists>e. (u, e) \<in> set (pick_candidates v now it tried m realm p)) \<longleftrightarrow>
    eligible_uid v p now tried m realm u"
  by (auto simp: candidates_in [OF assms] eligible_uid_def)

lemma candidates_Nil_iff:
  assumes "enumerates it (p_byUID p)"
  shows "pick_candidates v now it tried m realm p = [] \<longleftrightarrow>
    (\<forall>u. \<not> eligible_uid v p now tried m realm u)"
proof -
  have "pick_candidates v now it tried m realm p = [] \<longleftrightarrow>
      (\<forall>u e. (u, e) \<notin> set (pick_candidates v now it tried m realm p))"
    by (metis list.set_intros(1) neq_Nil_conv surj_pair empty_iff list.set(1))
  then show ?thesis using candidates_eligible [OF assms] by metis
qed

section \<open>Tiers\<close>

lemma costTier_le: "fst (costTier m now e) \<le> 2"
  by (auto simp: costTier_def split: option.split)

lemma fold_min:
  fixes f :: "'a \<Rightarrow> nat"
  shows "foldl (\<lambda>b x. if f x < b then f x else b) b xs = Min (insert b (f ` set xs))"
proof (induction xs arbitrary: b)
  case (Cons x xs)
  have "(if f x < b then f x else b) = min b (f x)" by auto
  then show ?case
    using Cons [of "min b (f x)"]
    by (cases "xs = []") (auto simp: Min_insert2 min.assoc)
qed simp

lemma best_tier_Min:
  "best_tier m now cands = Min (insert 2 ((\<lambda>(u, e). fst (costTier m now e)) ` set cands))"
  using fold_min [of "\<lambda>x. fst (costTier m now (snd x))" 2 cands]
  by (simp add: best_tier_def case_prod_beta' Let_def)

lemma best_tier_le: "(u, e) \<in> set cands \<Longrightarrow> best_tier m now cands \<le> fst (costTier m now e)"
  unfolding best_tier_Min by (intro Min_le) force+

lemma best_tier_attained:
  assumes "cands \<noteq> []"
  shows "\<exists>u e. (u, e) \<in> set cands \<and> fst (costTier m now e) = best_tier m now cands"
proof -
  let ?T = "insert 2 ((\<lambda>(u, e). fst (costTier m now e)) ` set cands)"
  have "best_tier m now cands \<in> ?T" unfolding best_tier_Min by (rule Min_in) auto
  then consider "best_tier m now cands = 2" | u e where "(u, e) \<in> set cands"
    "best_tier m now cands = fst (costTier m now e)" by auto
  then show ?thesis
  proof cases
    case 1
    obtain u e where "(u, e) \<in> set cands" using assms by (cases cands) auto
    then have "fst (costTier m now e) = 2"
      using best_tier_le [of u e cands m now] costTier_le [of m now e] 1 by linarith
    with 1 \<open>(u, e) \<in> set cands\<close> show ?thesis by auto
  next
    case 2
    then show ?thesis by metis
  qed
qed

lemma build_weighted_in:
  "c \<in> set (build_weighted p now m tier cands) \<longleftrightarrow>
     (\<exists>u e. (u, e) \<in> set cands \<and> fst (costTier m now e) = tier \<and>
        c = \<lparr>wt_uid = u, wt_e = e, wt_w = weightOf p e (max_credits cands) now,
             wt_tier = fst (costTier m now e), wt_cost1k = snd (costTier m now e)\<rparr>)"
  by (auto simp: build_weighted_def image_iff)

lemma build_weighted_Nil_iff:
  "build_weighted p now m tier cands = [] \<longleftrightarrow> (\<forall>(u, e) \<in> set cands. fst (costTier m now e) \<noteq> tier)"
  by (auto simp: build_weighted_def filter_empty_conv)

lemma set_maybe_shuffle: "rand_ok rnd \<Longrightarrow> set (maybe_shuffle (pr_shuf rnd) ws) = set ws"
  by (auto simp: maybe_shuffle_def rand_ok_def dest: mset_eq_setD)

lemma mset_maybe_shuffle: "rand_ok rnd \<Longrightarrow> mset (maybe_shuffle (pr_shuf rnd) ws) = mset ws"
  by (simp add: maybe_shuffle_def rand_ok_def)

text \<open>The cost tier of an account for a model: 0 free, 1 not measured, 2 paid.\<close>

definition tier_of :: "pool \<Rightarrow> gtime \<Rightarrow> string \<Rightarrow> uid \<Rightarrow> nat" where
  "tier_of p now m u = (case gm_get (p_byUID p) u of None \<Rightarrow> 2 | Some e \<Rightarrow> fst (costTier m now e))"

lemma tier_of_prune:
  assumes "pool_inv p"
  shows "tier_of (prune_all now p) now m u = tier_of p now m u"
  using pool_inv_wf_entry [OF assms]
  by (auto simp: tier_of_def prune_all_get costTier_def prune_entry_modelCostOf split: option.split)

text \<open>What membership in the candidate list of the pruned pool says about the pool itself.\<close>

lemma candidate_facts:
  assumes "pool_inv p" and "enumerates it (p_byUID p)"
    and "(u, e) \<in> set (pick_candidates v now it tried m realm (prune_all now p))"
  shows "eligible_uid v p now tried m realm u" and "AuthByUID u p = Some (e_a e)"
    and "a_UID (e_a e) = u" and "tier_of p now m u = fst (costTier m now e)"
proof -
  have en: "enumerates it (p_byUID (prune_all now p))" using assms(2) by simp
  note c = assms(3) [unfolded candidates_in [OF en]]
  show "eligible_uid v p now tried m realm u"
    using candidates_eligible [OF en] assms(3) eligible_prune [OF assms(1) order_refl] by blast
  from c show "AuthByUID u p = Some (e_a e)" by (auto simp: AuthByUID_def prune_all_get)
  from c show "a_UID (e_a e) = u"
    by (blast intro: pool_inv_uid [OF pool_inv_prune_all [OF assms(1)]])
  show "tier_of p now m u = fst (costTier m now e)"
    unfolding tier_of_prune [OF assms(1), symmetric] using c by (simp add: tier_of_def)
qed

lemma candidates_pruned:
  assumes "pool_inv p" and "enumerates it (p_byUID p)"
  shows "(\<exists>e. (u, e) \<in> set (pick_candidates v now it tried m realm (prune_all now p))) \<longleftrightarrow>
      eligible_uid v p now tried m realm u"
    and "pick_candidates v now it tried m realm (prune_all now p) = [] \<longleftrightarrow>
      (\<forall>u. \<not> eligible_uid v p now tried m realm u)"
  using assms(2) by (simp_all add: candidates_eligible candidates_Nil_iff
      eligible_prune [OF assms(1) order_refl])

section \<open>The draw\<close>

lemma draw_weight_pos: "1 \<le> draw_weight c"
  by (simp add: draw_weight_def Let_def)

lemma draw_loop_in: "draw_loop r acc cs = Some c \<Longrightarrow> c \<in> set cs"
  by (induction cs arbitrary: acc) (auto simp: Let_def split: if_splits)

lemma pickWeighted_in: "cs \<noteq> [] \<Longrightarrow> pickWeighted rnd cs \<in> set cs"
  by (auto simp: pickWeighted_def Let_def split: option.split dest: draw_loop_in)

lemma draw_loop_prefix:
  assumes "acc + sum_list (map draw_weight cs) \<le> r" and "r < acc + sum_list (map draw_weight cs) + draw_weight c"
  shows "draw_loop r acc (cs @ c # ds) = Some c"
  using assms
proof (induction cs arbitrary: acc)
  case (Cons d cs)
  have "0 \<le> sum_list (map draw_weight cs)"
    using draw_weight_pos by (intro sum_list_nonneg) (auto intro: order_trans [of 0 1])
  then have "\<not> r < acc + draw_weight d" using Cons.prems by simp
  moreover have "draw_loop r (acc + draw_weight d) (cs @ c # ds) = Some c"
    by (rule Cons.IH) (use Cons.prems in \<open>simp_all add: algebra_simps\<close>)
  ultimately show ?case by (simp add: Let_def)
qed (simp add: Let_def)

lemma foldl_choice_in:
  "foldl (\<lambda>e c. if f c < f e then c else e) x xs \<in> insert x (set xs)"
proof (induction xs arbitrary: x)
  case (Cons c xs)
  then show ?case using Cons [of "if f c < f x then c else x"] by (auto split: if_splits)
qed simp

lemma lru_choice_in: "ws \<noteq> [] \<Longrightarrow> lru_choice ws \<in> set ws"
  using foldl_choice_in [of "\<lambda>c. e_usedSeq (wt_e c)" "hd ws" "tl ws"]
  by (cases ws) (auto simp: lru_choice_def)

lemma foldl_choice_least:
  fixes f :: "'a \<Rightarrow> nat"
  shows "y \<in> insert x (set xs) \<Longrightarrow> f (foldl (\<lambda>e c. if f c < f e then c else e) x xs) \<le> f y"
proof (induction xs arbitrary: x y)
  case (Cons c xs)
  let ?x = "if f c < f x then c else x"
  have "f (foldl (\<lambda>e c. if f c < f e then c else e) ?x xs) \<le> f ?x" by (rule Cons.IH) simp
  moreover have "f ?x \<le> f x" "f ?x \<le> f c" by auto
  moreover have "y \<in> set xs \<Longrightarrow> f (foldl (\<lambda>e c. if f c < f e then c else e) ?x xs) \<le> f y"
    by (rule Cons.IH) simp
  ultimately show ?case using Cons.prems by auto
qed simp

lemma lru_choice_least:
  assumes "c \<in> set ws"
  shows "e_usedSeq (wt_e (lru_choice ws)) \<le> e_usedSeq (wt_e c)"
proof -
  have "c \<in> insert (hd ws) (set (tl ws))" using assms by (cases ws) auto
  then show ?thesis
    using foldl_choice_least [of c "hd ws" "tl ws" "\<lambda>c. e_usedSeq (wt_e c)"]
    by (simp add: lru_choice_def)
qed

lemma choose_in: "ws \<noteq> [] \<Longrightarrow> choose_account v now rnd ws \<in> set ws"
proof -
  assume "ws \<noteq> []"
  have "short_list v now ws \<noteq> [] \<Longrightarrow> pickWeighted rnd (short_list v now ws) \<in> set ws"
    using pickWeighted_in [of "short_list v now ws" rnd] set_take_subset [of 5 ws]
    by (auto simp: short_list_def)
  with lru_choice_in [OF \<open>ws \<noteq> []\<close>] show ?thesis by (simp add: choose_account_def Let_def)
qed

section \<open>The two paths of pick\<close>

definition pick_tier :: "gtime \<Rightarrow> string \<Rightarrow> string \<Rightarrow> (uid \<times> entry) list \<Rightarrow> pool \<Rightarrow> nat" where
  "pick_tier now m realm cands p =
     (if explore_due now m realm cands p then 1 else best_tier m now cands)"

lemma pick_tier_attained:
  assumes "cands \<noteq> []"
  shows "\<exists>u e. (u, e) \<in> set cands \<and> fst (costTier m now e) = pick_tier now m realm cands p"
  using best_tier_attained [OF assms]
  by (auto simp: pick_tier_def explore_due_def list_ex_iff)

text \<open>The exploration ledger after a pick.\<close>

definition note_explore :: "gtime \<Rightarrow> string \<Rightarrow> string \<Rightarrow> (uid \<times> entry) list \<Rightarrow> pool \<Rightarrow> pool" where
  "note_explore now m realm cands p = (if explore_due now m realm cands p then
     p\<lparr>p_exploreLast := gm_put (explore_key realm m) now (p_exploreLast p),
       p_costExploreEvents := p_costExploreEvents p + 1\<rparr> else p)"

lemma note_explore_frame [simp]:
  "p_byUID (note_explore now m realm cands p) = p_byUID p"
  "p_pickSeq (note_explore now m realm cands p) = p_pickSeq p"
  "p_maxInFlight (note_explore now m realm cands p) = p_maxInFlight p"
  "p_maxInFlightGlobal (note_explore now m realm cands p) = p_maxInFlightGlobal p"
  "p_costExploreInterval (note_explore now m realm cands p) = p_costExploreInterval p"
  by (simp_all add: note_explore_def)

text \<open>The sorted list of one tier, and \<open>pick\<close> in terms of it.\<close>

definition ranked ::
  "(weighted list \<Rightarrow> weighted list) \<Rightarrow> gtime \<Rightarrow> string \<Rightarrow> string \<Rightarrow> (uid \<times> entry) list \<Rightarrow> pool \<Rightarrow> weighted list"
where
  "ranked shuf now m realm cands p = SliceStable wless (maybe_shuffle shuf
     (build_weighted (note_explore now m realm cands p) now m (pick_tier now m realm cands p) cands))"

lemma pick_unfold:
  assumes "q = prune_all (pe_now env) p"
    and "cands = pick_candidates v (pe_now env) (pe_it env) tried m realm q"
  shows "pick v env rnd tried m realm p =
    (if cands = [] then pickEarliestExpiryLocked v env tried realm q
     else let c = choose_account v (pe_now env) (pr_int64N rnd)
                    (ranked (pr_shuf rnd) (pe_now env) m realm cands q)
          in (Some (e_a (wt_e c)),
              mark_used (pe_now env) (wt_uid c) (note_explore (pe_now env) m realm cands q)))"
  unfolding pick_def ranked_def note_explore_def pick_tier_def Let_def assms by simp

lemma set_ranked:
  assumes "rand_ok rnd"
  shows "set (ranked (pr_shuf rnd) now m realm cands p) = set (build_weighted
    (note_explore now m realm cands p) now m (pick_tier now m realm cands p) cands)"
  using assms by (simp add: ranked_def set_maybe_shuffle)

lemma ranked_in:
  assumes "rand_ok rnd" and "c \<in> set (ranked (pr_shuf rnd) now m realm cands p)"
  shows "(wt_uid c, wt_e c) \<in> set cands"
    and "fst (costTier m now (wt_e c)) = pick_tier now m realm cands p"
  using assms(2) by (auto simp: set_ranked [OF assms(1)] build_weighted_in)

lemma ranked_nonempty:
  assumes "rand_ok rnd" and "cands \<noteq> []"
  shows "ranked (pr_shuf rnd) now m realm cands p \<noteq> []"
proof -
  have "build_weighted (note_explore now m realm cands p) now m (pick_tier now m realm cands p)
      cands \<noteq> []"
    using pick_tier_attained [OF assms(2), of m now realm p] by (force simp: build_weighted_Nil_iff)
  with set_ranked [OF assms(1), of now m realm cands p] show ?thesis by auto
qed

lemma pick_normal:
  assumes "rand_ok rnd" and "q = prune_all (pe_now env) p"
    and "cands = pick_candidates v (pe_now env) (pe_it env) tried m realm q"
    and "cands \<noteq> []"
  obtains u e where
    "(u, e) \<in> set cands"
    "fst (costTier m (pe_now env) e) = pick_tier (pe_now env) m realm cands q"
    "pick v env rnd tried m realm p =
       (Some (e_a e), mark_used (pe_now env) u (note_explore (pe_now env) m realm cands q))"
proof -
  let ?ws = "ranked (pr_shuf rnd) (pe_now env) m realm cands q"
  define c where "c = choose_account v (pe_now env) (pr_int64N rnd) ?ws"
  have c: "c \<in> set ?ws"
    unfolding c_def by (rule choose_in [OF ranked_nonempty [OF assms(1,4)]])
  from ranked_in [OF assms(1) c] show thesis
    by (rule that) (simp add: pick_unfold [OF assms(2,3)] assms(4) c_def Let_def)
qed

text \<open>The loop that keeps the first least element among those it does not skip.\<close>

lemma fold_best:
  fixes f :: "'e \<Rightarrow> int" and S :: "'u \<Rightarrow> 'e \<Rightarrow> bool"
  defines "step \<equiv> (\<lambda>best (u, e). if S u e then best else case best of None \<Rightarrow> Some (u, e)
     | Some (bu, be) \<Rightarrow> if f e < f be then Some (u, e) else best)"
  shows "foldl step b xs = None \<longleftrightarrow> b = None \<and> (\<forall>(u, e) \<in> set xs. S u e)"
    and "foldl step b xs = Some (u, e) \<Longrightarrow>
      (b = Some (u, e) \<or> (u, e) \<in> set xs \<and> \<not> S u e) \<and>
      (\<forall>(w, d) \<in> set xs. \<not> S w d \<longrightarrow> f e \<le> f d) \<and> (\<forall>w d. b = Some (w, d) \<longrightarrow> f e \<le> f d)"
proof -
  show "foldl step b xs = None \<longleftrightarrow> b = None \<and> (\<forall>(u, e) \<in> set xs. S u e)"
  proof (induction xs arbitrary: b)
    case (Cons x xs)
    have "step b x = None \<longleftrightarrow> b = None \<and> S (fst x) (snd x)"
      by (auto simp: step_def case_prod_beta' split: option.splits)
    with Cons.IH [of "step b x"] show ?case by (auto simp: case_prod_beta')
  qed simp
next
  show "foldl step b xs = Some (u, e) \<Longrightarrow>
      (b = Some (u, e) \<or> (u, e) \<in> set xs \<and> \<not> S u e) \<and>
      (\<forall>(w, d) \<in> set xs. \<not> S w d \<longrightarrow> f e \<le> f d) \<and> (\<forall>w d. b = Some (w, d) \<longrightarrow> f e \<le> f d)"
  proof (induction xs arbitrary: b)
    case (Cons x xs)
    obtain w d where x: "x = (w, d)" by (cases x)
    have IH: "(step b x = Some (u, e) \<or> (u, e) \<in> set xs \<and> \<not> S u e) \<and>
      (\<forall>(w, d) \<in> set xs. \<not> S w d \<longrightarrow> f e \<le> f d) \<and>
      (\<forall>w d. step b x = Some (w, d) \<longrightarrow> f e \<le> f d)"
      by (rule Cons.IH) (use Cons.prems in simp)
    show ?case
    proof (cases "S w d")
      case True
      with IH x show ?thesis by (auto simp: step_def)
    next
      case False
      show ?thesis
      proof (cases b)
        case None
        with IH x False show ?thesis by (auto simp: step_def)
      next
        case (Some be)
        with IH x False show ?thesis
          by (cases be) (auto simp: step_def split: if_splits)
      qed
    qed
  qed auto
qed


section \<open>The fall-back\<close>

lemma fallback_skip_iff:
  assumes "0 \<le> now" and "gm_get (p_byUID p) u = Some e"
  shows "\<not> fallback_skip v now tried realm p u e \<longleftrightarrow> fallback_uid v p now tried realm u"
  using assms by (auto simp: fallback_skip_def fallback_uid_def expiry_zero_iff IsZero_def)

lemma fallback_prune:
  "fallback_uid v (prune_all now p) t tried realm u = fallback_uid v p t tried realm u"
  by (auto simp: fallback_uid_def prune_all_get)

lemma expiry_of_prune [simp]: "expiry_of (prune_all now p) t u = expiry_of p t u"
  by (auto simp: expiry_of_def prune_all_get split: option.split)

lemma fallback_best_None:
  assumes "0 \<le> now" and "enumerates it (p_byUID p)"
  shows "fallback_best v now tried realm p (range_map it (p_byUID p)) = None \<longleftrightarrow>
    (\<forall>u. \<not> fallback_uid v p now tried realm u)"
proof -
  have "fallback_best v now tried realm p (range_map it (p_byUID p)) = None \<longleftrightarrow>
      (\<forall>(u, e) \<in> set (range_map it (p_byUID p)). fallback_skip v now tried realm p u e)"
    unfolding fallback_best_def fold_best(1) by simp
  also have "\<dots> \<longleftrightarrow> (\<forall>u e. gm_get (p_byUID p) u = Some e \<longrightarrow>
      \<not> fallback_uid v p now tried realm u)"
    using fallback_skip_iff [OF assms(1)] set_range_map [OF assms(2)] by blast
  also have "\<dots> \<longleftrightarrow> (\<forall>u. \<not> fallback_uid v p now tried realm u)"
    by (auto simp: fallback_uid_def)
  finally show ?thesis .
qed

lemma fallback_best_Some:
  assumes "0 \<le> now" and "enumerates it (p_byUID p)"
    and "fallback_best v now tried realm p (range_map it (p_byUID p)) = Some (u, e)"
  shows "gm_get (p_byUID p) u = Some e" and "fallback_uid v p now tried realm u"
    and "fallback_uid v p now tried realm w \<Longrightarrow> expiry_of p now u \<le> expiry_of p now w"
proof -
  note best = fold_best(2) [OF assms(3) [unfolded fallback_best_def]]
  from best show get: "gm_get (p_byUID p) u = Some e"
    by (simp add: set_range_map [OF assms(2)])
  from best fallback_skip_iff [OF assms(1) get] show "fallback_uid v p now tried realm u" by simp
  assume w: "fallback_uid v p now tried realm w"
  then obtain d where d: "gm_get (p_byUID p) w = Some d" by (auto simp: fallback_uid_def)
  with w fallback_skip_iff [OF assms(1) d] best set_range_map [OF assms(2)]
  have "expiry e now \<le> expiry d now" by blast
  with get d show "expiry_of p now u \<le> expiry_of p now w" by (simp add: expiry_of_def)
qed

section \<open>Order independence\<close>

lemma foldl_max:
  fixes f :: "'a \<Rightarrow> int"
  shows "foldl (\<lambda>m x. if f x > m then f x else m) b xs = Max (insert b (f ` set xs))"
proof (induction xs arbitrary: b)
  case (Cons x xs)
  have "(if f x > b then f x else b) = max b (f x)" by auto
  then show ?case
    using Cons [of "max b (f x)"] by (cases "xs = []") (auto simp: Max_insert2 max.assoc)
qed simp

lemma max_credits_Max: "max_credits cands = Max (insert 0 ((\<lambda>(u, e). e_credits e) ` set cands))"
  using foldl_max [of "\<lambda>x. e_credits (snd x)" 0 cands]
  by (simp add: max_credits_def case_prod_beta')

lemma candidates_mset:
  assumes "gm_wf (p_byUID p)" and "enumerates it (p_byUID p)" and "enumerates it' (p_byUID p)"
  shows "mset (pick_candidates v now it tried m realm p) =
    mset (pick_candidates v now it' tried m realm p)"
  using mset_range_map [OF assms(1,2)] mset_range_map [OF assms(1,3)]
  by (simp add: pick_candidates_def)

lemma explore_due_set:
  "set cs = set ds \<Longrightarrow> explore_due now m realm cs p = explore_due now m realm ds p"
  by (simp add: explore_due_def best_tier_Min list_ex_iff)

lemma pick_tier_set:
  "set cs = set ds \<Longrightarrow> pick_tier now m realm cs p = pick_tier now m realm ds p"
  using explore_due_set [of cs ds now m realm p] by (simp add: pick_tier_def best_tier_Min)

lemma build_weighted_mset:
  assumes "mset cs = mset ds"
  shows "mset (build_weighted p now m tier cs) = mset (build_weighted p now m tier ds)"
proof -
  have "max_credits cs = max_credits ds"
    using assms by (simp add: max_credits_Max mset_eq_setD [OF assms])
  with assms show ?thesis by (simp add: build_weighted_def)
qed

lemma candidates_distinct:
  assumes "enumerates it (p_byUID p)"
  shows "distinct (map fst (pick_candidates v now it tried m realm p))"
  using assms range_map_distinct [of it "p_byUID p"]
  by (simp add: pick_candidates_def enumerates_def distinct_map_filter)

lemma build_weighted_distinct:
  assumes "distinct (map fst cs)"
  shows "distinct (build_weighted p now m tier cs)"
proof -
  have "map wt_uid (build_weighted p now m tier cs) =
      map fst (filter (\<lambda>(u, e). fst (costTier m now e) = tier) cs)"
    by (auto simp: build_weighted_def)
  with assms have "distinct (map wt_uid (build_weighted p now m tier cs))"
    by (simp add: distinct_map_filter)
  then show ?thesis by (simp add: distinct_map)
qed

text \<open>
  The comparison ends with the account's identifier, so it separates any two candidates: the sorted
  list is the same whatever order the candidates came in, and whatever the shuffle did to it.
\<close>

lemma ranked_order_free:
  assumes "pool_inv p" and "rand_ok r" and "rand_ok r'"
    and "enumerates it (p_byUID p)" and "enumerates it' (p_byUID p)"
    and "cs = pick_candidates v now it tried m realm p"
    and "ds = pick_candidates v now it' tried m realm p"
  shows "ranked (pr_shuf r) now m realm cs p = ranked (pr_shuf r') now m realm ds p"
proof -
  have ms: "mset cs = mset ds"
    unfolding assms(6,7) by (rule candidates_mset [OF pool_inv_wf [OF assms(1)] assms(4,5)])
  define q where "q = note_explore now m realm cs p"
  define tier where "tier = pick_tier now m realm cs p"
  have q: "note_explore now m realm ds p = q" and tier: "pick_tier now m realm ds p = tier"
    using explore_due_set [OF mset_eq_setD [OF ms]] pick_tier_set [OF mset_eq_setD [OF ms]]
    by (simp_all add: q_def tier_def note_explore_def)
  let ?ws = "maybe_shuffle (pr_shuf r) (build_weighted q now m tier cs)"
  have "distinct (build_weighted q now m tier cs)"
    unfolding assms(6) by (rule build_weighted_distinct [OF candidates_distinct [OF assms(4)]])
  then have dist: "distinct ?ws"
    using mset_maybe_shuffle [OF assms(2)] mset_eq_imp_distinct_iff by blast
  have uid: "a_UID (e_a (wt_e c)) = wt_uid c \<and> (wt_uid c, wt_e c) \<in> set cs \<and>
      c = \<lparr>wt_uid = wt_uid c, wt_e = wt_e c, wt_w = weightOf q (wt_e c) (max_credits cs) now,
        wt_tier = tier, wt_cost1k = snd (costTier m now (wt_e c))\<rparr>" if "c \<in> set ?ws" for c
    using that pool_inv_uid [OF assms(1)]
    by (auto simp: set_maybe_shuffle [OF assms(2)] build_weighted_in candidates_in [OF assms(4)]
        assms(6))
  have sep: "wless c d \<or> wless d c" if "c \<in> set ?ws" "d \<in> set ?ws" "c \<noteq> d" for c d
  proof -
    have "wt_uid c \<noteq> wt_uid d"
    proof
      assume eq: "wt_uid c = wt_uid d"
      with uid [OF that(1)] uid [OF that(2)] have "wt_e c = wt_e d"
        by (simp add: assms(6) candidates_in [OF assms(4)])
      with eq uid [OF that(1)] uid [OF that(2)] that(3) show False by metis
    qed
    then show ?thesis
      using uid [OF that(1)] uid [OF that(2)]
      by (auto simp: wless_def not_less_iff_gr_or_eq)
  qed
  show ?thesis
    unfolding ranked_def q tier q_def [symmetric] tier_def [symmetric]
    by (rule by_cost.SliceStable_perm [OF _ dist sep])
      (simp_all add: mset_maybe_shuffle assms(2,3) build_weighted_mset [OF ms])
qed

section \<open>The invariant\<close>

lemma pool_inv_note_explore [simp]: "pool_inv (note_explore now m realm cands p) = pool_inv p"
  by (rule pool_inv_cong) simp_all

lemma pool_inv_pick:
  assumes "pool_inv p"
  shows "pool_inv (snd (pick v env rnd tried m realm p))"
  using pool_inv_prune_all [OF assms, of "pe_now env"]
  by (auto simp: pick_unfold [OF refl refl] pickEarliestExpiryLocked_def Let_def
      intro!: pool_inv_mark_used split: option.split)

end
