(* ===== verification/Pick_Props.thy ===== *)
theory Pick_Props
  imports Pick_Facts
begin

text \<open>
  The properties of account selection: who is picked, when nobody is, what the cost tiers and the
  exploration window do, how the weighted draw divides the chances, and what a pick leaves behind.
  The two accounts of \<open>demo_pool\<close> serve as the concrete input of the witnesses.
\<close>

definition named_auth :: "string \<Rightarrow> auth" where
  "named_auth u = zero_auth\<lparr>a_UID := u\<rparr>"

definition demo_pool :: pool where
  "demo_pool = Add (named_auth ''b'') (Add (named_auth ''a'') (New_pool []))"

definition demo_vars :: pkgvars where
  "demo_vars = \<lparr>pv_globalEnabled = False, pv_minPickGap = 100 * Millisecond\<rparr>"

definition demo_env :: "gtime \<Rightarrow> pick_env" where
  "demo_env t = \<lparr>pe_now = t, pe_now2 = t, pe_it = [''a'', ''b''], pe_it2 = [''b'', ''a'']\<rparr>"

definition demo_rand :: "int \<Rightarrow> pick_rand" where
  "demo_rand r = \<lparr>pr_shuf = (\<lambda>ws. ws), pr_int64N = (\<lambda>n. r)\<rparr>"

lemma demo_pool_inv: "pool_inv demo_pool"
  unfolding demo_pool_def Add_def by (intro pool_inv_upsert pool_inv_New)

lemma demo_keys: "gm_keys (p_byUID demo_pool) = [''a'', ''b'']"
  by code_simp

lemma demo_env_ok: "gm_keys (p_byUID p) = [''a'', ''b''] \<Longrightarrow> env_ok (demo_env t) p"
  by (auto simp: env_ok_def enumerates_def demo_env_def)

lemma demo_rand_ok: "rand_ok (demo_rand r)"
  by (simp add: rand_ok_def demo_rand_def)

lemmas demo_ok = demo_pool_inv demo_rand_ok demo_env_ok [OF demo_keys]

section \<open>Who is picked\<close>

lemma pick_returns:
  assumes "pool_inv p" and "env_ok env p" and "rand_ok rnd" and "0 \<le> pe_now env"
    and "fst (pick v env rnd tried m realm p) = Some a"
  shows "AuthByUID (a_UID a) p = Some a \<and>
    (if \<exists>u. eligible_uid v p (pe_now env) tried m realm u
     then eligible_uid v p (pe_now env) tried m realm (a_UID a)
     else fallback_uid v p (pe_now env) tried realm (a_UID a) \<and>
       (\<forall>w. fallback_uid v p (pe_now env) tried realm w \<longrightarrow>
          expiry_of p (pe_now env) (a_UID a) \<le> expiry_of p (pe_now env) w))"
proof -
  define q where "q = prune_all (pe_now env) p"
  define cands where "cands = pick_candidates v (pe_now env) (pe_it env) tried m realm q"
  have en: "enumerates (pe_it env) (p_byUID p)" "enumerates (pe_it2 env) (p_byUID q)"
    using assms(2) by (simp_all add: env_ok_def q_def)
  show ?thesis
  proof (cases "cands = []")
    case False
    then obtain u e where ue: "(u, e) \<in> set cands" and "pick v env rnd tried m realm p =
        (Some (e_a e), mark_used (pe_now env) u (note_explore (pe_now env) m realm cands q))"
      by (rule pick_normal [OF assms(3) q_def cands_def])
    with assms(5) have "a = e_a e" by simp
    with candidate_facts(1-3) [OF assms(1) en(1) ue [unfolded cands_def q_def]] show ?thesis
      by auto
  next
    case True
    then have none: "\<nexists>u. eligible_uid v p (pe_now env) tried m realm u"
      using candidates_pruned(2) [OF assms(1) en(1)] by (simp add: cands_def q_def)
    obtain u e where best: "fallback_best v (pe_now env) tried realm q
        (range_map (pe_it2 env) (p_byUID q)) = Some (u, e)" and a: "a = e_a e"
      using assms(5) True
      by (auto simp: pick_unfold [OF q_def cands_def] pickEarliestExpiryLocked_def
          split: option.splits)
    note fb = fallback_best_Some [OF assms(4) en(2) best]
    have "a_UID a = u" "AuthByUID u p = Some a"
      using fb(1) a pool_inv_uid [OF pool_inv_prune_all [OF assms(1)]]
      by (auto simp: q_def AuthByUID_def prune_all_get)
    with none fb(2,3) show ?thesis by (simp add: q_def fallback_prune)
  qed
qed

lemma pick_None:
  assumes "pool_inv p" and "env_ok env p" and "rand_ok rnd" and "0 \<le> pe_now env"
  shows "fst (pick v env rnd tried m realm p) = None \<longleftrightarrow>
    (\<forall>u. \<not> eligible_uid v p (pe_now env) tried m realm u \<and>
         \<not> fallback_uid v p (pe_now env) tried realm u)"
proof -
  define q where "q = prune_all (pe_now env) p"
  define cands where "cands = pick_candidates v (pe_now env) (pe_it env) tried m realm q"
  have en: "enumerates (pe_it env) (p_byUID p)" "enumerates (pe_it2 env) (p_byUID q)"
    using assms(2) by (simp_all add: env_ok_def q_def)
  have nil: "cands = [] \<longleftrightarrow> (\<forall>u. \<not> eligible_uid v p (pe_now env) tried m realm u)"
    unfolding cands_def q_def by (rule candidates_pruned(2) [OF assms(1) en(1)])
  have fb: "fallback_best v (pe_now env) tried realm q (range_map (pe_it2 env) (p_byUID q)) = None
      \<longleftrightarrow> (\<forall>u. \<not> fallback_uid v p (pe_now env) tried realm u)"
    unfolding fallback_best_None [OF assms(4) en(2)] by (simp add: q_def fallback_prune)
  show ?thesis
  proof (cases "cands = []")
    case True
    then have "fst (pick v env rnd tried m realm p) = None \<longleftrightarrow>
        (\<forall>u. \<not> fallback_uid v p (pe_now env) tried realm u)"
      unfolding fb [symmetric]
      by (auto simp: pick_unfold [OF q_def cands_def] pickEarliestExpiryLocked_def
          split: option.splits)
    with True nil show ?thesis by blast
  next
    case False
    then have "fst (pick v env rnd tried m realm p) \<noteq> None"
      by (simp add: pick_unfold [OF q_def cands_def] Let_def)
    with False nil show ?thesis by blast
  qed
qed

text \<open>
  (C1) Soundness of selection. Whatever order the accounts are visited in, whatever the shuffle and
  the draw do, an account that \<open>pick\<close> returns is an account of the pool, with its current
  credentials; if some account is eligible for the model and realm (not tried, healthy, the model
  not cooled, a free lease) the returned one is eligible; otherwise it is one that is merely
  cooling softly, and no other such account recovers earlier.
\<close>

theorem pick_sound:
  assumes "pool_inv p" and "env_ok env p" and "rand_ok rnd" and "0 \<le> pe_now env"
    and "fst (pick v env rnd tried m realm p) = Some a"
  shows "AuthByUID (a_UID a) p = Some a \<and>
    (if \<exists>u. eligible_uid v p (pe_now env) tried m realm u
     then eligible_uid v p (pe_now env) tried m realm (a_UID a)
     else fallback_uid v p (pe_now env) tried realm (a_UID a) \<and>
       (\<forall>w. fallback_uid v p (pe_now env) tried realm w \<longrightarrow>
          expiry_of p (pe_now env) (a_UID a) \<le> expiry_of p (pe_now env) w))"
  using assms by (rule pick_returns)

theorem pick_sound_witness:
  "AuthByUID ''a'' demo_pool = Some (named_auth ''a'') \<and>
   eligible_uid demo_vars demo_pool (10 * Hour) [] ''m'' [] ''a''"
proof -
  have "fst (pick demo_vars (demo_env (10 * Hour)) (demo_rand 0) [] ''m'' [] demo_pool) =
      Some (named_auth ''a'')" by code_simp
  moreover have "0 \<le> pe_now (demo_env (10 * Hour))" by code_simp
  moreover have "pe_now (demo_env (10 * Hour)) = 10 * Hour" "a_UID (named_auth ''a'') = ''a''"
    by (simp_all add: demo_env_def named_auth_def)
  moreover have "gm_get (p_byUID demo_pool) ''a'' = Some (new_entry (named_auth ''a''))"
    by code_simp
  moreover have "realm_matches demo_vars [] e" for e by (simp add: realm_matches_def)
  moreover have "healthyForModel (new_entry (named_auth ''a'')) (10 * Hour) ''m''" by code_simp
  moreover have "\<not> inFlightFull demo_vars demo_pool (new_entry (named_auth ''a''))" by code_simp
  ultimately show ?thesis
    using pick_sound [of demo_pool "demo_env (10 * Hour)" "demo_rand 0" demo_vars "[]" "''m''" "[]"
        "named_auth ''a''"] demo_ok
    by (auto simp: eligible_uid_def)
qed

text \<open>
  (C2) Completeness of selection. \<open>pick\<close> returns nothing exactly when no account is eligible and
  none is left for the fall-back, for every order, shuffle and draw.
\<close>

theorem pick_complete:
  assumes "pool_inv p" and "env_ok env p" and "rand_ok rnd" and "0 \<le> pe_now env"
  shows "fst (pick v env rnd tried m realm p) = None \<longleftrightarrow>
    (\<forall>u. \<not> eligible_uid v p (pe_now env) tried m realm u \<and>
         \<not> fallback_uid v p (pe_now env) tried realm u)"
  using assms by (rule pick_None)

theorem pick_complete_witness:
  "\<not> eligible_uid demo_vars demo_pool (10 * Hour) [''a'', ''b''] ''m'' [] ''a'' \<and>
   \<not> fallback_uid demo_vars demo_pool (10 * Hour) [''a'', ''b''] [] ''b''"
proof -
  have "fst (pick demo_vars (demo_env (10 * Hour)) (demo_rand 0) [''a'', ''b''] ''m'' []
      demo_pool) = None" by code_simp
  moreover have "0 \<le> pe_now (demo_env (10 * Hour))" by code_simp
  moreover have "pe_now (demo_env (10 * Hour)) = 10 * Hour" by (simp add: demo_env_def)
  ultimately show ?thesis
    using pick_complete [of demo_pool "demo_env (10 * Hour)" "demo_rand 0" demo_vars
        "[''a'', ''b'']" "''m''" "[]"] demo_ok
    by simp
qed

section \<open>Cost tiers\<close>

lemma pickEarliest_ledger:
  "p_costExploreEvents (snd (pickEarliestExpiryLocked v env tried realm p)) = p_costExploreEvents p"
  "p_exploreLast (snd (pickEarliestExpiryLocked v env tried realm p)) = p_exploreLast p"
  by (auto simp: pickEarliestExpiryLocked_def mark_used_def Let_def upd_entry_def
      split: option.split)

text \<open>The ledger changes exactly when an exploration is due, and then it records this moment.\<close>

lemma pick_ledger:
  assumes "q = prune_all (pe_now env) p"
    and "cands = pick_candidates v (pe_now env) (pe_it env) tried m realm q"
  shows "p_costExploreEvents (snd (pick v env rnd tried m realm p)) = p_costExploreEvents p +
      (if explore_due (pe_now env) m realm cands q then 1 else 0)"
    and "explore_due (pe_now env) m realm cands q \<Longrightarrow>
      explore_last (snd (pick v env rnd tried m realm p)) (explore_key realm m) = pe_now env"
  by (auto simp: pick_unfold [OF assms] pickEarliest_ledger mark_used_def Let_def upd_entry_def
      note_explore_def explore_last_def explore_due_def assms(1) split: option.split)

text \<open>
  Free before unknown before paid. When a pick does not count as an exploration, the account it
  returns is in the best cost tier that any eligible account has for the model; when it does, the
  returned account is one whose cost is unknown, and a free account was eligible.
\<close>

theorem pick_cheapest_tier:
  assumes "pool_inv p" and "env_ok env p" and "rand_ok rnd"
    and "fst (pick v env rnd tried m realm p) = Some a"
    and "eligible_uid v p (pe_now env) tried m realm u"
  shows "if p_costExploreEvents (snd (pick v env rnd tried m realm p)) = p_costExploreEvents p
    then tier_of p (pe_now env) m (a_UID a) \<le> tier_of p (pe_now env) m u
    else tier_of p (pe_now env) m (a_UID a) = 1 \<and>
      (\<exists>w. eligible_uid v p (pe_now env) tried m realm w \<and> tier_of p (pe_now env) m w = 0)"
proof -
  define q where "q = prune_all (pe_now env) p"
  define cands where "cands = pick_candidates v (pe_now env) (pe_it env) tried m realm q"
  have en: "enumerates (pe_it env) (p_byUID p)" using assms(2) by (simp add: env_ok_def)
  note tier = candidate_facts [OF assms(1) en, of _ _ v "pe_now env" tried m realm,
      folded q_def, folded cands_def]
  obtain d where d: "(u, d) \<in> set cands"
    using assms(5) unfolding candidates_pruned(1) [OF assms(1) en, symmetric] cands_def q_def
    by blast
  then have "cands \<noteq> []" by auto
  then obtain w e where we: "(w, e) \<in> set cands"
    "fst (costTier m (pe_now env) e) = pick_tier (pe_now env) m realm cands q"
    "fst (pick v env rnd tried m realm p) = Some (e_a e)"
    using pick_normal [OF assms(3) q_def cands_def] by (metis fst_conv)
  have a: "tier_of p (pe_now env) m (a_UID a) = pick_tier (pe_now env) m realm cands q"
    using tier(3,4) [OF we(1)] we(2,3) assms(4) by simp
  show ?thesis
  proof (cases "explore_due (pe_now env) m realm cands q")
    case True
    then have "best_tier m (pe_now env) cands = 0" by (simp add: explore_due_def)
    then obtain x d' where x: "(x, d') \<in> set cands" "fst (costTier m (pe_now env) d') = 0"
      using best_tier_attained [OF \<open>cands \<noteq> []\<close>, of m "pe_now env"] by metis
    with tier(1,4) [OF x(1)] a True show ?thesis
      by (auto simp: pick_ledger(1) [OF q_def cands_def] pick_tier_def)
  next
    case False
    with best_tier_le [OF d, of m "pe_now env"] tier(4) [OF d] a show ?thesis
      by (simp add: pick_ledger(1) [OF q_def cands_def] pick_tier_def)
  qed
qed

text \<open>In \<open>cost_pool\<close> account a is paid for model m and account b is free for it.\<close>

definition cost_pool :: pool where
  "cost_pool = NoteModelCost (9 * Hour) ''b'' ''m'' 0 1000
     (NoteModelCost (9 * Hour) ''a'' ''m'' 5 1000 demo_pool)"

lemma cost_pool_inv: "pool_inv cost_pool"
  unfolding cost_pool_def by (intro pool_inv_NoteModelCost demo_pool_inv)

lemma cost_keys: "gm_keys (p_byUID cost_pool) = [''a'', ''b'']"
  by code_simp

theorem pick_cheapest_tier_witness:
  "tier_of cost_pool (10 * Hour) ''m'' ''b'' \<le> tier_of cost_pool (10 * Hour) ''m'' ''a''"
proof -
  let ?r = "pick demo_vars (demo_env (10 * Hour)) (demo_rand 0) [] ''m'' [] cost_pool"
  have "fst ?r = Some (named_auth ''b'')" by code_simp
  moreover have "p_costExploreEvents (snd ?r) = p_costExploreEvents cost_pool" by code_simp
  moreover have "eligible_uid demo_vars cost_pool (10 * Hour) [] ''m'' [] ''a''"
    by (simp add: eligible_uid_def, rule exI [of _ "the (gm_get (p_byUID cost_pool) ''a'')"])
      code_simp
  moreover have "pe_now (demo_env (10 * Hour)) = 10 * Hour" "a_UID (named_auth ''b'') = ''b''"
    by (simp_all add: demo_env_def named_auth_def)
  ultimately show ?thesis
    using pick_cheapest_tier [OF cost_pool_inv demo_env_ok [OF cost_keys] demo_rand_ok,
        of demo_vars "10 * Hour" 0 "[]" "''m''" "[]" "named_auth ''b''" "''a''"]
    by simp
qed

text \<open>
  At most one exploration per window. Once a pick has explored for a realm and model, no pick
  for the same realm and model does so before the interval is over, whoever is tried, whatever
  happened to the accounts in between: the ledger alone decides.
\<close>

theorem explore_once_per_window:
  assumes "p_costExploreEvents (snd (pick v env rnd tried m realm p)) \<noteq> p_costExploreEvents p"
    and "p_exploreLast q = p_exploreLast (snd (pick v env rnd tried m realm p))"
    and "Sub (pe_now env') (pe_now env) < p_costExploreInterval q"
  shows "p_costExploreEvents (snd (pick v' env' rnd' tried' m realm q)) = p_costExploreEvents q"
proof -
  have "explore_last (snd (pick v env rnd tried m realm p)) (explore_key realm m) = pe_now env"
    using assms(1) by (intro pick_ledger(2) [OF refl refl]) (simp add: pick_ledger(1) [OF refl refl]
        split: if_splits)
  then have "explore_last q (explore_key realm m) = pe_now env"
    using assms(2) by (simp add: explore_last_def)
  then have "\<not> explore_due (pe_now env') m realm cands (prune_all (pe_now env') q)" for cands
    using assms(3) by (simp add: explore_due_def explore_last_def)
  then show ?thesis by (simp add: pick_ledger(1) [OF refl refl])
qed

definition free_pool :: pool where
  "free_pool = NoteModelCost (9 * Hour) ''b'' ''m'' 0 1000 demo_pool"

theorem explore_once_per_window_witness:
  "let p1 = snd (pick demo_vars (demo_env (10 * Hour)) (demo_rand 0) [] ''m'' [] free_pool) in
   p_costExploreEvents p1 = 1 \<and>
   p_costExploreEvents (snd (pick demo_vars (demo_env (10 * Hour + 29 * Minute)) (demo_rand 7) []
     ''m'' [] p1)) = 1"
proof -
  let ?p1 = "snd (pick demo_vars (demo_env (10 * Hour)) (demo_rand 0) [] ''m'' [] free_pool)"
  have ev: "p_costExploreEvents ?p1 = 1" "p_costExploreEvents free_pool = 0" by code_simp+
  moreover have "Sub (pe_now (demo_env (10 * Hour + 29 * Minute))) (pe_now (demo_env (10 * Hour)))
      < p_costExploreInterval ?p1" by code_simp
  ultimately show ?thesis
    using explore_once_per_window [of demo_vars "demo_env (10 * Hour)" "demo_rand 0" "[]" "''m''"
        "[]" free_pool ?p1 "demo_env (10 * Hour + 29 * Minute)" demo_vars "demo_rand 7" "[]"]
    by simp
qed

section \<open>The draw\<close>

lemma sum_draw_nonneg: "0 \<le> sum_list (map draw_weight cs)"
  using draw_weight_pos by (intro sum_list_nonneg) (auto intro: order_trans [of 0 1])

text \<open>
  (C3) The draw is exactly proportional and starves nobody. Of the numbers that \<open>Int64N(total)\<close>
  may return, exactly \<open>draw_weight c\<close> make \<open>pickWeighted\<close> return the candidate \<open>c\<close>, and that is
  at least one for every candidate.
\<close>

theorem pickWeighted_share:
  assumes "distinct cs" and "c \<in> set cs"
  shows "card {r. 0 \<le> r \<and> r < sum_list (map draw_weight cs) \<and> pickWeighted (\<lambda>n. r) cs = c} =
      nat (draw_weight c) \<and> 1 \<le> draw_weight c"
proof -
  obtain bs ds where cs: "cs = bs @ c # ds" using assms(2) by (meson split_list)
  let ?lo = "sum_list (map draw_weight bs)"
  have hit: "pickWeighted (\<lambda>n. r) cs = d"
    if "cs = xs @ d # ys" "sum_list (map draw_weight xs) \<le> r"
      "r < sum_list (map draw_weight xs) + draw_weight d" for r d xs ys
    using draw_loop_prefix [of 0 xs r d ys] that by (simp add: pickWeighted_def Let_def)
  have cover: "\<exists>xs d ys. cs = xs @ d # ys \<and> sum_list (map draw_weight xs) \<le> r \<and>
      r < sum_list (map draw_weight xs) + draw_weight d"
    if "0 \<le> r" "r < sum_list (map draw_weight cs)" for r
    using that
  proof (induction cs rule: rev_induct)
    case (snoc d cs)
    show ?case
    proof (cases "r < sum_list (map draw_weight cs)")
      case True
      with snoc obtain xs e ys where "cs = xs @ e # ys" "sum_list (map draw_weight xs) \<le> r"
        "r < sum_list (map draw_weight xs) + draw_weight e" by blast
      then show ?thesis by (intro exI [of _ xs] exI [of _ e] exI [of _ "ys @ [d]"]) simp
    next
      case False
      with snoc.prems show ?thesis by (intro exI [of _ cs] exI [of _ d] exI [of _ "[]"]) simp
    qed
  qed simp
  have "{r. 0 \<le> r \<and> r < sum_list (map draw_weight cs) \<and> pickWeighted (\<lambda>n. r) cs = c} =
      {?lo..<?lo + draw_weight c}" (is "?A = ?B")
  proof
    show "?A \<subseteq> ?B"
    proof
      fix r assume r: "r \<in> ?A"
      with cover obtain xs d ys where x: "cs = xs @ d # ys" "sum_list (map draw_weight xs) \<le> r"
        "r < sum_list (map draw_weight xs) + draw_weight d" by blast
      with r hit have "d = c" by auto
      have "c \<notin> set xs" "c \<notin> set ys" using assms(1) x(1) \<open>d = c\<close> by auto
      from append_Cons_eq_iff [OF this, of bs ds] x(1) cs \<open>d = c\<close> have "xs = bs" by simp
      with x \<open>d = c\<close> show "r \<in> ?B" by simp
    qed
    show "?B \<subseteq> ?A"
      using hit [OF cs] sum_draw_nonneg [of bs] sum_draw_nonneg [of ds] by (auto simp: cs)
  qed
  with draw_weight_pos [of c] show ?thesis by simp
qed

theorem pickWeighted_share_witness:
  "let w = (\<lambda>u x. \<lparr>wt_uid = u, wt_e = new_entry (named_auth u), wt_w = x, wt_tier = 1,
                  wt_cost1k = 0\<rparr>);
       cs = [w ''a'' 6, w ''b'' (1 / 4)]
   in card {r. 0 \<le> r \<and> r < sum_list (map draw_weight cs) \<and>
        pickWeighted (\<lambda>n. r) cs = w ''b'' (1 / 4)} = 250000"
proof -
  let ?w = "\<lambda>u x. \<lparr>wt_uid = u, wt_e = new_entry (named_auth u), wt_w = x, wt_tier = 1,
    wt_cost1k = 0\<rparr> :: weighted"
  have "draw_weight (?w ''b'' (1 / 4)) = 250000" by code_simp
  then show ?thesis
    using pickWeighted_share [of "[?w ''a'' 6, ?w ''b'' (1 / 4)]" "?w ''b'' (1 / 4)"]
    by (simp add: Let_def)
qed

section \<open>Order independence\<close>

text \<open>
  (C4) While somebody is eligible, selection is a function of the pool, the clock and the draw: the
  iteration order of the account map makes no difference, and neither does the shuffle of
  equal-weight candidates, whatever permutation it applies.
\<close>

theorem pick_order_free:
  assumes "pool_inv p" and "env_ok env p" and "env_ok env' p" and "rand_ok rnd" and "rand_ok rnd'"
    and "pe_now env = pe_now env'" and "pr_int64N rnd = pr_int64N rnd'"
    and "eligible_uid v p (pe_now env) tried m realm u"
  shows "pick v env rnd tried m realm p = pick v env' rnd' tried m realm p"
proof -
  define q where "q = prune_all (pe_now env) p"
  have q': "q = prune_all (pe_now env') p" by (simp add: q_def assms(6))
  define cs where "cs = pick_candidates v (pe_now env) (pe_it env) tried m realm q"
  define ds where "ds = pick_candidates v (pe_now env') (pe_it env') tried m realm q"
  have inv: "pool_inv q" unfolding q_def by (rule pool_inv_prune_all [OF assms(1)])
  have en: "enumerates (pe_it env) (p_byUID q)" "enumerates (pe_it env') (p_byUID q)"
    using assms(2,3) by (simp_all add: env_ok_def q_def)
  have ms: "mset cs = mset ds" unfolding cs_def ds_def assms(6)
    by (rule candidates_mset [OF pool_inv_wf [OF inv] en])
  have "cs \<noteq> []"
    using candidates_pruned(2) [OF assms(1)] assms(2,8) by (auto simp: cs_def q_def env_ok_def)
  moreover have "ds \<noteq> []" using ms \<open>cs \<noteq> []\<close> by auto
  moreover have "ranked (pr_shuf rnd) (pe_now env) m realm cs q =
      ranked (pr_shuf rnd') (pe_now env') m realm ds q"
    unfolding assms(6)
    by (rule ranked_order_free [OF inv assms(4,5) en cs_def [unfolded assms(6)] ds_def])
  moreover have "note_explore (pe_now env) m realm cs q = note_explore (pe_now env') m realm ds q"
    using explore_due_set [OF mset_eq_setD [OF ms]] by (simp add: note_explore_def assms(6))
  ultimately show ?thesis
    unfolding pick_unfold [OF q_def cs_def] pick_unfold [OF q' ds_def] by (simp add: assms(6,7))
qed

theorem pick_order_free_witness:
  "pick demo_vars (demo_env (10 * Hour)) (demo_rand 3) [] ''m'' [] demo_pool =
   pick demo_vars ((demo_env (10 * Hour))\<lparr>pe_it := [''b'', ''a'']\<rparr>)
     ((demo_rand 3)\<lparr>pr_shuf := rev\<rparr>) [] ''m'' [] demo_pool"
proof (rule pick_order_free [of _ _ _ _ _ _ _ _ _ "''a''"])
  show "eligible_uid demo_vars demo_pool (pe_now (demo_env (10 * Hour))) [] ''m'' [] ''a''"
    by (simp add: eligible_uid_def, rule exI [of _ "new_entry (named_auth ''a'')"]) code_simp
  show "env_ok ((demo_env (10 * Hour))\<lparr>pe_it := [''b'', ''a'']\<rparr>) demo_pool"
    by (auto simp: env_ok_def enumerates_def demo_keys demo_env_def)
qed (auto simp: demo_ok rand_ok_def demo_rand_def)

section \<open>What a pick leaves behind\<close>

text \<open>
  A pick keeps the pool invariant and makes the returned account the most recently used one:
  its sequence number is strictly above every other account's, so that the least-recently-used
  choice never meets a tie between accounts that were ever used. No other account changes but for
  pruned per-model records, which nothing reads.
\<close>

theorem pick_most_recent:
  assumes "pool_inv p" and "env_ok env p" and "rand_ok rnd" and "0 \<le> pe_now env"
    and "pick v env rnd tried m realm p = (Some a, p')"
  shows "pool_inv p' \<and> p_pickSeq p' = Suc (p_pickSeq p) \<and>
    (\<exists>e. gm_get (p_byUID p') (a_UID a) = Some e \<and> e_usedSeq e = Suc (p_pickSeq p) \<and> e_a e = a) \<and>
    (\<forall>w f. w \<noteq> a_UID a \<longrightarrow> gm_get (p_byUID p') w = Some f \<longrightarrow>
      e_usedSeq f < Suc (p_pickSeq p) \<and>
      (\<exists>g. gm_get (p_byUID p) w = Some g \<and> f = prune_entry (pe_now env) g))"
proof -
  have "\<exists>u e t q. gm_get (p_byUID (prune_all (pe_now env) p)) u = Some e \<and> a = e_a e \<and>
      p' = mark_used t u q \<and> p_byUID q = p_byUID (prune_all (pe_now env) p) \<and>
      p_pickSeq q = p_pickSeq p"
  proof (cases "pick_candidates v (pe_now env) (pe_it env) tried m realm
      (prune_all (pe_now env) p) = []")
    case True
    then obtain u e where "fallback_best v (pe_now env) tried realm (prune_all (pe_now env) p)
        (range_map (pe_it2 env) (p_byUID (prune_all (pe_now env) p))) = Some (u, e)"
      "a = e_a e" "p' = mark_used (pe_now2 env) u (prune_all (pe_now env) p)"
      using assms(5) by (auto simp: pick_unfold [OF refl refl] pickEarliestExpiryLocked_def
          split: option.splits)
    with fallback_best_Some(1) [OF assms(4)] assms(2) show ?thesis
      by (metis env_ok_def prune_all_enumerates prune_all_frame(1))
  next
    case False
    then obtain u e where "(u, e) \<in> set (pick_candidates v (pe_now env) (pe_it env) tried m realm
        (prune_all (pe_now env) p))" "pick v env rnd tried m realm p = (Some (e_a e),
        mark_used (pe_now env) u (note_explore (pe_now env) m realm
          (pick_candidates v (pe_now env) (pe_it env) tried m realm (prune_all (pe_now env) p))
          (prune_all (pe_now env) p)))"
      by (rule pick_normal [OF assms(3) refl refl])
    with assms(2,5) show ?thesis
      by (metis candidates_in env_ok_def note_explore_frame(1,2) prod.inject option.inject
          prune_all_enumerates prune_all_frame(1))
  qed
  then obtain u e t q where q: "gm_get (p_byUID (prune_all (pe_now env) p)) u = Some e"
    "a = e_a e" "p' = mark_used t u q" "p_byUID q = p_byUID (prune_all (pe_now env) p)"
    "p_pickSeq q = p_pickSeq p" by blast
  have uid: "a_UID a = u"
    using pool_inv_uid [OF pool_inv_prune_all [OF assms(1)] q(1)] q(2) by simp
  have "pool_inv p'" using pool_inv_pick [OF assms(1), of v env rnd tried m realm] assms(5) by simp
  moreover have "e_usedSeq g \<le> p_pickSeq p" if "gm_get (p_byUID p) w = Some g" for w g
    using pool_inv_entry [OF assms(1) that] by (simp add: entry_ok_def)
  ultimately show ?thesis
    using q uid by (auto simp: get_mark_used pool_frame prune_all_get less_Suc_eq_le)
qed

theorem pick_most_recent_witness:
  "p_pickSeq (snd (pick demo_vars (demo_env (10 * Hour)) (demo_rand 0) [] ''m'' [] demo_pool)) = 1"
proof -
  let ?r = "pick demo_vars (demo_env (10 * Hour)) (demo_rand 0) [] ''m'' [] demo_pool"
  have r: "?r = (Some (named_auth ''a''), snd ?r)"
    by (rule prod_eqI) (simp_all, code_simp)
  have "0 \<le> pe_now (demo_env (10 * Hour))" "p_pickSeq demo_pool = 0" by code_simp+
  with pick_most_recent [OF demo_ok(1,3,2) _ r] show ?thesis by simp
qed

text \<open>
  Anti-herding. If every eligible account was used within the minimal pick gap, the account
  that is returned is, within the chosen tier, the least recently used one.
\<close>

theorem pick_least_recent:
  assumes "pool_inv p" and "env_ok env p" and "rand_ok rnd"
    and "fst (pick v env rnd tried m realm p) = Some a"
    and "\<And>w f. eligible_uid v p (pe_now env) tried m realm w \<Longrightarrow> gm_get (p_byUID p) w = Some f \<Longrightarrow>
      Sub (pe_now env) (e_lastUsed f) < pv_minPickGap v"
    and "eligible_uid v p (pe_now env) tried m realm u" and "gm_get (p_byUID p) u = Some d"
    and "tier_of p (pe_now env) m u = tier_of p (pe_now env) m (a_UID a)"
  shows "\<exists>e. gm_get (p_byUID p) (a_UID a) = Some e \<and> e_usedSeq e \<le> e_usedSeq d"
proof -
  define q where "q = prune_all (pe_now env) p"
  define cands where "cands = pick_candidates v (pe_now env) (pe_it env) tried m realm q"
  define ws where "ws = ranked (pr_shuf rnd) (pe_now env) m realm cands q"
  have en: "enumerates (pe_it env) (p_byUID p)" using assms(2) by (simp add: env_ok_def)
  note facts = candidate_facts [OF assms(1) en, of _ _ v "pe_now env" tried m realm,
      folded q_def, folded cands_def]
  have orig: "\<exists>f. gm_get (p_byUID p) w = Some f \<and> e = prune_entry (pe_now env) f"
    if "(w, e) \<in> set cands" for w e
    using that en by (auto simp: cands_def q_def candidates_in prune_all_get)
  obtain d' where d': "(u, d') \<in> set cands"
    using assms(6) unfolding candidates_pruned(1) [OF assms(1) en, symmetric] cands_def q_def
    by blast
  have "cands \<noteq> []" using d' by auto
  have recent: "Sub (pe_now env) (e_lastUsed (wt_e c)) < pv_minPickGap v" if "c \<in> set ws" for c
    using ranked_in(1) [OF assms(3) that [unfolded ws_def]] facts(1) orig assms(5) by fastforce
  then have "short_list v (pe_now env) ws = []"
    by (auto simp: short_list_def filter_empty_conv not_le dest: in_set_takeD)
  then have pick: "fst (pick v env rnd tried m realm p) = Some (e_a (wt_e (lru_choice ws)))"
    using \<open>cands \<noteq> []\<close>
    by (simp add: pick_unfold [OF q_def cands_def] choose_account_def Let_def ws_def)
  have "ws \<noteq> []" unfolding ws_def by (rule ranked_nonempty [OF assms(3) \<open>cands \<noteq> []\<close>])
  note lru = ranked_in [OF assms(3) lru_choice_in [OF this, unfolded ws_def], folded ws_def]
  obtain e where e: "gm_get (p_byUID p) (wt_uid (lru_choice ws)) = Some e"
    "wt_e (lru_choice ws) = prune_entry (pe_now env) e" using orig [OF lru(1)] by blast
  have uid: "a_UID a = wt_uid (lru_choice ws)" using pick assms(4) facts(3) [OF lru(1)] by simp
  have "fst (costTier m (pe_now env) d') = pick_tier (pe_now env) m realm cands q"
    using assms(8) facts(4) [OF d'] facts(4) [OF lru(1)] lru(2) uid by simp
  then have "\<exists>c \<in> set ws. wt_e c = d'"
    using d' by (force simp: ws_def set_ranked [OF assms(3)] build_weighted_in)
  then have "e_usedSeq (wt_e (lru_choice ws)) \<le> e_usedSeq d'"
    using lru_choice_least by blast
  with e orig [OF d'] assms(7) uid show ?thesis by auto
qed

definition used_pool :: pool where
  "used_pool = mark_used (10 * Hour - Millisecond) ''a'' (mark_used (10 * Hour) ''b'' demo_pool)"

lemma used_pool_inv: "pool_inv used_pool"
  unfolding used_pool_def by (intro pool_inv_mark_used demo_pool_inv)

lemma used_keys: "gm_keys (p_byUID used_pool) = [''a'', ''b'']"
  by code_simp

lemma used_get: "gm_get (p_byUID used_pool) w = Some f \<Longrightarrow>
    Sub (pe_now (demo_env (10 * Hour))) (e_lastUsed f) < pv_minPickGap demo_vars"
proof -
  have "list_all (\<lambda>(w, f). Sub (pe_now (demo_env (10 * Hour))) (e_lastUsed f) <
      pv_minPickGap demo_vars) (p_byUID used_pool)" by code_simp
  then show "gm_get (p_byUID used_pool) w = Some f \<Longrightarrow> ?thesis"
    by (auto simp: list_all_iff dest: map_of_SomeD)
qed

theorem pick_least_recent_witness:
  "\<exists>e. gm_get (p_byUID used_pool) ''b'' = Some e \<and>
     e_usedSeq e \<le> e_usedSeq (the (gm_get (p_byUID used_pool) ''a''))"
proof -
  have got: "fst (pick demo_vars (demo_env (10 * Hour)) (demo_rand 0) [] ''m'' [] used_pool) =
      Some (named_auth ''b'')" by code_simp
  have get: "gm_get (p_byUID used_pool) ''a'' = Some (the (gm_get (p_byUID used_pool) ''a''))"
    by code_simp
  have elig: "eligible_uid demo_vars used_pool (pe_now (demo_env (10 * Hour))) [] ''m'' [] ''a''"
    by (simp add: eligible_uid_def, rule exI [of _ "the (gm_get (p_byUID used_pool) ''a'')"])
      code_simp
  have tier: "tier_of used_pool (pe_now (demo_env (10 * Hour))) ''m'' ''a'' =
      tier_of used_pool (pe_now (demo_env (10 * Hour))) ''m'' (a_UID (named_auth ''b''))"
    by code_simp
  have "a_UID (named_auth ''b'') = ''b''" by (simp add: named_auth_def)
  with pick_least_recent [OF used_pool_inv demo_env_ok [OF used_keys] demo_rand_ok got used_get
      elig get tier]
  show ?thesis by simp
qed

end
