(* ===== verification/Persist.thy ===== *)
theory Persist
  imports Pick_Facts
begin

text \<open>
  The pool on disk, after \<^verbatim>\<open>src/internal/pool/persist.go\<close>, the persisted types of
  \<^verbatim>\<open>entry.go\<close>, \<open>New\<close> and \<open>SyncToDir\<close> of \<^verbatim>\<open>pool.go\<close> and the reload of \<^verbatim>\<open>watch.go\<close>.

  The content of \<open>state.json\<close> is the decoded \<open>stateFile\<close>: encoding and decoding it as JSON text is
  the standard library's, and what can go wrong there (an error of \<open>MarshalIndent\<close>, \<open>WriteFile\<close>,
  \<open>Rename\<close>, text that does not decode) is an input of the operation. The mirror is any
  implementation of \<open>StoreSnapshotter\<close>, whose two methods are arguments (\<open>SaveState\<close>,
  \<open>LoadState\<close>) on a state of its own. \<open>range\<close> over the accounts only builds another map here, so
  the association list itself is the iteration order.
\<close>

record stateModelCooldown =
  sm_Until :: gtime
  sm_ResetAt :: gtime
  sm_Reason :: string

record stateModelCost =
  sc_CostPer1k :: rat
  sc_LastSeen :: gtime
  sc_Samples :: int

record stateAccount =
  sa_Credits :: int
  sa_Disabled :: bool
  sa_Reason :: string
  sa_ManualDisabled :: bool
  sa_ManualReason :: string
  sa_Until :: gtime
  sa_CoolKind :: CoolKind
  sa_SuccessCount :: int
  sa_ErrTotal :: int
  sa_ErrCount :: int
  sa_LastSuccess :: gtime
  sa_LastErr :: gtime
  sa_SoftStreak :: int
  sa_SessionDeadFails :: int
  sa_ConsecutiveFails :: int
  sa_DegradeUntil :: "gtime option"
  sa_BreakerUntil :: "gtime option"
  sa_RetryCount :: int
  sa_CreditsExpiring :: int
  sa_ModelCooldowns :: "(string, stateModelCooldown) gomap"
  sa_ModelCosts :: "(string, stateModelCost) gomap"

record stateFile =
  sf_Accounts :: "(uid, stateAccount) gomap"

record snapshot =
  sn_stateFile :: stateFile
  sn_SavedAt :: gtime

text \<open>What a path holds: nothing readable, bytes that do not decode, or a state.\<close>

datatype file_content = Absent | Corrupt | Holds stateFile

record 's world =
  w_file :: file_content
  w_mtime :: gtime
  w_store :: 's

text \<open>The clock readings and the outcomes of the system calls of one save.\<close>

record save_env =
  se_now :: gtime
  se_marshalOK :: bool
  se_writeOK :: bool
  se_renameOK :: bool
  se_mtime :: gtime
  se_snapOK :: bool
  se_snapNow :: gtime

definition persistLogEvery :: int where "persistLogEvery = 100"

section \<open>Collecting and applying a state\<close>

definition save_cooldowns ::
  "gtime \<Rightarrow> (string, modelCooldown) gomap \<Rightarrow> (string, stateModelCooldown) gomap" where
  "save_cooldowns now m =
     map (\<lambda>(k, mc). (k, \<lparr>sm_Until = mc_Until mc, sm_ResetAt = mc_ResetAt mc,
         sm_Reason = mc_Reason mc\<rparr>))
       (filter (\<lambda>(k, mc). \<not> (IsZero (mc_Until mc) \<or> \<not> Before now (mc_Until mc))) m)"

definition save_costs ::
  "gtime \<Rightarrow> (string, modelCostEntry) gomap \<Rightarrow> (string, stateModelCost) gomap" where
  "save_costs now m =
     map (\<lambda>(k, mc). (k, \<lparr>sc_CostPer1k = co_CostPer1k mc, sc_LastSeen = co_LastSeen mc,
         sc_Samples = co_Samples mc\<rparr>))
       (filter (\<lambda>(k, mc). \<not> (IsZero (co_LastSeen mc) \<or>
         Sub now (co_LastSeen mc) > modelCostTTL)) m)"

definition save_account :: "gtime \<Rightarrow> entry \<Rightarrow> stateAccount" where
  "save_account now e =
     (let breaking = (\<not> IsZero (e_breakerUntil e) \<and> Before now (e_breakerUntil e));
          degraded = (\<not> IsZero (e_degradeUntil e) \<and> Before now (e_degradeUntil e));
          (coolKind, reason) = cooledReasonLocked e now
      in \<lparr>sa_Credits = e_credits e, sa_Disabled = e_disabled e, sa_Reason = reason,
          sa_ManualDisabled = e_manualDisabled e, sa_ManualReason = e_manualReason e,
          sa_Until = e_until e, sa_CoolKind = coolKind, sa_SuccessCount = e_successCount e,
          sa_ErrTotal = e_errTotal e, sa_ErrCount = 0, sa_LastSuccess = e_lastSuccess e,
          sa_LastErr = e_lastErr e, sa_SoftStreak = e_softStreak e,
          sa_SessionDeadFails = e_sessionDeadFails e,
          sa_ConsecutiveFails = e_consecutiveFails e,
          sa_DegradeUntil = (if degraded then Some (e_degradeUntil e) else None),
          sa_BreakerUntil = (if breaking then Some (e_breakerUntil e) else None),
          sa_RetryCount = (if breaking then e_retryCount e else 0),
          sa_CreditsExpiring = e_creditsExpiring e,
          sa_ModelCooldowns = save_cooldowns now (e_modelCooldowns e),
          sa_ModelCosts = save_costs now (e_modelCost e)\<rparr>)"

definition stateOverviewLocked :: "gtime \<Rightarrow> pool \<Rightarrow> stateFile" where
  "stateOverviewLocked now p =
     \<lparr>sf_Accounts = map (\<lambda>(u, e). (u, save_account now e)) (p_byUID p)\<rparr>"

definition restore_cooldowns ::
  "gtime \<Rightarrow> (string, stateModelCooldown) gomap \<Rightarrow> (string, modelCooldown) gomap" where
  "restore_cooldowns now m =
     map (\<lambda>(k, mc). (k, \<lparr>mc_Until = sm_Until mc, mc_ResetAt = sm_ResetAt mc,
         mc_Reason = sm_Reason mc, mc_Hits = 0\<rparr>))
       (filter (\<lambda>(k, mc). \<not> (IsZero (sm_Until mc) \<or> \<not> Before now (sm_Until mc))) m)"

definition restore_costs ::
  "gtime \<Rightarrow> (string, stateModelCost) gomap \<Rightarrow> (string, modelCostEntry) gomap" where
  "restore_costs now m =
     map (\<lambda>(k, mc). (k, \<lparr>co_CostPer1k = sc_CostPer1k mc, co_LastSeen = sc_LastSeen mc,
         co_Samples = sc_Samples mc\<rparr>))
       (filter (\<lambda>(k, mc). \<not> (IsZero (sc_LastSeen mc) \<or> sc_CostPer1k mc < 0) \<and>
         \<not> Sub now (sc_LastSeen mc) > modelCostTTL) m)"

definition restore_account :: "gtime \<Rightarrow> uid \<Rightarrow> stateAccount \<Rightarrow> entry" where
  "restore_account now u s =
     (let breaking = (case sa_BreakerUntil s of None \<Rightarrow> False
            | Some t \<Rightarrow> \<not> IsZero t \<and> Before now t);
          degraded = (case sa_DegradeUntil s of None \<Rightarrow> False
            | Some t \<Rightarrow> \<not> IsZero t \<and> Before now t)
      in (new_entry (zero_auth\<lparr>a_UID := u\<rparr>))
         \<lparr>e_credits := sa_Credits s, e_disabled := sa_Disabled s, e_reason := sa_Reason s,
          e_manualDisabled := sa_ManualDisabled s, e_manualReason := sa_ManualReason s,
          e_until := sa_Until s, e_coolKind := sa_CoolKind s,
          e_successCount := sa_SuccessCount s,
          e_errTotal := (if sa_ErrCount s > sa_ErrTotal s then sa_ErrCount s else sa_ErrTotal s),
          e_lastErr := sa_LastErr s, e_lastSuccess := sa_LastSuccess s,
          e_softStreak := sa_SoftStreak s, e_sessionDeadFails := sa_SessionDeadFails s,
          e_consecutiveFails := sa_ConsecutiveFails s,
          e_creditsExpiring := clamp_expiring (sa_Credits s) (sa_CreditsExpiring s),
          e_breakerUntil := (if breaking then the (sa_BreakerUntil s) else 0),
          e_retryCount := (if breaking then sa_RetryCount s else 0),
          e_degradeUntil := (if degraded then the (sa_DegradeUntil s) else 0),
          e_modelCooldowns := restore_cooldowns now (sa_ModelCooldowns s),
          e_modelCost := restore_costs now (sa_ModelCosts s)\<rparr>)"

definition applyAccountsLocked :: "gtime \<Rightarrow> (uid, stateAccount) gomap \<Rightarrow> pool \<Rightarrow> pool" where
  "applyAccountsLocked now accounts p =
     p\<lparr>p_byUID := foldl (\<lambda>m (u, s). gm_put u (restore_account now u s) m) (p_byUID p) accounts\<rparr>"

definition applySnapshotLocked :: "gtime \<Rightarrow> snapshot \<Rightarrow> pool \<Rightarrow> pool" where
  "applySnapshotLocked now s p =
     applyAccountsLocked now (sf_Accounts (sn_stateFile s)) (p\<lparr>p_byUID := []\<rparr>)"

definition adoptSnapshot :: "gtime \<Rightarrow> snapshot \<Rightarrow> pool \<Rightarrow> pool" where
  "adoptSnapshot now s p = (applySnapshotLocked now s p)\<lparr>p_dirty := True\<rparr>"

section \<open>Loading and saving\<close>

definition load :: "gtime \<Rightarrow> 's world \<Rightarrow> pool \<Rightarrow> pool" where
  "load now w p = (case w_file w of
      Holds sf \<Rightarrow> applyAccountsLocked now (sf_Accounts sf) p
    | Absent \<Rightarrow> p
    | Corrupt \<Rightarrow> p)"

definition New :: "gtime \<Rightarrow> string \<Rightarrow> 's world \<Rightarrow> pool" where
  "New now stateFp w =
     (let p = New_pool stateFp in if stateFp \<noteq> [] then load now w p else p)"

definition notePersistFail :: "pool \<Rightarrow> pool" where
  "notePersistFail p = p\<lparr>p_persistFails := p_persistFails p + 1\<rparr>"

definition saveLocked ::
  "(snapshot \<Rightarrow> 's \<Rightarrow> 's) \<Rightarrow> save_env \<Rightarrow> pool \<Rightarrow> 's world \<Rightarrow> pool \<times> 's world" where
  "saveLocked SaveState env p w =
     (if p_stateFp p = [] then (p, w)
      else let sf = stateOverviewLocked (se_now env) p in
        if \<not> se_marshalOK env then (notePersistFail p, w)
        else if \<not> se_writeOK env then (notePersistFail p, w)
        else if \<not> se_renameOK env then (notePersistFail p, w)
        else
          let p' = (if p_persistFails p > 0 then p\<lparr>p_persistFails := 0\<rparr> else p);
              w' = w\<lparr>w_file := Holds sf, w_mtime := se_mtime env\<rparr>
          in (p', if p_store p \<and> se_snapOK env
                  then w'\<lparr>w_store := SaveState \<lparr>sn_stateFile = sf, sn_SavedAt = se_snapNow env\<rparr>
                         (w_store w')\<rparr>
                  else w'))"

text \<open>One tick of the flusher and the final \<open>Flush\<close> are the same guarded save.\<close>

definition Flush ::
  "(snapshot \<Rightarrow> 's \<Rightarrow> 's) \<Rightarrow> save_env \<Rightarrow> pool \<Rightarrow> 's world \<Rightarrow> pool \<times> 's world" where
  "Flush SaveState env p w =
     (if p_dirty p then saveLocked SaveState env (p\<lparr>p_dirty := False\<rparr>) w else (p, w))"

text \<open>
  \<open>LoadState\<close> yields the stored bytes, if any, decoded: \<open>Some None\<close> is text that does not decode.
\<close>

definition RestoreFromSnapshot ::
  "('s \<Rightarrow> snapshot option option) \<Rightarrow> gtime \<Rightarrow> 's world \<Rightarrow> pool \<Rightarrow> pool" where
  "RestoreFromSnapshot LoadState now w p =
     (if \<not> p_store p \<or> p_stateFp p = [] then p
      else case LoadState (w_store w) of
        None \<Rightarrow> p
      | Some None \<Rightarrow> p
      | Some (Some snap) \<Rightarrow>
          if IsZero (sn_SavedAt snap) then p
          else if w_file w = Absent then adoptSnapshot now snap p
          else if \<not> After (w_mtime w) (sn_SavedAt snap) then adoptSnapshot now snap p
          else p)"

section \<open>Aligning the pool with the directory\<close>

definition sync_upserts :: "auth list \<Rightarrow> pool \<Rightarrow> pool" where
  "sync_upserts auths p = foldl (\<lambda>p a. upsertLocked a p) p auths"

definition SyncToDir ::
  "(snapshot \<Rightarrow> 's \<Rightarrow> 's) \<Rightarrow> save_env \<Rightarrow> auth list \<Rightarrow> pool \<Rightarrow> 's world \<Rightarrow> pool \<times> 's world" where
  "SyncToDir SaveState env auths p w =
     (let p1 = sync_upserts auths p;
          seen = map a_UID auths;
          p2 = p1\<lparr>p_byUID := filter (\<lambda>(u, e). u \<in> set seen) (p_byUID p1)\<rparr>;
          changed = list_ex (\<lambda>(u, e). u \<notin> set seen) (p_byUID p1)
      in if changed then saveLocked SaveState env p2 w else (p2, w))"

text \<open>A reload of the directory: \<open>auths\<close> is what \<open>LoadDir\<close> returns, \<open>None\<close> its error.\<close>

definition reloadAuthDir ::
  "(snapshot \<Rightarrow> 's \<Rightarrow> 's) \<Rightarrow> save_env \<Rightarrow> auth list option \<Rightarrow> pool \<Rightarrow> 's world \<Rightarrow> pool \<times> 's world"
where
  "reloadAuthDir SaveState env auths p w = (case auths of
      None \<Rightarrow> (p, w)
    | Some as \<Rightarrow> SyncToDir SaveState env as p w)"

text \<open>One tick of the watcher: \<open>cur\<close> is the fingerprint, \<open>None\<close> when the directory is unreadable.\<close>

definition watch_tick ::
  "(snapshot \<Rightarrow> 's \<Rightarrow> 's) \<Rightarrow> save_env \<Rightarrow> string option \<Rightarrow> auth list option \<Rightarrow>
   string \<Rightarrow> pool \<Rightarrow> 's world \<Rightarrow> string \<times> pool \<times> 's world" where
  "watch_tick SaveState env cur auths prev p w = (case cur of
      None \<Rightarrow> (prev, p, w)
    | Some fp \<Rightarrow> if fp = prev then (prev, p, w)
        else (fp, reloadAuthDir SaveState env auths p w))"

section \<open>Applying a state\<close>

lemma fold_put_get:
  assumes "gm_wf accounts"
  shows "gm_get (foldl (\<lambda>m (u, s). gm_put u (f u s) m) m0 accounts) u =
    (case gm_get accounts u of None \<Rightarrow> gm_get m0 u | Some s \<Rightarrow> Some (f u s))"
  using assms
proof (induction accounts arbitrary: m0)
  case (Cons x xs)
  have "gm_get xs (fst x) = None" using Cons.prems by (simp add: gm_wf_def map_of_eq_None_iff)
  with Cons show ?case by (auto simp: gm_wf_def case_prod_beta' split: option.split)
qed simp

lemma fold_put_wf: "gm_wf m0 \<Longrightarrow> gm_wf (foldl (\<lambda>m (u, s). gm_put u (f u s) m) m0 accounts)"
  by (induction accounts arbitrary: m0) (auto simp: gm.wf_put)

lemma get_applyAccounts:
  assumes "gm_wf accounts"
  shows "gm_get (p_byUID (applyAccountsLocked now accounts p)) u =
    (case gm_get accounts u of None \<Rightarrow> gm_get (p_byUID p) u | Some s \<Rightarrow> Some (restore_account now u s))"
  using fold_put_get [OF assms] by (simp add: applyAccountsLocked_def)

lemma gm_get_map: "gm_get (map (\<lambda>(k, v). (k, f v)) m) u = map_option f (gm_get m u)"
  by (induction m) auto

lemma gm_wf_map_filter: "gm_wf m \<Longrightarrow> gm_wf (map (\<lambda>(k, v). (k, f v)) (filter P m))"
  by (auto simp: gm_wf_def distinct_map comp_def case_prod_beta' intro: inj_on_subset)

lemma get_map_filter:
  "gm_wf m \<Longrightarrow> gm_get (map (\<lambda>(k, v). (k, f v)) (filter (\<lambda>(k, v). P v) m)) u =
     (case gm_get m u of None \<Rightarrow> None | Some v \<Rightarrow> if P v then Some (f v) else None)"
  using gm_filter_get [of m P u] unfolding gm_filter_def gm_get_map
  by (simp split: option.split)

text \<open>A decoded file binds each account, and each model of an account, once.\<close>

definition wf_account :: "stateAccount \<Rightarrow> bool" where
  "wf_account s = (gm_wf (sa_ModelCooldowns s) \<and> gm_wf (sa_ModelCosts s))"

definition wf_file :: "stateFile \<Rightarrow> bool" where
  "wf_file sf = (gm_wf (sf_Accounts sf) \<and>
     (\<forall>u s. gm_get (sf_Accounts sf) u = Some s \<longrightarrow> wf_account s))"

lemma restore_wf: "wf_account s \<Longrightarrow> wf_entry (restore_account now u s)"
  by (simp add: wf_account_def wf_entry_def restore_account_def Let_def restore_cooldowns_def
      restore_costs_def gm_wf_map_filter)

lemma restore_frame:
  "a_UID (e_a (restore_account now u s)) = u" "e_usedSeq (restore_account now u s) = 0"
  "e_inFlight (restore_account now u s) = 0"
  by (simp_all add: restore_account_def Let_def new_entry_def)

lemma pool_inv_applyAccounts:
  assumes "pool_inv p" and "wf_file sf"
  shows "pool_inv (applyAccountsLocked now (sf_Accounts sf) p)" (is "pool_inv ?q")
proof (rule pool_invI)
  have wf: "gm_wf (sf_Accounts sf)" using assms(2) by (simp add: wf_file_def)
  note get = get_applyAccounts [OF wf]
  show "gm_wf (p_byUID ?q)"
    using pool_inv_wf [OF assms(1)] by (simp add: applyAccountsLocked_def fold_put_wf)
  have seq: "p_pickSeq ?q = p_pickSeq p" by (simp add: applyAccountsLocked_def)
  show "entry_ok (p_pickSeq ?q) u e" if "gm_get (p_byUID ?q) u = Some e" for u e
    using that assms(2) pool_inv_entry [OF assms(1)] unfolding seq get
    by (auto simp: entry_ok_def restore_frame wf_file_def restore_wf split: option.splits)
  show "seq_distinct (p_byUID ?q)"
    using assms(1) unfolding pool_inv_def seq_distinct_def get
    by (auto simp: restore_frame split: option.splits)
qed

section \<open>The round trip of one account\<close>

definition reload :: "gtime \<Rightarrow> gtime \<Rightarrow> uid \<Rightarrow> entry \<Rightarrow> entry" where
  "reload t1 t2 u e = restore_account t2 u (save_account t1 e)"

lemma save_account_wf: "wf_entry e \<Longrightarrow> wf_account (save_account now e)"
  by (simp add: wf_account_def wf_entry_def save_account_def Let_def save_cooldowns_def
      save_costs_def gm_wf_map_filter split: prod.split)

lemma reload_cooldowns:
  assumes "wf_entry e" and "t1 \<le> t2"
  shows "gm_get (e_modelCooldowns (reload t1 t2 u e)) m =
    (case gm_get (e_modelCooldowns e) m of None \<Rightarrow> None
     | Some mc \<Rightarrow> if cooldown_over t2 mc then None else Some (mc\<lparr>mc_Hits := 0\<rparr>))"
proof -
  have "gm_wf (save_cooldowns t1 (e_modelCooldowns e))"
    using assms(1) by (simp add: wf_entry_def save_cooldowns_def gm_wf_map_filter)
  then have "gm_get (restore_cooldowns t2 (save_cooldowns t1 (e_modelCooldowns e))) m =
      (case gm_get (save_cooldowns t1 (e_modelCooldowns e)) m of None \<Rightarrow> None
       | Some mc \<Rightarrow> if \<not> (IsZero (sm_Until mc) \<or> \<not> t2 < sm_Until mc)
           then Some \<lparr>mc_Until = sm_Until mc, mc_ResetAt = sm_ResetAt mc,
             mc_Reason = sm_Reason mc, mc_Hits = 0\<rparr> else None)"
    unfolding restore_cooldowns_def by (rule get_map_filter)
  moreover have "gm_get (save_cooldowns t1 (e_modelCooldowns e)) m =
      (case gm_get (e_modelCooldowns e) m of None \<Rightarrow> None
       | Some mc \<Rightarrow> if \<not> (IsZero (mc_Until mc) \<or> \<not> t1 < mc_Until mc)
           then Some \<lparr>sm_Until = mc_Until mc, sm_ResetAt = mc_ResetAt mc,
             sm_Reason = mc_Reason mc\<rparr> else None)"
    unfolding save_cooldowns_def using assms(1) by (intro get_map_filter) (simp add: wf_entry_def)
  ultimately show ?thesis
    using assms(2)
    by (auto simp: reload_def restore_account_def save_account_def Let_def cooldown_over_def
        split: option.split prod.split)
qed

lemma reload_costs:
  assumes "wf_entry e" and "t1 \<le> t2"
  shows "gm_get (e_modelCost (reload t1 t2 u e)) m =
    (case gm_get (e_modelCost e) m of None \<Rightarrow> None
     | Some mc \<Rightarrow> if cost_stale t2 mc \<or> co_CostPer1k mc < 0 then None else Some mc)"
proof -
  have "gm_wf (save_costs t1 (e_modelCost e))"
    using assms(1) by (simp add: wf_entry_def save_costs_def gm_wf_map_filter)
  then have "gm_get (restore_costs t2 (save_costs t1 (e_modelCost e))) m =
      (case gm_get (save_costs t1 (e_modelCost e)) m of None \<Rightarrow> None
       | Some mc \<Rightarrow> if \<not> (IsZero (sc_LastSeen mc) \<or> sc_CostPer1k mc < 0) \<and>
             \<not> Sub t2 (sc_LastSeen mc) > modelCostTTL
           then Some \<lparr>co_CostPer1k = sc_CostPer1k mc, co_LastSeen = sc_LastSeen mc,
             co_Samples = sc_Samples mc\<rparr> else None)"
    unfolding restore_costs_def by (rule get_map_filter)
  moreover have "gm_get (save_costs t1 (e_modelCost e)) m =
      (case gm_get (e_modelCost e) m of None \<Rightarrow> None
       | Some mc \<Rightarrow> if \<not> (IsZero (co_LastSeen mc) \<or> Sub t1 (co_LastSeen mc) > modelCostTTL)
           then Some \<lparr>sc_CostPer1k = co_CostPer1k mc, sc_LastSeen = co_LastSeen mc,
             sc_Samples = co_Samples mc\<rparr> else None)"
    unfolding save_costs_def using assms(1) by (intro get_map_filter) (simp add: wf_entry_def)
  ultimately show ?thesis
    using Sub_mono [OF assms(2)]
    by (auto simp: reload_def restore_account_def save_account_def Let_def cost_stale_def
        split: option.split prod.split dest: order_less_le_trans)
qed

lemma reload_fields:
  "e_credits (reload t1 t2 u e) = e_credits e"
  "e_disabled (reload t1 t2 u e) = e_disabled e"
  "e_manualDisabled (reload t1 t2 u e) = e_manualDisabled e"
  "e_manualReason (reload t1 t2 u e) = e_manualReason e"
  "e_until (reload t1 t2 u e) = e_until e"
  "e_successCount (reload t1 t2 u e) = e_successCount e"
  "e_lastErr (reload t1 t2 u e) = e_lastErr e"
  "e_lastSuccess (reload t1 t2 u e) = e_lastSuccess e"
  "e_softStreak (reload t1 t2 u e) = e_softStreak e"
  "e_sessionDeadFails (reload t1 t2 u e) = e_sessionDeadFails e"
  "e_consecutiveFails (reload t1 t2 u e) = e_consecutiveFails e"
  "e_creditsExpiring (reload t1 t2 u e) = clamp_expiring (e_credits e) (e_creditsExpiring e)"
  by (simp_all add: reload_def restore_account_def save_account_def Let_def split: prod.split)

lemma reload_errTotal: "0 \<le> e_errTotal e \<Longrightarrow> e_errTotal (reload t1 t2 u e) = e_errTotal e"
  by (simp add: reload_def restore_account_def save_account_def Let_def split: prod.split)

lemma reload_deadlines:
  assumes "t1 \<le> t2"
  shows "e_breakerUntil (reload t1 t2 u e) =
      (if e_breakerUntil e \<noteq> 0 \<and> t2 < e_breakerUntil e then e_breakerUntil e else 0)"
    and "e_degradeUntil (reload t1 t2 u e) =
      (if e_degradeUntil e \<noteq> 0 \<and> t2 < e_degradeUntil e then e_degradeUntil e else 0)"
    and "e_retryCount (reload t1 t2 u e) =
      (if e_breakerUntil e \<noteq> 0 \<and> t2 < e_breakerUntil e then e_retryCount e else 0)"
  using assms
  by (auto simp: reload_def restore_account_def save_account_def Let_def IsZero_def
      split: prod.split)

lemma reload_running:
  assumes "t1 \<le> t2" and "t2 \<le> t"
  shows "running (reload t1 t2 u e) t = running e t"
  using assms(2) by (auto simp: running_def reload_fields reload_deadlines [OF assms(1)])

lemma reload_coolKind:
  assumes "t1 \<le> t2" and "e_until e \<noteq> 0" and "t2 < e_until e"
  shows "e_coolKind (reload t1 t2 u e) = e_coolKind e \<and> e_reason (reload t1 t2 u e) = e_reason e"
  using assms by (simp add: reload_def restore_account_def save_account_def Let_def
      cooledReasonLocked_def IsZero_def)

lemma reload_modelCooled:
  assumes "wf_entry e" and "t1 \<le> t2" and "t2 \<le> t"
  shows "modelCooled (reload t1 t2 u e) t m = modelCooled e t m"
  using assms(3)
  by (auto simp: modelCooled_def reload_cooldowns [OF assms(1,2)] cooldown_over_def IsZero_def
      split: option.splits)

section \<open>Aligning\<close>

lemma new_entry_upd: "(new_entry b)\<lparr>e_a := a\<rparr> = new_entry a"
  by (simp add: new_entry_def)

text \<open>The credentials an account ends up with: the last ones the scan lists for it.\<close>

definition scanned :: "auth list \<Rightarrow> uid \<Rightarrow> auth option" where
  "scanned auths u = find (\<lambda>a. a_UID a = u) (rev auths)"

lemma scanned_None_iff: "scanned auths u = None \<longleftrightarrow> u \<notin> a_UID ` set auths"
  by (auto simp: scanned_def find_None_iff)

lemma get_sync_upserts:
  "gm_get (p_byUID (sync_upserts auths p)) u = (case scanned auths u of
      None \<Rightarrow> gm_get (p_byUID p) u
    | Some a \<Rightarrow> Some (case gm_get (p_byUID p) u of Some e \<Rightarrow> e\<lparr>e_a := a\<rparr> | None \<Rightarrow> new_entry a))"
proof (induction auths rule: rev_induct)
  case (snoc b auths)
  have "gm_get (p_byUID (sync_upserts (auths @ [b]) p)) u =
      gm_get (p_byUID (upsertLocked b (sync_upserts auths p))) u"
    by (simp add: sync_upserts_def)
  with snoc show ?case
    by (auto simp: upsert_get scanned_def new_entry_upd split: option.splits)
qed (simp add: sync_upserts_def scanned_def)

lemma sync_upserts_fp: "p_stateFp (sync_upserts auths p) = p_stateFp p"
proof -
  have "p_stateFp (upsertLocked a p) = p_stateFp p" for a p
    by (simp add: upsertLocked_def split: option.split)
  then show ?thesis unfolding sync_upserts_def by (induction auths arbitrary: p) simp_all
qed

lemma pool_inv_sync_upserts: "pool_inv p \<Longrightarrow> pool_inv (sync_upserts auths p)"
  unfolding sync_upserts_def
  by (induction auths arbitrary: p) (simp_all add: pool_inv_upsert)

lemma get_filter_keys:
  "gm_get (filter (\<lambda>(k, v). k \<in> S) m) u = (if u \<in> S then gm_get m u else None)"
  by (induction m) auto

lemma pool_inv_filter_keys:
  assumes "pool_inv p"
  shows "pool_inv (p\<lparr>p_byUID := filter (\<lambda>(u, e). u \<in> S) (p_byUID p)\<rparr>)"
proof (rule pool_inv_map [OF assms])
  show "gm_wf (filter (\<lambda>(u, e). u \<in> S) (p_byUID p))"
    using pool_inv_wf [OF assms] by (simp add: gm_wf_def distinct_map_filter)
qed (use pool_inv_entry [OF assms] in
    \<open>auto simp: get_filter_keys entry_ok_def split: if_splits\<close>)

lemma saveLocked_byUID [simp]:
  "p_byUID (fst (saveLocked S env p w)) = p_byUID p"
  "p_pickSeq (fst (saveLocked S env p w)) = p_pickSeq p"
  by (simp_all add: saveLocked_def Let_def notePersistFail_def)

lemma pool_inv_saveLocked [simp]: "pool_inv (fst (saveLocked S env p w)) = pool_inv p"
  by (rule pool_inv_cong) simp_all

lemma pool_inv_Flush: "pool_inv p \<Longrightarrow> pool_inv (fst (Flush S env p w))"
  using pool_inv_cong [of "p\<lparr>p_dirty := False\<rparr>" p] by (simp add: Flush_def)

lemma pool_inv_SyncToDir: "pool_inv p \<Longrightarrow> pool_inv (fst (SyncToDir S env auths p w))"
  by (simp add: SyncToDir_def Let_def pool_inv_filter_keys pool_inv_sync_upserts)

lemma pool_inv_reload: "pool_inv p \<Longrightarrow> pool_inv (fst (reloadAuthDir S env auths p w))"
  by (simp add: reloadAuthDir_def pool_inv_SyncToDir split: option.split)

lemma wf_overview:
  assumes "pool_inv p"
  shows "wf_file (stateOverviewLocked now p)"
proof -
  have "gm_wf (map (\<lambda>(u, e). (u, save_account now e)) (p_byUID p))"
    using gm_wf_map_filter [OF pool_inv_wf [OF assms], of "save_account now" "\<lambda>x. True"]
    by simp
  then show ?thesis
    using pool_inv_wf_entry [OF assms]
    by (auto simp: wf_file_def stateOverviewLocked_def gm_get_map save_account_wf)
qed

lemma get_overview:
  "gm_get (sf_Accounts (stateOverviewLocked now p)) u =
     map_option (save_account now) (gm_get (p_byUID p) u)"
  by (simp add: stateOverviewLocked_def gm_get_map)

text \<open>A saved state, loaded into any pool that does not know the accounts yet.\<close>

lemma get_reload_pool:
  assumes "pool_inv p" and "p_byUID q = []"
  shows "gm_get (p_byUID (applyAccountsLocked t2 (sf_Accounts (stateOverviewLocked t1 p)) q)) u =
    map_option (reload t1 t2 u) (gm_get (p_byUID p) u)"
proof -
  have "gm_wf (sf_Accounts (stateOverviewLocked t1 p))"
    using wf_overview [OF assms(1)] by (simp add: wf_file_def)
  with assms(2) show ?thesis
    by (auto simp: get_applyAccounts get_overview reload_def split: option.split)
qed

end
