(* ===== verification/Persist_Props.thy ===== *)
theory Persist_Props
  imports Persist Pick_Props
begin

text \<open>
  The properties of the persisted state: what a restart preserves, what a failed save does, which
  copy a start adopts, and what aligning the pool with the credential directory keeps.
\<close>

definition save_ok :: "save_env \<Rightarrow> bool" where
  "save_ok env = (se_marshalOK env \<and> se_writeOK env \<and> se_renameOK env)"

text \<open>Measured prices are never negative and the error total is a count.\<close>

definition ledger_ok :: "entry \<Rightarrow> bool" where
  "ledger_ok e = (0 \<le> e_errTotal e \<and>
     (\<forall>m mc. gm_get (e_modelCost e) m = Some mc \<longrightarrow> 0 \<le> co_CostPer1k mc))"

lemma ledger_ok_new: "ledger_ok (new_entry a)"
  by (simp add: ledger_ok_def new_entry_def)

lemma Flush_ok:
  assumes "p_dirty p" and "p_stateFp p \<noteq> []" and "save_ok env"
  shows "w_file (snd (Flush SaveState env p w)) = Holds (stateOverviewLocked (se_now env) p)"
  using assms by (simp add: Flush_def saveLocked_def save_ok_def Let_def stateOverviewLocked_def)

lemma demo_saved:
  "p_dirty demo_pool = False" "p_stateFp demo_pool = []"
  by code_simp+

section \<open>Restart\<close>








definition saved_pool :: pool where
  "saved_pool = CooldownSoftForModel (9 * Hour) ''a'' Minute (10 * Hour) ''m'' ''6004''
     (demo_pool\<lparr>p_stateFp := ''state.json''\<rparr>)"

definition good_save :: "gtime \<Rightarrow> save_env" where
  "good_save t = \<lparr>se_now = t, se_marshalOK = True, se_writeOK = True, se_renameOK = True,
     se_mtime = t, se_snapOK = True, se_snapNow = t + 1\<rparr>"

text \<open>A mirror that keeps the last snapshot it was given.\<close>

definition cell_save :: "snapshot \<Rightarrow> snapshot option \<Rightarrow> snapshot option" where
  "cell_save s st = Some s"

definition cell_load :: "snapshot option \<Rightarrow> snapshot option option" where
  "cell_load st = map_option Some st"

definition empty_world :: "snapshot option world" where
  "empty_world = \<lparr>w_file = Absent, w_mtime = 0, w_store = None\<rparr>"

lemma saved_pool_inv: "pool_inv saved_pool"
proof -
  have "pool_inv (demo_pool\<lparr>p_stateFp := ''state.json''\<rparr>)"
    using pool_inv_cong [of "demo_pool\<lparr>p_stateFp := ''state.json''\<rparr>" demo_pool] demo_pool_inv
    by simp
  then show ?thesis
    unfolding saved_pool_def CooldownSoftForModel_def by (rule soft_model.touch_inv)
qed

lemma saved_pool_flags: "p_dirty saved_pool" "p_stateFp saved_pool = ''state.json''"
  by code_simp+



section \<open>Saving\<close>

text \<open>
  A save that fails leaves the file and the mirror exactly as they were and counts the
  failure; but the dirty flag is already cleared, so no later \<open>Flush\<close> and no tick of the flusher
  retries it until another operation dirties the pool: the unsaved changes stay in memory only.
\<close>

theorem failed_save_not_retried:
  assumes "p_dirty p" and "p_stateFp p \<noteq> []" and "\<not> save_ok env"
  shows "snd (Flush SaveState env p w) = w \<and>
    p_persistFails (fst (Flush SaveState env p w)) = p_persistFails p + 1 \<and>
    p_byUID (fst (Flush SaveState env p w)) = p_byUID p \<and>
    Flush SaveState env' (fst (Flush SaveState env p w)) w' =
      (fst (Flush SaveState env p w), w')"
  using assms by (auto simp: Flush_def saveLocked_def save_ok_def Let_def notePersistFail_def)

theorem failed_save_not_retried_witness:
  "snd (Flush cell_save (good_save 5) (fst (Flush cell_save ((good_save 3)\<lparr>se_renameOK := False\<rparr>)
     saved_pool empty_world)) empty_world) = empty_world"
proof -
  have "\<not> save_ok ((good_save 3)\<lparr>se_renameOK := False\<rparr>)" by code_simp
  moreover have "p_stateFp saved_pool \<noteq> []" by (simp add: saved_pool_flags)
  ultimately show ?thesis
    using failed_save_not_retried [of saved_pool "(good_save 3)\<lparr>se_renameOK := False\<rparr>" cell_save
        empty_world "good_save 5" empty_world] saved_pool_flags(1)
    by simp
qed

text \<open>
  The local file and the mirror agree. With a mirror that returns the last snapshot it was
  given, a start after a successful save adopts the mirror (it is never older than the file) and
  ends with exactly the accounts that the file alone gives; and if the file is lost altogether, the
  mirror alone still gives them.
\<close>

theorem mirror_agrees:
  assumes "pool_inv p" and "p_dirty p" and "p_stateFp p \<noteq> []" and "save_ok env"
    and "p_store p" and "se_snapOK env" and "se_mtime env \<le> se_snapNow env" and "se_snapNow env \<noteq> 0"
    and "\<And>snap s. LoadState (SaveState snap s) = Some (Some snap)"
    and "w' = snd (Flush SaveState env p w)" and "q = New t2 (p_stateFp p) w'"
    and "lost = w'\<lparr>w_file := Absent\<rparr>"
  shows "gm_get (p_byUID (RestoreFromSnapshot LoadState t2 w' (q\<lparr>p_store := True\<rparr>))) u =
      gm_get (p_byUID q) u \<and>
    gm_get (p_byUID (RestoreFromSnapshot LoadState t2 lost
      ((New t2 (p_stateFp p) lost)\<lparr>p_store := True\<rparr>))) u = gm_get (p_byUID q) u"
proof -
  let ?sf = "stateOverviewLocked (se_now env) p"
  have held: "w_file w' = Holds ?sf" unfolding assms(10) by (rule Flush_ok [OF assms(2-4)])
  have store: "LoadState (w_store w') =
      Some (Some \<lparr>sn_stateFile = ?sf, sn_SavedAt = se_snapNow env\<rparr>)" "w_mtime w' = se_mtime env"
    using assms(2-6,9) unfolding assms(10)
    by (simp_all add: Flush_def saveLocked_def save_ok_def Let_def stateOverviewLocked_def)
  have appl: "gm_get (p_byUID (applyAccountsLocked t2 (sf_Accounts ?sf) r)) u =
      map_option (reload (se_now env) t2 u) (gm_get (p_byUID p) u)" if "p_byUID r = []" for r
    using that by (rule get_reload_pool [OF assms(1)])
  have fp: "p_stateFp q = p_stateFp p" "p_stateFp (New t2 (p_stateFp p) lost) = p_stateFp p"
    by (simp_all add: assms(11,12) New_def New_pool_def load_def Let_def applyAccountsLocked_def
        split: file_content.split)
  have q: "gm_get (p_byUID q) u = map_option (reload (se_now env) t2 u) (gm_get (p_byUID p) u)"
    unfolding assms(11) using assms(3) held
    by (simp add: New_def Let_def load_def appl New_pool_def)
  show ?thesis
    using q fp assms(3,7,8) store held
    by (simp add: RestoreFromSnapshot_def IsZero_def adoptSnapshot_def applySnapshotLocked_def
        appl assms(12))
qed

theorem mirror_agrees_witness:
  "let p = saved_pool\<lparr>p_store := True\<rparr>;
       w' = snd (Flush cell_save (good_save (9 * Hour)) p empty_world) in
   gm_get (p_byUID (RestoreFromSnapshot cell_load (10 * Hour) (w'\<lparr>w_file := Absent\<rparr>)
     ((New (10 * Hour) ''state.json'' (w'\<lparr>w_file := Absent\<rparr>))\<lparr>p_store := True\<rparr>))) ''a'' =
   gm_get (p_byUID (New (10 * Hour) ''state.json'' w')) ''a''"
proof -
  let ?p = "saved_pool\<lparr>p_store := True\<rparr>"
  have "pool_inv ?p" using saved_pool_inv pool_inv_cong [of ?p saved_pool] by simp
  moreover have "p_dirty ?p" "p_stateFp ?p = ''state.json''" "p_store ?p"
    by (simp_all add: saved_pool_flags)
  moreover have "save_ok (good_save (9 * Hour))" "se_snapOK (good_save (9 * Hour))"
    "se_mtime (good_save (9 * Hour)) \<le> se_snapNow (good_save (9 * Hour))"
    "se_snapNow (good_save (9 * Hour)) \<noteq> 0" by code_simp+
  moreover have "cell_load (cell_save snap s) = Some (Some snap)" for snap s
    by (simp add: cell_load_def cell_save_def)
  ultimately show ?thesis
    using mirror_agrees [of ?p "good_save (9 * Hour)" cell_load cell_save
        "snd (Flush cell_save (good_save (9 * Hour)) ?p empty_world)" empty_world _ "10 * Hour" _ "''a''"]
    by (simp add: Let_def)
qed

section \<open>The credential directory\<close>

text \<open>
  Aligning the pool with a scan of the directory. Afterwards the pool has exactly the scanned
  accounts; an account that was there keeps its whole state and only changes credentials, a new one
  starts from the zero state, and the invariant holds; and if an account was dropped and the save
  succeeds, the file no longer knows it, so that no later start brings it back.
\<close>

theorem SyncToDir_aligns:
  assumes "pool_inv p" and "p_stateFp p \<noteq> []" and "save_ok env"
    and "SyncToDir SaveState env auths p w = (p', w')"
  shows "pool_inv p' \<and>
    gm_get (p_byUID p') u = (case scanned auths u of None \<Rightarrow> None
      | Some a \<Rightarrow> Some (case gm_get (p_byUID p) u of Some e \<Rightarrow> e\<lparr>e_a := a\<rparr> | None \<Rightarrow> new_entry a)) \<and>
    (gm_get (p_byUID p) u \<noteq> None \<and> u \<notin> a_UID ` set auths \<longrightarrow>
      (\<exists>sf. w_file w' = Holds sf \<and> gm_get (sf_Accounts sf) u = None))"
proof -
  let ?S = "set (map a_UID auths)"
  let ?p1 = "sync_upserts auths p"
  let ?p2 = "?p1\<lparr>p_byUID := filter (\<lambda>(u, e). u \<in> ?S) (p_byUID ?p1)\<rparr>"
  have "pool_inv p'" using pool_inv_SyncToDir [OF assms(1), of SaveState env auths w] assms(4) by simp
  have acc: "p_byUID p' = p_byUID ?p2"
    using arg_cong [OF assms(4), of "\<lambda>r. p_byUID (fst r)"] by (simp add: SyncToDir_def Let_def split: if_splits)
  have get: "gm_get (p_byUID p') u = (if u \<in> ?S then gm_get (p_byUID ?p1) u else None)"
    unfolding acc by (simp add: get_filter_keys)
  moreover have "\<exists>sf. w_file w' = Holds sf \<and> gm_get (sf_Accounts sf) u = None"
    if "gm_get (p_byUID p) u \<noteq> None" "u \<notin> a_UID ` set auths"
  proof -
    have "scanned auths u = None" using that(2) by (simp add: scanned_None_iff)
    with that(1) obtain e where "gm_get (p_byUID ?p1) u = Some e"
      by (auto simp: get_sync_upserts)
    then have "(u, e) \<in> set (p_byUID ?p1)" by (rule map_of_SomeD)
    then have "list_ex (\<lambda>(u, e). u \<notin> ?S) (p_byUID ?p1)"
      using that(2) by (auto simp: list_ex_iff)
    then have "w' = snd (saveLocked SaveState env ?p2 w)"
      using assms(4) by (simp add: SyncToDir_def Let_def)
    then have "w_file w' = Holds (stateOverviewLocked (se_now env) ?p2)"
      using assms(2,3) sync_upserts_fp [of auths p] by (simp add: saveLocked_def save_ok_def Let_def)
    with that(2) show ?thesis
      by (auto simp: get_overview get_filter_keys)
  qed
  ultimately show ?thesis
    using \<open>pool_inv p'\<close> scanned_None_iff [of auths u]
    by (auto simp: get_sync_upserts split: option.split)
qed

theorem SyncToDir_aligns_witness:
  "let (p', w') = SyncToDir cell_save (good_save (9 * Hour)) [named_auth ''b'', named_auth ''c'']
     saved_pool empty_world in
   gm_get (p_byUID p') ''a'' = None \<and> gm_get (p_byUID p') ''c'' = Some (new_entry (named_auth ''c''))"
proof -
  obtain p' w' where r: "SyncToDir cell_save (good_save (9 * Hour))
      [named_auth ''b'', named_auth ''c''] saved_pool empty_world = (p', w')" by (meson surj_pair)
  have ok: "save_ok (good_save (9 * Hour))" "p_stateFp saved_pool \<noteq> []" by code_simp+
  have sc: "scanned [named_auth ''b'', named_auth ''c''] ''a'' = None"
    "scanned [named_auth ''b'', named_auth ''c''] ''c'' = Some (named_auth ''c'')"
    "gm_get (p_byUID saved_pool) ''c'' = None" by code_simp+
  note res = SyncToDir_aligns [OF saved_pool_inv ok(2,1) r]
  from res [of "''a''"] res [of "''c''"] sc r show ?thesis by simp
qed

end
