(* ===== verification/Account_Props.thy ===== *)
theory Account_Props
  imports Pick_Props
begin

text \<open>
  The properties of the account transitions and of the pool's queries: the counters of the status
  page, the three-strikes rule for dead sessions, the soft back-off, the circuit breaker, the
  negative cache for models, the hard cooldown until 04:00 and the balance after a measured spend.
\<close>

section \<open>Counting\<close>

text \<open>
  The status counters add up, whatever order the map is visited in: every account of the
  realm is healthy, cooling or disabled, exactly one of them; the accounts with all leases taken
  are among the healthy ones; and the list of available accounts has as many entries as there are
  healthy accounts with a free lease.
\<close>

theorem counts_add_up:
  assumes "pool_inv p" and "enumerates it (p_byUID p)" and "enumerates it' (p_byUID p)"
    and "c = CountsDetailedForRealm v it now realm p"
  shows "n_total c = n_healthy c + n_cooling c + n_disabled c \<and> n_inFlightFull c \<le> n_healthy c \<and>
    length (AvailableUIDsForRealm v it' now realm p) = n_healthy c - n_inFlightFull c \<and>
    c = CountsDetailedForRealm v it' now realm p"
proof -
  let ?es = "map snd (p_byUID p)"
  note cf = filter_range_entries [OF pool_inv_wf [OF assms(1)] assms(2)]
  note cf' = filter_range_entries [OF pool_inv_wf [OF assms(1)] assms(3)]
  have fields: "n_total c = length (filter (realm_matches v realm) ?es)"
    "n_disabled c = length (filter (\<lambda>e. realm_matches v realm e \<and>
       (e_disabled e \<or> e_manualDisabled e)) ?es)"
    "n_cooling c = length (filter (\<lambda>e. realm_matches v realm e \<and>
       \<not> (e_disabled e \<or> e_manualDisabled e) \<and> \<not> healthy e now) ?es)"
    "n_healthy c = length (filter (\<lambda>e. realm_matches v realm e \<and> healthy e now) ?es)"
    "n_inFlightFull c = length (filter (\<lambda>e. realm_matches v realm e \<and> healthy e now \<and>
       inFlightFull v p e) ?es)"
    unfolding assms(4) CountsDetailedForRealm_def countsDetailedForRealm_def counts_fields cf
    by simp_all
  have "length (filter (realm_matches v realm) ?es) =
      length (filter (\<lambda>e. realm_matches v realm e \<and> healthy e now) ?es) +
      length (filter (\<lambda>e. realm_matches v realm e \<and> \<not> healthy e now) ?es)"
    by (rule length_filter_split)
  also have "length (filter (\<lambda>e. realm_matches v realm e \<and> \<not> healthy e now) ?es) =
      length (filter (\<lambda>e. (realm_matches v realm e \<and> \<not> healthy e now) \<and>
        (e_disabled e \<or> e_manualDisabled e)) ?es) +
      length (filter (\<lambda>e. (realm_matches v realm e \<and> \<not> healthy e now) \<and>
        \<not> (e_disabled e \<or> e_manualDisabled e)) ?es)"
    by (rule length_filter_split)
  also have "(\<lambda>e. (realm_matches v realm e \<and> \<not> healthy e now) \<and> (e_disabled e \<or> e_manualDisabled e)) =
      (\<lambda>e. realm_matches v realm e \<and> (e_disabled e \<or> e_manualDisabled e))"
    by (auto simp: healthy_iff)
  finally have total: "n_total c = n_healthy c + n_cooling c + n_disabled c"
    unfolding fields by (simp add: conj_ac)
  have "length (filter (\<lambda>e. realm_matches v realm e \<and> healthy e now) ?es) =
      n_inFlightFull c + length (AvailableUIDsForRealm v it' now realm p)"
    unfolding fields AvailableUIDsForRealm_def length_available cf'
    using length_filter_split [of "\<lambda>e. realm_matches v realm e \<and> healthy e now" ?es
        "\<lambda>e. inFlightFull v p e"] by (simp add: conj_ac)
  moreover have "c = CountsDetailedForRealm v it' now realm p"
    unfolding assms(4) CountsDetailedForRealm_def countsDetailedForRealm_def
    by (rule counts.equality) (simp_all only: counts_fields cf cf', simp)
  ultimately show ?thesis using total fields(4) by simp
qed

theorem counts_add_up_witness:
  "let c = CountsDetailedForRealm demo_vars [''b'', ''a''] (10 * Hour) [] demo_pool in
   n_total c = n_healthy c + n_cooling c + n_disabled c \<and>
   length (AvailableUIDsForRealm demo_vars [''a'', ''b''] (10 * Hour) [] demo_pool) = n_healthy c"
proof -
  have "enumerates [''a'', ''b''] (p_byUID demo_pool)" "enumerates [''b'', ''a''] (p_byUID demo_pool)"
    by (auto simp: enumerates_def demo_keys)
  moreover have "n_inFlightFull (CountsDetailedForRealm demo_vars [''b'', ''a''] (10 * Hour) []
      demo_pool) = 0" by code_simp
  ultimately show ?thesis
    using counts_add_up [OF demo_pool_inv _ _ refl, of "[''b'', ''a'']" "[''a'', ''b'']" demo_vars
        "10 * Hour" "[]"]
    unfolding Let_def by linarith
qed

section \<open>Dead sessions\<close>

text \<open>
  The outcomes of an account's token checks, in order: \<open>True\<close> a 12153, \<open>False\<close> a success. A success
  clears the count (\<open>NoteSuccess\<close>).
\<close>

definition note_outcome :: "gtime \<Rightarrow> bool \<Rightarrow> entry \<Rightarrow> entry" where
  "note_outcome now dead e = (if dead then NoteSessionDead_e e else NoteSuccess_e now e)"

definition trailing :: "bool list \<Rightarrow> nat" where
  "trailing os = length (takeWhile (\<lambda>x. x) (rev os))"

lemma trailing_snoc: "trailing (os @ [x]) = (if x then Suc (trailing os) else 0)"
  by (simp add: trailing_def)

lemma trailing_take: "\<exists>xs. os = xs @ replicate (trailing os) True"
proof (induction os rule: rev_induct)
  case (snoc x os)
  then obtain xs where os: "os = xs @ replicate (trailing os) True" by blast
  show ?case
  proof (cases x)
    case True
    have "os @ [x] = xs @ replicate (Suc (trailing os)) True"
      by (subst os) (simp add: replicate_append_same True)
    with True show ?thesis unfolding trailing_snoc by auto
  qed (auto simp: trailing_snoc)
qed (simp add: trailing_def)

definition three_dead :: "bool list \<Rightarrow> bool" where
  "three_dead os = (\<exists>xs ys. os = xs @ [True, True, True] @ ys)"

lemma three_dead_snoc: "three_dead (os @ [x]) \<longleftrightarrow> three_dead os \<or> (x \<and> 2 \<le> trailing os)"
proof
  assume "three_dead (os @ [x])"
  then obtain xs ys where eq: "os @ [x] = xs @ [True, True, True] @ ys"
    by (auto simp: three_dead_def)
  show "three_dead os \<or> (x \<and> 2 \<le> trailing os)"
  proof (cases ys rule: rev_cases)
    case Nil
    with eq have "os @ [x] = (xs @ [True, True]) @ [True]" by simp
    then have "os = xs @ [True, True]" "x" by (simp_all only: append1_eq_conv simp_thms)
    then show ?thesis by (simp add: trailing_def)
  next
    case (snoc zs y)
    with eq have "os = xs @ [True, True, True] @ zs"
      by (metis append.assoc append_same_eq append1_eq_conv)
    then show ?thesis by (auto simp: three_dead_def)
  qed
next
  assume "three_dead os \<or> (x \<and> 2 \<le> trailing os)"
  then show "three_dead (os @ [x])"
  proof
    assume "three_dead os"
    then obtain xs ys where "os = xs @ [True, True, True] @ ys" by (auto simp: three_dead_def)
    then have "os @ [x] = xs @ [True, True, True] @ (ys @ [x])" by simp
    then show ?thesis unfolding three_dead_def by blast
  next
    assume x: "x \<and> 2 \<le> trailing os"
    obtain xs where os: "os = xs @ replicate (trailing os) True" using trailing_take by blast
    obtain k where k: "trailing os = k + 2" using x by (metis le_iff_add add.commute)
    have "replicate (trailing os) True = replicate k True @ replicate 2 True"
      unfolding k by (rule replicate_add)
    then have "os @ [x] = (xs @ replicate k True) @ [True, True, True] @ []"
      using x by (subst os) (simp add: numeral_2_eq_2)
    then show ?thesis unfolding three_dead_def by blast
  qed
qed

text \<open>
  Three strikes and only three in a row. Starting from a clean account, a sequence of 12153
  answers and successes leaves the account disabled exactly if three 12153 answers came in a row;
  no number of scattered ones disables it.
\<close>

theorem three_strikes:
  assumes "\<not> e_disabled e" and "e_sessionDeadFails e = 0"
  shows "e_disabled (foldl (\<lambda>e x. note_outcome now x e) e os) \<longleftrightarrow> three_dead os"
proof -
  let ?run = "foldl (\<lambda>e x. note_outcome now x e) e"
  have "(e_disabled (?run os) \<longleftrightarrow> three_dead os) \<and>
      (\<not> three_dead os \<longrightarrow> e_sessionDeadFails (?run os) = int (trailing os) \<and> trailing os < 3)"
  proof (induction os rule: rev_induct)
    case Nil
    then show ?case using assms by (simp add: three_dead_def trailing_def)
  next
    case (snoc x os)
    show ?case
    proof (cases x)
      case True
      with snoc show ?thesis
        by (auto simp: note_outcome_def NoteSessionDead_e_def Let_def sessionDeadThreshold_def
            disableLocked_def clearCoolingLocked_def three_dead_snoc trailing_snoc)
    next
      case False
      with snoc show ?thesis
        by (auto simp: note_outcome_def NoteSuccess_e_def three_dead_snoc trailing_snoc)
    qed
  qed
  then show ?thesis by blast
qed

theorem three_strikes_witness:
  "\<not> e_disabled (foldl (\<lambda>e x. note_outcome 0 x e) (new_entry (named_auth ''a''))
     [True, True, False, True, True]) \<and>
   e_disabled (foldl (\<lambda>e x. note_outcome 0 x e) (new_entry (named_auth ''a''))
     [False, True, True, True, False])"
proof -
  have clean: "\<not> e_disabled (new_entry (named_auth ''a''))"
    "e_sessionDeadFails (new_entry (named_auth ''a'')) = 0" by (simp_all add: new_entry_def)
  have yes: "three_dead [False, True, True, True, False]"
    unfolding three_dead_def by (intro exI [of _ "[False]"]) simp
  have no: "\<not> three_dead [True, True, False, True, True]"
    using three_dead_snoc [of "[True, True, False, True]" True]
      three_dead_snoc [of "[True, True, False]" True] three_dead_snoc [of "[True, True]" False]
      three_dead_snoc [of "[True]" True] three_dead_snoc [of "[]" True]
    by (simp add: trailing_def three_dead_def)
  show ?thesis using yes no by (simp only: three_strikes [OF clean] simp_thms)
qed

section \<open>Soft limits\<close>

text \<open>
  The soft back-off. A 429 without a reset time that arrives while a soft cooldown is
  running changes neither its end nor the streak, however often it comes; one that arrives when
  none is running starts one that lasts the base the first time, and the base doubled for every
  earlier one (at most sixteen doublings) but at most the configured maximum after that.
\<close>

theorem soft_backoff_law:
  assumes "0 < base" and "base \<le> 24 * Hour" and "0 \<le> e_softStreak e"
    and "e' = CooldownSoftRate_e p now base 0 reason e"
  shows "if e_coolKind e = CoolSoft \<and> now < e_until e
    then e_until e' = e_until e \<and> e_softStreak e' = e_softStreak e
    else e_softStreak e' = e_softStreak e + 1 \<and>
      e_until e' = now + (if e_softStreak e = 0 then base
        else min (base * 2 ^ nat (min (e_softStreak e) softStreakShiftMax)) (softRateMaxOr p))"
proof (cases "e_coolKind e = CoolSoft \<and> now < e_until e")
  case False
  have "softDurationLocked p base (e_softStreak e + 1) = (if e_softStreak e = 0 then base
      else min (base * 2 ^ nat (min (e_softStreak e) softStreakShiftMax)) (softRateMaxOr p))"
    using assms(1-3) softDuration_exact [of base "e_softStreak e + 1" p]
    by (simp add: softDuration_first)
  with False show ?thesis
    by (auto simp: assms(4) CooldownSoftRate_e_def soft_backoff_def IsZero_def)
qed (simp add: assms(4) CooldownSoftRate_e_def soft_backoff_def IsZero_def)

theorem soft_backoff_law_witness:
  "e_until (CooldownSoftRate_e demo_pool (5 * Hour) Minute 0 ''429''
     ((new_entry (named_auth ''a''))\<lparr>e_softStreak := 3\<rparr>)) = 5 * Hour + 8 * Minute"
proof -
  let ?e = "(new_entry (named_auth ''a''))\<lparr>e_softStreak := 3\<rparr>"
  have "e_softStreak ?e = 3" "\<not> (e_coolKind ?e = CoolSoft)"
    by (simp_all add: new_entry_def CoolSoft_def)
  moreover have "min (Minute * 2 ^ nat (min 3 softStreakShiftMax)) (softRateMaxOr demo_pool) =
      8 * Minute" by code_simp
  moreover have "0 < Minute" "Minute \<le> 24 * Hour" by (simp_all add: time_units)
  ultimately show ?thesis
    using soft_backoff_law [of Minute ?e _ demo_pool "5 * Hour" "''429''", OF _ _ _ refl] by simp
qed

section \<open>The circuit breaker\<close>

lemma NoteError_count:
  assumes "e_fails e + int n < p_breakerThreshold p"
  shows "((\<lambda>e. NoteError_e p t t e) ^^ n) e =
    e\<lparr>e_errTotal := e_errTotal e + int n, e_lastErr := (if n = 0 then e_lastErr e else t),
      e_fails := e_fails e + int n\<rparr>"
  using assms
proof (induction n)
  case (Suc n)
  then show ?case
    by (simp add: NoteError_e_def recordBreakerFailureLocked_def Let_def)
qed simp

text \<open>
  The breaker trips at the threshold and backs off exponentially. From a closed breaker with
  a cleared failure count, fewer failures than the threshold only count; the failure that reaches
  it opens the breaker for the base cooldown doubled once per earlier trip, never more than the
  maximum once a doubling happened, and starts the count afresh; a success closes it and forgets
  the trips.
\<close>

theorem breaker_law:
  assumes "0 < p_breakerThreshold p" and "e_fails e = 0" and "0 \<le> e_retryCount e"
    and "0 < p_breakerCooldown p" and "p_breakerCooldown p < 2 ^ 62" and "p_breakerCooldownMax p \<le> 2 ^ 62"
    and "int k = p_breakerThreshold p" and "n < k"
    and "en = ((\<lambda>e. NoteError_e p now now e) ^^ n) e" and "ek = ((\<lambda>e. NoteError_e p now now e) ^^ k) e"
  shows "e_breakerUntil en = e_breakerUntil e \<and> e_fails en = int n \<and>
    e_breakerUntil ek = now + (if e_retryCount e = 0 then p_breakerCooldown p
      else min (p_breakerCooldown p * 2 ^ nat (e_retryCount e)) (p_breakerCooldownMax p)) \<and>
    e_fails ek = 0 \<and> e_retryCount ek = e_retryCount e + 1 \<and>
    e_breakerUntil (NoteSuccess_e now ek) = 0 \<and> e_retryCount (NoteSuccess_e now ek) = 0"
proof -
  obtain j where k: "k = Suc j" using assms(8) by (cases k) auto
  have loop: "breaker_loop (nat (e_retryCount e)) (p_breakerCooldownMax p) (p_breakerCooldown p) =
      (if e_retryCount e = 0 then p_breakerCooldown p
       else min (p_breakerCooldown p * 2 ^ nat (e_retryCount e)) (p_breakerCooldownMax p))"
    using breaker_loop_eq [OF assms(4-6)] assms(3) by simp
  have "ek = NoteError_e p now now (((\<lambda>e. NoteError_e p now now e) ^^ j) e)"
    by (simp add: assms(10) k)
  then have "ek = NoteError_e p now now (e\<lparr>e_errTotal := e_errTotal e + int j,
      e_lastErr := (if j = 0 then e_lastErr e else now), e_fails := int j\<rparr>)"
    using NoteError_count [of e j p now] assms(2,7) k by simp
  moreover have "en = e\<lparr>e_errTotal := e_errTotal e + int n,
      e_lastErr := (if n = 0 then e_lastErr e else now), e_fails := int n\<rparr>"
    unfolding assms(9) using NoteError_count [of e n p now] assms(2,7,8) by simp
  ultimately show ?thesis
    using assms(7) k
    by (simp add: NoteError_e_def recordBreakerFailureLocked_def Let_def loop NoteSuccess_e_def)
qed

theorem breaker_law_witness:
  "e_breakerUntil (((\<lambda>e. NoteError_e demo_pool (9 * Hour) (9 * Hour) e) ^^ 3)
     ((new_entry (named_auth ''a''))\<lparr>e_retryCount := 2\<rparr>)) = 11 * Hour"
proof -
  let ?e = "(new_entry (named_auth ''a''))\<lparr>e_retryCount := 2\<rparr>"
  have "p_breakerThreshold demo_pool = 3" "p_breakerCooldown demo_pool = 30 * Minute"
    "p_breakerCooldownMax demo_pool = 6 * Hour" by code_simp+
  moreover have "e_fails ?e = 0" "e_retryCount ?e = 2" by (simp_all add: new_entry_def)
  ultimately show ?thesis
    using breaker_law [of demo_pool ?e 3 2 _ "9 * Hour", OF _ _ _ _ _ _ _ _ refl refl]
    by (simp add: time_units)
qed

section \<open>Models that an account does not serve\<close>

text \<open>
  The negative cache doubles from six hours to a day: the \<open>n\<close>-th 11102 answer in a row that
  finds the record of the one before blocks the model for \<open>min (6h * 2^(n-1)) 24h\<close>.
\<close>

theorem block_backoff_doubles:
  assumes "block_hits model e = n" and "1 \<le> n"
    and "e' = BlockModelBackoff_e now model reason e"
  shows "\<exists>mc. gm_get (e_modelCooldowns e') model = Some mc \<and> mc_Hits mc = n \<and>
    mc_Until mc = now + min (6 * Hour * 2 ^ nat (n - 1)) (24 * Hour) \<and> block_hits model e' = n + 1"
  using assms block_ttl_eq [OF assms(2)]
  by (simp add: BlockModelBackoff_e_def Let_def block_hits_def modelBlockBaseTTL_def
      modelBlockMaxTTL_def)

theorem block_backoff_doubles_witness:
  "\<exists>mc. gm_get (e_modelCooldowns (BlockModelBackoff_e (9 * Hour) ''m'' ''11102''
     (BlockModelBackoff_e Hour ''m'' ''11102'' (new_entry (named_auth ''a''))))) ''m'' = Some mc \<and>
     mc_Until mc = 21 * Hour"
proof -
  let ?e = "BlockModelBackoff_e Hour ''m'' ''11102'' (new_entry (named_auth ''a''))"
  have "block_hits ''m'' ?e = 2" by code_simp
  then show ?thesis
    using block_backoff_doubles [of "''m''" ?e 2 _ "9 * Hour" "''11102''", OF _ _ refl]
    by (auto simp: time_units)
qed

text \<open>
  But selection forgets the count. Once a block has run out, any pick prunes its record
  together with the number of hits; the next 11102 then blocks for the first duration, six hours,
  whatever the count had been: the doubling above is out of reach for an account that is only found
  again through selection.
\<close>

theorem block_count_pruned:
  assumes "wf_entry e" and "gm_get (e_modelCooldowns e) model = Some mc" and "mc_Until mc \<le> t"
    and "e' = BlockModelBackoff_e now model reason (prune_entry t e)"
  shows "\<exists>mc'. gm_get (e_modelCooldowns e') model = Some mc' \<and> mc_Until mc' = now + 6 * Hour \<and>
    mc_Hits mc' = 1"
proof -
  have "gm_get (e_modelCooldowns (prune_entry t e)) model = None"
    using assms(1-3)
    by (simp add: prune_entry_cooldowns gm_filter_get wf_entry_def cooldown_over_def)
  then have "block_hits model (prune_entry t e) = 1" by (simp add: block_hits_def)
  then show ?thesis
    by (simp add: assms(4) BlockModelBackoff_e_def block_ttl_first modelBlockBaseTTL_def)
qed

theorem block_count_pruned_witness:
  "\<exists>mc'. gm_get (e_modelCooldowns (BlockModelBackoff_e (30 * Hour) ''m'' ''11102''
      (prune_entry (30 * Hour) ((new_entry (named_auth ''a''))\<lparr>e_modelCooldowns :=
        [(''m'', \<lparr>mc_Until = 25 * Hour, mc_ResetAt = 0, mc_Reason = ''11102'', mc_Hits = 3\<rparr>)]\<rparr>))))
      ''m'' = Some mc' \<and> mc_Until mc' = 36 * Hour"
proof -
  let ?mc = "\<lparr>mc_Until = 25 * Hour, mc_ResetAt = 0, mc_Reason = ''11102'', mc_Hits = 3\<rparr>"
  let ?e = "(new_entry (named_auth ''a''))\<lparr>e_modelCooldowns := [(''m'', ?mc)]\<rparr>"
  have "wf_entry ?e" by (simp add: wf_entry_def gm_wf_def new_entry_def)
  moreover have "gm_get (e_modelCooldowns ?e) ''m'' = Some ?mc" by simp
  moreover have "mc_Until ?mc \<le> 30 * Hour" by (simp add: time_units)
  ultimately show ?thesis
    using block_count_pruned [of ?e "''m''" ?mc "30 * Hour" _ "30 * Hour" "''11102''", OF _ _ _ refl]
    by (auto simp: time_units)
qed

section \<open>The hard cooldown\<close>

text \<open>
  An account that is out of credit cools until 04:00 local time: the deadline is at hour four,
  strictly in the future and at most a day away, and an account with nothing else against it is
  unhealthy exactly until then. The zone is any fixed offset from UTC.
\<close>

theorem hard_cooldown_until_four:
  assumes "healthy e now" and "0 \<le> now" and "gm_get (p_byUID p) u = Some e"
    and "gm_get (p_byUID (CooldownUntilTomorrow4AM off now now u reason p)) u = Some e'"
  shows "local_hour off (e_until e') = 4 \<and> now < e_until e' \<and> e_until e' \<le> now + 24 * Hour \<and>
    (\<forall>t \<ge> now. healthy e' t \<longleftrightarrow> e_until e' \<le> t)"
proof -
  let ?d = "nextDay4AM off now"
  have "Sub ?d now = ?d - now"
    using nextDay4AM_bounds(1) [of now off] nextDay4AM_bounds(2) [of off now]
    by (simp add: Sub_def maxDuration_def minDuration_def Hour_ns Let_def)
  then have e': "e' = Cooldown_e now CoolHard (?d - now) reason e"
    using assms(3,4)
    by (simp add: CooldownUntilTomorrow4AM_def Cooldown_def get_touch_entry)
  have until: "e_until e' = ?d" by (simp add: e' Cooldown_e_def)
  have idle: "\<not> (x \<noteq> 0 \<and> t < x)" if "x \<in> {e_breakerUntil e, e_degradeUntil e}" "now \<le> t" for x t
    using assms(1) that by (auto simp: healthy_iff running_def)
  have "healthy e' t \<longleftrightarrow> ?d \<le> t" if "now \<le> t" for t
    using assms(1,2) idle [OF _ that] nextDay4AM_bounds(1) [of now off]
    by (auto simp: e' Cooldown_e_def healthy_def IsZero_def)
  then show ?thesis
    using until nextDay4AM_hour [of off now] nextDay4AM_bounds(1) [of now off]
      nextDay4AM_bounds(2) [of off now] by simp
qed

theorem hard_cooldown_until_four_witness:
  "local_hour (8 * Hour) (e_until (the (gm_get (p_byUID
     (CooldownUntilTomorrow4AM (8 * Hour) (100 * Hour) (100 * Hour) ''a'' ''402'' demo_pool)) ''a''))) = 4"
proof -
  let ?q = "CooldownUntilTomorrow4AM (8 * Hour) (100 * Hour) (100 * Hour) ''a'' ''402'' demo_pool"
  have "gm_get (p_byUID demo_pool) ''a'' = Some (new_entry (named_auth ''a''))" by code_simp
  moreover have "healthy (new_entry (named_auth ''a'')) (100 * Hour)" by code_simp
  moreover have "gm_get (p_byUID ?q) ''a'' = Some (the (gm_get (p_byUID ?q) ''a''))" by code_simp
  moreover have "0 \<le> 100 * Hour" by (simp add: time_units)
  ultimately show ?thesis using hard_cooldown_until_four by blast
qed

section \<open>Balances and prices\<close>

text \<open>
  A measured spend keeps the books consistent: the balance never goes below zero or up, the
  expiring part stays a part of it, the new price lies between the old one and the observation,
  it is never negative, and the observation is dated now, so the account enters the measured tiers.
\<close>

theorem spend_keeps_books:
  assumes "gm_get (p_byUID p) u = Some e" and "credits_ok e" and "u \<noteq> []" and "m \<noteq> []"
    and "0 < tokens" and "now \<noteq> 0"
    and "gm_get (p_byUID (NoteModelCost now u m credit tokens p)) u = Some e'"
    and "obs = max 0 (credit / of_int tokens * 1000)"
  shows "credits_ok e' \<and> e_credits e' \<le> e_credits e \<and>
    (\<exists>mc. modelCostOf e' m now = Some mc \<and>
      (case gm_get (e_modelCost e) m of None \<Rightarrow> co_CostPer1k mc = obs
       | Some old \<Rightarrow> min (co_CostPer1k old) obs \<le> co_CostPer1k mc \<and>
           co_CostPer1k mc \<le> max (co_CostPer1k old) obs))"
proof -
  have obs: "(let x = credit / of_int tokens * 1000 in if x < 0 then 0 else x) = obs"
    by (simp add: assms(8) Let_def max_def)
  have e': "e' = NoteModelCost_e now m credit obs e"
    using assms(1,3-5,7) obs by (simp add: NoteModelCost_def Let_def get_touch_entry)
  have "0 \<le> e_credits e" using assms(2) by (simp add: credits_ok_def)
  then have "e_credits e' \<le> e_credits e"
    using deduct_le [of e credit] by (simp add: e' NoteModelCost_e_def Let_def)
  moreover have "credits_ok e'"
    using credits_ok_deduct [OF assms(2), of credit]
    by (simp add: e' NoteModelCost_e_def Let_def credits_ok_def)
  moreover have "modelCostOf e' m now = Some (observe_cost now obs (gm_get (e_modelCost e) m))"
    using assms(4,6)
    by (simp add: e' modelCostOf_def NoteModelCost_e_def Let_def observe_cost_def IsZero_def
        Sub_def modelCostTTL_def Hour_ns maxDuration_def minDuration_def split: option.split)
  ultimately show ?thesis
    using observe_between [of "gm_get (e_modelCost e) m" _ obs now]
    by (auto simp: observe_cost_def split: option.split)
qed

theorem spend_keeps_books_witness:
  "\<exists>mc. modelCostOf (the (gm_get (p_byUID (NoteModelCost Hour ''a'' ''m'' 5 1000 demo_pool)) ''a''))
     ''m'' Hour = Some mc \<and> co_CostPer1k mc = 5"
proof -
  let ?q = "NoteModelCost Hour ''a'' ''m'' 5 1000 demo_pool"
  have "gm_get (p_byUID demo_pool) ''a'' = Some (new_entry (named_auth ''a''))" by code_simp
  moreover have "credits_ok (new_entry (named_auth ''a''))" "e_modelCost (new_entry (named_auth ''a'')) = []"
    by (simp_all add: credits_ok_def new_entry_def)
  moreover have "gm_get (p_byUID ?q) ''a'' = Some (the (gm_get (p_byUID ?q) ''a''))" by code_simp
  moreover have "Hour \<noteq> 0" by (simp add: time_units)
  ultimately show ?thesis
    using spend_keeps_books [of demo_pool "''a''" "new_entry (named_auth ''a'')" "''m''" 1000 Hour 5
        "the (gm_get (p_byUID ?q) ''a'')" 5]
    by auto
qed

end
