(* ===== verification/Lease.thy ===== *)
theory Lease
  imports Pick_Props
begin

text \<open>
  The in-flight lease under concurrency. \<open>Acquire\<close> and \<open>Release\<close> of
  \<^verbatim>\<open>src/internal/pool/pool.go\<close> leave the lock before they change the counter: each is a
  load/compare-and-swap loop on the atomic \<open>entry.inFlight\<close>. Here the counter is shared by any
  number of goroutines, a goroutine is its program counter, and a step lets one goroutine execute
  one atomic access. \<open>acquire_once\<close> and \<open>release_once\<close> are what the sequential definitions of the
  pool do to the counter.
\<close>

datatype lease_pc =
    AcqLoad int
  | AcqCAS int int
  | AcqDone bool
  | RelLoad
  | RelCAS int
  | RelDone bool

text \<open>
  One atomic access: the counter before, the program counter, and both after. \<open>RelDone False\<close> is
  the early return at zero.
\<close>

fun lease_access :: "int \<Rightarrow> lease_pc \<Rightarrow> int \<times> lease_pc" where
  "lease_access n (AcqLoad limit) =
     (if limit \<le> 0 then (n + 1, AcqDone True)
      else if n \<ge> limit then (n, AcqDone False)
      else (n, AcqCAS limit n))"
| "lease_access n (AcqCAS limit cur) =
     (if n = cur then (cur + 1, AcqDone True) else (n, AcqLoad limit))"
| "lease_access n RelLoad = (if n \<le> 0 then (n, RelDone False) else (n, RelCAS n))"
| "lease_access n (RelCAS cur) = (if n = cur then (cur - 1, RelDone True) else (n, RelLoad))"
| "lease_access n pc = (n, pc)"

definition acquire_once :: "int \<Rightarrow> int \<Rightarrow> bool \<times> int" where
  "acquire_once limit n =
     (if limit \<le> 0 then (True, n + 1) else if n \<ge> limit then (False, n) else (True, n + 1))"

definition release_once :: "int \<Rightarrow> bool \<times> int" where
  "release_once n = (if n \<le> 0 then (False, n) else (True, n - 1))"

type_synonym lease_state = "int \<times> lease_pc list"

inductive lease_step :: "lease_state \<Rightarrow> lease_state \<Rightarrow> bool" where
  access: "i < length ts \<Longrightarrow> lease_access n (ts ! i) = (n', t') \<Longrightarrow>
    lease_step (n, ts) (n', ts[i := t'])"

inductive_cases lease_stepE: "lease_step (n, ts) s"

section \<open>The sequential definitions use the counter in the same way\<close>

lemma Acquire_counter:
  assumes "gm_get (p_byUID p) u = Some e"
  shows "fst (Acquire v u p) = fst (acquire_once (inFlightLimit v p e) (e_inFlight e))"
    and "map_option e_inFlight (gm_get (p_byUID (snd (Acquire v u p))) u) =
      Some (snd (acquire_once (inFlightLimit v p e) (e_inFlight e)))"
  using assms by (simp_all add: Acquire_def acquire_once_def Let_def get_upd_entry)

lemma Release_counter:
  assumes "gm_get (p_byUID p) u = Some e"
  shows "map_option e_inFlight (gm_get (p_byUID (Release u p)) u) =
    Some (snd (release_once (e_inFlight e)))"
  using assms by (simp add: Release_def release_once_def get_upd_entry)

section \<open>Invariant\<close>

definition held :: "lease_pc list \<Rightarrow> int" where
  "held ts = int (length (filter (\<lambda>t. t = AcqDone True) ts)) -
     int (length (filter (\<lambda>t. t = RelDone True) ts))"

definition pc_ok :: "int \<Rightarrow> lease_pc \<Rightarrow> bool" where
  "pc_ok limit t = (case t of
      AcqLoad l \<Rightarrow> l = limit
    | AcqCAS l cur \<Rightarrow> l = limit \<and> cur < limit
    | RelCAS cur \<Rightarrow> 0 < cur
    | _ \<Rightarrow> True)"

definition lease_inv :: "int \<Rightarrow> int \<Rightarrow> lease_state \<Rightarrow> bool" where
  "lease_inv limit base s = (0 \<le> fst s \<and> fst s \<le> max base limit \<and>
     fst s = base + held (snd s) \<and> list_all (pc_ok limit) (snd s))"

lemma count_update:
  assumes "i < length ts"
  shows "int (length (filter P (ts[i := t]))) =
    int (length (filter P ts)) - (if P (ts ! i) then 1 else 0) + (if P t then 1 else 0)"
  using assms
proof (induction ts arbitrary: i)
  case (Cons x ts)
  show ?case
  proof (cases i)
    case (Suc j)
    then show ?thesis using Cons.IH [of j] Cons.prems by (simp split: if_splits)
  qed auto
qed simp

lemma held_update:
  assumes "i < length ts"
  shows "held (ts[i := t]) = held ts + held [t] - held [ts ! i]"
  using count_update [OF assms, of "\<lambda>t. t = AcqDone True" t]
    count_update [OF assms, of "\<lambda>t. t = RelDone True" t]
  by (simp add: held_def)

lemma access_ok:
  assumes "0 < limit" and "pc_ok limit t" and "0 \<le> n" and "n \<le> max base limit"
    and "lease_access n t = (n', t')"
  shows "pc_ok limit t' \<and> 0 \<le> n' \<and> n' \<le> max base limit \<and> n' = n + held [t'] - held [t]"
  using assms by (cases t) (auto simp: pc_ok_def held_def split: if_splits)

lemma lease_inv_step:
  assumes "0 < limit" and "lease_inv limit base s" and "lease_step s s'"
  shows "lease_inv limit base s'"
  using assms(3)
proof cases
  case (access i ts n n' t')
  have "pc_ok limit (ts ! i)"
    using assms(2) access(1,3) by (simp add: lease_inv_def list_all_length)
  then have "pc_ok limit t' \<and> 0 \<le> n' \<and> n' \<le> max base limit \<and> n' = n + held [t'] - held [ts ! i]"
    using access_ok [OF assms(1) _ _ _ access(4), of base] assms(2) access(1)
    by (simp add: lease_inv_def)
  moreover have "list_all (pc_ok limit) (ts[i := t'])" if "pc_ok limit t'"
    using that assms(2) access(1,3)
    by (auto simp: lease_inv_def list_all_length nth_list_update)
  ultimately show ?thesis
    using assms(2) access held_update [OF access(3), of t'] by (simp add: lease_inv_def)
qed

text \<open>
  (C6) The lease limit holds under every interleaving. However many goroutines acquire and release
  at once, the counter of an account is never negative, never above its limit (or above where it
  started, if that was higher), and always equals its start plus the acquisitions that returned
  true minus the releases that took effect.
\<close>

theorem lease_safe:
  assumes "0 < limit" and "0 \<le> base" and "lease_step\<^sup>*\<^sup>* (base, ts) (n, ts')"
    and "\<And>t. t \<in> set ts \<Longrightarrow> t = AcqLoad limit \<or> t = RelLoad"
  shows "0 \<le> n \<and> n \<le> max base limit \<and> n = base + held ts'"
proof -
  have "filter (\<lambda>t. t = AcqDone True) ts = []" "filter (\<lambda>t. t = RelDone True) ts = []"
    using assms(4) by (fastforce simp: filter_empty_conv)+
  moreover have "list_all (pc_ok limit) ts"
    using assms(4) by (fastforce simp: list_all_iff pc_ok_def)
  ultimately have "held ts = 0" "list_all (pc_ok limit) ts" by (simp_all add: held_def)
  then have "lease_inv limit base (base, ts)" using assms(2) by (simp add: lease_inv_def)
  with assms(3) have "lease_inv limit base (n, ts')"
    by (induction rule: rtranclp_induct) (auto intro: lease_inv_step [OF assms(1)])
  then show ?thesis by (simp add: lease_inv_def)
qed

text \<open>Two goroutines race for the last lease: both load zero, one swap succeeds.\<close>

lemma lease_race:
  "lease_step\<^sup>*\<^sup>* (0, [AcqLoad 1, AcqLoad 1]) (1, [AcqDone True, AcqDone False])"
proof -
  have "lease_step (0, [AcqLoad 1, AcqLoad 1]) (0, [AcqCAS 1 0, AcqLoad 1])"
    using lease_step.access [of 0 "[AcqLoad 1, AcqLoad 1]" 0] by simp
  moreover have "lease_step (0, [AcqCAS 1 0, AcqLoad 1]) (0, [AcqCAS 1 0, AcqCAS 1 0])"
    using lease_step.access [of 1 "[AcqCAS 1 0, AcqLoad 1]" 0] by simp
  moreover have "lease_step (0, [AcqCAS 1 0, AcqCAS 1 0]) (1, [AcqDone True, AcqCAS 1 0])"
    using lease_step.access [of 0 "[AcqCAS 1 0, AcqCAS 1 0]" 0] by simp
  moreover have "lease_step (1, [AcqDone True, AcqCAS 1 0]) (1, [AcqDone True, AcqLoad 1])"
    using lease_step.access [of 1 "[AcqDone True, AcqCAS 1 0]" 1] by simp
  moreover have "lease_step (1, [AcqDone True, AcqLoad 1]) (1, [AcqDone True, AcqDone False])"
    using lease_step.access [of 1 "[AcqDone True, AcqLoad 1]" 1] by simp
  ultimately show ?thesis by (meson converse_rtranclp_into_rtranclp rtranclp.rtrancl_refl)
qed

theorem lease_safe_witness: "(1::int) = 0 + held [AcqDone True, AcqDone False]"
  using lease_safe [OF _ _ lease_race] by simp

section \<open>Linearisability\<close>

text \<open>
  A run with its history: the goroutines in the order in which they complete, each with its final program counter, which
  holds the result that the call returns.
\<close>

definition completed :: "lease_pc \<Rightarrow> bool" where
  "completed t = (case t of AcqDone r \<Rightarrow> True | RelDone r \<Rightarrow> True | _ \<Rightarrow> False)"

inductive lease_run :: "lease_state \<Rightarrow> (nat \<times> lease_pc) list \<Rightarrow> lease_state \<Rightarrow> bool" where
  start: "lease_run s [] s"
| access: "lease_run s hist (n, ts) \<Longrightarrow> i < length ts \<Longrightarrow> lease_access n (ts ! i) = (n', t') \<Longrightarrow>
    lease_run s (if completed t' \<and> \<not> completed (ts ! i) then hist @ [(i, t')] else hist) (n', ts[i := t'])"

inductive_cases lease_runE: "lease_run s hist s'"

text \<open>
  The calls of a history, executed one after the other on the counter: the final counter, and nothing if a call returns
  something else than the history says.
\<close>

fun replay :: "int \<Rightarrow> int \<Rightarrow> lease_pc list \<Rightarrow> int option" where
  "replay limit n [] = Some n"
| "replay limit n (AcqDone r # ops) =
     (case acquire_once limit n of (r', n') \<Rightarrow> if r' = r then replay limit n' ops else None)"
| "replay limit n (RelDone r # ops) =
     (case release_once n of (r', n') \<Rightarrow> if r' = r then replay limit n' ops else None)"
| "replay limit n (op # ops) = None"

lemma replay_append: "replay limit n (xs @ ys) = Option.bind (replay limit n xs) (\<lambda>m. replay limit m ys)"
  by (induction limit n xs rule: replay.induct) (auto split: prod.splits)

text \<open>The step that completes a call is the sequential call, and no other step touches the counter.\<close>

lemma access_once:
  assumes "0 < limit" and "pc_ok limit t" and "lease_access n t = (n', t')"
  shows "if completed t' \<and> \<not> completed t then replay limit n [t'] = Some n' else n' = n"
  using assms
  by (cases t) (auto simp: pc_ok_def completed_def acquire_once_def release_once_def split: if_splits)

lemma completed_final: "completed t \<Longrightarrow> lease_access n t = (n, t)"
  by (cases t) (simp_all add: completed_def)

text \<open>What holds at every moment of a run: the history replays to the counter and lists exactly the completed calls.\<close>

definition history_ok :: "int \<Rightarrow> int \<Rightarrow> (nat \<times> lease_pc) list \<Rightarrow> lease_state \<Rightarrow> bool" where
  "history_ok limit base hist s = (replay limit base (map snd hist) = Some (fst s) \<and> list_all (pc_ok limit) (snd s) \<and>
     distinct (map fst hist) \<and>
     (\<forall>i t. (i, t) \<in> set hist \<longleftrightarrow> i < length (snd s) \<and> snd s ! i = t \<and> completed t))"

lemma history_ok_step:
  assumes ok: "history_ok limit base hist (n, ts)" and pos: "0 < limit" and i: "i < length ts"
    and acc: "lease_access n (ts ! i) = (n', t')"
  shows "history_ok limit base (if completed t' \<and> \<not> completed (ts ! i) then hist @ [(i, t')] else hist) (n', ts[i := t'])"
proof -
  have h: "replay limit base (map snd hist) = Some n" "list_all (pc_ok limit) ts" "distinct (map fst hist)"
    and mem: "\<And>k t. (k, t) \<in> set hist \<longleftrightarrow> k < length ts \<and> ts ! k = t \<and> completed t"
    using ok by (simp_all add: history_ok_def)
  have pc: "pc_ok limit (ts ! i)" using h(2) i by (simp add: list_all_length)
  have pcs: "list_all (pc_ok limit) (ts[i := t'])"
    using access_ok [OF pos pc _ _ acc, of "max n 0"] h(2) i pc acc
    by (cases "ts ! i") (auto simp: list_all_length nth_list_update pc_ok_def split: if_splits)
  note once = access_once [OF pos pc acc]
  show ?thesis
  proof (cases "completed t' \<and> \<not> completed (ts ! i)")
    case True
    with once have "replay limit base (map snd (hist @ [(i, t')])) = Some n'"
      using h(1) by (simp add: replay_append del: replay.simps(2-))
    moreover have "i \<notin> fst ` set hist" using mem True by force
    ultimately show ?thesis
      using True h(3) mem pcs i by (auto simp: history_ok_def nth_list_update)
  next
    case False
    with once have n: "n' = n" by auto
    have "completed (ts ! i) \<Longrightarrow> t' = ts ! i" using acc completed_final [of "ts ! i" n] by simp
    with False have "t' = ts ! i \<or> \<not> completed t' \<and> \<not> completed (ts ! i)" by auto
    then show ?thesis
      using False h mem pcs i by (auto simp: history_ok_def nth_list_update n)
  qed
qed

text \<open>
  (C7) The loops are linearisable. However the accesses of any number of goroutines interleave, executing the calls that
  have completed one after the other, in the order in which they completed, gives every call the result that it
  returned and leaves the counter as it is; and the history lists every completed call exactly once.
\<close>

theorem lease_linearisable:
  assumes "0 < limit" and "\<And>t. t \<in> set ts \<Longrightarrow> t = AcqLoad limit \<or> t = RelLoad" and "lease_run (base, ts) hist (n, ts')"
  shows "replay limit base (map snd hist) = Some n \<and> distinct (map fst hist) \<and>
    (\<forall>i t. (i, t) \<in> set hist \<longleftrightarrow> i < length ts' \<and> ts' ! i = t \<and> completed t)"
proof -
  have "list_all (pc_ok limit) ts" and none: "t \<in> set ts \<Longrightarrow> \<not> completed t" for t
    using assms(2) by (fastforce simp: list_all_iff pc_ok_def completed_def)+
  then have init: "history_ok limit base [] (base, ts)" by (auto simp: history_ok_def)
  have "history_ok limit base hist s'" if "lease_run s hist s'" "s = (base, ts)" for s s'
    using that
  proof (induction rule: lease_run.induct)
    case (start s)
    then show ?case using init by simp
  next
    case (access s hist n ts i n' t')
    then show ?case using history_ok_step [OF _ assms(1)] by blast
  qed
  from this [OF assms(3) refl] show ?thesis by (simp add: history_ok_def)
qed

text \<open>The race for the last lease with a release behind it.\<close>

lemma race_history:
  "lease_run (0, [AcqLoad 1, AcqLoad 1, RelLoad]) [(0, AcqDone True), (1, AcqDone False), (2, RelDone True)]
     (0, [AcqDone True, AcqDone False, RelDone True])"
proof -
  note step = lease_run.access [where s = "(0, [AcqLoad 1, AcqLoad 1, RelLoad])", OF _ _ ]
  have "lease_run (0, [AcqLoad 1, AcqLoad 1, RelLoad]) [] (0, [AcqLoad 1, AcqLoad 1, RelLoad])" by (rule lease_run.start)
  from step [OF this, of 0] have "lease_run (0, [AcqLoad 1, AcqLoad 1, RelLoad]) [] (0, [AcqCAS 1 0, AcqLoad 1, RelLoad])"
    by (simp add: completed_def)
  from step [OF this, of 1] have "lease_run (0, [AcqLoad 1, AcqLoad 1, RelLoad]) [] (0, [AcqCAS 1 0, AcqCAS 1 0, RelLoad])"
    by (simp add: completed_def)
  from step [OF this, of 0] have "lease_run (0, [AcqLoad 1, AcqLoad 1, RelLoad]) [(0, AcqDone True)]
      (1, [AcqDone True, AcqCAS 1 0, RelLoad])"
    by (simp add: completed_def)
  from step [OF this, of 1] have "lease_run (0, [AcqLoad 1, AcqLoad 1, RelLoad]) [(0, AcqDone True)]
      (1, [AcqDone True, AcqLoad 1, RelLoad])"
    by (simp add: completed_def)
  from step [OF this, of 1] have "lease_run (0, [AcqLoad 1, AcqLoad 1, RelLoad]) [(0, AcqDone True), (1, AcqDone False)]
      (1, [AcqDone True, AcqDone False, RelLoad])"
    by (simp add: completed_def)
  from step [OF this, of 2] have "lease_run (0, [AcqLoad 1, AcqLoad 1, RelLoad]) [(0, AcqDone True), (1, AcqDone False)]
      (1, [AcqDone True, AcqDone False, RelCAS 1])"
    by (simp add: completed_def)
  from step [OF this, of 2] show ?thesis by (simp add: completed_def)
qed

theorem lease_linearisable_witness: "replay 1 0 [AcqDone True, AcqDone False, RelDone True] = Some 0"
  using lease_linearisable [OF _ _ race_history, of 1] by auto

end
