(* ===== verification/Pool_Machine.thy ===== *)
theory Pool_Machine
  imports Persist_Props
begin

text \<open>
  The pool as a machine. A \<open>pool_call\<close> is a call of a method of \<^verbatim>\<open>src/internal/pool\<close> that changes the
  memory, with its arguments and the clock readings it takes; an \<open>event\<close> is such a call or one that
  touches the disk or the mirror, with what these return. Every method runs under the pool's lock, so a
  history of the pool is a sequence of events. \<open>step\<close> is the relation that one event induces on the pool
  together with the disk, \<open>reachable\<close> the states that \<open>New\<close> and events lead to.
\<close>

datatype pool_call =
    EAdd auth
  | ESetBreaker int duration duration
  | ESetSoftRateMax duration
  | ESetCostExploreInterval duration
  | ESetDegrade int duration duration
  | ESetWeights rat rat
  | ESetMaxInFlight int
  | ESetMaxInFlightGlobal int
  | ESetStore bool
  | EAcquire uid
  | ERelease uid
  | ESetCredits uid int
  | ESetCreditsDetailed uid int int
  | ECooldown gtime uid CoolKind duration string
  | ECooldownSoftForModel gtime uid duration gtime string string
  | ECooldownSoftRate gtime uid duration gtime string
  | EBlockModelBackoff gtime uid string string
  | EBlockModelClear uid string
  | ECooldownUntilTomorrow4AM int gtime gtime uid string
  | ENoteFailures gtime gtime uid
  | EDisable uid string
  | ENoteSessionDead uid
  | EClearSessionDead uid
  | EReviveDisabled uid
  | ESetManualDisabled uid bool string
  | EReenableIfCredits uid int
  | ENoteError gtime gtime uid
  | ENoteModelCost gtime uid string rat int
  | ENoteSuccess gtime uid
  | EPick pick_env pick_rand "uid list" string string
  | EPickByUIDForModel gtime uid string

datatype event =
    ECall pkgvars pool_call
  | EFlush save_env
  | ESyncToDir save_env "auth list"
  | ERestoreFromSnapshot gtime

fun pool_event :: "pkgvars \<Rightarrow> pool_call \<Rightarrow> pool \<Rightarrow> pool" where
  "pool_event v (EAdd a) p = Add a p"
| "pool_event v (ESetBreaker n c mx) p = SetBreaker n c mx p"
| "pool_event v (ESetSoftRateMax d) p = SetSoftRateMax d p"
| "pool_event v (ESetCostExploreInterval d) p = SetCostExploreInterval d p"
| "pool_event v (ESetDegrade n c mx) p = SetDegrade n c mx p"
| "pool_event v (ESetWeights x y) p = SetWeights x y p"
| "pool_event v (ESetMaxInFlight n) p = SetMaxInFlight n p"
| "pool_event v (ESetMaxInFlightGlobal n) p = SetMaxInFlightGlobal n p"
| "pool_event v (ESetStore s) p = SetStore s p"
| "pool_event v (EAcquire u) p = snd (Acquire v u p)"
| "pool_event v (ERelease u) p = Release u p"
| "pool_event v (ESetCredits u c) p = SetCredits u c p"
| "pool_event v (ESetCreditsDetailed u c x) p = SetCreditsDetailed u c x p"
| "pool_event v (ECooldown t u k d r) p = Cooldown t u k d r p"
| "pool_event v (ECooldownSoftForModel t u b ra m r) p = CooldownSoftForModel t u b ra m r p"
| "pool_event v (ECooldownSoftRate t u b ra r) p = CooldownSoftRate t u b ra r p"
| "pool_event v (EBlockModelBackoff t u m r) p = BlockModelBackoff t u m r p"
| "pool_event v (EBlockModelClear u m) p = BlockModelClear u m p"
| "pool_event v (ECooldownUntilTomorrow4AM off t t2 u r) p = CooldownUntilTomorrow4AM off t t2 u r p"
| "pool_event v (ENoteFailures t t2 u) p = NoteFailures t t2 u p"
| "pool_event v (EDisable u r) p = Disable u r p"
| "pool_event v (ENoteSessionDead u) p = snd (NoteSessionDead u p)"
| "pool_event v (EClearSessionDead u) p = ClearSessionDead u p"
| "pool_event v (EReviveDisabled u) p = snd (ReviveDisabled u p)"
| "pool_event v (ESetManualDisabled u d r) p = snd (SetManualDisabled u d r p)"
| "pool_event v (EReenableIfCredits u c) p = ReenableIfCredits u c p"
| "pool_event v (ENoteError t t2 u) p = NoteError t t2 u p"
| "pool_event v (ENoteModelCost t u m c k) p = NoteModelCost t u m c k p"
| "pool_event v (ENoteSuccess t u) p = NoteSuccess t u p"
| "pool_event v (EPick env rnd tried m realm) p = snd (PickExcludingForRealm v env rnd tried m realm p)"
| "pool_event v (EPickByUIDForModel t u m) p = snd (PickByUIDForModel v t u m p)"

inductive step ::
  "(snapshot \<Rightarrow> 's \<Rightarrow> 's) \<Rightarrow> ('s \<Rightarrow> snapshot option option) \<Rightarrow> event \<Rightarrow>
   pool \<times> 's world \<Rightarrow> pool \<times> 's world \<Rightarrow> bool"
  for SaveState :: "snapshot \<Rightarrow> 's \<Rightarrow> 's" and LoadState :: "'s \<Rightarrow> snapshot option option"
where
  flush: "step SaveState LoadState (EFlush env) (p, w) (Flush SaveState env p w)"
| sync: "step SaveState LoadState (ESyncToDir env auths) (p, w) (SyncToDir SaveState env auths p w)"
| restore: "(\<And>snap. LoadState (w_store w) = Some (Some snap) \<Longrightarrow> wf_file (sn_stateFile snap)) \<Longrightarrow>
    step SaveState LoadState (ERestoreFromSnapshot now) (p, w)
      (RestoreFromSnapshot LoadState now w p, w)"
| call: "step SaveState LoadState (ECall v c) (p, w) (pool_event v c p, w)"

inductive reachable ::
  "(snapshot \<Rightarrow> 's \<Rightarrow> 's) \<Rightarrow> ('s \<Rightarrow> snapshot option option) \<Rightarrow> pool \<times> 's world \<Rightarrow> bool"
  for SaveState :: "snapshot \<Rightarrow> 's \<Rightarrow> 's" and LoadState :: "'s \<Rightarrow> snapshot option option"
where
  new: "(\<And>sf. w_file w = Holds sf \<Longrightarrow> wf_file sf) \<Longrightarrow>
    reachable SaveState LoadState (New now fp w, w)"
| event: "reachable SaveState LoadState s \<Longrightarrow> step SaveState LoadState ev s s' \<Longrightarrow>
    reachable SaveState LoadState s'"

section \<open>The invariant\<close>

lemma pool_inv_setters:
  "pool_inv (SetBreaker n c mx p) = pool_inv p" "pool_inv (SetSoftRateMax d p) = pool_inv p"
  "pool_inv (SetCostExploreInterval d p) = pool_inv p" "pool_inv (SetDegrade n c mx p) = pool_inv p"
  "pool_inv (SetWeights x y p) = pool_inv p" "pool_inv (SetMaxInFlight k p) = pool_inv p"
  "pool_inv (SetMaxInFlightGlobal k p) = pool_inv p" "pool_inv (SetStore s p) = pool_inv p"
  by (rule pool_inv_cong; simp add: SetBreaker_def SetSoftRateMax_def SetCostExploreInterval_def
      SetDegrade_def SetWeights_def SetMaxInFlight_def SetMaxInFlightGlobal_def SetStore_def
      Let_def)+

lemmas touch_invs =
  set_credits.touch_inv set_credits_detailed.touch_inv cooldown.touch_inv soft_model.touch_inv
  soft_rate.touch_inv block.touch_inv block_clear.touch_inv note_failures.touch_inv
  disable.touch_inv session_dead.touch_inv clear_dead.touch_inv revive_disabled.touch_inv
  manual.touch_inv reenable.touch_inv note_error.touch_inv note_success.touch_inv

lemmas entry_ops =
  SetCredits_def SetCreditsDetailed_def Cooldown_def CooldownSoftForModel_def CooldownSoftRate_def
  BlockModelBackoff_def BlockModelClear_def CooldownUntilTomorrow4AM_def NoteFailures_def
  Disable_def NoteSessionDead_def ClearSessionDead_def ReviveDisabled_def SetManualDisabled_def
  ReenableIfCredits_def NoteError_def NoteSuccess_def

lemma pool_inv_event:
  assumes "pool_inv p"
  shows "pool_inv (pool_event v ev p)"
proof (cases ev)
  case (EPick env rnd tried m realm)
  then show ?thesis using pool_inv_pick [OF assms] by (simp add: PickExcludingForRealm_def)
qed (use assms in \<open>auto simp: Add_def pool_inv_upsert pool_inv_setters pool_inv_Acquire
    pool_inv_Release pool_inv_PickByUID pool_inv_NoteModelCost entry_ops touch_invs
    split: option.split\<close>)

lemma wf_world_save:
  assumes "pool_inv p" and "\<And>sf. w_file w = Holds sf \<Longrightarrow> wf_file sf"
    and "w_file (snd (saveLocked S env p w)) = Holds sf"
  shows "wf_file sf"
  using assms wf_overview [OF assms(1)]
  by (auto simp: saveLocked_def Let_def split: if_splits)

definition sys_inv :: "pool \<times> 's world \<Rightarrow> bool" where
  "sys_inv s = (pool_inv (fst s) \<and> (\<forall>sf. w_file (snd s) = Holds sf \<longrightarrow> wf_file sf))"

lemma pool_inv_Restore:
  assumes "pool_inv p"
    and "\<And>snap. LoadState (w_store w) = Some (Some snap) \<Longrightarrow> wf_file (sn_stateFile snap)"
  shows "pool_inv (RestoreFromSnapshot LoadState now w p)"
proof -
  have adopt: "pool_inv (adoptSnapshot now snap p)" if "wf_file (sn_stateFile snap)" for snap
  proof -
    have "pool_inv (p\<lparr>p_byUID := []\<rparr>)" by (simp add: pool_inv_def gm_wf_def seq_distinct_def)
    from pool_inv_applyAccounts [OF this that, of now] show ?thesis
      using pool_inv_cong [of "adoptSnapshot now snap p" "applySnapshotLocked now snap p"]
      by (simp add: adoptSnapshot_def applySnapshotLocked_def)
  qed
  show ?thesis
    using assms adopt by (auto simp: RestoreFromSnapshot_def split: option.split)
qed

lemma sys_inv_step:
  assumes "step S L ev s s'" and "sys_inv s"
  shows "sys_inv s'"
  using assms
proof (induction rule: step.induct)
  case (flush env p w)
  have p: "pool_inv (p\<lparr>p_dirty := False\<rparr>)"
    using flush pool_inv_cong [of "p\<lparr>p_dirty := False\<rparr>" p] by (simp add: sys_inv_def)
  show ?case
    using flush pool_inv_Flush [of p S env w] wf_world_save [OF p, of w S env]
    by (auto simp: sys_inv_def Flush_def)
next
  case (sync env auths p w)
  let ?p2 = "(sync_upserts auths p)\<lparr>p_byUID := filter (\<lambda>(u, e). u \<in> set (map a_UID auths))
    (p_byUID (sync_upserts auths p))\<rparr>"
  have "pool_inv ?p2"
    using sync by (simp add: sys_inv_def pool_inv_filter_keys pool_inv_sync_upserts)
  then show ?case
    using sync pool_inv_SyncToDir [of p S env auths w] wf_world_save [of ?p2 w S env]
    by (auto simp: sys_inv_def SyncToDir_def Let_def)
next
  case (restore w now p)
  then show ?case using pool_inv_Restore [of p L w now] by (simp add: sys_inv_def)
next
  case (call v c p w)
  then show ?case by (simp add: sys_inv_def pool_inv_event)
qed

text \<open>
  (C8) The pool invariant holds in every reachable state. From a pool built on any readable,
  missing or corrupt state file, through any sequence of method calls, saves (failing or not),
  directory alignments and mirror restores, accounts are bound once and under their own identifier,
  leases are never negative, per-model tables bind a model once, and no two accounts that were ever
  picked share a sequence number.
\<close>

theorem pool_inv_reachable:
  assumes "reachable SaveState LoadState (p, w)"
  shows "pool_inv p \<and> (\<forall>sf. w_file w = Holds sf \<longrightarrow> wf_file sf)"
proof -
  have "sys_inv s" if "reachable SaveState LoadState s" for s
    using that
  proof (induction rule: reachable.induct)
    case (new w now fp)
    then have "pool_inv (New now fp w)"
      using pool_inv_New [of fp]
      by (auto simp: New_def Let_def load_def intro: pool_inv_applyAccounts split: file_content.split)
    with new show ?case by (simp add: sys_inv_def)
  next
    case (event s ev s')
    then show ?case by (blast intro: sys_inv_step)
  qed
  from this [OF assms] show ?thesis by (simp add: sys_inv_def)
qed

theorem pool_inv_reachable_witness:
  "pool_inv (pool_event demo_vars (EDisable ''a'' ''gone'') (Add (named_auth ''a'')
     (New 0 ''state.json'' empty_world)))"
proof -
  have "reachable cell_save cell_load (New 0 ''state.json'' empty_world, empty_world)"
    by (rule reachable.new) (simp add: empty_world_def)
  then have "reachable cell_save cell_load
      (pool_event demo_vars (EAdd (named_auth ''a'')) (New 0 ''state.json'' empty_world), empty_world)"
    by (rule reachable.event) (rule step.call)
  then have "reachable cell_save cell_load (pool_event demo_vars (EDisable ''a'' ''gone'')
      (pool_event demo_vars (EAdd (named_auth ''a'')) (New 0 ''state.json'' empty_world)), empty_world)"
    by (rule reachable.event) (rule step.call)
  from pool_inv_reachable [OF this] show ?thesis by simp
qed

section \<open>The two disable bits\<close>

definition manual_of :: "uid \<Rightarrow> pool \<Rightarrow> (bool \<times> string) option" where
  "manual_of u p = map_option (\<lambda>e. (e_manualDisabled e, e_manualReason e)) (gm_get (p_byUID p) u)"

lemma manual_touch:
  assumes "\<And>e. e_manualDisabled (f e) = e_manualDisabled e \<and> e_manualReason (f e) = e_manualReason e"
  shows "manual_of u (touch_entry w f p) = manual_of u p"
  using assms by (simp add: manual_of_def get_touch_entry option.map_comp comp_def)

lemma manual_upd:
  assumes "\<And>e. e_manualDisabled (f e) = e_manualDisabled e \<and> e_manualReason (f e) = e_manualReason e"
  shows "manual_of u (upd_entry w f p) = manual_of u p"
  using assms by (simp add: manual_of_def get_upd_entry option.map_comp comp_def)

lemma manual_mark_used: "manual_of u (mark_used t w p) = manual_of u p"
  by (simp add: manual_of_def get_mark_used option.map_comp comp_def)

lemma manual_prune: "manual_of u (prune_all t p) = manual_of u p"
  by (simp add: manual_of_def prune_all_get option.map_comp comp_def)

lemma manual_cong: "p_byUID p = p_byUID q \<Longrightarrow> manual_of u p = manual_of u q"
  by (simp add: manual_of_def)

lemma manual_pick: "manual_of u (snd (pick v env rnd tried m realm p)) = manual_of u p"
proof -
  have "manual_of u (note_explore t m realm cands q) = manual_of u q" for t cands q
    by (rule manual_cong) simp
  then show ?thesis
    by (simp add: pick_unfold [OF refl refl] pickEarliestExpiryLocked_def Let_def
        manual_mark_used manual_prune split: option.split)
qed

lemma manual_upsert: "manual_of u p = Some x \<Longrightarrow> manual_of u (upsertLocked a p) = Some x"
  by (auto simp: manual_of_def upsert_get split: option.splits)

lemma deduct_manual [simp]:
  "e_manualDisabled (deduct c e) = e_manualDisabled e"
  "e_manualReason (deduct c e) = e_manualReason e"
  by (simp_all add: deduct_def Let_def)

lemma manual_setters:
  "manual_of u (SetBreaker n c mx p) = manual_of u p" "manual_of u (SetSoftRateMax d p) = manual_of u p"
  "manual_of u (SetCostExploreInterval d p) = manual_of u p"
  "manual_of u (SetDegrade n c mx p) = manual_of u p" "manual_of u (SetWeights x y p) = manual_of u p"
  "manual_of u (SetMaxInFlight k p) = manual_of u p"
  "manual_of u (SetMaxInFlightGlobal k p) = manual_of u p" "manual_of u (SetStore s p) = manual_of u p"
  by (rule manual_cong; simp add: SetBreaker_def SetSoftRateMax_def SetCostExploreInterval_def
      SetDegrade_def SetWeights_def SetMaxInFlight_def SetMaxInFlightGlobal_def SetStore_def
      Let_def)+

lemma manual_call:
  assumes "\<And>d r. c \<noteq> ESetManualDisabled u d r" and "manual_of u p = Some x"
  shows "manual_of u (pool_event v c p) = Some x"
proof (cases c)
  case (EPick env rnd tried m realm)
  then show ?thesis using assms(2) by (simp add: PickExcludingForRealm_def manual_pick)
next
  case (ESetManualDisabled w d r)
  with assms(1) have "w \<noteq> u" by auto
  with ESetManualDisabled assms(2) show ?thesis
    by (auto simp: SetManualDisabled_def manual_of_def get_touch_entry split: option.split)
qed (use assms(2) in \<open>auto simp: Add_def manual_upsert manual_setters Acquire_def Release_def
    manual_upd PickByUIDForModel_def manual_mark_used NoteModelCost_def NoteModelCost_e_def
    NoteSuccess_e_def NoteError_e_def NoteSessionDead_e_def ReenableIfCredits_e_def
    entry_ops entry_trans_defs manual_touch Let_def split: option.split\<close>)

lemma manual_save: "manual_of u (fst (saveLocked S env p w)) = manual_of u p"
  by (rule manual_cong) simp

lemma manual_upserts: "manual_of u p = Some x \<Longrightarrow> manual_of u (sync_upserts auths p) = Some x"
  unfolding sync_upserts_def by (induction auths arbitrary: p) (simp_all add: manual_upsert)

lemma manual_sync:
  assumes "u \<in> a_UID ` set auths" and "manual_of u p = Some x"
  shows "manual_of u (fst (SyncToDir S env auths p w)) = Some x"
proof -
  have "manual_of u ((sync_upserts auths p)\<lparr>p_byUID := filter (\<lambda>(u, e). u \<in> a_UID ` set auths)
      (p_byUID (sync_upserts auths p))\<rparr>) = manual_of u (sync_upserts auths p)"
    using assms(1) by (simp add: manual_of_def get_filter_keys)
  then show ?thesis
    using manual_upserts [OF assms(2)] by (simp add: SyncToDir_def Let_def manual_save)
qed

text \<open>What a stored state says of the bit of an account.\<close>

definition recorded_manual :: "uid \<Rightarrow> stateFile \<Rightarrow> (bool \<times> string) option" where
  "recorded_manual u sf = map_option (\<lambda>a. (sa_ManualDisabled a, sa_ManualReason a)) (gm_get (sf_Accounts sf) u)"

lemma manual_restore:
  assumes "\<And>snap. LoadState (w_store w) = Some (Some snap) \<Longrightarrow>
      wf_file (sn_stateFile snap) \<and> recorded_manual u (sn_stateFile snap) = Some x"
    and "manual_of u p = Some x"
  shows "manual_of u (RestoreFromSnapshot LoadState now w p) = Some x"
proof -
  have "manual_of u (adoptSnapshot now snap q) = Some x" if "LoadState (w_store w) = Some (Some snap)" for snap q
  proof -
    have wf: "gm_wf (sf_Accounts (sn_stateFile snap))" and rec: "recorded_manual u (sn_stateFile snap) = Some x"
      using assms(1) [OF that] by (simp_all add: wf_file_def)
    have "p_byUID (adoptSnapshot now snap q) = p_byUID (applyAccountsLocked now (sf_Accounts (sn_stateFile snap)) (q\<lparr>p_byUID := []\<rparr>))"
      by (simp add: adoptSnapshot_def applySnapshotLocked_def)
    with rec show ?thesis
      by (auto simp: manual_of_def recorded_manual_def get_applyAccounts [OF wf] restore_account_def Let_def)
  qed
  with assms(2) show ?thesis by (auto simp: RestoreFromSnapshot_def split: option.split)
qed

text \<open>The saved state records the bit.\<close>

lemma recorded_overview: "recorded_manual u (stateOverviewLocked now p) = manual_of u p"
  by (cases "gm_get (p_byUID p) u")
    (simp_all add: recorded_manual_def manual_of_def get_overview save_account_def Let_def split: prod.split)

text \<open>
  An event leaves the decision \<open>x\<close> about an account to the operator: it is not the operator's switch for this account,
  no alignment with a directory that has lost the account's file, and no adoption of a mirror that records
  another decision.
\<close>

definition undecided :: "('s \<Rightarrow> snapshot option option) \<Rightarrow> uid \<Rightarrow> bool \<times> string \<Rightarrow> event \<Rightarrow> 's world \<Rightarrow> bool" where
  "undecided LoadState u x ev w = (case ev of
      ECall v c \<Rightarrow> (\<forall>d r. c \<noteq> ESetManualDisabled u d r)
    | EFlush env \<Rightarrow> True
    | ESyncToDir env auths \<Rightarrow> u \<in> a_UID ` set auths
    | ERestoreFromSnapshot now \<Rightarrow>
        (\<forall>snap. LoadState (w_store w) = Some (Some snap) \<longrightarrow> recorded_manual u (sn_stateFile snap) = Some x))"

inductive history ::
  "(snapshot \<Rightarrow> 's \<Rightarrow> 's) \<Rightarrow> ('s \<Rightarrow> snapshot option option) \<Rightarrow> uid \<Rightarrow> bool \<times> string \<Rightarrow>
   pool \<times> 's world \<Rightarrow> pool \<times> 's world \<Rightarrow> bool"
  for SaveState :: "snapshot \<Rightarrow> 's \<Rightarrow> 's" and LoadState :: "'s \<Rightarrow> snapshot option option" and u x s
where
  start: "history SaveState LoadState u x s s"
| event: "history SaveState LoadState u x s (p, w) \<Longrightarrow> undecided LoadState u x ev w \<Longrightarrow>
    step SaveState LoadState ev (p, w) t \<Longrightarrow> history SaveState LoadState u x s t"

inductive_cases step_callE: "step S L (ECall v c) s t"
inductive_cases step_flushE: "step S L (EFlush env) s t"
inductive_cases step_syncE: "step S L (ESyncToDir env auths) s t"
inductive_cases step_restoreE: "step S L (ERestoreFromSnapshot now) s t"

lemma manual_step:
  assumes "step S L ev (p, w) t" and "undecided L u x ev w" and "manual_of u p = Some x"
  shows "manual_of u (fst t) = Some x"
proof (cases ev)
  case (ECall v c)
  with assms(2) have "\<And>d r. c \<noteq> ESetManualDisabled u d r" by (simp add: undecided_def)
  from manual_call [OF this assms(3)] assms(1) [unfolded ECall] show ?thesis by (auto elim: step_callE)
next
  case (EFlush env)
  have "manual_of u (fst (Flush S env p w)) = manual_of u p"
    using manual_cong [of "p\<lparr>p_dirty := False\<rparr>" p] by (simp add: Flush_def manual_save)
  with assms(1) [unfolded EFlush] assms(3) show ?thesis by (auto elim: step_flushE)
next
  case (ESyncToDir env auths)
  with assms manual_sync [of u auths p x S env w] show ?thesis by (auto simp: undecided_def elim: step_syncE)
next
  case (ERestoreFromSnapshot now)
  from assms(1) [unfolded ERestoreFromSnapshot] show ?thesis
  proof (rule step_restoreE)
    fix w' p' assume h: "(p, w) = (p', w')" "t = (RestoreFromSnapshot L now w' p', w')"
      "\<And>snap. L (w_store w') = Some (Some snap) \<Longrightarrow> wf_file (sn_stateFile snap)"
    have "recorded_manual u (sn_stateFile snap) = Some x" if "L (w_store w) = Some (Some snap)" for snap
      using assms(2) that by (simp add: undecided_def ERestoreFromSnapshot)
    with h assms(3) show ?thesis by (auto intro: manual_restore)
  qed
qed

text \<open>
  (C9) An operator's decision sticks. Whatever happens to the pool, method calls, saves, alignments with the directory,
  restores of the mirror: only the operator's own switch for the account, the loss of its credential file or a mirror that
  records another decision changes the manual disable bit or its reason; and every successful save records
  both. While the bit is set the account is never handed out, neither by selection nor by a sticky session.
\<close>

theorem manual_disable_sticks:
  assumes "history SaveState LoadState u (True, reason) (p, w) (q, w')"
    and "manual_of u p = Some (True, reason)" and "0 \<le> now"
  shows "manual_of u q = Some (True, reason) \<and>
    fst (PickByUIDForModel v now u m q) = None \<and>
    \<not> eligible_uid v q now tried m realm u \<and> \<not> fallback_uid v q now tried realm u \<and>
    (p_dirty q \<and> p_stateFp q \<noteq> [] \<and> save_ok env \<longrightarrow>
      (\<exists>sf. w_file (snd (Flush SaveState env q w')) = Holds sf \<and> recorded_manual u sf = Some (True, reason)))"
proof -
  have "manual_of u (fst t) = Some (True, reason)" if "history SaveState LoadState u (True, reason) s t" "s = (p, w)" for s t
    using that
  proof (induction rule: history.induct)
    case start
    then show ?case using assms(2) by simp
  next
    case (event q w ev t)
    then show ?case using manual_step [OF event.hyps(3,2)] by simp
  qed
  from this [OF assms(1) refl] have q: "manual_of u q = Some (True, reason)" by simp
  then obtain e where e: "gm_get (p_byUID q) u = Some e" "e_manualDisabled e"
    by (auto simp: manual_of_def)
  then have "\<not> healthyForModel e now m" by (simp add: healthyForModel_iff healthy_iff)
  with q e show ?thesis
    by (auto simp: PickByUIDForModel_def eligible_uid_def fallback_uid_def Flush_ok recorded_overview)
qed

text \<open>The operator switches an account off; it is revived, succeeds and has credits, the state is saved, the directory scanned.\<close>

definition switched_off :: pool where
  "switched_off = snd (SetManualDisabled ''a'' True ''ops'' saved_pool)"

definition revived :: pool where
  "revived = pool_event demo_vars (ENoteSuccess 5 ''a'') (pool_event demo_vars (EReviveDisabled ''a'') switched_off)"

theorem manual_disable_sticks_witness:
  "fst (PickByUIDForModel demo_vars Hour ''a'' ''m'' (fst (SyncToDir cell_save (good_save 7) [named_auth ''a'']
     (fst (Flush cell_save (good_save 6) revived empty_world)) (snd (Flush cell_save (good_save 6) revived empty_world))))) = None"
proof -
  let ?x = "(True, ''ops'')"
  have m: "manual_of ''a'' switched_off = Some ?x" by code_simp
  have "history cell_save cell_load ''a'' ?x (switched_off, empty_world) (switched_off, empty_world)" by (rule history.start)
  from history.event [OF this _ step.call, of demo_vars "EReviveDisabled ''a''"]
  have "history cell_save cell_load ''a'' ?x (switched_off, empty_world)
      (pool_event demo_vars (EReviveDisabled ''a'') switched_off, empty_world)" by (simp add: undecided_def)
  from history.event [OF this _ step.call, of demo_vars "ENoteSuccess 5 ''a''"]
  have "history cell_save cell_load ''a'' ?x (switched_off, empty_world) (revived, empty_world)"
    by (simp add: undecided_def revived_def)
  from history.event [OF this _ step.flush, of "good_save 6"]
  have "history cell_save cell_load ''a'' ?x (switched_off, empty_world) (Flush cell_save (good_save 6) revived empty_world)"
    by (simp add: undecided_def)
  then have "history cell_save cell_load ''a'' ?x (switched_off, empty_world)
      (fst (Flush cell_save (good_save 6) revived empty_world), snd (Flush cell_save (good_save 6) revived empty_world))" by simp
  from history.event [OF this _ step.sync, of "good_save 7" "[named_auth ''a'']"]
  have "history cell_save cell_load ''a'' ?x (switched_off, empty_world)
      (SyncToDir cell_save (good_save 7) [named_auth ''a'']
        (fst (Flush cell_save (good_save 6) revived empty_world)) (snd (Flush cell_save (good_save 6) revived empty_world)))"
    by (simp add: undecided_def named_auth_def)
  then have "history cell_save cell_load ''a'' ?x (switched_off, empty_world)
      (fst (SyncToDir cell_save (good_save 7) [named_auth ''a'']
        (fst (Flush cell_save (good_save 6) revived empty_world)) (snd (Flush cell_save (good_save 6) revived empty_world))),
       snd (SyncToDir cell_save (good_save 7) [named_auth ''a'']
        (fst (Flush cell_save (good_save 6) revived empty_world)) (snd (Flush cell_save (good_save 6) revived empty_world))))" by simp
  from manual_disable_sticks [OF this m, of Hour] show ?thesis by (simp add: time_units)
qed

end
