(* ===== verification/Classify.thy ===== *)
theory Classify
  imports Auth
begin

text \<open>
  The classification of upstream failures, after the first part of
  \<^verbatim>\<open>src/internal/upstream/client.go\<close>: the error kinds, the marker tables with their three ways of
  matching, the predicates on special answers, the wait that response headers announce, and
  \<open>Classify\<close> itself.

  A body is a string of bytes; Chinese markers are their UTF-8 bytes; case folding is ASCII. The
  decoding of a JSON body is an argument (\<open>Unmarshal\<close>, from the text to the members of the root
  object, \<open>None\<close> for text that is not a JSON object), and so is \<open>fmt.Sprint\<close> of a JSON number.
\<close>

datatype json =
    JNull
  | JBool bool
  | JNum rat
  | JStr string
  | JArr "json list"
  | JObj "(string \<times> json) list"

datatype ErrKind =
    ErrNone
  | ErrHardCredit
  | ErrSoftRate
  | ErrSessionDead
  | ErrNotFound
  | ErrServer
  | ErrContentBlocked
  | ErrBadParams
  | ErrAccountFault
  | ErrModelBlocked
  | ErrWafBlock
  | ErrPromptTooLong
  | ErrClient

definition ErrKind_String :: "ErrKind \<Rightarrow> string" where
  "ErrKind_String k = (case k of
      ErrHardCredit \<Rightarrow> ''hard_credit''
    | ErrSoftRate \<Rightarrow> ''soft_rate''
    | ErrSessionDead \<Rightarrow> ''session_dead''
    | ErrNotFound \<Rightarrow> ''not_found''
    | ErrServer \<Rightarrow> ''server''
    | ErrContentBlocked \<Rightarrow> ''content_blocked''
    | ErrBadParams \<Rightarrow> ''bad_params''
    | ErrAccountFault \<Rightarrow> ''account_fault''
    | ErrModelBlocked \<Rightarrow> ''model_blocked''
    | ErrWafBlock \<Rightarrow> ''waf_block''
    | ErrPromptTooLong \<Rightarrow> ''prompt_too_long''
    | ErrClient \<Rightarrow> ''client''
    | ErrNone \<Rightarrow> ''none'')"

datatype matchMode = matchFold | matchExact | matchLower

record errorRule =
  er_kind :: ErrKind
  er_mode :: matchMode
  er_patterns :: "string list"

definition matchPattern :: "string \<Rightarrow> matchMode \<Rightarrow> string \<Rightarrow> string \<Rightarrow> bool" where
  "matchPattern p mode body lower = (case mode of
      matchFold \<Rightarrow> Contains lower (ToLower p) \<or> Contains body p
    | matchExact \<Rightarrow> Contains body p
    | matchLower \<Rightarrow> Contains lower p)"

definition hit :: "errorRule \<Rightarrow> string \<Rightarrow> string \<Rightarrow> bool" where
  "hit r body lower = list_ex (\<lambda>p. matchPattern p (er_mode r) body lower) (er_patterns r)"

section \<open>The marker tables\<close>

definition hardRule :: errorRule where
  "hardRule = \<lparr>er_kind = ErrHardCredit, er_mode = matchFold, er_patterns =
     [''insufficient credit'',
      ''no credit'',
      ''credit exhausted'',
      ''credits exhausted'',
      ''out of credit'',
      ''quota exceeded'',
      ''quota exhaust'',
      ''payment required'',
      ''credit not enough'',
      ''not enough credit'',
      [CHR 0xE7, CHR 0xA7, CHR 0xAF, CHR 0xE5, CHR 0x88, CHR 0x86, CHR 0xE4, CHR 0xB8, CHR 0x8D, CHR 0xE8, CHR 0xB6, CHR 0xB3],
      [CHR 0xE9, CHR 0xA2, CHR 0x9D, CHR 0xE5, CHR 0xBA, CHR 0xA6, CHR 0xE4, CHR 0xB8, CHR 0x8D, CHR 0xE8, CHR 0xB6, CHR 0xB3],
      [CHR 0xE4, CHR 0xBD, CHR 0x99, CHR 0xE9, CHR 0xA2, CHR 0x9D, CHR 0xE4, CHR 0xB8, CHR 0x8D, CHR 0xE8, CHR 0xB6, CHR 0xB3],
      [CHR 0xE7, CHR 0xA7, CHR 0xAF, CHR 0xE5, CHR 0x88, CHR 0x86, CHR 0xE7, CHR 0x94, CHR 0xA8, CHR 0xE5, CHR 0xAE, CHR 0x8C],
      [CHR 0xE9, CHR 0xA2, CHR 0x9D, CHR 0xE5, CHR 0xBA, CHR 0xA6, CHR 0xE7, CHR 0x94, CHR 0xA8, CHR 0xE5, CHR 0xB0, CHR 0xBD],
      [CHR 0xE6, CHR 0xB2, CHR 0xA1, CHR 0xE6, CHR 0x9C, CHR 0x89, CHR 0xE7, CHR 0xA7, CHR 0xAF, CHR 0xE5, CHR 0x88, CHR 0x86]]\<rparr>"

definition softRateRule :: errorRule where
  "softRateRule = \<lparr>er_kind = ErrSoftRate, er_mode = matchFold, er_patterns =
     [''rate limit'',
      ''rate-limiting'',
      ''rate-limited'',
      ''too many requests'',
      ''too many'',
      ''usage limit'',
      [CHR 0xE8, CHR 0xAF, CHR 0xB7, CHR 0xE6, CHR 0xB1, CHR 0x82, CHR 0xE8, CHR 0xBF, CHR 0x87, CHR 0xE4, CHR 0xBA, CHR 0x8E, CHR 0xE9, CHR 0xA2, CHR 0x91, CHR 0xE7, CHR 0xB9, CHR 0x81],
      [CHR 0xE9, CHR 0x99, CHR 0x90, CHR 0xE6, CHR 0xB5, CHR 0x81]]\<rparr>"

definition sessionDeadRule :: errorRule where
  "sessionDeadRule = \<lparr>er_kind = ErrSessionDead, er_mode = matchExact, er_patterns =
     [''Offline user session not found'',
      ''12153'']\<rparr>"

definition contentBlockedRule :: errorRule where
  "contentBlockedRule = \<lparr>er_kind = ErrContentBlocked, er_mode = matchLower, er_patterns =
     [''blocked by security policy'',
      ''unapproved channel'',
      ''illegal api invocation'']\<rparr>"

definition badParamsRule :: errorRule where
  "badParamsRule = \<lparr>er_kind = ErrBadParams, er_mode = matchExact, er_patterns =
     [''Unmarshal chat params failed'',
      ''\"code\":11101'']\<rparr>"

definition alreadyCheckinRule :: errorRule where
  "alreadyCheckinRule = \<lparr>er_kind = ErrNone, er_mode = matchFold, er_patterns =
     [[CHR 0xE5, CHR 0xB7, CHR 0xB2, CHR 0xE7, CHR 0xAD, CHR 0xBE, CHR 0xE5, CHR 0x88, CHR 0xB0],
      ''already'']\<rparr>"

definition accountFaultRule :: errorRule where
  "accountFaultRule = \<lparr>er_kind = ErrAccountFault, er_mode = matchFold, er_patterns =
     [''request illegal'',
      ''trial not activated'',
      ''trial version is not yet activated'']\<rparr>"

definition promptTooLongRule :: errorRule where
  "promptTooLongRule = \<lparr>er_kind = ErrPromptTooLong, er_mode = matchFold, er_patterns =
     [''\"code\":11115'',
      ''\"code\":\"11115\"'',
      ''prompt is too long'']\<rparr>"

section \<open>Status codes\<close>

definition StatusBadRequest :: int where "StatusBadRequest = 400"
definition StatusPaymentRequired :: int where "StatusPaymentRequired = 402"
definition StatusForbidden :: int where "StatusForbidden = 403"
definition StatusNotFound :: int where "StatusNotFound = 404"
definition StatusRequestEntityTooLarge :: int where "StatusRequestEntityTooLarge = 413"
definition StatusTooManyRequests :: int where "StatusTooManyRequests = 429"

lemmas status_defs = StatusBadRequest_def StatusPaymentRequired_def StatusForbidden_def
  StatusNotFound_def StatusRequestEntityTooLarge_def StatusTooManyRequests_def

definition isPromptTooLongStatus :: "int \<Rightarrow> bool" where
  "isPromptTooLongStatus status =
     (status = StatusBadRequest \<or> status = StatusNotFound \<or> status = StatusRequestEntityTooLarge)"

section \<open>Special answers\<close>

text \<open>
  \<open>"code"\\s*:\\s*"?6004"?\<close> somewhere in the body. White space in the expression is RE2's, and what
  follows it cannot itself be white space, so that the greedy match is the only one.
\<close>

definition modelRateLimitCode :: string where "modelRateLimitCode = ''6004''"

definition is_re_space :: "char \<Rightarrow> bool" where
  "is_re_space c = (c \<in> {CHR 0x20, CHR 0x09, CHR 0x0A, CHR 0x0C, CHR 0x0D})"

definition match_code_at :: "string \<Rightarrow> string \<Rightarrow> bool" where
  "match_code_at code s =
     (let key = ''\"code\"'' in
      prefix key s \<and>
      (let s1 = dropWhile is_re_space (drop (length key) s) in
       s1 \<noteq> [] \<and> hd s1 = CHR '':'' \<and>
       (let s2 = dropWhile is_re_space (tl s1);
            s3 = (if s2 \<noteq> [] \<and> hd s2 = CHR 0x22 then tl s2 else s2)
        in prefix code s3)))"

fun search :: "(string \<Rightarrow> bool) \<Rightarrow> string \<Rightarrow> bool" where
  "search P [] = P []"
| "search P (c # cs) = (P (c # cs) \<or> search P cs)"

definition IsModelRateLimit :: "string \<Rightarrow> bool" where
  "IsModelRateLimit body = search (match_code_at modelRateLimitCode) body"

definition modelBlockCode :: string where "modelBlockCode = ''11102''"
definition modelBlockMsgMarker :: string where "modelBlockMsgMarker = ''service info not found''"

text \<open>\<open>strings.TrimSpace(fmt.Sprint(v))\<close> for a decoded value; composite values print in Go syntax,
  which starts with \<open>map[\<close> or \<open>[\<close> and is given by the argument \<open>SprintAny\<close>.\<close>

definition Sprint_json :: "(json \<Rightarrow> string) \<Rightarrow> json \<Rightarrow> string" where
  "Sprint_json SprintAny v = (case v of
      JStr s \<Rightarrow> s
    | JBool b \<Rightarrow> (if b then ''true'' else ''false'')
    | _ \<Rightarrow> SprintAny v)"

definition first_code :: "(json \<Rightarrow> string) \<Rightarrow> (string \<times> json) list \<Rightarrow> string \<Rightarrow> string" where
  "first_code SprintAny node code =
     foldl (\<lambda>code key. case gm_get node key of
         None \<Rightarrow> code
       | Some v \<Rightarrow> if v \<noteq> JNull \<and> code = [] then TrimSpace (Sprint_json SprintAny v) else code)
       code [''code'', ''errCode'', ''error_code'']"

definition first_msg :: "(string \<times> json) list \<Rightarrow> string \<Rightarrow> string" where
  "first_msg node msg =
     foldl (\<lambda>msg key. case gm_get node key of
         Some (JStr s) \<Rightarrow> if s \<noteq> [] \<and> msg = [] then TrimSpace s else msg
       | _ \<Rightarrow> msg)
       msg [''msg'', ''message'']"

record json_lib =
  Unmarshal :: "string \<Rightarrow> (string \<times> json) list option"
  SprintAny :: "json \<Rightarrow> string"

definition error_nodes :: "(string \<times> json) list \<Rightarrow> (string \<times> json) list list" where
  "error_nodes members = (case gm_get members ''error'' of
      Some (JObj inner) \<Rightarrow> [members, inner]
    | _ \<Rightarrow> [members])"

definition IsModelBlocked :: "json_lib \<Rightarrow> int \<Rightarrow> string \<Rightarrow> bool" where
  "IsModelBlocked lib status body =
     (if (status \<noteq> StatusBadRequest \<and> status \<noteq> StatusNotFound) \<or> body = [] then False
      else if \<not> Contains body modelBlockCode \<and> \<not> Contains (ToLower body) modelBlockMsgMarker
      then False
      else case Unmarshal lib body of
        None \<Rightarrow> False
      | Some members \<Rightarrow>
          let nodes = error_nodes members;
              code = foldl (\<lambda>c node. first_code (SprintAny lib) node c) [] nodes;
              msg = foldl (\<lambda>m node. first_msg node m) [] nodes
          in if code = modelBlockCode then True
             else Contains (ToLower msg) modelBlockMsgMarker)"

definition hasBusinessEnvelope :: "string \<Rightarrow> bool" where
  "hasBusinessEnvelope body = (Contains body ''\"code\":'' \<or> Contains body ''\"msg\":'')"

definition IsWafBlocked :: "int \<Rightarrow> string \<Rightarrow> bool" where
  "IsWafBlocked status body = (status = StatusForbidden \<and> \<not> hasBusinessEnvelope body)"

section \<open>The announced wait\<close>

definition retryAfterHeaderCandidates :: "string list" where
  "retryAfterHeaderCandidates = [''Retry-After'', ''Retry-After-Ms'', ''X-Ratelimit-Reset'']"

definition retryAfterSanity :: duration where "retryAfterSanity = 2 * Hour"

definition is_digit :: "char \<Rightarrow> bool" where
  "is_digit c = (CHR ''0'' \<le> c \<and> c \<le> CHR ''9'')"

definition isAllDigits :: "string \<Rightarrow> bool" where
  "isAllDigits s = (s \<noteq> [] \<and> list_all is_digit s)"

definition digits_value :: "string \<Rightarrow> int" where
  "digits_value v = foldl (\<lambda>n c. wrap64 (n * 10 + (int (of_char c) - 48))) 0 v"

text \<open>\<open>time.Unix(sec, 0)\<close>, and \<open>time.Until\<close> of it at the reading \<open>now\<close>.\<close>

definition unix_time :: "int \<Rightarrow> gtime" where
  "unix_time sec = (sec + 62135596800) * Second"

definition parseRetryNumber :: "gtime \<Rightarrow> string \<Rightarrow> string \<Rightarrow> duration option" where
  "parseRetryNumber now v headerName =
     (if length v > 16 then None
      else let n = digits_value v in
        if headerName = ''Retry-After'' then Some (wrap64 (n * Second))
        else if headerName = ''Retry-After-Ms'' then Some (wrap64 (n * Millisecond))
        else let sec = (if length v \<ge> 12 then n div 1000 else n)
             in Some (Sub (unix_time sec) now))"

fun try_headers :: "gtime \<Rightarrow> (string \<Rightarrow> string) \<Rightarrow> string list \<Rightarrow> duration option" where
  "try_headers now h [] = None"
| "try_headers now h (name # names) =
     (let v = TrimSpace (h name) in
      if v = [] then try_headers now h names
      else if \<not> isAllDigits v then try_headers now h names
      else case parseRetryNumber now v name of
        None \<Rightarrow> try_headers now h names
      | Some n \<Rightarrow>
          if n \<le> 0 \<or> n > retryAfterSanity then try_headers now h names else Some n)"

definition ParseRetryAfter :: "gtime \<Rightarrow> (string \<Rightarrow> string) \<Rightarrow> duration option" where
  "ParseRetryAfter now h = try_headers now h retryAfterHeaderCandidates"

section \<open>Classification\<close>

definition Classify :: "json_lib \<Rightarrow> int \<Rightarrow> string \<Rightarrow> ErrKind" where
  "Classify lib status body =
     (if IsModelBlocked lib status body then ErrModelBlocked
      else if status = StatusPaymentRequired then ErrHardCredit
      else let lower = ToLower body in
        if hit sessionDeadRule body lower then ErrSessionDead
        else if hit accountFaultRule body lower then ErrAccountFault
        else if status = StatusTooManyRequests then ErrSoftRate
        else if hit hardRule body lower then ErrHardCredit
        else if hit softRateRule body lower then ErrSoftRate
        else if isPromptTooLongStatus status \<and> hit promptTooLongRule body lower
        then ErrPromptTooLong
        else if status = StatusNotFound then ErrNotFound
        else if status \<ge> 500 then ErrServer
        else if IsWafBlocked status body then ErrWafBlock
        else if status \<ge> 400 then
          (if hit contentBlockedRule body lower then ErrContentBlocked
           else if hit badParamsRule body lower then ErrBadParams
           else ErrClient)
        else ErrNone)"

section \<open>The plugin's own credit test\<close>

text \<open>After \<^verbatim>\<open>src/plugin/policy.go\<close>.\<close>

definition hardCreditMarkers :: "string list" where
  "hardCreditMarkers =
     [''insufficient credit'',
      ''insufficient credits'',
      ''no credit'',
      ''no credits'',
      ''credit exhausted'',
      ''credits exhausted'',
      ''out of credit'',
      ''out of credits'',
      ''quota exceeded'',
      ''quota exhaust'',
      ''payment required'',
      [CHR 0xE7, CHR 0xA7, CHR 0xAF, CHR 0xE5, CHR 0x88, CHR 0x86, CHR 0xE4, CHR 0xB8, CHR 0x8D, CHR 0xE8, CHR 0xB6, CHR 0xB3],
      [CHR 0xE9, CHR 0xA2, CHR 0x9D, CHR 0xE5, CHR 0xBA, CHR 0xA6, CHR 0xE4, CHR 0xB8, CHR 0x8D, CHR 0xE8, CHR 0xB6, CHR 0xB3],
      [CHR 0xE4, CHR 0xBD, CHR 0x99, CHR 0xE9, CHR 0xA2, CHR 0x9D, CHR 0xE4, CHR 0xB8, CHR 0x8D, CHR 0xE8, CHR 0xB6, CHR 0xB3],
      [CHR 0xE7, CHR 0xA7, CHR 0xAF, CHR 0xE5, CHR 0x88, CHR 0x86, CHR 0xE7, CHR 0x94, CHR 0xA8, CHR 0xE5, CHR 0xAE, CHR 0x8C],
      [CHR 0xE9, CHR 0xA2, CHR 0x9D, CHR 0xE5, CHR 0xBA, CHR 0xA6, CHR 0xE7, CHR 0x94, CHR 0xA8, CHR 0xE5, CHR 0xB0, CHR 0xBD],
      [CHR 0xE9, CHR 0xA2, CHR 0x9D, CHR 0xE5, CHR 0xBA, CHR 0xA6, CHR 0xE5, CHR 0xB7, CHR 0xB2, CHR 0xE7, CHR 0x94, CHR 0xA8, CHR 0xE5, CHR 0xB0, CHR 0xBD],
      [CHR 0xE6, CHR 0xB2, CHR 0xA1, CHR 0xE6, CHR 0x9C, CHR 0x89, CHR 0xE7, CHR 0xA7, CHR 0xAF, CHR 0xE5, CHR 0x88, CHR 0x86],
      ''credit not enough'',
      ''not enough credit'']"

definition isHardCreditError :: "int \<Rightarrow> string \<Rightarrow> bool" where
  "isHardCreditError status body =
     (if status = 402 then True
      else let lower = ToLower body in
        if list_ex (\<lambda>m. Contains lower (ToLower m)) hardCreditMarkers then True
        else list_ex (\<lambda>m. Contains body m) hardCreditMarkers)"

definition isSoftRateLimit :: "int \<Rightarrow> string \<Rightarrow> bool" where
  "isSoftRateLimit status body =
     (if isHardCreditError status body then False
      else if status = 429 then True
      else let lower = ToLower body in
        Contains lower ''rate limit'' \<or> Contains lower ''too many requests'' \<or>
        Contains lower ''throttl'')"

end
