(* ===== verification/Classify_Props.thy ===== *)
theory Classify_Props
  imports Classify
begin

text \<open>
  The properties of the failure classification: the precedence of the status codes, when an answer
  counts as a success, agreement with the plugin's own credit test, and the bounds of the wait that
  headers announce.
\<close>

text \<open>A library that decodes nothing, for concrete runs on bodies that are not JSON.\<close>

definition no_json :: json_lib where
  "no_json = \<lparr>Unmarshal = (\<lambda>s. None), SprintAny = (\<lambda>v. [])\<rparr>"

lemma blocked_status:
  "IsModelBlocked lib status body \<Longrightarrow> status = 400 \<or> status = 404"
  by (auto simp: IsModelBlocked_def status_defs split: if_splits)

text \<open>
  Status codes take precedence over wording. A 402 is always an exhausted balance; a 429 is
  never one, whatever the body says about quotas: it is a soft limit unless the body names a dead
  session or a fault of the account; and an answer below 400 is classified by its body alone.
\<close>

theorem classify_precedence:
  "Classify lib 402 body = ErrHardCredit \<and>
   Classify lib 429 body =
     (if hit sessionDeadRule body (ToLower body) then ErrSessionDead
      else if hit accountFaultRule body (ToLower body) then ErrAccountFault else ErrSoftRate) \<and>
   (status < 400 \<longrightarrow> Classify lib status body = Classify lib' 200 body)"
proof -
  have "\<not> IsModelBlocked l s body" if "s \<noteq> 400" "s \<noteq> 404" for l s
    using blocked_status that by blast
  then show ?thesis
    by (auto simp: Classify_def status_defs Let_def isPromptTooLongStatus_def IsWafBlocked_def)
qed

theorem classify_precedence_witness:
  "Classify no_json 302 ''quota exceeded'' = Classify no_json 200 ''quota exceeded'' \<and>
   Classify no_json 429 ''quota exceeded'' = ErrSoftRate"
proof -
  have "Classify no_json 302 ''quota exceeded'' = Classify no_json 200 ''quota exceeded''"
    using classify_precedence [of no_json "''quota exceeded''" 302 no_json] by simp
  moreover have "Classify no_json 429 ''quota exceeded'' = ErrSoftRate" by code_simp
  ultimately show ?thesis by simp
qed

text \<open>
  Nothing is lost: an answer counts as a success exactly if its status is below 400 and its
  body carries none of the four families of failure markers (dead session, account fault, balance,
  limit). Every answer of status 400 and above is some kind of failure.
\<close>

theorem classify_success_iff:
  "Classify lib status body = ErrNone \<longleftrightarrow> status < 400 \<and>
     \<not> hit sessionDeadRule body (ToLower body) \<and> \<not> hit accountFaultRule body (ToLower body) \<and>
     \<not> hit hardRule body (ToLower body) \<and> \<not> hit softRateRule body (ToLower body)"
  using blocked_status [of lib status body]
  by (auto simp: Classify_def status_defs Let_def isPromptTooLongStatus_def IsWafBlocked_def)

lemma hard_patterns_covered: "set (er_patterns hardRule) \<subseteq> set hardCreditMarkers"
proof -
  have "list_all (\<lambda>p. p \<in> set hardCreditMarkers) (er_patterns hardRule)" by code_simp
  then show ?thesis by (auto simp: list_all_iff)
qed

lemma hard_mode: "er_mode hardRule = matchFold"
  by (simp add: hardRule_def)

lemma hard_hit_policy:
  "hit hardRule body (ToLower body) \<Longrightarrow> isHardCreditError status body"
  using hard_patterns_covered
  by (auto simp: hit_def hard_mode matchPattern_def isHardCreditError_def list_ex_iff Let_def)

text \<open>
  The two credit tests agree where it matters: whatever the upstream client classifies as an
  exhausted balance, the plugin's lifecycle policy treats as one too, and then it never counts as a
  mere soft limit. The converse fails for a 429 with quota wording, which the policy treats as an
  exhausted balance although the client classifies it as a soft limit.
\<close>

theorem credit_tests_agree:
  "(Classify lib status body = ErrHardCredit \<longrightarrow>
      isHardCreditError status body \<and> \<not> isSoftRateLimit status body) \<and>
   Classify lib 429 ''quota exceeded'' = ErrSoftRate \<and> isHardCreditError 429 ''quota exceeded''"
proof -
  have "isHardCreditError status body" if "Classify lib status body = ErrHardCredit"
    using that hard_hit_policy [of body status]
    by (auto simp: Classify_def status_defs Let_def isHardCreditError_def split: if_splits)
  moreover have "Classify lib 429 ''quota exceeded'' = ErrSoftRate"
  proof -
    have "\<not> hit sessionDeadRule ''quota exceeded'' (ToLower ''quota exceeded'')"
      "\<not> hit accountFaultRule ''quota exceeded'' (ToLower ''quota exceeded'')" by code_simp+
    then show ?thesis
      using blocked_status [of lib 429] by (auto simp: Classify_def status_defs Let_def)
  qed
  moreover have "isHardCreditError 429 ''quota exceeded''" by code_simp
  ultimately show ?thesis by (simp add: isSoftRateLimit_def)
qed

theorem credit_tests_agree_witness: "isHardCreditError 200 ''Out of Credits''"
proof -
  have "Classify no_json 200 ''Out of Credits'' = ErrHardCredit" by code_simp
  then show ?thesis using credit_tests_agree [of no_json 200 "''Out of Credits''"] by simp
qed

section \<open>The announced wait\<close>

lemma try_headers_range: "try_headers now h names = Some d \<Longrightarrow> 0 < d \<and> d \<le> retryAfterSanity"
  by (induction names) (auto simp: Let_def split: if_splits option.splits)

text \<open>
  (C25) A wait that is taken from the headers is positive and at most two hours, whatever the
  headers contain. But the bound is checked after a multiplication that wraps at 64 bits: a
  \<open>Retry-After\<close> of 18446744074 seconds, some 585 years, is taken for 290 milliseconds.
\<close>

theorem retry_after_bounds:
  "(ParseRetryAfter now h = Some d \<longrightarrow> 0 < d \<and> d \<le> 2 * Hour) \<and>
   parseRetryNumber now ''18446744074'' ''Retry-After'' = Some 290448384 \<and>
   ParseRetryAfter now (\<lambda>n. if n = ''Retry-After'' then ''18446744074'' else []) = Some 290448384"
proof -
  have "parseRetryNumber now ''18446744074'' ''Retry-After'' = Some 290448384"
  proof -
    have "digits_value ''18446744074'' = 18446744074" by code_simp
    then show ?thesis by (simp add: parseRetryNumber_def wrap64_def time_units)
  qed
  moreover have "TrimSpace ''18446744074'' = ''18446744074''" "isAllDigits ''18446744074''"
    by code_simp+
  moreover have "retryAfterSanity = 7200000000000" by (simp add: retryAfterSanity_def time_units)
  ultimately show ?thesis
    using try_headers_range [of now h retryAfterHeaderCandidates d]
    by (simp add: ParseRetryAfter_def retryAfterHeaderCandidates_def retryAfterSanity_def time_units)
qed

theorem retry_after_bounds_witness:
  "ParseRetryAfter 0 (\<lambda>n. if n = ''Retry-After'' then ''30'' else []) = Some (30 * Second) \<and>
   0 < 30 * Second"
proof -
  have "ParseRetryAfter 0 (\<lambda>n. if n = ''Retry-After'' then ''30'' else []) = Some (30 * Second)"
    by code_simp
  with retry_after_bounds [of 0 "\<lambda>n. if n = ''Retry-After'' then ''30'' else []" "30 * Second"]
  show ?thesis by blast
qed

end
