(* ===== verification/Policy.thy ===== *)
theory Policy
  imports Classify
begin

text \<open>
  Credits and the panel's selected account, after \<^verbatim>\<open>src/plugin/policy.go\<close>,
  \<^verbatim>\<open>src/plugin/active_auth.go\<close>, the credit summary of \<^verbatim>\<open>management.go\<close> and
  \<open>isCreditsExhausted\<close> of \<^verbatim>\<open>billing.go\<close>. The package variable \<open>activeAuthID\<close> is state that the
  operations pass along; a nil credit summary is \<open>None\<close>.
\<close>

record packageSummary =
  ps_Name :: string
  ps_Remain :: int
  ps_Used :: int
  ps_Size :: int
  ps_CycleStart :: string
  ps_CycleEnd :: string

record creditsSummary =
  cs_TotalRemain :: int
  cs_TotalUsed :: int
  cs_TotalSize :: int
  cs_PackCount :: int
  cs_FetchedAt :: string
  cs_Packages :: "packageSummary list"

definition isCreditsExhausted :: "creditsSummary option \<Rightarrow> bool" where
  "isCreditsExhausted cr = (case cr of
      None \<Rightarrow> False
    | Some c \<Rightarrow>
        if cs_TotalRemain c > 0 then False
        else if cs_TotalUsed c > 0 \<or> cs_TotalSize c > 0 then True
        else length (cs_Packages c) > 0)"

section \<open>The lifecycle policy\<close>

datatype lifecycleAction = lifecycleNone | lifecycleDisable | lifecycleDelete | lifecycleReenable

definition lifecycleAction_String :: "lifecycleAction \<Rightarrow> string" where
  "lifecycleAction_String x = (case x of
      lifecycleDisable \<Rightarrow> ''disable''
    | lifecycleDelete \<Rightarrow> ''delete''
    | lifecycleReenable \<Rightarrow> ''reenable''
    | lifecycleNone \<Rightarrow> ''none'')"

definition shouldActOnCredits :: "creditsSummary option \<Rightarrow> bool" where
  "shouldActOnCredits cr = isCreditsExhausted cr"

definition lifecycleActionFor :: "string \<Rightarrow> creditsSummary option \<Rightarrow> lifecycleAction" where
  "lifecycleActionFor region cr =
     (if \<not> shouldActOnCredits cr then lifecycleNone
      else if region = ''global'' then lifecycleDelete
      else lifecycleDisable)"

definition shouldReenableCN :: "bool \<Rightarrow> creditsSummary option \<Rightarrow> bool" where
  "shouldReenableCN disabled cr =
     (if \<not> disabled then False
      else case cr of
        None \<Rightarrow> False
      | Some c \<Rightarrow> if isCreditsExhausted cr then False else cs_TotalRemain c > 0)"

section \<open>The selected account\<close>

definition getActiveAuthID :: "string \<Rightarrow> string" where
  "getActiveAuthID active = TrimSpace active"

definition setActiveAuthID :: "string \<Rightarrow> string \<Rightarrow> string" where
  "setActiveAuthID i active = TrimSpace i"

definition clearActiveAuthIfMatch :: "string \<Rightarrow> string \<Rightarrow> string" where
  "clearActiveAuthIfMatch i active =
     (let i = TrimSpace i in
      if i = [] then active else if active = i then [] else active)"

record activeAuthCandidate =
  ac_ID :: string
  ac_Disabled :: bool
  ac_Exhausted :: bool

text \<open>The map that the loop over the candidates builds: a later entry replaces an earlier one.\<close>

definition byID :: "activeAuthCandidate list \<Rightarrow> (string, activeAuthCandidate) gomap" where
  "byID cands = foldl (\<lambda>m c. gm_put (ac_ID c) c m) [] cands"

definition ac_ready :: "activeAuthCandidate \<Rightarrow> bool" where
  "ac_ready c = (\<not> ac_Disabled c \<and> \<not> ac_Exhausted c)"

text \<open>The first candidate that is neither disabled nor exhausted, its ID or the empty string.\<close>

definition first_ready :: "activeAuthCandidate list \<Rightarrow> string" where
  "first_ready cands = (case find ac_ready cands of None \<Rightarrow> [] | Some c \<Rightarrow> ac_ID c)"

definition pickActiveAuth :: "activeAuthCandidate list \<Rightarrow> string \<Rightarrow> string \<times> string" where
  "pickActiveAuth cands active =
     (if cands = [] then ([], active)
      else let m = byID cands; cur = getActiveAuthID active in
        if cur \<noteq> [] \<and> (case gm_get m cur of None \<Rightarrow> False
             | Some c \<Rightarrow> \<not> ac_Disabled c \<and> \<not> ac_Exhausted c)
        then (cur, active)
        else let next = first_ready cands in
          if next = [] \<and> cur \<noteq> [] \<and> gm_get m cur \<noteq> None then (cur, active)
          else let next = (if next = [] then ac_ID (hd cands) else next) in
            (next, if next \<noteq> [] \<and> next \<noteq> cur then setActiveAuthID next active else active))"

text \<open>
  \<open>ensureDefaultActiveAuth\<close> sees accounts as the dashboard lists them; only the identifier and the
  two flags matter, so that the same view serves for both functions.
\<close>

definition first_or :: "(activeAuthCandidate \<Rightarrow> bool) \<Rightarrow> activeAuthCandidate list \<Rightarrow> string" where
  "first_or P xs = foldl (\<lambda>r x. if P x \<and> r = [] then ac_ID x else r) [] xs"

definition ensureDefaultActiveAuth :: "activeAuthCandidate list \<Rightarrow> string \<Rightarrow> string \<times> string" where
  "ensureDefaultActiveAuth accounts active =
     (let cur = getActiveAuthID active; live = byID accounts in
      if cur \<noteq> [] \<and> (case gm_get live cur of None \<Rightarrow> False
           | Some x \<Rightarrow> \<not> ac_Disabled x \<and> \<not> ac_Exhausted x)
      then (cur, active)
      else let firstAny = first_or (\<lambda>x. True) accounts;
               firstOK = first_or (\<lambda>x. \<not> ac_Disabled x) accounts;
               firstReady = first_or (\<lambda>x. \<not> ac_Disabled x \<and> \<not> ac_Exhausted x) accounts
           in if firstReady = [] \<and> cur \<noteq> [] \<and>
                 (case gm_get live cur of None \<Rightarrow> False | Some x \<Rightarrow> \<not> ac_Disabled x)
              then (cur, active)
              else let next = (if firstReady = [] then firstOK else firstReady);
                       next = (if next = [] then firstAny else next)
                   in (next, if next \<noteq> [] \<and> next \<noteq> cur then setActiveAuthID next active
                             else active))"

section \<open>Facts\<close>

lemma get_byID: "gm_get (byID cands) i = find (\<lambda>c. ac_ID c = i) (rev cands)"
proof (induction cands rule: rev_induct)
  case (snoc c cands)
  have "byID (cands @ [c]) = gm_put (ac_ID c) c (byID cands)" by (simp add: byID_def)
  with snoc show ?case by simp
qed (simp add: byID_def)

lemma get_byID_in: "gm_get (byID cands) i = Some c \<Longrightarrow> c \<in> set cands \<and> ac_ID c = i"
proof -
  assume "gm_get (byID cands) i = Some c"
  then obtain n where "n < length (rev cands)" "ac_ID (rev cands ! n) = i" "c = rev cands ! n"
    by (auto simp: get_byID find_Some_iff)
  then show ?thesis using nth_mem [of n "rev cands"] by simp
qed

lemma get_byID_None: "gm_get (byID cands) i = None \<longleftrightarrow> i \<notin> ac_ID ` set cands"
  by (auto simp: get_byID find_None_iff)

lemma find_filter_hd: "find P xs = (case filter P xs of [] \<Rightarrow> None | x # ys \<Rightarrow> Some x)"
  by (induction xs) auto

lemma first_ready_in:
  assumes "first_ready cands \<noteq> []"
  shows "\<exists>c \<in> set cands. ac_ID c = first_ready cands \<and> ac_ready c"
proof -
  obtain c where "find ac_ready cands = Some c" "ac_ID c = first_ready cands"
    using assms by (auto simp: first_ready_def split: option.splits)
  then show ?thesis by (auto simp: find_Some_iff)
qed

lemma first_ready_Nil:
  assumes "\<And>c. c \<in> set cands \<Longrightarrow> ac_ID c \<noteq> []" and "c \<in> set cands" and "ac_ready c"
  shows "first_ready cands \<noteq> []"
proof -
  have "find ac_ready cands \<noteq> None" using assms(2,3) by (auto simp: find_None_iff)
  then obtain d where "find ac_ready cands = Some d" by blast
  moreover from this have "d \<in> set cands" by (auto simp: find_Some_iff)
  ultimately show ?thesis using assms(1) by (simp add: first_ready_def)
qed

text \<open>
  The panel's selection is sticky and never routes to a spent account while another is ready.
  From candidates with distinct, non-empty identifiers, the selected account is kept while it is a
  ready candidate; otherwise, if any candidate is ready, a ready one is returned and remembered;
  only if none is ready may the answer be a spent one. The answer is always one of the candidates.
\<close>

theorem pickActiveAuth_sticky:
  assumes "cands \<noteq> []" and "distinct (map ac_ID cands)" and "\<And>c. c \<in> set cands \<Longrightarrow> ac_ID c \<noteq> []"
    and "pickActiveAuth cands active = (r, active')"
  shows "r \<in> ac_ID ` set cands \<and>
    ((\<exists>c \<in> set cands. ac_ID c = getActiveAuthID active \<and> ac_ready c) \<longrightarrow>
       r = getActiveAuthID active \<and> active' = active) \<and>
    ((\<exists>c \<in> set cands. ac_ready c) \<longrightarrow> (\<exists>c \<in> set cands. ac_ID c = r \<and> ac_ready c)) \<and>
    (r \<noteq> getActiveAuthID active \<longrightarrow> active' = TrimSpace r)"
proof -
  let ?cur = "getActiveAuthID active"
  have get: "gm_get (byID cands) (ac_ID c) = Some c" if c: "c \<in> set cands" for c
  proof -
    obtain d where d: "gm_get (byID cands) (ac_ID c) = Some d"
      using c get_byID_None [of cands "ac_ID c"] by auto
    then have "d \<in> set cands" "ac_ID d = ac_ID c" by (auto dest: get_byID_in)
    with c assms(2) d show ?thesis by (metis distinct_map inj_onD)
  qed
  show ?thesis
  proof (cases "\<exists>c \<in> set cands. ac_ID c = ?cur \<and> ac_ready c")
    case True
    then obtain c where c: "c \<in> set cands" "ac_ID c = ?cur" "ac_ready c" by blast
    then have "r = ?cur \<and> active' = active"
      using assms(1,4) get [OF c(1)] c assms(3) [OF c(1)]
      by (auto simp: pickActiveAuth_def ac_ready_def)
    with c show ?thesis by (auto intro!: image_eqI [of _ ac_ID c])
  next
    case False
    then have not_kept: "\<not> (?cur \<noteq> [] \<and> (case gm_get (byID cands) ?cur of None \<Rightarrow> False
        | Some c \<Rightarrow> \<not> ac_Disabled c \<and> \<not> ac_Exhausted c))"
      by (auto simp: ac_ready_def split: option.splits dest!: get_byID_in)
    show ?thesis
    proof (cases "first_ready cands = []")
      case True
      then have "\<not> (\<exists>c \<in> set cands. ac_ready c)" using first_ready_Nil [OF assms(3)] by blast
      moreover have "r \<in> ac_ID ` set cands"
        using assms(1,4) not_kept True get_byID_None [of cands ?cur]
        by (auto simp: pickActiveAuth_def Let_def split: if_splits)
      ultimately show ?thesis
        using assms(1,3,4) not_kept True False
        by (auto simp: pickActiveAuth_def Let_def setActiveAuthID_def split: if_splits)
    next
      case ready: False
      then have "r = first_ready cands \<and> (r \<noteq> ?cur \<longrightarrow> active' = TrimSpace r)"
        using assms(1,4) not_kept
        by (auto simp: pickActiveAuth_def Let_def setActiveAuthID_def split: if_splits)
      with first_ready_in [OF ready] False show ?thesis
        by (auto simp: image_iff) metis
    qed
  qed
qed

theorem pickActiveAuth_sticky_witness:
  "\<exists>c \<in> {\<lparr>ac_ID = ''a'', ac_Disabled = False, ac_Exhausted = True\<rparr>,
         \<lparr>ac_ID = ''b'', ac_Disabled = False, ac_Exhausted = False\<rparr>}.
     ac_ID c = fst (pickActiveAuth [\<lparr>ac_ID = ''a'', ac_Disabled = False, ac_Exhausted = True\<rparr>,
       \<lparr>ac_ID = ''b'', ac_Disabled = False, ac_Exhausted = False\<rparr>] ''a'') \<and> ac_ready c"
proof -
  let ?cs = "[\<lparr>ac_ID = ''a'', ac_Disabled = False, ac_Exhausted = True\<rparr>,
    \<lparr>ac_ID = ''b'', ac_Disabled = False, ac_Exhausted = False\<rparr>]"
  obtain r s where r: "pickActiveAuth ?cs ''a'' = (r, s)" by (meson surj_pair)
  have ids: "ac_ID c \<noteq> []" if "c \<in> set ?cs" for c using that by auto
  have "\<exists>c \<in> set ?cs. ac_ID c = r \<and> ac_ready c"
    using pickActiveAuth_sticky [OF _ _ ids r] by (simp add: ac_ready_def)
  with r show ?thesis by simp
qed

text \<open>
  Only known exhaustion triggers a lifecycle action, and re-enabling is its exact opposite: no
  credit summary both disables or deletes an account and re-enables it, an unknown balance does
  neither, and an account with credit left is never touched but to re-enable it. Deletion is for the
  global region alone.
\<close>

theorem lifecycle_consistent:
  "(lifecycleActionFor region cr \<noteq> lifecycleNone \<longleftrightarrow> isCreditsExhausted cr) \<and>
   (lifecycleActionFor region cr = lifecycleDelete \<longrightarrow> region = ''global'') \<and>
   \<not> (lifecycleActionFor region cr \<noteq> lifecycleNone \<and> shouldReenableCN disabled cr) \<and>
   lifecycleActionFor region None = lifecycleNone \<and> \<not> shouldReenableCN disabled None \<and>
   (disabled \<longrightarrow> shouldReenableCN disabled (Some c) = (cs_TotalRemain c > 0))"
  by (auto simp: lifecycleActionFor_def shouldActOnCredits_def shouldReenableCN_def
      isCreditsExhausted_def split: option.splits if_splits)

theorem lifecycle_consistent_witness:
  "shouldReenableCN True (Some \<lparr>cs_TotalRemain = 5, cs_TotalUsed = 1, cs_TotalSize = 6,
     cs_PackCount = 1, cs_FetchedAt = [], cs_Packages = []\<rparr>)"
  using lifecycle_consistent [of "''cn''" None True "\<lparr>cs_TotalRemain = 5, cs_TotalUsed = 1,
      cs_TotalSize = 6, cs_PackCount = 1, cs_FetchedAt = [], cs_Packages = []\<rparr>"]
  by simp

end
