(* ===== verification/Reset_Time.thy ===== *)
theory Reset_Time
  imports Classify "HOL-Library.Monad_Syntax"
begin

text \<open>
  The times that upstream writes into its answers, after \<open>ParseRateReset\<close> of
  \<^verbatim>\<open>src/internal/upstream/client.go\<close> and the parsing of a package's end in \<open>expiringCredits\<close> of
  \<^verbatim>\<open>src/plugin/wb_pool.go\<close>. The calendar, \<open>time.Date\<close> and \<open>time.Parse\<close> for the two layouts in use
  follow Go's library: a one-digit hour is accepted, a blank in the layout stands for any number of
  blanks, seconds may carry a fraction that the layout does not mention, and a month's length is
  checked last. The fast path that the library has for RFC 3339 accepts a part of what its general
  parser does, with the same result.
\<close>

section \<open>The calendar\<close>

record civil =
  cv_year :: int
  cv_month :: int
  cv_day :: int
  cv_hour :: int
  cv_min :: int
  cv_sec :: int
  cv_nsec :: int

definition is_leap :: "int \<Rightarrow> bool" where
  "is_leap y = (y mod 4 = 0 \<and> (y mod 100 \<noteq> 0 \<or> y mod 400 = 0))"

definition daysIn :: "int \<Rightarrow> int \<Rightarrow> int" where
  "daysIn m y = (if m = 2 then (if is_leap y then 29 else 28)
     else if m \<in> {4, 6, 9, 11} then 30 else 31)"

definition days_before_year :: "int \<Rightarrow> int" where
  "days_before_year y = (let z = y - 1 in 365 * z + z div 4 - z div 100 + z div 400)"

definition days_before_month :: "int \<Rightarrow> int \<Rightarrow> int" where
  "days_before_month m y = sum_list (map (\<lambda>k. daysIn k y) [1..m - 1])"

definition day_number :: "civil \<Rightarrow> int" where
  "day_number c = days_before_year (cv_year c) + days_before_month (cv_month c) (cv_year c) +
     (cv_day c - 1)"

text \<open>\<open>time.Date\<close> in a zone \<open>off\<close> seconds east of UTC.\<close>

definition Date :: "civil \<Rightarrow> int \<Rightarrow> gtime" where
  "Date c off = (((day_number c * 24 + cv_hour c) * 60 + cv_min c) * 60 + cv_sec c - off) * Second +
     cv_nsec c"

section \<open>Parsing a time\<close>

definition digit_val :: "char \<Rightarrow> int" where
  "digit_val c = int (of_char c) - 48"

definition num_of :: "string \<Rightarrow> int" where
  "num_of ds = foldl (\<lambda>n c. n * 10 + digit_val c) 0 ds"

fun getnum :: "bool \<Rightarrow> string \<Rightarrow> (int \<times> string) option" where
  "getnum fixed [] = None"
| "getnum fixed (c # cs) =
     (if \<not> is_digit c then None
      else if cs = [] \<or> \<not> is_digit (hd cs) then
        (if fixed then None else Some (digit_val c, cs))
      else Some (digit_val c * 10 + digit_val (hd cs), tl cs))"

definition get_range :: "int \<Rightarrow> int \<Rightarrow> bool \<Rightarrow> string \<Rightarrow> (int \<times> string) option" where
  "get_range lo hi fixed s =
     do { (n, r) \<leftarrow> getnum fixed s; if lo \<le> n \<and> n \<le> hi then Some (n, r) else None }"

definition get_year :: "string \<Rightarrow> (int \<times> string) option" where
  "get_year s = (if length s < 4 \<or> \<not> list_all is_digit (take 4 s) then None
     else Some (num_of (take 4 s), drop 4 s))"

text \<open>Skipping the literal text between two fields of a layout.\<close>

function skip :: "string \<Rightarrow> string \<Rightarrow> string option" where
  "skip s [] = Some s"
| "skip s (p # ps) =
     (if p = CHR '' '' then
        (if s \<noteq> [] \<and> hd s \<noteq> CHR '' '' then None
         else skip (dropWhile (\<lambda>c. c = CHR '' '') s) (dropWhile (\<lambda>c. c = CHR '' '') ps))
      else if s = [] \<or> hd s \<noteq> p then None
      else skip (tl s) ps)"
  by pat_completeness auto
termination
  by (relation "measure (\<lambda>(s, ps). length ps)") (auto simp: length_dropWhile_le less_Suc_eq_le)

definition get_fraction :: "string \<Rightarrow> int \<times> string" where
  "get_fraction s =
     (if length s \<ge> 2 \<and> (hd s = CHR ''.'' \<or> hd s = CHR '','') \<and> is_digit (s ! 1) then
        let ds = takeWhile is_digit (tl s); ns = take 9 ds
        in (num_of ns * 10 ^ (9 - length ns), drop (length ds + 1) s)
      else (0, s))"

text \<open>The part that the two layouts share; they differ in what separates day and hour.\<close>

definition get_civil :: "string \<Rightarrow> string \<Rightarrow> (civil \<times> string) option" where
  "get_civil sep s =
     do { (y, s) \<leftarrow> get_year s; s \<leftarrow> skip s ''-'';
          (mo, s) \<leftarrow> get_range 1 12 True s; s \<leftarrow> skip s ''-'';
          (d, s) \<leftarrow> getnum True s; s \<leftarrow> skip s sep;
          (h, s) \<leftarrow> get_range 0 23 False s; s \<leftarrow> skip s '':'';
          (mi, s) \<leftarrow> get_range 0 59 True s; s \<leftarrow> skip s '':'';
          (se, s) \<leftarrow> get_range 0 59 True s;
          let (ns, s) = get_fraction s in
          if 1 \<le> d \<and> d \<le> daysIn mo y
          then Some (\<lparr>cv_year = y, cv_month = mo, cv_day = d, cv_hour = h, cv_min = mi, cv_sec = se,
            cv_nsec = ns\<rparr>, s)
          else None }"

text \<open>\<open>time.ParseInLocation("2006-01-02 15:04:05", s, loc)\<close>\<close>

definition parse_wall :: "int \<Rightarrow> string \<Rightarrow> gtime option" where
  "parse_wall off s =
     do { (c, r) \<leftarrow> get_civil '' '' s; if r = [] then Some (Date c off) else None }"

text \<open>\<open>Z07:00\<close>; the library lets an offset be 24 hours or 60 minutes.\<close>

definition get_zone :: "string \<Rightarrow> (int \<times> string) option" where
  "get_zone s =
     (if s \<noteq> [] \<and> hd s = CHR ''Z'' then Some (0, tl s)
      else if length s < 6 \<or> s ! 3 \<noteq> CHR '':'' then None
      else do { (hr, r1) \<leftarrow> getnum True (take 2 (drop 1 s));
                (mm, r2) \<leftarrow> getnum True (take 2 (drop 4 s));
                if hr > 24 \<or> mm > 60 then None
                else if hd s = CHR ''+'' then Some ((hr * 60 + mm) * 60, drop 6 s)
                else if hd s = CHR ''-'' then Some (- ((hr * 60 + mm) * 60), drop 6 s)
                else None })"

text \<open>\<open>time.Parse(time.RFC3339, s)\<close>\<close>

definition parse_RFC3339 :: "string \<Rightarrow> gtime option" where
  "parse_RFC3339 s =
     do { (c, r) \<leftarrow> get_civil ''T'' s; (off, r) \<leftarrow> get_zone r;
          if r = [] then Some (Date c off) else None }"

section \<open>The reset time in a body\<close>

definition softRateResetLoc :: int where "softRateResetLoc = 8 * 60 * 60"

text \<open>The UTF-8 bytes around the time in the Chinese text, blanks included.\<close>

definition cn_head :: string where
  "cn_head = [CHR 0xE5, CHR 0xB0, CHR 0x86, CHR 0xE5, CHR 0x9C, CHR 0xA8, CHR 0x20]"

definition cn_tail :: string where
  "cn_tail = [CHR 0x20, CHR 0xE9, CHR 0x87, CHR 0x8D, CHR 0xE7, CHR 0xBD, CHR 0xAE]"

text \<open>
  \<open>(.+?)\<close> up to the tail: the shortest text, of one character at least, on one line. The tail starts
  with an ASCII byte, so that counting bytes or characters makes no difference.
\<close>

fun lazy_capture :: "string \<Rightarrow> string \<Rightarrow> string option" where
  "lazy_capture tail [] = None"
| "lazy_capture tail (c # cs) =
     (if prefix tail (c # cs) then Some []
      else if c = CHR 0x0A then None
      else map_option ((#) c) (lazy_capture tail cs))"

definition match_cn :: "string \<Rightarrow> string option" where
  "match_cn s =
     (if \<not> prefix cn_head s then None
      else case drop (length cn_head) s of
        [] \<Rightarrow> None
      | c # cs \<Rightarrow> if c = CHR 0x0A then None else map_option ((#) c) (lazy_capture cn_tail cs))"

text \<open>\<open>(?i)reset at \<close>: besides the ASCII letters, the long s (bytes 0xC5 0xBF) folds to s.\<close>

fun fold_prefix :: "string \<Rightarrow> string \<Rightarrow> string option" where
  "fold_prefix [] s = Some s"
| "fold_prefix (p # ps) [] = None"
| "fold_prefix (p # ps) (c # cs) =
     (if lower_char c = p then fold_prefix ps cs
      else if p = CHR ''s'' \<and> c = CHR 0xC5 \<and> cs \<noteq> [] \<and> hd cs = CHR 0xBF then fold_prefix ps (tl cs)
      else None)"

definition shape_ok :: "string \<Rightarrow> string \<Rightarrow> bool" where
  "shape_ok pat s = list_all2 (\<lambda>p c. if p = CHR ''d'' then is_digit c else c = p) pat s"

definition match_en :: "string \<Rightarrow> string option" where
  "match_en s = (case fold_prefix ''reset at '' s of
      None \<Rightarrow> None
    | Some r \<Rightarrow> if shape_ok ''dddd-dd-dd dd:dd:dd'' (take 19 r) then Some (take 19 r) else None)"

text \<open>\<open>FindStringSubmatch\<close>: the leftmost place at which the expression matches.\<close>

fun find_sub :: "(string \<Rightarrow> string option) \<Rightarrow> string \<Rightarrow> string option" where
  "find_sub f [] = f []"
| "find_sub f (c # cs) = (case f (c # cs) of Some m \<Rightarrow> Some m | None \<Rightarrow> find_sub f cs)"

definition TrimSuffix :: "string \<Rightarrow> string \<Rightarrow> string" where
  "TrimSuffix s suf = (if HasSuffix s suf then take (length s - length suf) s else s)"

definition ParseRateReset :: "string \<Rightarrow> gtime option" where
  "ParseRateReset body =
     (case (case find_sub match_cn body of Some m \<Rightarrow> Some m | None \<Rightarrow> find_sub match_en body) of
        None \<Rightarrow> None
      | Some m \<Rightarrow> parse_wall softRateResetLoc (TrimSuffix (TrimSpace m) '' UTC+8''))"

end
