(* ===== verification/Scheduler.thy ===== *)
theory Scheduler
  imports Policy Reset_Time Pick_Props
begin

text \<open>
  Routing a chat request to an account, after \<^verbatim>\<open>src/plugin/scheduler.go\<close> and
  \<^verbatim>\<open>src/plugin/wb_pool.go\<close>. The plugin's state here is the process-wide pool, the panel's selected
  account, the scheduler mode and the cached credits. What the host sends is the decoded request;
  whether a model runtime can serve an account (\<open>snapshotForAuthID(id).State.executable()\<close>) is an
  argument, and so is the sequence of clock readings, iteration orders and random draws that
  consecutive picks take.
\<close>

record plugin =
  pl_pool :: pool
  pl_active :: string
  pl_mode :: string
  pl_cache :: "(string, creditsSummary option) gomap"

record candidate =
  cd_ID :: string
  cd_Provider :: string
  cd_Status :: string
  cd_Metadata :: "(string \<times> json) list"

record pick_request =
  rq_Model :: string
  rq_Candidates :: "candidate list"

record pick_response =
  rs_AuthID :: string
  rs_Handled :: bool

definition schedulerModeOff :: string where "schedulerModeOff = ''off''"
definition schedulerModeCredits :: string where "schedulerModeCredits = ''credits''"
definition providerName :: string where "providerName = ''workbuddy''"

type_synonym draws = "nat \<Rightarrow> pick_env \<times> pick_rand"

section \<open>Candidates\<close>

definition candidateDisabled :: "candidate \<Rightarrow> bool" where
  "candidateDisabled c =
     (if ToLower (TrimSpace (cd_Status c)) = ''disabled'' then True
      else case gm_get (cd_Metadata c) ''disabled'' of
        Some (JBool t) \<Rightarrow> t
      | Some (JStr t) \<Rightarrow> EqualFold (TrimSpace t) ''true''
      | _ \<Rightarrow> False)"

definition cachedCreditsScore :: "plugin \<Rightarrow> string \<Rightarrow> int \<times> bool" where
  "cachedCreditsScore pl authID = (case gm_get (pl_cache pl) authID of
      None \<Rightarrow> (-1, False)
    | Some None \<Rightarrow> (-1, False)
    | Some (Some cr) \<Rightarrow> (cs_TotalRemain cr, isCreditsExhausted (Some cr)))"

definition manualDisabledForAuthUID :: "plugin \<Rightarrow> string \<Rightarrow> bool" where
  "manualDisabledForAuthUID pl u =
     (let u = TrimSpace u in
      if u = [] then False
      else case ManualDisabledState u (pl_pool pl) of (disabled, reason, ok) \<Rightarrow> ok \<and> disabled)"

text \<open>The parameters that \<open>poolInstance\<close> gives to the pool it builds.\<close>

definition poolInstance_setup :: "pool \<Rightarrow> pool" where
  "poolInstance_setup p =
     SetMaxInFlight 3 (SetWeights (1 / 2) 5 (SetSoftRateMax (2 * Hour)
       (SetBreaker 3 (30 * Minute) (6 * Hour) p)))"

section \<open>Picking through the pool\<close>

definition ensurePoolCandidates :: "string list \<Rightarrow> plugin \<Rightarrow> plugin" where
  "ensurePoolCandidates candidates pl =
     foldl (\<lambda>pl i.
       if i = [] then pl
       else let pl = pl\<lparr>pl_pool := Add (zero_auth\<lparr>a_UID := i\<rparr>) (pl_pool pl)\<rparr>;
                (remain, exhausted) = cachedCreditsScore pl i
            in if remain \<ge> 0 \<and> \<not> exhausted
               then pl\<lparr>pl_pool := SetCredits i remain (pl_pool pl)\<rparr> else pl) pl candidates"

text \<open>
  The loop of \<open>pickFromPool\<close>, over any way to draw the next account: at most \<open>n\<close> draws, each
  excluding what was drawn before, until one is allowed.
\<close>

fun draw_allowed ::
  "(nat \<Rightarrow> uid list \<Rightarrow> 's \<Rightarrow> uid option \<times> 's) \<Rightarrow> (uid \<Rightarrow> bool) \<Rightarrow> nat \<Rightarrow> nat \<Rightarrow> uid list \<Rightarrow> 's \<Rightarrow>
   uid \<times> 's" where
  "draw_allowed draw allowed 0 i tried s = ([], s)"
| "draw_allowed draw allowed (Suc n) i tried s =
     (case draw i tried s of
        (None, s') \<Rightarrow> ([], s')
      | (Some u, s') \<Rightarrow>
          if allowed u then (u, s') else draw_allowed draw allowed n (Suc i) (u # tried) s')"

definition pool_draw ::
  "pkgvars \<Rightarrow> draws \<Rightarrow> string \<Rightarrow> nat \<Rightarrow> uid list \<Rightarrow> pool \<Rightarrow> uid option \<times> pool" where
  "pool_draw v draws model i tried p =
     (case PickExcludingForRealm v (fst (draws i)) (snd (draws i)) tried model [] p of
        (r, p') \<Rightarrow> (map_option a_UID r, p'))"

definition pickFromPool ::
  "pkgvars \<Rightarrow> draws \<Rightarrow> string list \<Rightarrow> string \<Rightarrow> plugin \<Rightarrow> string \<times> plugin" where
  "pickFromPool v draws candidates model pl =
     (if candidates = [] then ([], pl)
      else let allowed = filter (\<lambda>i. \<not> snd (cachedCreditsScore pl i)) candidates in
        if allowed = [] then ([], pl)
        else let p = pl_pool pl;
                 budget = length (p_byUID p) + length candidates;
                 budget = (if budget \<le> 0 then length candidates else budget)
             in case draw_allowed (pool_draw v draws model) (\<lambda>u. u \<in> set allowed) budget 0 [] p of
                  (r, p') \<Rightarrow> (r, pl\<lparr>pl_pool := p'\<rparr>))"

section \<open>The scheduler callback\<close>

definition live_candidates :: "(string \<Rightarrow> bool) \<Rightarrow> plugin \<Rightarrow> candidate list \<Rightarrow> candidate list" where
  "live_candidates executable pl cands =
     filter (\<lambda>c. cd_Provider c = providerName \<and>
       \<not> (candidateDisabled c \<or> manualDisabledForAuthUID pl (cd_ID c)) \<and> executable (cd_ID c)) cands"

definition active_view :: "plugin \<Rightarrow> candidate list \<Rightarrow> activeAuthCandidate list" where
  "active_view pl cands =
     map (\<lambda>c. \<lparr>ac_ID = cd_ID c, ac_Disabled = False,
       ac_Exhausted = snd (cachedCreditsScore pl (cd_ID c))\<rparr>) cands"

definition deferred :: pick_response where
  "deferred = \<lparr>rs_AuthID = [], rs_Handled = False\<rparr>"

definition handled :: "string \<Rightarrow> pick_response" where
  "handled i = \<lparr>rs_AuthID = i, rs_Handled = True\<rparr>"

text \<open>A request that does not decode is an error, \<open>None\<close>.\<close>

definition handleSchedulerPick ::
  "pkgvars \<Rightarrow> (string \<Rightarrow> bool) \<Rightarrow> draws \<Rightarrow> pick_request option \<Rightarrow> plugin \<Rightarrow>
   pick_response option \<times> plugin" where
  "handleSchedulerPick v executable draws raw pl = (case raw of
      None \<Rightarrow> (None, pl)
    | Some req \<Rightarrow>
        if pl_mode pl \<noteq> schedulerModeCredits then (Some deferred, pl)
        else let wb = live_candidates executable pl (rq_Candidates req) in
          if wb = [] then (Some deferred, pl)
          else
            let (early, pl1) =
                  (if getActiveAuthID (pl_active pl) \<noteq> [] then
                     case pickActiveAuth (active_view pl wb) (pl_active pl) of
                       (picked, active') \<Rightarrow> (picked, pl\<lparr>pl_active := active'\<rparr>)
                   else ([], pl))
            in if early \<noteq> [] then (Some (handled early), pl1)
            else if length wb = 1 then
              (Some (handled (cd_ID (hd wb))),
               pl1\<lparr>pl_active := setActiveAuthID (cd_ID (hd wb)) (pl_active pl1)\<rparr>)
            else
              let ids = map cd_ID wb;
                  pl2 = ensurePoolCandidates ids pl1;
                  (picked, pl3) = pickFromPool v draws ids (rq_Model req) pl2
              in if picked \<noteq> [] then (Some (handled picked), pl3)
                 else case pickActiveAuth (active_view pl3 wb) (pl_active pl3) of
                   (picked, active') \<Rightarrow>
                     (Some (if picked = [] then deferred else handled picked),
                      pl3\<lparr>pl_active := active'\<rparr>))"

section \<open>Outcomes\<close>

text \<open>
  The reset time is the zero time when the body has none (\<open>resetAt, _ := \<dots>\<close>); \<open>now\<close> and
  \<open>now2\<close> are the clock readings of the operation that is called, \<open>off\<close> the offset of the local zone.
\<close>

definition applyUpstreamError ::
  "json_lib \<Rightarrow> int \<Rightarrow> gtime \<Rightarrow> gtime \<Rightarrow> string \<Rightarrow> string \<Rightarrow> int \<Rightarrow> string \<Rightarrow>
   pool \<Rightarrow> pool" where
  "applyUpstreamError lib off now now2 authID model status body p =
     (if authID = [] then p
      else case Classify lib status body of
        ErrModelBlocked \<Rightarrow>
          if model \<noteq> [] then BlockModelBackoff now authID model ''11102 no such model'' p else p
      | ErrSoftRate \<Rightarrow>
          if model \<noteq> [] \<and> IsModelRateLimit body
          then CooldownSoftForModel now authID (10 * Minute)
                 (case ParseRateReset body of None \<Rightarrow> 0 | Some t \<Rightarrow> t) model
                 ''6004 model limit'' p
          else CooldownSoftRate now authID (10 * Minute) 0 ''rate limited'' p
      | ErrHardCredit \<Rightarrow> CooldownUntilTomorrow4AM off now now2 authID ''credits exhausted'' p
      | ErrSessionDead \<Rightarrow> snd (NoteSessionDead authID p)
      | ErrServer \<Rightarrow> NoteError now now2 authID p
      | _ \<Rightarrow> p)"

definition notePoolSuccess :: "gtime \<Rightarrow> string \<Rightarrow> pool \<Rightarrow> pool" where
  "notePoolSuccess now authID p =
     (if authID = [] then p else ClearSessionDead authID (NoteSuccess now authID p))"

text \<open>The end of a package's cycle: RFC 3339, else a UTC+8 wall clock.\<close>

definition parse_cycle_end :: "string \<Rightarrow> gtime option" where
  "parse_cycle_end s = (case parse_RFC3339 s of
      Some t \<Rightarrow> Some t
    | None \<Rightarrow> parse_wall softRateResetLoc s)"

definition expiringCredits :: "gtime \<Rightarrow> duration \<Rightarrow> creditsSummary option \<Rightarrow> int" where
  "expiringCredits now d cr = (case cr of
      None \<Rightarrow> 0
    | Some c \<Rightarrow>
        let deadline = now + d in
        foldl (\<lambda>total p. case parse_cycle_end (ps_CycleEnd p) of
            None \<Rightarrow> total
          | Some end_ \<Rightarrow>
              if \<not> After end_ now \<or> After end_ deadline \<or> ps_Remain p \<le> 0 then total
              else wrap64 (total + ps_Remain p)) 0 (cs_Packages c))"

section \<open>Drawing until an allowed account comes\<close>

text \<open>
  What the loop relies on: a draw returns an account of a fixed finite set that was not excluded; it
  returns nothing only if no servable account is left; and an account that is servable stays
  servable through draws. Then, with a budget of at least the number of accounts, the loop finds an
  allowed account whenever an allowed account is servable.
\<close>

locale account_picker =
  fixes draw :: "nat \<Rightarrow> uid list \<Rightarrow> 's \<Rightarrow> uid option \<times> 's"
    and inv :: "nat \<Rightarrow> 's \<Rightarrow> bool"
    and accounts :: "'s \<Rightarrow> uid set"
    and servable :: "nat \<Rightarrow> 's \<Rightarrow> uid \<Rightarrow> bool"
  assumes draw_inv: "inv i s \<Longrightarrow> draw i tried s = (r, s') \<Longrightarrow> inv (Suc i) s' \<and> accounts s' = accounts s"
    and draw_new: "inv i s \<Longrightarrow> draw i tried s = (Some u, s') \<Longrightarrow> u \<in> accounts s \<and> u \<notin> set tried"
    and draw_none: "inv i s \<Longrightarrow> draw i tried s = (None, s') \<Longrightarrow> servable i s u \<Longrightarrow> u \<in> set tried"
    and servable_stays: "inv i s \<Longrightarrow> draw i tried s = (r, s') \<Longrightarrow> servable i s u \<Longrightarrow>
      servable (Suc i) s' u"
    and accounts_finite: "inv i s \<Longrightarrow> finite (accounts s)"
    and servable_account: "inv i s \<Longrightarrow> servable i s u \<Longrightarrow> u \<in> accounts s"
begin

lemma draw_allowed_sound:
  "inv i s \<Longrightarrow> draw_allowed draw allowed n i tried s = (r, s') \<Longrightarrow> r \<noteq> [] \<Longrightarrow>
   allowed r \<and> r \<in> accounts s \<and> r \<notin> set tried"
proof (induction n arbitrary: i tried s)
  case (Suc n)
  obtain d t where d: "draw i tried s = (d, t)" by (meson surj_pair)
  note next_inv = draw_inv [OF Suc.prems(1) d]
  show ?case
  proof (cases d)
    case None
    with Suc.prems d show ?thesis by simp
  next
    case (Some u)
    note new = draw_new [OF Suc.prems(1) d [unfolded Some]]
    show ?thesis
    proof (cases "allowed u")
      case True
      with Suc.prems d Some new show ?thesis by simp
    next
      case False
      with Suc.prems d Some have "draw_allowed draw allowed n (Suc i) (u # tried) t = (r, s')" by simp
      from Suc.IH [OF conjunct1 [OF next_inv] this Suc.prems(3)] next_inv show ?thesis by simp
    qed
  qed
qed simp

lemma draw_allowed_complete:
  "inv i s \<Longrightarrow> servable i s c \<Longrightarrow> allowed c \<Longrightarrow> c \<notin> set tried \<Longrightarrow>
   card (accounts s - set tried) \<le> n \<Longrightarrow> draw_allowed draw allowed n i tried s = (r, s') \<Longrightarrow>
   allowed r \<and> r \<in> accounts s"
proof (induction n arbitrary: i tried s)
  case 0
  have "c \<in> accounts s - set tried"
    using servable_account [OF 0(1,2)] 0(4) by simp
  then have "card (accounts s - set tried) \<noteq> 0"
    using accounts_finite [OF 0(1)] by (metis card_0_eq finite_Diff empty_iff)
  with 0(5) show ?case by simp
next
  case (Suc n)
  obtain d t where d: "draw i tried s = (d, t)" by (meson surj_pair)
  note next_inv = draw_inv [OF Suc.prems(1) d]
  obtain u where u: "d = Some u"
    using draw_none [OF Suc.prems(1) _ Suc.prems(2)] d Suc.prems(4) by (cases d) auto
  note new = draw_new [OF Suc.prems(1) d [unfolded u]]
  show ?case
  proof (cases "allowed u")
    case True
    with Suc.prems(6) d u new show ?thesis by simp
  next
    case False
    have "accounts t - set (u # tried) = (accounts s - set tried) - {u}"
      using next_inv by auto
    moreover have "u \<in> accounts s - set tried" using new by simp
    ultimately have "card (accounts t - set (u # tried)) \<le> n"
      using Suc.prems(5) accounts_finite [OF Suc.prems(1)] by simp
    moreover have "draw_allowed draw allowed n (Suc i) (u # tried) t = (r, s')"
      using Suc.prems(6) d u False by simp
    moreover have "c \<notin> set (u # tried)" using Suc.prems(3,4) False by auto
    ultimately show ?thesis
      using Suc.IH [OF _ servable_stays [OF Suc.prems(1) d Suc.prems(2)] Suc.prems(3), of "u # tried"]
        next_inv by simp
  qed
qed

end

text \<open>Whatever the draws do, the loop returns only what is allowed.\<close>

lemma draw_allowed_only:
  "draw_allowed draw allowed n i tried s = (r, s') \<Longrightarrow> r \<noteq> [] \<Longrightarrow> allowed r"
  by (induction n arbitrary: i tried s)
    (auto split: prod.splits option.splits if_splits)

section \<open>The pool is such a picker\<close>

text \<open>The draws are usable on a pool: they enumerate its accounts, and their clock does not go back.\<close>

definition draws_ok :: "draws \<Rightarrow> pool \<Rightarrow> bool" where
  "draws_ok draws p = (\<forall>i. env_ok (fst (draws i)) p \<and> rand_ok (snd (draws i)) \<and>
     0 \<le> pe_now (fst (draws i)) \<and> pe_now (fst (draws i)) \<le> pe_now (fst (draws (Suc i))))"

definition pool_accounts :: "pool \<Rightarrow> uid set" where
  "pool_accounts p = set (gm_keys (p_byUID p))"

lemma env_ok_cong: "gm_keys (p_byUID p) = gm_keys (p_byUID q) \<Longrightarrow> env_ok env p = env_ok env q"
  by (simp add: env_ok_def enumerates_def)

lemma draws_ok_cong: "gm_keys (p_byUID p) = gm_keys (p_byUID q) \<Longrightarrow> draws_ok draws p = draws_ok draws q"
  using env_ok_cong [of p q] by (simp add: draws_ok_def)

lemma pick_keys: "gm_keys (p_byUID (snd (pick v env rnd tried m realm p))) = gm_keys (p_byUID p)"
  by (simp add: pick_unfold [OF refl refl] pickEarliestExpiryLocked_def Let_def mark_used_keys
      split: option.split)

text \<open>A pick changes nothing that health or the lease limit depends on.\<close>

definition same_health :: "entry \<Rightarrow> entry \<Rightarrow> bool" where
  "same_health e f = (e_a f = e_a e \<and> e_disabled f = e_disabled e \<and>
     e_manualDisabled f = e_manualDisabled e \<and> (\<forall>t. running f t = running e t) \<and>
     e_modelCooldowns f = e_modelCooldowns e \<and> e_inFlight f = e_inFlight e)"

lemma mark_used_health:
  "gm_get (p_byUID q) w = Some e \<Longrightarrow>
   \<exists>f. gm_get (p_byUID (mark_used t u q)) w = Some f \<and> same_health e f"
  by (auto simp: get_mark_used same_health_def running_def)

lemma pick_health:
  assumes "gm_get (p_byUID p) w = Some e"
  shows "\<exists>f. gm_get (p_byUID (snd (pick v env rnd tried m realm p))) w = Some f \<and>
    same_health (prune_entry (pe_now env) e) f"
proof -
  let ?q = "prune_all (pe_now env) p"
  have q: "gm_get (p_byUID ?q) w = Some (prune_entry (pe_now env) e)"
    using assms by (simp add: prune_all_get)
  have refl_h: "same_health x x" for x by (simp add: same_health_def)
  have "\<exists>f. gm_get (p_byUID (mark_used t u (note_explore t' m realm c ?q))) w = Some f \<and>
      same_health (prune_entry (pe_now env) e) f" for t u t' c
    by (rule mark_used_health) (use q in simp)
  with mark_used_health [OF q] q refl_h show ?thesis
    by (auto simp: pick_unfold [OF refl refl] pickEarliestExpiryLocked_def Let_def
        split: option.split)
qed

lemma pick_limits:
  "p_maxInFlight (snd (pick v env rnd tried m realm p)) = p_maxInFlight p"
  "p_maxInFlightGlobal (snd (pick v env rnd tried m realm p)) = p_maxInFlightGlobal p"
  by (auto simp: pick_unfold [OF refl refl] pickEarliestExpiryLocked_def Let_def mark_used_def
      upd_entry_def split: option.split)

lemma same_health_health:
  assumes "same_health e f"
  shows "healthyForModel f t m = healthyForModel e t m" and "realm_matches v realm f = realm_matches v realm e"
  using assms by (simp_all add: same_health_def healthyForModel_iff healthy_iff modelCooled_def
      realm_matches_def)

lemma eligible_stays:
  assumes "pool_inv p" and "eligible_uid v p (pe_now env) [] m realm u" and "pe_now env \<le> t"
  shows "eligible_uid v (snd (pick v env rnd tried m' realm' p)) t [] m realm u"
proof -
  obtain e where e: "gm_get (p_byUID p) u = Some e" "realm_matches v realm e"
    "healthyForModel e (pe_now env) m" "\<not> inFlightFull v p e"
    using assms(2) by (auto simp: eligible_uid_def)
  obtain f where f: "gm_get (p_byUID (snd (pick v env rnd tried m' realm' p))) u = Some f"
    "same_health (prune_entry (pe_now env) e) f" using pick_health [OF e(1)] by blast
  have "healthyForModel e t m" using e(3) assms(3) healthyForModel_mono by blast
  then have "healthyForModel f t m"
    using same_health_health(1) [OF f(2)] prune_entry_healthyForModel [OF pool_inv_wf_entry
        [OF assms(1) e(1)] assms(3)] by simp
  moreover have "realm_matches v realm f"
    using same_health_health(2) [OF f(2)] e(2) by simp
  moreover have "inFlightFull v (snd (pick v env rnd tried m' realm' p)) f = inFlightFull v p e"
    by (rule inFlight_cong) (use f(2) pick_limits in \<open>simp_all add: same_health_def\<close>)
  ultimately show ?thesis using f(1) e(4) by (auto simp: eligible_uid_def)
qed

interpretation pool_picker: account_picker
  "pool_draw v draws m" "\<lambda>i p. pool_inv p \<and> draws_ok draws p" pool_accounts
  "\<lambda>i p u. eligible_uid v p (pe_now (fst (draws i))) [] m [] u"
  for v draws m
proof
  fix i tried p r p' u
  assume inv: "pool_inv p \<and> draws_ok draws p"
  then have ok: "env_ok (fst (draws i)) p" "rand_ok (snd (draws i))" "0 \<le> pe_now (fst (draws i))"
    "pe_now (fst (draws i)) \<le> pe_now (fst (draws (Suc i)))" by (auto simp: draws_ok_def)
  let ?r = "pick v (fst (draws i)) (snd (draws i)) tried m [] p"
  have draw: "pool_draw v draws m i tried p = (map_option a_UID (fst ?r), snd ?r)"
    by (simp add: pool_draw_def PickExcludingForRealm_def split: prod.split)
  show "(pool_inv p' \<and> draws_ok draws p') \<and> pool_accounts p' = pool_accounts p"
    if "pool_draw v draws m i tried p = (r, p')"
    using that inv pool_inv_pick [of p v "fst (draws i)" "snd (draws i)" tried m "[]"]
      pick_keys [of v "fst (draws i)" "snd (draws i)" tried m "[]" p]
      draws_ok_cong [of p' p draws]
    by (auto simp: draw pool_accounts_def)
  show "u \<in> pool_accounts p \<and> u \<notin> set tried" if d: "pool_draw v draws m i tried p = (Some u, p')"
  proof -
    obtain x where x: "fst ?r = Some x" "a_UID x = u" using d draw by auto
    have "eligible_uid v p (pe_now (fst (draws i))) tried m [] u \<or>
        fallback_uid v p (pe_now (fst (draws i))) tried [] u"
      using pick_returns [OF conjunct1 [OF inv] ok(1-3) x(1)] x(2) by (auto split: if_splits)
    then obtain e where "gm_get (p_byUID p) u = Some e" "u \<notin> set tried"
      by (auto simp: eligible_uid_def fallback_uid_def)
    then show ?thesis
      using gm.keys_get [OF pool_inv_wf [OF conjunct1 [OF inv]], of u] by (simp add: pool_accounts_def)
  qed
  show "u \<in> set tried" if "pool_draw v draws m i tried p = (None, p')"
    "eligible_uid v p (pe_now (fst (draws i))) [] m [] u"
    using that(2) pick_None [OF conjunct1 [OF inv] ok(1-3), of v tried m "[]"] that(1)
    by (auto simp: draw eligible_uid_def)
  show "eligible_uid v p' (pe_now (fst (draws (Suc i)))) [] m [] u"
    if "pool_draw v draws m i tried p = (r, p')" "eligible_uid v p (pe_now (fst (draws i))) [] m [] u"
    using eligible_stays [OF conjunct1 [OF inv] that(2) ok(4)] that(1) by (auto simp: draw)
  show "finite (pool_accounts p)" by (simp add: pool_accounts_def)
  show "u \<in> pool_accounts p" if "eligible_uid v p (pe_now (fst (draws i))) [] m [] u"
    using that gm.keys_get [OF pool_inv_wf [OF conjunct1 [OF inv]], of u]
    by (auto simp: pool_accounts_def eligible_uid_def)
qed

end
