(* ===== verification/Scheduler_Props.thy ===== *)
theory Scheduler_Props
  imports Scheduler Classify_Props
begin

text \<open>
  The properties of routing: the draw through the pool finds a healthy offered account if there is
  one, only live candidates are ever returned, the panel's selection takes precedence over the pool,
  and a recorded failure takes the account out of selection without touching any other.
\<close>

section \<open>Drawing from the pool\<close>

lemma pickFromPool_result:
  assumes "pool_inv (pl_pool pl)" and "draws_ok draws (pl_pool pl)"
    and "pickFromPool v draws cands m pl = (r, pl')" and "r \<noteq> []"
  shows "r \<in> set cands \<and> \<not> snd (cachedCreditsScore pl r) \<and> r \<in> pool_accounts (pl_pool pl)"
proof -
  let ?allowed = "filter (\<lambda>i. \<not> snd (cachedCreditsScore pl i)) cands"
  obtain n p' where "draw_allowed (pool_draw v draws m) (\<lambda>u. u \<in> set ?allowed) n 0 []
      (pl_pool pl) = (r, p')"
    using assms(3,4) by (auto simp: pickFromPool_def Let_def split: if_splits prod.splits)
  from pool_picker.draw_allowed_sound [OF conjI [OF assms(1,2)] this assms(4)] show ?thesis by simp
qed

text \<open>
  The weighted draw finds what is there. If an offered candidate is eligible in the pool and
  its cached credits are not exhausted, \<open>pickFromPool\<close> returns an offered candidate with credits;
  it never gives up because of accounts that were drawn but not offered. Whatever it returns is an
  account of the pool that was offered and is not exhausted.
\<close>

theorem pickFromPool_finds:
  assumes "pool_inv (pl_pool pl)" and "draws_ok draws (pl_pool pl)" and "[] \<notin> set cands"
    and "pickFromPool v draws cands m pl = (r, pl')"
  shows "(r \<noteq> [] \<longrightarrow> r \<in> set cands \<and> \<not> snd (cachedCreditsScore pl r) \<and>
      r \<in> pool_accounts (pl_pool pl)) \<and>
    (c \<in> set cands \<and> \<not> snd (cachedCreditsScore pl c) \<and>
      eligible_uid v (pl_pool pl) (pe_now (fst (draws 0))) [] m [] c \<longrightarrow> r \<noteq> [])"
proof -
  let ?allowed = "filter (\<lambda>i. \<not> snd (cachedCreditsScore pl i)) cands"
  have "r \<noteq> []" if c: "c \<in> set cands" "\<not> snd (cachedCreditsScore pl c)"
    "eligible_uid v (pl_pool pl) (pe_now (fst (draws 0))) [] m [] c"
  proof -
    have "c \<in> set ?allowed" using c by simp
    then have ne: "?allowed \<noteq> []" "cands \<noteq> []" by (auto simp: filter_empty_conv)
    obtain p' where d: "draw_allowed (pool_draw v draws m) (\<lambda>u. u \<in> set ?allowed)
        (length (p_byUID (pl_pool pl)) + length cands) 0 [] (pl_pool pl) = (r, p')"
      using assms(4) ne by (auto simp: pickFromPool_def Let_def split: if_splits prod.splits)
    have "card (pool_accounts (pl_pool pl) - set []) \<le> length (p_byUID (pl_pool pl)) + length cands"
      using card_length [of "gm_keys (p_byUID (pl_pool pl))"]
      by (simp add: pool_accounts_def gm_keys_def)
    from pool_picker.draw_allowed_complete [OF conjI [OF assms(1,2)] c(3) _ _ this d]
    have "r \<in> set ?allowed" using \<open>c \<in> set ?allowed\<close> by simp
    with assms(3) show ?thesis by auto
  qed
  with pickFromPool_result [OF assms(1,2,4)] show ?thesis by blast
qed

definition demo_plugin :: plugin where
  "demo_plugin = \<lparr>pl_pool = demo_pool, pl_active = [], pl_mode = ''credits'', pl_cache = []\<rparr>"

definition demo_draws :: draws where
  "demo_draws i = (demo_env (10 * Hour), demo_rand 0)"

lemma demo_draws_ok: "draws_ok demo_draws demo_pool"
  using demo_env_ok [OF demo_keys] demo_rand_ok
  by (auto simp: draws_ok_def demo_draws_def demo_env_def time_units)

theorem pickFromPool_finds_witness:
  "fst (pickFromPool demo_vars demo_draws [''b''] ''m'' demo_plugin) = ''b''"
proof -
  let ?r = "pickFromPool demo_vars demo_draws [''b''] ''m'' demo_plugin"
  have "eligible_uid demo_vars demo_pool (pe_now (fst (demo_draws 0))) [] ''m'' [] ''b''"
    by (simp add: eligible_uid_def, rule exI [of _ "new_entry (named_auth ''b'')"]) code_simp
  moreover have "\<not> snd (cachedCreditsScore demo_plugin ''b'')" by code_simp
  moreover have "pl_pool demo_plugin = demo_pool" by (simp add: demo_plugin_def)
  ultimately show ?thesis
    using pickFromPool_finds [of demo_plugin demo_draws "[''b'']" demo_vars "''m''" "fst ?r" "snd ?r"
        "''b''"] demo_pool_inv demo_draws_ok by simp
qed

section \<open>The scheduler callback\<close>

lemma pickActiveAuth_in:
  assumes "pickActiveAuth cands active = (r, active')" and "r \<noteq> []"
  shows "r \<in> ac_ID ` set cands"
proof (cases "cands = []")
  case True
  with assms show ?thesis by (simp add: pickActiveAuth_def)
next
  case False
  have cur: "getActiveAuthID active \<in> ac_ID ` set cands"
    if "gm_get (byID cands) (getActiveAuthID active) \<noteq> None"
    using that get_byID_None [of cands "getActiveAuthID active"] by metis
  have "first_ready cands \<in> ac_ID ` set cands" if "first_ready cands \<noteq> []"
    using first_ready_in [OF that] by (auto simp: image_iff) metis
  moreover have "ac_ID (hd cands) \<in> ac_ID ` set cands" using False by simp
  ultimately show ?thesis
    using assms False cur
    by (auto simp: pickActiveAuth_def Let_def split: if_splits option.splits)
      (metis False hd_in_set imageI)
qed

lemma active_view_ids: "ac_ID ` set (active_view pl cands) = cd_ID ` set cands"
  by (auto simp: active_view_def image_iff)

lemma pool_inv_ensure:
  "pool_inv (pl_pool pl) \<Longrightarrow> pool_inv (pl_pool (ensurePoolCandidates ids pl))"
  unfolding ensurePoolCandidates_def
proof (induction ids arbitrary: pl)
  case (Cons i ids)
  have "pool_inv (Add (zero_auth\<lparr>a_UID := i\<rparr>) (pl_pool pl))"
    using Cons.prems by (simp add: Add_def pool_inv_upsert)
  then show ?case
    using Cons by (simp add: Let_def SetCredits_def set_credits.touch_inv split: prod.split)
qed simp

lemma pickFromPool_offered:
  "pickFromPool v draws cands m pl = (r, pl') \<Longrightarrow> r \<noteq> [] \<Longrightarrow> r \<in> set cands"
  by (auto simp: pickFromPool_def Let_def split: if_splits prod.splits dest!: draw_allowed_only)

text \<open>The answer, by the path that the callback takes.\<close>

lemma handle_offered:
  assumes "handleSchedulerPick v executable draws (Some req) pl = (Some resp, pl')"
    and "rs_Handled resp" and "wb = live_candidates executable pl (rq_Candidates req)"
  shows "rs_AuthID resp \<in> cd_ID ` set wb"
proof -
  have mode: "pl_mode pl = schedulerModeCredits" and wb: "wb \<noteq> []"
    using assms by (auto simp: handleSchedulerPick_def deferred_def Let_def split: if_splits)
  define ep where "ep = (if getActiveAuthID (pl_active pl) \<noteq> [] then
     case pickActiveAuth (active_view pl wb) (pl_active pl) of
       (picked, active') \<Rightarrow> (picked, pl\<lparr>pl_active := active'\<rparr>) else ([], pl))"
  obtain early pl1 where ep: "ep = (early, pl1)" by (meson surj_pair)
  have early: "early \<in> cd_ID ` set wb" if "early \<noteq> []"
    using that ep pickActiveAuth_in [of "active_view pl wb" "pl_active pl" early]
    by (auto simp: ep_def active_view_ids split: if_splits prod.splits)
  note res = assms(1) [unfolded handleSchedulerPick_def option.case mode assms(3) [symmetric]
      Let_def ep_def [symmetric] ep]
  show ?thesis
  proof (cases "early \<noteq> []")
    case True
    with res wb early show ?thesis by (auto simp: handled_def)
  next
    case no_early: False
    show ?thesis
    proof (cases "length wb = 1")
      case True
      with res wb no_early show ?thesis by (auto simp: handled_def)
    next
      case False
      obtain picked pl3 where p: "pickFromPool v draws (map cd_ID wb) (rq_Model req)
          (ensurePoolCandidates (map cd_ID wb) pl1) = (picked, pl3)" by (meson surj_pair)
      obtain picked' active' where a: "pickActiveAuth (active_view pl3 wb) (pl_active pl3) =
          (picked', active')" by (meson surj_pair)
      have "picked \<noteq> [] \<Longrightarrow> picked \<in> cd_ID ` set wb" "picked' \<noteq> [] \<Longrightarrow> picked' \<in> cd_ID ` set wb"
        using pickFromPool_offered [OF p] pickActiveAuth_in [OF a] by (auto simp: active_view_ids)
      with res wb no_early False p a assms(2) show ?thesis
        by (auto simp: handled_def deferred_def split: if_splits)
    qed
  qed
qed

text \<open>
  (C26) Only live candidates are routed to. In any mode but \<open>credits\<close> the plugin defers and changes
  nothing. A handled answer names one of the offered candidates that belongs to this provider, is
  disabled neither by the host nor by the operator, and whose models are ready; if no offered
  candidate is such, the plugin defers.
\<close>

theorem scheduler_routes_live:
  assumes "handleSchedulerPick v executable draws (Some req) pl = (Some resp, pl')"
  shows "(pl_mode pl \<noteq> ''credits'' \<longrightarrow> resp = deferred \<and> pl' = pl) \<and>
    (rs_Handled resp \<longrightarrow> (\<exists>c \<in> set (rq_Candidates req). cd_ID c = rs_AuthID resp \<and>
       cd_Provider c = ''workbuddy'' \<and> \<not> candidateDisabled c \<and>
       \<not> manualDisabledForAuthUID pl (cd_ID c) \<and> executable (cd_ID c)))"
proof -
  have "rs_Handled resp \<Longrightarrow> rs_AuthID resp \<in> cd_ID ` set (live_candidates executable pl (rq_Candidates req))"
    using handle_offered [OF assms _ refl] .
  moreover have "pl_mode pl \<noteq> ''credits'' \<longrightarrow> resp = deferred \<and> pl' = pl"
    using assms by (auto simp: handleSchedulerPick_def schedulerModeCredits_def)
  ultimately show ?thesis unfolding live_candidates_def providerName_def by fastforce
qed

definition demo_candidate :: "string \<Rightarrow> candidate" where
  "demo_candidate i = \<lparr>cd_ID = i, cd_Provider = ''workbuddy'', cd_Status = ''active'', cd_Metadata = []\<rparr>"

definition demo_request :: pick_request where
  "demo_request = \<lparr>rq_Model = ''m'', rq_Candidates = [demo_candidate ''a'', demo_candidate ''b'']\<rparr>"

theorem scheduler_routes_live_witness:
  "\<exists>c \<in> set (rq_Candidates demo_request).
     cd_ID c = rs_AuthID (the (fst (handleSchedulerPick demo_vars (\<lambda>i. True) demo_draws
       (Some demo_request) demo_plugin))) \<and> \<not> manualDisabledForAuthUID demo_plugin (cd_ID c)"
proof -
  let ?r = "handleSchedulerPick demo_vars (\<lambda>i. True) demo_draws (Some demo_request) demo_plugin"
  have "fst ?r = Some (handled ''a'')" by code_simp
  then have "?r = (Some (handled ''a''), snd ?r)" by (simp add: prod_eq_iff)
  from scheduler_routes_live [OF this] \<open>fst ?r = _\<close> show ?thesis
    by (auto simp: handled_def)
qed

text \<open>
  The panel's selection overrides the pool. Once an account is selected, the answer is the
  panel's choice among the live candidates, whatever cooldowns, breakers or weights the pool holds:
  replacing the pool by any other with the same operator switches gives the same answer, and the
  pool is not consulted, not even to note the use.
\<close>

theorem selection_overrides_pool:
  assumes "getActiveAuthID (pl_active pl) \<noteq> []" and "pl_mode pl = ''credits''"
    and "\<And>i. manualDisabledForAuthUID pl i = manualDisabledForAuthUID (pl\<lparr>pl_pool := q\<rparr>) i"
    and "\<And>c. c \<in> set (rq_Candidates req) \<Longrightarrow> cd_ID c \<noteq> []"
  shows "fst (handleSchedulerPick v executable draws (Some req) pl) =
      fst (handleSchedulerPick v' executable draws' (Some req) (pl\<lparr>pl_pool := q\<rparr>)) \<and>
    pl_pool (snd (handleSchedulerPick v executable draws (Some req) pl)) = pl_pool pl"
proof -
  let ?wb = "live_candidates executable pl (rq_Candidates req)"
  have wb: "live_candidates executable (pl\<lparr>pl_pool := q\<rparr>) (rq_Candidates req) = ?wb"
    using assms(3) by (simp add: live_candidates_def)
  have view: "active_view (pl\<lparr>pl_pool := q\<rparr>) ?wb = active_view pl ?wb"
    by (simp add: active_view_def cachedCreditsScore_def)
  show ?thesis
  proof (cases "?wb = []")
    case True
    then show ?thesis using wb by (simp add: handleSchedulerPick_def Let_def)
  next
    case False
    obtain r act where pa: "pickActiveAuth (active_view pl ?wb) (pl_active pl) = (r, act)"
      by (meson surj_pair)
    have ids: "ac_ID c \<noteq> []" if "c \<in> set (active_view pl ?wb)" for c
      using that assms(4) by (auto simp: active_view_def live_candidates_def)
    have "active_view pl ?wb \<noteq> []" using False by (simp add: active_view_def)
    then have "r \<noteq> []"
      using pa assms(1) ids [of "hd (active_view pl ?wb)"]
      by (auto simp: pickActiveAuth_def Let_def split: if_splits)
    then show ?thesis
      using assms(1,2) False pa wb view
      by (simp add: handleSchedulerPick_def Let_def schedulerModeCredits_def)
  qed
qed

definition cooled_plugin :: plugin where
  "cooled_plugin = demo_plugin\<lparr>pl_active := ''a'',
     pl_pool := Disable ''a'' ''12153'' (CooldownUntilTomorrow4AM 0 Hour Hour ''a'' ''402'' demo_pool)\<rparr>"

theorem selection_overrides_pool_witness:
  "fst (handleSchedulerPick demo_vars (\<lambda>i. True) demo_draws (Some demo_request) cooled_plugin) =
   fst (handleSchedulerPick demo_vars (\<lambda>i. True) demo_draws (Some demo_request)
     (cooled_plugin\<lparr>pl_pool := demo_pool\<rparr>))"
proof (rule conjunct1 [OF selection_overrides_pool])
  show "getActiveAuthID (pl_active cooled_plugin) \<noteq> []" by code_simp
  show "pl_mode cooled_plugin = ''credits''" by code_simp
  show "\<And>c. c \<in> set (rq_Candidates demo_request) \<Longrightarrow> cd_ID c \<noteq> []"
    by (auto simp: demo_request_def demo_candidate_def)
  show "\<And>i. manualDisabledForAuthUID cooled_plugin i =
      manualDisabledForAuthUID (cooled_plugin\<lparr>pl_pool := demo_pool\<rparr>) i"
    by (auto simp: manualDisabledForAuthUID_def ManualDisabledState_def cooled_plugin_def Let_def
        Disable_def CooldownUntilTomorrow4AM_def Cooldown_def get_touch_entry disableLocked_def
        clearCoolingLocked_def Cooldown_e_def split: option.split)
qed

section \<open>Recording failures\<close>

lemmas failure_ops = applyUpstreamError_def BlockModelBackoff_def CooldownSoftForModel_def
  CooldownSoftRate_def CooldownUntilTomorrow4AM_def Cooldown_def NoteSessionDead_def NoteError_def

lemma failure_frame:
  "w \<noteq> u \<Longrightarrow> gm_get (p_byUID (applyUpstreamError lib off now now2 u m status body p)) w =
     gm_get (p_byUID p) w"
  by (auto simp: failure_ops get_touch_entry split: ErrKind.split option.split)

lemma soft_backoff_runs:
  assumes "0 < base" and "e' = soft_backoff p now base e"
  shows "now < e_until e'"
proof (cases "e_coolKind e \<noteq> CoolSoft \<or> \<not> now < e_until e")
  case True
  have "0 < softDurationLocked p base (e_softStreak e + 1)"
    using assms(1) softDuration_range [of "e_softStreak e + 1" p base]
      softDuration_first [of "e_softStreak e + 1" p base]
    by (cases "1 < e_softStreak e + 1") auto
  with True show ?thesis by (auto simp: assms(2) soft_backoff_def)
qed (auto simp: assms(2) soft_backoff_def)

lemma block_ttl_pos: "0 \<le> n \<Longrightarrow> 0 < block_ttl (n + 1)"
  by (simp add: block_ttl_eq modelBlockBaseTTL_def modelBlockMaxTTL_def time_units)

text \<open>
  (C27) A failure takes the account out of selection at once, and only that account. After an
  exhausted balance, a limit or a model the backend does not serve, the account is not eligible for
  the failed model any more; no other account changes at all. The kinds that the client describes as
  account faults, WAF blocks or missing resources change nothing, exactly like errors of the
  request itself.
\<close>

theorem failure_avoids_account:
  assumes "0 \<le> now" and "now \<le> now2" and "m \<noteq> []" and "u \<noteq> []"
    and "\<And>e mc. gm_get (p_byUID p) u = Some e \<Longrightarrow> gm_get (e_modelCooldowns e) m = Some mc \<Longrightarrow> 0 \<le> mc_Hits mc"
    and "p' = applyUpstreamError lib off now now2 u m status body p"
  shows "(Classify lib status body \<in> {ErrHardCredit, ErrSoftRate, ErrModelBlocked} \<longrightarrow>
      \<not> eligible_uid v p' now tried m realm u) \<and>
    (\<forall>w. w \<noteq> u \<longrightarrow> gm_get (p_byUID p') w = gm_get (p_byUID p) w) \<and>
    (Classify lib status body \<in> {ErrAccountFault, ErrWafBlock, ErrNotFound, ErrClient, ErrBadParams,
      ErrContentBlocked, ErrPromptTooLong, ErrNone} \<longrightarrow> p' = p)"
proof -
  have "\<not> eligible_uid v p' now tried m realm u"
    if kind: "Classify lib status body \<in> {ErrHardCredit, ErrSoftRate, ErrModelBlocked}"
  proof (cases "gm_get (p_byUID p) u")
    case None
    then have "gm_get (p_byUID p') u = None"
      using kind assms(3,4) by (auto simp: assms(6) failure_ops get_touch_entry)
    then show ?thesis by (simp add: eligible_uid_def)
  next
    case (Some e)
    note bounds = nextDay4AM_bounds(1) [of now off]
    have hard: "now < now2 + Sub (nextDay4AM off now) now"
      using bounds nextDay4AM_bounds(2) [of off now] assms(2)
      by (simp add: Sub_def maxDuration_def minDuration_def Hour_ns Let_def)
    have soft: "now < e_until (soft_backoff p now (10 * Minute) e)"
      by (rule soft_backoff_runs [OF _ refl]) (simp add: time_units)
    have hits: "0 < block_ttl (block_hits m e)"
      using assms(5) [OF Some] block_ttl_pos [of 0] block_ttl_pos
      by (auto simp: block_hits_def split: option.split)
    have cap: "now < cappedSoftUntilLocked p now t" "cappedSoftUntilLocked p now t \<noteq> 0" for t
      using cappedSoftUntil_after [of now p t] assms(1) by auto
    have "\<exists>f. gm_get (p_byUID p') u = Some f \<and> \<not> healthyForModel f now m"
    proof -
      consider "Classify lib status body = ErrHardCredit" | "Classify lib status body = ErrModelBlocked"
        | "Classify lib status body = ErrSoftRate" using kind by auto
      then show ?thesis
      proof cases
        case 1
        with Some assms(1,4) hard show ?thesis
          by (auto simp: assms(6) failure_ops get_touch_entry Cooldown_e_def healthyForModel_iff
              healthy_iff running_def)
      next
        case 2
        with Some assms(1,3,4) hits show ?thesis
          by (auto simp: assms(6) failure_ops get_touch_entry BlockModelBackoff_e_def Let_def
              healthyForModel_iff modelCooled_def IsZero_def)
      next
        case 3
        with Some assms(1,3,4) soft cap show ?thesis
          by (auto simp: assms(6) failure_ops get_touch_entry CooldownSoftForModel_e_def
              CooldownSoftRate_e_def healthyForModel_iff modelCooled_def IsZero_def healthy_iff
              running_def dest: order_le_less_trans)
      qed
    qed
    then show ?thesis by (auto simp: eligible_uid_def)
  qed
  moreover have "p' = p" if "Classify lib status body \<in> {ErrAccountFault, ErrWafBlock, ErrNotFound,
      ErrClient, ErrBadParams, ErrContentBlocked, ErrPromptTooLong, ErrNone}"
    using that by (auto simp: assms(6) applyUpstreamError_def)
  ultimately show ?thesis using failure_frame assms(6) by blast
qed

theorem failure_avoids_account_witness:
  "\<not> eligible_uid demo_vars (applyUpstreamError no_json 0 Hour Hour ''a'' ''m'' 402 []
     demo_pool) Hour [] ''m'' [] ''a''"
proof -
  have kind: "Classify no_json 402 [] = ErrHardCredit" by code_simp
  have "gm_get (p_byUID demo_pool) ''a'' = Some (new_entry (named_auth ''a''))" by code_simp
  then have hits: "gm_get (p_byUID demo_pool) ''a'' = Some e \<Longrightarrow>
      gm_get (e_modelCooldowns e) ''m'' = Some mc \<Longrightarrow> 0 \<le> mc_Hits mc" for e mc
    by (auto simp: new_entry_def)
  have "0 \<le> Hour" by (simp add: time_units)
  then show ?thesis
    using failure_avoids_account [of Hour Hour "''m''" "''a''" demo_pool _ no_json 0 402 "[]",
        OF _ _ _ _ hits refl] kind
    by simp
qed

end
