(* ===== verification/ToolPairing.thy ===== *)
theory ToolPairing
  imports Classify
begin

text \<open>
  Repairing the tool traffic of an outgoing request, after
  \<^verbatim>\<open>src/internal/upstream/tool_pairing.go\<close>: moving interposed messages behind a block of tool
  results, removing calls without result and results without call, and merging adjacent messages
  that declare calls. Messages are decoded JSON values. The code updates the message objects in
  place; as no two messages share an object after decoding, this is a new list of messages here.
\<close>

section \<open>Reading a message\<close>

definition members :: "json \<Rightarrow> (string \<times> json) list" where
  "members m = (case m of JObj fs \<Rightarrow> fs | _ \<Rightarrow> [])"

definition is_obj :: "json \<Rightarrow> bool" where
  "is_obj m = (case m of JObj fs \<Rightarrow> True | _ \<Rightarrow> False)"

text \<open>\<open>s, _ := m[k].(string)\<close>, and the array, the object and the number likewise; \<open>None\<close> is the failed assertion.\<close>

definition str_of :: "string \<Rightarrow> json \<Rightarrow> string" where
  "str_of k m = (case gm_get (members m) k of Some (JStr s) \<Rightarrow> s | _ \<Rightarrow> [])"

definition arr_of :: "string \<Rightarrow> json \<Rightarrow> json list option" where
  "arr_of k m = (case gm_get (members m) k of Some (JArr xs) \<Rightarrow> Some xs | _ \<Rightarrow> None)"

definition obj_of :: "string \<Rightarrow> json \<Rightarrow> (string \<times> json) list option" where
  "obj_of k m = (case gm_get (members m) k of Some (JObj fs) \<Rightarrow> Some fs | _ \<Rightarrow> None)"

definition jnum_of :: "string \<Rightarrow> json \<Rightarrow> rat option" where
  "jnum_of k m = (case gm_get (members m) k of Some (JNum v) \<Rightarrow> Some v | _ \<Rightarrow> None)"

definition set_member :: "string \<Rightarrow> json \<Rightarrow> json \<Rightarrow> json" where
  "set_member k v m = (case m of JObj fs \<Rightarrow> JObj (gm_put k v fs) | _ \<Rightarrow> m)"

definition del_member :: "string \<Rightarrow> json \<Rightarrow> json" where
  "del_member k m = (case m of JObj fs \<Rightarrow> JObj (gm_del k fs) | _ \<Rightarrow> m)"

definition has_role :: "string \<Rightarrow> json \<Rightarrow> bool" where
  "has_role r m = (is_obj m \<and> gm_get (members m) ''role'' = Some (JStr r))"

definition calls_of :: "json \<Rightarrow> json list" where
  "calls_of m = (case arr_of ''tool_calls'' m of None \<Rightarrow> [] | Some xs \<Rightarrow> xs)"

abbreviation is_tool :: "json \<Rightarrow> bool" where
  "is_tool \<equiv> has_role ''tool''"

section \<open>Repacking the results of a batch\<close>

definition is_head :: "json \<Rightarrow> bool" where
  "is_head m = (has_role ''assistant'' m \<and> calls_of m \<noteq> [])"

definition wanted_ids :: "json \<Rightarrow> string list" where
  "wanted_ids m = filter (\<lambda>i. i \<noteq> []) (map (str_of ''id'') (filter is_obj (calls_of m)))"

text \<open>
  The inner loop: collects results and interposed messages; the last component is where it stops.
\<close>

fun gather ::
  "string list \<Rightarrow> json list \<Rightarrow> json list \<Rightarrow> bool \<Rightarrow> bool \<Rightarrow> json list \<Rightarrow>
   json list \<times> json list \<times> bool \<times> json list" where
  "gather want results between saw changed [] = (results, between, changed, [])"
| "gather want results between saw changed (m # ms) =
     (if \<not> is_obj m then (results, between, changed, m # ms)
      else if is_tool m then
        (if str_of ''tool_call_id'' m \<notin> set want then (results, between, changed, m # ms)
         else gather want (results @ [m]) between saw (changed \<or> saw) ms)
      else if results = [] then (results, between, changed, m # ms)
      else if is_head m then (results, between, changed, m # ms)
      else gather want results (between @ [m]) True changed ms)"

lemma gather_length:
  "gather want rs bs saw ch ms = (r, b, c, rest) \<Longrightarrow> length rest \<le> length ms"
  by (induction want rs bs saw ch ms rule: gather.induct) (auto split: if_splits)

function repack_loop :: "bool \<Rightarrow> json list \<Rightarrow> json list \<times> bool" where
  "repack_loop changed [] = ([], changed)"
| "repack_loop changed (m # ms) =
     (if \<not> is_head m then
        (case repack_loop changed ms of (out, c) \<Rightarrow> (m # out, c))
      else case gather (wanted_ids m) [] [] False changed ms of
        (results, between, c, rest) \<Rightarrow>
          (case repack_loop c rest of (out, c') \<Rightarrow> (m # results @ between @ out, c')))"
  by pat_completeness auto

termination
  by (relation "measure (\<lambda>(changed, ms). length ms)")
    (auto dest: sym [THEN gather_length])

definition repackToolResultBlocks :: "json list \<Rightarrow> json list \<times> bool" where
  "repackToolResultBlocks messages =
     (if length messages < 3 then (messages, False)
      else case repack_loop False messages of
        (out, changed) \<Rightarrow> if \<not> changed then (messages, False) else (out, True))"

section \<open>Removing unpaired calls and results\<close>

definition toolCallNameEmpty :: "json \<Rightarrow> bool" where
  "toolCallNameEmpty tc = (case gm_get (members tc) ''function'' of
      Some (JObj fn) \<Rightarrow> (case gm_get fn ''name'' of
        Some (JStr name) \<Rightarrow> TrimSpace name = []
      | _ \<Rightarrow> False)
    | _ \<Rightarrow> False)"

definition call_objs :: "json list \<Rightarrow> json list" where
  "call_objs messages = filter (\<lambda>tc. is_obj tc \<and> str_of ''id'' tc \<noteq> [])
     (concat (map calls_of (filter (has_role ''assistant'') messages)))"

definition callIDs :: "json list \<Rightarrow> string list" where
  "callIDs messages = map (str_of ''id'') (call_objs messages)"

definition nameBadIDs :: "json list \<Rightarrow> string list" where
  "nameBadIDs messages = map (str_of ''id'') (filter toolCallNameEmpty (call_objs messages))"

definition resultIDs :: "json list \<Rightarrow> string list" where
  "resultIDs messages = filter (\<lambda>i. i \<noteq> [])
     (map (str_of ''tool_call_id'') (filter is_tool messages))"

definition keepCalls :: "json list \<Rightarrow> string \<Rightarrow> bool" where
  "keepCalls messages i = (i \<in> set (callIDs messages) \<and> i \<notin> set (nameBadIDs messages) \<and>
     i \<in> set (resultIDs messages))"

definition kept_calls :: "(string \<Rightarrow> bool) \<Rightarrow> json list \<Rightarrow> json list" where
  "kept_calls keep tcs = filter (\<lambda>tc. is_obj tc \<and> keep (str_of ''id'' tc)) tcs"

definition trim_calls :: "(string \<Rightarrow> bool) \<Rightarrow> json \<Rightarrow> json" where
  "trim_calls keep m =
     (if \<not> is_head m then m
      else let tcs = calls_of m; kept = kept_calls keep tcs in
        if length kept = length tcs then m
        else if kept = [] then del_member ''tool_calls'' m
        else set_member ''tool_calls'' (JArr kept) m)"

definition trims :: "(string \<Rightarrow> bool) \<Rightarrow> json \<Rightarrow> bool" where
  "trims keep m = (is_head m \<and> length (kept_calls keep (calls_of m)) \<noteq> length (calls_of m))"

definition drops :: "(string \<Rightarrow> bool) \<Rightarrow> json \<Rightarrow> bool" where
  "drops keep m = (is_tool m \<and> \<not> keep (str_of ''tool_call_id'' m))"

definition cleanupOrphanToolCalls :: "json list \<Rightarrow> json list \<times> bool" where
  "cleanupOrphanToolCalls messages =
     (if messages = [] then (messages, False)
      else if callIDs messages = [] \<and> resultIDs messages = [] then (messages, False)
      else let keep = keepCalls messages;
               trimmed = map (trim_calls keep) messages;
               kept = filter (\<lambda>m. \<not> drops keep m) trimmed
           in if \<not> (list_ex (trims keep) messages \<or> list_ex (drops keep) trimmed)
              then (messages, False) else (kept, True))"

section \<open>Merging adjacent declarations\<close>

definition emptyContent :: "json option \<Rightarrow> bool" where
  "emptyContent v = (case v of
      None \<Rightarrow> True
    | Some JNull \<Rightarrow> True
    | Some (JStr s) \<Rightarrow> s = []
    | Some (JArr xs) \<Rightarrow> xs = []
    | _ \<Rightarrow> False)"

definition mergeReasoningContent :: "json \<Rightarrow> json \<Rightarrow> json" where
  "mergeReasoningContent dst src =
     (let rc = str_of ''reasoning_content'' src in
      if rc = [] then dst
      else let prevRC = str_of ''reasoning_content'' dst in
        if prevRC \<noteq> [] then set_member ''reasoning_content'' (JStr (prevRC @ [CHR 0x0A] @ rc)) dst
        else set_member ''reasoning_content'' (JStr rc) dst)"

text \<open>One round of the loop; the last message of \<open>out\<close> is the one that may be extended.\<close>

definition merge_step :: "json list \<times> bool \<Rightarrow> json \<Rightarrow> json list \<times> bool" where
  "merge_step st m = (case st of (out, changed) \<Rightarrow>
     if \<not> is_obj m then (out @ [m], changed)
     else if has_role ''assistant'' m \<and> out \<noteq> [] \<and> is_head (last out) \<and> calls_of m \<noteq> [] \<and>
       emptyContent (gm_get (members m) ''content'')
     then (butlast out @ [mergeReasoningContent
        (set_member ''tool_calls'' (JArr (calls_of (last out) @ calls_of m)) (last out)) m], True)
     else if has_role ''assistant'' m \<and> out \<noteq> [] \<and> gm_get (members m) ''tool_calls'' = None \<and>
       str_of ''content'' m \<noteq> [] \<and> is_head (last out) \<and>
       emptyContent (gm_get (members (last out)) ''content'')
     then (butlast out @ [mergeReasoningContent
        (set_member ''content'' (JStr (str_of ''content'' m)) (last out)) m], True)
     else (out @ [m], changed))"

definition mergeAdjacentToolCalls :: "json list \<Rightarrow> json list \<times> bool" where
  "mergeAdjacentToolCalls messages =
     (if length messages < 2 then (messages, False)
      else case foldl merge_step ([], False) messages of
        (out, changed) \<Rightarrow> if \<not> changed then (messages, False) else (out, True))"

section \<open>Facts about repacking\<close>

definition plain :: "json \<Rightarrow> bool" where
  "plain m = (is_obj m \<and> \<not> is_tool m \<and> \<not> is_head m)"

definition wanted_result :: "string list \<Rightarrow> json \<Rightarrow> bool" where
  "wanted_result want m = (is_tool m \<and> str_of ''tool_call_id'' m \<in> set want)"

text \<open>Where the inner loop stops, given whether it has results already.\<close>

definition stops :: "string list \<Rightarrow> bool \<Rightarrow> json list \<Rightarrow> bool" where
  "stops want got ms = (case ms of [] \<Rightarrow> True
    | m # _ \<Rightarrow> \<not> wanted_result want m \<and> (got \<longrightarrow> \<not> plain m))"

lemma head_not_tool: "is_head m \<Longrightarrow> \<not> is_tool m"
  by (auto simp: is_head_def has_role_def)

lemma gather_spec:
  "gather want rs bs saw ch ms = (r, b, c, rest) \<Longrightarrow>
   \<exists>pre. ms = pre @ rest \<and> r = rs @ filter is_tool pre \<and> b = bs @ filter (\<lambda>m. \<not> is_tool m) pre \<and>
     (\<forall>m \<in> set pre. wanted_result want m \<or> plain m) \<and> (r = [] \<longrightarrow> pre = []) \<and>
     (\<not> c \<longrightarrow> \<not> ch \<and> (saw \<longrightarrow> filter is_tool pre = []) \<and>
        pre = filter is_tool pre @ filter (\<lambda>m. \<not> is_tool m) pre) \<and>
     stops want (r \<noteq> []) rest"
proof (induction want rs bs saw ch ms arbitrary: r b c rest rule: gather.induct)
  case (1 want rs bs saw ch)
  then show ?case by (simp add: stops_def)
next
  case (2 want rs bs saw ch m ms)
  consider (stop) "gather want rs bs saw ch (m # ms) = (rs, bs, ch, m # ms)"
      "stops want (rs \<noteq> []) (m # ms)"
    | (tool) "is_obj m" "is_tool m" "str_of ''tool_call_id'' m \<in> set want"
    | (plain) "is_obj m" "\<not> is_tool m" "rs \<noteq> []" "\<not> is_head m"
    by (cases "is_obj m"; cases "is_tool m"; cases "rs = []"; cases "is_head m")
      (auto simp: stops_def wanted_result_def plain_def has_role_def)
  then show ?case
  proof cases
    case stop
    with 2(3) show ?thesis by (intro exI [of _ "[]"]) auto
  next
    case tool
    with 2(3) have "gather want (rs @ [m]) bs saw (ch \<or> saw) ms = (r, b, c, rest)" by simp
    from 2(1) [OF _ tool(2) _ this] tool obtain pre where "ms = pre @ rest"
      "r = (rs @ [m]) @ filter is_tool pre" "b = bs @ filter (\<lambda>m. \<not> is_tool m) pre"
      "\<forall>m \<in> set pre. wanted_result want m \<or> plain m"
      "\<not> c \<longrightarrow> \<not> (ch \<or> saw) \<and> (saw \<longrightarrow> filter is_tool pre = []) \<and>
        pre = filter is_tool pre @ filter (\<lambda>m. \<not> is_tool m) pre"
      "stops want (r \<noteq> []) rest" by auto
    with tool show ?thesis
      by (intro exI [of _ "m # pre"]) (auto simp: wanted_result_def)
  next
    case plain
    with 2(3) have "gather want rs (bs @ [m]) True ch ms = (r, b, c, rest)" by simp
    from 2(2) [OF _ plain(2,3,4) this] plain obtain pre where "ms = pre @ rest"
      "r = rs @ filter is_tool pre" "b = (bs @ [m]) @ filter (\<lambda>m. \<not> is_tool m) pre"
      "\<forall>m \<in> set pre. wanted_result want m \<or> plain m"
      "\<not> c \<longrightarrow> \<not> ch \<and> (True \<longrightarrow> filter is_tool pre = []) \<and>
        pre = filter is_tool pre @ filter (\<lambda>m. \<not> is_tool m) pre"
      "stops want (r \<noteq> []) rest" by auto
    with plain show ?thesis
      by (intro exI [of _ "m # pre"]) (auto simp: plain_def)
  qed
qed

text \<open>The collected results and what was between them, when there is nothing more to move.\<close>

lemma gather_packed:
  assumes "\<forall>m \<in> set r. wanted_result want m" and "\<forall>m \<in> set b. plain m" and "r = [] \<longrightarrow> b = []"
    and "stops want (r \<noteq> []) rest"
  shows "gather want [] [] False ch (r @ b @ rest) = (r, b, ch, rest)"
proof -
  have stop: "gather want rs bs saw ch rest = (rs, bs, ch, rest)" if "rs = [] \<longleftrightarrow> r = []" for rs bs saw
    using assms(4) that
    by (cases rest) (auto simp: stops_def wanted_result_def plain_def)
  have mid: "gather want rs bs saw ch (b' @ rest) = (rs, bs @ b', ch, rest)"
    if "rs = [] \<longleftrightarrow> r = []" "\<forall>m \<in> set b'. plain m" "rs = [] \<longrightarrow> b' = []" for rs bs saw b'
    using that stop by (induction b' arbitrary: bs saw) (auto simp: plain_def)
  have "gather want rs [] False ch (r' @ b @ rest) = (rs @ r', b, ch, rest)"
    if "rs @ r' = r" for rs r'
    using that
  proof (induction r' arbitrary: rs)
    case Nil
    then show ?case using mid [of rs b "[]" False] assms(2,3) by auto
  next
    case (Cons m r')
    then have "wanted_result want m" using assms(1) by auto
    then have "is_obj m" "is_tool m" "str_of ''tool_call_id'' m \<in> set want"
      by (auto simp: wanted_result_def has_role_def)
    with Cons show ?case by simp
  qed
  from this [of "[]" r] show ?thesis by simp
qed

lemma repack_spec:
  "repack_loop ch ms = (out, c) \<Longrightarrow>
   filter is_tool out = filter is_tool ms \<and>
   filter (\<lambda>m. \<not> is_tool m) out = filter (\<lambda>m. \<not> is_tool m) ms \<and>
   (ms \<noteq> [] \<longrightarrow> out \<noteq> [] \<and> hd out = hd ms) \<and> (ms = [] \<longrightarrow> out = []) \<and>
   (\<not> c \<longrightarrow> \<not> ch \<and> out = ms) \<and> repack_loop ch' out = (out, ch')"
proof (induction ch ms arbitrary: out c ch' rule: repack_loop.induct)
  case (1 ch)
  then show ?case by auto
next
  case (2 ch m ms)
  show ?case
  proof (cases "is_head m")
    case False
    obtain o' c' where rec: "repack_loop ch ms = (o', c')" by (meson surj_pair)
    with 2(3) False have out: "out = m # o'" "c = c'" by auto
    from 2(1) [OF False rec] show ?thesis using out False by auto
  next
    case True
    obtain r b c1 rest where g: "gather (wanted_ids m) [] [] False ch ms = (r, b, c1, rest)"
      by (metis prod_cases4)
    obtain o' c' where rec: "repack_loop c1 rest = (o', c')" by (meson surj_pair)
    with 2(3) True g have out: "out = m # r @ b @ o'" "c = c'" by auto
    from gather_spec [OF g, unfolded append_Nil] obtain pre where pre: "ms = pre @ rest"
      "r = filter is_tool pre"
      "b = filter (\<lambda>m. \<not> is_tool m) pre" "\<forall>x \<in> set pre. wanted_result (wanted_ids m) x \<or> plain x"
      "r = [] \<longrightarrow> pre = []" "\<not> c1 \<longrightarrow> \<not> ch \<and> pre = filter is_tool pre @ filter (\<lambda>m. \<not> is_tool m) pre"
      "stops (wanted_ids m) (r \<noteq> []) rest" by blast
    note IH = 2(2) [OF _ g [symmetric] _ _ rec, simplified, OF True]
    have "stops (wanted_ids m) (r \<noteq> []) o'"
      using pre(7) IH by (cases rest; cases o') (auto simp: stops_def)
    moreover have "\<forall>x \<in> set r. wanted_result (wanted_ids m) x" "\<forall>x \<in> set b. plain x"
      using pre(2-4) by (auto simp: plain_def wanted_result_def)
    ultimately have "gather (wanted_ids m) [] [] False ch' (r @ b @ o') = (r, b, ch', o')"
      using pre(3,5) by (intro gather_packed) auto
    then have "repack_loop ch' out = (out, ch')" using IH True out by simp
    moreover have "\<not> c \<longrightarrow> \<not> ch \<and> out = m # ms"
    proof
      assume "\<not> c"
      then have "\<not> c1" "o' = rest" using IH out by auto
      then have "\<not> ch" "pre = r @ b" using pre(2,3,6) by simp_all
      with \<open>o' = rest\<close> pre(1) out(1) show "\<not> ch \<and> out = m # ms" by simp
    qed
    moreover have "filter is_tool out = filter is_tool (m # ms)"
      "filter (\<lambda>m. \<not> is_tool m) out = filter (\<lambda>m. \<not> is_tool m) (m # ms)"
      using IH pre(1-3) out True head_not_tool [OF True] by auto
    ultimately show ?thesis using out by simp
  qed
qed

end
