(* ===== verification/ToolPairing_Props.thy ===== *)
theory ToolPairing_Props
  imports ToolPairing
begin

text \<open>
  The properties of the repaired tool traffic: repacking reorders and loses nothing, the clean-up
  leaves calls and results that match exactly and is stable, and merging keeps every call and every
  text in order.
\<close>

section \<open>Repacking\<close>

text \<open>
  Repacking only reorders. The tool results keep their order among themselves, so do all other
  messages, and nothing is added or lost; a second pass finds nothing left to move, so every block
  of results is already contiguous behind its calls; and where nothing was moved the list is the
  one that came in.
\<close>

theorem repack_only_reorders:
  "let out = fst (repackToolResultBlocks ms) in
   filter is_tool out = filter is_tool ms \<and>
   filter (\<lambda>m. \<not> is_tool m) out = filter (\<lambda>m. \<not> is_tool m) ms \<and> mset out = mset ms \<and>
   repackToolResultBlocks out = (out, False) \<and>
   (snd (repackToolResultBlocks ms) \<or> out = ms)"
proof -
  obtain out c where r: "repack_loop False ms = (out, c)" by (meson surj_pair)
  note spec = repack_spec [OF r, of False]
  have split: "mset xs = mset (filter is_tool xs) + mset (filter (\<lambda>m. \<not> is_tool m) xs)" for xs
    by (induction xs) auto
  have "mset out = mset (filter is_tool out) + mset (filter (\<lambda>m. \<not> is_tool m) out)"
    by (rule split)
  also have "\<dots> = mset ms" using spec split [of ms] by simp
  finally have ms: "mset out = mset ms" .
  show ?thesis
  proof (cases "length ms < 3 \<or> \<not> c")
    case True
    with r spec show ?thesis by (auto simp: repackToolResultBlocks_def Let_def)
  next
    case False
    moreover have "length out = length ms" using ms by (metis size_mset)
    ultimately show ?thesis using r spec ms by (simp add: repackToolResultBlocks_def Let_def)
  qed
qed

section \<open>Clean-up\<close>

lemma get_members_set:
  "is_obj m \<Longrightarrow> gm_get (members (set_member k v m)) j = (if j = k then Some v else gm_get (members m) j)"
  by (auto simp: is_obj_def members_def set_member_def split: json.splits)

lemma get_members_del:
  "gm_get (members (del_member k m)) j = (if j = k then None else gm_get (members m) j)"
  by (auto simp: members_def del_member_def gm_get_del split: json.splits)

lemma is_obj_set [simp]: "is_obj (set_member k v m) = is_obj m"
  by (auto simp: is_obj_def set_member_def split: json.splits)

lemma is_obj_del [simp]: "is_obj (del_member k m) = is_obj m"
  by (auto simp: is_obj_def del_member_def split: json.splits)

lemma head_obj: "is_head m \<Longrightarrow> is_obj m"
  by (simp add: is_head_def has_role_def)

lemma trim_role [simp]: "has_role r (trim_calls keep m) = has_role r m"
  by (auto simp: trim_calls_def Let_def has_role_def get_members_set get_members_del
      dest: head_obj)

lemma trim_id:
  "is_tool m \<Longrightarrow> trim_calls keep m = m"
  by (auto simp: trim_calls_def dest: head_not_tool)

lemma kept_all: "length (kept_calls keep tcs) = length tcs \<Longrightarrow> kept_calls keep tcs = tcs"
  unfolding kept_calls_def by (metis filter_True length_filter_less nat_neq_iff)

lemma calls_trim:
  assumes "has_role ''assistant'' m"
  shows "calls_of (trim_calls keep m) = kept_calls keep (calls_of m)"
proof (cases "is_head m")
  case True
  note obj = head_obj [OF True]
  show ?thesis
    using True obj kept_all [of keep "calls_of m"]
    by (auto simp: trim_calls_def Let_def calls_of_def arr_of_def get_members_set [OF obj]
        get_members_del)
next
  case False
  with assms have "calls_of m = []" by (simp add: is_head_def)
  with False show ?thesis by (simp add: trim_calls_def kept_calls_def)
qed

lemma call_objs_trim:
  assumes "\<not> keep []"
  shows "call_objs (map (trim_calls keep) ms) = filter (\<lambda>tc. keep (str_of ''id'' tc)) (call_objs ms)"
proof -
  have "map calls_of (filter (has_role ''assistant'') (map (trim_calls keep) ms)) =
      map (kept_calls keep) (map calls_of (filter (has_role ''assistant'') ms))"
    by (simp add: filter_map comp_def calls_trim)
  then have "concat (map calls_of (filter (has_role ''assistant'') (map (trim_calls keep) ms))) =
      kept_calls keep (concat (map calls_of (filter (has_role ''assistant'') ms)))"
    unfolding kept_calls_def by (simp add: filter_concat comp_def)
  with assms show ?thesis
    by (auto simp: call_objs_def kept_calls_def intro!: filter_cong)
qed

lemma drops_not_assistant: "drops keep m \<Longrightarrow> \<not> has_role ''assistant'' m"
  by (auto simp: drops_def has_role_def)

lemma call_objs_drop: "call_objs (filter (\<lambda>m. \<not> drops keep m) ms) = call_objs ms"
proof -
  have "filter (has_role ''assistant'') (filter (\<lambda>m. \<not> drops keep m) ms) =
      filter (has_role ''assistant'') ms"
    by (auto intro: filter_cong dest: drops_not_assistant)
  then show ?thesis by (simp add: call_objs_def)
qed

lemma results_clean:
  assumes "\<not> keep []"
  shows "resultIDs (filter (\<lambda>m. \<not> drops keep m) (map (trim_calls keep) ms)) = filter keep (resultIDs ms)"
  using assms
  by (induction ms) (auto simp: resultIDs_def drops_def trim_id)

text \<open>The clean-up as one formula: where nothing changes, the formula changes nothing either.\<close>

definition cleaned :: "json list \<Rightarrow> json list" where
  "cleaned ms = filter (\<lambda>m. \<not> drops (keepCalls ms) m) (map (trim_calls (keepCalls ms)) ms)"

lemma cleanup_traffic:
  assumes "callIDs ms \<noteq> [] \<or> resultIDs ms \<noteq> []"
  shows "fst (cleanupOrphanToolCalls ms) = cleaned ms"
proof (cases "list_ex (trims (keepCalls ms)) ms \<or>
    list_ex (drops (keepCalls ms)) (map (trim_calls (keepCalls ms)) ms)")
  case True
  moreover have "ms \<noteq> []" using assms by (auto simp: callIDs_def call_objs_def resultIDs_def)
  ultimately show ?thesis using assms by (auto simp: cleanupOrphanToolCalls_def Let_def cleaned_def)
next
  case False
  have "trim_calls (keepCalls ms) m = m" if "m \<in> set ms" for m
    using False that by (auto simp: list_ex_iff trims_def trim_calls_def Let_def)
  then have "map (trim_calls (keepCalls ms)) ms = ms" by (simp add: map_idI)
  with False have "cleaned ms = ms" by (auto simp: cleaned_def list_ex_iff intro!: filter_True)
  with False show ?thesis by (auto simp: cleanupOrphanToolCalls_def Let_def)
qed

lemma keep_Nil: "\<not> keepCalls ms []"
  by (auto simp: keepCalls_def resultIDs_def)

lemma cleaned_ids:
  "callIDs (cleaned ms) = filter (keepCalls ms) (callIDs ms)"
  "resultIDs (cleaned ms) = filter (keepCalls ms) (resultIDs ms)"
  "nameBadIDs (cleaned ms) = []"
proof -
  have objs: "call_objs (cleaned ms) =
      filter (\<lambda>tc. keepCalls ms (str_of ''id'' tc)) (call_objs ms)"
    unfolding cleaned_def call_objs_drop by (rule call_objs_trim) (rule keep_Nil)
  show "callIDs (cleaned ms) = filter (keepCalls ms) (callIDs ms)"
    by (simp add: callIDs_def objs filter_map comp_def)
  show "resultIDs (cleaned ms) = filter (keepCalls ms) (resultIDs ms)"
    unfolding cleaned_def by (rule results_clean) (rule keep_Nil)
  show "nameBadIDs (cleaned ms) = []"
    by (auto simp: nameBadIDs_def objs keepCalls_def filter_empty_conv)
qed

text \<open>A list whose calls and results all match is left alone.\<close>

lemma cleanup_stable:
  assumes "\<And>m. m \<in> set ms \<Longrightarrow> \<not> trims (keepCalls ms) m \<and> \<not> drops (keepCalls ms) m"
  shows "cleanupOrphanToolCalls ms = (ms, False)"
proof -
  have "trim_calls (keepCalls ms) m = m" if "m \<in> set ms" for m
    using assms [OF that] by (auto simp: trims_def trim_calls_def Let_def)
  then have "map (trim_calls (keepCalls ms)) ms = ms" by (simp add: map_idI)
  moreover have "\<not> list_ex (trims (keepCalls ms)) ms" "\<not> list_ex (drops (keepCalls ms)) ms"
    using assms by (auto simp: list_ex_iff)
  ultimately show ?thesis by (simp add: cleanupOrphanToolCalls_def Let_def)
qed

lemma cleaned_keep: "keepCalls (cleaned ms) i = keepCalls ms i"
  by (auto simp: keepCalls_def [of "cleaned ms"] cleaned_ids) (simp_all add: keepCalls_def)

lemma cleaned_stable: "cleanupOrphanToolCalls (cleaned ms) = (cleaned ms, False)"
proof (rule cleanup_stable)
  fix m assume "m \<in> set (cleaned ms)"
  then obtain m0 where m0: "m = trim_calls (keepCalls ms) m0" "\<not> drops (keepCalls ms) m"
    by (auto simp: cleaned_def)
  have "kept_calls (keepCalls ms) (calls_of m) = calls_of m" if "is_head m"
  proof -
    have "has_role ''assistant'' m0" using that m0(1) by (simp add: is_head_def)
    then show ?thesis by (simp add: m0(1) calls_trim kept_calls_def)
  qed
  then show "\<not> trims (keepCalls (cleaned ms)) m \<and> \<not> drops (keepCalls (cleaned ms)) m"
    using m0(2) by (auto simp: trims_def drops_def cleaned_keep fun_eq_iff
        intro: arg_cong [of _ _ length]) (simp_all add: kept_calls_def cleaned_keep)
qed

lemma cleanup_ids:
  "set (callIDs (fst (cleanupOrphanToolCalls ms))) = {i. keepCalls ms i} \<and>
   set (resultIDs (fst (cleanupOrphanToolCalls ms))) = {i. keepCalls ms i} \<and>
   nameBadIDs (fst (cleanupOrphanToolCalls ms)) = []"
proof (cases "callIDs ms \<noteq> [] \<or> resultIDs ms \<noteq> []")
  case True
  show ?thesis
    unfolding cleanup_traffic [OF True] using cleaned_ids [of ms] by (auto simp: keepCalls_def)
next
  case False
  then have "call_objs ms = []" by (simp add: callIDs_def)
  with False show ?thesis
    by (auto simp: cleanupOrphanToolCalls_def Let_def keepCalls_def nameBadIDs_def callIDs_def)
qed

text \<open>
  After the clean-up every call has a result and every result has a call. The identifiers of
  the calls and of the results that are left are the same set, namely those that had both to begin
  with and a usable name in every declaration; nothing that was properly paired is lost; and a second
  clean-up changes nothing.
\<close>

theorem cleanup_pairs:
  "let out = fst (cleanupOrphanToolCalls ms) in
   set (callIDs out) = {i. keepCalls ms i} \<and> set (resultIDs out) = {i. keepCalls ms i} \<and>
   callIDs out = filter (keepCalls ms) (callIDs ms) \<and>
   resultIDs out = filter (keepCalls ms) (resultIDs ms) \<and>
   nameBadIDs out = [] \<and> cleanupOrphanToolCalls out = (out, False)"
proof (cases "callIDs ms \<noteq> [] \<or> resultIDs ms \<noteq> []")
  case True
  show ?thesis
    unfolding cleanup_traffic [OF True] Let_def
    using cleaned_ids [of ms] cleaned_stable [of ms] by (auto simp: keepCalls_def)
next
  case False
  then have "call_objs ms = []" by (simp add: callIDs_def)
  with False show ?thesis
    by (auto simp: cleanupOrphanToolCalls_def Let_def keepCalls_def nameBadIDs_def callIDs_def)
qed

section \<open>Merging\<close>

definition declared :: "json list \<Rightarrow> json list" where
  "declared ms = concat (map calls_of (filter (has_role ''assistant'') ms))"

definition texts :: "json list \<Rightarrow> string" where
  "texts ms = concat (map (str_of ''content'') ms)"

definition others :: "json list \<Rightarrow> json list" where
  "others ms = filter (\<lambda>m. \<not> has_role ''assistant'' m) ms"

lemma mrc_obj [simp]: "is_obj (mergeReasoningContent d s) = is_obj d"
  by (simp add: mergeReasoningContent_def Let_def)

lemma mrc_get:
  "is_obj d \<Longrightarrow> k \<noteq> ''reasoning_content'' \<Longrightarrow>
   gm_get (members (mergeReasoningContent d s)) k = gm_get (members d) k"
  by (simp add: mergeReasoningContent_def Let_def get_members_set)

lemma emptyContent_text: "emptyContent (gm_get (members m) ''content'') \<Longrightarrow> str_of ''content'' m = []"
  by (auto simp: emptyContent_def str_of_def split: option.splits json.splits)

lemma merge_step_keeps:
  assumes "merge_step (out, c) m = (out', c')"
  shows "declared out' = declared (out @ [m]) \<and> texts out' = texts (out @ [m]) \<and>
    others out' = others (out @ [m]) \<and> (\<not> c' \<longrightarrow> \<not> c \<and> out' = out @ [m])"
proof -
  consider (plain) "out' = out @ [m]" "c' = c"
    | (calls) "has_role ''assistant'' m" "out \<noteq> []" "is_head (last out)"
        "emptyContent (gm_get (members m) ''content'')" "c'"
        "out' = butlast out @ [mergeReasoningContent
          (set_member ''tool_calls'' (JArr (calls_of (last out) @ calls_of m)) (last out)) m]"
    | (content) "has_role ''assistant'' m" "out \<noteq> []" "gm_get (members m) ''tool_calls'' = None"
        "is_head (last out)" "emptyContent (gm_get (members (last out)) ''content'')" "c'"
        "out' = butlast out @ [mergeReasoningContent
          (set_member ''content'' (JStr (str_of ''content'' m)) (last out)) m]"
    using assms by (auto simp: merge_step_def split: if_splits)
  then show ?thesis
  proof cases
    case plain
    then show ?thesis by simp
  next
    case calls
    obtain xs x where out: "out = xs @ [x]" using calls(2) by (metis rev_exhaust)
    have x: "is_obj x" "has_role ''assistant'' x" using calls(3) out by (auto simp: is_head_def has_role_def)
    let ?y = "mergeReasoningContent (set_member ''tool_calls'' (JArr (calls_of x @ calls_of m)) x) m"
    have "has_role ''assistant'' ?y" "calls_of ?y = calls_of x @ calls_of m"
      "str_of ''content'' ?y = str_of ''content'' x"
      using x by (simp_all add: has_role_def calls_of_def arr_of_def str_of_def mrc_get
          get_members_set)
    with calls(1,5,6) x out emptyContent_text [OF calls(4)] show ?thesis
      by (simp add: declared_def texts_def others_def)
  next
    case content
    obtain xs x where out: "out = xs @ [x]" using content(2) by (metis rev_exhaust)
    have x: "is_obj x" "has_role ''assistant'' x" using content(4) out by (auto simp: is_head_def has_role_def)
    let ?y = "mergeReasoningContent (set_member ''content'' (JStr (str_of ''content'' m)) x) m"
    have "has_role ''assistant'' ?y" "calls_of ?y = calls_of x"
      "str_of ''content'' ?y = str_of ''content'' m"
      using x by (simp_all add: has_role_def calls_of_def arr_of_def str_of_def mrc_get
          get_members_set)
    moreover have "calls_of m = []" using content(3) by (simp add: calls_of_def arr_of_def)
    ultimately show ?thesis
      using content(1,5-7) x out emptyContent_text [of x]
      by (simp add: declared_def texts_def others_def)
  qed
qed

lemma merge_fold:
  "foldl merge_step (out, c) ms = (out', c') \<Longrightarrow>
   declared out' = declared (out @ ms) \<and> texts out' = texts (out @ ms) \<and>
   others out' = others (out @ ms) \<and> (\<not> c' \<longrightarrow> \<not> c \<and> out' = out @ ms)"
proof (induction ms arbitrary: out c)
  case (Cons m ms)
  obtain o1 c1 where s: "merge_step (out, c) m = (o1, c1)" by (meson surj_pair)
  note step = merge_step_keeps [OF s]
  have "foldl merge_step (o1, c1) ms = (out', c')" using Cons.prems s by simp
  from Cons.IH [OF this] step show ?case
    by (auto simp: declared_def texts_def others_def)
qed simp

text \<open>
  Merging adjacent declarations loses nothing: the calls that assistants declare, the texts of
  all messages and all messages of other roles are the same before and after, in the same order.
\<close>

theorem merge_keeps_everything:
  "let out = fst (mergeAdjacentToolCalls ms) in
   declared out = declared ms \<and> texts out = texts ms \<and> others out = others ms \<and>
   length out \<le> length ms"
proof -
  obtain out c where f: "foldl merge_step ([], False) ms = (out, c)" by (meson surj_pair)
  have "length (fst (merge_step st m)) \<le> Suc (length (fst st))" for st m
    by (auto simp: merge_step_def split: prod.split)
  then have "length (fst (foldl merge_step st ms)) \<le> length (fst st) + length ms" for st
  proof (induction ms arbitrary: st)
    case (Cons m ms)
    from Cons.IH [OF Cons.prems, of "merge_step st m"] Cons.prems [of st m] show ?case by simp
  qed simp
  from this [of "([], False)"] f merge_fold [OF f] show ?thesis
    by (auto simp: mergeAdjacentToolCalls_def Let_def)
qed

end
