(* ===== verification/Reset_Props.thy ===== *)
theory Reset_Props
  imports Reset_Time
begin

text \<open>
  Reading a printed time back: the wall clock of a valid date, as upstream prints it into the text of
  a limit, is found in the body and read as the instant it denotes, and instants are ordered as the
  calendar orders dates.
\<close>

section \<open>Printing a time\<close>

definition dg :: "int \<Rightarrow> char" where
  "dg n = char_of (48 + nat n)"

definition two :: "int \<Rightarrow> string" where
  "two n = [dg (n div 10), dg (n mod 10)]"

definition four :: "int \<Rightarrow> string" where
  "four n = two (n div 100) @ two (n mod 100)"

text \<open>The wall clock that upstream prints, without a fraction.\<close>

definition stamp :: "civil \<Rightarrow> string" where
  "stamp c = four (cv_year c) @ ''-'' @ two (cv_month c) @ ''-'' @ two (cv_day c) @ '' '' @
     two (cv_hour c) @ '':'' @ two (cv_min c) @ '':'' @ two (cv_sec c)"

definition civil_ok :: "civil \<Rightarrow> bool" where
  "civil_ok c = (0 \<le> cv_year c \<and> cv_year c \<le> 9999 \<and> 1 \<le> cv_month c \<and> cv_month c \<le> 12 \<and>
     1 \<le> cv_day c \<and> cv_day c \<le> daysIn (cv_month c) (cv_year c) \<and> 0 \<le> cv_hour c \<and> cv_hour c \<le> 23 \<and>
     0 \<le> cv_min c \<and> cv_min c \<le> 59 \<and> 0 \<le> cv_sec c \<and> cv_sec c \<le> 59 \<and> cv_nsec c = 0)"

lemma dg_digit:
  assumes "0 \<le> n" and "n \<le> 9"
  shows "is_digit (dg n)" and "digit_val (dg n) = n"
proof -
  have "48 + nat n < 256" using assms by simp
  then have code: "of_char (dg n) = 48 + nat n" by (simp add: dg_def of_char_of take_bit_nat_eq_self)
  show "digit_val (dg n) = n" using assms by (simp add: digit_val_def code)
  show "is_digit (dg n)" using assms by (simp add: is_digit_def less_eq_char_def code)
qed

lemma getnum_two:
  assumes "0 \<le> n" and "n \<le> 99"
  shows "getnum fixed (two n @ r) = Some (n, r)"
proof -
  have "0 \<le> n div 10" "n div 10 \<le> 9" "0 \<le> n mod 10" "n mod 10 \<le> 9" using assms by auto
  with dg_digit show ?thesis by (simp add: two_def)
qed

lemma get_range_two:
  "lo \<le> n \<Longrightarrow> n \<le> hi \<Longrightarrow> 0 \<le> lo \<Longrightarrow> hi \<le> 99 \<Longrightarrow> get_range lo hi fixed (two n @ r) = Some (n, r)"
  by (simp add: get_range_def getnum_two)

lemma digits_join:
  "a * 10 + b = h \<Longrightarrow> c * 10 + d = l \<Longrightarrow> h * 100 + l = n \<Longrightarrow>
   ((a * 10 + b) * 10 + c) * 10 + d = (n::int)"
  by (auto simp: algebra_simps)

lemma get_year_digits:
  assumes "0 \<le> a" "a \<le> 9" "0 \<le> b" "b \<le> 9" "0 \<le> c" "c \<le> 9" "0 \<le> d" "d \<le> 9"
  shows "get_year ([dg a, dg b, dg c, dg d] @ r) = Some (((a * 10 + b) * 10 + c) * 10 + d, r)"
  using assms by (simp add: get_year_def num_of_def dg_digit)

lemma get_year_four:
  assumes "0 \<le> n" and "n \<le> 9999"
  shows "get_year (four n @ r) = Some (n, r)"
proof -
  let ?h = "n div 100" and ?l = "n mod 100"
  have h: "0 \<le> ?h div 10" "?h div 10 \<le> 9" using assms by linarith+
  have l: "0 \<le> ?l div 10" "?l div 10 \<le> 9" by linarith+
  have join: "((?h div 10 * 10 + ?h mod 10) * 10 + ?l div 10) * 10 + ?l mod 10 = n"
    by (rule digits_join) (rule div_mult_mod_eq)+
  have "four n = [dg (?h div 10), dg (?h mod 10), dg (?l div 10), dg (?l mod 10)]"
    by (simp only: four_def two_def append.simps)
  moreover have "0 \<le> k mod 10 \<and> k mod 10 \<le> 9" for k :: int by auto
  ultimately show ?thesis
    using get_year_digits [OF h _ _ l, of "?h mod 10" "?l mod 10" r] unfolding join by simp
qed

lemma skip_blank: "skip ('' '' @ two n @ r) '' '' = Some (two n @ r)" if "0 \<le> n" "n \<le> 99"
proof -
  have "is_digit (dg (n div 10))" by (rule dg_digit) (use that in auto)
  then have "dg (n div 10) \<noteq> CHR '' ''" by (auto simp: is_digit_def less_eq_char_def)
  then show ?thesis by (simp add: two_def)
qed

lemma skip_char: "p \<noteq> CHR '' '' \<Longrightarrow> skip (p # s) [p] = Some s"
  by simp

lemma daysIn_le: "daysIn m y \<le> 31"
  by (simp add: daysIn_def)

lemma get_civil_stamp:
  assumes "civil_ok c" 
  shows "get_civil '' '' (stamp c) = Some (c, [])"
proof -
  note ok = assms [unfolded civil_ok_def]
  have day: "cv_day c \<le> 99" using ok daysIn_le [of "cv_month c" "cv_year c"] by simp
  have last: "get_range 0 59 True (two (cv_sec c)) = Some (cv_sec c, [])"
    using ok get_range_two [of 0 "cv_sec c" 59 True "[]"] by simp
  show ?thesis
    using ok day
    by (simp add: get_civil_def stamp_def get_year_four get_range_two getnum_two skip_blank [unfolded append_Cons append_Nil]
        last get_fraction_def skip_char del: skip.simps getnum.simps)
qed

section \<open>Reading a printed time back\<close>

lemma stamp_chars: "civil_ok c \<Longrightarrow> x \<in> set (stamp c) \<Longrightarrow> is_digit x \<or> x \<in> set ''-: ''"
proof -
  have two: "0 \<le> n \<Longrightarrow> n \<le> 99 \<Longrightarrow> x \<in> set (two n) \<Longrightarrow> is_digit x" for n
    using dg_digit(1) [of "n div 10"] dg_digit(1) [of "n mod 10"] by (auto simp: two_def)
  assume "civil_ok c"
  note ok = this [unfolded civil_ok_def]
  have "cv_day c \<le> 99" "0 \<le> cv_year c div 100" "cv_year c div 100 \<le> 99" "0 \<le> cv_year c mod 100"
    "cv_year c mod 100 \<le> 99"
    using ok daysIn_le [of "cv_month c" "cv_year c"] by linarith+
  moreover assume "x \<in> set (stamp c)"
  ultimately show ?thesis
    using ok two [of "cv_year c div 100"] two [of "cv_year c mod 100"] two [of "cv_month c"]
      two [of "cv_day c"] two [of "cv_hour c"] two [of "cv_min c"] two [of "cv_sec c"]
    by (auto simp: stamp_def four_def)
qed

lemma lazy_capture_tail:
  "CHR 0x0A \<notin> set x \<Longrightarrow> CHR 0xE9 \<notin> set x \<Longrightarrow> lazy_capture cn_tail (x @ cn_tail @ post) = Some x"
proof (induction x)
  case Nil
  then show ?case by (simp add: cn_tail_def)
next
  case (Cons c x)
  have "\<not> prefix cn_tail ((c # x) @ cn_tail @ post)"
    using Cons.prems by (cases x) (auto simp: cn_tail_def)
  with Cons show ?case by auto
qed

lemma cn_head_no_overlap:
  assumes "x \<noteq> []" and "\<not> prefix cn_head x"
  shows "\<not> prefix cn_head (x @ cn_head @ s)"
proof
  assume "prefix cn_head (x @ cn_head @ s)"
  then obtain t where "x @ cn_head @ s = cn_head @ t" by (auto simp: prefix_def)
  then obtain us where "x = cn_head @ us \<or> (x @ us = cn_head \<and> cn_head @ s = us @ t)"
    by (auto simp: append_eq_append_conv2)
  with assms show False by (auto simp: cn_head_def append_eq_Cons_conv)
qed

lemma find_sub_skip:
  assumes "\<And>x y. pre = x @ y \<Longrightarrow> y \<noteq> [] \<Longrightarrow> f (y @ s) = None" and "f s = Some m"
  shows "find_sub f (pre @ s) = Some m"
  using assms(1)
proof (induction pre)
  case Nil
  with assms(2) show ?case by (cases s) auto
next
  case (Cons c pre)
  have "f (c # pre @ s) = None" using Cons.prems [of "[]" "c # pre"] by simp
  moreover have "find_sub f (pre @ s) = Some m"
    by (rule Cons.IH) (use Cons.prems [of "c # x" for x] in simp)
  ultimately show ?case by simp
qed

lemma digit_not_space: "is_digit c \<Longrightarrow> \<not> is_space c"
  by (auto simp: is_digit_def is_space_def less_eq_char_def)

text \<open>The suffix that names the zone is optional.\<close>

definition zone_suffix :: "bool \<Rightarrow> string" where
  "zone_suffix b = (if b then '' UTC+8'' else [])"

lemma stamp_ends:
  assumes "civil_ok c"
  shows "stamp c \<noteq> []" "is_digit (hd (stamp c))" "is_digit (last (stamp c))"
proof -
  note ok = assms [unfolded civil_ok_def]
  have "0 \<le> cv_year c div 100 div 10" "cv_year c div 100 div 10 \<le> 9" using ok by linarith+
  then show "is_digit (hd (stamp c))" by (simp add: stamp_def four_def two_def dg_digit)
  show "is_digit (last (stamp c))" "stamp c \<noteq> []" by (simp_all add: stamp_def two_def dg_digit)
qed

lemma trimmed_stamp:
  assumes "civil_ok c"
  shows "TrimSuffix (TrimSpace (stamp c @ zone_suffix b)) '' UTC+8'' = stamp c"
proof -
  note ends = stamp_ends [OF assms]
  have "TrimSpace (stamp c @ zone_suffix b) = stamp c @ zone_suffix b"
    by (rule TrimSpace_id)
      (use ends in \<open>auto simp: zone_suffix_def digit_not_space, simp add: is_space_def\<close>)
  moreover have "\<not> suffix '' UTC+8'' (stamp c)"
    using stamp_chars [OF assms, of "CHR ''U''"] by (auto simp: suffix_def is_digit_def less_eq_char_def)
  ultimately show ?thesis by (auto simp: TrimSuffix_def zone_suffix_def suffix_def)
qed

lemma match_cn_stamp:
  assumes "civil_ok c"
  shows "match_cn (cn_head @ stamp c @ zone_suffix b @ cn_tail @ post) = Some (stamp c @ zone_suffix b)"
proof -
  have plain: "CHR 0x0A \<notin> set (stamp c @ zone_suffix b)" "CHR 0xE9 \<notin> set (stamp c @ zone_suffix b)"
    using stamp_chars [OF assms, of "CHR 0x0A"] stamp_chars [OF assms, of "CHR 0xE9"]
    by (auto simp: zone_suffix_def is_digit_def less_eq_char_def)
  obtain d x where x: "stamp c @ zone_suffix b = d # x"
    using stamp_ends(1) [OF assms] by (cases "stamp c @ zone_suffix b") auto
  have "lazy_capture cn_tail (x @ cn_tail @ post) = Some x"
    by (rule lazy_capture_tail) (use plain x in auto)
  moreover have whole: "stamp c @ zone_suffix b @ cn_tail @ post = d # x @ cn_tail @ post"
    using x by (metis append.assoc append_Cons)
  ultimately show ?thesis using plain unfolding whole x by (auto simp: match_cn_def)
qed

lemma reset_read:
  assumes "civil_ok c" and "\<not> Contains pre cn_head"
  shows "ParseRateReset (pre @ cn_head @ stamp c @ zone_suffix b @ cn_tail @ post) =
    Some (Date c softRateResetLoc)"
proof -
  have "find_sub match_cn (pre @ cn_head @ stamp c @ zone_suffix b @ cn_tail @ post) =
      Some (stamp c @ zone_suffix b)"
  proof (rule find_sub_skip)
    fix x y assume "pre = x @ y" "y \<noteq> []"
    moreover from this have "\<not> prefix cn_head y"
      using assms(2) by (auto simp: Contains_append prefix_def)
    ultimately show "match_cn (y @ cn_head @ stamp c @ zone_suffix b @ cn_tail @ post) = None"
      using cn_head_no_overlap by (simp add: match_cn_def)
  qed (rule match_cn_stamp [OF assms(1)])
  then show ?thesis
    by (simp add: ParseRateReset_def trimmed_stamp [OF assms(1)] parse_wall_def
        get_civil_stamp [OF assms(1)])
qed

section \<open>The calendar orders times\<close>

lemma div_pred: "0 < n \<Longrightarrow> (y - 1) div n = y div n - (if y mod n = 0 then 1 else 0)" for y n :: int
proof -
  assume n: "0 < n"
  have y: "y - 1 = (y mod n - 1) + n * (y div n)" by simp
  have "0 \<le> y mod n" "y mod n < n" using n by simp_all
  moreover have "(- 1) div n = -1" using n by (simp add: div_eq_minus1)
  ultimately have "(y mod n - 1) div n = (if y mod n = 0 then -1 else 0)"
    by (auto intro: div_pos_pos_trivial)
  then show ?thesis unfolding y using n by (simp only: div_mult_self2) simp
qed

lemma leap_arith:
  "(m100 \<longrightarrow> m4) \<Longrightarrow> (m400 \<longrightarrow> m100) \<Longrightarrow>
   365 * y + a - b + c = 365 * (y - 1) + (a - (if m4 then 1 else 0)) - (b - (if m100 then 1 else 0)) +
     (c - (if m400 then 1 else 0)) + (if m4 \<and> (\<not> m100 \<or> m400) then 366 else 365 :: int)"
  by auto

lemma year_step: "days_before_year (y + 1) = days_before_year y + (if is_leap y then 366 else 365)"
proof -
  have mods: "y mod 100 = 0 \<longrightarrow> y mod 4 = 0" "y mod 400 = 0 \<longrightarrow> y mod 100 = 0"
    by (simp_all add: mod_eq_0_iff_dvd) (auto dest: dvd_trans [rotated])
  have preds: "(y - 1) div 4 = y div 4 - (if y mod 4 = 0 then 1 else 0)"
    "(y - 1) div 100 = y div 100 - (if y mod 100 = 0 then 1 else 0)"
    "(y - 1) div 400 = y div 400 - (if y mod 400 = 0 then 1 else 0)"
    by (rule div_pred, simp)+
  show ?thesis
    unfolding days_before_year_def Let_def is_leap_def add_diff_cancel_right' preds
    by (rule leap_arith [OF mods])
qed

lemma month_step: "1 \<le> m \<Longrightarrow> days_before_month (m + 1) y = days_before_month m y + daysIn m y"
  using upto_rec2 [of 1 m] by (simp add: days_before_month_def)

lemma year_length: "days_before_month 13 y = (if is_leap y then 366 else 365)"
proof -
  have "[1..12 :: int] = [1, 2, 3, 4, 5, 6, 7, 8, 9, 10, 11, 12]" by code_simp
  then show ?thesis by (simp add: days_before_month_def daysIn_def)
qed

lemma steps_mono:
  fixes f :: "int \<Rightarrow> int"
  assumes "\<And>k. a \<le> k \<Longrightarrow> f k \<le> f (k + 1)" and "a \<le> i" and "i \<le> j"
  shows "f i \<le> f j"
  using assms(3)
proof (induction j rule: int_ge_induct)
  case (step j)
  with assms(1) [of j] assms(2) show ?case by simp
qed simp

lemma month_mono: "1 \<le> m \<Longrightarrow> m \<le> m' \<Longrightarrow> days_before_month m y \<le> days_before_month m' y"
  by (rule steps_mono [of 1]) (auto simp: month_step daysIn_def)

lemma year_mono: "y \<le> y' \<Longrightarrow> days_before_year y \<le> days_before_year y'"
  by (rule steps_mono [of y]) (auto simp: year_step)

lemma day_less_month:
  "civil_ok c \<Longrightarrow> cv_month c < m \<Longrightarrow>
   day_number c < days_before_year (cv_year c) + days_before_month m (cv_year c)"
  using month_mono [of "cv_month c + 1" m "cv_year c"] month_step [of "cv_month c" "cv_year c"]
  by (simp add: day_number_def civil_ok_def)

lemma day_less_year: "civil_ok c \<Longrightarrow> cv_year c < y \<Longrightarrow> day_number c < days_before_year y"
  using day_less_month [of c 13] year_mono [of "cv_year c + 1" y] year_step [of "cv_year c"]
  by (simp add: year_length civil_ok_def)

lemma day_ge_year: "civil_ok c \<Longrightarrow> days_before_year (cv_year c) \<le> day_number c"
  using month_mono [of 1 "cv_month c" "cv_year c"]
  by (simp add: day_number_def civil_ok_def days_before_month_def)

definition civil_key :: "civil \<Rightarrow> int list" where
  "civil_key c = [cv_year c, cv_month c, cv_day c, cv_hour c, cv_min c, cv_sec c]"

lemma day_mono:
  assumes "civil_ok c" and "civil_ok d"
    and "[cv_year c, cv_month c, cv_day c] < [cv_year d, cv_month d, cv_day d]"
  shows "day_number c < day_number d"
proof -
  consider "cv_year c < cv_year d"
    | "cv_year c = cv_year d" "cv_month c < cv_month d"
    | "cv_year c = cv_year d" "cv_month c = cv_month d" "cv_day c < cv_day d"
    using assms(3) by (auto split: if_splits)
  then show ?thesis
  proof cases
    case 1
    with day_less_year [OF assms(1)] day_ge_year [OF assms(2)] show ?thesis by fastforce
  next
    case 2
    with day_less_month [OF assms(1) 2(2)] assms(2) show ?thesis
      by (simp add: day_number_def civil_ok_def)
  next
    case 3
    then show ?thesis by (simp add: day_number_def)
  qed
qed

lemma Date_mono:
  assumes "civil_ok c" and "civil_ok d" and "civil_key c < civil_key d"
  shows "Date c off < Date d off"
proof -
  have "[cv_year c, cv_month c, cv_day c] < [cv_year d, cv_month d, cv_day d] \<or>
      [cv_year c, cv_month c, cv_day c] = [cv_year d, cv_month d, cv_day d] \<and>
      [cv_hour c, cv_min c, cv_sec c] < [cv_hour d, cv_min d, cv_sec d]"
    using assms(3) by (auto simp: civil_key_def split: if_splits)
  moreover note ok = assms(1,2) [unfolded civil_ok_def]
  ultimately have "((day_number c * 24 + cv_hour c) * 60 + cv_min c) * 60 + cv_sec c <
      ((day_number d * 24 + cv_hour d) * 60 + cv_min d) * 60 + cv_sec d"
    using day_mono [OF assms(1,2)] by (auto simp: day_number_def split: if_splits)
  then show ?thesis using ok by (simp add: Date_def time_units)
qed

lemma Date_order:
  assumes "civil_ok c" and "civil_ok d"
  shows "Date c off < Date d off \<longleftrightarrow> civil_key c < civil_key d"
proof -
  have "Date c off = Date d off" if "civil_key c = civil_key d"
    using that assms by (simp add: civil_key_def Date_def day_number_def civil_ok_def)
  then show ?thesis
    using Date_mono [OF assms, of off] Date_mono [OF assms(2,1), of off]
    by (metis linorder_neqE less_asym)
qed

section \<open>The property\<close>

text \<open>
  The reset time that a limit announces is read back exactly. For every valid date and time of
  the years 0 to 9999, printed between the two halves of the Chinese phrase with or without the
  zone, whatever follows and whatever precedes without containing the first half of the phrase,
  \<open>ParseRateReset\<close> returns the instant of that wall clock in UTC+8; and these instants are
  ordered as the calendar orders the dates, across month ends and leap years.
\<close>

theorem ParseRateReset_reads:
  assumes "civil_ok c" and "\<not> Contains pre cn_head"
  shows "ParseRateReset (pre @ cn_head @ stamp c @ zone_suffix b @ cn_tail @ post) =
      Some (Date c softRateResetLoc) \<and>
    (\<forall>d. civil_ok d \<longrightarrow> (Date c softRateResetLoc < Date d softRateResetLoc) =
      (civil_key c < civil_key d))"
  using reset_read [OF assms] Date_order [OF assms(1)] by blast

theorem ParseRateReset_reads_witness:
  "\<exists>t. ParseRateReset (''x'' @ cn_head @ ''2024-02-29 23:59:59'' @ '' UTC+8'' @ cn_tail @ ''.'') = Some t \<and>
     t < Date \<lparr>cv_year = 2024, cv_month = 3, cv_day = 1, cv_hour = 0, cv_min = 0, cv_sec = 0,
       cv_nsec = 0\<rparr> softRateResetLoc"
proof -
  let ?c = "\<lparr>cv_year = 2024, cv_month = 2, cv_day = 29, cv_hour = 23, cv_min = 59, cv_sec = 59,
    cv_nsec = 0\<rparr>"
  let ?d = "\<lparr>cv_year = 2024, cv_month = 3, cv_day = 1, cv_hour = 0, cv_min = 0, cv_sec = 0,
    cv_nsec = 0\<rparr>"
  have facts: "civil_ok ?c" "civil_ok ?d" "\<not> Contains ''x'' cn_head" "civil_key ?c < civil_key ?d"
    "stamp ?c = ''2024-02-29 23:59:59''" "zone_suffix True = '' UTC+8''" by code_simp+
  show ?thesis
    using ParseRateReset_reads [OF facts(1,3), of True "''.''"] facts(2,4) unfolding facts(5,6) by blast
qed

end
