(* ===== verification/Markup.thy ===== *)
theory Markup
  imports Classify
begin

text \<open>
  Recovering tool calls that the model wrote as markup into its text, after
  \<^verbatim>\<open>src/internal/upstream/dsml.go\<close>: the streaming recogniser \<open>MarkupRepair\<close> with its hold buffer,
  the parser of a closed block, the names a request declares, and the repair of an aggregated answer.

  Text is bytes. The two regular expressions of the block parser are deterministic, as what follows a
  run of white space or a quoted name can never belong to it, so they are matchers here. Reading and
  writing JSON text (\<open>json.Unmarshal\<close> into \<open>any\<close>, \<open>json.Marshal\<close>) is the argument \<open>json_text\<close>.
\<close>

record json_text =
  UnmarshalAny :: "string \<Rightarrow> json option"
  MarshalAny :: "json \<Rightarrow> string option"

record MarkupCall =
  mk_Name :: string
  mk_Arguments :: string

record MarkupRepair =
  mr_allowed :: "string list"
  mr_allowUnknown :: bool
  mr_hold :: string
  mr_inBlock :: bool
  mr_seen :: nat
  mr_rejected :: nat
  mr_converted :: nat

section \<open>Markers\<close>

definition markupPipe :: string where
  "markupPipe = [CHR 0xEF, CHR 0xBD, CHR 0x9C, CHR 0xEF, CHR 0xBD, CHR 0x9C]"

definition markupTagPrefix :: string where
  "markupTagPrefix = ''<'' @ markupPipe @ ''DSML'' @ markupPipe"

definition markupOpen :: string where
  "markupOpen = ''<'' @ markupPipe @ ''DSML'' @ markupPipe @ '' calls>''"

definition markupClose :: string where
  "markupClose = ''</'' @ markupPipe @ ''DSML'' @ markupPipe @ '' calls>''"

definition markupInvokeClose :: string where
  "markupInvokeClose = ''</'' @ markupPipe @ ''DSML'' @ markupPipe @ '' invoke>''"

definition markupParamClose :: string where
  "markupParamClose = ''</'' @ markupPipe @ ''DSML'' @ markupPipe @ '' parameter>''"

definition markupMaxBlockBytes :: nat where
  "markupMaxBlockBytes = 256 * 1024"

section \<open>Searching\<close>

text \<open>\<open>strings.Index\<close>\<close>

fun str_index :: "string \<Rightarrow> string \<Rightarrow> nat option" where
  "str_index [] p = (if p = [] then Some 0 else None)"
| "str_index (c # cs) p = (if prefix p (c # cs) then Some 0 else map_option Suc (str_index cs p))"

text \<open>The place at the front of a text is a whole opening marker, or as much of one as is there.\<close>

definition at_candidate :: "string \<Rightarrow> bool" where
  "at_candidate s = (s \<noteq> [] \<and> hd s = CHR ''<'' \<and>
     (if length s \<ge> length markupOpen then prefix markupOpen s else prefix s markupOpen))"

fun markupStartCandidate :: "string \<Rightarrow> nat option" where
  "markupStartCandidate [] = None"
| "markupStartCandidate (c # cs) =
     (if at_candidate (c # cs) then Some 0 else map_option Suc (markupStartCandidate cs))"

section \<open>Parsing a block\<close>

text \<open>A literal, white space (at least one, or any), and a quoted name at the front of a text.\<close>

definition m_lit :: "string \<Rightarrow> string \<Rightarrow> string option" where
  "m_lit p s = (if prefix p s then Some (drop (length p) s) else None)"

definition m_space1 :: "string \<Rightarrow> string option" where
  "m_space1 s = (if s \<noteq> [] \<and> is_re_space (hd s) then Some (dropWhile is_re_space s) else None)"

definition m_space :: "string \<Rightarrow> string" where
  "m_space s = dropWhile is_re_space s"

definition m_quoted :: "string \<Rightarrow> (string \<times> string) option" where
  "m_quoted s = (let q = CHR 0x22 in
     if s = [] \<or> hd s \<noteq> q then None
     else let name = takeWhile (\<lambda>c. c \<noteq> q) (tl s); r = dropWhile (\<lambda>c. c \<noteq> q) (tl s)
          in if r = [] then None else Some (name, tl r))"

definition tag_name :: "string \<Rightarrow> string \<Rightarrow> (string \<times> string) option" where
  "tag_name kind s =
     Option.bind (m_lit markupTagPrefix s) (\<lambda>s.
     Option.bind (m_space1 s) (\<lambda>s.
     Option.bind (m_lit kind s) (\<lambda>s.
     Option.bind (m_space1 s) (\<lambda>s.
     Option.bind (m_lit ''name='' s) m_quoted))))"

text \<open>\<open>markupInvokeRe\<close> at the front of a text: the name and what follows the match.\<close>

definition invoke_at :: "string \<Rightarrow> (string \<times> string) option" where
  "invoke_at s = Option.bind (tag_name ''invoke'' s) (\<lambda>(name, s).
     map_option (\<lambda>r. (name, r)) (m_lit ''>'' (m_space s)))"

text \<open>\<open>markupParamRe\<close>: the name, whether the value is marked as a string, and what follows.\<close>

definition string_attr :: "string \<Rightarrow> (bool \<times> string) option" where
  "string_attr s = Option.bind (m_space1 s) (\<lambda>s. Option.bind (m_lit ''string=\"'' s) (\<lambda>s.
     case m_lit ''true\"'' s of
       Some r \<Rightarrow> Some (True, r)
     | None \<Rightarrow> map_option (\<lambda>r. (False, r)) (m_lit ''false\"'' s)))"

definition param_at :: "string \<Rightarrow> ((string \<times> bool) \<times> string) option" where
  "param_at s = Option.bind (tag_name ''parameter'' s) (\<lambda>(name, s).
     let (isString, s) = (case string_attr s of Some (b, r) \<Rightarrow> (b, r) | None \<Rightarrow> (False, s))
     in map_option (\<lambda>r. ((name, isString), r)) (m_lit ''>'' (m_space s)))"

text \<open>\<open>FindStringSubmatchIndex\<close>: the text before the leftmost match, what it captures, the rest.\<close>

fun find_at :: "(string \<Rightarrow> ('a \<times> string) option) \<Rightarrow> string \<Rightarrow> (string \<times> 'a \<times> string) option" where
  "find_at f [] = (case f [] of None \<Rightarrow> None | Some (x, r) \<Rightarrow> Some ([], x, r))"
| "find_at f (c # cs) = (case f (c # cs) of
      Some (x, r) \<Rightarrow> Some ([], x, r)
    | None \<Rightarrow> map_option (\<lambda>(pre, x, r). (c # pre, x, r)) (find_at f cs))"

lemma m_lit_length: "m_lit p s = Some r \<Longrightarrow> length r \<le> length s"
  by (auto simp: m_lit_def split: if_splits)

lemma m_space1_length: "m_space1 s = Some r \<Longrightarrow> length r \<le> length s"
  by (auto simp: m_space1_def length_dropWhile_le split: if_splits)

lemma m_quoted_length: "m_quoted s = Some (n, r) \<Longrightarrow> length r < length s"
  using length_dropWhile_le [of "\<lambda>c. c \<noteq> CHR 0x22" "tl s"]
  by (cases s) (auto simp: m_quoted_def Let_def split: if_splits)

lemma tag_name_length: "tag_name k s = Some (n, r) \<Longrightarrow> length r < length s"
  unfolding tag_name_def
  by (fastforce simp: bind_eq_Some_conv dest: m_lit_length m_space1_length m_quoted_length)

lemma string_attr_length: "string_attr s = Some (b, r) \<Longrightarrow> length r \<le> length s"
  unfolding string_attr_def
  by (fastforce simp: bind_eq_Some_conv dest: m_lit_length m_space1_length split: option.splits)

lemma invoke_at_length: "invoke_at s = Some (n, r) \<Longrightarrow> length r < length s"
proof -
  assume "invoke_at s = Some (n, r)"
  then obtain t where t: "tag_name ''invoke'' s = Some (n, t)" "m_lit ''>'' (m_space t) = Some r"
    by (auto simp: invoke_at_def bind_eq_Some_conv)
  have "length (m_space t) \<le> length t" by (simp add: m_space_def length_dropWhile_le)
  with tag_name_length [OF t(1)] m_lit_length [OF t(2)] show ?thesis by simp
qed

lemma param_at_length: "param_at s = Some (x, r) \<Longrightarrow> length r < length s"
proof -
  assume "param_at s = Some (x, r)"
  then obtain n t u where t: "tag_name ''parameter'' s = Some (n, t)" "m_lit ''>'' (m_space u) = Some r"
      and u: "u = t \<or> (\<exists>b. string_attr t = Some (b, u))"
    by (auto simp: param_at_def bind_eq_Some_conv split: option.splits)
  have "length (m_space u) \<le> length u" by (simp add: m_space_def length_dropWhile_le)
  moreover have "length u \<le> length t" using u string_attr_length by auto
  ultimately show ?thesis using tag_name_length [OF t(1)] m_lit_length [OF t(2)] by simp
qed

lemma find_at_length:
  assumes "\<And>s x r. f s = Some (x, r) \<Longrightarrow> length r < length s"
  shows "find_at f s = Some (pre, x, r) \<Longrightarrow> length r < length s"
proof (induction s arbitrary: pre)
  case Nil
  then show ?case using assms [of "[]"] by (auto split: option.splits)
next
  case (Cons c s)
  then show ?case using assms [of "c # s" x r] by (fastforce split: option.splits)
qed

definition put_param :: "json_text \<Rightarrow> string \<Rightarrow> bool \<Rightarrow> string \<Rightarrow> (string \<times> json) list \<Rightarrow> (string \<times> json) list" where
  "put_param lib name isString raw args =
     gm_put name (if isString then JStr raw
       else case UnmarshalAny lib (TrimSpace raw) of Some v \<Rightarrow> v | None \<Rightarrow> JStr raw) args"

function params_loop :: "json_text \<Rightarrow> string \<Rightarrow> (string \<times> json) list \<Rightarrow> (string \<times> json) list option" where
  "params_loop lib body args = (case find_at param_at body of
      None \<Rightarrow> if TrimSpace body \<noteq> [] then None else Some args
    | Some (pre, (name, isString), r) \<Rightarrow>
        if TrimSpace pre \<noteq> [] then None
        else (case str_index r markupParamClose of
            None \<Rightarrow> None
          | Some k \<Rightarrow> params_loop lib (drop (k + length markupParamClose) r)
              (put_param lib name isString (take k r) args)))"
  by pat_completeness auto
termination
  by (relation "measure (\<lambda>(lib, body, args). length body)")
    (auto dest!: find_at_length [rotated] param_at_length)

definition parseMarkupParams :: "json_text \<Rightarrow> string \<Rightarrow> string option" where
  "parseMarkupParams lib body =
     Option.bind (params_loop lib body []) (\<lambda>args. MarshalAny lib (JObj args))"

definition name_char :: "char \<Rightarrow> bool" where
  "name_char c = ((CHR ''A'' \<le> c \<and> c \<le> CHR ''Z'') \<or> (CHR ''a'' \<le> c \<and> c \<le> CHR ''z'') \<or>
     (CHR ''0'' \<le> c \<and> c \<le> CHR ''9'') \<or> c = CHR ''_'')"

text \<open>\<open>markupToolNameRe\<close>\<close>

definition toolNameShape :: "string \<Rightarrow> bool" where
  "toolNameShape s = (s \<noteq> [] \<and> length s \<le> 64 \<and> name_char (hd s) \<and>
     list_all (\<lambda>c. name_char c \<or> c \<in> set ''.:-'') (tl s))"

definition name_accepted :: "string list \<Rightarrow> string \<Rightarrow> bool" where
  "name_accepted allowed name =
     (if allowed \<noteq> [] then name \<in> set allowed else toolNameShape name)"

function block_loop ::
  "json_text \<Rightarrow> string list \<Rightarrow> string \<Rightarrow> MarkupCall list \<Rightarrow> MarkupCall list option" where
  "block_loop lib allowed inner out = (case find_at invoke_at inner of
      None \<Rightarrow> if out = [] then None else if TrimSpace inner \<noteq> [] then None else Some out
    | Some (pre, name, r) \<Rightarrow>
        if TrimSpace pre \<noteq> [] then None
        else (case str_index r markupInvokeClose of
            None \<Rightarrow> None
          | Some k \<Rightarrow> (case parseMarkupParams lib (take k r) of
                None \<Rightarrow> None
              | Some args \<Rightarrow>
                  if \<not> name_accepted allowed name then None
                  else block_loop lib allowed (drop (k + length markupInvokeClose) r)
                    (out @ [\<lparr>mk_Name = name, mk_Arguments = args\<rparr>]))))"
  by pat_completeness auto
termination
  by (relation "measure (\<lambda>(lib, allowed, inner, out). length inner)")
    (auto dest!: find_at_length [rotated] invoke_at_length)

definition parseMarkupBlock :: "json_text \<Rightarrow> string \<Rightarrow> string list \<Rightarrow> MarkupCall list option" where
  "parseMarkupBlock lib inner allowed = block_loop lib allowed inner []"

section \<open>The streaming recogniser\<close>

definition NewMarkupRepair :: "string list \<Rightarrow> bool \<Rightarrow> MarkupRepair" where
  "NewMarkupRepair allowed allowUnknown = \<lparr>mr_allowed = allowed, mr_allowUnknown = allowUnknown,
     mr_hold = [], mr_inBlock = False, mr_seen = 0, mr_rejected = 0, mr_converted = 0\<rparr>"

definition Enabled :: "MarkupRepair \<Rightarrow> bool" where
  "Enabled r = (mr_allowed r \<noteq> [] \<or> mr_allowUnknown r)"

lemma str_index_bound: "str_index s p = Some k \<Longrightarrow> k + length p \<le> length s"
proof (induction s arbitrary: k)
  case (Cons c s)
  then show ?case by (auto split: if_splits dest: prefix_length_le)
qed (auto split: if_splits)

lemma markupOpen_ne [simp]: "markupOpen \<noteq> []" "0 < length markupOpen"
  by (simp_all add: markupOpen_def)

lemma markupClose_ne [simp]: "markupClose \<noteq> []" "0 < length markupClose"
  by (simp_all add: markupClose_def)

text \<open>
  The loop of \<open>Feed\<close> on the text \<open>s\<close> that is left: what it writes out, the calls it recovers, and
  the recogniser afterwards.
\<close>

function feed_loop ::
  "json_text \<Rightarrow> MarkupRepair \<Rightarrow> string \<Rightarrow> string \<times> MarkupCall list \<times> MarkupRepair" where
  "feed_loop lib r s =
     (if \<not> mr_inBlock r then
        (case markupStartCandidate s of
           None \<Rightarrow> (s, [], r)
         | Some i \<Rightarrow>
             if length s - i < length markupOpen then (take i s, [], r\<lparr>mr_hold := drop i s\<rparr>)
             else case feed_loop lib (r\<lparr>mr_inBlock := True\<rparr>) (drop (i + length markupOpen) s) of
               (emit, calls, r') \<Rightarrow> (take i s @ emit, calls, r'))
      else
        (case str_index s markupClose of
           None \<Rightarrow>
             if length s > markupMaxBlockBytes
             then (markupOpen @ s, [], r\<lparr>mr_inBlock := False\<rparr>)
             else ([], [], r\<lparr>mr_hold := s\<rparr>)
         | Some k \<Rightarrow>
             let inner = take k s; s' = drop (k + length markupClose) s;
                 r = r\<lparr>mr_inBlock := False, mr_seen := Suc (mr_seen r)\<rparr>
             in (case parseMarkupBlock lib inner (mr_allowed r) of
                   Some got \<Rightarrow>
                     (case feed_loop lib (r\<lparr>mr_converted := mr_converted r + length got\<rparr>) s' of
                        (emit, calls, r') \<Rightarrow> (emit, got @ calls, r'))
                 | None \<Rightarrow>
                     (case feed_loop lib (r\<lparr>mr_rejected := Suc (mr_rejected r)\<rparr>) s' of
                        (emit, calls, r') \<Rightarrow>
                          (markupOpen @ inner @ markupClose @ emit, calls, r')))))"
  by pat_completeness auto
termination
proof (relation "measure (\<lambda>(lib, r, s). length s)", goal_cases)
  case (2 lib r s i)
  then have "length s \<noteq> 0" using markupOpen_ne(2) by linarith
  then show ?case by simp
next
  case (3 lib r s k)
  then show ?case using str_index_bound [of s markupClose k] markupClose_ne(2)
    by (cases s) (auto simp del: markupClose_ne(2))
next
  case (4 lib r s k)
  then show ?case using str_index_bound [of s markupClose k] markupClose_ne(2)
    by (cases s) (auto simp del: markupClose_ne(2))
qed simp

declare feed_loop.simps [simp del]

definition Feed ::
  "json_text \<Rightarrow> MarkupRepair \<Rightarrow> string \<Rightarrow> string \<times> MarkupCall list \<times> MarkupRepair" where
  "Feed lib r txt =
     (if \<not> Enabled r then (txt, [], r)
      else feed_loop lib (r\<lparr>mr_hold := []\<rparr>) (mr_hold r @ txt))"

definition Flush_markup :: "MarkupRepair \<Rightarrow> string \<times> MarkupRepair" where
  "Flush_markup r =
     (if \<not> Enabled r then ([], r)
      else (if mr_inBlock r then markupOpen @ mr_hold r else mr_hold r,
            r\<lparr>mr_hold := [], mr_inBlock := False\<rparr>))"

end
