(* ===== verification/Markup_Props.thy ===== *)
theory Markup_Props
  imports Markup
begin

text \<open>
  The properties of the markup recogniser: it never loses a byte other than those of the blocks it
  turns into calls, and how the upstream cuts the text into pieces does not matter.
\<close>

section \<open>Candidates under extension\<close>

lemma at_candidate_extend: "s \<noteq> [] \<Longrightarrow> at_candidate (s @ t) \<Longrightarrow> at_candidate s"
  by (auto simp: at_candidate_def prefix_append dest: append_prefixD split: if_splits)
    (metis append_prefixD prefix_length_prefix prefixI linorder_le_cases append_eq_append_conv_if
      prefix_def)+

lemma candidate_skip:
  "(\<And>x y. p = x @ y \<Longrightarrow> y \<noteq> [] \<Longrightarrow> \<not> at_candidate (y @ z)) \<Longrightarrow>
   markupStartCandidate (p @ z) = map_option (\<lambda>i. length p + i) (markupStartCandidate z)"
proof (induction p)
  case Nil
  then show ?case by (cases "markupStartCandidate z") auto
next
  case (Cons c p)
  have "\<not> at_candidate ((c # p) @ z)" using Cons.prems [of "[]" "c # p"] by simp
  moreover have "markupStartCandidate (p @ z) = map_option (\<lambda>i. length p + i) (markupStartCandidate z)"
    by (rule Cons.IH) (use Cons.prems [of "c # x" for x] in simp)
  ultimately show ?case by (cases "markupStartCandidate z") auto
qed

lemma candidate_at: "markupStartCandidate s = Some i \<Longrightarrow> i < length s \<and> at_candidate (drop i s)"
  by (induction s arbitrary: i) (auto split: if_splits)

lemma candidate_before:
  "markupStartCandidate s = Some i \<Longrightarrow> take i s = x @ y \<Longrightarrow> y \<noteq> [] \<Longrightarrow> \<not> at_candidate (y @ drop i s)"
proof (induction s arbitrary: i x)
  case (Cons c s)
  show ?case
  proof (cases "at_candidate (c # s)")
    case True
    with Cons.prems show ?thesis by simp
  next
    case False
    with Cons.prems(1) obtain j where j: "markupStartCandidate s = Some j" "i = Suc j" by auto
    show ?thesis
    proof (cases x)
      case Nil
      with Cons.prems(2) j have "y @ drop i (c # s) = c # s" by (metis append_Nil append_take_drop_id)
      with False show ?thesis by simp
    next
      case (Cons d x')
      with Cons.prems j have "take j s = x' @ y" by simp
      from Cons.IH [OF j(1) this Cons.prems(3)] j show ?thesis by simp
    qed
  qed
qed simp

lemma candidate_none: "markupStartCandidate s = None \<Longrightarrow> s = x @ y \<Longrightarrow> y \<noteq> [] \<Longrightarrow> \<not> at_candidate y"
proof (induction s arbitrary: x)
  case (Cons c s)
  then show ?case by (cases x) (auto split: if_splits)
qed simp

lemma candidate_extend_None:
  assumes "markupStartCandidate s = None"
  shows "markupStartCandidate (s @ t) = map_option (\<lambda>i. length s + i) (markupStartCandidate t)"
  by (rule candidate_skip) (use candidate_none [OF assms] at_candidate_extend in blast)

lemma candidate_extend_Some:
  assumes "markupStartCandidate s = Some i"
  shows "markupStartCandidate (s @ t) =
    map_option (\<lambda>j. i + j) (markupStartCandidate (drop i s @ t))"
proof -
  have i: "i < length s" using candidate_at [OF assms] by simp
  have "markupStartCandidate (take i s @ (drop i s @ t)) =
      map_option (\<lambda>j. length (take i s) + j) (markupStartCandidate (drop i s @ t))"
    by (rule candidate_skip)
      (use candidate_before [OF assms] at_candidate_extend [of "_ @ drop i s" t] in fastforce)
  moreover have "take i s @ (drop i s @ t) = s @ t" by (metis append.assoc append_take_drop_id)
  ultimately show ?thesis using i by simp
qed

lemma at_candidate_full: "at_candidate s \<Longrightarrow> length markupOpen \<le> length s \<Longrightarrow> prefix markupOpen s"
  by (simp add: at_candidate_def)

lemma candidate_full_extend:
  assumes "markupStartCandidate s = Some i" and "length markupOpen \<le> length s - i"
  shows "markupStartCandidate (s @ t) = Some i"
proof -
  have c: "at_candidate (drop i s)" and i: "i < length s" using candidate_at [OF assms(1)] by auto
  have "prefix markupOpen (drop i s @ t)"
    using at_candidate_full [OF c] assms(2) by (simp add: prefix_prefix)
  then have "at_candidate (drop i s @ t)"
    using i assms(2) c by (auto simp: at_candidate_def)
  then have "markupStartCandidate (drop i s @ t) = Some 0"
    using i by (cases "drop i s @ t") auto
  then show ?thesis by (simp add: candidate_extend_Some [OF assms(1)])
qed

lemma str_index_extend: "str_index s p = Some k \<Longrightarrow> p \<noteq> [] \<Longrightarrow> str_index (s @ t) p = Some k"
proof (induction s arbitrary: k)
  case (Cons c s)
  show ?case
  proof (cases "prefix p (c # s)")
    case True
    with Cons.prems prefix_prefix [OF True, of t] show ?thesis by simp
  next
    case False
    with Cons.prems obtain j where j: "str_index s p = Some j" "k = Suc j" by auto
    have "length p \<le> length s" using str_index_bound [OF j(1)] by simp
    then have "\<not> prefix p (c # s @ t)"
      using False by (metis append_Cons length_Cons prefix_length_prefix le_SucI prefixI)
    with Cons.IH [OF j(1) Cons.prems(2)] j show ?thesis by simp
  qed
qed simp

section \<open>Feeding in pieces\<close>

lemma feed_loop_out:
  "\<not> mr_inBlock r \<Longrightarrow> feed_loop lib r s = (case markupStartCandidate s of
      None \<Rightarrow> (s, [], r)
    | Some i \<Rightarrow>
        if length s - i < length markupOpen then (take i s, [], r\<lparr>mr_hold := drop i s\<rparr>)
        else case feed_loop lib (r\<lparr>mr_inBlock := True\<rparr>) (drop (i + length markupOpen) s) of
          (emit, calls, r') \<Rightarrow> (take i s @ emit, calls, r'))"
  by (subst feed_loop.simps) simp

lemma feed_loop_in:
  "mr_inBlock r \<Longrightarrow> feed_loop lib r s = (case str_index s markupClose of
      None \<Rightarrow>
        if length s > markupMaxBlockBytes then (markupOpen @ s, [], r\<lparr>mr_inBlock := False\<rparr>)
        else ([], [], r\<lparr>mr_hold := s\<rparr>)
    | Some k \<Rightarrow>
        let r = r\<lparr>mr_inBlock := False, mr_seen := Suc (mr_seen r)\<rparr> in
        (case parseMarkupBlock lib (take k s) (mr_allowed r) of
           Some got \<Rightarrow>
             (case feed_loop lib (r\<lparr>mr_converted := mr_converted r + length got\<rparr>)
                 (drop (k + length markupClose) s) of
                (emit, calls, r') \<Rightarrow> (emit, got @ calls, r'))
         | None \<Rightarrow>
             (case feed_loop lib (r\<lparr>mr_rejected := Suc (mr_rejected r)\<rparr>)
                 (drop (k + length markupClose) s) of
                (emit, calls, r') \<Rightarrow> (markupOpen @ take k s @ markupClose @ emit, calls, r'))))"
  by (subst feed_loop.simps) (simp add: Let_def split: option.split)

lemma feed_loop_skip:
  assumes "\<not> mr_inBlock r"
    and "markupStartCandidate (p @ z) = map_option (\<lambda>i. length p + i) (markupStartCandidate z)"
  shows "feed_loop lib r (p @ z) = (case feed_loop lib r z of (e, c, r') \<Rightarrow> (p @ e, c, r'))"
proof (cases "markupStartCandidate z")
  case None
  with assms show ?thesis by (simp add: feed_loop_out)
next
  case (Some i)
  have "drop (length p + i + length markupOpen) (p @ z) = drop (i + length markupOpen) z"
    by (simp add: add.assoc)
  with assms Some show ?thesis by (simp add: feed_loop_out split: prod.split)
qed

text \<open>One step of the composition: what is left of a first piece goes in front of the second.\<close>

definition continue :: "json_text \<Rightarrow> string \<times> MarkupCall list \<times> MarkupRepair \<Rightarrow> string \<Rightarrow>
    string \<times> MarkupCall list \<times> MarkupRepair" where
  "continue lib x t = (case x of (e, c, r) \<Rightarrow>
     case feed_loop lib (r\<lparr>mr_hold := []\<rparr>) (mr_hold r @ t) of (e', c', r') \<Rightarrow> (e @ e', c @ c', r'))"

lemma continue_prepend:
  "continue lib (e @ e', c @ c', r) t =
     (case continue lib (e', c', r) t of (x, y, q) \<Rightarrow> (e @ x, c @ y, q))"
  by (simp add: continue_def split: prod.split)

lemma feed_loop_append:
  "mr_hold r = [] \<Longrightarrow> length (s @ t) \<le> markupMaxBlockBytes \<Longrightarrow>
   feed_loop lib r (s @ t) = continue lib (feed_loop lib r s) t"
proof (induction lib r s rule: feed_loop.induct)
  case (1 lib r s)
  note hold = 1(4) and bound = 1(5)
  have same: "r\<lparr>mr_hold := []\<rparr> = r" using hold by simp
  show ?case
  proof (cases "mr_inBlock r")
    case False
    note out = feed_loop_out [OF False]
    show ?thesis
    proof (cases "markupStartCandidate s")
      case None
      have "feed_loop lib r s = (s, [], r)" by (simp add: out None)
      then show ?thesis
        using feed_loop_skip [OF False candidate_extend_None [OF None]]
        by (simp add: continue_def hold same)
    next
      case (Some i)
      have i: "i < length s" using candidate_at [OF Some] by simp
      show ?thesis
      proof (cases "length s - i < length markupOpen")
        case True
        have whole: "take i s @ drop i s @ t = s @ t" by (metis append.assoc append_take_drop_id)
        have held: "feed_loop lib r s = (take i s, [], r\<lparr>mr_hold := drop i s\<rparr>)"
          using True by (simp add: out Some)
        have "feed_loop lib r (take i s @ drop i s @ t) =
            (case feed_loop lib r (drop i s @ t) of (e, c, r') \<Rightarrow> (take i s @ e, c, r'))"
          by (rule feed_loop_skip [OF False]) (use i in \<open>simp add: whole candidate_extend_Some [OF Some]\<close>)
        then show ?thesis by (simp add: held whole continue_def same)
      next
        case full: False
        have tail: "drop (i + length markupOpen) (s @ t) = drop (i + length markupOpen) s @ t"
          using full i by simp
        have "feed_loop lib (r\<lparr>mr_inBlock := True\<rparr>) (drop (i + length markupOpen) s @ t) =
            continue lib (feed_loop lib (r\<lparr>mr_inBlock := True\<rparr>) (drop (i + length markupOpen) s)) t"
          using 1(1) [OF False Some full] hold bound by simp
        then show ?thesis
          using full i candidate_full_extend [OF Some, of t]
          by (simp add: out Some tail continue_def split: prod.split)
      qed
    qed
  next
    case True
    note ins = feed_loop_in [OF True]
    show ?thesis
    proof (cases "str_index s markupClose")
      case None
      have "\<not> markupMaxBlockBytes < length s" using bound by simp
      then have "feed_loop lib r s = ([], [], r\<lparr>mr_hold := s\<rparr>)" by (simp add: ins None)
      then show ?thesis by (simp add: continue_def same split: prod.split)
    next
      case (Some k)
      let ?r = "r\<lparr>mr_inBlock := False, mr_seen := Suc (mr_seen r)\<rparr>"
      have k: "k + length markupClose \<le> length s" by (rule str_index_bound [OF Some])
      have cut: "k - length s = 0" "k + length markupClose - length s = 0"
        using k by simp_all
      note some = str_index_extend [OF Some markupClose_ne(1), of t]
      show ?thesis
      proof (cases "parseMarkupBlock lib (take k s) (mr_allowed r)")
        case rej: None
        have "feed_loop lib (?r\<lparr>mr_rejected := Suc (mr_rejected ?r)\<rparr>) (drop (k + length markupClose) s @ t) =
            continue lib (feed_loop lib (?r\<lparr>mr_rejected := Suc (mr_rejected ?r)\<rparr>)
              (drop (k + length markupClose) s)) t"
          by (rule 1(2)) (use True Some rej hold bound in simp_all)
        then show ?thesis
          by (simp add: ins Some some cut rej Let_def continue_def split: prod.split)
      next
        case acc: (Some got)
        have "feed_loop lib (?r\<lparr>mr_converted := mr_converted ?r + length got\<rparr>) (drop (k + length markupClose) s @ t) =
            continue lib (feed_loop lib (?r\<lparr>mr_converted := mr_converted ?r + length got\<rparr>)
              (drop (k + length markupClose) s)) t"
          by (rule 1(3)) (use True Some acc hold bound in simp_all)
        then show ?thesis
          by (simp add: ins Some some cut acc Let_def continue_def split: prod.split)
      qed
    qed
  qed
qed

text \<open>A stream: the pieces are fed one after the other, then the recogniser is flushed.\<close>

fun feed_all ::
  "json_text \<Rightarrow> MarkupRepair \<Rightarrow> string list \<Rightarrow> string \<times> MarkupCall list \<times> MarkupRepair" where
  "feed_all lib r [] = ([], [], r)"
| "feed_all lib r (t # ts) = (case Feed lib r t of (e, c, r) \<Rightarrow>
     case feed_all lib r ts of (e', c', r') \<Rightarrow> (e @ e', c @ c', r'))"

definition repaired :: "json_text \<Rightarrow> MarkupRepair \<Rightarrow> string list \<Rightarrow> string \<times> MarkupCall list" where
  "repaired lib r ts = (case feed_all lib r ts of (e, c, r') \<Rightarrow> (e @ fst (Flush_markup r'), c))"

text \<open>
  What a run of the recogniser did with its input: pieces that it showed as they were, and blocks
  that it replaced by calls.
\<close>

datatype item = Shown string | Replaced string "MarkupCall list"

fun raw :: "item \<Rightarrow> string" where
  "raw (Shown t) = t"
| "raw (Replaced inner calls) = markupOpen @ inner @ markupClose"

fun shown :: "item \<Rightarrow> string" where
  "shown (Shown t) = t"
| "shown (Replaced inner calls) = []"

fun recovered :: "item \<Rightarrow> MarkupCall list" where
  "recovered (Shown t) = []"
| "recovered (Replaced inner calls) = calls"

fun item_ok :: "json_text \<Rightarrow> string list \<Rightarrow> item \<Rightarrow> bool" where
  "item_ok lib allowed (Shown t) = True"
| "item_ok lib allowed (Replaced inner calls) = (parseMarkupBlock lib inner allowed = Some calls)"

definition pending :: "MarkupRepair \<Rightarrow> string" where
  "pending r = (if mr_inBlock r then markupOpen @ mr_hold r else mr_hold r)"

definition explains ::
  "json_text \<Rightarrow> MarkupRepair \<Rightarrow> item list \<Rightarrow> string \<Rightarrow> string \<times> MarkupCall list \<times> MarkupRepair \<Rightarrow> bool"
where
  "explains lib r items s x = (case x of (e, c, r') \<Rightarrow>
     pending r @ s = concat (map raw items) @ pending r' \<and> e = concat (map shown items) \<and>
     c = concat (map recovered items) \<and> list_all (item_ok lib (mr_allowed r)) items \<and>
     mr_allowed r' = mr_allowed r \<and> mr_allowUnknown r' = mr_allowUnknown r)"

lemma explains_step:
  assumes "explains lib q items s' (e, c, r')" and "item_ok lib (mr_allowed r) it"
    and "pending r @ s = raw it @ pending q @ s'"
    and "mr_allowed q = mr_allowed r" and "mr_allowUnknown q = mr_allowUnknown r"
  shows "explains lib r (it # items) s (shown it @ e, recovered it @ c, r')"
  using assms by (simp add: explains_def)

lemma split_at: "k + length p \<le> length s \<Longrightarrow> prefix p (drop k s) \<Longrightarrow>
  s = take k s @ p @ drop (k + length p) s"
  by (metis append_take_drop_id drop_drop prefix_def append_eq_conv_conj add.commute)

lemma str_index_at: "str_index s p = Some k \<Longrightarrow> prefix p (drop k s)"
  by (induction s arbitrary: k) (auto split: if_splits)

lemma feed_loop_explained: "mr_hold r = [] \<Longrightarrow> \<exists>items. explains lib r items s (feed_loop lib r s)"
proof (induction lib r s rule: feed_loop.induct)
  case (1 lib r s)
  show ?case
  proof (cases "mr_inBlock r")
    case False
    note out = feed_loop_out [OF False]
    show ?thesis
    proof (cases "markupStartCandidate s")
      case None
      then have "explains lib r [Shown s] s (feed_loop lib r s)"
        using False 1(4) by (simp add: out explains_def pending_def)
      then show ?thesis ..
    next
      case (Some i)
      show ?thesis
      proof (cases "length s - i < length markupOpen")
        case True
        then have "explains lib r [Shown (take i s)] s (feed_loop lib r s)"
          using False 1(4) Some by (simp add: out explains_def pending_def)
        then show ?thesis ..
      next
        case full: False
        let ?q = "r\<lparr>mr_inBlock := True\<rparr>" and ?s = "drop (i + length markupOpen) s"
        have "\<exists>items. explains lib ?q items ?s (feed_loop lib ?q ?s)"
          by (rule 1(1)) (use False Some full 1(4) in simp_all)
        then obtain items e c r' where IH: "explains lib ?q items ?s (e, c, r')"
            and run: "feed_loop lib ?q ?s = (e, c, r')" by (metis prod.exhaust)
        have "s = take i s @ markupOpen @ ?s"
          by (rule split_at) (use full candidate_at [OF Some] at_candidate_full in auto)
        then have "pending r @ s = raw (Shown (take i s)) @ pending ?q @ ?s"
          using False 1(4) by (simp add: pending_def)
        from explains_step [OF IH _ this] have "explains lib r (Shown (take i s) # items) s (feed_loop lib r s)"
          using full by (simp add: out Some run)
        then show ?thesis ..
      qed
    qed
  next
    case True
    note ins = feed_loop_in [OF True]
    show ?thesis
    proof (cases "str_index s markupClose")
      case None
      have "\<exists>items. explains lib r items s (markupOpen @ s, [], r\<lparr>mr_inBlock := False\<rparr>)"
        using True 1(4) by (intro exI [of _ "[Shown (markupOpen @ s)]"]) (simp add: explains_def pending_def)
      moreover have "\<exists>items. explains lib r items s ([], [], r\<lparr>mr_hold := s\<rparr>)"
        using True 1(4) by (intro exI [of _ "[]"]) (simp add: explains_def pending_def)
      ultimately show ?thesis by (simp add: ins None)
    next
      case (Some k)
      let ?r = "r\<lparr>mr_inBlock := False, mr_seen := Suc (mr_seen r)\<rparr>"
      let ?s = "drop (k + length markupClose) s"
      have cut: "s = take k s @ markupClose @ ?s"
        by (rule split_at [OF str_index_bound [OF Some] str_index_at [OF Some]])
      show ?thesis
      proof (cases "parseMarkupBlock lib (take k s) (mr_allowed r)")
        case rej: None
        let ?q = "?r\<lparr>mr_rejected := Suc (mr_rejected ?r)\<rparr>"
        let ?it = "Shown (markupOpen @ take k s @ markupClose)"
        have "\<exists>items. explains lib ?q items ?s (feed_loop lib ?q ?s)"
          by (rule 1(2)) (use True Some rej 1(4) in simp_all)
        then obtain items e c r' where IH: "explains lib ?q items ?s (e, c, r')"
            and run: "feed_loop lib ?q ?s = (e, c, r')" by (metis prod.exhaust)
        have "pending r @ s = raw ?it @ pending ?q @ ?s"
          using True 1(4) cut by (simp add: pending_def)
        from explains_step [OF IH _ this] have "explains lib r (?it # items) s (feed_loop lib r s)"
          using run by (simp add: ins Some rej Let_def)
        then show ?thesis ..
      next
        case acc: (Some got)
        let ?q = "?r\<lparr>mr_converted := mr_converted ?r + length got\<rparr>"
        let ?it = "Replaced (take k s) got"
        have "\<exists>items. explains lib ?q items ?s (feed_loop lib ?q ?s)"
          by (rule 1(3)) (use True Some acc 1(4) in simp_all)
        then obtain items e c r' where IH: "explains lib ?q items ?s (e, c, r')"
            and run: "feed_loop lib ?q ?s = (e, c, r')" by (metis prod.exhaust)
        have "pending r @ s = raw ?it @ pending ?q @ ?s"
          using True 1(4) cut by (simp add: pending_def)
        from explains_step [OF IH _ this] have "explains lib r (?it # items) s (feed_loop lib r s)"
          using run acc by (simp add: ins Some Let_def)
        then show ?thesis ..
      qed
    qed
  qed
qed

lemma Feed_explained:
  assumes "Enabled r"
  shows "\<exists>items. explains lib r items t (Feed lib r t)"
proof -
  have "pending r @ t = pending (r\<lparr>mr_hold := []\<rparr>) @ mr_hold r @ t" by (simp add: pending_def)
  then show ?thesis
    using assms feed_loop_explained [of "r\<lparr>mr_hold := []\<rparr>" lib "mr_hold r @ t"]
    by (simp add: Feed_def explains_def case_prod_beta')
qed

lemma explains_length: "explains lib r items s (e, c, r') \<Longrightarrow> length (pending r') \<le> length (pending r @ s)"
  by (simp add: explains_def)

lemma explains_enabled: "explains lib r items s (e, c, r') \<Longrightarrow> Enabled r' = Enabled r"
  by (simp add: explains_def Enabled_def)

lemma Feed_append:
  assumes "length (pending r @ s @ t) \<le> markupMaxBlockBytes" and "Enabled r"
  shows "Feed lib r (s @ t) = (case Feed lib r s of (e, c, r1) \<Rightarrow>
    case Feed lib r1 t of (e', c', r2) \<Rightarrow> (e @ e', c @ c', r2))"
proof -
  obtain e c r1 where first: "Feed lib r s = (e, c, r1)" by (metis prod.exhaust)
  have "Enabled r1" using Feed_explained [OF assms(2), of lib s] explains_enabled first assms(2) by fastforce
  moreover have "length ((mr_hold r @ s) @ t) \<le> markupMaxBlockBytes"
    using assms(1) by (auto simp: pending_def split: if_splits)
  ultimately show ?thesis
    using assms(2) first feed_loop_append [of "r\<lparr>mr_hold := []\<rparr>" "mr_hold r @ s" t lib]
    by (simp add: Feed_def continue_def)
qed

section \<open>A stream of pieces\<close>

text \<open>Two runs in a row are explained by the items of the first and then those of the second.\<close>

lemma explains_append:
  assumes "explains lib r xs s (e, c, r1)" and "explains lib r1 ys t (e', c', r2)"
  shows "explains lib r (xs @ ys) (s @ t) (e @ e', c @ c', r2)"
proof -
  have "pending r @ s @ t = concat (map raw xs) @ pending r1 @ t"
    using assms(1) by (simp add: explains_def flip: append_assoc)
  with assms show ?thesis by (simp add: explains_def)
qed

lemma feed_all_explained: "Enabled r \<Longrightarrow> \<exists>items. explains lib r items (concat ts) (feed_all lib r ts)"
proof (induction ts arbitrary: r)
  case Nil
  have "explains lib r [] [] ([], [], r)" by (simp add: explains_def)
  then show ?case by auto
next
  case (Cons t ts)
  obtain e c r1 where first: "Feed lib r t = (e, c, r1)" by (metis prod.exhaust)
  obtain xs where xs: "explains lib r xs t (e, c, r1)" using Feed_explained [OF Cons.prems, of lib t] first by auto
  obtain e' c' r2 where rest: "feed_all lib r1 ts = (e', c', r2)" by (metis prod.exhaust)
  obtain ys where "explains lib r1 ys (concat ts) (e', c', r2)"
    using Cons.IH [of r1] explains_enabled [OF xs] Cons.prems rest by auto
  from explains_append [OF xs this] show ?case using first rest by auto
qed

lemma Feed_nil: "Enabled r \<Longrightarrow> mr_hold r = [] \<Longrightarrow> \<not> mr_inBlock r \<Longrightarrow> Feed lib r [] = ([], [], r)"
  by (simp add: Feed_def feed_loop_out)

lemma feed_all_single: "feed_all lib r [t] = Feed lib r t"
  by (simp split: prod.split)

text \<open>The pieces after the first may be joined, as long as the bound on a block is out of reach.\<close>

lemma feed_all_join:
  "Enabled r \<Longrightarrow> ts \<noteq> [] \<Longrightarrow> length (pending r @ concat ts) \<le> markupMaxBlockBytes \<Longrightarrow>
   feed_all lib r ts = Feed lib r (concat ts)"
proof (induction ts arbitrary: r)
  case (Cons t ts)
  obtain e c r1 where first: "Feed lib r t = (e, c, r1)" by (metis prod.exhaust)
  obtain xs where xs: "explains lib r xs t (e, c, r1)"
    using Feed_explained [OF Cons.prems(1), of lib t] first by auto
  show ?case
  proof (cases "ts = []")
    case True
    then show ?thesis by (simp split: prod.split)
  next
    case False
    have "length (pending r1 @ concat ts) \<le> length (pending r @ concat (t # ts))"
      using explains_length [OF xs] by simp
    then have "feed_all lib r1 ts = Feed lib r1 (concat ts)"
      using Cons.IH [of r1] False explains_enabled [OF xs] Cons.prems by simp
    then show ?thesis
      using Feed_append [of r t "concat ts" lib] Cons.prems first by simp
  qed
qed simp

lemma Flush_markup_pending: "Enabled r \<Longrightarrow> fst (Flush_markup r) = pending r"
  by (simp add: Flush_markup_def pending_def)

lemma pending_new [simp]: "pending (NewMarkupRepair a u) = []"
  by (simp add: pending_def NewMarkupRepair_def)

section \<open>Properties\<close>

text \<open>
  (C29) No byte of the model's text is lost or made up: whatever pieces a stream arrives in, the text
  is a sequence of stretches that reach the client unchanged and of marker blocks that the parser
  accepted and that are replaced by the calls it found in them, in the order of the text; what is
  shown, followed by what the final flush gives back, is the text without the accepted blocks.
\<close>

theorem markup_conserves:
  assumes "allowed \<noteq> [] \<or> allowUnknown"
  shows "\<exists>items. concat (map raw items) = concat pieces \<and>
    list_all (item_ok lib allowed) items \<and>
    repaired lib (NewMarkupRepair allowed allowUnknown) pieces =
      (concat (map shown items), concat (map recovered items))"
proof -
  let ?r = "NewMarkupRepair allowed allowUnknown"
  have en: "Enabled ?r" using assms by (auto simp: Enabled_def NewMarkupRepair_def)
  obtain e c r' where run: "feed_all lib ?r pieces = (e, c, r')" by (metis prod.exhaust)
  obtain items where ex: "explains lib ?r items (concat pieces) (e, c, r')"
    using feed_all_explained [OF en, of lib pieces] run by auto
  have "Enabled r'" using explains_enabled [OF ex] en by simp
  then have "repaired lib ?r pieces = (e @ pending r', c)"
    by (simp add: repaired_def run Flush_markup_pending)
  with ex show ?thesis
    by (intro exI [of _ "items @ [Shown (pending r')]"])
      (simp add: explains_def, simp add: NewMarkupRepair_def)
qed

definition plain_json :: json_text where
  "plain_json = \<lparr>UnmarshalAny = (\<lambda>s. None),
     MarshalAny = (\<lambda>v. case v of JObj [] \<Rightarrow> Some ''{}'' | _ \<Rightarrow> None)\<rparr>"

definition demo_invoke :: string where
  "demo_invoke = markupTagPrefix @ '' invoke name='' @ [CHR 0x22] @ ''ls'' @ [CHR 0x22] @ ''>'' @
     markupInvokeClose"

lemma markup_conserves_witness:
  "\<exists>items. concat (map raw items) = concat [''a<'', ''b''] \<and>
    list_all (item_ok plain_json [''ls'']) items \<and>
    repaired plain_json (NewMarkupRepair [''ls''] False) [''a<'', ''b''] =
      (concat (map shown items), concat (map recovered items))"
  by (rule markup_conserves) simp

text \<open>
  (C30) How the upstream cuts its text into pieces does not matter: as long as the text is no longer
  than the bound on a block, feeding it piece by piece shows the same text and recovers the same
  calls as feeding it at once.
\<close>

theorem markup_chunking:
  assumes "length (concat pieces) \<le> markupMaxBlockBytes"
  shows "repaired lib (NewMarkupRepair allowed allowUnknown) pieces =
    repaired lib (NewMarkupRepair allowed allowUnknown) [concat pieces]"
proof (cases "Enabled (NewMarkupRepair allowed allowUnknown)")
  case True
  let ?r = "NewMarkupRepair allowed allowUnknown"
  have "feed_all lib ?r pieces = Feed lib ?r (concat pieces)"
  proof (cases "pieces = []")
    case True
    have "Feed lib ?r [] = ([], [], ?r)"
      using \<open>Enabled ?r\<close> by (intro Feed_nil) (simp_all add: NewMarkupRepair_def)
    with True show ?thesis by simp
  next
    case False
    with \<open>Enabled ?r\<close> assms show ?thesis by (intro feed_all_join) simp_all
  qed
  then show ?thesis by (simp only: repaired_def feed_all_single)
next
  case False
  have "feed_all lib r ts = (concat ts, [], r)" if "\<not> Enabled r" for r and ts
    using that by (induction ts) (simp_all add: Feed_def)
  from this [OF False] show ?thesis by (simp only: repaired_def concat.simps append_Nil2)
qed

lemma markup_chunking_witness:
  "repaired plain_json (NewMarkupRepair [''ls''] False)
     [''go '' @ take 9 markupOpen, drop 9 markupOpen @ demo_invoke, markupClose @ ''!''] =
     (''go !'', [\<lparr>mk_Name = ''ls'', mk_Arguments = ''{}''\<rparr>])"
proof -
  have "repaired plain_json (NewMarkupRepair [''ls''] False)
      [concat [''go '' @ take 9 markupOpen, drop 9 markupOpen @ demo_invoke, markupClose @ ''!'']] =
     (''go !'', [\<lparr>mk_Name = ''ls'', mk_Arguments = ''{}''\<rparr>])"
    by code_simp
  moreover have "length (concat [''go '' @ take 9 markupOpen, drop 9 markupOpen @ demo_invoke,
      markupClose @ ''!'']) \<le> markupMaxBlockBytes"
    by (simp add: markupMaxBlockBytes_def markupOpen_def markupClose_def demo_invoke_def markupTagPrefix_def
      markupInvokeClose_def markupPipe_def)
  ultimately show ?thesis using markup_chunking by metis
qed

end
