(* ===== verification/Markup_Calls.thy ===== *)
theory Markup_Calls
  imports ToolPairing Markup
begin

text \<open>
  From recovered calls to the wire, after the second part of \<^verbatim>\<open>src/internal/upstream/dsml.go\<close>: the
  names a request makes trustworthy, the identifiers and the two shapes of a recovered call, and the
  repair of an aggregated answer. The clock readings behind an identifier are an argument, one per
  identifier; decoding a request into the anonymous structure of \<open>ToolNameAllowlist\<close> is one too.
\<close>

section \<open>Printed numbers\<close>

definition digit :: "char \<Rightarrow> bool" where
  "digit c = (CHR ''0'' \<le> c \<and> c \<le> CHR ''9'')"

lemma digit_char: "k < 10 \<Longrightarrow> digit (char_of (48 + k :: nat))"
  by (simp add: digit_def less_eq_char_def)

lemma dec_digits: "list_all digit (dec n) \<and> dec n \<noteq> []"
proof (induction n rule: dec.induct)
  case (1 n)
  show ?case
  proof (cases "n < 10")
    case True
    then show ?thesis by (simp add: dec.simps [of n] digit_char)
  next
    case False
    then show ?thesis using 1 by (simp add: dec.simps [of n] digit_char)
  qed
qed

lemma dec_inj: "dec m = dec n \<Longrightarrow> m = n"
proof (induction m arbitrary: n rule: dec.induct)
  case (1 m)
  have ends: "dec k = (if k < 10 then [] else dec (k div 10)) @ [char_of (48 + k mod 10)]" for k
    by (subst dec.simps) simp
  have "char_of (48 + m mod 10) = (char_of (48 + n mod 10) :: char)"
    and front: "(if m < 10 then [] else dec (m div 10)) = (if n < 10 then [] else dec (n div 10))"
    using "1.prems" ends [of m] ends [of n] by simp_all
  then have "of_char (char_of (48 + m mod 10) :: char) = (of_char (char_of (48 + n mod 10) :: char) :: nat)"
    by simp
  then have last: "m mod 10 = n mod 10" by simp
  show ?case
  proof (cases "m < 10")
    case True
    then have "n < 10" using front dec_digits [of "n div 10"] by (auto split: if_splits)
    with True last show ?thesis by simp
  next
    case False
    then have "\<not> n < 10" using front dec_digits [of "m div 10"] by (auto split: if_splits)
    with False front "1.IH" [of "n div 10"] have "m div 10 = n div 10" by simp
    with last show ?thesis by (metis div_mult_mod_eq)
  qed
qed

section \<open>The names of a request\<close>

record fn_name =
  fn_Name :: string

record tool_decl =
  td_Name :: string
  td_Function :: "fn_name option"

record msg_calls =
  ms_ToolCalls :: "fn_name option list"
  ms_FunctionCall :: "fn_name option"

record tool_request =
  tr_Tools :: "tool_decl list"
  tr_Functions :: "fn_name list"
  tr_Messages :: "msg_calls list"

definition real_name :: "fn_name option \<Rightarrow> string list" where
  "real_name f = (case f of None \<Rightarrow> [] | Some x \<Rightarrow> if fn_Name x \<noteq> [] then [fn_Name x] else [])"

definition tool_names :: "tool_decl \<Rightarrow> string list" where
  "tool_names t = (if real_name (td_Function t) \<noteq> [] then real_name (td_Function t)
     else if td_Name t \<noteq> [] then [td_Name t] else [])"

definition ToolNameAllowlist :: "(string \<Rightarrow> tool_request option) \<Rightarrow> string \<Rightarrow> string list" where
  "ToolNameAllowlist decode body = (case decode body of
      None \<Rightarrow> []
    | Some req \<Rightarrow>
        concat (map tool_names (tr_Tools req)) @
        concat (map (\<lambda>f. real_name (Some f)) (tr_Functions req)) @
        concat (map (\<lambda>m. concat (map real_name (ms_ToolCalls m)) @ real_name (ms_FunctionCall m))
          (tr_Messages req)))"

section \<open>Values of type any\<close>

text \<open>
  An aggregated answer is built in memory and inspected before it is written as JSON, so the type of
  a slice matters: \<open>[]any\<close> and \<open>[]map[string]any\<close> are different types, and a type assertion for the
  first fails on the second. \<open>VMaps\<close> is the second; decoded JSON never contains it.
\<close>

datatype gval =
    VNull
  | VBool bool
  | VNum rat
  | VStr string
  | VArr "gval list"
  | VMap "(string \<times> gval) list"
  | VMaps "(string \<times> gval) list list"

fun of_json :: "json \<Rightarrow> gval" where
  "of_json JNull = VNull"
| "of_json (JBool b) = VBool b"
| "of_json (JNum x) = VNum x"
| "of_json (JStr s) = VStr s"
| "of_json (JArr xs) = VArr (map of_json xs)"
| "of_json (JObj fs) = VMap (map (\<lambda>(k, v). (k, of_json v)) fs)"

definition v_str :: "(string \<times> gval) list \<Rightarrow> string \<Rightarrow> string" where
  "v_str m k = (case gm_get m k of Some (VStr s) \<Rightarrow> s | _ \<Rightarrow> [])"

definition v_arr :: "(string \<times> gval) list \<Rightarrow> string \<Rightarrow> gval list option" where
  "v_arr m k = (case gm_get m k of Some (VArr xs) \<Rightarrow> Some xs | _ \<Rightarrow> None)"

definition v_map :: "(string \<times> gval) list \<Rightarrow> string \<Rightarrow> (string \<times> gval) list option" where
  "v_map m k = (case gm_get m k of Some (VMap fs) \<Rightarrow> Some fs | _ \<Rightarrow> None)"

section \<open>Recovered calls on the wire\<close>

definition markupCallID :: "int \<Rightarrow> nat \<Rightarrow> string" where
  "markupCallID now idx = ''call_'' @ show_int now @ ''_'' @ dec idx"

definition markupMessageToolCalls :: "(nat \<Rightarrow> int) \<Rightarrow> MarkupCall list \<Rightarrow> gval list" where
  "markupMessageToolCalls clock calls = map (\<lambda>(i, call).
     VMap [(''id'', VStr (markupCallID (clock i) i)), (''type'', VStr ''function''),
       (''function'', VMap [(''name'', VStr (mk_Name call)), (''arguments'', VStr (mk_Arguments call))])])
     (enumerate 0 calls)"

definition markupToolCalls :: "(nat \<Rightarrow> int) \<Rightarrow> MarkupCall list \<Rightarrow> nat \<Rightarrow> json list" where
  "markupToolCalls clock calls base = map (\<lambda>(i, call).
     JObj [(''index'', JNum (of_nat (base + i))), (''id'', JStr (markupCallID (clock i) (base + i))),
       (''type'', JStr ''function''),
       (''function'', JObj [(''name'', JStr (mk_Name call)), (''arguments'', JStr (mk_Arguments call))])])
     (enumerate 0 calls)"

section \<open>Repairing an aggregated answer\<close>

text \<open>The guards of one choice with its message.\<close>

definition repairable :: "(string \<times> gval) list \<Rightarrow> (string \<times> gval) list \<Rightarrow> bool" where
  "repairable c msg =
     ((case v_arr msg ''tool_calls'' of Some tcs \<Rightarrow> tcs = [] | None \<Rightarrow> True) \<and>
      v_str c ''finish_reason'' = ''stop'' \<and>
      v_str msg ''content'' \<noteq> [] \<and> Contains (v_str msg ''content'') markupPipe)"

definition repair_choice ::
  "json_text \<Rightarrow> (nat \<Rightarrow> int) \<Rightarrow> MarkupRepair \<Rightarrow> gval \<Rightarrow> gval \<times> MarkupRepair" where
  "repair_choice lib clock r ci = (case ci of
      VMap c \<Rightarrow>
        (case v_map c ''message'' of
           None \<Rightarrow> (ci, r)
         | Some msg \<Rightarrow>
             if \<not> repairable c msg then (ci, r)
             else
               (case Feed lib r (v_str msg ''content'') of (emit, calls, r) \<Rightarrow>
                case Flush_markup r of (tail, r) \<Rightarrow>
                  if calls = [] then (ci, r)
                  else (VMap (gm_put ''finish_reason'' (VStr ''tool_calls'')
                          (gm_put ''message''
                            (VMap (gm_put ''tool_calls'' (VArr (markupMessageToolCalls clock calls))
                              (gm_put ''content'' (VStr (emit @ tail)) msg))) c)), r)))
    | _ \<Rightarrow> (ci, r))"

fun repair_choices ::
  "json_text \<Rightarrow> (nat \<Rightarrow> nat \<Rightarrow> int) \<Rightarrow> MarkupRepair \<Rightarrow> nat \<Rightarrow> gval list \<Rightarrow> gval list \<times> MarkupRepair" where
  "repair_choices lib clock r n [] = ([], r)"
| "repair_choices lib clock r n (c # cs) = (case repair_choice lib (clock n) r c of (c, r) \<Rightarrow>
     case repair_choices lib clock r (Suc n) cs of (cs, r) \<Rightarrow> (c # cs, r))"

definition RepairAggregatedResponse ::
  "json_text \<Rightarrow> (nat \<Rightarrow> nat \<Rightarrow> int) \<Rightarrow> (string \<times> gval) list \<Rightarrow> string list \<Rightarrow> bool \<Rightarrow>
   (string \<times> gval) list \<times> MarkupRepair" where
  "RepairAggregatedResponse lib clock resp allowed allowUnknown =
     (let r = NewMarkupRepair allowed allowUnknown in
      if \<not> Enabled r then (resp, r)
      else case v_arr resp ''choices'' of
        None \<Rightarrow> (resp, r)
      | Some choices \<Rightarrow>
          (case repair_choices lib clock r 0 choices of (cs, r) \<Rightarrow>
             (gm_put ''choices'' (VArr cs) resp, r)))"

section \<open>Identifiers\<close>

text \<open>The index behind the last underscore keeps identifiers apart, whatever the clock says.\<close>

lemma markupCallID_inj: "markupCallID t i = markupCallID u j \<Longrightarrow> i = j"
proof -
  assume "markupCallID t i = markupCallID u j"
  then have eq: "rev (dec i) @ CHR ''_'' # rev (show_int t) = rev (dec j) @ CHR ''_'' # rev (show_int u)"
    by (simp add: markupCallID_def) (metis append.assoc append_Cons append_Nil rev.simps(2) rev_append rev_rev_ident)
  have run: "takeWhile digit (rev (dec n) @ CHR ''_'' # xs) = rev (dec n)" for n xs
  proof -
    have "\<forall>c\<in>set (rev (dec n)). digit c" using dec_digits [of n] by (simp add: list_all_iff)
    moreover have "\<not> digit CHR ''_''" by (simp add: digit_def less_eq_char_def)
    ultimately show ?thesis by (metis takeWhile.simps(2) takeWhile_append2 append_Nil2)
  qed
  from arg_cong [where f = "takeWhile digit", OF eq] have "rev (dec i) = rev (dec j)"
    unfolding run .
  then show "i = j" using dec_inj by simp
qed

end
