(* ===== verification/Sse.thy ===== *)
theory Sse
  imports Markup_Calls
begin

text \<open>
  The upstream event stream, after \<^verbatim>\<open>src/internal/upstream/sse.go\<close> and
  \<^verbatim>\<open>src/internal/upstream/truncation.go\<close>: lines and payloads, the frame normaliser of the stream
  bridge, the pass-through of a whole stream, and the aggregation into one answer.

  A reader is the bytes it delivers and whether it then fails instead of ending. The argument
  \<open>json_text\<close> reads and writes JSON. A response writer is the predicate of the writes that succeed.
  Numbers of JSON are rationals; \<open>int(v)\<close> cuts off the fraction.
\<close>

section \<open>Lines\<close>

definition NL :: char where
  "NL = CHR 0x0A"

text \<open>\<open>ReadString('\n')\<close> to the end: the lines with their terminator, and what is left without one.\<close>

fun read_lines :: "string \<Rightarrow> string list \<times> string" where
  "read_lines [] = ([], [])"
| "read_lines (c # cs) = (case read_lines cs of (ls, rest) \<Rightarrow>
     if c = NL then ([c] # ls, rest)
     else case ls of [] \<Rightarrow> ([], c # rest) | l # ls' \<Rightarrow> ((c # l) # ls', rest))"

text \<open>\<open>strings.TrimRight(line, "\r\n")\<close>\<close>

definition trim_eol :: "string \<Rightarrow> string" where
  "trim_eol s = rev (dropWhile (\<lambda>c. c \<in> {CHR 0x0D, CHR 0x0A}) (rev s))"

definition data_prefix :: string where
  "data_prefix = ''data: ''"

definition done_mark :: string where
  "done_mark = ''[DONE]''"

text \<open>The payload of a data line, \<open>None\<close> for other lines.\<close>

definition payload_of :: "string \<Rightarrow> string option" where
  "payload_of line = (if HasPrefix line data_prefix then Some (drop (length data_prefix) line) else None)"

text \<open>
  Decoding into \<open>map[string]any\<close>: an object, \<open>null\<close> (which leaves the nil map), or an error. A nil
  map reads as an empty one and panics when a key is stored.
\<close>

datatype decoded = DecodeError | NilMap | Decoded "(string \<times> json) list"

definition unmarshal_map :: "json_text \<Rightarrow> string \<Rightarrow> decoded" where
  "unmarshal_map lib s = (case UnmarshalAny lib s of
      Some (JObj fs) \<Rightarrow> Decoded fs
    | Some JNull \<Rightarrow> NilMap
    | _ \<Rightarrow> DecodeError)"

section \<open>Frames\<close>

text \<open>Going through a list with a state.\<close>

fun thread :: "('s \<Rightarrow> 'a \<Rightarrow> 'b \<times> 's) \<Rightarrow> 's \<Rightarrow> 'a list \<Rightarrow> 'b list \<times> 's" where
  "thread f s [] = ([], s)"
| "thread f s (x # xs) = (case f s x of (y, s) \<Rightarrow> case thread f s xs of (ys, s) \<Rightarrow> (y # ys, s))"

definition call_index :: "json \<Rightarrow> int" where
  "call_index tc = (case jnum_of ''index'' tc of Some v \<Rightarrow> trunc_rat v | None \<Rightarrow> 0)"

definition strip_name :: "json \<Rightarrow> json" where
  "strip_name tc = (case obj_of ''function'' tc of
      Some fn \<Rightarrow> set_member ''function'' (JObj (gm_del ''name'' fn)) tc
    | None \<Rightarrow> tc)"

definition strip_call :: "int list \<Rightarrow> json \<Rightarrow> json \<times> int list" where
  "strip_call seen tc =
     (if \<not> is_obj tc then (tc, seen)
      else if call_index tc \<in> set seen then (strip_name tc, seen)
      else (tc, call_index tc # seen))"

definition strip_choice :: "int list \<Rightarrow> json \<Rightarrow> json \<times> int list" where
  "strip_choice seen c = (case obj_of ''delta'' c of
      Some delta \<Rightarrow>
        (case arr_of ''tool_calls'' (JObj delta) of
           Some tcs \<Rightarrow> (case thread strip_call seen tcs of (tcs, seen) \<Rightarrow>
             (set_member ''delta'' (JObj (gm_put ''tool_calls'' (JArr tcs) delta)) c, seen))
         | None \<Rightarrow> (c, seen))
    | None \<Rightarrow> (c, seen))"

definition stripToolCallNames ::
  "(string \<times> json) list \<Rightarrow> int list \<Rightarrow> (string \<times> json) list \<times> int list" where
  "stripToolCallNames obj seen = (case arr_of ''choices'' (JObj obj) of
      Some cs \<Rightarrow> (case thread strip_choice seen cs of (cs, seen) \<Rightarrow>
        (gm_put ''choices'' (JArr cs) obj, seen))
    | None \<Rightarrow> (obj, seen))"

text \<open>The white list.\<close>

definition keep_str :: "(string \<times> json) list \<Rightarrow> string \<Rightarrow> (string \<times> json) list \<Rightarrow> (string \<times> json) list" where
  "keep_str d k out = (if str_of k (JObj d) \<noteq> [] then gm_put k (JStr (str_of k (JObj d))) out else out)"

definition keep_value :: "(string \<times> json) list \<Rightarrow> string \<Rightarrow> (string \<times> json) list \<Rightarrow> (string \<times> json) list" where
  "keep_value obj k out = (case gm_get obj k of
      Some v \<Rightarrow> if v \<noteq> JNull then gm_put k v out else out
    | None \<Rightarrow> out)"

definition function_call_kept :: "json \<Rightarrow> bool" where
  "function_call_kept fc = (case fc of
      JNull \<Rightarrow> False
    | JObj f \<Rightarrow> str_of ''name'' fc \<noteq> [] \<or> str_of ''arguments'' fc \<noteq> []
    | _ \<Rightarrow> True)"

definition normalize_delta :: "(string \<times> json) list \<Rightarrow> (string \<times> json) list" where
  "normalize_delta d =
     (let out = keep_str d ''refusal'' (keep_str d ''reasoning_content''
            (keep_str d ''content'' (keep_str d ''role'' [])));
          out = (case arr_of ''tool_calls'' (JObj d) of
              Some tcs \<Rightarrow> if tcs \<noteq> [] then gm_put ''tool_calls'' (JArr tcs) out else out
            | None \<Rightarrow> out)
      in case gm_get d ''function_call'' of
           Some fc \<Rightarrow> if function_call_kept fc then gm_put ''function_call'' fc out else out
         | None \<Rightarrow> out)"

definition normalize_choice :: "(string \<times> json) list \<Rightarrow> (string \<times> json) list" where
  "normalize_choice c =
     (let nc = (case gm_get c ''index'' of Some idx \<Rightarrow> [(''index'', idx)] | None \<Rightarrow> []);
          delta = (case obj_of ''delta'' (JObj c) of Some d \<Rightarrow> normalize_delta d | None \<Rightarrow> []);
          fr = str_of ''finish_reason'' (JObj c)
      in gm_put ''finish_reason'' (if fr \<noteq> [] then JStr fr else JNull)
           (gm_put ''delta'' (JObj delta) nc))"

definition frame_keys :: "string list" where
  "frame_keys = [''id'', ''object'', ''created'', ''model'', ''system_fingerprint'', ''service_tier'']"

definition put_default :: "string \<Rightarrow> json \<Rightarrow> (string \<times> json) list \<Rightarrow> (string \<times> json) list" where
  "put_default k v m = (case gm_get m k of Some _ \<Rightarrow> m | None \<Rightarrow> gm_put k v m)"

definition normalizeFrame :: "(string \<times> json) list \<Rightarrow> (string \<times> json) list" where
  "normalizeFrame obj =
     (let out = foldl (\<lambda>out k. keep_value obj k out) [] frame_keys;
          out = put_default ''id'' (JStr ''chatcmpl-wb2api'')
            (put_default ''object'' (JStr ''chat.completion.chunk'') out);
          out = (case arr_of ''choices'' (JObj obj) of
              Some chs \<Rightarrow> gm_put ''choices''
                (JArr (map (\<lambda>c. JObj (normalize_choice (members c))) (filter is_obj chs))) out
            | None \<Rightarrow> out)
      in gm_put ''usage'' (case gm_get obj ''usage'' of Some u \<Rightarrow> u | None \<Rightarrow> JNull) out)"

section \<open>The frame normaliser\<close>

record ChunkNormalizer =
  toolCallSeen :: "int list"
  firstID :: string

definition NewChunkNormalizer :: ChunkNormalizer where
  "NewChunkNormalizer = \<lparr>toolCallSeen = [], firstID = []\<rparr>"

text \<open>Continuing the identifier; \<open>None\<close> is the store into a nil map, which panics.\<close>

definition carry_id :: "ChunkNormalizer \<Rightarrow> bool \<Rightarrow> (string \<times> json) list \<Rightarrow>
    ((string \<times> json) list \<times> ChunkNormalizer) option" where
  "carry_id n nil obj =
     (let v = str_of ''id'' (JObj obj) in
      if firstID n = [] then Some (obj, if v \<noteq> [] then n\<lparr>firstID := v\<rparr> else n)
      else if v \<noteq> [] then Some (obj, n)
      else if nil then None
      else Some (gm_put ''id'' (JStr (firstID n)) obj, n))"

text \<open>The steps that \<open>Normalize\<close> and \<open>writeFrame\<close> share, on a frame without an error member.\<close>

definition rebuild :: "json_text \<Rightarrow> ChunkNormalizer \<Rightarrow> string \<Rightarrow> bool \<Rightarrow> (string \<times> json) list \<Rightarrow>
    (string \<times> ChunkNormalizer) option" where
  "rebuild lib n payload nil obj =
     (case stripToolCallNames obj (toolCallSeen n) of (obj, seen) \<Rightarrow>
      case carry_id (n\<lparr>toolCallSeen := seen\<rparr>) nil obj of
        None \<Rightarrow> None
      | Some (obj, n) \<Rightarrow> Some (case MarshalAny lib (JObj (normalizeFrame obj)) of
            Some raw \<Rightarrow> raw | None \<Rightarrow> payload, n))"

text \<open>\<open>Normalize\<close>: the payload to send, whether it counts, whether the stream is done.\<close>

definition Normalize :: "json_text \<Rightarrow> ChunkNormalizer \<Rightarrow> string \<Rightarrow>
    ((string \<times> bool \<times> bool) \<times> ChunkNormalizer) option" where
  "Normalize lib n payload =
     (if payload = done_mark then Some (([], False, True), n)
      else case unmarshal_map lib payload of
        DecodeError \<Rightarrow> Some ((payload, False, False), n)
      | NilMap \<Rightarrow> map_option (\<lambda>(out, n). ((out, True, False), n)) (rebuild lib n payload True [])
      | Decoded obj \<Rightarrow>
          if gm_get obj ''error'' \<noteq> None then Some ((payload, True, False), n)
          else map_option (\<lambda>(out, n). ((out, True, False), n)) (rebuild lib n payload False obj))"

section \<open>Passing a stream through\<close>

text \<open>A hint function; \<open>None\<close> is a panic, which is recovered and gives no hint.\<close>

type_synonym hint_fn = "string \<Rightarrow> string option"

definition frameGatewayHint :: "hint_fn option \<Rightarrow> string \<Rightarrow> string" where
  "frameGatewayHint hintFn payload = (case hintFn of
      None \<Rightarrow> []
    | Some f \<Rightarrow> (case f payload of None \<Rightarrow> [] | Some h \<Rightarrow> TrimSpace h))"

definition attachHintToErrorFrame :: "json_text \<Rightarrow> string \<Rightarrow> string \<Rightarrow> string" where
  "attachHintToErrorFrame lib payload hint = (case unmarshal_map lib payload of
      Decoded obj \<Rightarrow>
        (case obj_of ''error'' (JObj obj) of
           Some e \<Rightarrow>
             (case MarshalAny lib (JObj (gm_put ''error'' (JObj (gm_put ''gateway_hint'' (JStr hint) e)) obj)) of
                Some out \<Rightarrow> out
              | None \<Rightarrow> payload)
         | None \<Rightarrow> payload)
    | _ \<Rightarrow> payload)"

definition hinted :: "json_text \<Rightarrow> hint_fn option \<Rightarrow> string \<Rightarrow> string" where
  "hinted lib hintFn payload =
     (let hint = frameGatewayHint hintFn payload in
      if hint \<noteq> [] then attachHintToErrorFrame lib payload hint else payload)"

definition sse_event :: "string \<Rightarrow> string" where
  "sse_event payload = data_prefix @ payload @ [NL, NL]"

text \<open>
  What a frame is written as, whether it counts, and the state afterwards; \<open>None\<close> is a panic.
\<close>

definition frame_text :: "json_text \<Rightarrow> hint_fn option \<Rightarrow> ChunkNormalizer \<Rightarrow> string \<Rightarrow>
    ((string \<times> nat) \<times> ChunkNormalizer) option" where
  "frame_text lib hintFn n payload = (case unmarshal_map lib payload of
      DecodeError \<Rightarrow> Some ((payload, 0), n)
    | NilMap \<Rightarrow> map_option (\<lambda>(out, n). ((out, 1), n)) (rebuild lib n payload True [])
    | Decoded obj \<Rightarrow>
        if gm_get obj ''error'' \<noteq> None then Some ((hinted lib hintFn payload, 1), n)
        else map_option (\<lambda>(out, n). ((out, 1), n)) (rebuild lib n payload False obj))"

datatype stream_end = StreamOK | EmptyStream | WriteError | ReadError | Panicked

text \<open>What was written, how many writes were tried, the frame state and the frames that count.\<close>

record stream_state =
  ss_out :: "string list"
  ss_tries :: nat
  ss_norm :: ChunkNormalizer
  ss_valid :: nat

type_synonym stream_result = "string list \<times> stream_end"

text \<open>One write: the writer accepts it, or the function returns with the error.\<close>

definition put_text :: "(nat \<Rightarrow> bool) \<Rightarrow> stream_state \<Rightarrow> string \<Rightarrow> stream_result + stream_state" where
  "put_text ok st s =
     (if ok (ss_tries st) then Inr (st\<lparr>ss_out := ss_out st @ [s], ss_tries := Suc (ss_tries st)\<rparr>)
      else Inl (ss_out st, WriteError))"

datatype line_step = Halt | Next "stream_result + stream_state"

definition stream_line :: "json_text \<Rightarrow> hint_fn option \<Rightarrow> (nat \<Rightarrow> bool) \<Rightarrow> stream_state \<Rightarrow> string \<Rightarrow> line_step" where
  "stream_line lib hintFn ok st line =
     (let trimmed = trim_eol line in
      if HasPrefix trimmed (data_prefix @ done_mark) then Halt
      else case payload_of trimmed of
        Some payload \<Rightarrow> Next (case frame_text lib hintFn (ss_norm st) payload of
            None \<Rightarrow> Inl (ss_out st, Panicked)
          | Some ((out, v), n) \<Rightarrow>
              (case put_text ok st (sse_event out) of
                 Inl e \<Rightarrow> Inl e
               | Inr st \<Rightarrow> Inr (st\<lparr>ss_norm := n, ss_valid := ss_valid st + v\<rparr>)))
      | None \<Rightarrow> Next (if trimmed \<noteq> [] then put_text ok st line else Inr st))"

text \<open>The read loop; \<open>fails\<close> says that the reader ends with an error instead of the end of file.\<close>

fun stream_loop :: "json_text \<Rightarrow> hint_fn option \<Rightarrow> (nat \<Rightarrow> bool) \<Rightarrow> bool \<Rightarrow> stream_state \<Rightarrow> string list \<Rightarrow>
    stream_result + stream_state" where
  "stream_loop lib hintFn ok fails st [] = (if fails then Inl (ss_out st, ReadError) else Inr st)"
| "stream_loop lib hintFn ok fails st (line # rest) = (case stream_line lib hintFn ok st line of
      Halt \<Rightarrow> Inr st
    | Next (Inl e) \<Rightarrow> Inl e
    | Next (Inr st) \<Rightarrow> stream_loop lib hintFn ok fails st rest)"

definition empty_stream_frame :: string where
  "empty_stream_frame =
     ''{\"error\":{\"message\":\"empty upstream stream\",\"type\":\"upstream_error\",\"code\":\"upstream_parse\"}}''"

definition stream_headers :: "(string \<times> string) list" where
  "stream_headers = [(''Content-Type'', ''text/event-stream''), (''Cache-Control'', ''no-cache''),
     (''Connection'', ''keep-alive''), (''X-Accel-Buffering'', ''no'')]"

text \<open>All that \<open>ReadString\<close> delivers: the lines, and a last piece that comes with the end.\<close>

definition deliveries :: "string \<Rightarrow> string list" where
  "deliveries bytes = (case read_lines bytes of (ls, rest) \<Rightarrow> ls @ [rest])"

text \<open>The end of \<open>StreamHint\<close>; a failing write of the error frame is ignored.\<close>

definition finish_stream :: "json_text \<Rightarrow> hint_fn option \<Rightarrow> (nat \<Rightarrow> bool) \<Rightarrow> stream_state \<Rightarrow> stream_result" where
  "finish_stream lib hintFn ok st =
     (let st = (if ss_valid st = 0
          then (case put_text ok st (sse_event (hinted lib hintFn empty_stream_frame)) of
                  Inl e \<Rightarrow> st\<lparr>ss_tries := Suc (ss_tries st)\<rparr>
                | Inr st \<Rightarrow> st)
          else st)
      in case put_text ok st (sse_event done_mark) of
           Inl e \<Rightarrow> e
         | Inr st \<Rightarrow> (ss_out st, if ss_valid st = 0 then EmptyStream else StreamOK))"

definition StreamHint :: "json_text \<Rightarrow> hint_fn option \<Rightarrow> (nat \<Rightarrow> bool) \<Rightarrow> string \<Rightarrow> bool \<Rightarrow> stream_result" where
  "StreamHint lib hintFn ok bytes fails =
     (case stream_loop lib hintFn ok fails
         \<lparr>ss_out = [], ss_tries = 0, ss_norm = NewChunkNormalizer, ss_valid = 0\<rparr> (deliveries bytes) of
        Inl e \<Rightarrow> e
      | Inr st \<Rightarrow> finish_stream lib hintFn ok st)"

definition Stream :: "json_text \<Rightarrow> (nat \<Rightarrow> bool) \<Rightarrow> string \<Rightarrow> bool \<Rightarrow> stream_result" where
  "Stream lib ok bytes fails = StreamHint lib None ok bytes fails"

end
