(* ===== verification/Sse_Props.thy ===== *)
theory Sse_Props
  imports Sse ToolPairing_Props
begin

text \<open>
  The properties of the stream bridge: the two ways of passing a frame on agree, a tool name reaches
  the client once, the identifier is continued, the stream ends with exactly one end mark, and the
  one payload that makes the bridge panic.
\<close>

section \<open>Threading\<close>

lemma thread_append: "thread f s (xs @ ys) = (case thread f s xs of (as, s) \<Rightarrow>
    case thread f s ys of (bs, s) \<Rightarrow> (as @ bs, s))"
  by (induction xs arbitrary: s) (auto split: prod.splits)

lemma thread_length: "length (fst (thread f s xs)) = length xs"
proof (induction xs arbitrary: s)
  case (Cons x xs)
  obtain y t where "f s x = (y, t)" by (metis prod.exhaust)
  with Cons.IH [of t] show ?case by (auto split: prod.splits)
qed simp

section \<open>Tool names\<close>

text \<open>The call fragments of a frame, in the order the code visits them.\<close>

definition choice_calls :: "json \<Rightarrow> json list" where
  "choice_calls c = (case obj_of ''delta'' c of Some d \<Rightarrow> calls_of (JObj d) | None \<Rightarrow> [])"

definition frame_calls :: "(string \<times> json) list \<Rightarrow> json list" where
  "frame_calls obj = concat (map choice_calls (case arr_of ''choices'' (JObj obj) of Some cs \<Rightarrow> cs | None \<Rightarrow> []))"

lemma obj_of_obj: "obj_of k c = Some v \<Longrightarrow> is_obj c"
  by (cases c) (auto simp: obj_of_def members_def is_obj_def)

lemma obj_of_set:
  "is_obj m \<Longrightarrow> obj_of j (set_member k (JObj v) m) = (if j = k then Some v else obj_of j m)"
  by (simp add: obj_of_def get_members_set)

lemma calls_of_put [simp]: "calls_of (JObj (gm_put ''tool_calls'' (JArr xs) d)) = xs"
  by (simp add: calls_of_def arr_of_def members_def)

lemma strip_choice_calls:
  assumes "strip_choice seen c = (c', seen')"
  shows "thread strip_call seen (choice_calls c) = (choice_calls c', seen')"
proof (cases "obj_of ''delta'' c")
  case None
  with assms show ?thesis by (auto simp: strip_choice_def choice_calls_def)
next
  case (Some d)
  show ?thesis
  proof (cases "arr_of ''tool_calls'' (JObj d)")
    case None
    with Some assms show ?thesis by (auto simp: strip_choice_def choice_calls_def calls_of_def)
  next
    case tcs: (Some tcs)
    obtain out s where run: "thread strip_call seen tcs = (out, s)" by (metis prod.exhaust)
    have "c' = set_member ''delta'' (JObj (gm_put ''tool_calls'' (JArr out) d)) c \<and> seen' = s"
      using assms Some tcs run by (simp add: strip_choice_def)
    then show ?thesis
      using Some tcs run by (simp add: choice_calls_def calls_of_def [of "JObj d"] obj_of_set [OF obj_of_obj [OF Some]])
  qed
qed

lemma strip_choices_calls:
  "thread strip_choice seen cs = (cs', seen') \<Longrightarrow>
   thread strip_call seen (concat (map choice_calls cs)) = (concat (map choice_calls cs'), seen')"
proof (induction cs arbitrary: seen cs')
  case (Cons c cs)
  obtain d s where d: "strip_choice seen c = (d, s)" by (metis prod.exhaust)
  obtain ds where ds: "thread strip_choice s cs = (ds, seen')" "cs' = d # ds"
    using Cons.prems d by (auto split: prod.splits)
  show ?case using Cons.IH [OF ds(1)] strip_choice_calls [OF d] ds(2) by (simp add: thread_append)
qed simp

lemma strip_frame_calls:
  "stripToolCallNames obj seen = (obj', seen') \<Longrightarrow>
   thread strip_call seen (frame_calls obj) = (frame_calls obj', seen')"
  using strip_choices_calls
  by (auto simp: stripToolCallNames_def frame_calls_def arr_of_def members_def
      split: option.splits json.splits prod.splits)

definition strip_frames :: "int list \<Rightarrow> (string \<times> json) list list \<Rightarrow> (string \<times> json) list list \<times> int list" where
  "strip_frames seen objs = thread (\<lambda>seen obj. stripToolCallNames obj seen) seen objs"

lemma strip_frames_calls:
  "strip_frames seen objs = (objs', seen') \<Longrightarrow>
   thread strip_call seen (concat (map frame_calls objs)) = (concat (map frame_calls objs'), seen')"
  unfolding strip_frames_def
proof (induction objs arbitrary: seen objs')
  case (Cons c cs)
  obtain d s where d: "stripToolCallNames c seen = (d, s)" by (metis prod.exhaust)
  obtain ds where ds: "thread (\<lambda>seen obj. stripToolCallNames obj seen) s cs = (ds, seen')" "objs' = d # ds"
    using Cons.prems d by (auto split: prod.splits)
  show ?case using Cons.IH [OF ds(1)] strip_frame_calls [OF d] ds(2) by (simp add: thread_append)
qed simp

text \<open>What a client reads off a fragment.\<close>

definition fragment_of :: "int \<Rightarrow> json \<Rightarrow> bool" where
  "fragment_of i tc = (is_obj tc \<and> call_index tc = i)"

definition has_name :: "json \<Rightarrow> bool" where
  "has_name tc = (case obj_of ''function'' tc of
      Some fn \<Rightarrow> gm_get fn ''name'' \<noteq> None | None \<Rightarrow> False)"

definition fn_str :: "string \<Rightarrow> json \<Rightarrow> string" where
  "fn_str k tc = (case obj_of ''function'' tc of Some f \<Rightarrow> str_of k (JObj f) | None \<Rightarrow> [])"

lemma strip_name_facts:
  "is_obj (strip_name tc) = is_obj tc" "call_index (strip_name tc) = call_index tc"
  "\<not> has_name (strip_name tc)" "fn_str ''arguments'' (strip_name tc) = fn_str ''arguments'' tc"
  "fn_str ''name'' (strip_name tc) = []"
proof -
  have "is_obj (strip_name tc) = is_obj tc \<and> call_index (strip_name tc) = call_index tc \<and>
      \<not> has_name (strip_name tc) \<and> fn_str ''arguments'' (strip_name tc) = fn_str ''arguments'' tc \<and>
      fn_str ''name'' (strip_name tc) = []"
  proof (cases "obj_of ''function'' tc")
    case None
    then show ?thesis by (simp add: strip_name_def has_name_def fn_str_def)
  next
    case (Some fn)
    note obj = obj_of_obj [OF Some]
    show ?thesis
      using Some obj by (simp add: strip_name_def call_index_def jnum_of_def get_members_set [OF obj] has_name_def
          fn_str_def obj_of_set [OF obj])
        (simp add: str_of_def members_def gm_get_del)
  qed
  then show "is_obj (strip_name tc) = is_obj tc" "call_index (strip_name tc) = call_index tc"
    "\<not> has_name (strip_name tc)" "fn_str ''arguments'' (strip_name tc) = fn_str ''arguments'' tc"
    "fn_str ''name'' (strip_name tc) = []"
    by simp_all
qed

lemma fragment_strip [simp]: "fragment_of i (strip_name tc) = fragment_of i tc"
  by (simp add: fragment_of_def strip_name_facts)

lemma strip_seen:
  "thread strip_call seen tcs = (out, seen') \<Longrightarrow> i \<in> set seen \<Longrightarrow>
   filter (fragment_of i) out = map strip_name (filter (fragment_of i) tcs)"
proof (induction tcs arbitrary: seen out)
  case (Cons tc tcs)
  obtain t s where t: "strip_call seen tc = (t, s)" by (metis prod.exhaust)
  obtain o' where o': "thread strip_call s tcs = (o', seen')" "out = t # o'"
    using Cons.prems t by (auto split: prod.splits)
  have "i \<in> set s" using t Cons.prems(2) by (auto simp: strip_call_def split: if_splits)
  from Cons.IH [OF o'(1) this] show ?case
    using t o'(2) Cons.prems(2) by (auto simp: strip_call_def fragment_of_def strip_name_facts split: if_splits)
qed simp

lemma strip_unseen:
  "thread strip_call seen tcs = (out, seen') \<Longrightarrow> i \<notin> set seen \<Longrightarrow>
   filter (fragment_of i) out =
     (case filter (fragment_of i) tcs of [] \<Rightarrow> [] | t # ts \<Rightarrow> t # map strip_name ts)"
proof (induction tcs arbitrary: seen out)
  case (Cons tc tcs)
  obtain t s where t: "strip_call seen tc = (t, s)" by (metis prod.exhaust)
  obtain o' where o': "thread strip_call s tcs = (o', seen')" "out = t # o'"
    using Cons.prems t by (auto split: prod.splits)
  show ?case
  proof (cases "fragment_of i tc")
    case True
    then have "t = tc" "i \<in> set s" using t Cons.prems(2) by (auto simp: strip_call_def fragment_of_def split: if_splits)
    with strip_seen [OF o'(1)] o'(2) True show ?thesis by simp
  next
    case False
    then have "\<not> fragment_of i t" "i \<notin> set s"
      using t Cons.prems(2) by (auto simp: strip_call_def fragment_of_def strip_name_facts split: if_splits)
    with Cons.IH [OF o'(1)] o'(2) False show ?thesis by simp
  qed
qed simp

definition fragments_of :: "int \<Rightarrow> (string \<times> json) list list \<Rightarrow> json list" where
  "fragments_of i objs = filter (fragment_of i) (concat (map frame_calls objs))"

text \<open>
  Over a whole stream a tool name reaches the client at most once per call: for every index the
  fragments that are passed on are the first as it came and the later ones without their name, so a
  client that appends names ends up with the name of the first fragment, while the arguments of all
  fragments are passed on unchanged and in order.
\<close>

theorem tool_name_once:
  assumes "strip_frames [] objs = (objs', seen)"
  shows "concat (map (fn_str ''name'') (fragments_of i objs')) =
      (case fragments_of i objs of [] \<Rightarrow> [] | t # ts \<Rightarrow> fn_str ''name'' t) \<and>
    list_all (\<lambda>t. \<not> has_name t) (tl (fragments_of i objs')) \<and>
    map (fn_str ''arguments'') (fragments_of i objs') = map (fn_str ''arguments'') (fragments_of i objs)"
proof -
  have "fragments_of i objs' = (case fragments_of i objs of [] \<Rightarrow> [] | t # ts \<Rightarrow> t # map strip_name ts)"
    unfolding fragments_of_def by (rule strip_unseen [OF strip_frames_calls [OF assms]]) simp
  then show ?thesis
    by (cases "fragments_of i objs") (auto simp: strip_name_facts list_all_iff comp_def)
qed

definition demo_fragment :: "string \<Rightarrow> string \<Rightarrow> (string \<times> json) list" where
  "demo_fragment name args = [(''choices'', JArr [JObj [(''delta'', JObj [(''tool_calls'',
     JArr [JObj [(''index'', JNum 0), (''function'', JObj [(''name'', JStr name), (''arguments'', JStr args)])]])])]])]"

lemma tool_name_once_witness:
  "concat (map (fn_str ''name'') (fragments_of 0 (fst (strip_frames [] [demo_fragment ''ls'' ''{'', demo_fragment ''ls'' ''}'']))))
     = ''ls''"
proof -
  obtain objs' seen where run: "strip_frames [] [demo_fragment ''ls'' ''{'', demo_fragment ''ls'' ''}''] = (objs', seen)"
    by (metis prod.exhaust)
  have "(case fragments_of 0 [demo_fragment ''ls'' ''{'', demo_fragment ''ls'' ''}''] of [] \<Rightarrow> []
      | t # ts \<Rightarrow> fn_str ''name'' t) = ''ls''"
    by code_simp
  with tool_name_once [OF run, of 0] show ?thesis by (simp only: run fst_conv)
qed

section \<open>Panics\<close>

text \<open>
  The frame normaliser panics in exactly one case: the payload is the JSON value \<open>null\<close>, which
  decodes to a nil map, after a frame with an identifier has been seen. Every other payload, JSON or
  not, is answered.
\<close>

theorem Normalize_panics_iff:
  "Normalize lib n payload = None \<longleftrightarrow>
     payload \<noteq> done_mark \<and> UnmarshalAny lib payload = Some JNull \<and> firstID n \<noteq> []"
proof -
  have strip_nil: "stripToolCallNames [] seen = ([], seen)" for seen
    by (simp add: stripToolCallNames_def arr_of_def members_def)
  have obj: "\<exists>out n'. rebuild lib n payload False obj = Some (out, n')" for obj
    by (simp add: rebuild_def carry_id_def Let_def split: prod.splits)
  have nil: "rebuild lib n payload True [] = None \<longleftrightarrow> firstID n \<noteq> []"
    by (auto simp: rebuild_def strip_nil carry_id_def str_of_def members_def)
  show ?thesis
    by (auto simp: Normalize_def unmarshal_map_def obj nil split: option.splits json.splits)
qed

section \<open>The identifier\<close>

lemma strip_keeps_id: "stripToolCallNames obj seen = (obj', seen') \<Longrightarrow> gm_get obj' ''id'' = gm_get obj ''id''"
  by (auto simp: stripToolCallNames_def split: option.splits prod.splits)

lemma keep_value_get:
  "gm_get (keep_value obj k out) j = (if j = k \<and> gm_get obj k \<noteq> None \<and> gm_get obj k \<noteq> Some JNull
     then gm_get obj k else gm_get out j)"
  by (auto simp: keep_value_def split: option.splits)

lemma keep_values_get:
  "gm_get (foldl (\<lambda>out k. keep_value obj k out) out ks) j =
     (if j \<in> set ks \<and> gm_get obj j \<noteq> None \<and> gm_get obj j \<noteq> Some JNull then gm_get obj j else gm_get out j)"
  by (induction ks arbitrary: out) (auto simp: keep_value_get)

lemma put_default_get:
  "gm_get (put_default k v m) j = (if j = k \<and> gm_get m k = None then Some v else gm_get m j)"
  by (auto simp: put_default_def split: option.splits)

lemma id_key: "''id'' \<in> set frame_keys"
  by (simp add: frame_keys_def)

lemma normalizeFrame_id:
  "gm_get (normalizeFrame obj) ''id'' =
     (if gm_get obj ''id'' \<noteq> None \<and> gm_get obj ''id'' \<noteq> Some JNull then gm_get obj ''id''
      else Some (JStr ''chatcmpl-wb2api''))"
proof -
  define kept where "kept = foldl (\<lambda>out k. keep_value obj k out) [] frame_keys"
  have kept: "gm_get kept ''id'' = (if gm_get obj ''id'' \<noteq> None \<and> gm_get obj ''id'' \<noteq> Some JNull
      then gm_get obj ''id'' else None)"
    by (simp add: kept_def keep_values_get id_key)
  show ?thesis
    unfolding normalizeFrame_def kept_def [symmetric] Let_def
    by (cases "arr_of ''choices'' (JObj obj)") (simp_all add: put_default_get kept)
qed


text \<open>What is sent for a decoded frame without an error member, before it is written as JSON.\<close>

definition send :: "ChunkNormalizer \<Rightarrow> (string \<times> json) list \<Rightarrow> (string \<times> json) list \<times> ChunkNormalizer" where
  "send n obj = (case stripToolCallNames obj (toolCallSeen n) of (obj, seen) \<Rightarrow>
     case carry_id (n\<lparr>toolCallSeen := seen\<rparr>) False obj of
       Some (obj, n) \<Rightarrow> (normalizeFrame obj, n)
     | None \<Rightarrow> ([], n))"

lemma rebuild_send:
  "rebuild lib n payload False obj =
     Some (case MarshalAny lib (JObj (fst (send n obj))) of Some raw \<Rightarrow> raw | None \<Rightarrow> payload, snd (send n obj))"
  by (auto simp: rebuild_def send_def carry_id_def Let_def split: prod.splits)

definition own_id :: "(string \<times> json) list \<Rightarrow> string" where
  "own_id obj = str_of ''id'' (JObj obj)"

text \<open>The first identifier of a stream that is a non-empty string.\<close>

fun first_id :: "string list \<Rightarrow> string" where
  "first_id [] = []"
| "first_id (x # xs) = (if x \<noteq> [] then x else first_id xs)"

lemma send_id:
  "gm_get (fst (send n obj)) ''id'' =
     (if own_id obj \<noteq> [] then Some (JStr (own_id obj))
      else if firstID n \<noteq> [] then Some (JStr (firstID n))
      else gm_get (normalizeFrame obj) ''id'') \<and>
   firstID (snd (send n obj)) = first_id [firstID n, own_id obj]"
proof -
  obtain o' s where strip: "stripToolCallNames obj (toolCallSeen n) = (o', s)" by (metis prod.exhaust)
  have same: "gm_get o' ''id'' = gm_get obj ''id''" by (rule strip_keeps_id [OF strip])
  have own: "str_of ''id'' (JObj o') = own_id obj" by (simp add: own_id_def str_of_def members_def same)
  have str: "own_id obj \<noteq> [] \<Longrightarrow> gm_get obj ''id'' = Some (JStr (own_id obj))"
    by (auto simp: own_id_def str_of_def members_def split: option.splits json.splits)
  show ?thesis
    using str by (auto simp: send_def strip carry_id_def Let_def own normalizeFrame_id same)
qed

lemma sends_firstID: "firstID (snd (thread send n objs)) = first_id (firstID n # map own_id objs)"
proof (induction objs arbitrary: n)
  case (Cons x xs)
  obtain y m where y: "send n x = (y, m)" by (metis prod.exhaust)
  have "firstID m = first_id [firstID n, own_id x]" using send_id [of n x] y by simp
  then show ?case using Cons.IH [of m] y by (auto split: prod.splits)
qed simp

text \<open>
  All frames of a stream carry one identifier once it is known: a frame that has an identifier
  of its own keeps it, and a frame without one gets the first identifier of the frames before it; only
  while no frame has had one does the fixed substitute appear.
\<close>

theorem stream_id_continued:
  assumes "thread send NewChunkNormalizer (before @ obj # later) = (outs, n)"
  shows "gm_get (outs ! length before) ''id'' =
    (if own_id obj \<noteq> [] then Some (JStr (own_id obj))
     else if first_id (map own_id before) \<noteq> [] then Some (JStr (first_id (map own_id before)))
     else gm_get (normalizeFrame obj) ''id'')"
proof -
  obtain xs m where xs: "thread send NewChunkNormalizer before = (xs, m)" by (metis prod.exhaust)
  obtain ys where "outs = xs @ fst (send m obj) # ys"
    using assms xs by (auto simp: thread_append split: prod.splits)
  moreover have "length xs = length before" using thread_length [of send NewChunkNormalizer before] xs by simp
  moreover have "firstID m = first_id (map own_id before)"
    using sends_firstID [of NewChunkNormalizer before] xs by (simp add: NewChunkNormalizer_def)
  ultimately show ?thesis using send_id [of m obj] by (simp add: nth_append)
qed

lemma stream_id_continued_witness:
  "gm_get (fst (thread send NewChunkNormalizer ([[(''id'', JStr ''m1'')]] @ [] # [])) ! length [[(''id'', JStr ''m1'')]])
     ''id'' = Some (JStr ''m1'')"
proof -
  obtain outs n where run: "thread send NewChunkNormalizer ([[(''id'', JStr ''m1'')]] @ [] # []) = (outs, n)"
    by (metis prod.exhaust)
  have "gm_get (outs ! length [[(''id'', JStr ''m1'')]]) ''id'' = Some (JStr ''m1'')"
    using stream_id_continued [OF run] by (simp add: own_id_def str_of_def members_def)
  then show ?thesis by (simp only: run fst_conv)
qed

section \<open>Whole streams\<close>

lemma read_lines_line:
  "NL \<notin> set l \<Longrightarrow> read_lines (l @ NL # rest) = (case read_lines rest of (ls, r) \<Rightarrow> ((l @ [NL]) # ls, r))"
  by (induction l) (auto split: prod.splits)

lemma deliveries_line: "NL \<notin> set l \<Longrightarrow> deliveries (l @ NL # rest) = (l @ [NL]) # deliveries rest"
  by (simp add: deliveries_def read_lines_line split: prod.split)

text \<open>A payload that fits on one line.\<close>

definition one_line :: "string \<Rightarrow> bool" where
  "one_line p = list_all (\<lambda>c. c \<noteq> CHR 0x0D \<and> c \<noteq> CHR 0x0A) p"

lemma trim_eol_line: "one_line l \<Longrightarrow> trim_eol (l @ [NL]) = l"
proof -
  assume "one_line l"
  then have "dropWhile (\<lambda>c. c \<in> {CHR 0x0D, CHR 0x0A}) (rev l) = rev l"
    by (cases "rev l") (auto simp: one_line_def list_all_iff dest: arg_cong [where f = set])
  then show ?thesis by (simp add: trim_eol_def NL_def)
qed

lemma one_line_data: "one_line p \<Longrightarrow> one_line (data_prefix @ p) \<and> NL \<notin> set (data_prefix @ p)"
  by (auto simp: one_line_def data_prefix_def NL_def list_all_iff)

lemma deliveries_event:
  "one_line p \<Longrightarrow> deliveries (sse_event p @ rest) = (data_prefix @ p @ [NL]) # [NL] # deliveries rest"
  using deliveries_line [of "data_prefix @ p" "NL # rest"] deliveries_line [of "[]" rest] one_line_data [of p]
  by (simp add: sse_event_def)

lemma trim_event: "one_line p \<Longrightarrow> trim_eol (data_prefix @ p @ [NL]) = data_prefix @ p"
  using trim_eol_line [of "data_prefix @ p"] one_line_data [of p] by simp

lemma trim_blank: "trim_eol [NL] = []"
  by (simp add: trim_eol_def NL_def)

lemma payload_data [simp]: "payload_of (data_prefix @ p) = Some p"
  by (simp add: payload_of_def)

lemma payload_blank [simp]: "payload_of [] = None"
  by (simp add: payload_of_def data_prefix_def)

lemma data_prefix_ne [simp]: "data_prefix \<noteq> []"
  by (simp add: data_prefix_def)

text \<open>A consumer of the frame normaliser, as the stream pump uses it: one payload after the other.\<close>

fun bridge :: "json_text \<Rightarrow> ChunkNormalizer \<Rightarrow> string list \<Rightarrow> (string list \<times> nat \<times> ChunkNormalizer) option" where
  "bridge lib n [] = Some ([], 0, n)"
| "bridge lib n (p # ps) = (case Normalize lib n p of
      None \<Rightarrow> None
    | Some ((out, valid, d), n) \<Rightarrow>
        map_option (\<lambda>(outs, k, n). (out # outs, (if valid then Suc k else k), n)) (bridge lib n ps))"

lemma frame_text_Normalize:
  "payload \<noteq> done_mark \<Longrightarrow> frame_text lib None n payload =
     map_option (\<lambda>((out, valid, d), n). ((out, if valid then 1 else 0), n)) (Normalize lib n payload)"
  by (auto simp: frame_text_def Normalize_def hinted_def frameGatewayHint_def option.map_comp comp_def
      split: decoded.splits intro!: arg_cong2 [where f = map_option])

definition clean :: "string \<Rightarrow> bool" where
  "clean p = (one_line p \<and> \<not> prefix done_mark p)"

abbreviation always :: "nat \<Rightarrow> bool" where
  "always \<equiv> \<lambda>_. True"

lemma line_blank: "stream_line lib h ok st [NL] = Next (Inr st)"
  by (simp add: stream_line_def trim_blank)

lemma stream_blank: "stream_loop lib h ok fails st ([NL] # ls) = stream_loop lib h ok fails st ls"
  by (simp add: line_blank)

lemma stream_event:
  assumes "clean p" and "frame_text lib h (ss_norm st) p = Some ((out, v), n)"
  shows "stream_loop lib h always fails st (deliveries (sse_event p @ rest)) =
    stream_loop lib h always fails (st\<lparr>ss_out := ss_out st @ [sse_event out], ss_tries := Suc (ss_tries st),
      ss_norm := n, ss_valid := ss_valid st + v\<rparr>) (deliveries rest)"
proof -
  have p: "one_line p" "\<not> prefix done_mark p" using assms(1) by (simp_all add: clean_def)
  have "stream_line lib h always st (data_prefix @ p @ [NL]) =
      Next (Inr (st\<lparr>ss_out := ss_out st @ [sse_event out], ss_tries := Suc (ss_tries st),
        ss_norm := n, ss_valid := ss_valid st + v\<rparr>))"
    using p assms(2) by (simp add: stream_line_def trim_event put_text_def)
  then show ?thesis by (simp only: deliveries_event [OF p(1)] stream_loop.simps(2) line_blank line_step.case sum.case)
qed

lemma stream_done:
  "stream_loop lib h ok fails st (deliveries (sse_event done_mark @ rest)) = Inr st"
proof -
  have "one_line done_mark" by (simp add: one_line_def done_mark_def)
  then show ?thesis by (simp add: deliveries_event stream_line_def trim_event)
qed

lemma stream_bridge:
  "list_all clean ps \<Longrightarrow> bridge lib (ss_norm st) ps = Some (outs, k, n) \<Longrightarrow>
   stream_loop lib None always fails st (deliveries (concat (map sse_event ps) @ sse_event done_mark @ rest)) =
     Inr (st\<lparr>ss_out := ss_out st @ map sse_event outs, ss_tries := ss_tries st + length outs,
       ss_norm := n, ss_valid := ss_valid st + k\<rparr>)"
proof (induction ps arbitrary: st outs k)
  case Nil
  then show ?case by (simp add: stream_done)
next
  case (Cons p ps)
  obtain out valid d m where norm: "Normalize lib (ss_norm st) p = Some ((out, valid, d), m)"
    using Cons.prems(2) by (auto split: option.splits)
  obtain os j where rest: "bridge lib m ps = Some (os, j, n)" "outs = out # os" "k = (if valid then Suc j else j)"
    using Cons.prems(2) norm by auto
  have p: "clean p" "p \<noteq> done_mark" using Cons.prems(1) by (auto simp: clean_def)
  from frame_text_Normalize [OF p(2), of lib "ss_norm st"] norm
  have ft: "frame_text lib None (ss_norm st) p = Some ((out, if valid then 1 else 0), m)" by simp
  show ?case
    using stream_event [OF p(1) ft] Cons.IH [of "st\<lparr>ss_out := ss_out st @ [sse_event out],
        ss_tries := Suc (ss_tries st), ss_norm := m, ss_valid := ss_valid st + (if valid then 1 else 0)\<rparr>" os j]
      Cons.prems(1) rest
    by simp
qed

text \<open>
  (C32) The two ways of passing a stream on agree: for payloads that fit on a line and do not begin
  with the end mark, \<open>StreamHint\<close> without hints writes exactly the frames that \<open>Normalize\<close> gives one
  after the other, adds an error frame if none of them counts, ends with the end mark, and looks at
  nothing that follows the upstream's own end mark.
\<close>

theorem stream_equals_bridge:
  assumes "list_all clean ps" and "bridge lib NewChunkNormalizer ps = Some (outs, k, n)"
  shows "StreamHint lib None always (concat (map sse_event ps) @ sse_event done_mark @ rest) fails =
    (map sse_event outs @ (if k = 0 then [sse_event empty_stream_frame] else []) @ [sse_event done_mark],
     if k = 0 then EmptyStream else StreamOK)"
proof -
  let ?st = "\<lparr>ss_out = [], ss_tries = 0, ss_norm = NewChunkNormalizer, ss_valid = 0\<rparr>"
  have "stream_loop lib None always fails ?st (deliveries (concat (map sse_event ps) @ sse_event done_mark @ rest)) =
      Inr \<lparr>ss_out = map sse_event outs, ss_tries = length outs, ss_norm = n, ss_valid = k\<rparr>"
    using stream_bridge [OF assms(1), of lib ?st outs k n fails rest] assms(2) by simp
  then show ?thesis
    by (simp add: StreamHint_def finish_stream_def put_text_def hinted_def frameGatewayHint_def)
qed

definition tiny_json :: json_text where
  "tiny_json = \<lparr>UnmarshalAny = (\<lambda>s. if s = ''{}'' then Some (JObj []) else None),
     MarshalAny = (\<lambda>v. Some ''{..}'')\<rparr>"

lemma stream_equals_bridge_witness:
  "StreamHint tiny_json None always (concat (map sse_event [''{}'', ''x'']) @ sse_event done_mark @ ''junk'') True =
    (map sse_event [''{..}'', ''x''] @ [sse_event done_mark], StreamOK)"
proof -
  have "bridge tiny_json NewChunkNormalizer [''{}'', ''x''] = Some ([''{..}'', ''x''], 1, NewChunkNormalizer)"
    by code_simp
  moreover have "list_all clean [''{}'', ''x'']" by code_simp
  ultimately show ?thesis using stream_equals_bridge by fastforce
qed

section \<open>One end mark\<close>

text \<open>The JSON text of an object is never the end mark.\<close>

definition writes_objects :: "json_text \<Rightarrow> bool" where
  "writes_objects lib = (\<forall>fs s. MarshalAny lib (JObj fs) = Some s \<longrightarrow> prefix ''{'' s)"

lemma object_text: "writes_objects lib \<Longrightarrow> MarshalAny lib (JObj fs) = Some s \<Longrightarrow> s \<noteq> done_mark"
proof -
  assume "writes_objects lib" and "MarshalAny lib (JObj fs) = Some s"
  then have "prefix ''{'' s" by (simp add: writes_objects_def)
  then show "s \<noteq> done_mark" by (auto simp: done_mark_def)
qed

lemma hinted_not_done:
  "writes_objects lib \<Longrightarrow> payload \<noteq> done_mark \<Longrightarrow> hinted lib h payload \<noteq> done_mark"
  by (auto simp: hinted_def attachHintToErrorFrame_def Let_def dest: object_text
      split: decoded.splits option.splits json.splits)

lemma rebuild_not_done:
  "writes_objects lib \<Longrightarrow> payload \<noteq> done_mark \<Longrightarrow> rebuild lib n payload nil obj = Some (out, m) \<Longrightarrow> out \<noteq> done_mark"
  by (auto simp: rebuild_def dest: object_text split: prod.splits option.splits)

lemma frame_not_done:
  assumes "writes_objects lib" and "payload \<noteq> done_mark" and "frame_text lib h n payload = Some ((out, v), m)"
  shows "out \<noteq> done_mark"
  using assms(3) hinted_not_done [OF assms(1,2)] assms(2)
  by (auto simp: frame_text_def dest: rebuild_not_done [OF assms(1,2)] split: decoded.splits if_splits)

lemma sse_event_inj [simp]: "sse_event p = sse_event q \<longleftrightarrow> p = q"
  by (simp add: sse_event_def)

lemma trim_done_event: "trim_eol (sse_event done_mark) = data_prefix @ done_mark"
  by (simp add: trim_eol_def sse_event_def NL_def data_prefix_def done_mark_def)

lemma stream_line_not_done:
  assumes "writes_objects lib" and "stream_line lib h ok st line = Next (Inr st')"
    and "sse_event done_mark \<notin> set (ss_out st)"
  shows "sse_event done_mark \<notin> set (ss_out st')"
proof (cases "payload_of (trim_eol line)")
  case None
  have "line \<noteq> sse_event done_mark"
    using None by (auto simp: trim_done_event)
  with None assms(2,3) show ?thesis
    by (auto simp: stream_line_def Let_def put_text_def split: if_splits)
next
  case (Some payload)
  have line: "trim_eol line = data_prefix @ payload"
    using Some by (auto simp: payload_of_def prefix_def split: if_splits)
  have np: "\<not> prefix (data_prefix @ done_mark) (trim_eol line)"
    using assms(2) by (auto simp: stream_line_def Let_def split: if_splits)
  then have "payload \<noteq> done_mark" by (auto simp: line)
  obtain out v n where ft: "frame_text lib h (ss_norm st) payload = Some ((out, v), n)"
    using assms(2) Some np by (cases "frame_text lib h (ss_norm st) payload") (auto simp: stream_line_def Let_def)
  with frame_not_done [OF assms(1) \<open>payload \<noteq> done_mark\<close> ft] assms(2,3) Some np show ?thesis
    by (auto simp: stream_line_def Let_def put_text_def split: if_splits)
qed

lemma stream_loop_not_done:
  "writes_objects lib \<Longrightarrow> sse_event done_mark \<notin> set (ss_out st) \<Longrightarrow>
   stream_loop lib h ok fails st ls = Inr st' \<Longrightarrow> sse_event done_mark \<notin> set (ss_out st')"
proof (induction ls arbitrary: st)
  case (Cons l ls)
  show ?case
  proof (cases "stream_line lib h ok st l")
    case Halt
    with Cons.prems show ?thesis by simp
  next
    case (Next x)
    with Cons.prems obtain s where x: "x = Inr s" by (cases x) auto
    show ?thesis
      using Cons.IH [OF Cons.prems(1) stream_line_not_done [OF Cons.prems(1)]] Next x Cons.prems by auto
  qed
qed (simp split: if_splits)

lemma stream_line_errors:
  "stream_line lib h ok st l = Next (Inl (out, e)) \<Longrightarrow> e = WriteError \<or> e = Panicked"
  by (auto simp: stream_line_def Let_def put_text_def split: if_splits option.splits prod.splits)

lemma stream_loop_errors:
  "stream_loop lib h ok fails st ls = Inl x \<Longrightarrow> snd x \<in> {WriteError, Panicked, ReadError}"
proof (induction ls arbitrary: st)
  case (Cons l ls)
  then show ?case
    by (cases x) (auto split: line_step.splits sum.splits dest: stream_line_errors)
qed (auto split: if_splits)

text \<open>A frame counts only when it has been written.\<close>

lemma stream_line_wrote:
  "stream_line lib h ok st l = Next (Inr st') \<Longrightarrow> ss_valid st = 0 \<or> ss_out st \<noteq> [] \<Longrightarrow>
   ss_valid st' = 0 \<or> ss_out st' \<noteq> []"
  by (auto simp: stream_line_def Let_def put_text_def split: if_splits option.splits prod.splits)

lemma stream_loop_wrote:
  "stream_loop lib h ok fails st ls = Inr st' \<Longrightarrow> ss_valid st = 0 \<or> ss_out st \<noteq> [] \<Longrightarrow>
   ss_valid st' = 0 \<or> ss_out st' \<noteq> []"
proof (induction ls arbitrary: st)
  case (Cons l ls)
  show ?case
  proof (cases "stream_line lib h ok st l")
    case Halt
    with Cons.prems show ?thesis by simp
  next
    case (Next x)
    with Cons.prems obtain s where x: "x = Inr s" by (cases x) auto
    show ?thesis
      by (rule Cons.IH [of s]) (use Cons.prems Next x stream_line_wrote [of lib h ok st l s] in auto)
  qed
qed (simp split: if_splits)

text \<open>
  A stream that is passed through to a working client and that does not end in a read error or a
  panic is closed by exactly one end mark, whatever the upstream sent, hints or not; and at least one
  event precedes it.
\<close>

theorem stream_one_done:
  assumes "writes_objects lib" and "StreamHint lib h always bytes fails = (out, e)"
    and "e = StreamOK \<or> e = EmptyStream"
  shows "\<exists>evs. out = evs @ [sse_event done_mark] \<and> sse_event done_mark \<notin> set evs \<and> evs \<noteq> []"
proof -
  let ?st = "\<lparr>ss_out = [], ss_tries = 0, ss_norm = NewChunkNormalizer, ss_valid = 0\<rparr>"
  obtain st where run: "stream_loop lib h always fails ?st (deliveries bytes) = Inr st"
    and fin: "finish_stream lib h always st = (out, e)"
  proof (cases "stream_loop lib h always fails ?st (deliveries bytes)")
    case (Inl x)
    then have "x = (out, e)" using assms(2) by (simp add: StreamHint_def)
    with stream_loop_errors [OF Inl] assms(3) have False by auto
    then show ?thesis ..
  next
    case (Inr st)
    with assms(2) that show ?thesis by (simp add: StreamHint_def)
  qed
  have clean: "sse_event done_mark \<notin> set (ss_out st)"
    using stream_loop_not_done [OF assms(1) _ run] by simp
  have wrote: "ss_valid st = 0 \<or> ss_out st \<noteq> []"
    using stream_loop_wrote [OF run] by simp
  have "hinted lib h empty_stream_frame \<noteq> done_mark"
    by (rule hinted_not_done [OF assms(1)]) (simp add: empty_stream_frame_def done_mark_def)
  with clean wrote fin show ?thesis
    by (auto simp: finish_stream_def put_text_def split: if_splits)
qed

lemma stream_one_done_witness:
  "\<exists>evs. fst (StreamHint tiny_json None always (sse_event ''{}'') False) = evs @ [sse_event done_mark] \<and>
     sse_event done_mark \<notin> set evs \<and> evs \<noteq> []"
proof -
  have "writes_objects tiny_json" by (simp add: writes_objects_def tiny_json_def)
  moreover have "snd (StreamHint tiny_json None always (sse_event ''{}'') False) = StreamOK" by code_simp
  ultimately show ?thesis using stream_one_done by (metis prod.collapse)
qed

end
