(* ===== verification/Aggregate.thy ===== *)
theory Aggregate
  imports Sse
begin

text \<open>
  Folding a stream into one answer, after \<open>Aggregate\<close> and its helpers in
  \<^verbatim>\<open>src/internal/upstream/sse.go\<close>, \<^verbatim>\<open>src/internal/upstream/truncation.go\<close> and \<open>wbAggregate\<close> in
  \<^verbatim>\<open>src/plugin/wb_upstream.go\<close>. The local variables of \<open>Aggregate\<close> are the record \<open>agg\<close>; its closures
  are functions on it. Calls are kept as the members of their Go maps. The two clock readings behind
  a missing identifier and a missing creation time are arguments.
\<close>

type_synonym call_map = "(string \<times> gval) list"

record agg =
  ag_id :: string
  ag_model :: string
  ag_created :: rat
  ag_content :: string
  ag_reasoning :: string
  ag_role :: string
  ag_finishReason :: string
  ag_usage :: "(string \<times> json) list option"
  ag_gotAnyContent :: bool
  ag_validEvents :: nat
  ag_toolCalls :: "(int, call_map) gomap"
  ag_toolOrder :: "int list"
  ag_toolSeq :: int
  ag_idIndex :: "(string, int) gomap"

definition agg_init :: agg where
  "agg_init = \<lparr>ag_id = [], ag_model = [], ag_created = 0, ag_content = [], ag_reasoning = [],
     ag_role = ''assistant'', ag_finishReason = ''stop'', ag_usage = None, ag_gotAnyContent = False,
     ag_validEvents = 0, ag_toolCalls = [], ag_toolOrder = [], ag_toolSeq = 0, ag_idIndex = []\<rparr>"

definition appendContent :: "string \<Rightarrow> agg \<Rightarrow> agg" where
  "appendContent txt a = (if txt = [] then a
     else a\<lparr>ag_content := ag_content a @ txt, ag_gotAnyContent := True\<rparr>)"

section \<open>Tool calls\<close>

text \<open>
  The search for a free index: every round raises the candidate, and only finitely many are used.
  The result is the index and the next candidate.
\<close>

function next_tool_index :: "(int, call_map) gomap \<Rightarrow> int \<Rightarrow> int \<times> int" where
  "next_tool_index calls seq =
     (if gm_get calls seq \<noteq> None then next_tool_index calls (seq + 1) else (seq, seq + 1))"
  by pat_completeness auto
termination
proof (relation "measure (\<lambda>(calls, seq). card {i \<in> fst ` set calls. seq \<le> i})", goal_cases)
  case (2 calls seq)
  let ?from = "\<lambda>k. {i \<in> fst ` set calls. k \<le> i}"
  have "seq \<in> ?from seq" using 2 map_of_eq_None_iff [of calls seq] by auto
  moreover have "seq \<notin> ?from (seq + 1)" "?from (seq + 1) \<subseteq> ?from seq" by auto
  ultimately have "?from (seq + 1) \<subset> ?from seq" by blast
  then show ?case by (simp add: psubset_card_mono)
qed simp

declare next_tool_index.simps [simp del]

definition nextToolIndex :: "agg \<Rightarrow> int \<times> agg" where
  "nextToolIndex a = (case next_tool_index (ag_toolCalls a) (ag_toolSeq a) of
     (idx, seq) \<Rightarrow> (idx, a\<lparr>ag_toolSeq := seq\<rparr>))"

definition put_nonempty :: "string \<Rightarrow> string \<Rightarrow> call_map \<Rightarrow> call_map" where
  "put_nonempty k v m = (if v \<noteq> [] then gm_put k (VStr v) m else m)"

definition mergeToolCallDelta :: "call_map \<Rightarrow> json \<Rightarrow> call_map" where
  "mergeToolCallDelta merged delta =
     (let merged = put_nonempty ''type'' (str_of ''type'' delta)
            (put_nonempty ''id'' (str_of ''id'' delta) merged)
      in case obj_of ''function'' delta of
           Some df \<Rightarrow>
             (let mf = (case v_map merged ''function'' of Some mf \<Rightarrow> mf | None \<Rightarrow> []);
                  mf = put_nonempty ''name'' (str_of ''name'' (JObj df)) mf;
                  v = str_of ''arguments'' (JObj df);
                  mf = (if v \<noteq> [] then gm_put ''arguments'' (VStr (v_str mf ''arguments'' @ v)) mf else mf)
              in gm_put ''function'' (VMap mf) merged)
         | None \<Rightarrow> merged)"

text \<open>Which slot a fragment belongs to.\<close>

definition slot_of :: "agg \<Rightarrow> json \<Rightarrow> int \<times> agg" where
  "slot_of a call = (case jnum_of ''index'' call of
      Some v \<Rightarrow> (trunc_rat v, a)
    | None \<Rightarrow>
        (let cid = str_of ''id'' call in
         if cid \<noteq> [] then
           (case gm_get (ag_idIndex a) cid of Some mid \<Rightarrow> (mid, a) | None \<Rightarrow> nextToolIndex a)
         else if ag_toolOrder a \<noteq> [] then (last (ag_toolOrder a), a)
         else nextToolIndex a))"

definition note_id :: "string \<Rightarrow> int \<Rightarrow> agg \<Rightarrow> agg" where
  "note_id cid idx a = (if cid \<noteq> [] then a\<lparr>ag_idIndex := gm_put cid idx (ag_idIndex a)\<rparr> else a)"

definition open_slot :: "int \<Rightarrow> agg \<Rightarrow> agg" where
  "open_slot idx a = (case gm_get (ag_toolCalls a) idx of
      Some merged \<Rightarrow> a
    | None \<Rightarrow> a\<lparr>ag_toolCalls := gm_put idx [(''index'', VNum (of_int idx))] (ag_toolCalls a),
               ag_toolOrder := ag_toolOrder a @ [idx]\<rparr>)"

definition slot :: "agg \<Rightarrow> int \<Rightarrow> call_map" where
  "slot a idx = (case gm_get (ag_toolCalls a) idx of Some m \<Rightarrow> m | None \<Rightarrow> [])"

definition merge_call :: "agg \<Rightarrow> json \<Rightarrow> agg" where
  "merge_call a call =
     (if \<not> is_obj call then a
      else case slot_of a call of (idx, a) \<Rightarrow>
        (let a = open_slot idx a;
             merged = slot a idx;
             a = note_id (str_of ''id'' call) idx a;
             a = note_id (v_str merged ''id'') idx a
         in a\<lparr>ag_toolCalls := gm_put idx (mergeToolCallDelta merged call) (ag_toolCalls a)\<rparr>))"

definition mergeToolCallsChunk :: "agg \<Rightarrow> json list \<Rightarrow> agg" where
  "mergeToolCallsChunk a tcs = foldl merge_call a tcs"

section \<open>Events\<close>

text \<open>The fields that a delta and a whole message contribute; the code has the same steps twice.\<close>

definition mergeMessageFields :: "(string \<times> json) list \<Rightarrow> agg \<Rightarrow> agg" where
  "mergeMessageFields msg a =
     (let m = JObj msg;
          a = (if str_of ''role'' m \<noteq> [] then a\<lparr>ag_role := str_of ''role'' m\<rparr> else a);
          a = appendContent (str_of ''content'' m) a;
          a = a\<lparr>ag_reasoning := ag_reasoning a @ str_of ''reasoning_content'' m\<rparr>
      in mergeToolCallsChunk a (calls_of m))"

definition agg_choice :: "agg \<Rightarrow> json \<Rightarrow> agg" where
  "agg_choice a c =
     (if \<not> is_obj c then a
      else
        (let a = (if str_of ''finish_reason'' c \<noteq> [] then a\<lparr>ag_finishReason := str_of ''finish_reason'' c\<rparr> else a);
             a = (case obj_of ''delta'' c of Some d \<Rightarrow> mergeMessageFields d a | None \<Rightarrow> a)
         in case obj_of ''message'' c of
              Some msg \<Rightarrow> if \<not> ag_gotAnyContent a then mergeMessageFields msg a else a
            | None \<Rightarrow> a))"

text \<open>The fields of the chunk itself: the first of each is kept, the last usage.\<close>

definition agg_head :: "agg \<Rightarrow> (string \<times> json) list \<Rightarrow> agg" where
  "agg_head a chunk =
     (let a = a\<lparr>ag_validEvents := Suc (ag_validEvents a)\<rparr>;
          a = (if ag_id a = [] then a\<lparr>ag_id := str_of ''id'' (JObj chunk)\<rparr> else a);
          a = (if ag_model a = [] then a\<lparr>ag_model := str_of ''model'' (JObj chunk)\<rparr> else a);
          a = (case jnum_of ''created'' (JObj chunk) of
                Some v \<Rightarrow> if ag_created a = 0 then a\<lparr>ag_created := v\<rparr> else a
              | None \<Rightarrow> a)
      in case obj_of ''usage'' (JObj chunk) of Some u \<Rightarrow> a\<lparr>ag_usage := Some u\<rparr> | None \<Rightarrow> a)"

definition agg_chunk :: "agg \<Rightarrow> (string \<times> json) list \<Rightarrow> agg" where
  "agg_chunk a chunk = (case arr_of ''choices'' (JObj chunk) of
      Some cs \<Rightarrow> foldl agg_choice (agg_head a chunk) cs
    | None \<Rightarrow> agg_head a chunk)"

definition agg_payload :: "json_text \<Rightarrow> agg \<Rightarrow> string \<Rightarrow> agg" where
  "agg_payload lib a payload = (case unmarshal_map lib payload of
      DecodeError \<Rightarrow> a
    | NilMap \<Rightarrow> agg_chunk a []
    | Decoded chunk \<Rightarrow> agg_chunk a chunk)"

text \<open>The lines in turn; the flag says that the upstream ended the stream itself.\<close>

fun agg_lines :: "json_text \<Rightarrow> agg \<Rightarrow> string list \<Rightarrow> agg \<times> bool" where
  "agg_lines lib a [] = (a, False)"
| "agg_lines lib a (line # ls) = (case payload_of (trim_eol line) of
      None \<Rightarrow> agg_lines lib a ls
    | Some payload \<Rightarrow>
        if payload = done_mark then (a, True) else agg_lines lib (agg_payload lib a payload) ls)"

section \<open>Truncated arguments\<close>

definition isTruncatedArguments :: "json_text \<Rightarrow> string \<Rightarrow> bool" where
  "isTruncatedArguments lib raw =
     (TrimSpace raw \<noteq> [] \<and> UnmarshalAny lib (TrimSpace raw) = None)"

definition call_arguments :: "call_map \<Rightarrow> string" where
  "call_arguments call = (case v_map call ''function'' of Some fn \<Rightarrow> v_str fn ''arguments'' | None \<Rightarrow> [])"

definition dropTruncatedToolCalls :: "json_text \<Rightarrow> call_map list \<Rightarrow> call_map list" where
  "dropTruncatedToolCalls lib calls = filter (\<lambda>call. case v_map call ''function'' of
      None \<Rightarrow> True
    | Some fn \<Rightarrow> \<not> isTruncatedArguments lib (v_str fn ''arguments'')) calls"

section \<open>The answer\<close>

definition num64 :: "json option \<Rightarrow> rat option" where
  "num64 v = (case v of Some (JNum n) \<Rightarrow> Some n | _ \<Rightarrow> None)"

definition ensureUsageTotal :: "(string \<times> json) list \<Rightarrow> (string \<times> json) list" where
  "ensureUsageTotal u =
     (if gm_get u ''total_tokens'' \<noteq> None then u
      else case (num64 (gm_get u ''prompt_tokens''), num64 (gm_get u ''completion_tokens'')) of
        (Some pt, Some ct) \<Rightarrow> gm_put ''total_tokens'' (JNum (pt + ct)) u
      | _ \<Rightarrow> u)"

definition response_calls :: "json_text \<Rightarrow> agg \<Rightarrow> bool \<Rightarrow> call_map list" where
  "response_calls lib a sawDone =
     (let calls = map (slot a) (sort (ag_toolOrder a))
      in if ag_finishReason a = ''length'' \<or> \<not> sawDone then dropTruncatedToolCalls lib calls else calls)"

definition response_message :: "json_text \<Rightarrow> agg \<Rightarrow> bool \<Rightarrow> (string \<times> gval) list" where
  "response_message lib a sawDone =
     (let m = [(''role'', VStr (ag_role a)), (''content'', VStr (ag_content a))];
          m = (if ag_reasoning a \<noteq> [] then gm_put ''reasoning_content'' (VStr (ag_reasoning a)) m else m);
          calls = response_calls lib a sawDone
      in if calls \<noteq> [] then gm_put ''tool_calls'' (VMaps calls) m else m)"

definition agg_response :: "json_text \<Rightarrow> int \<Rightarrow> int \<Rightarrow> agg \<Rightarrow> bool \<Rightarrow> (string \<times> gval) list" where
  "agg_response lib nano unix a sawDone =
     (let ident = (if ag_id a = [] then ''chatcmpl-'' @ show_int nano else ag_id a);
          created = (if ag_created a = 0 then of_int unix else ag_created a);
          resp = [(''id'', VStr ident), (''object'', VStr ''chat.completion''),
            (''created'', VNum (of_int (trunc_rat created))), (''model'', VStr (ag_model a)),
            (''choices'', VArr [VMap [(''index'', VNum 0),
              (''message'', VMap (response_message lib a sawDone)),
              (''finish_reason'', VStr (ag_finishReason a))]])]
      in case ag_usage a of
           Some u \<Rightarrow> gm_put ''usage'' (of_json (JObj (ensureUsageTotal u))) resp
         | None \<Rightarrow> resp)"

datatype agg_error = AggEmptyStream | AggReadError

text \<open>
  \<open>Aggregate\<close>: a failing reader is reported only if it is reached, as reading stops at the end mark;
  the piece that arrives with the failure is not looked at.
\<close>

definition Aggregate :: "json_text \<Rightarrow> int \<Rightarrow> int \<Rightarrow> string \<Rightarrow> bool \<Rightarrow> agg_error + (string \<times> gval) list" where
  "Aggregate lib nano unix bytes fails =
     (case agg_lines lib agg_init (if fails then fst (read_lines bytes) else deliveries bytes) of
        (a, sawDone) \<Rightarrow>
          if fails \<and> \<not> sawDone then Inl AggReadError
          else if ag_validEvents a = 0 then Inl AggEmptyStream
          else Inr (agg_response lib nano unix a sawDone))"

text \<open>
  \<open>wbAggregate\<close>, up to the final \<open>json.Marshal\<close>: aggregation, markup repair against the request,
  and the model and identifier that the plugin fills in.
\<close>

definition fill_default :: "string \<Rightarrow> string \<Rightarrow> (string \<times> gval) list \<Rightarrow> (string \<times> gval) list" where
  "fill_default k v m = (if v_str m k = [] then gm_put k (VStr v) m else m)"

definition wbAggregate :: "json_text \<Rightarrow> (string \<Rightarrow> tool_request option) \<Rightarrow> (nat \<Rightarrow> nat \<Rightarrow> int) \<Rightarrow> int \<Rightarrow> int \<Rightarrow>
    string \<Rightarrow> bool \<Rightarrow> string \<Rightarrow> string option \<Rightarrow> agg_error + (string \<times> gval) list" where
  "wbAggregate lib decode clock nano unix bytes fails model requestBody =
     (case Aggregate lib nano unix bytes fails of
        Inl e \<Rightarrow> Inl e
      | Inr result \<Rightarrow>
          (let result = (case requestBody of
                None \<Rightarrow> result
              | Some body \<Rightarrow> (let allowed = ToolNameAllowlist decode body in
                  fst (RepairAggregatedResponse lib clock result allowed (allowed = []))))
           in Inr (fill_default ''id'' ''chatcmpl-workbuddy'' (fill_default ''model'' model result))))"

end
