(* ===== verification/Aggregate_Props.thy ===== *)
theory Aggregate_Props
  imports Aggregate Sse_Props Markup_Props
begin

text \<open>
  The properties of the aggregation: the slots of the tool calls stay consistent, fragments without an
  index never land in a slot of another call, and the answer is the one of an abstract reading of the
  stream.
\<close>

section \<open>The search for a free index\<close>

text \<open>
  The search for a free index ends, with the least index that is not used and not below the
  candidate it started from; the next search starts behind it.
\<close>

theorem next_tool_index_least:
  "\<exists>i. next_tool_index calls seq = (i, i + 1) \<and> seq \<le> i \<and> gm_get calls i = None \<and>
     (\<forall>k\<in>{seq..<i}. gm_get calls k \<noteq> None)"
proof (induction calls seq rule: next_tool_index.induct)
  case (1 calls seq)
  show ?case
  proof (cases "gm_get calls seq = None")
    case True
    then show ?thesis by (simp add: next_tool_index.simps [of calls seq])
  next
    case False
    then obtain i where i: "next_tool_index calls (seq + 1) = (i, i + 1)" "seq + 1 \<le> i" "gm_get calls i = None"
        "\<forall>k\<in>{seq + 1..<i}. gm_get calls k \<noteq> None"
      using 1 by blast
    have "gm_get calls k \<noteq> None" if "k \<in> {seq..<i}" for k
      using i(4) False that by (cases "k = seq") auto
    with i False show ?thesis by (auto simp: next_tool_index.simps [of calls seq])
  qed
qed

lemma next_tool_index_least_witness: "next_tool_index [(0, []), (1, [])] 0 = (2, 3)"
proof -
  let ?m = "[(0, []), (1, [])] :: (int, call_map) gomap"
  from next_tool_index_least [of ?m 0] obtain i where i: "next_tool_index ?m 0 = (i, i + 1)" "0 \<le> i"
      "gm_get ?m i = None" and used: "\<forall>k\<in>{0..<i}. gm_get ?m k \<noteq> None"
    by (elim exE conjE) (rule that)
  have "i \<noteq> 0" "i \<noteq> 1" using i(3) by auto
  moreover have "\<not> 2 < i"
  proof
    assume "2 < i"
    then have "2 \<in> {0..<i}" by simp
    with used have "gm_get ?m 2 \<noteq> None" by (rule bspec)
    then show False by simp
  qed
  ultimately have "i = 2" using i(2) by linarith
  then show ?thesis using i(1) by simp
qed

lemma next_tool_index_bounds:
  "next_tool_index calls seq = (i, s) \<Longrightarrow> gm_get calls i = None \<and> seq \<le> i \<and> s = i + 1"
proof (induction calls seq rule: next_tool_index.induct)
  case (1 calls seq)
  then show ?case
    by (cases "gm_get calls seq = None") (auto simp: next_tool_index.simps [of calls seq])
qed

section \<open>The slots\<close>

definition agg_inv :: "agg \<Rightarrow> bool" where
  "agg_inv a \<longleftrightarrow> distinct (ag_toolOrder a) \<and>
     (\<forall>i. i \<in> set (ag_toolOrder a) \<longleftrightarrow> gm_get (ag_toolCalls a) i \<noteq> None) \<and>
     (\<forall>cid i. gm_get (ag_idIndex a) cid = Some i \<longrightarrow> i \<in> set (ag_toolOrder a))"

lemma agg_inv_init [simp]: "agg_inv agg_init"
  by (simp add: agg_inv_def agg_init_def)

lemma agg_inv_cong:
  "ag_toolOrder a' = ag_toolOrder a \<Longrightarrow> ag_toolCalls a' = ag_toolCalls a \<Longrightarrow> ag_idIndex a' = ag_idIndex a \<Longrightarrow>
   agg_inv a' = agg_inv a"
  by (simp add: agg_inv_def)

lemma agg_inv_update [simp]:
  "agg_inv (a\<lparr>ag_id := s\<rparr>) = agg_inv a" "agg_inv (a\<lparr>ag_model := s\<rparr>) = agg_inv a"
  "agg_inv (a\<lparr>ag_created := r\<rparr>) = agg_inv a" "agg_inv (a\<lparr>ag_content := s\<rparr>) = agg_inv a"
  "agg_inv (a\<lparr>ag_reasoning := s\<rparr>) = agg_inv a" "agg_inv (a\<lparr>ag_role := s\<rparr>) = agg_inv a"
  "agg_inv (a\<lparr>ag_finishReason := s\<rparr>) = agg_inv a" "agg_inv (a\<lparr>ag_usage := u\<rparr>) = agg_inv a"
  "agg_inv (a\<lparr>ag_gotAnyContent := b\<rparr>) = agg_inv a" "agg_inv (a\<lparr>ag_validEvents := n\<rparr>) = agg_inv a"
  by (rule agg_inv_cong; simp)+

lemma agg_inv_open: "agg_inv a \<Longrightarrow> agg_inv (open_slot idx a) \<and> idx \<in> set (ag_toolOrder (open_slot idx a))"
  by (auto simp: agg_inv_def open_slot_def split: option.splits)

lemma agg_inv_note: "agg_inv a \<Longrightarrow> idx \<in> set (ag_toolOrder a) \<Longrightarrow> agg_inv (note_id cid idx a)"
  by (auto simp: agg_inv_def note_id_def split: if_splits)

lemma note_id_keeps [simp]:
  "ag_toolOrder (note_id cid idx a) = ag_toolOrder a" "ag_toolCalls (note_id cid idx a) = ag_toolCalls a"
  by (simp_all add: note_id_def)

lemma slot_of_keeps:
  "slot_of a call = (idx, a') \<Longrightarrow> ag_toolOrder a' = ag_toolOrder a \<and> ag_toolCalls a' = ag_toolCalls a \<and>
     ag_idIndex a' = ag_idIndex a"
  by (auto simp: slot_of_def nextToolIndex_def Let_def split: option.splits if_splits prod.splits)

lemma merge_call_inv: "agg_inv a \<Longrightarrow> agg_inv (merge_call a call)"
proof (cases "is_obj call")
  case True
  assume inv: "agg_inv a"
  obtain idx b where b: "slot_of a call = (idx, b)" by (metis prod.exhaust)
  let ?c = "open_slot idx b"
  have "agg_inv b" using inv slot_of_keeps [OF b] agg_inv_cong [of b a] by simp
  then have c: "agg_inv ?c" "idx \<in> set (ag_toolOrder ?c)" using agg_inv_open by auto
  let ?d = "note_id (v_str (slot ?c idx) ''id'') idx (note_id (str_of ''id'' call) idx ?c)"
  have d: "agg_inv ?d" "idx \<in> set (ag_toolOrder ?d)" using c by (simp_all add: agg_inv_note)
  then have "agg_inv (?d\<lparr>ag_toolCalls := gm_put idx x (ag_toolCalls ?d)\<rparr>)" for x
    by (auto simp: agg_inv_def)
  then show ?thesis using True b by (simp add: merge_call_def Let_def)
qed (simp add: merge_call_def)

lemma mergeToolCallsChunk_inv: "agg_inv a \<Longrightarrow> agg_inv (mergeToolCallsChunk a tcs)"
  unfolding mergeToolCallsChunk_def by (induction tcs arbitrary: a) (simp_all add: merge_call_inv)

lemma mergeMessageFields_inv: "agg_inv a \<Longrightarrow> agg_inv (mergeMessageFields msg a)"
  unfolding mergeMessageFields_def Let_def
  by (rule mergeToolCallsChunk_inv) (simp add: appendContent_def)

lemma agg_choice_inv: "agg_inv a \<Longrightarrow> agg_inv (agg_choice a c)"
  by (auto simp: agg_choice_def Let_def mergeMessageFields_inv split: option.split)

lemma agg_choices_inv: "agg_inv a \<Longrightarrow> agg_inv (foldl agg_choice a cs)"
  by (induction cs arbitrary: a) (simp_all add: agg_choice_inv)

lemma agg_head_inv: "agg_inv (agg_head a chunk) = agg_inv a"
  by (auto simp: agg_head_def Let_def split: option.split)

lemma agg_chunk_inv: "agg_inv a \<Longrightarrow> agg_inv (agg_chunk a chunk)"
  by (simp add: agg_chunk_def agg_choices_inv agg_head_inv split: option.split)

lemma agg_payload_inv: "agg_inv a \<Longrightarrow> agg_inv (agg_payload lib a p)"
  by (simp add: agg_payload_def agg_chunk_inv split: decoded.split)

lemma agg_lines_inv: "agg_inv a \<Longrightarrow> agg_lines lib a ls = (b, d) \<Longrightarrow> agg_inv b"
proof (induction ls arbitrary: a)
  case (Cons l ls)
  then show ?case using agg_payload_inv [OF Cons.prems(1)] by (auto split: option.splits if_splits)
qed simp

section \<open>An abstract reading of the fragments\<close>

text \<open>What a client sees of a call, of a fragment, and how a fragment changes a call.\<close>

record call_view =
  cv_id :: string
  cv_type :: string
  cv_name :: string
  cv_args :: string

definition view_of :: "call_map \<Rightarrow> call_view" where
  "view_of m = \<lparr>cv_id = v_str m ''id'', cv_type = v_str m ''type'',
     cv_name = (case v_map m ''function'' of Some f \<Rightarrow> v_str f ''name'' | None \<Rightarrow> []), cv_args = call_arguments m\<rparr>"

definition frag_view :: "json \<Rightarrow> call_view" where
  "frag_view c = \<lparr>cv_id = str_of ''id'' c, cv_type = str_of ''type'' c,
     cv_name = fn_str ''name'' c, cv_args = fn_str ''arguments'' c\<rparr>"

definition later :: "string \<Rightarrow> string \<Rightarrow> string" where
  "later old new = (if new \<noteq> [] then new else old)"

definition merge_view :: "call_view \<Rightarrow> call_view \<Rightarrow> call_view" where
  "merge_view v f = \<lparr>cv_id = later (cv_id v) (cv_id f), cv_type = later (cv_type v) (cv_type f),
     cv_name = later (cv_name v) (cv_name f), cv_args = cv_args v @ cv_args f\<rparr>"

definition no_view :: call_view where
  "no_view = \<lparr>cv_id = [], cv_type = [], cv_name = [], cv_args = []\<rparr>"

lemma v_str_put [simp]: "v_str (gm_put k (VStr v) m) j = (if j = k then v else v_str m j)"
  by (simp add: v_str_def)

lemma v_str_put_map [simp]: "v_str (gm_put k (VMap f) m) j = (if j = k then [] else v_str m j)"
  by (simp add: v_str_def)

lemma v_map_put_map [simp]: "v_map (gm_put k (VMap f) m) j = (if j = k then Some f else v_map m j)"
  by (simp add: v_map_def)

lemma put_nonempty_str [simp]: "v_str (put_nonempty k v m) j = (if j = k then later (v_str m j) v else v_str m j)"
  by (simp add: put_nonempty_def later_def)

lemma put_nonempty_map: "j \<noteq> k \<Longrightarrow> v_map (put_nonempty k v m) j = v_map m j"
  by (simp add: put_nonempty_def v_map_def)

text \<open>Merging a fragment into the Go maps is merging its view into the view of the call.\<close>

lemma merge_refines: "view_of (mergeToolCallDelta m c) = merge_view (view_of m) (frag_view c)"
proof (cases "obj_of ''function'' c")
  case (Some df)
  then show ?thesis
    by (cases "v_map m ''function''")
      (simp_all add: mergeToolCallDelta_def Let_def view_of_def merge_view_def frag_view_def fn_str_def
        call_arguments_def put_nonempty_map later_def v_str_def [of "[]"])
next
  case None
  then have "mergeToolCallDelta m c = put_nonempty ''type'' (str_of ''type'' c) (put_nonempty ''id'' (str_of ''id'' c) m)"
    by (simp add: mergeToolCallDelta_def Let_def)
  with None show ?thesis
    by (simp add: view_of_def merge_view_def frag_view_def fn_str_def call_arguments_def put_nonempty_map)
      (simp add: later_def)
qed

definition slot_view :: "agg \<Rightarrow> int \<Rightarrow> call_view option" where
  "slot_view a i = map_option view_of (gm_get (ag_toolCalls a) i)"

lemma view_new: "view_of [(''index'', VNum x)] = no_view"
  by (simp add: view_of_def no_view_def v_str_def v_map_def call_arguments_def)

text \<open>One fragment changes the slot it belongs to and no other.\<close>

lemma merge_call_slots:
  assumes "is_obj c" and "slot_of a c = (idx, b)"
  shows "slot_view (merge_call a c) j =
    (if j = idx then Some (merge_view (case slot_view a idx of Some v \<Rightarrow> v | None \<Rightarrow> no_view) (frag_view c))
     else slot_view a j)"
proof -
  have calls: "ag_toolCalls b = ag_toolCalls a" using slot_of_keeps [OF assms(2)] by simp
  show ?thesis
    using assms by (auto simp: merge_call_def Let_def slot_view_def merge_refines open_slot_def slot_def calls
        view_new split: option.splits)
qed

text \<open>Fragments with an index of their own, which is what the protocol asks for.\<close>

definition indexed :: "json \<Rightarrow> bool" where
  "indexed c = (is_obj c \<and> jnum_of ''index'' c \<noteq> None)"

text \<open>The last string of a list that is not empty.\<close>

definition latest :: "string list \<Rightarrow> string" where
  "latest xs = last ([] # filter (\<lambda>x. x \<noteq> []) xs)"

lemma latest_snoc: "latest (xs @ [x]) = later (latest xs) x"
  by (simp add: latest_def later_def)

definition reading :: "json list \<Rightarrow> int \<Rightarrow> call_view option" where
  "reading cs i = (let ts = filter (fragment_of i) cs in
     if ts = [] then None
     else Some \<lparr>cv_id = latest (map (str_of ''id'') ts), cv_type = latest (map (str_of ''type'') ts),
       cv_name = latest (map (fn_str ''name'') ts), cv_args = concat (map (fn_str ''arguments'') ts)\<rparr>)"

lemma reading_snoc:
  "is_obj c \<Longrightarrow> reading (cs @ [c]) i =
    (if call_index c = i then Some (merge_view (case reading cs i of Some v \<Rightarrow> v | None \<Rightarrow> no_view) (frag_view c))
     else reading cs i)"
  by (auto simp: reading_def fragment_of_def Let_def latest_snoc merge_view_def frag_view_def no_view_def)
    (simp_all add: latest_def later_def)

lemma slot_of_indexed: "indexed c \<Longrightarrow> slot_of a c = (call_index c, a)"
  by (auto simp: indexed_def slot_of_def call_index_def)

lemma merge_call_reading:
  assumes "indexed c" and "\<forall>j. slot_view a j = reading cs j"
  shows "slot_view (merge_call a c) j = reading (cs @ [c]) j"
  using merge_call_slots [OF _ slot_of_indexed [OF assms(1)]] assms
  by (simp add: reading_snoc indexed_def)

lemma merge_calls_reading:
  "list_all indexed tcs \<Longrightarrow> \<forall>j. slot_view a j = reading cs j \<Longrightarrow>
   \<forall>j. slot_view (mergeToolCallsChunk a tcs) j = reading (cs @ tcs) j"
  unfolding mergeToolCallsChunk_def
proof (induction tcs arbitrary: a cs)
  case (Cons c tcs)
  show ?case using Cons.IH [of "merge_call a c" "cs @ [c]"] Cons.prems merge_call_reading [of c a cs] by simp
qed simp

text \<open>The other fields that a fragment leaves alone.\<close>

definition same_text :: "agg \<Rightarrow> agg \<Rightarrow> bool" where
  "same_text a b = (ag_content a = ag_content b \<and> ag_reasoning a = ag_reasoning b \<and>
     ag_finishReason a = ag_finishReason b \<and> ag_validEvents a = ag_validEvents b)"

lemma slot_of_text: "slot_of a c = (idx, b) \<Longrightarrow> same_text b a"
  by (auto simp: same_text_def slot_of_def nextToolIndex_def Let_def
      split: option.splits if_splits prod.splits)

lemma open_slot_text: "same_text (open_slot idx b) b"
  by (simp add: same_text_def open_slot_def split: option.split)

lemma note_id_text: "same_text (note_id cid idx b) b"
  by (simp add: same_text_def note_id_def)

lemma merge_call_text: "same_text (merge_call a c) a"
proof (cases "is_obj c")
  case True
  obtain idx b where b: "slot_of a c = (idx, b)" by (metis prod.exhaust)
  show ?thesis
    using True b slot_of_text [OF b] open_slot_text [of idx b] note_id_text
    by (simp add: merge_call_def Let_def same_text_def)
qed (simp add: merge_call_def same_text_def)

lemma merge_calls_text: "same_text (mergeToolCallsChunk a tcs) a"
  unfolding mergeToolCallsChunk_def
  by (induction tcs arbitrary: a) (use merge_call_text in \<open>auto simp: same_text_def\<close>)

lemmas merge_calls_keep [simp] =
  merge_calls_text [unfolded same_text_def, THEN conjunct1]
  merge_calls_text [unfolded same_text_def, THEN conjunct2, THEN conjunct1]
  merge_calls_text [unfolded same_text_def, THEN conjunct2, THEN conjunct2, THEN conjunct1]
  merge_calls_text [unfolded same_text_def, THEN conjunct2, THEN conjunct2, THEN conjunct2]

section \<open>The abstract reading of a stream\<close>

text \<open>The deltas of a chunk, and what the aggregation has to know of the stream so far.\<close>

definition choice_delta :: "json \<Rightarrow> json" where
  "choice_delta c = JObj (case obj_of ''delta'' c of Some d \<Rightarrow> d | None \<Rightarrow> [])"

definition chunk_choices :: "(string \<times> json) list \<Rightarrow> json list" where
  "chunk_choices chunk = (case arr_of ''choices'' (JObj chunk) of Some cs \<Rightarrow> cs | None \<Rightarrow> [])"

definition delta_text :: "string \<Rightarrow> (string \<times> json) list \<Rightarrow> string" where
  "delta_text k chunk = concat (map (\<lambda>c. str_of k (choice_delta c)) (chunk_choices chunk))"

text \<open>A chunk of a delta stream: no whole messages, and every fragment has its index.\<close>

definition delta_choice :: "json \<Rightarrow> bool" where
  "delta_choice c = (obj_of ''message'' c = None \<and>
     list_all indexed (choice_calls c) \<and> str_of ''finish_reason'' c \<noteq> ''length'')"

definition delta_chunk :: "(string \<times> json) list \<Rightarrow> bool" where
  "delta_chunk chunk = list_all delta_choice (chunk_choices chunk)"

definition has_read :: "agg \<Rightarrow> string \<Rightarrow> string \<Rightarrow> json list \<Rightarrow> bool" where
  "has_read a tx rsn cs = (ag_content a = tx \<and> ag_reasoning a = rsn \<and> ag_finishReason a \<noteq> ''length'' \<and>
     (\<forall>j. slot_view a j = reading cs j))"

lemma has_read_update:
  "ag_content a' = ag_content a \<Longrightarrow> ag_reasoning a' = ag_reasoning a \<Longrightarrow> ag_finishReason a' = ag_finishReason a \<Longrightarrow>
   ag_toolCalls a' = ag_toolCalls a \<Longrightarrow> has_read a' tx rsn cs = has_read a tx rsn cs"
  by (simp add: has_read_def slot_view_def)

lemma mergeMessageFields_read:
  assumes "has_read a tx rsn cs" and "list_all indexed (calls_of (JObj d))"
  shows "has_read (mergeMessageFields d a) (tx @ str_of ''content'' (JObj d))
    (rsn @ str_of ''reasoning_content'' (JObj d)) (cs @ calls_of (JObj d))"
proof -
  define b where "b = (let a = (if str_of ''role'' (JObj d) \<noteq> [] then a\<lparr>ag_role := str_of ''role'' (JObj d)\<rparr> else a);
      a = appendContent (str_of ''content'' (JObj d)) a
    in a\<lparr>ag_reasoning := ag_reasoning a @ str_of ''reasoning_content'' (JObj d)\<rparr>)"
  have b: "mergeMessageFields d a = mergeToolCallsChunk b (calls_of (JObj d))"
    by (simp add: mergeMessageFields_def b_def Let_def)
  have "has_read b (tx @ str_of ''content'' (JObj d)) (rsn @ str_of ''reasoning_content'' (JObj d)) cs"
    using assms(1) by (simp add: b_def Let_def has_read_def appendContent_def slot_view_def)
  with merge_calls_reading [OF assms(2), of b cs] show ?thesis by (simp add: has_read_def b)
qed

lemma agg_choice_read:
  assumes "has_read a tx rsn cs" and "delta_choice c"
  shows "has_read (agg_choice a c) (tx @ str_of ''content'' (choice_delta c))
    (rsn @ str_of ''reasoning_content'' (choice_delta c)) (cs @ choice_calls c)"
proof -
  define b where "b = (if str_of ''finish_reason'' c \<noteq> [] then a\<lparr>ag_finishReason := str_of ''finish_reason'' c\<rparr> else a)"
  have b: "has_read b tx rsn cs"
    using assms by (simp add: b_def has_read_def delta_choice_def slot_view_def)
  show ?thesis
  proof (cases "obj_of ''delta'' c")
    case (Some d)
    have obj: "is_obj c" using obj_of_obj [OF Some] .
    have calls: "choice_calls c = calls_of (JObj d)" "choice_delta c = JObj d"
      using Some by (simp_all add: choice_calls_def choice_delta_def)
    have "agg_choice a c = mergeMessageFields d b"
      using assms(2) obj Some by (simp add: agg_choice_def Let_def b_def delta_choice_def)
    with mergeMessageFields_read [OF b, of d] assms(2) calls show ?thesis by (simp add: delta_choice_def)
  next
    case None
    then have calls: "choice_calls c = []" "choice_delta c = JObj []"
      by (simp_all add: choice_calls_def choice_delta_def)
    have "agg_choice a c = (if is_obj c then b else a)"
      using assms(2) None by (simp add: agg_choice_def Let_def b_def delta_choice_def)
    with b assms(1) calls show ?thesis by (simp add: str_of_def members_def)
  qed
qed

lemma agg_choices_read:
  "has_read a tx rsn cs \<Longrightarrow> list_all delta_choice chs \<Longrightarrow>
   has_read (foldl agg_choice a chs) (tx @ concat (map (\<lambda>c. str_of ''content'' (choice_delta c)) chs))
     (rsn @ concat (map (\<lambda>c. str_of ''reasoning_content'' (choice_delta c)) chs)) (cs @ concat (map choice_calls chs))"
proof (induction chs arbitrary: a tx rsn cs)
  case (Cons c chs)
  from Cons.IH [OF agg_choice_read [OF Cons.prems(1)]] Cons.prems(2) show ?case by simp
qed simp

lemma agg_head_keeps:
  "ag_content (agg_head a chunk) = ag_content a" "ag_reasoning (agg_head a chunk) = ag_reasoning a"
  "ag_finishReason (agg_head a chunk) = ag_finishReason a" "ag_toolCalls (agg_head a chunk) = ag_toolCalls a"
  "ag_validEvents (agg_head a chunk) = Suc (ag_validEvents a)"
  by (simp_all add: agg_head_def Let_def split: option.split)

lemma agg_chunk_read:
  assumes "has_read a tx rsn cs" and "delta_chunk chunk"
  shows "has_read (agg_chunk a chunk) (tx @ delta_text ''content'' chunk)
    (rsn @ delta_text ''reasoning_content'' chunk) (cs @ frame_calls chunk)"
proof -
  have "has_read (agg_head a chunk) tx rsn cs"
    using assms(1) has_read_update [of "agg_head a chunk" a] by (simp add: agg_head_keeps)
  from agg_choices_read [OF this, of "chunk_choices chunk"] assms(2) show ?thesis
    by (simp add: agg_chunk_def delta_chunk_def delta_text_def frame_calls_def chunk_choices_def split: option.splits)
qed

section \<open>From bytes to the answer\<close>

definition lines_of :: "bool \<Rightarrow> string \<Rightarrow> string list" where
  "lines_of fails bytes = (if fails then fst (read_lines bytes) else deliveries bytes)"

lemma lines_of_line: "NL \<notin> set l \<Longrightarrow> lines_of fails (l @ NL # rest) = (l @ [NL]) # lines_of fails rest"
  by (simp add: lines_of_def deliveries_line read_lines_line split: prod.split)

lemma lines_of_event:
  "one_line p \<Longrightarrow> lines_of fails (sse_event p @ rest) = (data_prefix @ p @ [NL]) # [NL] # lines_of fails rest"
  using lines_of_line [of "data_prefix @ p" fails "NL # rest"] lines_of_line [of "[]" fails rest] one_line_data [of p]
  by (simp add: sse_event_def)

lemma agg_event:
  "one_line p \<Longrightarrow> agg_lines lib a (lines_of fails (sse_event p @ rest)) =
     (if p = done_mark then (a, True) else agg_lines lib (agg_payload lib a p) (lines_of fails rest))"
  by (simp add: lines_of_event trim_event trim_blank)

lemma agg_events:
  "list_all clean ps \<Longrightarrow>
   agg_lines lib a (lines_of fails (concat (map sse_event ps) @ sse_event done_mark @ rest)) =
     (foldl (agg_payload lib) a ps, True)"
proof (induction ps arbitrary: a)
  case Nil
  have "one_line done_mark" by (simp add: one_line_def done_mark_def)
  then show ?case by (simp add: agg_event)
next
  case (Cons p ps)
  then have "one_line p" "p \<noteq> done_mark" by (auto simp: clean_def)
  with Cons show ?case by (simp add: agg_event)
qed

lemma agg_payloads_read:
  assumes "list_all2 (\<lambda>p c. UnmarshalAny lib p = Some (JObj c) \<and> delta_chunk c) ps chunks"
    and "has_read a tx rsn cs"
  shows "has_read (foldl (agg_payload lib) a ps) (tx @ concat (map (delta_text ''content'') chunks))
    (rsn @ concat (map (delta_text ''reasoning_content'') chunks)) (cs @ concat (map frame_calls chunks))"
  using assms
proof (induction arbitrary: a tx rsn cs rule: list_all2_induct)
  case (Cons p ps c chunks)
  have "agg_payload lib a p = agg_chunk a c" using Cons.hyps by (simp add: agg_payload_def unmarshal_map_def)
  then show ?case using Cons.IH [OF agg_chunk_read [OF Cons.prems, of c]] Cons.hyps by simp
qed simp

lemma agg_choice_valid [simp]: "ag_validEvents (agg_choice a c) = ag_validEvents a"
  by (simp add: agg_choice_def mergeMessageFields_def appendContent_def Let_def split: option.split)

lemma agg_choices_valid [simp]: "ag_validEvents (foldl agg_choice a cs) = ag_validEvents a"
  by (induction cs arbitrary: a) simp_all

lemma agg_payload_valid:
  "ag_validEvents (agg_payload lib a p) =
     (case unmarshal_map lib p of DecodeError \<Rightarrow> ag_validEvents a | _ \<Rightarrow> Suc (ag_validEvents a))"
  by (simp add: agg_payload_def agg_chunk_def agg_head_keeps split: decoded.split option.split)

lemma agg_payloads_valid:
  "ag_validEvents (foldl (agg_payload lib) a ps) =
     ag_validEvents a + length (filter (\<lambda>p. unmarshal_map lib p \<noteq> DecodeError) ps)"
  by (induction ps arbitrary: a) (auto simp: agg_payload_valid split: decoded.splits)

text \<open>Reading an answer.\<close>

definition answer_message :: "(string \<times> gval) list \<Rightarrow> (string \<times> gval) list" where
  "answer_message resp = (case v_arr resp ''choices'' of
      Some [VMap c] \<Rightarrow> (case v_map c ''message'' of Some m \<Rightarrow> m | None \<Rightarrow> [])
    | _ \<Rightarrow> [])"

definition answer_calls :: "(string \<times> gval) list \<Rightarrow> call_map list" where
  "answer_calls resp = (case gm_get (answer_message resp) ''tool_calls'' of Some (VMaps cs) \<Rightarrow> cs | _ \<Rightarrow> [])"

lemma answer_of_response: "answer_message (agg_response lib nano unix a d) = response_message lib a d"
  by (simp add: answer_message_def agg_response_def Let_def v_arr_def v_map_def split: option.split)

lemma response_message_content: "v_str (response_message lib a d) ''content'' = ag_content a"
  by (simp add: response_message_def Let_def v_str_def)

lemma answer_calls_response: "answer_calls (agg_response lib nano unix a d) = response_calls lib a d"
  by (simp add: answer_calls_def answer_of_response) (simp add: response_message_def Let_def)

text \<open>The indices of a list of fragments in increasing order.\<close>

definition indices :: "json list \<Rightarrow> int list" where
  "indices cs = sort (remdups (map call_index (filter is_obj cs)))"

lemma reading_None: "reading cs i = None \<longleftrightarrow> i \<notin> set (indices cs)"
  by (auto simp: reading_def Let_def indices_def fragment_of_def filter_empty_conv)

lemma sorted_slots:
  assumes "agg_inv a" and "\<forall>j. slot_view a j = reading cs j"
  shows "sort (ag_toolOrder a) = indices cs"
proof (rule sorted_distinct_set_unique)
  have "i \<in> set (ag_toolOrder a) \<longleftrightarrow> i \<in> set (indices cs)" for i
  proof -
    have "i \<in> set (ag_toolOrder a) \<longleftrightarrow> slot_view a i \<noteq> None"
      using assms(1) by (simp add: agg_inv_def slot_view_def)
    then show ?thesis using assms(2) reading_None [of cs i] by simp
  qed
  then show "set (sort (ag_toolOrder a)) = set (indices cs)" by auto
qed (use assms(1) in \<open>simp_all add: agg_inv_def indices_def\<close>)

lemma slots_view:
  assumes "agg_inv a" and "\<forall>j. slot_view a j = reading cs j"
  shows "map (\<lambda>i. Some (view_of (slot a i))) (sort (ag_toolOrder a)) = map (reading cs) (indices cs)"
proof -
  have "Some (view_of (slot a i)) = reading cs i" if "i \<in> set (indices cs)" for i
    using that reading_None [of cs i] assms(2) [rule_format, of i, symmetric]
    by (auto simp: slot_view_def slot_def)
  then show ?thesis by (simp add: sorted_slots [OF assms])
qed

text \<open>
  (C31) Aggregating a delta stream computes the abstract reading of its chunks, from the bytes on the
  wire to the answer: the text is the concatenation of the text fragments in order; there is one call
  per index that occurs, in increasing order, with the concatenation of the argument fragments of that
  index and the last name, identifier and type that are not empty; what follows the end mark, even a
  read error, plays no part.
\<close>

theorem aggregate_reads:
  assumes "list_all clean ps" and "ps \<noteq> []"
    and "list_all2 (\<lambda>p c. UnmarshalAny lib p = Some (JObj c) \<and> delta_chunk c) ps chunks"
  shows "\<exists>resp. Aggregate lib nano unix (concat (map sse_event ps) @ sse_event done_mark @ rest) fails = Inr resp \<and>
    v_str (answer_message resp) ''content'' = concat (map (delta_text ''content'') chunks) \<and>
    map (Some \<circ> view_of) (answer_calls resp) =
      map (reading (concat (map frame_calls chunks))) (indices (concat (map frame_calls chunks)))"
proof -
  let ?bytes = "concat (map sse_event ps) @ sse_event done_mark @ rest"
  let ?a = "foldl (agg_payload lib) agg_init ps"
  have lines: "agg_lines lib agg_init (if fails then fst (read_lines ?bytes) else deliveries ?bytes) = (?a, True)"
    using agg_events [OF assms(1), of lib agg_init fails rest] by (simp add: lines_of_def)
  have "has_read agg_init [] [] []"
    by (simp add: has_read_def agg_init_def slot_view_def reading_def)
  from agg_payloads_read [OF assms(3) this]
  have read: "has_read ?a (concat (map (delta_text ''content'') chunks))
      (concat (map (delta_text ''reasoning_content'') chunks)) (concat (map frame_calls chunks))" by simp
  have "list_all (\<lambda>p. unmarshal_map lib p \<noteq> DecodeError) ps"
    using assms(3) by (auto simp: list_all2_conv_all_nth list_all_length unmarshal_map_def)
  then have "filter (\<lambda>p. unmarshal_map lib p \<noteq> DecodeError) ps = ps" by (simp add: list_all_iff)
  with agg_payloads_valid [of lib agg_init ps] assms(2) have "ag_validEvents ?a \<noteq> 0" by simp
  then have run: "Aggregate lib nano unix ?bytes fails = Inr (agg_response lib nano unix ?a True)"
    by (simp only: Aggregate_def lines prod.case) simp
  have inv: "agg_inv ?a" by (rule agg_lines_inv [OF agg_inv_init lines])
  have "response_calls lib ?a True = map (slot ?a) (sort (ag_toolOrder ?a))"
    using read by (simp add: response_calls_def has_read_def)
  with slots_view [OF inv] read
  have "map (Some \<circ> view_of) (response_calls lib ?a True) =
      map (reading (concat (map frame_calls chunks))) (indices (concat (map frame_calls chunks)))"
    by (simp add: has_read_def comp_def)
  with run read show ?thesis
    by (intro exI [of _ "agg_response lib nano unix ?a True"])
      (simp add: answer_of_response response_message_content answer_calls_response has_read_def)
qed

definition demo_chunk :: "string \<Rightarrow> (string \<times> json) list" where
  "demo_chunk args = [(''choices'', JArr [JObj [(''delta'', JObj [(''content'', JStr ''x''), (''tool_calls'',
     JArr [JObj [(''index'', JNum 1), (''id'', JStr ''c1''), (''function'', JObj [(''arguments'', JStr args)])]])])]])]"

definition demo_lib :: json_text where
  "demo_lib = \<lparr>UnmarshalAny = (\<lambda>s. if s = ''p1'' then Some (JObj (demo_chunk ''{''))
       else if s = ''p2'' then Some (JObj (demo_chunk ''}'')) else if s = ''{}'' then Some (JObj []) else None),
     MarshalAny = (\<lambda>v. Some ''{}'')\<rparr>"

lemma aggregate_reads_witness:
  "\<exists>resp. Aggregate demo_lib 0 0 (concat (map sse_event [''p1'', ''p2'']) @ sse_event done_mark @ []) False = Inr resp \<and>
    v_str (answer_message resp) ''content'' = ''xx'' \<and>
    map (Some \<circ> view_of) (answer_calls resp) = [Some \<lparr>cv_id = ''c1'', cv_type = [], cv_name = [], cv_args = ''{}''\<rparr>]"
proof -
  let ?cs = "[demo_chunk ''{'', demo_chunk ''}'']"
  have "list_all clean [''p1'', ''p2'']" by code_simp
  moreover have "list_all2 (\<lambda>p c. UnmarshalAny demo_lib p = Some (JObj c) \<and> delta_chunk c) [''p1'', ''p2''] ?cs"
    by code_simp
  moreover have "concat (map (delta_text ''content'') ?cs) = ''xx''" by code_simp
  moreover have "map (reading (concat (map frame_calls ?cs))) (indices (concat (map frame_calls ?cs))) =
      [Some \<lparr>cv_id = ''c1'', cv_type = [], cv_name = [], cv_args = ''{}''\<rparr>]"
    by code_simp
  ultimately show ?thesis
    using aggregate_reads [of "[''p1'', ''p2'']" demo_lib ?cs 0 0 "[]" False] by simp
qed

section \<open>Cut streams\<close>

definition ended :: "bool \<Rightarrow> string \<Rightarrow> bool" where
  "ended fails bytes = list_ex (\<lambda>l. payload_of (trim_eol l) = Some done_mark) (lines_of fails bytes)"

lemma agg_lines_ended: "snd (agg_lines lib a ls) = list_ex (\<lambda>l. payload_of (trim_eol l) = Some done_mark) ls"
  by (induction ls arbitrary: a) (auto split: option.splits)

definition answer_finish :: "(string \<times> gval) list \<Rightarrow> string" where
  "answer_finish resp = (case v_arr resp ''choices'' of Some [VMap c] \<Rightarrow> v_str c ''finish_reason'' | _ \<Rightarrow> [])"

lemma finish_of_response: "answer_finish (agg_response lib nano unix a d) = ag_finishReason a"
  by (simp add: answer_finish_def agg_response_def Let_def v_arr_def v_str_def split: option.split)

text \<open>
  A client never receives half a JSON value as the arguments of a call from a stream that was
  cut: if the upstream did not end the stream itself, or the model stopped at its length limit, the
  arguments of every call in the answer are blank or parse as JSON.
\<close>

theorem cut_stream_arguments:
  assumes "Aggregate lib nano unix bytes fails = Inr resp"
    and "\<not> ended fails bytes \<or> answer_finish resp = ''length''"
  shows "list_all (\<lambda>c. TrimSpace (call_arguments c) = [] \<or> UnmarshalAny lib (TrimSpace (call_arguments c)) \<noteq> None)
    (answer_calls resp)"
proof -
  obtain a d where lines: "agg_lines lib agg_init (lines_of fails bytes) = (a, d)" by (metis prod.exhaust)
  have "d = ended fails bytes" using agg_lines_ended [of lib agg_init "lines_of fails bytes"] lines by (simp add: ended_def)
  have resp: "resp = agg_response lib nano unix a d"
    using assms(1) lines by (auto simp: Aggregate_def lines_of_def split: if_splits)
  have "ag_finishReason a = ''length'' \<or> \<not> d"
    using assms(2) \<open>d = _\<close> by (auto simp: resp finish_of_response)
  then show ?thesis
    by (auto simp: resp answer_calls_response response_calls_def dropTruncatedToolCalls_def isTruncatedArguments_def
        call_arguments_def list_all_iff v_str_def TrimSpace_def split: option.splits)
qed

lemma cut_stream_arguments_witness:
  "\<exists>resp. Aggregate demo_lib 0 0 (sse_event ''p1'') False = Inr resp \<and> answer_calls resp = [] \<and>
    list_all (\<lambda>c. TrimSpace (call_arguments c) = [] \<or> UnmarshalAny demo_lib (TrimSpace (call_arguments c)) \<noteq> None)
      (answer_calls resp)"
proof -
  obtain resp where run: "Aggregate demo_lib 0 0 (sse_event ''p1'') False = Inr resp"
    and calls: "answer_calls resp = []"
  proof
    show "Aggregate demo_lib 0 0 (sse_event ''p1'') False = Inr (projr (Aggregate demo_lib 0 0 (sse_event ''p1'') False))"
      by code_simp
    show "answer_calls (projr (Aggregate demo_lib 0 0 (sse_event ''p1'') False)) = []" by code_simp
  qed
  have "\<not> ended False (sse_event ''p1'')" by code_simp
  with cut_stream_arguments [OF run] run calls show ?thesis by blast
qed

section \<open>Structured calls and markup\<close>

text \<open>
  The repair of an aggregated answer does not see the structured calls of the answer: the guard
  that is to protect them asserts the type \<open>[]any\<close>, while the aggregation stores \<open>[]map[string]any\<close>.
  Whenever the text of an answer that finished with \<open>stop\<close> holds an accepted block, the calls found in
  the text replace the calls the upstream sent.
\<close>

theorem structured_calls_replaced:
  assumes "allowed \<noteq> [] \<or> allowUnknown" and "ag_finishReason a = ''stop''"
    and "Feed lib (NewMarkupRepair allowed allowUnknown) (ag_content a) = (emit, calls, r)" and "calls \<noteq> []"
    and "Contains (ag_content a) markupPipe"
  shows "gm_get (answer_message (fst (RepairAggregatedResponse lib clock (agg_response lib nano unix a d)
      allowed allowUnknown))) ''tool_calls'' = Some (VArr (markupMessageToolCalls (clock 0) calls))"
proof -
  let ?r = "NewMarkupRepair allowed allowUnknown"
  let ?m = "response_message lib a d"
  let ?c = "[(''index'', VNum 0), (''message'', VMap ?m), (''finish_reason'', VStr (ag_finishReason a))]"
  have en: "Enabled ?r" using assms(1) by (auto simp: Enabled_def NewMarkupRepair_def)
  have content: "v_str ?m ''content'' = ag_content a" by (rule response_message_content)
  have "ag_content a \<noteq> []" using assms(5) by (auto simp: markupPipe_def)
  moreover have "v_arr ?m ''tool_calls'' = None"
    by (simp add: v_arr_def response_message_def Let_def)
  moreover have "v_str ?c ''finish_reason'' = ''stop''" using assms(2) by (simp add: v_str_def)
  ultimately have ok: "repairable ?c ?m" using assms(5) content by (simp add: repairable_def)
  obtain t q where flush: "Flush_markup r = (t, q)" by (metis prod.exhaust)
  have "repair_choice lib (clock 0) ?r (VMap ?c) = (VMap (gm_put ''finish_reason'' (VStr ''tool_calls'')
      (gm_put ''message'' (VMap (gm_put ''tool_calls'' (VArr (markupMessageToolCalls (clock 0) calls))
        (gm_put ''content'' (VStr (emit @ t)) ?m))) ?c)), q)"
    using ok assms(3,4) content flush by (simp add: repair_choice_def v_map_def)
  moreover have "v_arr (agg_response lib nano unix a d) ''choices'' = Some [VMap ?c]"
    by (simp add: agg_response_def Let_def v_arr_def split: option.split)
  ultimately show ?thesis
    using en by (simp add: RepairAggregatedResponse_def Let_def answer_message_def v_arr_def v_map_def)
qed

definition demo_agg :: agg where
  "demo_agg = agg_init\<lparr>ag_content := markupOpen @ demo_invoke @ markupClose, ag_toolOrder := [0],
     ag_toolCalls := [(0, [(''id'', VStr ''real'')])]\<rparr>"

lemma structured_calls_replaced_witness:
  "answer_calls (agg_response plain_json 0 0 demo_agg True) = [[(''id'', VStr ''real'')]] \<and>
   gm_get (answer_message (fst (RepairAggregatedResponse plain_json (\<lambda>_ _. 7)
       (agg_response plain_json 0 0 demo_agg True) [''ls''] False))) ''tool_calls'' =
     Some (VArr [VMap [(''id'', VStr ''call_7_0''), (''type'', VStr ''function''),
       (''function'', VMap [(''name'', VStr ''ls''), (''arguments'', VStr ''{}'')])]])"
proof
  show "answer_calls (agg_response plain_json 0 0 demo_agg True) = [[(''id'', VStr ''real'')]]" by code_simp
  let ?calls = "[\<lparr>mk_Name = ''ls'', mk_Arguments = ''{}''\<rparr>]"
  let ?run = "Feed plain_json (NewMarkupRepair [''ls''] False) (ag_content demo_agg)"
  have "fst (snd ?run) = ?calls" by code_simp
  then obtain emit r where run: "?run = (emit, ?calls, r)" by (metis prod.collapse)
  have "ag_finishReason demo_agg = ''stop''" "Contains (ag_content demo_agg) markupPipe" by code_simp+
  note replaced = structured_calls_replaced [OF _ this(1) run _ this(2), where clock = "\<lambda>_ _. 7" and nano = 0 and unix = 0 and d = True]
  have "markupMessageToolCalls (\<lambda>_. 7) ?calls = [VMap [(''id'', VStr ''call_7_0''), (''type'', VStr ''function''),
       (''function'', VMap [(''name'', VStr ''ls''), (''arguments'', VStr ''{}'')])]]"
    by code_simp
  with replaced show "gm_get (answer_message (fst (RepairAggregatedResponse plain_json (\<lambda>_ _. 7)
       (agg_response plain_json 0 0 demo_agg True) [''ls''] False))) ''tool_calls'' =
     Some (VArr [VMap [(''id'', VStr ''call_7_0''), (''type'', VStr ''function''),
       (''function'', VMap [(''name'', VStr ''ls''), (''arguments'', VStr ''{}'')])]])"
    by simp
qed

end
