(* ===== verification/Markup_Frames.thy ===== *)
theory Markup_Frames
  imports Sse
begin

text \<open>
  Markup repair inside a stream of frames, after \<^verbatim>\<open>src/internal/upstream/markup_chunks.go\<close>: one input
  frame becomes its visible text, one frame per recovered call and a finish frame, and each of them
  goes through the frame normaliser. The code keeps the last decoded frame by reference and changes
  parts of it later; only its \<open>created\<close> and \<open>model\<close> members are read again, and these never change.
\<close>

record MarkupChunkNormalizer =
  mc_normalizer :: ChunkNormalizer
  mc_repair :: "MarkupRepair option"
  mc_last :: "(string \<times> json) list"
  mc_nextIndex :: nat
  mc_finished :: bool

definition NewMarkupChunkNormalizer :: "(string \<Rightarrow> tool_request option) \<Rightarrow> string \<Rightarrow> MarkupChunkNormalizer" where
  "NewMarkupChunkNormalizer decode body =
     (let allowed = ToolNameAllowlist decode body in
      \<lparr>mc_normalizer = NewChunkNormalizer, mc_repair = Some (NewMarkupRepair allowed (allowed = [])),
       mc_last = [], mc_nextIndex = 0, mc_finished = False\<rparr>)"

text \<open>\<open>Enabled\<close> on a possibly nil recogniser.\<close>

definition repairing :: "MarkupChunkNormalizer \<Rightarrow> bool" where
  "repairing n = (case mc_repair n of Some r \<Rightarrow> Enabled r | None \<Rightarrow> False)"

section \<open>Building frames\<close>

definition src_fields :: "(string \<times> json) list \<Rightarrow> (string \<times> json) list \<Rightarrow> (string \<times> json) list" where
  "src_fields src frame = foldl (\<lambda>out k. keep_value src k out) frame [''created'', ''model'']"

definition one_choice :: "(string \<times> json) list \<Rightarrow> (string \<times> json) list" where
  "one_choice c = [(''object'', JStr ''chat.completion.chunk''), (''choices'', JArr [JObj c])]"

definition markupCallFrame :: "(nat \<Rightarrow> int) \<Rightarrow> (string \<times> json) list \<Rightarrow> nat \<Rightarrow> MarkupCall \<Rightarrow> (string \<times> json) list" where
  "markupCallFrame clock src idx call = src_fields src (one_choice [(''index'', JNum 0),
     (''delta'', JObj [(''tool_calls'', JArr (markupToolCalls clock [call] idx))])])"

definition finishOnlyFrame :: "(string \<times> json) list \<Rightarrow> string \<Rightarrow> (string \<times> json) list" where
  "finishOnlyFrame src finish = src_fields src (one_choice [(''index'', JNum 0), (''delta'', JObj []),
     (''finish_reason'', JStr finish)])"

text \<open>The frame for text that is given back: a finish frame with its choice changed.\<close>

definition textFrame :: "(string \<times> json) list \<Rightarrow> string \<Rightarrow> (string \<times> json) list" where
  "textFrame src t = src_fields src (one_choice
     (gm_put ''delta'' (JObj [(''content'', JStr t)])
       (gm_del ''finish_reason'' [(''index'', JNum 0), (''delta'', JObj []), (''finish_reason'', JStr [])])))"

text \<open>\<open>encode\<close>; \<open>None\<close> is a panic of the frame normaliser.\<close>

fun encode_frames :: "json_text \<Rightarrow> ChunkNormalizer \<Rightarrow> (string \<times> json) list list \<Rightarrow>
    (string list \<times> ChunkNormalizer) option" where
  "encode_frames lib n [] = Some ([], n)"
| "encode_frames lib n (obj # objs) = (case MarshalAny lib (JObj obj) of
      None \<Rightarrow> encode_frames lib n objs
    | Some raw \<Rightarrow>
        (case Normalize lib n raw of
           None \<Rightarrow> None
         | Some ((t, valid, d), n) \<Rightarrow>
             map_option (\<lambda>(frames, n). (if t \<noteq> [] then t # frames else frames, n)) (encode_frames lib n objs)))"

section \<open>Flushing\<close>

text \<open>The objects that \<open>FlushFrames\<close> encodes, and the state before it encodes them.\<close>

definition flush_objects :: "MarkupChunkNormalizer \<Rightarrow> (string \<times> json) list list \<times> MarkupChunkNormalizer" where
  "flush_objects n = (case mc_repair n of
      None \<Rightarrow> ([], n)
    | Some r \<Rightarrow>
        if \<not> Enabled r then ([], n)
        else case Flush_markup r of (tail, r) \<Rightarrow>
          (let n = n\<lparr>mc_repair := Some r\<rparr>;
               frames = (if tail \<noteq> [] then [textFrame (mc_last n) tail] else [])
           in if mc_nextIndex n > 0 \<and> \<not> mc_finished n
              then (frames @ [finishOnlyFrame (mc_last n) ''tool_calls''], n\<lparr>mc_finished := True\<rparr>)
              else (frames, n)))"

definition encode_in :: "json_text \<Rightarrow> (string \<times> json) list list \<times> MarkupChunkNormalizer \<Rightarrow>
    (string list \<times> MarkupChunkNormalizer) option" where
  "encode_in lib x = (case x of (objs, n) \<Rightarrow>
     map_option (\<lambda>(frames, cn). (frames, n\<lparr>mc_normalizer := cn\<rparr>)) (encode_frames lib (mc_normalizer n) objs))"

definition FlushFrames :: "json_text \<Rightarrow> MarkupChunkNormalizer \<Rightarrow> (string list \<times> MarkupChunkNormalizer) option" where
  "FlushFrames lib n = encode_in lib (flush_objects n)"

section \<open>One frame\<close>

fun call_frames :: "(nat \<Rightarrow> int) \<Rightarrow> (string \<times> json) list \<Rightarrow> nat \<Rightarrow> MarkupCall list \<Rightarrow> (string \<times> json) list list" where
  "call_frames clock src idx [] = []"
| "call_frames clock src idx (call # calls) =
     markupCallFrame (\<lambda>_. clock idx) src idx call # call_frames clock src (Suc idx) calls"

text \<open>
  The frame of one choice with an enabled recogniser: the objects to encode. The object itself comes
  first, with its visible text; its finish reason moves behind the calls.
\<close>

definition repair_objects :: "json_text \<Rightarrow> (nat \<Rightarrow> int) \<Rightarrow> MarkupChunkNormalizer \<Rightarrow> MarkupRepair \<Rightarrow>
    (string \<times> json) list \<Rightarrow> (string \<times> json) list \<Rightarrow> (string \<times> json) list list \<times> MarkupChunkNormalizer" where
  "repair_objects lib clock n r obj choice =
     (let delta = obj_of ''delta'' (JObj choice);
          txt' = (case delta of Some d \<Rightarrow> str_of ''content'' (JObj d) | None \<Rightarrow> []);
          finish = str_of ''finish_reason'' (JObj choice)
      in case Feed lib r txt' of (visible, calls, r) \<Rightarrow>
         case (if finish \<noteq> [] then Flush_markup r else ([], r)) of (tail, r) \<Rightarrow>
           (let visible = visible @ tail;
                n = n\<lparr>mc_repair := Some r, mc_finished := (mc_finished n \<or> finish \<noteq> [])\<rparr>;
                choice = (case delta of
                    None \<Rightarrow> choice
                  | Some d \<Rightarrow> gm_put ''delta'' (JObj (if visible = [] then gm_del ''content'' d
                      else gm_put ''content'' (JStr visible) d)) choice)
            in if calls \<noteq> [] then
                 (let obj = gm_put ''choices'' (JArr [JObj (gm_del ''finish_reason'' choice)]) obj;
                      finish = (if finish = ''stop'' then ''tool_calls'' else finish)
                  in (obj # call_frames clock obj (mc_nextIndex n) calls @
                        (if finish \<noteq> [] then [finishOnlyFrame obj finish] else []),
                      n\<lparr>mc_nextIndex := mc_nextIndex n + length calls\<rparr>))
               else
                 (let choice = (if mc_nextIndex n > 0 \<and> finish = ''stop''
                      then gm_put ''finish_reason'' (JStr ''tool_calls'') choice else choice)
                  in ([gm_put ''choices'' (JArr [JObj choice]) obj], n))))"

text \<open>Held text is flushed before a frame that the repair leaves alone, and the repair is switched off.\<close>

definition give_up :: "json_text \<Rightarrow> MarkupChunkNormalizer \<Rightarrow> string \<Rightarrow>
    ((string list \<times> bool \<times> bool) \<times> MarkupChunkNormalizer) option" where
  "give_up lib n payload = (case FlushFrames lib n of
      None \<Rightarrow> None
    | Some (frames, n) \<Rightarrow>
        map_option (\<lambda>((t, valid, d), cn). ((frames @ [t], valid, d), n\<lparr>mc_repair := None, mc_normalizer := cn\<rparr>))
          (Normalize lib (mc_normalizer n) payload))"

definition structured :: "json \<Rightarrow> bool" where
  "structured c = (case obj_of ''delta'' c of Some d \<Rightarrow> calls_of (JObj d) \<noteq> [] | None \<Rightarrow> False)"

text \<open>The objects for a frame that is no error, has at most one choice and no structured calls.\<close>

definition frame_objects :: "json_text \<Rightarrow> (nat \<Rightarrow> int) \<Rightarrow> MarkupChunkNormalizer \<Rightarrow> (string \<times> json) list \<Rightarrow> json list \<Rightarrow>
    (string \<times> json) list list \<times> MarkupChunkNormalizer" where
  "frame_objects lib clock n obj choices = (case (choices, mc_repair n) of
      ([JObj choice], Some r) \<Rightarrow> if Enabled r then repair_objects lib clock n r obj choice else ([obj], n)
    | _ \<Rightarrow> ([obj], n))"

definition NormalizeFrames :: "json_text \<Rightarrow> (nat \<Rightarrow> int) \<Rightarrow> MarkupChunkNormalizer \<Rightarrow> string \<Rightarrow>
    ((string list \<times> bool \<times> bool) \<times> MarkupChunkNormalizer) option" where
  "NormalizeFrames lib clock n payload =
     (if payload = done_mark then map_option (\<lambda>(frames, n). ((frames, False, True), n)) (FlushFrames lib n)
      else case unmarshal_map lib payload of
        Decoded obj \<Rightarrow>
          (let n = n\<lparr>mc_last := obj\<rparr>; choices = (case arr_of ''choices'' (JObj obj) of Some cs \<Rightarrow> cs | None \<Rightarrow> []) in
           if gm_get obj ''error'' \<noteq> None
           then map_option (\<lambda>(frames, n). ((frames @ [payload], True, False), n)) (FlushFrames lib n)
           else if length choices > 1 \<or> list_ex structured choices then give_up lib n payload
           else map_option (\<lambda>(frames, n). ((frames, True, False), n))
             (encode_in lib (frame_objects lib clock n obj choices)))
      | _ \<Rightarrow> map_option (\<lambda>((t, valid, d), cn). (([t], valid, d), n\<lparr>mc_normalizer := cn\<rparr>))
          (Normalize lib (mc_normalizer n) payload))"

end
