(* ===== verification/Codec.thy ===== *)
theory Codec
  imports Markup "HOL-Library.Countable"
begin

text \<open>
  What the properties of whole texts need of a JSON codec, and a codec that has it: every value is a number in unary.
\<close>

text \<open>A codec that reads back what it writes. The order of the members of an object is not fixed by the code.\<close>

definition faithful :: "json_text \<Rightarrow> bool" where
  "faithful lib = (UnmarshalAny lib [] = None \<and>
     (\<forall>fs. \<exists>s. MarshalAny lib (JObj fs) = Some s \<and> UnmarshalAny lib s = Some (JObj fs)))"

instance json :: countable
  by countable_datatype

definition unary_text :: "json \<Rightarrow> string" where
  "unary_text v = replicate (Suc (to_nat v)) CHR ''x''"

definition unary :: json_text where
  "unary = \<lparr>UnmarshalAny = \<lambda>s. if s = [] then None else Some (from_nat (length s - 1)), MarshalAny = \<lambda>v. Some (unary_text v)\<rparr>"

lemma unary_reads [simp]: "UnmarshalAny unary (unary_text v) = Some v" "MarshalAny unary v = Some (unary_text v)" "unary_text v \<noteq> []"
  by (simp_all add: unary_def unary_text_def)

lemma unary_faithful: "faithful unary"
  by (simp add: faithful_def) (simp add: unary_def)

end
