(* ===== verification/Markup_Frames_Props.thy ===== *)
theory Markup_Frames_Props
  imports Markup_Frames Aggregate_Props Codec
begin

text \<open>
  The properties of the markup repair inside a stream of frames: the text of the frames and the
  recovered calls together are the text the upstream sent, and the case where held text is lost.
\<close>

section \<open>Reading the frames that are built\<close>

lemma chunk_choices_src [simp]: "chunk_choices (src_fields src (one_choice c)) = [JObj c]"
  by (simp add: chunk_choices_def arr_of_def members_def src_fields_def keep_value_get one_choice_def)

lemma chunk_choices_put [simp]: "chunk_choices (gm_put ''choices'' (JArr cs) obj) = cs"
  by (simp add: chunk_choices_def arr_of_def members_def)

lemma frame_calls_choices: "frame_calls obj = concat (map choice_calls (chunk_choices obj))"
  by (simp add: frame_calls_def chunk_choices_def)

abbreviation text_of :: "(string \<times> json) list list \<Rightarrow> string" where
  "text_of objs \<equiv> concat (map (delta_text ''content'') objs)"

abbreviation fragments :: "(string \<times> json) list list \<Rightarrow> json list" where
  "fragments objs \<equiv> concat (map frame_calls objs)"

lemma obj_of_cons [simp]:
  "obj_of k (JObj ((j, v) # fs)) = (if k = j then (case v of JObj x \<Rightarrow> Some x | _ \<Rightarrow> None) else obj_of k (JObj fs))"
  "obj_of k (JObj []) = None"
  by (simp_all add: obj_of_def members_def)

lemma obj_of_put [simp]: "obj_of k (JObj (gm_put j (JObj x) fs)) = (if k = j then Some x else obj_of k (JObj fs))"
  by (simp add: obj_of_def members_def)

lemma obj_of_put_str [simp]: "k \<noteq> j \<Longrightarrow> obj_of k (JObj (gm_put j (JStr x) fs)) = obj_of k (JObj fs)"
  by (simp add: obj_of_def members_def)

lemma obj_of_del [simp]: "k \<noteq> j \<Longrightarrow> obj_of k (JObj (gm_del j fs)) = obj_of k (JObj fs)"
  by (simp add: obj_of_def members_def gm_get_del)

lemma call_frame_reads:
  "delta_text k (markupCallFrame clock src idx call) = []"  if "k \<noteq> ''tool_calls''" for k
  using that by (simp add: markupCallFrame_def delta_text_def choice_delta_def str_of_def members_def)

lemma call_frame_fragments:
  "frame_calls (markupCallFrame clock src idx call) = markupToolCalls clock [call] idx"
  by (simp add: markupCallFrame_def frame_calls_choices choice_calls_def calls_of_def arr_of_def members_def)

lemma finish_frame_reads:
  "delta_text k (finishOnlyFrame src f) = []" "frame_calls (finishOnlyFrame src f) = []"
  by (simp_all add: finishOnlyFrame_def delta_text_def choice_delta_def frame_calls_choices choice_calls_def
      calls_of_def arr_of_def str_of_def members_def)

lemma text_frame_reads:
  "delta_text ''content'' (textFrame src t) = t" "frame_calls (textFrame src t) = []"
  by (simp_all add: textFrame_def delta_text_def choice_delta_def frame_calls_choices choice_calls_def
      calls_of_def arr_of_def str_of_def members_def)

text \<open>The calls that a list of fragments carries, and their indices.\<close>

definition wire_call :: "json \<Rightarrow> MarkupCall" where
  "wire_call tc = \<lparr>mk_Name = fn_str ''name'' tc, mk_Arguments = fn_str ''arguments'' tc\<rparr>"

lemma wire_toolcall:
  "map wire_call (markupToolCalls clock [call] idx) = [call]"
  "map call_index (markupToolCalls clock [call] idx) = [int idx]"
  by (simp_all add: markupToolCalls_def enumerate_eq_zip wire_call_def fn_str_def str_of_def members_def call_index_def
      jnum_of_def trunc_rat_def)

lemma call_frames_read:
  "text_of (call_frames clock src idx calls) = [] \<and>
   map wire_call (fragments (call_frames clock src idx calls)) = calls \<and>
   map call_index (fragments (call_frames clock src idx calls)) = map int [idx..<idx + length calls]"
  by (induction calls arbitrary: idx)
    (simp_all add: call_frame_reads call_frame_fragments wire_toolcall upt_rec [of _ "Suc _"] upt_rec)

lemmas call_frames_parts = call_frames_read [THEN conjunct1] call_frames_read [THEN conjunct2, THEN conjunct1]
  call_frames_read [THEN conjunct2, THEN conjunct2]

section \<open>One frame\<close>

text \<open>What \<open>NormalizeFrames\<close> builds for a decoded frame that is neither an error nor structured.\<close>

definition step_objects :: "json_text \<Rightarrow> (nat \<Rightarrow> int) \<Rightarrow> MarkupChunkNormalizer \<Rightarrow> (string \<times> json) list \<Rightarrow>
    (string \<times> json) list list \<times> MarkupChunkNormalizer" where
  "step_objects lib clock n obj = frame_objects lib clock (n\<lparr>mc_last := obj\<rparr>) obj (chunk_choices obj)"

text \<open>A text frame: one choice with a delta, without structured calls.\<close>

definition text_frame :: "(string \<times> json) list \<Rightarrow> bool" where
  "text_frame obj = (case chunk_choices obj of
      [JObj c] \<Rightarrow> obj_of ''delta'' (JObj c) \<noteq> None \<and> \<not> structured (JObj c)
    | _ \<Rightarrow> False)"

lemma text_frame_choice:
  assumes "text_frame obj"
  obtains c d where "chunk_choices obj = [JObj c]" and "obj_of ''delta'' (JObj c) = Some d"
    and "calls_of (JObj d) = []" and "\<not> structured (JObj c)"
proof -
  from assms obtain x xs where x: "chunk_choices obj = x # xs"
    by (cases "chunk_choices obj") (auto simp: text_frame_def)
  with assms have "xs = []" by (cases xs; cases x) (auto simp: text_frame_def)
  with assms x obtain c where "chunk_choices obj = [JObj c]" by (cases x) (auto simp: text_frame_def)
  with assms that show ?thesis by (auto simp: text_frame_def structured_def)
qed

lemma NormalizeFrames_step:
  assumes "payload \<noteq> done_mark" and "UnmarshalAny lib payload = Some (JObj obj)"
    and "gm_get obj ''error'' = None" and "text_frame obj"
  shows "NormalizeFrames lib clock n payload =
    map_option (\<lambda>(frames, n). ((frames, True, False), n)) (encode_in lib (step_objects lib clock n obj))"
proof -
  obtain c where c: "chunk_choices obj = [JObj c]" "\<not> structured (JObj c)"
    using text_frame_choice [OF assms(4)] by metis
  then show ?thesis
    using assms by (simp add: NormalizeFrames_def unmarshal_map_def step_objects_def chunk_choices_def Let_def)
qed

text \<open>
  What a step of the repair does: it builds objects whose text, calls and indices continue those so
  far, and the recogniser explains the text it took in.
\<close>

definition steps_to :: "json_text \<Rightarrow> MarkupChunkNormalizer \<Rightarrow> string \<Rightarrow> item list \<Rightarrow>
    (string \<times> json) list list \<Rightarrow> MarkupChunkNormalizer \<Rightarrow> bool" where
  "steps_to lib n s items outs n' = (\<exists>r r'. mc_repair n = Some r \<and> Enabled r \<and> mc_repair n' = Some r' \<and>
     explains lib r items s (text_of outs, map wire_call (fragments outs), r') \<and>
     map call_index (fragments outs) = map int [mc_nextIndex n..<mc_nextIndex n'] \<and>
     mc_nextIndex n \<le> mc_nextIndex n')"

lemma steps_to_refl: "mc_repair n = Some r \<Longrightarrow> Enabled r \<Longrightarrow> steps_to lib n [] [] [] n"
  by (simp add: steps_to_def explains_def)

lemma steps_to_append:
  assumes "steps_to lib n s xs outs n1" and "steps_to lib n1 t ys outs' n2"
  shows "steps_to lib n (s @ t) (xs @ ys) (outs @ outs') n2"
proof -
  obtain r r1 where a: "mc_repair n = Some r" "Enabled r" "mc_repair n1 = Some r1"
      "explains lib r xs s (text_of outs, map wire_call (fragments outs), r1)"
      "map call_index (fragments outs) = map int [mc_nextIndex n..<mc_nextIndex n1]"
      "mc_nextIndex n \<le> mc_nextIndex n1"
    using assms(1) by (auto simp: steps_to_def)
  obtain r2 where b: "mc_repair n2 = Some r2"
      "explains lib r1 ys t (text_of outs', map wire_call (fragments outs'), r2)"
      "map call_index (fragments outs') = map int [mc_nextIndex n1..<mc_nextIndex n2]"
      "mc_nextIndex n1 \<le> mc_nextIndex n2"
    using assms(2) a(3) by (auto simp: steps_to_def)
  have "[mc_nextIndex n..<mc_nextIndex n2] = [mc_nextIndex n..<mc_nextIndex n1] @ [mc_nextIndex n1..<mc_nextIndex n2]"
    using a(6) b(4) by (metis upt_add_eq_append le_add_diff_inverse)
  with a b explains_append [OF a(4) b(2)] show ?thesis by (simp add: steps_to_def)
qed

lemma explains_flush:
  assumes "explains lib r items s (e, c, r')" and "Enabled r" and "Flush_markup r' = (tail, r'')"
  shows "explains lib r (items @ [Shown tail]) s (e @ tail, c, r'')"
proof -
  have "Enabled r'" using explains_enabled [OF assms(1)] assms(2) by simp
  then have "tail = pending r'" "r'' = r'\<lparr>mr_hold := [], mr_inBlock := False\<rparr>"
    using assms(3) Flush_markup_pending [of r'] by (auto simp: Flush_markup_def)
  then show ?thesis using assms(1) by (simp add: explains_def pending_def)
qed

lemma step_text_frame:
  assumes "text_frame obj" and "mc_repair n = Some r" and "Enabled r"
    and "step_objects lib clock n obj = (outs, n')"
  shows "\<exists>items. steps_to lib n (delta_text ''content'' obj) items outs n'"
proof -
  obtain c d where c: "chunk_choices obj = [JObj c]" "obj_of ''delta'' (JObj c) = Some d" "calls_of (JObj d) = []"
    using text_frame_choice [OF assms(1)] by metis
  have sent_text: "delta_text ''content'' obj = str_of ''content'' (JObj d)"
    using c by (simp add: delta_text_def choice_delta_def)
  obtain e calls r1 where feed: "Feed lib r (str_of ''content'' (JObj d)) = (e, calls, r1)" by (metis prod.exhaust)
  obtain items where ex: "explains lib r items (str_of ''content'' (JObj d)) (e, calls, r1)"
    using Feed_explained [OF assms(3)] feed by metis
  let ?fin = "str_of ''finish_reason'' (JObj c)"
  obtain tail r2 where flush: "(if ?fin \<noteq> [] then Flush_markup r1 else ([], r1)) = (tail, r2)" by (metis prod.exhaust)
  obtain its where its: "explains lib r its (str_of ''content'' (JObj d)) (e @ tail, calls, r2)"
    using ex explains_flush [OF ex assms(3)] flush by (cases "?fin = []") auto
  let ?d = "if e @ tail = [] then gm_del ''content'' d else gm_put ''content'' (JStr (e @ tail)) d"
  have put: "str_of ''content'' (JObj ?d) = e @ tail" "calls_of (JObj ?d) = []"
    using c(3) by (auto simp: str_of_def calls_of_def arr_of_def members_def gm_get_del)
  have seen: "delta_text ''content'' (gm_put ''choices'' (JArr [JObj x]) o') = e @ tail \<and>
      frame_calls (gm_put ''choices'' (JArr [JObj x]) o') = []" if "obj_of ''delta'' (JObj x) = Some ?d" for x o'
    using that put by (simp add: delta_text_def choice_delta_def frame_calls_choices choice_calls_def)
  show ?thesis
  proof (cases "calls = []")
    case True
    then show ?thesis
      using assms its c feed flush seen
      by (intro exI [of _ its])
        (auto simp: step_objects_def frame_objects_def repair_objects_def Let_def steps_to_def sent_text split: if_splits)
  next
    case False
    show ?thesis
      using False assms its c feed flush seen
      by (intro exI [of _ its])
        (auto simp: step_objects_def frame_objects_def repair_objects_def Let_def steps_to_def sent_text finish_frame_reads
          call_frames_parts split: if_splits)
  qed
qed

lemma flush_steps:
  assumes "mc_repair n = Some r" and "Enabled r" and "flush_objects n = (outs, n')"
  shows "\<exists>tail. steps_to lib n [] [Shown tail] outs n' \<and> (\<exists>r'. mc_repair n' = Some r' \<and> pending r' = [])"
proof -
  obtain tail r' where flush: "Flush_markup r = (tail, r')" by (metis prod.exhaust)
  have r': "tail = pending r" "r' = r\<lparr>mr_hold := [], mr_inBlock := False\<rparr>"
    using flush assms(2) Flush_markup_pending [of r] by (auto simp: Flush_markup_def)
  then have ex: "explains lib r [Shown tail] [] (tail, [], r')" and "pending r' = []"
    by (simp_all add: explains_def pending_def)
  have "mc_repair n' = Some r'" "mc_nextIndex n' = mc_nextIndex n" "text_of outs = tail"
    and none: "fragments outs = []"
    using assms flush by (auto simp: flush_objects_def Let_def text_frame_reads finish_frame_reads split: if_splits)
  with assms ex \<open>pending r' = []\<close> show ?thesis
    by (intro exI [of _ tail]) (simp add: steps_to_def none)
qed

section \<open>On the wire\<close>

text \<open>The frame that a client reads.\<close>

definition wire_obj :: "json_text \<Rightarrow> string \<Rightarrow> (string \<times> json) list" where
  "wire_obj lib t = (case UnmarshalAny lib t of Some (JObj obj) \<Rightarrow> obj | _ \<Rightarrow> [])"

lemma chunk_choices_cong: "gm_get o1 ''choices'' = gm_get o2 ''choices'' \<Longrightarrow> chunk_choices o1 = chunk_choices o2"
  by (simp add: chunk_choices_def arr_of_def members_def)

lemma strip_one_choice:
  assumes "chunk_choices obj = [JObj c]" and "stripToolCallNames obj seen = (obj', seen')"
  shows "\<exists>c'. chunk_choices obj' = [JObj c'] \<and> str_of k (choice_delta (JObj c')) = str_of k (choice_delta (JObj c)) \<or> k = ''tool_calls''"
proof -
  have arr: "arr_of ''choices'' (JObj obj) = Some [JObj c]"
    using assms(1) by (simp add: chunk_choices_def split: option.splits)
  obtain x s where x: "strip_choice seen (JObj c) = (x, s)" by (metis prod.exhaust)
  have o': "chunk_choices obj' = [x]" using assms(2) arr x by (auto simp: stripToolCallNames_def)
  have put: "str_of k (JObj (gm_put ''tool_calls'' (JArr tcs) d)) = str_of k (JObj d)" if "k \<noteq> ''tool_calls''" for tcs d
    using that by (simp add: str_of_def members_def)
  have "\<exists>c'. x = JObj c' \<and> (k \<noteq> ''tool_calls'' \<longrightarrow> str_of k (choice_delta (JObj c')) = str_of k (choice_delta (JObj c)))"
  proof (cases "obj_of ''delta'' (JObj c)")
    case None
    then have "x = JObj c" using x by (simp add: strip_choice_def)
    then show ?thesis by blast
  next
    case (Some d)
    then show ?thesis
      using x put by (cases "arr_of ''tool_calls'' (JObj d)")
        (auto simp: strip_choice_def choice_delta_def set_member_def split: prod.splits)
  qed
  with o' show ?thesis by blast
qed

lemma normal_delta_reads:
  "str_of ''content'' (JObj (normalize_delta d)) = str_of ''content'' (JObj d)"
  "calls_of (JObj (normalize_delta d)) = calls_of (JObj d)"
proof -
  define d1 where "d1 = keep_str d ''refusal'' (keep_str d ''reasoning_content'' (keep_str d ''content'' (keep_str d ''role'' [])))"
  have d1: "gm_get d1 ''content'' = (if str_of ''content'' (JObj d) \<noteq> [] then Some (JStr (str_of ''content'' (JObj d))) else None)"
      "gm_get d1 ''tool_calls'' = None"
    by (simp_all add: d1_def keep_str_def)
  have n: "normalize_delta d = (let out = (case arr_of ''tool_calls'' (JObj d) of
              Some tcs \<Rightarrow> if tcs \<noteq> [] then gm_put ''tool_calls'' (JArr tcs) d1 else d1
            | None \<Rightarrow> d1) in case gm_get d ''function_call'' of
           Some fc \<Rightarrow> if function_call_kept fc then gm_put ''function_call'' fc out else out
         | None \<Rightarrow> out)"
    by (simp only: normalize_delta_def d1_def Let_def)
  have "gm_get (normalize_delta d) ''content'' = gm_get d1 ''content''"
      "gm_get (normalize_delta d) ''tool_calls'' = (if calls_of (JObj d) \<noteq> [] then Some (JArr (calls_of (JObj d))) else None)"
    unfolding n by (simp_all add: Let_def calls_of_def d1(2) split: option.split)
  then show "str_of ''content'' (JObj (normalize_delta d)) = str_of ''content'' (JObj d)"
      "calls_of (JObj (normalize_delta d)) = calls_of (JObj d)"
    by (auto simp: str_of_def [of _ "JObj (normalize_delta d)"] calls_of_def [of "JObj (normalize_delta d)"] arr_of_def members_def d1(1)
        split: if_splits)
qed

lemma empty_delta_reads [simp]: "calls_of (JObj []) = []" "str_of k (JObj []) = []"
  by (simp_all add: calls_of_def arr_of_def str_of_def members_def)

lemma normal_frame_reads:
  assumes "chunk_choices obj = [JObj c]"
  shows "delta_text ''content'' (normalizeFrame obj) = delta_text ''content'' obj \<and> frame_calls (normalizeFrame obj) = frame_calls obj"
proof -
  have arr: "arr_of ''choices'' (JObj obj) = Some [JObj c]"
    using assms by (simp add: chunk_choices_def split: option.splits)
  have n: "chunk_choices (normalizeFrame obj) = [JObj (normalize_choice c)]"
    unfolding chunk_choices_def by (simp add: normalizeFrame_def Let_def arr arr_of_def [of _ "JObj (gm_put _ _ _)"] members_def is_obj_def)
  have d: "obj_of ''delta'' (JObj (normalize_choice c)) = Some (case obj_of ''delta'' (JObj c) of Some d \<Rightarrow> normalize_delta d | None \<Rightarrow> [])"
    by (simp add: normalize_choice_def Let_def obj_of_def members_def)
  show ?thesis
    by (cases "obj_of ''delta'' (JObj c)")
      (simp_all add: delta_text_def frame_calls_choices n assms d choice_delta_def choice_calls_def normal_delta_reads)
qed

text \<open>What the frame normaliser sends reads like what it got, as long as no index comes a second time.\<close>

lemma strip_fresh:
  "list_all is_obj tcs \<Longrightarrow> distinct (map call_index tcs) \<Longrightarrow> set (map call_index tcs) \<inter> set seen = {} \<Longrightarrow>
   thread strip_call seen tcs = (tcs, rev (map call_index tcs) @ seen)"
  by (induction tcs arbitrary: seen) (auto simp: strip_call_def)

lemma carried:
  "\<exists>obj' n'. carry_id n False obj = Some (obj', n') \<and> gm_get obj' ''choices'' = gm_get obj ''choices'' \<and>
     toolCallSeen n' = toolCallSeen n"
  by (cases "firstID n = []"; cases "str_of ''id'' (JObj obj) = []") (simp_all add: carry_id_def Let_def)

lemma send_reads:
  assumes "chunk_choices obj = [JObj c]" and "list_all is_obj (frame_calls obj)" and "distinct (map call_index (frame_calls obj))"
    and "set (map call_index (frame_calls obj)) \<inter> set (toolCallSeen n) = {}"
  shows "delta_text ''content'' (fst (send n obj)) = delta_text ''content'' obj" and "frame_calls (fst (send n obj)) = frame_calls obj"
    and "set (toolCallSeen (snd (send n obj))) = set (map call_index (frame_calls obj)) \<union> set (toolCallSeen n)"
proof -
  obtain o1 seen where o1: "stripToolCallNames obj (toolCallSeen n) = (o1, seen)" by (metis prod.exhaust)
  have "(frame_calls o1, seen) = (frame_calls obj, rev (map call_index (frame_calls obj)) @ toolCallSeen n)"
    using strip_frame_calls [OF o1] strip_fresh [OF assms(2-4)] by (rule trans [OF sym])
  then have calls: "frame_calls o1 = frame_calls obj" "seen = rev (map call_index (frame_calls obj)) @ toolCallSeen n"
    by (simp_all only: prod.inject)
  obtain c1 where c1: "chunk_choices o1 = [JObj c1]" "str_of ''content'' (choice_delta (JObj c1)) = str_of ''content'' (choice_delta (JObj c))"
    using strip_one_choice [OF assms(1) o1, of "''content''"] by auto
  obtain o2 n2 where o2: "carry_id (n\<lparr>toolCallSeen := seen\<rparr>) False o1 = Some (o2, n2)" "gm_get o2 ''choices'' = gm_get o1 ''choices''"
      "toolCallSeen n2 = seen"
    using carried [of "n\<lparr>toolCallSeen := seen\<rparr>" o1] by auto
  have ch: "chunk_choices o2 = [JObj c1]" using chunk_choices_cong [OF o2(2)] c1(1) by simp
  have "send n obj = (normalizeFrame o2, n2)" by (simp add: send_def o1 o2(1))
  then show "delta_text ''content'' (fst (send n obj)) = delta_text ''content'' obj" "frame_calls (fst (send n obj)) = frame_calls obj"
      "set (toolCallSeen (snd (send n obj))) = set (map call_index (frame_calls obj)) \<union> set (toolCallSeen n)"
    using normal_frame_reads [OF ch] assms(1) c1 calls(1) ch by (simp_all add: delta_text_def frame_calls_choices o2(3) calls(2))
qed

text \<open>A frame that the repair builds: one choice, and no error member.\<close>

definition built :: "(string \<times> json) list \<Rightarrow> bool" where
  "built obj = (gm_get obj ''error'' = None \<and> (\<exists>c. chunk_choices obj = [JObj c]))"

lemma encoded_one:
  assumes "faithful lib" and "UnmarshalAny lib done_mark = None" and "gm_get obj ''error'' = None"
  shows "\<exists>raw t. MarshalAny lib (JObj obj) = Some raw \<and> Normalize lib n raw = Some ((t, True, False), snd (send n obj)) \<and>
    t \<noteq> [] \<and> wire_obj lib t = fst (send n obj)"
proof -
  obtain raw where raw: "MarshalAny lib (JObj obj) = Some raw" "UnmarshalAny lib raw = Some (JObj obj)"
    using assms(1) unfolding faithful_def by blast
  obtain t where t: "MarshalAny lib (JObj (fst (send n obj))) = Some t" "UnmarshalAny lib t = Some (JObj (fst (send n obj)))"
    using assms(1) unfolding faithful_def by blast
  have "raw \<noteq> done_mark" "t \<noteq> []" using raw(2) t(2) assms(1,2) by (auto simp: faithful_def)
  then show ?thesis
    using raw t assms(3) by (simp add: Normalize_def unmarshal_map_def rebuild_send wire_obj_def)
qed

lemma encoded_reads:
  assumes "faithful lib" and "UnmarshalAny lib done_mark = None"
  shows "list_all built outs \<Longrightarrow> list_all is_obj (fragments outs) \<Longrightarrow> distinct (map call_index (fragments outs)) \<Longrightarrow>
    set (map call_index (fragments outs)) \<inter> set (toolCallSeen n) = {} \<Longrightarrow>
    \<exists>frames n'. encode_frames lib n outs = Some (frames, n') \<and> text_of (map (wire_obj lib) frames) = text_of outs \<and>
      fragments (map (wire_obj lib) frames) = fragments outs \<and>
      set (toolCallSeen n') = set (map call_index (fragments outs)) \<union> set (toolCallSeen n)"
proof (induction outs arbitrary: n)
  case (Cons obj outs)
  obtain c where c: "chunk_choices obj = [JObj c]" "gm_get obj ''error'' = None" using Cons.prems(1) by (auto simp: built_def)
  have one: "list_all is_obj (frame_calls obj)" "distinct (map call_index (frame_calls obj))"
      "set (map call_index (frame_calls obj)) \<inter> set (toolCallSeen n) = {}"
    using Cons.prems(2-4) by auto
  note sent = send_reads [OF c(1) one]
  obtain t raw where t: "MarshalAny lib (JObj obj) = Some raw" "Normalize lib n raw = Some ((t, True, False), snd (send n obj))"
      "t \<noteq> []" "wire_obj lib t = fst (send n obj)"
    using encoded_one [OF assms c(2)] by blast
  have rest: "list_all built outs" "list_all is_obj (fragments outs)" "distinct (map call_index (fragments outs))"
      "set (map call_index (fragments outs)) \<inter> set (toolCallSeen (snd (send n obj))) = {}"
    using Cons.prems unfolding sent(3) by auto
  from Cons.IH [OF rest] obtain frames n' where
    "encode_frames lib (snd (send n obj)) outs = Some (frames, n')" "text_of (map (wire_obj lib) frames) = text_of outs"
    "fragments (map (wire_obj lib) frames) = fragments outs"
    "set (toolCallSeen n') = set (map call_index (fragments outs)) \<union> set (toolCallSeen (snd (send n obj)))" by blast
  with t sent show ?case by (intro exI [of _ "t # frames"] exI [of _ n']) auto
qed simp

section \<open>The frames that a step builds\<close>

lemma src_fields_error: "gm_get (src_fields src (one_choice c)) ''error'' = None"
  by (simp add: src_fields_def keep_value_get one_choice_def)

lemma built_src [simp]: "built (src_fields src (one_choice c))"
  by (simp add: built_def src_fields_error)

lemma built_frames:
  "built (markupCallFrame clock src idx call)" "built (finishOnlyFrame src f)" "built (textFrame src t)"
  by (simp_all add: markupCallFrame_def finishOnlyFrame_def textFrame_def)

lemma call_frames_built:
  "list_all built (call_frames clock src idx calls) \<and> list_all is_obj (fragments (call_frames clock src idx calls))"
  by (induction calls arbitrary: idx)
    (simp_all add: built_frames call_frame_fragments markupToolCalls_def enumerate_eq_zip is_obj_def)

lemma step_built:
  assumes "text_frame obj" and "gm_get obj ''error'' = None" and "mc_repair n = Some r" and "Enabled r"
    and "step_objects lib clock n obj = (outs, n')"
  shows "list_all built outs \<and> list_all is_obj (fragments outs) \<and> mc_normalizer n' = mc_normalizer n"
proof -
  obtain c d where c: "chunk_choices obj = [JObj c]" "obj_of ''delta'' (JObj c) = Some d" "calls_of (JObj d) = []"
    using text_frame_choice [OF assms(1)] by metis
  obtain e calls r1 where feed: "Feed lib r (str_of ''content'' (JObj d)) = (e, calls, r1)" by (metis prod.exhaust)
  let ?fin = "str_of ''finish_reason'' (JObj c)"
  obtain tail r2 where flush: "(if ?fin \<noteq> [] then Flush_markup r1 else ([], r1)) = (tail, r2)" by (metis prod.exhaust)
  let ?d = "if e @ tail = [] then gm_del ''content'' d else gm_put ''content'' (JStr (e @ tail)) d"
  have put: "calls_of (JObj ?d) = []"
    using c(3) by (auto simp: calls_of_def arr_of_def members_def gm_get_del)
  have main: "built (gm_put ''choices'' (JArr [JObj x]) obj)" for x using assms(2) by (simp add: built_def)
  have none: "frame_calls (gm_put ''choices'' (JArr [JObj x]) obj) = []" if "obj_of ''delta'' (JObj x) = Some ?d" for x
    using that put by (simp add: frame_calls_choices choice_calls_def)
  show ?thesis
    using assms(3-5) c feed flush main none
    by (cases "calls = []")
      (auto simp: step_objects_def frame_objects_def repair_objects_def Let_def finish_frame_reads built_frames call_frames_built split: if_splits)
qed

lemma flush_built:
  assumes "flush_objects n = (outs, n')"
  shows "list_all built outs \<and> fragments outs = [] \<and> mc_normalizer n' = mc_normalizer n"
  using assms
  by (auto simp: flush_objects_def Let_def built_frames text_frame_reads finish_frame_reads split: option.splits if_splits prod.splits)

section \<open>A stream\<close>

text \<open>The repair works and has seen no call index yet that it will give.\<close>

definition wire_ready :: "MarkupChunkNormalizer \<Rightarrow> bool" where
  "wire_ready n = ((\<exists>r. mc_repair n = Some r \<and> Enabled r) \<and>
     (\<forall>i\<in>set (toolCallSeen (mc_normalizer n)). i < int (mc_nextIndex n)))"

text \<open>Objects of a step, encoded: what the client reads has the same text and calls.\<close>

lemma encode_step:
  assumes "faithful lib" and "UnmarshalAny lib done_mark = None" and "wire_ready n"
    and "steps_to lib n s items outs n1" and "mc_normalizer n1 = mc_normalizer n"
    and "list_all built outs" and "list_all is_obj (fragments outs)"
  shows "\<exists>frames n'. encode_in lib (outs, n1) = Some (frames, n') \<and> steps_to lib n s items (map (wire_obj lib) frames) n' \<and>
    wire_ready n' \<and> mc_repair n' = mc_repair n1"
proof -
  obtain r r' where st: "mc_repair n = Some r" "Enabled r" "mc_repair n1 = Some r'"
      "explains lib r items s (text_of outs, map wire_call (fragments outs), r')"
      "map call_index (fragments outs) = map int [mc_nextIndex n..<mc_nextIndex n1]" "mc_nextIndex n \<le> mc_nextIndex n1"
    using assms(4) by (auto simp: steps_to_def)
  have idx: "distinct (map call_index (fragments outs))" "set (map call_index (fragments outs)) \<inter> set (toolCallSeen (mc_normalizer n1)) = {}"
    using assms(3) by (auto simp: st(5) distinct_map wire_ready_def assms(5) simp del: map_map)
  obtain frames cn where enc: "encode_frames lib (mc_normalizer n1) outs = Some (frames, cn)"
      "text_of (map (wire_obj lib) frames) = text_of outs" "fragments (map (wire_obj lib) frames) = fragments outs"
      "set (toolCallSeen cn) = set (map call_index (fragments outs)) \<union> set (toolCallSeen (mc_normalizer n1))"
    using encoded_reads [OF assms(1,2,6,7) idx] by blast
  have "Enabled r'" using explains_enabled [OF st(4)] st(2) by simp
  moreover have "i < int (mc_nextIndex n1)" if "i \<in> set (toolCallSeen cn)" for i
    using that assms(3) st(6) unfolding enc(4) st(5) by (auto simp: wire_ready_def assms(5))
  ultimately have "wire_ready (n1\<lparr>mc_normalizer := cn\<rparr>)" using st(3) by (simp add: wire_ready_def)
  moreover have "steps_to lib n s items (map (wire_obj lib) frames) (n1\<lparr>mc_normalizer := cn\<rparr>)"
    unfolding steps_to_def enc(2,3) using st by auto
  ultimately show ?thesis using enc(1) by (intro exI [of _ frames] exI [of _ "n1\<lparr>mc_normalizer := cn\<rparr>"]) (simp add: encode_in_def)
qed

text \<open>A payload of a text stream: a text frame without an error.\<close>

definition text_payload :: "json_text \<Rightarrow> string \<Rightarrow> bool" where
  "text_payload lib p = (p \<noteq> done_mark \<and>
     (\<exists>obj. UnmarshalAny lib p = Some (JObj obj) \<and> gm_get obj ''error'' = None \<and> text_frame obj))"

lemma payload_step:
  assumes "faithful lib" and "UnmarshalAny lib done_mark = None" and "wire_ready n" and "text_payload lib p"
  shows "\<exists>frames n' items. NormalizeFrames lib clock n p = Some ((frames, True, False), n') \<and>
    steps_to lib n (delta_text ''content'' (wire_obj lib p)) items (map (wire_obj lib) frames) n' \<and> wire_ready n'"
proof -
  obtain obj where obj: "p \<noteq> done_mark" "UnmarshalAny lib p = Some (JObj obj)" "gm_get obj ''error'' = None" "text_frame obj"
    using assms(4) by (auto simp: text_payload_def)
  obtain r where r: "mc_repair n = Some r" "Enabled r" using assms(3) by (auto simp: wire_ready_def)
  obtain outs n1 where st: "step_objects lib clock n obj = (outs, n1)" by (metis prod.exhaust)
  obtain items where items: "steps_to lib n (delta_text ''content'' obj) items outs n1"
    using step_text_frame [OF obj(4) r st] by blast
  have b: "list_all built outs" "list_all is_obj (fragments outs)" "mc_normalizer n1 = mc_normalizer n"
    using step_built [OF obj(4,3) r st] by simp_all
  from encode_step [OF assms(1-3) items b(3,1,2)] obtain frames n' where
    "encode_in lib (outs, n1) = Some (frames, n')"
    "steps_to lib n (delta_text ''content'' obj) items (map (wire_obj lib) frames) n'" "wire_ready n'" by blast
  then show ?thesis
    using NormalizeFrames_step [OF obj, of clock n] st obj(2) by (auto simp: wire_obj_def)
qed

text \<open>A stream with its end mark; each payload comes with the clock that the identifiers of its calls are made of.\<close>

fun wire_run :: "json_text \<Rightarrow> MarkupChunkNormalizer \<Rightarrow> ((nat \<Rightarrow> int) \<times> string) list \<Rightarrow> (string list \<times> MarkupChunkNormalizer) option" where
  "wire_run lib n [] = Some ([], n)"
| "wire_run lib n ((clock, p) # ps) = (case NormalizeFrames lib clock n p of
      None \<Rightarrow> None
    | Some ((frames, valid, d), n) \<Rightarrow> map_option (\<lambda>(rest, n). (frames @ rest, n)) (wire_run lib n ps))"

lemma payload_steps:
  assumes "faithful lib" and "UnmarshalAny lib done_mark = None"
  shows "wire_ready n \<Longrightarrow> list_all (text_payload lib) (map snd ps) \<Longrightarrow>
    \<exists>frames n1 items. steps_to lib n (text_of (map (wire_obj lib) (map snd ps))) items (map (wire_obj lib) frames) n1 \<and>
      wire_ready n1 \<and> (\<forall>more. wire_run lib n (ps @ more) = map_option (\<lambda>(rest, n). (frames @ rest, n)) (wire_run lib n1 more))"
proof (induction ps arbitrary: n)
  case Nil
  then obtain r where "mc_repair n = Some r" "Enabled r" by (auto simp: wire_ready_def)
  then have "steps_to lib n [] [] [] n" by (rule steps_to_refl)
  with Nil.prems(1) show ?case
    by (intro exI [of _ "[]"] exI [of _ n]) (auto simp: option.map_ident intro: exI [of _ "[]"])
next
  case (Cons x ps)
  obtain clock p where x: "x = (clock, p)" by force
  have p: "text_payload lib p" using Cons.prems(2) by (simp add: x)
  obtain frames n1 items where one: "NormalizeFrames lib clock n p = Some ((frames, True, False), n1)"
      "steps_to lib n (delta_text ''content'' (wire_obj lib p)) items (map (wire_obj lib) frames) n1" "wire_ready n1"
    using payload_step [OF assms Cons.prems(1) p] by blast
  obtain frames2 n2 items2 where rest: "steps_to lib n1 (text_of (map (wire_obj lib) (map snd ps))) items2 (map (wire_obj lib) frames2) n2"
      "wire_ready n2" "\<forall>more. wire_run lib n1 (ps @ more) = map_option (\<lambda>(rest, n). (frames2 @ rest, n)) (wire_run lib n2 more)"
    using Cons.IH [OF one(3)] Cons.prems(2) by auto
  from steps_to_append [OF one(2) rest(1)] show ?case
    by (intro exI [of _ "frames @ frames2"] exI [of _ n2] exI [of _ "items @ items2"])
      (simp add: x one(1) rest(2,3) option.map_comp comp_def case_prod_beta')
qed

text \<open>
  (C33) The repair of a stream of text frames loses nothing and invents nothing, on the wire: whatever payloads of text
  frames come in, \<open>NormalizeFrames\<close> returns for each of them and for the end mark, and in the frames that it gives out, as
  a client decodes them after the frame normaliser, the text is the text that the upstream sent without the
  accepted blocks, and the calls are those of these blocks, with their names and arguments, in the order of the text and
  with the consecutive indices 0, 1, 2 and so on, so that no two calls are merged by a client.
\<close>

theorem frames_conserve:
  assumes "faithful lib" and "UnmarshalAny lib done_mark = None" and "list_all (text_payload lib) (map snd ps)"
  shows "\<exists>frames n items. wire_run lib (NewMarkupChunkNormalizer decode body) (ps @ [(clock, done_mark)]) = Some (frames, n) \<and>
    concat (map raw items) = text_of (map (wire_obj lib) (map snd ps)) \<and>
    list_all (item_ok lib (ToolNameAllowlist decode body)) items \<and>
    text_of (map (wire_obj lib) frames) = concat (map shown items) \<and>
    map wire_call (fragments (map (wire_obj lib) frames)) = concat (map recovered items) \<and>
    map call_index (fragments (map (wire_obj lib) frames)) = map int [0..<length (concat (map recovered items))]"
proof -
  let ?n = "NewMarkupChunkNormalizer decode body"
  let ?r = "NewMarkupRepair (ToolNameAllowlist decode body) (ToolNameAllowlist decode body = [])"
  have r: "mc_repair ?n = Some ?r" "Enabled ?r" "mc_nextIndex ?n = 0" "mr_allowed ?r = ToolNameAllowlist decode body"
    by (simp_all add: NewMarkupChunkNormalizer_def Let_def Enabled_def NewMarkupRepair_def)
  have "wire_ready ?n" using r by (simp add: wire_ready_def) (simp add: NewMarkupChunkNormalizer_def NewChunkNormalizer_def Let_def)
  then obtain frames n1 xs where run: "steps_to lib ?n (text_of (map (wire_obj lib) (map snd ps))) xs (map (wire_obj lib) frames) n1"
      "wire_ready n1" "wire_run lib ?n (ps @ [(clock, done_mark)]) =
        map_option (\<lambda>(rest, n). (frames @ rest, n)) (wire_run lib n1 [(clock, done_mark)])"
    using payload_steps [OF assms(1,2) _ assms(3)] by blast
  obtain r1 where r1: "mc_repair n1 = Some r1" "Enabled r1" using run(2) by (auto simp: wire_ready_def)
  obtain outs n2 where fo: "flush_objects n1 = (outs, n2)" by (metis prod.exhaust)
  obtain tail r2 where fl: "steps_to lib n1 [] [Shown tail] outs n2" "mc_repair n2 = Some r2" "pending r2 = []"
    using flush_steps [OF r1 fo] by blast
  have none: "fragments outs = []" and b: "list_all built outs" "mc_normalizer n2 = mc_normalizer n1"
    using flush_built [OF fo] by blast+
  have frag: "list_all is_obj (fragments outs)" unfolding none by simp
  obtain last_frames n' where enc: "encode_in lib (outs, n2) = Some (last_frames, n')"
      "steps_to lib n1 [] [Shown tail] (map (wire_obj lib) last_frames) n'" "mc_repair n' = mc_repair n2"
    using encode_step [OF assms(1,2) run(2) fl(1) b(2,1) frag] by blast
  let ?items = "xs @ [Shown tail]" and ?objs = "map (wire_obj lib) (frames @ last_frames)"
  have all: "wire_run lib ?n (ps @ [(clock, done_mark)]) = Some (frames @ last_frames, n')"
    unfolding run(3) by (simp add: NormalizeFrames_def FlushFrames_def fo enc(1))
  from steps_to_append [OF run(1) enc(2)] r fl(2,3) enc(3)
  have ex: "explains lib ?r ?items (text_of (map (wire_obj lib) (map snd ps))) (text_of ?objs, map wire_call (fragments ?objs), r2)"
    and idx: "map call_index (fragments ?objs) = map int [0..<mc_nextIndex n']"
    by (auto simp: steps_to_def)
  have "length (map call_index (fragments ?objs)) = mc_nextIndex n'" by (simp only: idx) simp
  then have len: "length (map wire_call (fragments ?objs)) = mc_nextIndex n'" by simp
  have calls: "map wire_call (fragments ?objs) = concat (map recovered ?items)"
    using ex by (simp only: explains_def prod.case)
  have "concat (map raw ?items) = text_of (map (wire_obj lib) (map snd ps))" "text_of ?objs = concat (map shown ?items)"
      "list_all (item_ok lib (ToolNameAllowlist decode body)) ?items"
    using ex fl(3) r(4) by (simp_all only: explains_def prod.case pending_new append_Nil append_Nil2)
  moreover have "map call_index (fragments ?objs) = map int [0..<length (concat (map recovered ?items))]"
    using idx len by (simp only: calls)
  ultimately show ?thesis using calls all
    by (intro exI [of _ "frames @ last_frames"] exI [of _ n'] exI [of _ ?items] conjI)
qed

definition demo_text :: "string \<Rightarrow> (string \<times> json) list" where
  "demo_text t = [(''choices'', JArr [JObj [(''delta'', JObj [(''content'', JStr t)])]])]"

definition no_decoder :: "string \<Rightarrow> tool_request option" where
  "no_decoder body = None"

text \<open>The codec in unary, for which the end mark is no value.\<close>

definition marked_unary :: json_text where
  "marked_unary = unary\<lparr>UnmarshalAny := \<lambda>s. if s = done_mark then None else UnmarshalAny unary s\<rparr>"

lemma marked_unary_reads: "UnmarshalAny marked_unary (unary_text v) = Some v"
proof -
  have "unary_text v \<noteq> done_mark" by (simp add: unary_text_def done_mark_def)
  then show ?thesis by (simp add: marked_unary_def)
qed

lemma marked_unary_faithful: "faithful marked_unary" "UnmarshalAny marked_unary done_mark = None"
proof -
  have "UnmarshalAny marked_unary [] = None" "MarshalAny marked_unary v = Some (unary_text v)" for v
    by (simp_all add: marked_unary_def) (simp add: unary_def)
  then show "faithful marked_unary" using marked_unary_reads by (auto simp: faithful_def)
qed (simp add: marked_unary_def)

lemma frames_conserve_witness:
  "\<exists>frames n items. wire_run marked_unary (NewMarkupChunkNormalizer no_decoder [])
      [(\<lambda>_. 0, unary_text (JObj (demo_text ''a<''))), (\<lambda>_. 0, unary_text (JObj (demo_text ''b''))), (\<lambda>_. 0, done_mark)] = Some (frames, n) \<and>
    concat (map raw items) = ''a<b'' \<and> text_of (map (wire_obj marked_unary) frames) = concat (map shown items)"
proof -
  let ?ps = "[(\<lambda>_. 0 :: int, unary_text (JObj (demo_text ''a<''))), (\<lambda>_. 0, unary_text (JObj (demo_text ''b'')))]"
  have t: "text_payload marked_unary (unary_text (JObj (demo_text t)))" for t
  proof -
    have "unary_text (JObj (demo_text t)) \<noteq> done_mark" by (simp add: unary_text_def done_mark_def)
    moreover have "gm_get (demo_text t) ''error'' = None" by (simp add: demo_text_def)
    moreover have "text_frame (demo_text t)"
      by (simp add: text_frame_def demo_text_def chunk_choices_def arr_of_def members_def structured_def calls_of_def)
    ultimately show ?thesis using marked_unary_reads by (auto simp: text_payload_def)
  qed
  have w: "wire_obj marked_unary (unary_text (JObj obj)) = obj" for obj by (simp add: wire_obj_def marked_unary_reads)
  have d: "delta_text ''content'' (demo_text t) = t" for t
    by (simp add: delta_text_def demo_text_def chunk_choices_def arr_of_def members_def choice_delta_def str_of_def)
  from frames_conserve [OF marked_unary_faithful, of ?ps no_decoder "[]" "\<lambda>_. 0"] t show ?thesis by (auto simp: w d)
qed

text \<open>
  Held text is lost when the finish frame has no delta: the repair flushes its recogniser, but has
  no delta to put the text into, so that what was held back is in none of the frames that are built
  and is not held any more either.
\<close>

theorem held_text_lost:
  assumes "chunk_choices obj = [JObj c]" and "obj_of ''delta'' (JObj c) = None"
    and "str_of ''finish_reason'' (JObj c) \<noteq> []" and "mc_repair n = Some r" and "Enabled r"
    and "step_objects lib clock n obj = (outs, n')"
  shows "text_of outs = [] \<and> (\<exists>r'. mc_repair n' = Some r' \<and> pending r' = [])"
proof -
  obtain e calls r1 where feed: "Feed lib r [] = (e, calls, r1)" by (metis prod.exhaust)
  obtain tail r2 where flush: "Flush_markup r1 = (tail, r2)" by (metis prod.exhaust)
  obtain items where "explains lib r items [] (e, calls, r1)" using Feed_explained [OF assms(5)] feed by metis
  then have "Enabled r1" using explains_enabled assms(5) by blast
  then have "pending r2 = []" using flush by (auto simp: Flush_markup_def pending_def)
  have silent: "delta_text ''content'' (gm_put ''choices'' (JArr [JObj x]) o') = []"
    if "obj_of ''delta'' (JObj x) = None" for x o'
    using that by (simp add: delta_text_def choice_delta_def str_of_def members_def)
  have "text_of outs = [] \<and> mc_repair n' = Some r2"
    using assms feed flush silent
    by (auto simp: step_objects_def frame_objects_def repair_objects_def Let_def finish_frame_reads call_frames_parts
        simp del: concat_eq_Nil_conv split: if_splits)
  with \<open>pending r2 = []\<close> show ?thesis by blast
qed

lemma held_text_lost_witness:
  "let n = snd (step_objects plain_json (\<lambda>_. 0) (NewMarkupChunkNormalizer no_decoder []) (demo_text ''<''));
       fin = [(''choices'', JArr [JObj [(''finish_reason'', JStr ''stop'')]])]
   in map_option pending (mc_repair n) = Some ''<'' \<and> text_of (fst (step_objects plain_json (\<lambda>_. 0) n fin)) = []"
proof -
  let ?n = "snd (step_objects plain_json (\<lambda>_. 0) (NewMarkupChunkNormalizer no_decoder []) (demo_text ''<''))"
  let ?c = "[(''finish_reason'', JStr ''stop'')]"
  let ?fin = "[(''choices'', JArr [JObj ?c])]"
  have held: "map_option pending (mc_repair ?n) = Some ''<''" by code_simp
  have "map_option Enabled (mc_repair ?n) = Some True" by code_simp
  with held obtain r where r: "mc_repair ?n = Some r" "Enabled r" by auto
  obtain outs n' where run: "step_objects plain_json (\<lambda>_. 0) ?n ?fin = (outs, n')" by (metis prod.exhaust)
  have c: "chunk_choices ?fin = [JObj ?c]" "obj_of ''delta'' (JObj ?c) = None"
      "str_of ''finish_reason'' (JObj ?c) \<noteq> []" by code_simp+
  from held_text_lost [OF c r run] have "text_of outs = []" by (rule conjunct1)
  with held show ?thesis by (simp only: Let_def run fst_conv simp_thms)
qed

end
