(* ===== verification/Sanitize.thy ===== *)
theory Sanitize
  imports ToolPairing
begin

text \<open>
  Removing fingerprints from an outgoing request, after \<^verbatim>\<open>src/internal/upstream/sanitize.go\<close>. Text is
  bytes. The three regular expressions are deterministic: what follows a repeated class is never in
  the class, so a matcher that takes as much as it can finds the match of the Go engine; a matcher
  gets the byte before the place it looks at, for the word boundary. Under \<open>(?i)\<close> the class
  \<open>[a-z0-9_]\<close> also holds the two code points that fold to \<open>s\<close> and \<open>k\<close>.
\<close>

section \<open>Replacing\<close>

text \<open>\<open>strings.ReplaceAll\<close> for a pattern that is not empty.\<close>

function replace_all :: "string \<Rightarrow> string \<Rightarrow> string \<Rightarrow> string" where
  "replace_all s old new =
     (case s of [] \<Rightarrow> []
      | c # cs \<Rightarrow>
          if old \<noteq> [] \<and> prefix old s then new @ replace_all (drop (length old) s) old new
          else c # replace_all cs old new)"
  by pat_completeness auto
termination
  by (relation "measure (\<lambda>(s, old, new). length s)") (auto simp: less_Suc_eq_le neq_Nil_conv)

declare replace_all.simps [simp del]

text \<open>
  A matcher takes the byte before the place and the text from there, and gives what follows the match.
  \<open>ReplaceAllString\<close> for a matcher whose matches are not empty.
\<close>

type_synonym matcher = "char option \<Rightarrow> string \<Rightarrow> string option"

function replace_re :: "matcher \<Rightarrow> string \<Rightarrow> char option \<Rightarrow> string \<Rightarrow> string" where
  "replace_re m new before s =
     (case s of [] \<Rightarrow> []
      | c # cs \<Rightarrow>
          (case m before s of
             Some r \<Rightarrow>
               if length r < length s
               then new @ replace_re m new (Some (last (take (length s - length r) s))) r
               else c # replace_re m new (Some c) cs
           | None \<Rightarrow> c # replace_re m new (Some c) cs))"
  by pat_completeness auto
termination
  by (relation "measure (\<lambda>(m, new, before, s). length s)") auto

declare replace_re.simps [simp del]

fun match_re :: "matcher \<Rightarrow> char option \<Rightarrow> string \<Rightarrow> bool" where
  "match_re m before [] = (m before [] \<noteq> None)"
| "match_re m before (c # cs) = (m before (c # cs) \<noteq> None \<or> match_re m (Some c) cs)"

section \<open>The expressions\<close>

definition fold_lit :: "string \<Rightarrow> string \<Rightarrow> string option" where
  "fold_lit p s = (if length p \<le> length s \<and> EqualFold (take (length p) s) p then Some (drop (length p) s) else None)"

text \<open>\<open>[^;\n]*;?\s*\<close>\<close>

definition value_tail :: "string \<Rightarrow> string" where
  "value_tail s =
     (let r = dropWhile (\<lambda>c. c \<noteq> CHR '';'' \<and> c \<noteq> CHR 0x0A) s;
          r = (case r of CHR '';'' # r' \<Rightarrow> r' | _ \<Rightarrow> r)
      in dropWhile is_re_space r)"

definition header_key :: string where
  "header_key = ''x-anthropic-billing-header''"

definition sanitizeHdrRe :: matcher where
  "sanitizeHdrRe before s = map_option value_tail (fold_lit (header_key @ '':'') s)"

definition sanitizeBareHdrRe :: matcher where
  "sanitizeBareHdrRe before s = fold_lit header_key s"

text \<open>One element of the folded class, then as many as there are.\<close>

definition kv_element :: "string \<Rightarrow> string option" where
  "kv_element s = (case s of
      [] \<Rightarrow> None
    | c # cs \<Rightarrow>
        if word_char c then Some cs
        else if prefix [CHR 0xC5, CHR 0xBF] s then Some (drop 2 s)
        else if prefix [CHR 0xE2, CHR 0x84, CHR 0xAA] s then Some (drop 3 s)
        else None)"

fun kv_run :: "nat \<Rightarrow> string \<Rightarrow> string" where
  "kv_run 0 s = s"
| "kv_run (Suc n) s = (case kv_element s of Some r \<Rightarrow> kv_run n r | None \<Rightarrow> s)"

definition sanitizeKvRe :: matcher where
  "sanitizeKvRe before s =
     (if (case before of Some b \<Rightarrow> word_char b | None \<Rightarrow> False) then None
      else Option.bind (fold_lit ''cc_'' s) (\<lambda>s. Option.bind (kv_element s) (\<lambda>s.
        case kv_run (length s) s of CHR ''='' # r \<Rightarrow> Some (value_tail r) | _ \<Rightarrow> None)))"

section \<open>Text\<close>

definition sanitizeFeatures :: "string list" where
  "sanitizeFeatures = [''x-anthropic-billing-header'', ''cc_entrypoint='', ''You are Claude Code'',
     ''Main branch ('', ''You are a coding agent running in the Codex CLI'', ''github.com/anthropics/'', ''11128'']"

definition sanitizeRewrites :: "(string \<times> string) list" where
  "sanitizeRewrites =
    [(''You are Claude Code, Anthropic'' @ [CHR 0x27] @ ''s official CLI for Claude'',
      ''You are Claude Code, Anthropic'' @ [CHR 0x27] @ ''s official CLI tool for Claude''),
     (''Main branch (you will usually use this for PRs)'',
      ''Default branch (you will usually use this for PRs)''),
     (''You are a coding agent running in the Codex CLI, a terminal-based coding assistant.'',
      ''You are a coding agent running in the Codex CLI tool, a terminal-based coding assistant.''),
     (''To give feedback, users should report the issue at https://github.com/anthropics/claude-code/issues'',
      ''To provide feedback, users should report the issue at https://github.com/anthropics/claude-code/issues''),
     (''11128'', ''11-128'')]"

definition hasFingerprint :: "string \<Rightarrow> bool" where
  "hasFingerprint s = (list_ex (Contains s) sanitizeFeatures \<or> match_re sanitizeBareHdrRe None s)"

text \<open>Deleting matches gives a shorter text, or the text itself.\<close>

lemma replace_re_shorter:
  "replace_re m [] before s \<noteq> s \<Longrightarrow> length (replace_re m [] before s) < length s"
proof (induction s arbitrary: before rule: length_induct)
  case (1 s)
  show ?case
  proof (cases s)
    case (Cons c cs)
    show ?thesis
    proof (cases "\<exists>r. m before s = Some r \<and> length r < length s")
      case True
      then obtain r where r: "m before s = Some r" "length r < length s" by blast
      let ?b = "Some (last (take (length s - length r) s))"
      have "replace_re m [] before s = replace_re m [] ?b r"
        using r Cons by (subst replace_re.simps) simp
      moreover have "replace_re m [] ?b r = r \<or> length (replace_re m [] ?b r) < length r"
        using "1.IH" r(2) by blast
      ultimately show ?thesis using r(2) by auto
    next
      case False
      then have "replace_re m [] before s = c # replace_re m [] (Some c) cs"
        using Cons by (subst replace_re.simps) (auto split: option.splits)
      moreover have "replace_re m [] (Some c) cs = cs \<or> length (replace_re m [] (Some c) cs) < length cs"
        using "1.IH" Cons by (metis impossible_Cons linorder_not_less)
      ultimately show ?thesis using "1.prems" Cons by auto
    qed
  qed (use "1.prems" in \<open>simp add: replace_re.simps\<close>)
qed

text \<open>The loop that strips trailing key-value pairs until nothing changes.\<close>

function strip_kv :: "string \<Rightarrow> string" where
  "strip_kv s = (let t = replace_re sanitizeKvRe [] None s in if t = s then s else strip_kv t)"
  by pat_completeness auto

termination strip_kv
  by (relation "measure length") (auto intro: replace_re_shorter)

declare strip_kv.simps [simp del]

definition sanitizeText :: "string \<Rightarrow> string" where
  "sanitizeText s =
     (if \<not> hasFingerprint s then s
      else
        (let s = foldl (\<lambda>s (old, new). replace_all s old new) s sanitizeRewrites;
             s = (if match_re sanitizeHdrRe None s then replace_re sanitizeHdrRe [] None s else s);
             s = (if Contains s ''cc_'' then strip_kv s else s);
             s = replace_re sanitizeBareHdrRe ''x-anthropic-billing-hdr'' None s
         in TrimSpace s))"

section \<open>Messages\<close>

definition sanitize_part :: "json \<Rightarrow> json" where
  "sanitize_part p = (case gm_get (members p) ''text'' of
      Some (JStr t) \<Rightarrow> if sanitizeText t \<noteq> t then set_member ''text'' (JStr (sanitizeText t)) p else p
    | _ \<Rightarrow> p)"

definition sanitizeContent :: "json \<Rightarrow> json" where
  "sanitizeContent v = (case v of
      JStr c \<Rightarrow> JStr (sanitizeText c)
    | JArr ps \<Rightarrow> JArr (map sanitize_part ps)
    | _ \<Rightarrow> v)"

definition sanitize_call :: "json \<Rightarrow> json" where
  "sanitize_call call = (case obj_of ''function'' call of
      Some fn \<Rightarrow>
        (case gm_get fn ''arguments'' of
           Some (JStr args) \<Rightarrow>
             if sanitizeText args \<noteq> args
             then set_member ''function'' (JObj (gm_put ''arguments'' (JStr (sanitizeText args)) fn)) call else call
         | _ \<Rightarrow> call)
    | None \<Rightarrow> call)"

definition sanitizeToolCalls :: "json \<Rightarrow> json" where
  "sanitizeToolCalls v = (case v of JArr cs \<Rightarrow> JArr (map sanitize_call cs) | _ \<Rightarrow> v)"

text \<open>A member is stored again only when it is there.\<close>

definition update_member :: "string \<Rightarrow> (json \<Rightarrow> json) \<Rightarrow> json \<Rightarrow> json" where
  "update_member k f m = (case gm_get (members m) k of Some v \<Rightarrow> set_member k (f v) m | None \<Rightarrow> m)"

definition sanitize_reasoning :: "json \<Rightarrow> json" where
  "sanitize_reasoning v = (case v of JStr rc \<Rightarrow> JStr (sanitizeText rc) | _ \<Rightarrow> v)"

definition sanitize_message :: "json \<Rightarrow> json" where
  "sanitize_message m =
     (if is_obj m
      then update_member ''tool_calls'' sanitizeToolCalls
        (update_member ''reasoning_content'' sanitize_reasoning (update_member ''content'' sanitizeContent m))
      else m)"

definition sanitizeMessages :: "json list \<Rightarrow> json list" where
  "sanitizeMessages ms = map sanitize_message ms"

end
