(* ===== verification/Sanitize_Props.thy ===== *)
theory Sanitize_Props
  imports Sanitize
begin

text \<open>
  The properties of the text sanitiser: the header name is gone whatever the text was, and two texts
  on which the order of the steps, or their reach, defeats the purpose.
\<close>

section \<open>Replacing a string that cannot grow back\<close>

lemma replace_all_nil [simp]: "replace_all [] old new = []"
  by (simp add: replace_all.simps)

lemma replace_all_hit:
  "old \<noteq> [] \<Longrightarrow> prefix old s \<Longrightarrow> replace_all s old new = new @ replace_all (drop (length old) s) old new"
  by (cases s; subst replace_all.simps) simp_all

lemma replace_all_miss: "\<not> prefix old (c # cs) \<Longrightarrow> replace_all (c # cs) old new = c # replace_all cs old new"
  by (simp add: replace_all.simps [of "c # cs"])

text \<open>As long as the first byte of the replacement does not come, nothing has been replaced.\<close>

lemma replace_all_prefix:
  "prefix p (replace_all s old (x # new)) \<Longrightarrow> x \<notin> set p \<Longrightarrow> prefix p s"
proof (induction p arbitrary: s)
  case (Cons y p)
  show ?case
  proof (cases s)
    case (Cons c cs)
    show ?thesis
    proof (cases "old \<noteq> [] \<and> prefix old s")
      case True
      then show ?thesis using Cons.prems replace_all_hit [of old s "x # new"] by simp
    next
      case False
      then have "replace_all s old (x # new) = c # replace_all cs old (x # new)"
        by (subst replace_all.simps) (auto simp: Cons)
      with Cons.prems Cons.IH [of cs] show ?thesis by (simp add: Cons)
    qed
  qed (use Cons.prems in simp)
qed simp

lemma no_match_inside: "x \<notin> set u \<Longrightarrow> Contains (u @ v) (x # k) \<Longrightarrow> Contains v (x # k)"
  by (induction u) auto

text \<open>
  A key and a replacement that begin with the same byte, which occurs nowhere else in them, and of
  which none is a prefix of the other: the key is gone after the replacement.
\<close>

lemma replace_all_removes:
  assumes "x \<notin> set k" and "x \<notin> set n" and "\<And>r. \<not> prefix k (n @ r)"
  shows "\<not> Contains (replace_all s (x # k) (x # n)) (x # k)"
proof (induction s rule: length_induct)
  case (1 s)
  show ?case
  proof (cases s)
    case (Cons c cs)
    show ?thesis
    proof (cases "prefix (x # k) s")
      case True
      let ?r = "replace_all (drop (length (x # k)) s) (x # k) (x # n)"
      have "\<not> Contains ?r (x # k)" using "1.IH" Cons by simp
      then have "\<not> Contains (n @ ?r) (x # k)" using no_match_inside [OF assms(2)] by blast
      moreover have "\<not> prefix (x # k) (x # n @ ?r)" using assms(3) by simp
      ultimately show ?thesis using replace_all_hit [OF _ True, of "x # n"] by simp
    next
      case False
      let ?r = "replace_all cs (x # k) (x # n)"
      have "\<not> Contains ?r (x # k)" using "1.IH" Cons by simp
      moreover have "\<not> prefix (x # k) (c # ?r)"
        using False Cons replace_all_prefix [of k cs "x # k" x n] assms(1) by auto
      ultimately show ?thesis using replace_all_miss False Cons by simp
    qed
  qed simp
qed

section \<open>Case folding\<close>

lemma fold_lit_lower: "ToLower p = p \<Longrightarrow> fold_lit p s = (if prefix p (ToLower s) then Some (drop (length p) s) else None)"
proof -
  assume "ToLower p = p"
  moreover have "prefix p t \<longleftrightarrow> length p \<le> length t \<and> take (length p) t = p" for t
    by (auto simp: prefix_def) (metis append_take_drop_id)
  ultimately show ?thesis by (auto simp: fold_lit_def EqualFold_def ToLower_def take_map)
qed

lemma key_lower [simp]: "ToLower header_key = header_key"
  by code_simp

lemma match_bare: "match_re sanitizeBareHdrRe b s = Contains (ToLower s) header_key"
proof (induction s arbitrary: b)
  case Nil
  then show ?case by (simp add: sanitizeBareHdrRe_def fold_lit_def header_key_def ToLower_def)
next
  case (Cons c cs)
  then show ?case by (simp add: sanitizeBareHdrRe_def fold_lit_lower) (simp add: ToLower_def)
qed

lemma replace_bare_lower:
  assumes "ToLower new = new"
  shows "ToLower (replace_re sanitizeBareHdrRe new b s) = replace_all (ToLower s) header_key new"
proof (induction s arbitrary: b rule: length_induct)
  case (1 s)
  have ne: "header_key \<noteq> []" by (simp add: header_key_def)
  show ?case
  proof (cases s)
    case (Cons c cs)
    show ?thesis
    proof (cases "prefix header_key (ToLower s)")
      case True
      let ?r = "drop (length header_key) s"
      have r: "length ?r < length s" using Cons ne by (cases header_key) auto
      have "replace_re sanitizeBareHdrRe new b s = new @ replace_re sanitizeBareHdrRe new
          (Some (last (take (length s - length ?r) s))) ?r"
        using Cons True r by (subst replace_re.simps) (simp add: sanitizeBareHdrRe_def fold_lit_lower)
      moreover have "replace_all (ToLower s) header_key new = new @ replace_all (ToLower ?r) header_key new"
        using replace_all_hit [OF ne True] by (simp add: ToLower_def drop_map)
      ultimately show ?thesis using "1.IH" r assms by (simp add: ToLower_def)
    next
      case False
      then have "replace_re sanitizeBareHdrRe new b s = c # replace_re sanitizeBareHdrRe new (Some c) cs"
        using Cons by (subst replace_re.simps) (simp add: sanitizeBareHdrRe_def fold_lit_lower)
      moreover have "replace_all (ToLower s) header_key new = lower_char c # replace_all (ToLower cs) header_key new"
        using replace_all_miss [of header_key "lower_char c" "ToLower cs"] False Cons by (simp add: ToLower_def)
      ultimately show ?thesis using "1.IH" Cons by (simp add: ToLower_def)
    qed
  qed (simp add: replace_re.simps ToLower_def)
qed

lemma Contains_trim: "Contains (ToLower (TrimSpace s)) k \<Longrightarrow> Contains (ToLower s) k"
proof -
  have "\<exists>u v. s = u @ TrimSpace s @ v"
  proof -
    let ?t = "dropWhile is_space s"
    have "s = takeWhile is_space s @ ?t" by simp
    moreover have "?t = TrimSpace s @ rev (takeWhile is_space (rev ?t))"
      unfolding TrimSpace_def by (metis rev_append rev_rev_ident takeWhile_dropWhile_id)
    ultimately show ?thesis by metis
  qed
  then obtain u v where "ToLower s = ToLower u @ ToLower (TrimSpace s) @ ToLower v"
    by (metis ToLower_def map_append)
  then show "Contains (ToLower (TrimSpace s)) k \<Longrightarrow> Contains (ToLower s) k"
    unfolding Contains_append by (metis append.assoc)
qed

section \<open>Properties\<close>

text \<open>
  A sanitised text never contains the name of the billing header, in whatever capitalisation and
  surroundings it stood and whatever the earlier steps removed around it.
\<close>

theorem sanitized_no_header: "\<not> Contains (ToLower (sanitizeText s)) header_key"
proof (cases "hasFingerprint s")
  case False
  then show ?thesis by (simp add: sanitizeText_def hasFingerprint_def match_bare)
next
  case True
  let ?new = "''x-anthropic-billing-hdr''"
  have lower: "ToLower ?new = ?new" by code_simp
  have "\<not> Contains (replace_all u header_key ?new) header_key" for u
    using replace_all_removes [of "CHR ''x''" "tl header_key" "tl ?new" u] by (simp add: header_key_def)
  then have gone: "\<not> Contains (ToLower (replace_re sanitizeBareHdrRe ?new None t)) header_key" for t
    by (simp only: replace_bare_lower [OF lower]) simp
  have "\<exists>t. sanitizeText s = TrimSpace (replace_re sanitizeBareHdrRe ?new None t)"
    unfolding sanitizeText_def Let_def using True by (simp only: simp_thms if_False) (rule exI, rule refl)
  then show ?thesis using gone Contains_trim by metis
qed

text \<open>The stages of the sanitiser, for evaluating it on a concrete text.\<close>

lemma sanitize_stages:
  assumes "hasFingerprint s" and "foldl (\<lambda>s (old, new). replace_all s old new) s sanitizeRewrites = a"
    and "(if match_re sanitizeHdrRe None a then replace_re sanitizeHdrRe [] None a else a) = b"
    and "\<not> Contains b ''cc_''" and "replace_re sanitizeBareHdrRe ''x-anthropic-billing-hdr'' None b = c"
  shows "sanitizeText s = TrimSpace c"
  using assms by (simp only: sanitizeText_def Let_def simp_thms if_True if_False)

text \<open>
  Sanitising can put back together what an earlier step has taken apart: the error code is
  rewritten before the header is deleted, so a header between its digits leaves the bare code in the
  result, which the upstream rejects; a second run would rewrite it.
\<close>

theorem sanitize_recreates_code:
  "sanitizeText ''111x-anthropic-billing-header:v;28'' = ''11128'' \<and> sanitizeText ''11128'' = ''11-128''"
proof
  have "sanitizeText ''111x-anthropic-billing-header:v;28'' = TrimSpace ''11128''"
    by (rule sanitize_stages [of _ "''111x-anthropic-billing-header:v;28''" "''11128''"]; code_simp)
  then show "sanitizeText ''111x-anthropic-billing-header:v;28'' = ''11128''" by (simp add: TrimSpace_def is_space_def)
  have "sanitizeText ''11128'' = TrimSpace ''11-128''"
    by (rule sanitize_stages [of _ "''11-128''" "''11-128''"]; code_simp)
  then show "sanitizeText ''11128'' = ''11-128''" by (simp add: TrimSpace_def is_space_def)
qed

definition demo_arguments :: string where
  "demo_arguments = [CHR 0x7B, CHR 0x22] @ ''h'' @ [CHR 0x22] @ '':'' @ [CHR 0x22] @ ''x-anthropic-billing-header: 1''
     @ [CHR 0x22, CHR 0x7D]"

text \<open>
  Sanitising the arguments of a tool call can leave text that is not JSON any more: the header is
  deleted up to the next semicolon or the end of the line, closing quotes and braces included.
\<close>

theorem sanitize_cuts_arguments:
  "sanitizeText demo_arguments = [CHR 0x7B, CHR 0x22] @ ''h'' @ [CHR 0x22] @ '':'' @ [CHR 0x22]"
proof -
  let ?cut = "[CHR 0x7B, CHR 0x22] @ ''h'' @ [CHR 0x22] @ '':'' @ [CHR 0x22]"
  have "sanitizeText demo_arguments = TrimSpace ?cut"
    by (rule sanitize_stages [of _ demo_arguments ?cut]; code_simp)
  then show ?thesis by (simp add: TrimSpace_def is_space_def)
qed

end
