(* ===== verification/Payload.thy ===== *)
theory Payload
  imports Sanitize Sse
begin

text \<open>
  Rewriting an outgoing request body, after \<^verbatim>\<open>src/internal/upstream/payload.go\<close>,
  \<^verbatim>\<open>src/internal/upstream/thinking.go\<close> and \<^verbatim>\<open>src/internal/upstream/cache_key.go\<close>. A body is the members
  of its decoded object; the code changes nested objects in place, which no other part of the body
  shares. Numbers are rationals; \<open>int64(v)\<close> of a number outside the range is the least value, as on
  amd64. Log lines are left out. A \<open>range\<close> over a map goes in the order of the list.
\<close>

type_synonym body = "(string \<times> json) list"

definition has_key :: "string \<Rightarrow> body \<Rightarrow> bool" where
  "has_key k obj = (gm_get obj k \<noteq> None)"

definition str_in :: "body \<Rightarrow> string \<Rightarrow> string" where
  "str_in obj k = str_of k (JObj obj)"

definition int64_of :: "rat \<Rightarrow> int" where
  "int64_of v = (if - (2 ^ 63) \<le> trunc_rat v \<and> trunc_rat v < 2 ^ 63 then trunc_rat v else - (2 ^ 63))"

section \<open>Token limits\<close>

definition translateMaxCompletionTokens :: "body \<Rightarrow> body" where
  "translateMaxCompletionTokens obj =
     (let rest = gm_del ''max_completion_tokens'' obj in
      case gm_get obj ''max_completion_tokens'' of
        None \<Rightarrow> rest
      | Some alias \<Rightarrow>
          if has_key ''max_tokens'' rest then rest
          else (case alias of
              JNum v \<Rightarrow> if v > 0 \<and> v = of_int (int64_of v) then gm_put ''max_tokens'' (JNum (of_int (int64_of v))) rest else rest
            | _ \<Rightarrow> rest))"

definition gptMinMaxTokens :: int where
  "gptMinMaxTokens = 16"

definition clampGPTMinMaxTokens :: "body \<Rightarrow> body" where
  "clampGPTMinMaxTokens obj =
     (if \<not> Contains (ToLower (str_in obj ''model'')) ''gpt-'' then obj
      else case gm_get obj ''max_tokens'' of
        Some (JNum n) \<Rightarrow> if int64_of n < gptMinMaxTokens then gm_put ''max_tokens'' (JNum (of_int gptMinMaxTokens)) obj else obj
      | _ \<Rightarrow> obj)"

section \<open>Tools\<close>

definition no_tools :: "body \<Rightarrow> body" where
  "no_tools obj = gm_del ''functions'' (gm_del ''tools'' (gm_del ''tool_choice'' obj))"

definition choice_name :: "body \<Rightarrow> string" where
  "choice_name v =
     (let name = (case obj_of ''function'' (JObj v) of Some fn \<Rightarrow> str_in fn ''name'' | None \<Rightarrow> []);
          name = (if name = [] then str_in v ''name'' else name)
      in TrimSpace name)"

definition normalizeToolChoice :: "body \<Rightarrow> body" where
  "normalizeToolChoice obj = (case gm_get obj ''tool_choice'' of
      None \<Rightarrow> obj
    | Some (JStr v) \<Rightarrow> if EqualFold (TrimSpace v) ''none'' then no_tools obj else obj
    | Some (JObj v) \<Rightarrow>
        (let typ = ToLower (TrimSpace (str_in v ''type'')) in
         if typ = ''none'' then no_tools obj
         else if typ = ''auto'' \<or> typ = ''required'' then gm_put ''tool_choice'' (JStr typ) obj
         else if typ = ''function''
         then gm_put ''tool_choice'' (JStr (if choice_name v \<noteq> [] then choice_name v else ''auto'')) obj
         else gm_del ''tool_choice'' obj)
    | Some _ \<Rightarrow> gm_del ''tool_choice'' obj)"

text \<open>The escape \<open>\_\<close>, which the upstream rejects.\<close>

definition esc :: string where
  "esc = [CHR 0x5C, CHR ''_'']"

definition unescape :: "string \<Rightarrow> string" where
  "unescape s = replace_all s esc ''_''"

definition fix_pattern :: "body \<Rightarrow> body" where
  "fix_pattern n = (case gm_get n ''pattern'' of
      Some (JStr p) \<Rightarrow> if Contains p esc then gm_put ''pattern'' (JStr (unescape p)) n else n
    | _ \<Rightarrow> n)"

definition fix_properties :: "body \<Rightarrow> body" where
  "fix_properties n = (case obj_of ''patternProperties'' (JObj n) of
      Some props \<Rightarrow>
        if list_ex (\<lambda>(k, v). Contains k esc) props
        then gm_put ''patternProperties'' (JObj (foldl (\<lambda>fixed (k, v).
               gm_put (if Contains k esc then unescape k else k) v fixed) [] props)) n
        else n
    | None \<Rightarrow> n)"

text \<open>The nesting depth, which none of the two changes increases.\<close>

fun depth :: "json \<Rightarrow> nat" where
  "depth (JArr xs) = Suc (foldr max (map depth xs) 0)"
| "depth (JObj fs) = Suc (foldr max (map (\<lambda>(k, v). depth v) fs) 0)"
| "depth _ = 0"

lemma foldr_max_le: "foldr max xs (0 :: nat) \<le> n \<longleftrightarrow> (\<forall>x\<in>set xs. x \<le> n)"
  by (induction xs) auto

lemma depth_obj_le: "depth (JObj fs) \<le> Suc n \<longleftrightarrow> (\<forall>(k, v)\<in>set fs. depth v \<le> n)"
  by (auto simp: foldr_max_le)

lemma depth_arr_le: "depth (JArr xs) \<le> Suc n \<longleftrightarrow> (\<forall>v\<in>set xs. depth v \<le> n)"
  by (auto simp: foldr_max_le)

lemma set_update: "set (gm_put k v m) \<subseteq> insert (k, v) (set m)"
  by (induction m) auto

lemma depth_put: "depth (JObj fs) \<le> Suc n \<Longrightarrow> depth v \<le> n \<Longrightarrow> depth (JObj (gm_put k v fs)) \<le> Suc n"
  using set_update [of k v fs] unfolding depth_obj_le by fastforce

lemma depth_get: "depth (JObj fs) \<le> Suc n \<Longrightarrow> gm_get fs k = Some v \<Longrightarrow> depth v \<le> n"
  unfolding depth_obj_le by (auto dest: map_of_SomeD)

lemma depth_fix_pattern: "depth (JObj n) \<le> Suc k \<Longrightarrow> depth (JObj (fix_pattern n)) \<le> Suc k"
  by (auto simp: fix_pattern_def simp del: depth.simps(2) split: option.splits json.splits intro!: depth_put)

lemma depth_rename:
  "depth (JObj props) \<le> Suc n \<Longrightarrow> depth (JObj acc) \<le> Suc n \<Longrightarrow>
   depth (JObj (foldl (\<lambda>fixed (k, v). gm_put (f k) v fixed) acc props)) \<le> Suc n"
proof (induction props arbitrary: acc)
  case (Cons x props)
  obtain k v where x: "x = (k, v)" by force
  have "depth v \<le> n" "depth (JObj props) \<le> Suc n" using Cons.prems(1) by (auto simp: x depth_obj_le simp del: depth.simps)
  with Cons.IH [of "gm_put (f k) v acc"] depth_put [OF Cons.prems(2)] show ?case by (simp add: x)
qed simp

lemma depth_fix_properties: "depth (JObj n) \<le> Suc k \<Longrightarrow> depth (JObj (fix_properties n)) \<le> Suc k"
proof (cases "obj_of ''patternProperties'' (JObj n)")
  case (Some props)
  assume d: "depth (JObj n) \<le> Suc k"
  have "gm_get n ''patternProperties'' = Some (JObj props)"
    using Some by (auto simp: obj_of_def members_def split: option.splits json.splits)
  from depth_get [OF d this] obtain j where j: "k = Suc j" "depth (JObj props) \<le> Suc j"
    by (cases k) auto
  have "depth (JObj (foldl (\<lambda>fixed (k, v). gm_put (if Contains k esc then unescape k else k) v fixed) [] props)) \<le> Suc j"
    by (rule depth_rename [OF j(2)]) simp
  with d Some depth_put [OF d] j(1) show ?thesis by (simp add: fix_properties_def del: depth.simps)
qed (simp add: fix_properties_def)

function unescapePatternLiteralEscapes :: "json \<Rightarrow> json" where
  "unescapePatternLiteralEscapes (JObj n) =
     JObj (map (\<lambda>(k, v). (k, unescapePatternLiteralEscapes v)) (fix_properties (fix_pattern n)))"
| "unescapePatternLiteralEscapes (JArr xs) = JArr (map unescapePatternLiteralEscapes xs)"
| "unescapePatternLiteralEscapes JNull = JNull"
| "unescapePatternLiteralEscapes (JBool b) = JBool b"
| "unescapePatternLiteralEscapes (JNum v) = JNum v"
| "unescapePatternLiteralEscapes (JStr s) = JStr s"
  by pat_completeness auto
termination
proof (relation "measure depth", goal_cases)
  case (2 n kv k v)
  obtain j where "depth (JObj n) = Suc j" by simp
  then have "depth (JObj (fix_properties (fix_pattern n))) \<le> Suc j"
    by (intro depth_fix_properties depth_fix_pattern) simp
  with 2 have "depth v \<le> j" by (auto simp: depth_obj_le simp del: depth.simps)
  with \<open>depth (JObj n) = Suc j\<close> show ?case by simp
next
  case (3 xs x)
  then show ?case using depth_arr_le [of xs "foldr max (map depth xs) 0"] by (auto simp: less_Suc_eq_le)
qed simp

definition fix_parameters :: "json \<Rightarrow> json" where
  "fix_parameters m = update_member ''parameters'' unescapePatternLiteralEscapes m"

definition fix_tool :: "json \<Rightarrow> json" where
  "fix_tool tool =
     (let tool = (case obj_of ''function'' tool of
           Some fn \<Rightarrow> set_member ''function'' (fix_parameters (JObj fn)) tool
         | None \<Rightarrow> tool)
      in fix_parameters tool)"

definition normalizeToolPatterns :: "body \<Rightarrow> body" where
  "normalizeToolPatterns obj = (case arr_of ''tools'' (JObj obj) of
      Some tools \<Rightarrow> gm_put ''tools'' (JArr (map fix_tool tools)) obj
    | None \<Rightarrow> obj)"

section \<open>Messages\<close>

definition map_messages :: "(json \<Rightarrow> json) \<Rightarrow> body \<Rightarrow> body" where
  "map_messages f obj = (case arr_of ''messages'' (JObj obj) of
      Some msgs \<Rightarrow> gm_put ''messages'' (JArr (map f msgs)) obj
    | None \<Rightarrow> obj)"

definition image_part :: "json \<Rightarrow> json" where
  "image_part part =
     (if gm_get (members part) ''type'' = Some (JStr ''image_url'') \<and> str_of ''image_url'' part \<noteq> []
      then set_member ''image_url'' (JObj [(''url'', JStr (str_of ''image_url'' part))]) part else part)"

definition image_message :: "json \<Rightarrow> json" where
  "image_message msg = (case arr_of ''content'' msg of
      Some parts \<Rightarrow> set_member ''content'' (JArr (map image_part parts)) msg
    | None \<Rightarrow> msg)"

definition normalizeImageURL :: "body \<Rightarrow> body" where
  "normalizeImageURL obj = map_messages image_message obj"

definition role_message :: "json \<Rightarrow> json" where
  "role_message msg =
     (if EqualFold (TrimSpace (str_of ''role'' msg)) ''developer'' then set_member ''role'' (JStr ''system'') msg else msg)"

definition normalizeRoles :: "body \<Rightarrow> body" where
  "normalizeRoles obj = map_messages role_message obj"

definition pair_tools :: "json list \<Rightarrow> json list" where
  "pair_tools msgs = fst (cleanupOrphanToolCalls (fst (repackToolResultBlocks (fst (mergeAdjacentToolCalls msgs)))))"

definition pair_messages :: "body \<Rightarrow> body" where
  "pair_messages obj = (case arr_of ''messages'' (JObj obj) of
      Some msgs \<Rightarrow> gm_put ''messages'' (JArr (pair_tools msgs)) obj
    | None \<Rightarrow> obj)"

section \<open>Thinking\<close>

definition defaultDeepSeekEffort :: string where
  "defaultDeepSeekEffort = ''high''"

definition lookupDefaultEffort :: "(string, string) gomap \<Rightarrow> string \<Rightarrow> string" where
  "lookupDefaultEffort defaultEfforts model =
     (if defaultEfforts = [] \<or> model = [] then []
      else case gm_get defaultEfforts model of Some e \<Rightarrow> e | None \<Rightarrow> [])"

definition isDeepSeekModel :: "string \<Rightarrow> bool" where
  "isDeepSeekModel model = HasPrefix (ToLower (TrimSpace model)) ''deepseek''"

definition ensureDeepSeekEffort :: "string \<Rightarrow> body \<Rightarrow> body" where
  "ensureDeepSeekEffort defaultEffort obj =
     (if has_key ''reasoning_effort'' obj \<or> has_key ''reasoningEffort'' obj then obj
      else gm_put ''reasoning_effort'' (JStr (if defaultEffort = [] then defaultDeepSeekEffort else defaultEffort)) obj)"

definition thinking_type :: "body \<Rightarrow> string" where
  "thinking_type obj = (case obj_of ''thinking'' (JObj obj) of
      Some th \<Rightarrow> TrimSpace (str_in th ''type'') | None \<Rightarrow> [])"

definition injectThinking :: "string \<Rightarrow> body \<Rightarrow> body" where
  "injectThinking defaultEffort obj =
     (if \<not> isDeepSeekModel (str_in obj ''model'') then obj
      else if thinking_type obj \<noteq> [] then
        (if EqualFold (thinking_type obj) ''disabled''
         then gm_del ''reasoningEffort'' (gm_del ''reasoning_effort'' obj)
         else ensureDeepSeekEffort defaultEffort obj)
      else ensureDeepSeekEffort defaultEffort
        (case obj_of ''thinking'' (JObj obj) of
           None \<Rightarrow> gm_put ''thinking'' (JObj [(''type'', JStr ''enabled'')]) obj
         | Some th \<Rightarrow> gm_put ''thinking'' (JObj (gm_put ''type'' (JStr ''enabled'') th)) obj))"

definition is_str :: "string \<Rightarrow> json \<Rightarrow> bool" where
  "is_str k m = (case gm_get (members m) k of Some (JStr s) \<Rightarrow> True | _ \<Rightarrow> False)"

definition has_trace :: "json \<Rightarrow> bool" where
  "has_trace msg = (is_obj msg \<and> (str_of ''reasoning'' msg \<noteq> [] \<or> gm_get (members msg) ''reasoning_content'' \<noteq> None))"

definition backfill_message :: "json \<Rightarrow> json" where
  "backfill_message msg =
     (if \<not> is_obj msg \<or> str_of ''role'' msg \<noteq> ''assistant'' then msg
      else
        (let rc = (if is_str ''reasoning_content'' msg then str_of ''reasoning_content'' msg else str_of ''reasoning'' msg);
             msg = (if is_str ''reasoning_content'' msg then msg else set_member ''reasoning_content'' (JStr rc) msg)
         in if str_of ''reasoning'' msg \<noteq> [] then msg
            else set_member ''reasoning'' (JStr (if rc \<noteq> [] then rc else '' '')) msg))"

definition backfillReasoningContent :: "body \<Rightarrow> body" where
  "backfillReasoningContent obj =
     (if \<not> isDeepSeekModel (str_in obj ''model'') then obj
      else case arr_of ''messages'' (JObj obj) of
        None \<Rightarrow> obj
      | Some msgs \<Rightarrow>
          if msgs = [] \<or> (\<not> EqualFold (thinking_type obj) ''enabled'' \<and> \<not> list_ex has_trace msgs) then obj
          else gm_put ''messages'' (JArr (map backfill_message msgs)) obj)"

section \<open>Effort\<close>

definition effortRank :: "(string \<times> nat) list" where
  "effortRank = [(''off'', 0), (''minimal'', 1), (''low'', 2), (''medium'', 3), (''high'', 4), (''xhigh'', 5), (''max'', 6)]"

definition rank_of :: "string \<Rightarrow> nat option" where
  "rank_of s = gm_get effortRank (TrimSpace (ToLower s))"

text \<open>The best supported level not above the request, and the lowest one; the last argument is the best so far.\<close>

fun best_below :: "nat \<Rightarrow> string list \<Rightarrow> (string \<times> nat) option \<Rightarrow> (string \<times> nat) option" where
  "best_below req [] b = b"
| "best_below req (s # ss) b = best_below req ss (case rank_of s of
      Some i \<Rightarrow> if i \<le> req \<and> (case b of None \<Rightarrow> True | Some (_, j) \<Rightarrow> i > j) then Some (s, i) else b
    | None \<Rightarrow> b)"

fun lowest_level :: "string list \<Rightarrow> (string \<times> nat) option \<Rightarrow> (string \<times> nat) option" where
  "lowest_level [] b = b"
| "lowest_level (s # ss) b = lowest_level ss (case rank_of s of
      Some i \<Rightarrow> if (case b of None \<Rightarrow> True | Some (_, j) \<Rightarrow> i < j) then Some (s, i) else b
    | None \<Rightarrow> b)"

definition effort_key :: "body \<Rightarrow> string option" where
  "effort_key obj = (if has_key ''reasoning_effort'' obj then Some ''reasoning_effort''
     else if has_key ''reasoningEffort'' obj then Some ''reasoningEffort'' else None)"

text \<open>The level that is sent for a requested one; \<open>None\<close> leaves the request as it is.\<close>

definition chosen_effort :: "string list \<Rightarrow> string \<Rightarrow> string option" where
  "chosen_effort supported req = (case rank_of req of
      None \<Rightarrow> None
    | Some r \<Rightarrow>
        (case best_below r supported None of
           Some (best, _) \<Rightarrow> if EqualFold best (TrimSpace (ToLower req)) then None else Some best
         | None \<Rightarrow> map_option fst (lowest_level supported None)))"

definition normalizeReasoningEffort :: "(string, string list) gomap \<Rightarrow> body \<Rightarrow> body" where
  "normalizeReasoningEffort efforts obj =
     (let model = str_in obj ''model'' in
      if efforts = [] \<or> model = [] then obj
      else case gm_get efforts model of
        None \<Rightarrow> obj
      | Some supported \<Rightarrow>
          if supported = [] then obj
          else case effort_key obj of
            None \<Rightarrow> obj
          | Some key \<Rightarrow>
              (case gm_get obj key of
                 Some (JStr req) \<Rightarrow>
                   (case chosen_effort supported req of Some e \<Rightarrow> gm_put key (JStr e) obj | None \<Rightarrow> obj)
               | _ \<Rightarrow> obj))"

section \<open>The body\<close>

definition prepare_obj :: "bool \<Rightarrow> (string, string list) gomap \<Rightarrow> (string, string) gomap \<Rightarrow> body \<Rightarrow> body" where
  "prepare_obj sanitize efforts defaultEfforts obj =
     (let obj = gm_put ''stream'' (JBool True) obj;
          obj = clampGPTMinMaxTokens (translateMaxCompletionTokens obj);
          obj = (if has_key ''stream_options'' obj then obj
                 else gm_put ''stream_options'' (JObj [(''include_usage'', JBool True)]) obj);
          obj = normalizeRoles (normalizeImageURL (normalizeToolPatterns (normalizeToolChoice obj)));
          obj = pair_messages obj;
          obj = injectThinking (lookupDefaultEffort defaultEfforts (str_in obj ''model'')) obj;
          obj = backfillReasoningContent (normalizeReasoningEffort efforts obj)
      in if sanitize then map_messages sanitize_message obj else obj)"

text \<open>\<open>None\<close> is a panic: the body \<open>null\<close> decodes to a nil map, into which a key is stored.\<close>

definition PrepareBodyOptWithEffortsAndDefault ::
  "json_text \<Rightarrow> string \<Rightarrow> bool \<Rightarrow> (string, string list) gomap \<Rightarrow> (string, string) gomap \<Rightarrow> string option" where
  "PrepareBodyOptWithEffortsAndDefault lib src sanitize efforts defaultEfforts =
     (if src = [] then Some src
      else case unmarshal_map lib src of
        DecodeError \<Rightarrow> Some src
      | NilMap \<Rightarrow> None
      | Decoded obj \<Rightarrow> Some (case MarshalAny lib (JObj (prepare_obj sanitize efforts defaultEfforts obj)) of
            Some out \<Rightarrow> out | None \<Rightarrow> src))"

definition PrepareBodyOptWithEfforts :: "json_text \<Rightarrow> string \<Rightarrow> bool \<Rightarrow> (string, string list) gomap \<Rightarrow> string option" where
  "PrepareBodyOptWithEfforts lib src sanitize efforts = PrepareBodyOptWithEffortsAndDefault lib src sanitize efforts []"

definition PrepareBodyOpt :: "json_text \<Rightarrow> string \<Rightarrow> bool \<Rightarrow> string option" where
  "PrepareBodyOpt lib src sanitize = PrepareBodyOptWithEffortsAndDefault lib src sanitize [] []"

definition console_system :: json where
  "console_system = JObj [(''role'', JStr ''system''), (''content'', JStr ''You are a helpful assistant.'')]"

definition ensureConsoleSystem :: "json_text \<Rightarrow> string \<Rightarrow> string" where
  "ensureConsoleSystem lib body = (if body = [] then body else case unmarshal_map lib body of
      Decoded obj \<Rightarrow>
        (case arr_of ''messages'' (JObj obj) of
           Some (first # msgs) \<Rightarrow>
             if EqualFold (TrimSpace (str_of ''role'' first)) ''system'' then body
             else (case MarshalAny lib (JObj (gm_put ''messages'' (JArr (console_system # first # msgs)) obj)) of
                 Some out \<Rightarrow> out | None \<Rightarrow> body)
         | _ \<Rightarrow> body)
    | _ \<Rightarrow> body)"

section \<open>The cache key\<close>

text \<open>The hash, the first 16 bytes of SHA-256 in hexadecimal, is an argument.\<close>

definition buildCacheKey :: "(string \<Rightarrow> string) \<Rightarrow> string \<Rightarrow> string \<Rightarrow> string" where
  "buildCacheKey hash uid conversation =
     (let uid8 = take 8 uid; uid8 = (if uid8 = [] then ''-'' else uid8)
      in ''wb2a-'' @ uid8 @ ''-'' @ hash (uid @ ''|'' @ conversation))"

definition strField :: "body \<Rightarrow> string \<Rightarrow> string" where
  "strField obj key = TrimSpace (str_in obj key)"

definition cache_conversation :: "body \<Rightarrow> string \<Rightarrow> string" where
  "cache_conversation obj conversationID =
     (if strField obj ''conversation_id'' \<noteq> [] then strField obj ''conversation_id''
      else if strField obj ''conversationId'' \<noteq> [] then strField obj ''conversationId''
      else conversationID)"

definition InjectPromptCacheKey ::
  "json_text \<Rightarrow> (string \<Rightarrow> string) \<Rightarrow> string \<Rightarrow> string \<Rightarrow> string \<Rightarrow> string option" where
  "InjectPromptCacheKey lib hash body uid conversationID =
     (if body = [] then Some body
      else case unmarshal_map lib body of
        DecodeError \<Rightarrow> Some body
      | NilMap \<Rightarrow> None
      | Decoded obj \<Rightarrow>
          if str_in obj ''prompt_cache_key'' \<noteq> [] then Some body
          else Some (case MarshalAny lib (JObj (gm_put ''prompt_cache_key''
                (JStr (buildCacheKey hash uid (cache_conversation obj conversationID))) obj)) of
              Some out \<Rightarrow> out | None \<Rightarrow> body))"

end
