(* ===== verification/Payload_Props.thy ===== *)
theory Payload_Props
  imports Payload ToolPairing_Props Sanitize_Props
begin

text \<open>
  The properties of a prepared request body: which effort is sent, the shape of the tool choice, what
  a thinking model gets, that the pairing of the tool traffic survives the later steps, the bodies
  that make the preparation panic, and the cache keys.
\<close>

section \<open>Effort\<close>

lemma best_below_spec:
  "best_below req ss b = x \<Longrightarrow>
   (\<forall>s i. b = Some (s, i) \<longrightarrow> i \<le> req) \<Longrightarrow>
   (x = None \<longrightarrow> b = None \<and> (\<forall>s\<in>set ss. \<forall>i. rank_of s = Some i \<longrightarrow> req < i)) \<and>
   (\<forall>s i. x = Some (s, i) \<longrightarrow> i \<le> req \<and> (b = x \<or> s \<in> set ss \<and> rank_of s = Some i) \<and>
     (\<forall>t j. b = Some (t, j) \<longrightarrow> j \<le> i) \<and>
     (\<forall>t\<in>set ss. \<forall>j. rank_of t = Some j \<longrightarrow> j \<le> req \<longrightarrow> j \<le> i))"
proof (induction req ss b arbitrary: x rule: best_below.induct)
  case (2 req s ss b)
  let ?b = "case rank_of s of
      Some i \<Rightarrow> if i \<le> req \<and> (case b of None \<Rightarrow> True | Some (_, j) \<Rightarrow> i > j) then Some (s, i) else b
    | None \<Rightarrow> b"
  have ok: "\<forall>s i. ?b = Some (s, i) \<longrightarrow> i \<le> req"
    using "2.prems"(2) by (auto split: option.splits if_splits)
  have "best_below req ss ?b = x" using "2.prems"(1) by simp
  note IH = "2.IH" [OF this ok]
  show ?case
  proof (cases "?b = b")
    case True
    then have "\<forall>j. rank_of s = Some j \<longrightarrow> j \<le> req \<longrightarrow> (\<exists>t i. b = Some (t, i) \<and> j \<le> i)"
      by (auto split: option.splits if_splits)
    with IH True show ?thesis by (fastforce simp: not_le)
  next
    case False
    then obtain i where i: "rank_of s = Some i" "i \<le> req" "?b = Some (s, i)"
        "\<forall>t j. b = Some (t, j) \<longrightarrow> j < i"
      by (auto split: option.splits if_splits)
    with IH show ?thesis by (fastforce simp: not_le)
  qed
qed auto

lemma lowest_level_spec:
  "lowest_level ss b = x \<Longrightarrow>
   (x = None \<longrightarrow> b = None \<and> (\<forall>s\<in>set ss. rank_of s = None)) \<and>
   (\<forall>s i. x = Some (s, i) \<longrightarrow> (b = x \<or> s \<in> set ss \<and> rank_of s = Some i) \<and>
     (\<forall>t j. b = Some (t, j) \<longrightarrow> i \<le> j) \<and> (\<forall>t\<in>set ss. \<forall>j. rank_of t = Some j \<longrightarrow> i \<le> j))"
proof (induction ss b arbitrary: x rule: lowest_level.induct)
  case (2 s ss b)
  let ?b = "case rank_of s of
      Some i \<Rightarrow> if (case b of None \<Rightarrow> True | Some (_, j) \<Rightarrow> i < j) then Some (s, i) else b
    | None \<Rightarrow> b"
  have "lowest_level ss ?b = x" using "2.prems"(1) by simp
  note IH = "2.IH" [OF this]
  show ?case
  proof (cases "?b = b")
    case True
    then have "\<forall>j. rank_of s = Some j \<longrightarrow> (\<exists>t i. b = Some (t, i) \<and> i \<le> j)"
      by (auto simp: not_less split: option.splits if_splits)
    with IH True show ?thesis by fastforce
  next
    case False
    then obtain i where i: "rank_of s = Some i" "?b = Some (s, i)" "\<forall>t j. b = Some (t, j) \<longrightarrow> i < j"
      by (auto split: option.splits if_splits)
    with IH show ?thesis by fastforce
  qed
qed auto

definition ranks :: "string list \<Rightarrow> nat set" where
  "ranks ss = {i. \<exists>s\<in>set ss. rank_of s = Some i}"

lemma ranks_finite [simp]: "finite (ranks ss)"
proof -
  have "ranks ss \<subseteq> (\<lambda>s. the (rank_of s)) ` set ss" by (force simp: ranks_def)
  then show ?thesis using finite_surj by blast
qed

text \<open>The level that a request for level \<open>r\<close> is to be sent with.\<close>

definition effort_target :: "nat set \<Rightarrow> nat \<Rightarrow> nat" where
  "effort_target R r = (if \<exists>i\<in>R. i \<le> r then Max {i \<in> R. i \<le> r} else if R \<noteq> {} then Min R else r)"

lemma lower_char_idem: "lower_char (lower_char c) = lower_char c"
  by (auto simp: lower_char_def Let_def)

lemma TrimSpace_subset: "set (TrimSpace s) \<subseteq> set s"
  by (metis TrimSpace_def set_dropWhileD set_rev subsetI)

lemma trim_lower: "ToLower (TrimSpace (ToLower s)) = TrimSpace (ToLower s)"
proof -
  have "lower_char c = c" if "c \<in> set (TrimSpace (ToLower s))" for c
    using that TrimSpace_subset [of "ToLower s"] by (auto simp: ToLower_def lower_char_idem)
  then show ?thesis unfolding ToLower_def by (simp add: map_idI)
qed

declare TrimSpace_idem [simp]

lemma rank_of_fold: "EqualFold best (TrimSpace (ToLower req)) \<Longrightarrow> rank_of best = rank_of req"
  by (simp add: EqualFold_def rank_of_def trim_lower)

lemma chosen_effort_spec:
  assumes "rank_of req = Some r"
  shows "rank_of (case chosen_effort supported req of Some e \<Rightarrow> e | None \<Rightarrow> req) =
      Some (effort_target (ranks supported) r) \<and>
    (\<forall>e. chosen_effort supported req = Some e \<longrightarrow> e \<in> set supported)"
proof (cases "best_below r supported None")
  case None
  then have high: "\<forall>i\<in>ranks supported. r < i"
    using best_below_spec [OF None] by (auto simp: ranks_def)
  have chosen: "chosen_effort supported req = map_option fst (lowest_level supported None)"
    using assms None by (simp add: chosen_effort_def)
  show ?thesis
  proof (cases "lowest_level supported None")
    case none: None
    then have "ranks supported = {}" using lowest_level_spec [OF none] by (auto simp: ranks_def)
    then show ?thesis using assms none chosen by (simp add: effort_target_def)
  next
    case (Some p)
    obtain s i where p: "p = (s, i)" by force
    from lowest_level_spec [OF Some] p
    have s: "s \<in> set supported" "rank_of s = Some i" "\<forall>j\<in>ranks supported. i \<le> j" by (auto simp: ranks_def)
    then have "i \<in> ranks supported" by (auto simp: ranks_def)
    with s(3) have "Min (ranks supported) = i" by (intro Min_eqI) auto
    moreover have "effort_target (ranks supported) r = Min (ranks supported)"
      using high \<open>i \<in> ranks supported\<close> by (auto simp: effort_target_def)
    ultimately show ?thesis using s Some p chosen by simp
  qed
next
  case (Some p)
  obtain s i where p: "p = (s, i)" by force
  from best_below_spec [OF Some] p
  have s: "s \<in> set supported" "rank_of s = Some i" "i \<le> r" "\<forall>j\<in>ranks supported. j \<le> r \<longrightarrow> j \<le> i"
    by (auto simp: ranks_def)
  then have i: "i \<in> {i \<in> ranks supported. i \<le> r}" by (auto simp: ranks_def)
  have "Max {i \<in> ranks supported. i \<le> r} = i" using s(4) i by (intro Max_eqI) auto
  then have "effort_target (ranks supported) r = i" using i by (auto simp: effort_target_def)
  then show ?thesis
    using assms s Some p rank_of_fold [of s req] by (auto simp: chosen_effort_def)
qed

text \<open>
  The effort that is sent is the best the model supports: for a model with known levels and a
  known requested level, it is the highest supported level not above the request, or the lowest
  supported one if all are above it; a level the model supports is never changed to another rank.
\<close>

theorem effort_normalised:
  assumes "gm_get efforts (str_in obj ''model'') = Some supported" and "str_in obj ''model'' \<noteq> []"
    and "effort_key obj = Some key" and "gm_get obj key = Some (JStr req)" and "rank_of req = Some r"
  shows "\<exists>e. gm_get (normalizeReasoningEffort efforts obj) key = Some (JStr e) \<and>
    rank_of e = Some (effort_target (ranks supported) r) \<and> (e = req \<or> e \<in> set supported)"
proof (cases "supported = []")
  case True
  then have "effort_target (ranks supported) r = r" by (simp add: effort_target_def ranks_def)
  moreover have "normalizeReasoningEffort efforts obj = obj"
    using assms(1) True by (simp add: normalizeReasoningEffort_def Let_def)
  ultimately show ?thesis using assms(4,5) by simp
next
  case False
  have "efforts \<noteq> []" using assms(1) by auto
  then show ?thesis
    using assms False chosen_effort_spec [OF assms(5), of supported]
    by (cases "chosen_effort supported req") (simp_all add: normalizeReasoningEffort_def Let_def)
qed

lemma effort_normalised_witness:
  "gm_get (normalizeReasoningEffort [(''m'', [''low'', ''High''])]
     [(''model'', JStr ''m''), (''reasoning_effort'', JStr ''max'')]) ''reasoning_effort'' = Some (JStr ''High'')"
proof -
  let ?obj = "[(''model'', JStr ''m''), (''reasoning_effort'', JStr ''max'')]"
  let ?n = "normalizeReasoningEffort [(''m'', [''low'', ''High''])] ?obj"
  have "gm_get [(''m'', [''low'', ''High''])] (str_in ?obj ''model'') = Some [''low'', ''High'']"
    "str_in ?obj ''model'' \<noteq> []" "effort_key ?obj = Some ''reasoning_effort''"
    "gm_get ?obj ''reasoning_effort'' = Some (JStr ''max'')" "rank_of ''max'' = Some 6"
    by code_simp+
  from effort_normalised [OF this] obtain e where e: "gm_get ?n ''reasoning_effort'' = Some (JStr e)"
      "rank_of e = Some (effort_target (ranks [''low'', ''High'']) 6)" "e = ''max'' \<or> e \<in> set [''low'', ''High'']"
    by blast
  have "rank_of ''low'' = Some 2" "rank_of ''High'' = Some 4" by code_simp+
  then have "ranks [''low'', ''High''] = {2, 4}" by (auto simp: ranks_def)
  moreover have "{i \<in> {2, 4}. i \<le> (6 :: nat)} = {2, 4}" by auto
  ultimately have "rank_of e = Some 4" using e(2) by (simp add: effort_target_def)
  with e(1,3) \<open>rank_of ''low'' = Some 2\<close> \<open>rank_of ''max'' = Some 6\<close> show ?thesis by auto
qed

section \<open>What the later steps leave alone\<close>

text \<open>What the pairing looks at of a call and of a message.\<close>

definition call_key :: "json \<Rightarrow> bool \<times> string \<times> bool" where
  "call_key tc = (is_obj tc, str_of ''id'' tc, toolCallNameEmpty tc)"

definition traffic :: "json \<Rightarrow> bool \<times> json option \<times> string \<times> (bool \<times> string \<times> bool) list" where
  "traffic m = (is_obj m, gm_get (members m) ''role'', str_of ''tool_call_id'' m, map call_key (calls_of m))"

lemma traffic_role: "traffic m = traffic m' \<Longrightarrow> has_role r m = has_role r m'"
  by (simp add: traffic_def has_role_def)

lemma traffic_calls:
  assumes "map call_key xs = map call_key ys"
  shows "map (str_of ''id'') (filter (\<lambda>tc. is_obj tc \<and> str_of ''id'' tc \<noteq> []) xs) =
      map (str_of ''id'') (filter (\<lambda>tc. is_obj tc \<and> str_of ''id'' tc \<noteq> []) ys) \<and>
    map (str_of ''id'') (filter toolCallNameEmpty (filter (\<lambda>tc. is_obj tc \<and> str_of ''id'' tc \<noteq> []) xs)) =
      map (str_of ''id'') (filter toolCallNameEmpty (filter (\<lambda>tc. is_obj tc \<and> str_of ''id'' tc \<noteq> []) ys))"
  using assms
proof (induction xs arbitrary: ys)
  case (Cons x xs)
  then obtain y zs where "ys = y # zs" by (cases ys) auto
  with Cons show ?case by (auto simp: call_key_def)
qed simp

lemma traffic_ids:
  assumes "\<And>m. traffic (f m) = traffic m"
  shows "callIDs (map f ms) = callIDs ms \<and> nameBadIDs (map f ms) = nameBadIDs ms \<and> resultIDs (map f ms) = resultIDs ms"
proof (induction ms)
  case (Cons m ms)
  have "has_role r (f m) = has_role r m" for r using traffic_role [OF assms] .
  moreover have "str_of ''tool_call_id'' (f m) = str_of ''tool_call_id'' m" "map call_key (calls_of (f m)) = map call_key (calls_of m)"
    using assms [of m] by (auto simp: traffic_def)
  ultimately show ?case
    using Cons traffic_calls [of "calls_of (f m)" "calls_of m"]
    by (auto simp: callIDs_def call_objs_def nameBadIDs_def resultIDs_def)
qed simp

lemma traffic_set:
  "k \<notin> {''role'', ''tool_call_id'', ''tool_calls''} \<Longrightarrow> traffic (set_member k v m) = traffic m"
  by (cases m) (auto simp: traffic_def set_member_def is_obj_def members_def str_of_def calls_of_def arr_of_def)

lemma traffic_backfill: "traffic (backfill_message m) = traffic m"
  by (simp add: backfill_message_def Let_def traffic_set)

lemma traffic_update:
  "k \<notin> {''role'', ''tool_call_id'', ''tool_calls''} \<Longrightarrow> traffic (update_member k f m) = traffic m"
  by (simp add: update_member_def traffic_set split: option.split)

lemma sanitize_call_key: "call_key (sanitize_call tc) = call_key tc"
proof (cases "\<exists>fn args. obj_of ''function'' tc = Some fn \<and> gm_get fn ''arguments'' = Some (JStr args) \<and> sanitizeText args \<noteq> args")
  case True
  then obtain fn args where fn: "obj_of ''function'' tc = Some fn" "gm_get fn ''arguments'' = Some (JStr args)"
      "sanitizeText args \<noteq> args" by blast
  have get: "gm_get (members tc) ''function'' = Some (JObj fn)"
    using fn(1) by (auto simp: obj_of_def split: option.splits json.splits)
  then have obj: "is_obj tc" by (cases tc) (auto simp: members_def is_obj_def)
  have "sanitize_call tc = set_member ''function'' (JObj (gm_put ''arguments'' (JStr (sanitizeText args)) fn)) tc"
    using fn by (simp add: sanitize_call_def)
  then show ?thesis
    using get obj by (simp add: call_key_def str_of_def toolCallNameEmpty_def get_members_set)
next
  case False
  then have "sanitize_call tc = tc" by (auto simp: sanitize_call_def split: option.split json.split)
  then show ?thesis by simp
qed

lemma traffic_sanitize: "traffic (sanitize_message m) = traffic m"
proof -
  have calls: "traffic (update_member ''tool_calls'' sanitizeToolCalls m) = traffic m" for m
  proof (cases "gm_get (members m) ''tool_calls''")
    case (Some v)
    then have "is_obj m" by (cases m) (auto simp: members_def is_obj_def)
    with Some show ?thesis
      by (cases v) (auto simp: update_member_def traffic_def str_of_def calls_of_def arr_of_def sanitizeToolCalls_def
          get_members_set sanitize_call_key comp_def)
  qed (simp add: update_member_def)
  show ?thesis by (simp add: sanitize_message_def calls traffic_update)
qed

section \<open>Members that a step does not touch\<close>

lemma ensure_keeps: "k \<noteq> ''reasoning_effort'' \<Longrightarrow> gm_get (ensureDeepSeekEffort e obj) k = gm_get obj k"
  by (simp add: ensureDeepSeekEffort_def)

lemma inject_keeps:
  "k \<notin> {''thinking'', ''reasoning_effort'', ''reasoningEffort''} \<Longrightarrow> gm_get (injectThinking e obj) k = gm_get obj k"
  by (simp add: injectThinking_def ensure_keeps gm_get_del split: option.split)

lemma effort_keeps:
  "k \<notin> {''reasoning_effort'', ''reasoningEffort''} \<Longrightarrow> gm_get (normalizeReasoningEffort efforts obj) k = gm_get obj k"
  by (auto simp: normalizeReasoningEffort_def Let_def effort_key_def split: option.split json.split)

lemma messages_keep:
  "k \<noteq> ''messages'' \<Longrightarrow> gm_get (map_messages f obj) k = gm_get obj k"
  "k \<noteq> ''messages'' \<Longrightarrow> gm_get (pair_messages obj) k = gm_get obj k"
  "k \<noteq> ''messages'' \<Longrightarrow> gm_get (backfillReasoningContent obj) k = gm_get obj k"
  by (simp_all add: map_messages_def pair_messages_def backfillReasoningContent_def split: option.split)

lemma patterns_keep: "k \<noteq> ''tools'' \<Longrightarrow> gm_get (normalizeToolPatterns obj) k = gm_get obj k"
  by (simp add: normalizeToolPatterns_def split: option.split)

lemma limits_keep:
  "k \<notin> {''max_tokens'', ''max_completion_tokens''} \<Longrightarrow>
   gm_get (clampGPTMinMaxTokens (translateMaxCompletionTokens obj)) k = gm_get obj k"
proof -
  assume k: "k \<notin> {''max_tokens'', ''max_completion_tokens''}"
  have "gm_get (clampGPTMinMaxTokens o') k = gm_get o' k" for o'
    using k by (simp add: clampGPTMinMaxTokens_def split: option.split json.split)
  moreover have "gm_get (translateMaxCompletionTokens obj) k = gm_get obj k"
    using k by (simp add: translateMaxCompletionTokens_def Let_def gm_get_del split: option.split json.split)
  ultimately show ?thesis by simp
qed

lemma choice_keeps:
  "k \<notin> {''tool_choice'', ''tools'', ''functions''} \<Longrightarrow> gm_get (normalizeToolChoice obj) k = gm_get obj k"
  by (simp add: normalizeToolChoice_def no_tools_def gm_get_del Let_def split: option.split json.split)

lemma arr_of_put [simp]: "arr_of k (JObj (gm_put j (JArr xs) obj)) = (if k = j then Some xs else arr_of k (JObj obj))"
  by (simp add: arr_of_def members_def)

lemma str_in_get: "gm_get o1 k = gm_get o2 k \<Longrightarrow> str_in o1 k = str_in o2 k"
  by (simp add: str_in_def str_of_def members_def)

text \<open>The preparation up to the pairing of the tool traffic, and after it.\<close>

definition first_steps :: "body \<Rightarrow> body" where
  "first_steps obj =
     (let obj = gm_put ''stream'' (JBool True) obj;
          obj = clampGPTMinMaxTokens (translateMaxCompletionTokens obj);
          obj = (if has_key ''stream_options'' obj then obj
                 else gm_put ''stream_options'' (JObj [(''include_usage'', JBool True)]) obj)
      in normalizeRoles (normalizeImageURL (normalizeToolPatterns (normalizeToolChoice obj))))"

definition last_steps :: "bool \<Rightarrow> (string, string list) gomap \<Rightarrow> (string, string) gomap \<Rightarrow> body \<Rightarrow> body" where
  "last_steps sanitize efforts defaultEfforts obj =
     (let obj = injectThinking (lookupDefaultEffort defaultEfforts (str_in obj ''model'')) obj;
          obj = backfillReasoningContent (normalizeReasoningEffort efforts obj)
      in if sanitize then map_messages sanitize_message obj else obj)"

lemma prepare_steps:
  "prepare_obj sanitize efforts defaults obj = last_steps sanitize efforts defaults (pair_messages (first_steps obj))"
  by (simp only: prepare_obj_def first_steps_def last_steps_def Let_def)

lemma first_keeps:
  "k \<notin> {''stream'', ''stream_options'', ''max_tokens'', ''max_completion_tokens'', ''tool_choice'', ''tools'',
     ''functions'', ''messages''} \<Longrightarrow> gm_get (first_steps obj) k = gm_get obj k"
  by (simp add: first_steps_def Let_def normalizeRoles_def normalizeImageURL_def messages_keep patterns_keep
      choice_keeps limits_keep)

lemma last_keeps:
  "k \<notin> {''thinking'', ''reasoning_effort'', ''reasoningEffort'', ''messages''} \<Longrightarrow>
   gm_get (last_steps sz ef de obj) k = gm_get obj k"
  by (simp add: last_steps_def Let_def messages_keep effort_keeps inject_keeps)

lemma backfill_messages:
  "arr_of ''messages'' (JObj obj) = Some ms \<Longrightarrow>
   arr_of ''messages'' (JObj (backfillReasoningContent obj)) = Some ms \<or>
   arr_of ''messages'' (JObj (backfillReasoningContent obj)) = Some (map backfill_message ms)"
  by (simp add: backfillReasoningContent_def)

lemma backfill_none:
  "arr_of ''messages'' (JObj obj) = None \<Longrightarrow> arr_of ''messages'' (JObj (backfillReasoningContent obj)) = None"
  by (simp add: backfillReasoningContent_def)

lemma arr_of_cong: "gm_get o1 k = gm_get o2 k \<Longrightarrow> arr_of k (JObj o1) = arr_of k (JObj o2)"
  by (simp add: arr_of_def members_def)

text \<open>
  The messages after the last steps are those before them, each changed by functions that the pairing
  does not see.
\<close>

lemma last_messages:
  assumes "arr_of ''messages'' (JObj (last_steps sz ef de obj)) = Some out"
  shows "\<exists>f ms. (\<forall>m. traffic (f m) = traffic m) \<and> out = map f ms \<and> arr_of ''messages'' (JObj obj) = Some ms"
proof -
  define o2 where "o2 = normalizeReasoningEffort ef (injectThinking (lookupDefaultEffort de (str_in obj ''model'')) obj)"
  have o2: "arr_of ''messages'' (JObj o2) = arr_of ''messages'' (JObj obj)"
    by (rule arr_of_cong) (simp add: o2_def effort_keeps inject_keeps)
  have last: "last_steps sz ef de obj =
      (if sz then map_messages sanitize_message (backfillReasoningContent o2) else backfillReasoningContent o2)"
    by (simp add: last_steps_def Let_def o2_def)
  show ?thesis
  proof (cases "arr_of ''messages'' (JObj obj)")
    case None
    then show ?thesis
      using assms backfill_none [of o2] by (simp add: last o2 map_messages_def split: if_splits)
  next
    case (Some ms)
    obtain g where g: "\<forall>m. traffic (g m) = traffic m"
      "arr_of ''messages'' (JObj (backfillReasoningContent o2)) = Some (map g ms)"
      using backfill_messages [of o2 ms] Some traffic_backfill
      by (metis (no_types, lifting) list.map_ident o2)
    then have "out = map (if sz then sanitize_message \<circ> g else g) ms"
      using assms by (auto simp: last map_messages_def split: if_splits)
    with g(1) Some show ?thesis
      by (intro exI [of _ "if sz then sanitize_message \<circ> g else g"]) (auto simp: traffic_sanitize)
  qed
qed

text \<open>
  Whatever traffic a client sends, the prepared body that goes upstream pairs it: the identifiers
  of the declared calls and of the results are the same set, and no declared call has a blank name;
  the steps after the pairing, which fill in reasoning and rewrite text, do not disturb it.
\<close>

theorem prepared_paired:
  assumes "arr_of ''messages'' (JObj (prepare_obj sanitize efforts defaults obj)) = Some out"
  shows "set (callIDs out) = set (resultIDs out) \<and> nameBadIDs out = []"
proof -
  obtain f ms where f: "\<And>m. traffic (f m) = traffic m" "out = map f ms"
      "arr_of ''messages'' (JObj (pair_messages (first_steps obj))) = Some ms"
    using last_messages [OF assms [unfolded prepare_steps]] by blast
  obtain xs where "ms = pair_tools xs"
    using f(3) by (auto simp: pair_messages_def split: option.splits)
  then have "set (callIDs ms) = set (resultIDs ms) \<and> nameBadIDs ms = []"
    using cleanup_ids by (simp add: pair_tools_def)
  then show ?thesis using traffic_ids [OF f(1), of ms] f(2) by simp
qed

text \<open>
  What the client asks for: the word of a tool choice, which is a string or the type of an object, without the case and
  the spaces around it.
\<close>

definition asks_for :: "body \<Rightarrow> string \<Rightarrow> bool" where
  "asks_for obj w = (case gm_get obj ''tool_choice'' of
      Some (JStr v) \<Rightarrow> ToLower (TrimSpace v) = w
    | Some (JObj v) \<Rightarrow> ToLower (TrimSpace (str_in v ''type'')) = w
    | _ \<Rightarrow> False)"

text \<open>The tool choice in the words of the upstream, for an object; \<open>None\<close> if it is dropped.\<close>

definition choice_string :: "body \<Rightarrow> string option" where
  "choice_string v =
     (let typ = ToLower (TrimSpace (str_in v ''type''));
          named = (case obj_of ''function'' (JObj v) of Some fn \<Rightarrow> str_in fn ''name'' | None \<Rightarrow> []);
          name = TrimSpace (if named = [] then str_in v ''name'' else named)
      in if typ = ''function'' then Some (if name = [] then ''auto'' else name)
         else if typ \<in> {''auto'', ''required''} then Some typ else None)"

lemma none_lower: "ToLower ''none'' = ''none''"
  by code_simp

lemma choice_get:
  "gm_get (normalizeToolChoice obj) ''tool_choice'' = (if asks_for obj ''none'' then None else
     case gm_get obj ''tool_choice'' of
       Some (JStr v) \<Rightarrow> Some (JStr v) | Some (JObj v) \<Rightarrow> map_option JStr (choice_string v) | _ \<Rightarrow> None)"
  by (auto simp: normalizeToolChoice_def asks_for_def no_tools_def choice_string_def choice_name_def EqualFold_def none_lower
      gm_get_del Let_def split: option.split json.split)

lemma choice_tools:
  assumes "k \<in> {''tools'', ''functions''}"
  shows "gm_get (normalizeToolChoice obj) k = (if asks_for obj ''none'' then None else gm_get obj k)"
  using assms
  by (auto simp: normalizeToolChoice_def asks_for_def no_tools_def EqualFold_def none_lower gm_get_del Let_def
      split: option.split json.split)

lemma patterns_tools: "(gm_get (normalizeToolPatterns obj) ''tools'' = None) = (gm_get obj ''tools'' = None)"
  by (auto simp: normalizeToolPatterns_def arr_of_def members_def split: option.split json.split)

text \<open>
  (C40) The tool choice and the tools of a prepared body, for every request. If the client asks for no tools, by the string
  or by an object of the type, in any case and with spaces around, the prepared body has no tool choice, no tools and no
  functions. Otherwise the choice is a string if present, as the upstream's type demands: a string is kept, an object is
  translated to the name of its function, to \<open>auto\<close> or to \<open>required\<close>, anything else is dropped; and the tools and
  functions stay.
\<close>

theorem prepared_tool_choice:
  "let out = prepare_obj sanitize efforts defaults obj in
   (if asks_for obj ''none''
    then gm_get out ''tool_choice'' = None \<and> gm_get out ''tools'' = None \<and> gm_get out ''functions'' = None
    else gm_get out ''tool_choice'' = (case gm_get obj ''tool_choice'' of
        Some (JStr v) \<Rightarrow> Some (JStr v) | Some (JObj v) \<Rightarrow> map_option JStr (choice_string v) | _ \<Rightarrow> None) \<and>
      (gm_get out ''tools'' = None) = (gm_get obj ''tools'' = None) \<and>
      gm_get out ''functions'' = gm_get obj ''functions'')"
proof -
  define o1 where "o1 = (let obj = clampGPTMinMaxTokens (translateMaxCompletionTokens (gm_put ''stream'' (JBool True) obj))
    in if has_key ''stream_options'' obj then obj
       else gm_put ''stream_options'' (JObj [(''include_usage'', JBool True)]) obj)"
  have o1: "gm_get o1 k = gm_get obj k" if "k \<in> {''tool_choice'', ''tools'', ''functions''}" for k
    using that by (auto simp: o1_def Let_def limits_keep)
  have asks: "asks_for o1 w = asks_for obj w" for w by (simp add: asks_for_def o1)
  have get: "gm_get (prepare_obj sanitize efforts defaults obj) k = gm_get (normalizeToolPatterns (normalizeToolChoice o1)) k"
    if "k \<in> {''tool_choice'', ''tools'', ''functions''}" for k
    using that by (auto simp: prepare_steps last_keeps messages_keep first_steps_def Let_def o1_def
        normalizeRoles_def normalizeImageURL_def)
  show ?thesis
    by (simp add: Let_def get patterns_keep patterns_tools choice_get choice_tools o1 asks)
qed

lemma prepared_tool_choice_witness:
  "gm_get (prepare_obj False [] [] [(''tool_choice'', JObj [(''type'', JStr '' None'')]), (''tools'', JArr [])]) ''tools'' = None"
proof -
  have "asks_for [(''tool_choice'', JObj [(''type'', JStr '' None'')]), (''tools'', JArr [])] ''none''" by code_simp
  then show ?thesis
    using prepared_tool_choice [of False "[]" "[]" "[(''tool_choice'', JObj [(''type'', JStr '' None'')]), (''tools'', JArr [])]"]
    by (simp add: Let_def)
qed

definition demo_orphan :: body where
  "demo_orphan = [(''messages'', JArr [JObj [(''role'', JStr ''tool''), (''tool_call_id'', JStr ''c9'')]])]"

lemma prepared_paired_witness:
  "set (callIDs (the (arr_of ''messages'' (JObj (prepare_obj False [] [] demo_orphan))))) =
   set (resultIDs (the (arr_of ''messages'' (JObj (prepare_obj False [] [] demo_orphan)))))"
proof -
  have "arr_of ''messages'' (JObj (prepare_obj False [] [] demo_orphan)) = Some []" by code_simp
  from prepared_paired [OF this] this show ?thesis by simp
qed

section \<open>Thinking models\<close>

lemma str_of_set:
  "is_obj m \<Longrightarrow> str_of j (set_member k (JStr v) m) = (if j = k then v else str_of j m)"
  "is_obj m \<Longrightarrow> is_str j (set_member k (JStr v) m) = (j = k \<or> is_str j m)"
  by (simp_all add: str_of_def is_str_def get_members_set)

lemma backfilled:
  assumes "is_obj m" and "str_of ''role'' m = ''assistant''"
  shows "is_str ''reasoning_content'' (backfill_message m) \<and> str_of ''reasoning'' (backfill_message m) \<noteq> []"
  using assms by (simp add: backfill_message_def Let_def str_of_set)

lemma backfill_role: "str_of ''role'' (backfill_message m) = str_of ''role'' m" "is_obj (backfill_message m) = is_obj m"
  using traffic_backfill [of m] by (auto simp: traffic_def str_of_def)

lemma obj_of_cong: "gm_get o1 k = gm_get o2 k \<Longrightarrow> obj_of k (JObj o1) = obj_of k (JObj o2)"
  by (simp add: obj_of_def members_def)

lemma thinking_cong: "gm_get o1 ''thinking'' = gm_get o2 ''thinking'' \<Longrightarrow> thinking_type o1 = thinking_type o2"
  unfolding thinking_type_def by (drule obj_of_cong) simp

lemma inject_enables:
  assumes "isDeepSeekModel (str_in obj ''model'')" and "thinking_type obj = [] \<or> EqualFold (thinking_type obj) ''enabled''"
  shows "EqualFold (thinking_type (injectThinking e obj)) ''enabled'' \<and> effort_key (injectThinking e obj) \<noteq> None"
proof -
  have key: "effort_key (ensureDeepSeekEffort e o') \<noteq> None" for o'
    by (simp add: effort_key_def ensureDeepSeekEffort_def has_key_def)
  have ens: "thinking_type (ensureDeepSeekEffort e o') = thinking_type o'" for o'
    by (rule thinking_cong) (simp add: ensure_keeps)
  have en: "EqualFold (TrimSpace ''enabled'') ''enabled''" "TrimSpace ''enabled'' = ''enabled''"
      "\<not> EqualFold ''enabled'' ''disabled''" by code_simp+
  have notdis: "EqualFold t ''enabled'' \<Longrightarrow> \<not> EqualFold t ''disabled''" for t
    using en(3) by (simp add: EqualFold_def)
  have put: "thinking_type (gm_put ''thinking'' (JObj th) o') = TrimSpace (str_in th ''type'')" for th o'
    by (simp add: thinking_type_def obj_of_def members_def)
  show ?thesis
  proof (cases "thinking_type obj = []")
    case True
    then show ?thesis
      using assms(1) en by (simp add: injectThinking_def key ens put str_in_def str_of_def members_def split: option.split)
  next
    case False
    then show ?thesis using assms notdis by (simp add: injectThinking_def key ens)
  qed
qed

lemma effort_only_puts:
  "normalizeReasoningEffort ef obj = obj \<or> (\<exists>k e. normalizeReasoningEffort ef obj = gm_put k (JStr e) obj)"
  unfolding normalizeReasoningEffort_def Let_def by (simp split: option.split json.split) blast

lemma effort_key_normalise: "effort_key obj \<noteq> None \<Longrightarrow> effort_key (normalizeReasoningEffort ef obj) \<noteq> None"
proof -
  have "effort_key (gm_put k v obj) \<noteq> None" if "effort_key obj \<noteq> None" for k v
    using that by (auto simp: effort_key_def has_key_def split: if_splits)
  then show "effort_key obj \<noteq> None \<Longrightarrow> effort_key (normalizeReasoningEffort ef obj) \<noteq> None"
    using effort_only_puts [of ef obj] by metis
qed

text \<open>
  A request for a DeepSeek model that does not switch thinking off goes out with thinking enabled
  and an effort level, and every assistant message in it carries reasoning content and reasoning that
  is not empty, whatever the client left out.
\<close>

theorem prepared_thinking:
  assumes "isDeepSeekModel (str_in obj ''model'')"
    and "thinking_type obj = [] \<or> EqualFold (thinking_type obj) ''enabled''"
    and "prepare_obj False efforts defaults obj = out"
    and "arr_of ''messages'' (JObj out) = Some ms" and "m \<in> set ms" and "is_obj m" and "str_of ''role'' m = ''assistant''"
  shows "EqualFold (thinking_type out) ''enabled'' \<and> effort_key out \<noteq> None \<and>
    is_str ''reasoning_content'' m \<and> str_of ''reasoning'' m \<noteq> []"
proof -
  let ?p = "pair_messages (first_steps obj)"
  define o2 where "o2 = normalizeReasoningEffort efforts (injectThinking (lookupDefaultEffort defaults (str_in ?p ''model'')) ?p)"
  have out: "out = backfillReasoningContent o2"
    using assms(3) by (simp add: prepare_steps last_steps_def Let_def o2_def)
  have same: "gm_get ?p ''model'' = gm_get obj ''model''" "gm_get ?p ''thinking'' = gm_get obj ''thinking''"
    by (simp_all add: messages_keep first_keeps)
  then have deep: "isDeepSeekModel (str_in ?p ''model'')"
    and think: "thinking_type ?p = [] \<or> EqualFold (thinking_type ?p) ''enabled''"
    using assms(1,2) str_in_get [OF same(1)] thinking_cong [OF same(2)] by simp_all
  let ?q = "injectThinking (lookupDefaultEffort defaults (str_in ?p ''model'')) ?p"
  note inj = inject_enables [OF deep think, of "lookupDefaultEffort defaults (str_in ?p ''model'')"]
  have "thinking_type o2 = thinking_type ?q" by (rule thinking_cong) (simp add: o2_def effort_keeps)
  with inj have en: "EqualFold (thinking_type o2) ''enabled''" by simp
  have key: "effort_key o2 \<noteq> None" unfolding o2_def using inj effort_key_normalise by blast
  have "str_in o2 ''model'' = str_in ?p ''model''" by (rule str_in_get) (simp add: o2_def effort_keeps inject_keeps)
  with deep have deep2: "isDeepSeekModel (str_in o2 ''model'')" by simp
  obtain xs where xs: "arr_of ''messages'' (JObj o2) = Some xs"
    using assms(4) backfill_none [of o2] out by (cases "arr_of ''messages'' (JObj o2)") auto
  have "xs \<noteq> []"
    using assms(4,5) xs by (auto simp: out backfillReasoningContent_def deep2)
  then have "ms = map backfill_message xs"
    using assms(4) xs en deep2 by (simp add: out backfillReasoningContent_def)
  then obtain x where "m = backfill_message x" using assms(5) by auto
  then have "is_str ''reasoning_content'' m \<and> str_of ''reasoning'' m \<noteq> []"
    using backfilled [of x] backfill_role [of x] assms(6,7) by simp
  moreover have "thinking_type out = thinking_type o2" by (rule thinking_cong) (simp add: out messages_keep)
  moreover have "effort_key out = effort_key o2" by (simp add: effort_key_def has_key_def out messages_keep)
  ultimately show ?thesis using en key by simp
qed

definition demo_deepseek :: body where
  "demo_deepseek = [(''model'', JStr ''deepseek-r1''), (''messages'', JArr [JObj [(''role'', JStr ''assistant''), (''content'', JStr ''hi'')]])]"

lemma prepared_thinking_witness:
  "EqualFold (thinking_type (prepare_obj False [] [] demo_deepseek)) ''enabled''"
proof -
  let ?m = "JObj [(''role'', JStr ''assistant''), (''content'', JStr ''hi''), (''reasoning_content'', JStr []), (''reasoning'', JStr '' '')]"
  have "isDeepSeekModel (str_in demo_deepseek ''model'')" by code_simp
  moreover have "thinking_type demo_deepseek = []" by code_simp
  moreover have "arr_of ''messages'' (JObj (prepare_obj False [] [] demo_deepseek)) = Some [?m]" by code_simp
  moreover have "is_obj ?m" "str_of ''role'' ?m = ''assistant''" by code_simp+
  ultimately show ?thesis using prepared_thinking [OF _ _ refl, of demo_deepseek "[]" "[]" "[?m]" ?m] by simp
qed

section \<open>Where it goes wrong\<close>

text \<open>
  Preparing a body panics exactly for the JSON value \<open>null\<close>, and every other body is answered: the
  code stores a member into the map that \<open>null\<close> leaves nil.
\<close>

theorem prepare_panics_iff:
  "PrepareBodyOptWithEffortsAndDefault lib src sanitize efforts defaults = None \<longleftrightarrow>
     src \<noteq> [] \<and> UnmarshalAny lib src = Some JNull"
  by (auto simp: PrepareBodyOptWithEffortsAndDefault_def unmarshal_map_def split: option.splits json.splits)

text \<open>
  Two accounts can share a cache key, whatever the hash: the account and the conversation are
  joined by a bar before hashing, and the part of the account in front shows only eight characters.
\<close>

theorem cache_key_collision:
  "buildCacheKey hash ''12345678'' ''x|c'' = buildCacheKey hash ''12345678|x'' ''c''"
  by (simp add: buildCacheKey_def)

text \<open>
  Removing the escape that the upstream rejects can produce it: an escaped backslash in front of an
  underscore loses the wrong backslash, and the pattern that is sent has the escape the original
  pattern did not have.
\<close>

theorem unescape_makes_escape:
  "unescape [CHR 0x5C, CHR 0x5C, CHR ''_''] = esc"
  by code_simp

definition demo_leak :: body where
  "demo_leak = [(''model'', JStr ''deepseek-r1''), (''messages'', JArr [JObj [(''role'', JStr ''assistant''),
     (''reasoning_content'', JStr ''11128'')]])]"

text \<open>
  Sanitising does not reach the reasoning that the preparation itself fills in: the reasoning
  content is copied before the messages are sanitised, and only the original is sanitised, so that the
  fingerprint goes out in the copy.
\<close>

theorem reasoning_leaks:
  "arr_of ''messages'' (JObj (prepare_obj True [] [] demo_leak)) =
     Some [JObj [(''role'', JStr ''assistant''), (''reasoning_content'', JStr ''11-128''), (''reasoning'', JStr ''11128'')]]"
proof -
  let ?m = "JObj [(''role'', JStr ''assistant''), (''reasoning_content'', JStr ''11128''), (''reasoning'', JStr ''11128'')]"
  have "prepare_obj True [] [] demo_leak = map_messages sanitize_message (prepare_obj False [] [] demo_leak)"
    by (simp add: prepare_steps last_steps_def Let_def)
  moreover have "arr_of ''messages'' (JObj (prepare_obj False [] [] demo_leak)) = Some [?m]" by code_simp
  moreover have "sanitizeText ''11128'' = TrimSpace ''11-128''"
    by (rule sanitize_stages [of _ "''11-128''" "''11-128''"]; code_simp)
  moreover have "TrimSpace ''11-128'' = ''11-128''" by code_simp
  ultimately show ?thesis
    by (simp add: map_messages_def sanitize_message_def update_member_def sanitize_reasoning_def set_member_def
        members_def is_obj_def)
qed

end
