(* ===== verification/Hint.thy ===== *)
theory Hint
  imports Sse
begin

text \<open>
  The hint that is attached to an upstream error, after \<^verbatim>\<open>src/internal/upstream/hint.go\<close>. The argument
  \<open>json_lib\<close> of the classification is passed on; reading the message of an error frame is an argument
  (\<open>None\<close> for text that does not decode).
\<close>

record HintContext =
  hc_Model :: string
  hc_HasImage :: bool
  hc_ModelSupportsImages :: bool
  hc_ModelInCatalog :: bool

definition codeMarker :: "string \<Rightarrow> string \<Rightarrow> bool" where
  "codeMarker lower code = list_ex (Contains lower)
     [''\"code\":'' @ code, ''\"code\": '' @ code, ''\"code\":\"'' @ code @ ''\"'', ''\"code\": \"'' @ code @ ''\"'',
      ''\"code\":\" '' @ code @ ''\"'', ''\"code\": '' @ [CHR 0x27] @ code @ [CHR 0x27]]"

definition isModelParamInvalid :: "string \<Rightarrow> bool" where
  "isModelParamInvalid body = (let lower = ToLower body in
     codeMarker lower ''11133'' \<or> Contains lower ''model_param_invalid'' \<or>
     Contains lower ''invalid request parameters'' \<or>
     Contains lower ''request parameters do not meet the current model requirements'')"

definition isInvalidImageData :: "string \<Rightarrow> bool" where
  "isInvalidImageData body = (let lower = ToLower body in
     codeMarker lower ''11135'' \<or> Contains lower ''invalid_image_data'' \<or> Contains lower ''replace the image'')"

definition kind_hint :: "ErrKind \<Rightarrow> string" where
  "kind_hint kind = (case kind of
      ErrPromptTooLong \<Rightarrow> ''request context exceeds the model'' @ [CHR 0x27] @ ''s limit; reduce history/message size''
    | ErrWafBlock \<Rightarrow> ''upstream WAF blocked the gateway; retry after the block window''
    | ErrSoftRate \<Rightarrow> ''rate limited by upstream; retry after reset''
    | ErrAccountFault \<Rightarrow> ''account-level fault at upstream (auth/quota state); the gateway will rotate or disable this account''
    | ErrSessionDead \<Rightarrow> ''account session expired at upstream; the account is disabled until re-login''
    | ErrHardCredit \<Rightarrow> ''account credits exhausted at upstream; waiting for daily check-in to restore''
    | ErrModelBlocked \<Rightarrow> ''upstream has no such model on this backend; switch model or retry on another account''
    | ErrContentBlocked \<Rightarrow> ''request content was rejected by content policy; adjust the prompt and retry''
    | _ \<Rightarrow> [])"

definition GatewayHint :: "ErrKind \<Rightarrow> string \<Rightarrow> HintContext \<Rightarrow> string" where
  "GatewayHint kind msg ctx =
     (if isModelParamInvalid msg then
        (if hc_HasImage ctx \<and> hc_ModelInCatalog ctx \<and> \<not> hc_ModelSupportsImages ctx
         then ''model '' @ hc_Model ctx @ '' does not support images; pick one with supports_images=true from /v1/models''
         else ''request parameters were rejected by the model provider; check message format and model capabilities'')
      else if isInvalidImageData msg
      then ''image data rejected by upstream; use a real/valid image, may need a new conversation''
      else kind_hint kind)"

definition noHealthyHint :: string where
  "noHealthyHint = ''no healthy account available in pool; check /status or retry later''"

definition NoHealthyAccountHint :: string where
  "NoHealthyAccountHint = noHealthyHint"

definition FrameKind :: "json_lib \<Rightarrow> (string \<Rightarrow> string option) \<Rightarrow> string \<Rightarrow> ErrKind" where
  "FrameKind jl message payload =
     (if IsModelRateLimit payload then ErrSoftRate
      else case message payload of
        None \<Rightarrow> ErrNone
      | Some m \<Rightarrow> if m = [] then ErrNone else Classify jl 400 m)"

definition FrameHintFunc :: "json_lib \<Rightarrow> (string \<Rightarrow> string option) \<Rightarrow> HintContext \<Rightarrow> string \<Rightarrow> string" where
  "FrameHintFunc jl message ctx payload =
     (if payload = [] \<or> payload = done_mark then [] else GatewayHint (FrameKind jl message payload) payload ctx)"

section \<open>Hints only add\<close>

text \<open>
  What a client reads in an error frame with a hint: every member of the frame and of the error as the
  upstream sent it, and the hint besides.
\<close>

definition hinted_error :: "(string \<times> json) list \<Rightarrow> (string \<times> json) list \<Rightarrow> string \<Rightarrow> (string \<times> json) list" where
  "hinted_error obj e hint = gm_put ''error'' (JObj (gm_put ''gateway_hint'' (JStr hint) e)) obj"

lemma attach_hint:
  assumes "UnmarshalAny lib payload = Some (JObj obj)" and "obj_of ''error'' (JObj obj) = Some e"
    and "MarshalAny lib (JObj (hinted_error obj e hint)) = Some out"
  shows "attachHintToErrorFrame lib payload hint = out"
  using assms by (simp add: attachHintToErrorFrame_def unmarshal_map_def hinted_error_def)

lemma hinted_error_reads:
  "k \<noteq> ''error'' \<Longrightarrow> gm_get (hinted_error obj e hint) k = gm_get obj k"
  "obj_of ''error'' (JObj (hinted_error obj e hint)) = Some (gm_put ''gateway_hint'' (JStr hint) e)"
  "k \<noteq> ''gateway_hint'' \<Longrightarrow> gm_get (gm_put ''gateway_hint'' (JStr hint) e) k = gm_get e k"
  by (simp_all add: hinted_error_def obj_of_def members_def)

text \<open>The hint of an empty stream is asked for, although the frame is the gateway's own.\<close>

lemma empty_stream_asks_for_hint:
  "ss_valid st = 0 \<Longrightarrow> fst (finish_stream lib (Some f) (\<lambda>_. True) st) =
     ss_out st @ [sse_event (hinted lib (Some f) empty_stream_frame), sse_event done_mark]"
  by (simp add: finish_stream_def put_text_def)

end
