(* ===== verification/Session_Ids.thy ===== *)
theory Session_Ids
  imports Payload
begin

text \<open>
  The identifiers of the session headers, after \<^verbatim>\<open>src/internal/session/ids.go\<close>: the conversation a body
  names, the key of a turn, and the identifiers derived from keys.

  Messages are decoded to their role and the raw text of their content; the decoders of raw text and
  the two hashes (hexadecimal prefixes of SHA-256) are the argument \<open>raw_lib\<close>. Randomness is an argument.
\<close>

record raw_msg =
  rm_Role :: string
  rm_Content :: string

record raw_lib =
  rl_messages :: "string \<Rightarrow> raw_msg list option"
  rl_string :: "string \<Rightarrow> string option"
  rl_parts :: "string \<Rightarrow> string list option"
  rl_part :: "string \<Rightarrow> (string \<times> string) option"
  rl_texts :: "string \<Rightarrow> string list option"
  rl_hash4 :: "string \<Rightarrow> string"
  rl_hash16 :: "string \<Rightarrow> string"

definition first_nonempty :: "string list \<Rightarrow> string" where
  "first_nonempty xs = (case filter (\<lambda>x. x \<noteq> []) xs of [] \<Rightarrow> [] | x # _ \<Rightarrow> x)"

definition ResolveConversationID :: "json_text \<Rightarrow> string \<Rightarrow> string" where
  "ResolveConversationID lib body = (if body = [] then [] else case unmarshal_map lib body of
      Decoded obj \<Rightarrow> first_nonempty
        ((case obj_of ''metadata'' (JObj obj) of
            Some meta \<Rightarrow> [str_in meta ''conversation_id'', str_in meta ''conversationId'']
          | None \<Rightarrow> []) @ [str_in obj ''conversation_id'', str_in obj ''conversationId''])
    | _ \<Rightarrow> [])"

text \<open>\<open>NewMessageID\<close>: 16 random bytes, or two random words, in hexadecimal; here what they print as.\<close>

definition NewMessageID :: "string option \<Rightarrow> string \<Rightarrow> string" where
  "NewMessageID random fallback = (case random of Some h \<Rightarrow> h | None \<Rightarrow> fallback)"

definition RequestIDForKey :: "raw_lib \<Rightarrow> string \<Rightarrow> string \<Rightarrow> string \<Rightarrow> string" where
  "RequestIDForKey lib salt fresh key = (if key = [] then fresh else rl_hash16 lib (salt @ ''|'' @ key))"

definition TurnRequestID :: "raw_lib \<Rightarrow> string \<Rightarrow> string \<Rightarrow> string \<Rightarrow> string" where
  "TurnRequestID lib salt fresh turnKey = (if turnKey = [] then fresh else rl_hash16 lib (salt @ ''|'' @ turnKey))"

section \<open>The signature of a content\<close>

text \<open>The parts in turn: the text so far and whether a part was not text; \<open>None\<close> for a part that does not decode.\<close>

fun sign_parts :: "raw_lib \<Rightarrow> string list \<Rightarrow> (string \<times> bool) option" where
  "sign_parts lib [] = Some ([], False)"
| "sign_parts lib (pr # prs) = (case rl_part lib pr of
      None \<Rightarrow> None
    | Some (typ, txt') \<Rightarrow>
        (case sign_parts lib prs of
           None \<Rightarrow> None
         | Some (s, nonText) \<Rightarrow>
             if typ = [] \<or> typ = ''text'' then Some (txt' @ s, nonText)
             else Some ([NL, CHR 0x5B] @ typ @ '':'' @ rl_hash4 lib pr @ [CHR 0x5D, NL] @ s, True)))"

definition contentSignature :: "raw_lib \<Rightarrow> string \<Rightarrow> string" where
  "contentSignature lib raw =
     (let s = TrimSpace raw in
      if s = [] \<or> s = ''null'' then []
      else if hd s = CHR 0x22 then (case rl_string lib raw of Some str \<Rightarrow> str | None \<Rightarrow> [])
      else if hd s \<noteq> CHR 0x5B then []
      else case rl_parts lib raw of
        None \<Rightarrow> []
      | Some parts \<Rightarrow>
          (case sign_parts lib parts of
             None \<Rightarrow> []
           | Some (out, hasNonText) \<Rightarrow> if hasNonText then TrimSpace out else out))"

text \<open>\<open>contentText\<close>: the texts of all parts, whatever their type, which it does not decode.\<close>

definition contentText :: "raw_lib \<Rightarrow> string \<Rightarrow> string" where
  "contentText lib raw =
     (let s = TrimSpace raw in
      if s = [] \<or> s = ''null'' then []
      else if hd s = CHR 0x22 then (case rl_string lib raw of Some str \<Rightarrow> str | None \<Rightarrow> [])
      else if hd s = CHR 0x5B
      then (case rl_texts lib raw of Some texts \<Rightarrow> concat texts | None \<Rightarrow> [])
      else [])"

section \<open>Keys\<close>

text \<open>The last user message with its position, searched from the end.\<close>

fun last_user :: "raw_msg list \<Rightarrow> nat \<Rightarrow> (nat \<times> string) option" where
  "last_user ms 0 = None"
| "last_user ms (Suc i) =
     (if rm_Role (ms ! i) = ''user'' then Some (i, rm_Content (ms ! i)) else last_user ms i)"

definition turn_key :: "raw_lib \<Rightarrow> raw_msg list \<Rightarrow> string" where
  "turn_key lib ms = (case last_user ms (length ms) of
      None \<Rightarrow> []
    | Some (i, content) \<Rightarrow>
        (let sig = contentSignature lib content in
         if sig = [] then [] else ''u'' @ dec i @ '':'' @ sig))"

definition TurnKey :: "raw_lib \<Rightarrow> string \<Rightarrow> string" where
  "TurnKey lib body = (if body = [] then [] else case rl_messages lib body of
      None \<Rightarrow> []
    | Some ms \<Rightarrow> turn_key lib ms)"

fun cache_scan :: "raw_lib \<Rightarrow> string \<Rightarrow> raw_msg list \<Rightarrow> string \<times> string" where
  "cache_scan lib system [] = (system, [])"
| "cache_scan lib system (m # ms) =
     (let system = (if (rm_Role m = ''system'' \<or> rm_Role m = ''developer'') \<and> system = []
          then contentSignature lib (rm_Content m) else system)
      in if rm_Role m = ''user'' then (system, contentSignature lib (rm_Content m))
         else cache_scan lib system ms)"

definition CacheConversationID :: "json_text \<Rightarrow> raw_lib \<Rightarrow> string \<Rightarrow> string" where
  "CacheConversationID jlib lib body =
     (let known = ResolveConversationID jlib body in
      if known \<noteq> [] then known
      else case rl_messages lib body of
        None \<Rightarrow> []
      | Some ms \<Rightarrow>
          (case cache_scan lib [] ms of (system, user) \<Rightarrow>
             if user = [] then [] else ''cache-'' @ rl_hash16 lib (system @ [CHR 0x00] @ user)))"

section \<open>Properties\<close>

lemma last_user_append:
  "list_all (\<lambda>m. rm_Role m \<noteq> ''user'') later \<Longrightarrow> last_user (ms @ later) (length (ms @ later)) = last_user ms (length ms)"
proof (induction later rule: rev_induct)
  case Nil
  have "last_user (ms @ []) n = last_user ms n" for n by simp
  then show ?case by simp
next
  case (snoc m later)
  have same: "n \<le> length xs \<Longrightarrow> last_user (xs @ ys) n = last_user xs n" for xs ys n
    by (induction n) (auto simp: nth_append)
  from snoc have "last_user (ms @ later @ [m]) (Suc (length (ms @ later))) = last_user (ms @ later) (length (ms @ later))"
    using same [of "length (ms @ later)" "ms @ later" "[m]"] by (simp add: nth_append)
  with snoc show ?case by simp
qed

lemma last_user_lt: "last_user ms n = Some (i, c) \<Longrightarrow> i < n"
  by (induction n) (auto split: if_splits)

lemma digit_colon: "\<not> digit CHR '':''"
  by (simp add: digit_def less_eq_char_def)

lemma turn_index:
  assumes "''u'' @ dec i @ '':'' @ s = ''u'' @ dec j @ '':'' @ t"
  shows "i = j \<and> s = t"
proof -
  have run: "takeWhile digit (dec n @ CHR '':'' # xs) = dec n" for n xs
  proof -
    have "\<forall>c\<in>set (dec n). digit c" using dec_digits [of n] by (simp add: list_all_iff)
    then show ?thesis using digit_colon by (simp add: takeWhile_append2)
  qed
  have eq: "dec i @ CHR '':'' # s = dec j @ CHR '':'' # t" using assms by simp
  have "dec i = dec j" using arg_cong [where f = "takeWhile digit", OF eq] unfolding run .
  then show ?thesis using eq dec_inj by simp
qed

text \<open>
  A turn has one key: whatever assistant and tool messages follow the last user message in later
  calls of the turn, the key stays the same; and the next user message that can be signed starts a
  turn with another key, even if it repeats an earlier one word for word.
\<close>

theorem turn_key_per_turn:
  assumes "list_all (\<lambda>m. rm_Role m \<noteq> ''user'') later"
  shows "turn_key lib (ms @ later) = turn_key lib ms \<and>
    (rm_Role m = ''user'' \<and> contentSignature lib (rm_Content m) \<noteq> [] \<longrightarrow>
      turn_key lib (ms @ later @ [m]) \<noteq> [] \<and> turn_key lib (ms @ later @ [m]) \<noteq> turn_key lib ms)"
proof -
  have keep: "turn_key lib (ms @ later) = turn_key lib ms"
    using last_user_append [OF assms, of ms] by (simp add: turn_key_def)
  moreover have "turn_key lib (ms @ later @ [m]) \<noteq> [] \<and> turn_key lib (ms @ later @ [m]) \<noteq> turn_key lib ms"
    if "rm_Role m = ''user''" and "contentSignature lib (rm_Content m) \<noteq> []"
  proof -
    let ?n = "length (ms @ later)"
    have new: "turn_key lib (ms @ later @ [m]) = ''u'' @ dec ?n @ '':'' @ contentSignature lib (rm_Content m)"
      using that by (simp add: turn_key_def nth_append Let_def)
    have "turn_key lib ms \<noteq> turn_key lib (ms @ later @ [m])"
    proof (cases "last_user ms (length ms)")
      case None
      then have "turn_key lib ms = []" by (simp add: turn_key_def)
      then show ?thesis unfolding new by simp
    next
      case (Some p)
      obtain i c where p: "p = (i, c)" by force
      have i: "i < ?n" using last_user_lt [of ms "length ms" i c] Some p by simp
      have "turn_key lib ms = (if contentSignature lib c = [] then [] else ''u'' @ dec i @ '':'' @ contentSignature lib c)"
        using Some p by (simp add: turn_key_def Let_def)
      then show ?thesis
        unfolding new using i turn_index [of i "contentSignature lib c" ?n] by (auto split: if_splits)
    qed
    then show ?thesis using new by auto
  qed
  ultimately show ?thesis by blast
qed

definition demo_raw :: raw_lib where
  "demo_raw = \<lparr>rl_messages = (\<lambda>_. None), rl_string = (\<lambda>s. Some ''go on''), rl_parts = (\<lambda>_. None),
     rl_part = (\<lambda>_. None), rl_texts = (\<lambda>_. None), rl_hash4 = (\<lambda>s. s), rl_hash16 = (\<lambda>s. s)\<rparr>"

definition demo_user :: raw_msg where
  "demo_user = \<lparr>rm_Role = ''user'', rm_Content = [CHR 0x22] @ ''go on'' @ [CHR 0x22]\<rparr>"

lemma turn_key_per_turn_witness:
  "turn_key demo_raw ([demo_user] @ [\<lparr>rm_Role = ''tool'', rm_Content = []\<rparr>]) = ''u0:go on'' \<and>
   turn_key demo_raw ([demo_user] @ [\<lparr>rm_Role = ''tool'', rm_Content = []\<rparr>] @ [demo_user]) \<noteq> ''u0:go on''"
proof -
  let ?later = "[\<lparr>rm_Role = ''tool'', rm_Content = []\<rparr>]"
  have "turn_key demo_raw [demo_user] = ''u0:go on''" by code_simp
  moreover have "list_all (\<lambda>m. rm_Role m \<noteq> ''user'') ?later" by simp
  moreover have "rm_Role demo_user = ''user''" "contentSignature demo_raw (rm_Content demo_user) \<noteq> []" by code_simp+
  ultimately show ?thesis using turn_key_per_turn [of ?later demo_raw "[demo_user]" demo_user] by simp
qed

end
