(* ===== verification/Go_Path.thy ===== *)
theory Go_Path
  imports Prelude
begin

text \<open>
  The functions of Go's \<^verbatim>\<open>path/filepath\<close> that the plugin uses, on a Unix system: a path is a string, a
  segment what lies between slashes. \<open>Clean\<close>, \<open>Base\<close>, \<open>Dir\<close>, \<open>Join\<close> and \<open>Rel\<close> are lexical, as in the library.
\<close>

section \<open>Splitting and joining\<close>

fun Split :: "char \<Rightarrow> string \<Rightarrow> string list" where
  "Split c [] = [[]]"
| "Split c (x # xs) = (if x = c then [] # Split c xs
     else case Split c xs of w # ws \<Rightarrow> (x # w) # ws | [] \<Rightarrow> [[x]])"

fun join_with :: "string \<Rightarrow> string list \<Rightarrow> string" where
  "join_with sep [] = []"
| "join_with sep [s] = s"
| "join_with sep (s # t # ss) = s @ sep @ join_with sep (t # ss)"

abbreviation slash :: char where "slash \<equiv> CHR ''/''"

lemma Split_ne [simp]: "Split c s \<noteq> []"
  by (induction s) (auto split: list.splits)

lemma Split_simple: "c \<notin> set s \<Longrightarrow> Split c s = [s]"
  by (induction s) auto

lemma Split_append: "Split c (s @ c # t) = Split c s @ Split c t"
proof (induction s)
  case (Cons x s)
  obtain w ws where "Split c s = w # ws" by (metis Split_ne list.exhaust)
  with Cons show ?case by simp
qed simp

lemma Split_free: "w \<in> set (Split c s) \<Longrightarrow> c \<notin> set w"
proof (induction s arbitrary: w)
  case (Cons x s)
  obtain v ws where s: "Split c s = v # ws" by (metis Split_ne list.exhaust)
  show ?case
  proof (cases "x = c")
    case False
    then have "w = x # v \<or> w \<in> set ws" using Cons.prems s by simp
    moreover have "c \<notin> set v" "\<And>u. u \<in> set ws \<Longrightarrow> c \<notin> set u" using Cons.IH s by auto
    ultimately show ?thesis using False by auto
  qed (use Cons in auto)
qed simp

lemma join_Cons: "ss \<noteq> [] \<Longrightarrow> join_with sep (s # ss) = s @ sep @ join_with sep ss"
  by (cases ss) auto

lemma Split_join:
  "ss \<noteq> [] \<Longrightarrow> (\<And>s. s \<in> set ss \<Longrightarrow> c \<notin> set s) \<Longrightarrow> Split c (join_with [c] ss) = ss"
proof (induction ss)
  case (Cons s ss)
  show ?case
  proof (cases "ss = []")
    case True
    then show ?thesis using Cons.prems(2) by (simp add: Split_simple)
  next
    case False
    have "Split c (s @ c # join_with [c] ss) = Split c s @ Split c (join_with [c] ss)" by (rule Split_append)
    also have "\<dots> = s # ss" using Cons.IH [OF False] Cons.prems(2) by (simp add: Split_simple)
    finally show ?thesis using join_Cons [OF False] by simp
  qed
qed simp

section \<open>Paths\<close>

definition IsAbs :: "string \<Rightarrow> bool" where
  "IsAbs p = prefix ''/'' p"

definition path_segs :: "string \<Rightarrow> string list" where
  "path_segs p = filter (\<lambda>s. s \<noteq> [] \<and> s \<noteq> ''.'') (Split slash p)"

text \<open>One segment after another goes on a stack, and \<open>..\<close> takes the last one off again.\<close>

definition clean_step :: "bool \<Rightarrow> string list \<Rightarrow> string \<Rightarrow> string list" where
  "clean_step rooted out s =
     (if s = ''..'' then (case out of
          [] \<Rightarrow> if rooted then [] else [''..'']
        | t # ts \<Rightarrow> if t = ''..'' then ''..'' # out else ts)
      else s # out)"

definition clean_segs :: "string \<Rightarrow> string list" where
  "clean_segs p = rev (foldl (clean_step (IsAbs p)) [] (path_segs p))"

definition Clean :: "string \<Rightarrow> string" where
  "Clean p =
     (if p = [] then ''.''
      else let r = join_with ''/'' (clean_segs p)
           in if IsAbs p then ''/'' @ r else if r = [] then ''.'' else r)"

definition Base :: "string \<Rightarrow> string" where
  "Base p =
     (if p = [] then ''.''
      else let q = rev (dropWhile (\<lambda>c. c = slash) (rev p))
           in if q = [] then ''/'' else last (Split slash q))"

definition Dir :: "string \<Rightarrow> string" where
  "Dir p = Clean (rev (dropWhile (\<lambda>c. c \<noteq> slash) (rev p)))"

definition PathJoin :: "string \<Rightarrow> string \<Rightarrow> string" where
  "PathJoin d f = (if d \<noteq> [] then Clean (d @ ''/'' @ f) else if f \<noteq> [] then Clean f else [])"

fun strip_common :: "string list \<Rightarrow> string list \<Rightarrow> string list \<times> string list" where
  "strip_common (b # bs) (t # ts) = (if b = t then strip_common bs ts else (b # bs, t # ts))"
| "strip_common bs ts = (bs, ts)"

text \<open>\<open>None\<close> is the error that no relative path can be made.\<close>

definition Rel :: "string \<Rightarrow> string \<Rightarrow> string option" where
  "Rel base targ =
     (let b = Clean base; t = Clean targ in
      if b = t then Some ''.''
      else let b = (if b = ''.'' then [] else b) in
        if IsAbs b \<noteq> IsAbs t then None
        else case strip_common (if b = [] then [] else Split slash b) (Split slash t) of (bs, ts) \<Rightarrow>
          if bs = [] \<or> bs = [[]] then Some (join_with ''/'' ts)
          else if hd bs = ''..'' \<and> ts \<noteq> [] \<and> ts \<noteq> [[]] then None
          else Some (join_with ''/'' (map (\<lambda>_. ''..'') bs) @
            (if ts = [] \<or> ts = [[]] then [] else ''/'' @ join_with ''/'' ts)))"

section \<open>The directory of a path and its last segment\<close>

lemma path_segs_append: "path_segs (d @ slash # f) = path_segs d @ path_segs f"
  by (simp add: path_segs_def Split_append)

lemma path_segs_slash: "path_segs (d @ ''/'') = path_segs d"
  using path_segs_append [of d "[]"] by (simp add: path_segs_def)

text \<open>A segment that \<open>Clean\<close> keeps as it is.\<close>

definition seg_ok :: "string \<Rightarrow> bool" where
  "seg_ok s = (s \<noteq> [] \<and> s \<noteq> ''.'' \<and> slash \<notin> set s)"

definition plain_seg :: "string \<Rightarrow> bool" where
  "plain_seg s = (seg_ok s \<and> s \<noteq> ''..'')"

lemma clean_step_plain: "list_all plain_seg out \<Longrightarrow> seg_ok s \<Longrightarrow> list_all plain_seg (clean_step True out s)"
  unfolding clean_step_def by (cases out) (auto simp: plain_seg_def)

lemma rooted_clean:
  "list_all plain_seg out \<Longrightarrow> list_all seg_ok ss \<Longrightarrow> list_all plain_seg (foldl (clean_step True) out ss)"
  by (induction ss arbitrary: out) (simp_all add: clean_step_plain)

lemma path_segs_ok: "list_all seg_ok (path_segs p)"
  unfolding list_all_iff seg_ok_def path_segs_def using Split_free by auto

lemma clean_segs_plain:
  assumes "IsAbs p"
  shows "list_all plain_seg (clean_segs p)"
  using rooted_clean [OF _ path_segs_ok, of "[]" p] assms by (simp add: clean_segs_def list_all_iff)

lemma clean_plain_fold: "list_all plain_seg ss \<Longrightarrow> foldl (clean_step b) out ss = rev ss @ out"
  by (induction ss arbitrary: out) (simp_all add: clean_step_def plain_seg_def)

lemma Split_rooted:
  assumes "ss \<noteq> []" and "list_all seg_ok ss"
  shows "Split slash (''/'' @ join_with ''/'' ss) = [] # ss"
  using Split_append [of slash "[]" "join_with ''/'' ss"] Split_join [OF assms(1), of slash] assms(2)
  by (simp add: list_all_iff seg_ok_def)

lemma path_segs_join:
  assumes "list_all seg_ok ss"
  shows "path_segs (''/'' @ join_with ''/'' ss) = ss"
proof (cases "ss = []")
  case False
  have "filter (\<lambda>s. s \<noteq> [] \<and> s \<noteq> ''.'') ss = ss"
    using assms by (simp add: filter_id_conv list_all_iff seg_ok_def)
  then show ?thesis using Split_rooted [OF False assms] by (simp add: path_segs_def)
qed (simp add: path_segs_def)

lemma plain_ok: "list_all plain_seg ss \<Longrightarrow> list_all seg_ok ss"
  by (simp add: list_all_iff plain_seg_def)

text \<open>A rooted path of plain segments is clean already.\<close>

lemma Clean_plain:
  assumes "list_all plain_seg ss"
  shows "Clean (''/'' @ join_with ''/'' ss) = ''/'' @ join_with ''/'' ss"
    and "clean_segs (''/'' @ join_with ''/'' ss) = ss"
proof -
  have "path_segs (''/'' @ join_with ''/'' ss) = ss" by (rule path_segs_join [OF plain_ok [OF assms]])
  then show segs: "clean_segs (''/'' @ join_with ''/'' ss) = ss"
    using clean_plain_fold [OF assms] by (simp add: clean_segs_def)
  show "Clean (''/'' @ join_with ''/'' ss) = ''/'' @ join_with ''/'' ss"
    unfolding Clean_def Let_def segs by (simp add: IsAbs_def)
qed

lemma IsAbs_dir: "IsAbs (d @ ''/'' @ f) = IsAbs (d @ ''/'')"
  by (cases d) (auto simp: IsAbs_def)

lemma Clean_file:
  assumes "IsAbs (d @ ''/'')" and "plain_seg f"
  shows "Clean (d @ ''/'' @ f) = ''/'' @ join_with ''/'' (clean_segs (d @ ''/'') @ [f])"
    and "clean_segs (d @ ''/'' @ f) = clean_segs (d @ ''/'') @ [f]"
proof -
  have abs: "IsAbs (d @ ''/'' @ f)" using assms(1) IsAbs_dir by blast
  have f: "path_segs f = [f]" using assms(2) by (simp add: path_segs_def Split_simple plain_seg_def seg_ok_def)
  have "path_segs (d @ ''/'' @ f) = path_segs (d @ ''/'') @ [f]"
    using path_segs_append [of d f] by (simp add: path_segs_slash f)
  then show segs: "clean_segs (d @ ''/'' @ f) = clean_segs (d @ ''/'') @ [f]"
    using abs assms by (simp add: clean_segs_def clean_step_def plain_seg_def)
  show "Clean (d @ ''/'' @ f) = ''/'' @ join_with ''/'' (clean_segs (d @ ''/'') @ [f])"
    using abs segs by (simp add: Clean_def)
qed

lemma Dir_file: "slash \<notin> set f \<Longrightarrow> Dir (d @ ''/'' @ f) = Clean (d @ ''/'')"
proof -
  assume "slash \<notin> set f"
  then have "dropWhile (\<lambda>c. c \<noteq> slash) (rev f @ rev (d @ ''/'')) = rev (d @ ''/'')"
    by (subst dropWhile_append2) auto
  then show ?thesis by (simp add: Dir_def)
qed

lemma Base_file: "slash \<notin> set f \<Longrightarrow> f \<noteq> [] \<Longrightarrow> Base (d @ ''/'' @ f) = f"
proof -
  assume f: "slash \<notin> set f" "f \<noteq> []"
  have "dropWhile (\<lambda>c. c = slash) (rev f @ rev (d @ ''/'')) = rev f @ rev (d @ ''/'')"
    using f by (cases "rev f") (auto simp: rev_eq_Cons_iff)
  moreover have "last (Split slash (d @ slash # f)) = f" using f by (simp add: Split_append Split_simple)
  ultimately show ?thesis by (simp add: Base_def)
qed

text \<open>Relative to its own directory, a file is its name.\<close>

lemma strip_common_prefix: "strip_common (xs @ ys) (xs @ zs) = strip_common ys zs"
  by (induction xs) auto

lemma Rel_own_dir:
  assumes "IsAbs (d @ ''/'')" and "plain_seg f"
  shows "Clean (d @ ''/'' @ f) \<noteq> Clean (Dir (d @ ''/'' @ f)) \<and> Rel (Dir (d @ ''/'' @ f)) (d @ ''/'' @ f) = Some f"
proof -
  let ?ss = "clean_segs (d @ ''/'')"
  have free: "slash \<notin> set f" "f \<noteq> []" using assms(2) by (simp_all add: plain_seg_def seg_ok_def)
  have plain: "list_all plain_seg ?ss" by (rule clean_segs_plain [OF assms(1)])
  with assms(2) have plain': "list_all plain_seg (?ss @ [f])" by simp
  have dir: "Clean (Dir (d @ ''/'' @ f)) = ''/'' @ join_with ''/'' ?ss"
    unfolding Dir_file [OF free(1)] using Clean_plain(1) [OF plain] assms(1) by (simp add: Clean_def)
  have targ: "Clean (d @ ''/'' @ f) = ''/'' @ join_with ''/'' (?ss @ [f])" by (rule Clean_file(1) [OF assms])
  have ne: "''/'' @ join_with ''/'' ?ss \<noteq> ''/'' @ join_with ''/'' (?ss @ [f])"
    using Clean_plain(2) [OF plain] Clean_plain(2) [OF plain'] by (metis append_self_conv list.distinct(1))
  have words: "Split slash (''/'' @ join_with ''/'' (?ss @ [f])) = [] # ?ss @ [f]"
    using Split_rooted [OF _ plain_ok [OF plain']] by simp
  have common: "strip_common (Split slash (''/'' @ join_with ''/'' ?ss)) ([] # ?ss @ [f]) =
      (if ?ss = [] then [[]] else [], [f])"
  proof (cases "?ss = []")
    case False
    then show ?thesis using Split_rooted [OF False plain_ok [OF plain]] strip_common_prefix [of ?ss "[]" "[f]"] by simp
  qed (use free in auto)
  have abs: "IsAbs (''/'' @ x)" "''/'' @ x \<noteq> ''.''" "''/'' @ x \<noteq> []" for x by (simp_all add: IsAbs_def)
  have "Rel (Dir (d @ ''/'' @ f)) (d @ ''/'' @ f) = Some f"
    unfolding Rel_def Let_def dir targ
    by (simp only: ne abs if_False if_True words common prod.case simp_thms) auto
  with ne dir targ show ?thesis by simp
qed

end
