(* ===== verification/Model_Facts.thy ===== *)
theory Model_Facts
  imports Scheduler Go_Path
begin

text \<open>
  What the plugin learns about models and from where, after
  \<^verbatim>\<open>src/plugin/model_source_workbuddy.go\<close>, \<^verbatim>\<open>src/plugin/model_source_modelsdev.go\<close> and the
  constructor of \<^verbatim>\<open>src/plugin/models.go\<close>: the catalogue that an account may use, fetched from the
  upstream over several endpoints, and the public metadata that fills what the catalogue leaves out.
  A pointer to an integer is an \<open>int option\<close> and a slice that may be nil is a \<open>string list option\<close>.
  A response body is decoded by an argument (\<open>decode\<close>), the structs it is decoded into are records;
  the transport is the argument \<open>send\<close>, a function of path and user agent, since no pair is
  requested twice.
\<close>

record modelFacts =
  mf_ID :: string
  mf_Name :: string
  mf_Description :: string
  mf_ContextLength :: "int option"
  mf_MaxCompletionTokens :: "int option"
  mf_InputModalities :: "string list option"
  mf_OutputModalities :: "string list option"

definition no_facts :: "string \<Rightarrow> modelFacts" where
  "no_facts mid = \<lparr>mf_ID = mid, mf_Name = [], mf_Description = [], mf_ContextLength = None,
     mf_MaxCompletionTokens = None, mf_InputModalities = None, mf_OutputModalities = None\<rparr>"

datatype factError =
    DecodeFailed | BadBusinessCode | DataMissing | MultipleCLI | CLIMissing
  | SnapshotEmpty | IDEmpty | IDTooLong | IDDuplicated | ContextNegative | OutputNegative
  | MetadataEmpty | CanonicalIDInvalid | ModelIDInvalid | IdentityInvalid | DescriptionUnsupported
  | ModalityListEmpty | ModalityEmpty | ModalityDuplicated

definition maxDiscoveredModelIDBytes :: nat where "maxDiscoveredModelIDBytes = 512"

definition negative :: "int option \<Rightarrow> bool" where
  "negative v = (case v of Some n \<Rightarrow> n < 0 | None \<Rightarrow> False)"

section \<open>Validation of a catalogue\<close>

definition trim_facts :: "modelFacts \<Rightarrow> modelFacts" where
  "trim_facts m = m\<lparr>mf_ID := TrimSpace (mf_ID m), mf_Name := TrimSpace (mf_Name m)\<rparr>"

fun validate_loop :: "string list \<Rightarrow> modelFacts list \<Rightarrow> factError + modelFacts list" where
  "validate_loop seen [] = Inr []"
| "validate_loop seen (m # ms) =
     (let m = trim_facts m in
      if mf_ID m = [] then Inl IDEmpty
      else if length (mf_ID m) > maxDiscoveredModelIDBytes then Inl IDTooLong
      else if mf_ID m \<in> set seen then Inl IDDuplicated
      else if negative (mf_ContextLength m) then Inl ContextNegative
      else if negative (mf_MaxCompletionTokens m) then Inl OutputNegative
      else case validate_loop (mf_ID m # seen) ms of
             Inl e \<Rightarrow> Inl e
           | Inr ms \<Rightarrow> Inr (m # ms))"

definition validateModelFacts :: "modelFacts list \<Rightarrow> factError + modelFacts list" where
  "validateModelFacts ms = (if ms = [] then Inl SnapshotEmpty else validate_loop [] ms)"

section \<open>The two forms of the catalogue\<close>

record v3Model =
  vm_ID :: string
  vm_Name :: string
  vm_Disabled :: bool
  vm_Context :: "int option"
  vm_Output :: "int option"
  vm_Images :: bool

record workBuddyAgentWire =
  wa_Name :: string
  wa_Models :: "string list"

record v3Config =
  v3_Code :: "int option"
  v3_Data :: "(workBuddyAgentWire list \<times> v3Model list) option"

definition v3_facts :: "v3Model \<Rightarrow> modelFacts" where
  "v3_facts m = \<lparr>mf_ID = (if vm_ID m = [] then vm_Name m else vm_ID m), mf_Name = vm_Name m,
     mf_Description = [], mf_ContextLength = vm_Context m, mf_MaxCompletionTokens = vm_Output m,
     mf_InputModalities = (if vm_Images m then Some [''text'', ''image''] else None),
     mf_OutputModalities = None\<rparr>"

definition parseWorkBuddyV3Config :: "v3Config option \<Rightarrow> factError + modelFacts list" where
  "parseWorkBuddyV3Config decoded = (case decoded of
      None \<Rightarrow> Inl DecodeFailed
    | Some response \<Rightarrow>
        if v3_Code response \<noteq> Some 0 then Inl BadBusinessCode
        else (case v3_Data response of
            None \<Rightarrow> Inl DataMissing
          | Some (agents, models) \<Rightarrow>
              if models \<noteq> [] then
                validateModelFacts (map v3_facts (filter (\<lambda>m. \<not> vm_Disabled m) models))
              else (case filter (\<lambda>a. wa_Name a = ''cli'') agents of
                  [] \<Rightarrow> Inl CLIMissing
                | [a] \<Rightarrow> validateModelFacts (map no_facts (wa_Models a))
                | _ \<Rightarrow> Inl MultipleCLI)))"

record workBuddyLegacyModelWire =
  lm_ID :: string
  lm_Name :: string
  lm_Description :: string
  lm_Disabled :: bool
  lm_ContextWindow :: "int option"
  lm_MaxTokens :: "int option"

record legacyModels =
  lg_Code :: "int option"
  lg_Data :: "workBuddyLegacyModelWire list option"

definition legacy_facts :: "workBuddyLegacyModelWire \<Rightarrow> modelFacts" where
  "legacy_facts m = \<lparr>mf_ID = lm_ID m, mf_Name = lm_Name m, mf_Description = lm_Description m,
     mf_ContextLength = lm_ContextWindow m, mf_MaxCompletionTokens = lm_MaxTokens m,
     mf_InputModalities = None, mf_OutputModalities = None\<rparr>"

definition parseWorkBuddyLegacyModels :: "legacyModels option \<Rightarrow> factError + modelFacts list" where
  "parseWorkBuddyLegacyModels decoded = (case decoded of
      None \<Rightarrow> Inl DecodeFailed
    | Some response \<Rightarrow>
        if lg_Code response \<noteq> Some 0 then Inl BadBusinessCode
        else (case lg_Data response of
            None \<Rightarrow> Inl DataMissing
          | Some wire \<Rightarrow> (case validateModelFacts (map legacy_facts wire) of
                Inl e \<Rightarrow> Inl e
              | Inr models \<Rightarrow> validateModelFacts
                  (map fst (filter (\<lambda>(m, w). \<not> lm_Disabled w) (zip models wire))))))"

section \<open>Fetching the catalogue\<close>

datatype modelSourceError =
    TransportFailure
  | HTTPFailure int
  | SchemaFailure "factError option"

datatype workBuddyRealm = RealmCN | RealmGlobal | RealmOther string

datatype workBuddyEndpointKind = V3Config | LegacyPersonalModels | OtherEndpoint string

record workBuddyCatalog =
  wc_Realm :: workBuddyRealm
  wc_Endpoint :: workBuddyEndpointKind
  wc_Models :: "modelFacts list"

record http_answer =
  ha_Status :: int
  ha_Body :: string

text \<open>\<open>send\<close> returns nothing on a transport error and on an empty response, which are treated alike.\<close>

type_synonym model_do = "string \<Rightarrow> string \<Rightarrow> http_answer option"

record catalog_json =
  cj_v3 :: "string \<Rightarrow> v3Config option"
  cj_legacy :: "string \<Rightarrow> legacyModels option"

definition schema_error :: "factError + 'a \<Rightarrow> modelSourceError + 'a" where
  "schema_error r = (case r of Inl e \<Rightarrow> Inl (SchemaFailure (Some e)) | Inr x \<Rightarrow> Inr x)"

definition v3_path :: string where "v3_path = ''/v3/config''"
definition v2_path :: string where "v2_path = ''/v2/enterprises/personal/models''"
definition console_path :: string where "console_path = ''/console/enterprises/personal/models''"

definition fetch_cn :: "catalog_json \<Rightarrow> model_do \<Rightarrow> string \<Rightarrow> modelSourceError + workBuddyCatalog" where
  "fetch_cn lib send ua = (case send v3_path ua of
      None \<Rightarrow> Inl TransportFailure
    | Some resp \<Rightarrow>
        if ha_Status resp = 200 then
          (case schema_error (parseWorkBuddyV3Config (cj_v3 lib (ha_Body resp))) of
             Inl e \<Rightarrow> Inl e
           | Inr models \<Rightarrow> Inr \<lparr>wc_Realm = RealmCN, wc_Endpoint = V3Config, wc_Models = models\<rparr>)
        else if ha_Status resp \<noteq> 404 \<and> ha_Status resp \<noteq> 405 then Inl (HTTPFailure (ha_Status resp))
        else (case send console_path ua of
            None \<Rightarrow> Inl TransportFailure
          | Some resp \<Rightarrow>
              if ha_Status resp \<noteq> 200 then Inl (HTTPFailure (ha_Status resp))
              else (case schema_error (parseWorkBuddyLegacyModels (cj_legacy lib (ha_Body resp))) of
                 Inl e \<Rightarrow> Inl e
               | Inr models \<Rightarrow>
                   Inr \<lparr>wc_Realm = RealmCN, wc_Endpoint = LegacyPersonalModels, wc_Models = models\<rparr>)))"

text \<open>The variables that the closure \<open>request\<close> of the global fetch shares.\<close>

record global_fetch =
  gf_merged :: "modelFacts list"
  gf_endpoint :: workBuddyEndpointKind
  gf_lastErr :: "modelSourceError option"

fun merge_models :: "modelFacts list \<Rightarrow> modelFacts list \<Rightarrow> modelFacts list" where
  "merge_models merged [] = merged"
| "merge_models merged (m # ms) =
     merge_models (if mf_ID m \<in> set (map mf_ID merged) then merged else merged @ [m]) ms"

definition global_request ::
  "model_do \<Rightarrow> string \<Rightarrow> string \<Rightarrow> (string \<Rightarrow> factError + modelFacts list) \<Rightarrow> global_fetch \<Rightarrow> bool \<times> global_fetch" where
  "global_request send path ua parse g = (case send path ua of
      None \<Rightarrow> (False, g\<lparr>gf_lastErr := Some TransportFailure\<rparr>)
    | Some resp \<Rightarrow>
        if ha_Status resp \<noteq> 200 then (False, g\<lparr>gf_lastErr := Some (HTTPFailure (ha_Status resp))\<rparr>)
        else (case parse (ha_Body resp) of
            Inl e \<Rightarrow> (False, g\<lparr>gf_lastErr := Some (SchemaFailure (Some e))\<rparr>)
          | Inr models \<Rightarrow>
              (True, g\<lparr>gf_endpoint := (if path = v3_path then V3Config else gf_endpoint g),
                       gf_merged := merge_models (gf_merged g) models\<rparr>)))"

definition global_agents :: "string \<Rightarrow> string list" where
  "global_agents desktop = [desktop, ''CodeBuddyIDE/4.12.0 CodeBuddy/4.12.0'', ''CLI/2.63.2 CodeBuddy/2.63.2'']"

definition global_requests :: "catalog_json \<Rightarrow> model_do \<Rightarrow> string \<Rightarrow> global_fetch" where
  "global_requests lib send desktop =
     (let v3 = (\<lambda>body. parseWorkBuddyV3Config (cj_v3 lib body));
          legacy = (\<lambda>body. parseWorkBuddyLegacyModels (cj_legacy lib body));
          g = foldl (\<lambda>g ua. snd (global_request send v3_path ua v3 g))
            \<lparr>gf_merged = [], gf_endpoint = LegacyPersonalModels, gf_lastErr = None\<rparr> (global_agents desktop)
      in case global_request send v2_path desktop legacy g of
           (True, g) \<Rightarrow> g
         | (False, g) \<Rightarrow> snd (global_request send console_path desktop legacy g))"

definition fetchGlobalWorkBuddyCatalog ::
  "catalog_json \<Rightarrow> model_do \<Rightarrow> string \<Rightarrow> modelSourceError + workBuddyCatalog" where
  "fetchGlobalWorkBuddyCatalog lib send desktop =
     (let g = global_requests lib send desktop in
      if gf_merged g = [] then
        Inl (case gf_lastErr g of None \<Rightarrow> SchemaFailure None | Some e \<Rightarrow> e)
      else Inr \<lparr>wc_Realm = RealmGlobal, wc_Endpoint = gf_endpoint g, wc_Models = gf_merged g\<rparr>)"

text \<open>
  The realm is read from the issuer of the access token. \<open>claims\<close> decodes the middle part of the
  token (base64 and JSON) to the issuer, \<open>host\<close> is the host name of an absolute URL.
\<close>

definition workBuddyRealmFromAccessToken ::
  "(string \<Rightarrow> string option) \<Rightarrow> (string \<Rightarrow> string option) \<Rightarrow> string \<Rightarrow> workBuddyRealm option" where
  "workBuddyRealmFromAccessToken claims host token = (case Split (CHR ''.'') token of
      [_, payload, _] \<Rightarrow> (case Option.bind (claims payload) host of
          None \<Rightarrow> None
        | Some h \<Rightarrow>
            if ToLower h \<in> {''codebuddy.cn'', ''www.codebuddy.cn'', ''copilot.tencent.com''} then Some RealmCN
            else if ToLower h = ''workbuddy.ai'' then Some RealmGlobal
            else None)
    | _ \<Rightarrow> None)"

definition fetchWorkBuddyCatalog ::
  "catalog_json \<Rightarrow> workBuddyRealm option \<Rightarrow> model_do \<Rightarrow> string \<Rightarrow> string \<Rightarrow> modelSourceError + workBuddyCatalog" where
  "fetchWorkBuddyCatalog lib realm send backend desktop = (case realm of
      None \<Rightarrow> Inl (SchemaFailure None)
    | Some r \<Rightarrow> if r = RealmGlobal then fetchGlobalWorkBuddyCatalog lib send desktop
                else fetch_cn lib send backend)"

section \<open>Public metadata\<close>

record modelsDevModelWire =
  dw_ID :: string
  dw_Name :: string
  dw_Limit :: "(int option \<times> int option) option"
  dw_Modalities :: "(string list option \<times> string list option) option"

definition validModelsDevCanonicalID :: "string \<Rightarrow> bool" where
  "validModelsDevCanonicalID mid =
     (\<not> (mid = [] \<or> length mid > maxDiscoveredModelIDBytes \<or> mid \<noteq> TrimSpace mid) \<and>
      (let segments = Split (CHR ''/'') mid in
       \<not> length segments < 2 \<and> list_all (\<lambda>s. TrimSpace s \<noteq> []) segments))"

fun modalities_loop :: "string list \<Rightarrow> string list \<Rightarrow> factError + string list" where
  "modalities_loop seen [] = Inr []"
| "modalities_loop seen (v # vs) =
     (let v = TrimSpace v in
      if v = [] then Inl ModalityEmpty
      else if v \<in> set seen then Inl ModalityDuplicated
      else case modalities_loop (v # seen) vs of Inl e \<Rightarrow> Inl e | Inr vs \<Rightarrow> Inr (v # vs))"

definition validateModelsDevModalities :: "string list option \<Rightarrow> factError + string list option" where
  "validateModelsDevModalities values = (case values of
      None \<Rightarrow> Inr None
    | Some [] \<Rightarrow> Inl ModalityListEmpty
    | Some vs \<Rightarrow> (case modalities_loop [] vs of Inl e \<Rightarrow> Inl e | Inr vs \<Rightarrow> Inr (Some vs)))"

definition validateModelsDevCanonicalRecord :: "string \<Rightarrow> modelFacts \<Rightarrow> factError + modelFacts" where
  "validateModelsDevCanonicalRecord canonicalID facts =
     (if \<not> validModelsDevCanonicalID canonicalID \<or> mf_ID facts \<noteq> canonicalID then Inl IdentityInvalid
      else if mf_Description facts \<noteq> [] then Inl DescriptionUnsupported
      else if negative (mf_ContextLength facts) then Inl ContextNegative
      else if negative (mf_MaxCompletionTokens facts) then Inl OutputNegative
      else case validateModelsDevModalities (mf_InputModalities facts) of
          Inl e \<Rightarrow> Inl e
        | Inr input \<Rightarrow> (case validateModelsDevModalities (mf_OutputModalities facts) of
              Inl e \<Rightarrow> Inl e
            | Inr output \<Rightarrow> Inr (facts\<lparr>mf_Name := TrimSpace (mf_Name facts),
                mf_InputModalities := input, mf_OutputModalities := output\<rparr>)))"

definition dev_facts :: "string \<Rightarrow> modelsDevModelWire \<Rightarrow> modelFacts" where
  "dev_facts canonicalID model = \<lparr>mf_ID = canonicalID, mf_Name = dw_Name model, mf_Description = [],
     mf_ContextLength = Option.bind (dw_Limit model) fst,
     mf_MaxCompletionTokens = Option.bind (dw_Limit model) snd,
     mf_InputModalities = Option.bind (dw_Modalities model) fst,
     mf_OutputModalities = Option.bind (dw_Modalities model) snd\<rparr>"

text \<open>The decoded map is traversed in the order of the list; the records are the map built on the way.\<close>

fun dev_loop :: "(string \<times> modelsDevModelWire) list \<Rightarrow> factError + (string, modelFacts) gomap" where
  "dev_loop [] = Inr []"
| "dev_loop ((canonicalID, model) # wire) =
     (if \<not> validModelsDevCanonicalID canonicalID then Inl CanonicalIDInvalid
      else if TrimSpace (dw_ID model) = [] \<or> length (TrimSpace (dw_ID model)) > maxDiscoveredModelIDBytes
        then Inl ModelIDInvalid
      else case validateModelsDevCanonicalRecord canonicalID (dev_facts canonicalID model) of
          Inl e \<Rightarrow> Inl e
        | Inr facts \<Rightarrow> (case dev_loop wire of
              Inl e \<Rightarrow> Inl e
            | Inr records \<Rightarrow> Inr ((canonicalID, facts) # records)))"

definition parseModelsDevMetadata ::
  "(string, modelsDevModelWire) gomap option \<Rightarrow> factError + (string, modelFacts) gomap" where
  "parseModelsDevMetadata decoded = (case decoded of
      None \<Rightarrow> Inl DecodeFailed
    | Some wire \<Rightarrow> if wire = [] then Inl MetadataEmpty else dev_loop wire)"

datatype modelsDevFetchResult =
    NotModified string
  | Fetched string "(string, modelFacts) gomap"

record dev_answer =
  da_Status :: int
  da_ETag :: string
  da_Body :: "(string, modelsDevModelWire) gomap option"

definition fetchModelsDevMetadata :: "dev_answer option \<Rightarrow> modelSourceError + modelsDevFetchResult" where
  "fetchModelsDevMetadata resp = (case resp of
      None \<Rightarrow> Inl TransportFailure
    | Some a \<Rightarrow>
        if da_Status a = 304 then Inr (NotModified (da_ETag a))
        else if da_Status a \<noteq> 200 then Inl (HTTPFailure (da_Status a))
        else (case parseModelsDevMetadata (da_Body a) of
            Inl e \<Rightarrow> Inl (SchemaFailure (Some e))
          | Inr records \<Rightarrow> Inr (Fetched (da_ETag a) records)))"

section \<open>Combining the sources\<close>

definition last_segment :: "string \<Rightarrow> string" where
  "last_segment mid = last (Split (CHR ''/'') mid)"

text \<open>The loop over the records: a second match withdraws the first.\<close>

fun match_loop :: "string \<Rightarrow> (string \<times> modelFacts) list \<Rightarrow> modelFacts option \<Rightarrow> modelFacts option" where
  "match_loop rawID [] found = found"
| "match_loop rawID ((canonicalID, record) # rest) found =
     (if last_segment canonicalID \<noteq> rawID then match_loop rawID rest found
      else if found \<noteq> None then None
      else match_loop rawID rest (Some record))"

definition matchModelsDevRecord :: "string \<Rightarrow> (string, modelFacts) gomap \<Rightarrow> modelFacts option" where
  "matchModelsDevRecord rawID records = (case gm_get records rawID of
      Some record \<Rightarrow> Some record
    | None \<Rightarrow> match_loop rawID records None)"

text \<open>\<open>append([]string(nil), s...)\<close> copies a slice, and an empty one becomes nil.\<close>

definition clone_slice :: "string list option \<Rightarrow> string list option" where
  "clone_slice s = (if s = Some [] then None else s)"

definition cloneModelFacts :: "modelFacts \<Rightarrow> modelFacts" where
  "cloneModelFacts m = m\<lparr>mf_InputModalities := clone_slice (mf_InputModalities m),
     mf_OutputModalities := clone_slice (mf_OutputModalities m)\<rparr>"

definition fill_slice :: "string list option \<Rightarrow> string list option \<Rightarrow> string list option" where
  "fill_slice dst src = (if dst = None \<or> dst = Some [] then clone_slice src else dst)"

definition fillMissingModelFacts :: "modelFacts \<Rightarrow> modelFacts \<Rightarrow> modelFacts" where
  "fillMissingModelFacts dst src = dst\<lparr>
     mf_Name := (if mf_Name dst = [] then mf_Name src else mf_Name dst),
     mf_Description := (if mf_Description dst = [] then mf_Description src else mf_Description dst),
     mf_ContextLength := (if mf_ContextLength dst = None then mf_ContextLength src else mf_ContextLength dst),
     mf_MaxCompletionTokens := (if mf_MaxCompletionTokens dst = None then mf_MaxCompletionTokens src
       else mf_MaxCompletionTokens dst),
     mf_InputModalities := fill_slice (mf_InputModalities dst) (mf_InputModalities src),
     mf_OutputModalities := fill_slice (mf_OutputModalities dst) (mf_OutputModalities src)\<rparr>"

text \<open>The fields of the host's \<open>ModelInfo\<close> that the plugin sets.\<close>

record modelInfo =
  mi_ID :: string
  mi_Name :: string
  mi_OwnedBy :: string
  mi_Description :: string
  mi_ContextLength :: int
  mi_MaxCompletionTokens :: int
  mi_GenerationMethods :: "string list"
  mi_InputModalities :: "string list option"
  mi_OutputModalities :: "string list option"

definition defaultModelInfo :: "string \<Rightarrow> string \<Rightarrow> modelInfo" where
  "defaultModelInfo mid name =
     (let mid = TrimSpace mid; name = TrimSpace name in
      \<lparr>mi_ID = mid, mi_Name = (if name = [] then mid else name), mi_OwnedBy = providerName,
       mi_Description = [], mi_ContextLength = 0, mi_MaxCompletionTokens = 0,
       mi_GenerationMethods = [''chat''], mi_InputModalities = None, mi_OutputModalities = None\<rparr>)"

definition modelInfoFromSources :: "modelFacts \<Rightarrow> modelFacts option \<Rightarrow> modelInfo" where
  "modelInfoFromSources serving canonical =
     (let merged = cloneModelFacts serving;
          merged = (case canonical of None \<Rightarrow> merged | Some c \<Rightarrow> fillMissingModelFacts merged c)
      in (defaultModelInfo (mf_ID serving) (mf_Name merged))\<lparr>
           mi_Description := mf_Description merged,
           mi_ContextLength := (case mf_ContextLength merged of Some n \<Rightarrow> n | None \<Rightarrow> 0),
           mi_MaxCompletionTokens := (case mf_MaxCompletionTokens merged of Some n \<Rightarrow> n | None \<Rightarrow> 0),
           mi_InputModalities := clone_slice (mf_InputModalities merged),
           mi_OutputModalities := clone_slice (mf_OutputModalities merged)\<rparr>)"

end
