(* ===== verification/Model_Store.thy ===== *)
theory Model_Store
  imports Model_Facts
begin

text \<open>
  The cache of model catalogues on disk, after \<^verbatim>\<open>src/plugin/model_store.go\<close>: what makes a cache file
  valid, loading with a backup file, and the replacement of a file in steps each of which may fail.
  A file is absent, unreadable or its bytes; a directory is a function from paths to files. Temporary
  files have fresh names and are removed, so that only their creation, which may fail, is modelled.
  The JSON codec of the two cache formats is the argument \<open>lib\<close>.
\<close>

record storedAuth =
  sto_AccessToken :: string
  sto_RefreshToken :: string
  sto_ExpiresAt :: int
  sto_Domain :: string
  sto_UID :: string
  sto_EnterpriseID :: string
  sto_Nickname :: string
  sto_DeviceToken :: string

definition accountRegion :: "storedAuth \<Rightarrow> string" where
  "accountRegion sa = (if isGlobalDomain (sto_Domain sa) then ''global'' else ''cn'')"

section \<open>The identity of a catalogue\<close>

record modelAuthIdentity =
  id_Provider :: string
  id_Realm :: workBuddyRealm
  id_UID :: string
  id_EnterpriseID :: string
  id_AuthID :: string

definition region_realm :: "string \<Rightarrow> workBuddyRealm" where
  "region_realm r = (if r = ''cn'' then RealmCN else if r = ''global'' then RealmGlobal else RealmOther r)"

definition modelAuthIdentityFor ::
  "workBuddyRealm option \<Rightarrow> string \<Rightarrow> storedAuth \<Rightarrow> modelAuthIdentity option" where
  "modelAuthIdentityFor realm authID sa =
     (let i = \<lparr>id_Provider = providerName,
            id_Realm = (case realm of Some r \<Rightarrow> r | None \<Rightarrow> region_realm (accountRegion sa)),
            id_UID = TrimSpace (sto_UID sa), id_EnterpriseID = TrimSpace (sto_EnterpriseID sa), id_AuthID = []\<rparr>
      in if id_UID i = [] then
           (if TrimSpace authID = [] then None else Some (i\<lparr>id_AuthID := TrimSpace authID\<rparr>))
         else Some i)"

text \<open>\<open>hash\<close> is the hexadecimal SHA-256 of the encoded identity.\<close>

definition identity_sha256 :: "(modelAuthIdentity \<Rightarrow> string) \<Rightarrow> modelAuthIdentity \<Rightarrow> string" where
  "identity_sha256 hash i =
     (let i = i\<lparr>id_Provider := TrimSpace (id_Provider i), id_UID := TrimSpace (id_UID i),
            id_EnterpriseID := TrimSpace (id_EnterpriseID i)\<rparr>
      in hash (i\<lparr>id_AuthID := (if id_UID i = [] then TrimSpace (id_AuthID i) else [])\<rparr>))"

section \<open>Valid caches\<close>

definition modelCacheSchemaVersion :: int where "modelCacheSchemaVersion = 1"

record metadataCacheV1 =
  md_SchemaVersion :: int
  md_ETag :: string
  md_FetchedAt :: gtime
  md_Records :: "(string, modelFacts) gomap"

record modelCatalogCacheV1 =
  ct_SchemaVersion :: int
  ct_IdentitySHA256 :: string
  ct_Realm :: workBuddyRealm
  ct_FetchedAt :: gtime
  ct_Endpoint :: workBuddyEndpointKind
  ct_Models :: "modelFacts list"

datatype cacheError = FutureSchema | CacheInvalid | CacheUnreadable | IOFailed

definition validateModelCacheSchema :: "int \<Rightarrow> cacheError option" where
  "validateModelCacheSchema version =
     (if version > modelCacheSchemaVersion then Some FutureSchema
      else if version \<noteq> modelCacheSchemaVersion then Some CacheInvalid
      else None)"

definition hex_digit :: "char \<Rightarrow> bool" where
  "hex_digit c = (c \<in> set ''0123456789abcdefABCDEF'')"

definition validModelIdentitySHA256 :: "string \<Rightarrow> bool" where
  "validModelIdentitySHA256 v = (length v = 64 \<and> v = ToLower v \<and> list_all hex_digit v)"

definition slice :: "string list option \<Rightarrow> string list" where
  "slice s = (case s of None \<Rightarrow> [] | Some vs \<Rightarrow> vs)"

definition record_normalized :: "string \<times> modelFacts \<Rightarrow> bool" where
  "record_normalized b = (case validateModelsDevCanonicalRecord (fst b) (snd b) of
      Inl e \<Rightarrow> False
    | Inr v \<Rightarrow> mf_Name v = mf_Name (snd b) \<and>
        slice (mf_InputModalities v) = slice (mf_InputModalities (snd b)) \<and>
        slice (mf_OutputModalities v) = slice (mf_OutputModalities (snd b)))"

definition validateMetadataCache :: "metadataCacheV1 \<Rightarrow> cacheError option" where
  "validateMetadataCache cache = (case validateModelCacheSchema (md_SchemaVersion cache) of
      Some e \<Rightarrow> Some e
    | None \<Rightarrow>
        if IsZero (md_FetchedAt cache) \<or> md_Records cache = [] then Some CacheInvalid
        else if list_all record_normalized (md_Records cache) then None
        else Some CacheInvalid)"

definition validateModelCatalogCache ::
  "modelCatalogCacheV1 \<Rightarrow> string \<Rightarrow> workBuddyRealm \<Rightarrow> cacheError option" where
  "validateModelCatalogCache cache identity expectedRealm =
     (case validateModelCacheSchema (ct_SchemaVersion cache) of
        Some e \<Rightarrow> Some e
      | None \<Rightarrow>
          if \<not> validModelIdentitySHA256 (ct_IdentitySHA256 cache) \<or> ct_IdentitySHA256 cache \<noteq> identity
            then Some CacheInvalid
          else if expectedRealm \<noteq> RealmCN \<and> expectedRealm \<noteq> RealmGlobal then Some CacheInvalid
          else if ct_Realm cache \<noteq> expectedRealm then Some CacheInvalid
          else if IsZero (ct_FetchedAt cache) then Some CacheInvalid
          else if ct_Endpoint cache \<noteq> V3Config \<and> ct_Endpoint cache \<noteq> LegacyPersonalModels
            then Some CacheInvalid
          else (case validateModelFacts (ct_Models cache) of
              Inl e \<Rightarrow> Some CacheInvalid
            | Inr validated \<Rightarrow>
                if list_all2 (\<lambda>v m. mf_ID v = mf_ID m \<and> mf_Name v = mf_Name m) validated (ct_Models cache)
                then None else Some CacheInvalid))"

record cache_json =
  cc_encModels :: "modelCatalogCacheV1 \<Rightarrow> string"
  cc_decModels :: "string \<Rightarrow> modelCatalogCacheV1 option"
  cc_encMeta :: "metadataCacheV1 \<Rightarrow> string"
  cc_decMeta :: "string \<Rightarrow> metadataCacheV1 option"

definition decodeMetadataCache :: "cache_json \<Rightarrow> string \<Rightarrow> cacheError + metadataCacheV1" where
  "decodeMetadataCache lib raw = (case cc_decMeta lib raw of
      None \<Rightarrow> Inl CacheInvalid
    | Some cache \<Rightarrow> (case validateMetadataCache cache of Some e \<Rightarrow> Inl e | None \<Rightarrow> Inr cache))"

definition decodeModelCatalogCache ::
  "cache_json \<Rightarrow> string \<Rightarrow> workBuddyRealm \<Rightarrow> string \<Rightarrow> cacheError + modelCatalogCacheV1" where
  "decodeModelCatalogCache lib identity realm raw = (case cc_decModels lib raw of
      None \<Rightarrow> Inl CacheInvalid
    | Some cache \<Rightarrow> (case validateModelCatalogCache cache identity realm of Some e \<Rightarrow> Inl e | None \<Rightarrow> Inr cache))"

section \<open>Loading\<close>

datatype diskFile = Absent | Unreadable | Bytes string

type_synonym files = "string \<Rightarrow> diskFile"

definition bak :: "string \<Rightarrow> string" where "bak path = path @ ''.bak''"

fun load_loop :: "(string \<Rightarrow> cacheError + 'a) \<Rightarrow> diskFile list \<Rightarrow> bool \<Rightarrow> cacheError + 'a option" where
  "load_loop decode [] foundFile = (if foundFile then Inl CacheUnreadable else Inr None)"
| "load_loop decode (Absent # fs) foundFile = load_loop decode fs foundFile"
| "load_loop decode (Unreadable # fs) foundFile = load_loop decode fs True"
| "load_loop decode (Bytes raw # fs) foundFile = (case decode raw of
      Inr cache \<Rightarrow> Inr (Some cache)
    | Inl FutureSchema \<Rightarrow> Inl FutureSchema
    | Inl _ \<Rightarrow> load_loop decode fs True)"

definition loadModelCache :: "files \<Rightarrow> string \<Rightarrow> (string \<Rightarrow> cacheError + 'a) \<Rightarrow> cacheError + 'a option" where
  "loadModelCache fs path decode = load_loop decode [fs path, fs (bak path)] False"

section \<open>Writing\<close>

datatype write_step =
    MkdirAll | PrimaryTemp | BackupTemp | RemoveBackup | RenameBackup | RemovePrimary | RenamePrimary | SyncDir

definition readModelCacheIfExists :: "diskFile \<Rightarrow> cacheError + string option" where
  "readModelCacheIfExists f = (case f of
      Absent \<Rightarrow> Inr None | Unreadable \<Rightarrow> Inl IOFailed | Bytes raw \<Rightarrow> Inr (Some raw))"

text \<open>
  \<open>ok\<close> says which steps succeed. The result is whether the replacement succeeded, and the files.
\<close>

definition replaceModelCacheFile ::
  "bool \<Rightarrow> (write_step \<Rightarrow> bool) \<Rightarrow> write_step \<Rightarrow> write_step \<Rightarrow> string \<Rightarrow> string \<Rightarrow> files \<Rightarrow> bool \<times> files" where
  "replaceModelCacheFile windows ok remove rename temp destination fs =
     (if windows \<and> \<not> ok remove \<and> fs destination \<noteq> Absent then (False, fs)
      else let fs = (if windows then fs(destination := Absent) else fs)
           in if ok rename then (True, fs(destination := Bytes temp)) else (False, fs))"

definition is_future :: "(string \<Rightarrow> cacheError option) \<Rightarrow> string option \<Rightarrow> bool" where
  "is_future validate raw = (case raw of None \<Rightarrow> False | Some r \<Rightarrow> validate r = Some FutureSchema)"

definition write_backup ::
  "bool \<Rightarrow> (write_step \<Rightarrow> bool) \<Rightarrow> (string \<Rightarrow> cacheError option) \<Rightarrow> string \<Rightarrow> string option \<Rightarrow> files \<Rightarrow> bool \<times> files" where
  "write_backup windows ok validate path current fs = (case current of
      Some cur \<Rightarrow>
        if validate cur = None then
          (if \<not> ok BackupTemp then (False, fs)
           else replaceModelCacheFile windows ok RemoveBackup RenameBackup cur (bak path) fs)
        else (True, fs)
    | None \<Rightarrow> (True, fs))"

text \<open>The last part: the backup, the new file and the directory.\<close>

definition write_files ::
  "bool \<Rightarrow> (write_step \<Rightarrow> bool) \<Rightarrow> (string \<Rightarrow> cacheError option) \<Rightarrow> string \<Rightarrow> string \<Rightarrow> string option \<Rightarrow> files \<Rightarrow>
   cacheError option \<times> files" where
  "write_files windows ok validate path data current fs =
     (case write_backup windows ok validate path current fs of
        (False, fs) \<Rightarrow> (Some IOFailed, fs)
      | (True, fs) \<Rightarrow> (case replaceModelCacheFile windows ok RemovePrimary RenamePrimary data path fs of
            (False, fs) \<Rightarrow> (Some IOFailed, fs)
          | (True, fs) \<Rightarrow> (if ok SyncDir \<or> windows then None else Some IOFailed, fs)))"

definition writeModelCacheAtomic ::
  "bool \<Rightarrow> (write_step \<Rightarrow> bool) \<Rightarrow> string \<Rightarrow> string \<Rightarrow> (string \<Rightarrow> cacheError option) \<Rightarrow> files \<Rightarrow>
   cacheError option \<times> files" where
  "writeModelCacheAtomic windows ok path data validateCurrent fs =
     (if \<not> ok MkdirAll \<or> \<not> ok PrimaryTemp then (Some IOFailed, fs)
      else case readModelCacheIfExists (fs path) of
          Inl e \<Rightarrow> (Some e, fs)
        | Inr current \<Rightarrow> (case readModelCacheIfExists (fs (bak path)) of
              Inl e \<Rightarrow> (Some e, fs)
            | Inr backup \<Rightarrow>
                if is_future validateCurrent current \<or> is_future validateCurrent backup then (Some FutureSchema, fs)
                else write_files windows ok validateCurrent path data current fs))"

section \<open>The store\<close>

definition metadata_path :: "string \<Rightarrow> string" where
  "metadata_path dir = dir @ ''/metadata.json''"

definition models_path :: "string \<Rightarrow> string \<Rightarrow> string" where
  "models_path dir identity = dir @ ''/models/'' @ identity @ ''.json''"

definition error_of :: "cacheError + 'a \<Rightarrow> cacheError option" where
  "error_of r = (case r of Inl e \<Rightarrow> Some e | Inr _ \<Rightarrow> None)"

definition loadMetadata :: "cache_json \<Rightarrow> string \<Rightarrow> files \<Rightarrow> cacheError + metadataCacheV1 option" where
  "loadMetadata lib dir fs = loadModelCache fs (metadata_path dir) (decodeMetadataCache lib)"

definition saveMetadata ::
  "cache_json \<Rightarrow> bool \<Rightarrow> (write_step \<Rightarrow> bool) \<Rightarrow> string \<Rightarrow> metadataCacheV1 \<Rightarrow> files \<Rightarrow> cacheError option \<times> files" where
  "saveMetadata lib windows ok dir cache fs = (case validateMetadataCache cache of
      Some e \<Rightarrow> (Some e, fs)
    | None \<Rightarrow> writeModelCacheAtomic windows ok (metadata_path dir) (cc_encMeta lib cache)
        (\<lambda>raw. error_of (decodeMetadataCache lib raw)) fs)"

definition loadModels ::
  "cache_json \<Rightarrow> string \<Rightarrow> string \<Rightarrow> workBuddyRealm \<Rightarrow> files \<Rightarrow> cacheError + modelCatalogCacheV1 option" where
  "loadModels lib dir identity realm fs =
     (if \<not> validModelIdentitySHA256 identity then Inl CacheInvalid
      else loadModelCache fs (models_path dir identity) (decodeModelCatalogCache lib identity realm))"

definition saveModels ::
  "cache_json \<Rightarrow> bool \<Rightarrow> (write_step \<Rightarrow> bool) \<Rightarrow> string \<Rightarrow> modelCatalogCacheV1 \<Rightarrow> files \<Rightarrow> cacheError option \<times> files" where
  "saveModels lib windows ok dir cache fs =
     (case validateModelCatalogCache cache (ct_IdentitySHA256 cache) (ct_Realm cache) of
        Some e \<Rightarrow> (Some e, fs)
      | None \<Rightarrow> writeModelCacheAtomic windows ok (models_path dir (ct_IdentitySHA256 cache)) (cc_encModels lib cache)
          (\<lambda>raw. error_of (decodeModelCatalogCache lib (ct_IdentitySHA256 cache) (ct_Realm cache) raw)) fs)"

end
