(* ===== verification/Model_Store_Props.thy ===== *)
theory Model_Store_Props
  imports Model_Store
begin

text \<open>
  The properties of the model sources and the model caches: a cache file survives a failure at any step of
  its replacement, whatever a fetch returns can be cached and read back, and public metadata is matched
  independently of the iteration order of Go's map.
\<close>

lemma bak_other [simp]: "bak p \<noteq> p" "p \<noteq> bak p"
  by (simp_all add: bak_def)

lemma replace_result:
  assumes "replaceModelCacheFile windows ok rm rn temp dst fs = (b, fs')"
  shows "(\<forall>p. p \<noteq> dst \<longrightarrow> fs' p = fs p) \<and>
    (if b then fs' dst = Bytes temp else fs' dst = fs dst \<or> fs' dst = Absent)"
  using assms by (auto simp: replaceModelCacheFile_def Let_def split: if_splits)

lemma backup_result:
  assumes "write_backup windows ok validate path current fs = (b, fs')"
  shows "(\<forall>p. p \<noteq> bak path \<longrightarrow> fs' p = fs p) \<and>
    (case current of
       Some cur \<Rightarrow> if validate cur = None then b \<longrightarrow> fs' (bak path) = Bytes cur else b \<and> fs' = fs
     | None \<Rightarrow> b \<and> fs' = fs)"
  using assms replace_result [of windows ok RemoveBackup RenameBackup _ "bak path" fs b fs']
  by (auto simp: write_backup_def split: option.splits if_splits)

text \<open>What loading returns, by the two files.\<close>

lemma load_primary: "fs path = Bytes raw \<Longrightarrow> decode raw = Inr c \<Longrightarrow> loadModelCache fs path decode = Inr (Some c)"
  by (simp add: loadModelCache_def)

lemma load_backup:
  "fs path = Absent \<or> fs path = Unreadable \<or> (\<exists>raw e. fs path = Bytes raw \<and> decode raw = Inl e \<and> e \<noteq> FutureSchema) \<Longrightarrow>
   fs (bak path) = Bytes raw' \<Longrightarrow> decode raw' = Inr c \<Longrightarrow> loadModelCache fs path decode = Inr (Some c)"
  by (auto simp: loadModelCache_def split: cacheError.splits)

lemma load_found:
  assumes "loadModelCache fs path decode = Inr (Some c)"
  obtains (primary) raw where "fs path = Bytes raw" "decode raw = Inr c"
  | (backup) raw' where "fs path = Absent \<or> fs path = Unreadable \<or>
      (\<exists>raw e. fs path = Bytes raw \<and> decode raw = Inl e \<and> e \<noteq> FutureSchema)"
    "fs (bak path) = Bytes raw'" "decode raw' = Inr c"
  using assms
  by (cases "fs path"; cases "fs (bak path)")
    (auto simp: loadModelCache_def split: sum.splits cacheError.splits if_splits)


text \<open>
  How a write can end. Either nothing was touched; or it failed while the backup was replaced, with the
  primary file in place; or it failed while the primary file was replaced, when the backup already holds
  the primary file's old content if that was valid; or the new content is in place.
\<close>

lemma files_end:
  assumes "write_files windows ok validate path data current fs = (err, fs')"
  obtains (backup) cur where "err \<noteq> None" "current = Some cur" "validate cur = None" "fs' path = fs path"
      "\<forall>p. p \<noteq> bak path \<longrightarrow> fs' p = fs p"
  | (primary) "err \<noteq> None" "fs' path = fs path \<or> fs' path = Absent"
      "fs' (bak path) = (case current of Some cur \<Rightarrow> if validate cur = None then Bytes cur else fs (bak path)
         | None \<Rightarrow> fs (bak path))"
      "\<forall>p. p \<noteq> path \<longrightarrow> p \<noteq> bak path \<longrightarrow> fs' p = fs p"
  | (replaced) "fs' path = Bytes data" "\<forall>p. p \<noteq> path \<longrightarrow> p \<noteq> bak path \<longrightarrow> fs' p = fs p"
proof -
  obtain b f where wb: "write_backup windows ok validate path current fs = (b, f)" by fastforce
  note first = backup_result [OF wb]
  show thesis
  proof (cases b)
    case False
    then have "err = Some IOFailed" "fs' = f" using assms wb by (auto simp: write_files_def)
    moreover obtain c where "current = Some c" "validate c = None"
      using first False by (auto split: option.splits if_splits)
    ultimately show thesis using first backup by simp
  next
    case True
    obtain b' f' where rp: "replaceModelCacheFile windows ok RemovePrimary RenamePrimary data path f = (b', f')"
      by fastforce
    note second = replace_result [OF rp]
    show thesis
    proof (cases b')
      case False
      then have "err = Some IOFailed" "fs' = f'" using assms wb True rp by (auto simp: write_files_def)
      then show thesis using first second False True primary
        by (auto split: option.splits if_splits)
    next
      case fin: True
      then have "fs' = f'" using assms wb True rp by (auto simp: write_files_def)
      then show thesis using first second fin replaced by simp
    qed
  qed
qed

lemma write_starts:
  assumes "writeModelCacheAtomic windows ok path data validate fs = (err, fs')"
  obtains (untouched) "err \<noteq> None" "fs' = fs"
  | (goes) current where "readModelCacheIfExists (fs path) = Inr current"
      "\<not> is_future validate current" "\<And>raw. fs (bak path) = Bytes raw \<Longrightarrow> validate raw \<noteq> Some FutureSchema"
      "write_files windows ok validate path data current fs = (err, fs')"
  using assms
  by (auto simp: writeModelCacheAtomic_def readModelCacheIfExists_def is_future_def
      split: if_splits sum.splits diskFile.splits option.splits)

text \<open>
  (C14) Replacing a cache file is safe against a failure, or a crash, at any of its steps, also on
  systems where a file has to be removed before it is replaced. Whichever step fails, what could be
  loaded before can still be loaded, or else the new content is; a write that reports success is
  loaded; a file of a future schema, be it the backup, is never overwritten; and no other file changes.
\<close>

theorem cache_write_safe:
  assumes "writeModelCacheAtomic windows ok path data (\<lambda>raw. error_of (decode raw)) fs = (err, fs')"
    and "decode data = Inr new"
  shows "(\<forall>old. loadModelCache fs path decode = Inr (Some old) \<longrightarrow>
      loadModelCache fs' path decode \<in> {Inr (Some old), Inr (Some new)}) \<and>
    (err = None \<longrightarrow> loadModelCache fs' path decode = Inr (Some new)) \<and>
    (\<forall>p\<in>{path, bak path}. \<forall>raw. fs p = Bytes raw \<and> decode raw = Inl FutureSchema \<longrightarrow> err \<noteq> None \<and> fs' = fs) \<and>
    (\<forall>p. p \<noteq> path \<and> p \<noteq> bak path \<longrightarrow> fs' p = fs p)"
  using assms(1)
proof (cases rule: write_starts)
  case untouched
  then show ?thesis by auto
next
  case (goes current)
  have cur: "fs path = (case current of None \<Rightarrow> Absent | Some c \<Rightarrow> Bytes c)"
    using goes(1) by (auto simp: readModelCacheIfExists_def split: diskFile.splits)
  have no_future: "decode raw \<noteq> Inl FutureSchema" if "fs p = Bytes raw" "p \<in> {path, bak path}" for p raw
    using that goes(2,3) cur by (auto simp: is_future_def error_of_def split: sum.splits option.splits)
  from goes(4) show ?thesis
  proof (cases rule: files_end)
    case (backup c)
    then have "loadModelCache fs' path decode = Inr (Some old)"
      if "loadModelCache fs path decode = Inr (Some old)" for old
      using that cur by (auto simp: loadModelCache_def error_of_def split: sum.splits)
    then show ?thesis using backup no_future by auto
  next
    case primary
    have "loadModelCache fs' path decode = Inr (Some old)"
      if "loadModelCache fs path decode = Inr (Some old)" for old
      using that
    proof (cases rule: load_found)
      case (primary raw)
      with cur have "fs' (bak path) = Bytes raw" "fs' path = Bytes raw \<or> fs' path = Absent"
        using \<open>fs' (bak path) = _\<close> \<open>fs' path = _ \<or> _\<close> by (auto simp: error_of_def split: option.splits)
      then show ?thesis using primary(2) load_primary load_backup by metis
    next
      case (backup raw')
      have "fs' (bak path) = Bytes raw'"
        using \<open>fs' (bak path) = _\<close> backup cur by (auto simp: error_of_def split: option.splits)
      then show ?thesis
        using backup \<open>fs' path = _ \<or> _\<close> by (intro load_backup [of fs' path decode raw']) auto
    qed
    then show ?thesis using primary no_future by auto
  next
    case replaced
    then show ?thesis using assms(2) load_primary [of fs' path data decode new] no_future by auto
  qed
qed


text \<open>Where files must be removed first, the rename of the new file fails: the backup is loaded.\<close>

definition demo_decode :: "string \<Rightarrow> cacheError + string" where
  "demo_decode raw = (if raw = ''future'' then Inl FutureSchema else Inr raw)"

definition demo_files :: files where
  "demo_files = (\<lambda>_. Absent)(''p'' := Bytes ''old'')"

definition demo_fail :: "write_step \<Rightarrow> bool" where
  "demo_fail s = (s \<noteq> RenamePrimary)"

theorem cache_write_safe_witness:
  "\<exists>err fs'. writeModelCacheAtomic True demo_fail ''p'' ''new'' (\<lambda>raw. error_of (demo_decode raw)) demo_files = (err, fs') \<and>
     fs' ''p'' = Absent \<and> loadModelCache fs' ''p'' demo_decode \<in> {Inr (Some ''old''), Inr (Some ''new'')}"
proof -
  let ?w = "writeModelCacheAtomic True demo_fail ''p'' ''new'' (\<lambda>raw. error_of (demo_decode raw)) demo_files"
  have new: "demo_decode ''new'' = Inr ''new''" by code_simp
  have old: "loadModelCache demo_files ''p'' demo_decode = Inr (Some ''old'')" by code_simp
  have gone: "snd ?w ''p'' = Absent" by code_simp
  have run: "?w = (fst ?w, snd ?w)" by simp
  have "loadModelCache (snd ?w) ''p'' demo_decode \<in> {Inr (Some ''old''), Inr (Some ''new'')}"
    using cache_write_safe [OF run new] old by blast
  then show ?thesis using run gone by blast
qed

section \<open>Validated catalogues\<close>

lemma trim_facts_idem: "trim_facts (trim_facts m) = trim_facts m"
  by (simp add: trim_facts_def TrimSpace_idem)

text \<open>A fact that passes validation whatever was seen before it.\<close>

definition fact_ok :: "modelFacts \<Rightarrow> bool" where
  "fact_ok m = (trim_facts m = m \<and> mf_ID m \<noteq> [] \<and> length (mf_ID m) \<le> maxDiscoveredModelIDBytes \<and>
     \<not> negative (mf_ContextLength m) \<and> \<not> negative (mf_MaxCompletionTokens m))"

lemma validate_loop_Cons:
  "validate_loop seen (m # ms) = Inr vs \<longleftrightarrow>
     (\<exists>vs'. vs = trim_facts m # vs' \<and> fact_ok (trim_facts m) \<and> mf_ID (trim_facts m) \<notin> set seen \<and>
       validate_loop (mf_ID (trim_facts m) # seen) ms = Inr vs')"
  by (simp add: Let_def fact_ok_def trim_facts_idem not_less split: sum.splits) auto

lemma validate_loop_sound:
  "validate_loop seen ms = Inr vs \<Longrightarrow>
     list_all fact_ok vs \<and> distinct (map mf_ID vs) \<and> set (map mf_ID vs) \<inter> set seen = {}"
proof (induction ms arbitrary: seen vs)
  case (Cons m ms)
  then show ?case by (fastforce simp: validate_loop_Cons simp del: validate_loop.simps)
qed simp

lemma validate_ok_loop:
  "list_all fact_ok vs \<Longrightarrow> distinct (map mf_ID vs) \<Longrightarrow> set (map mf_ID vs) \<inter> set seen = {} \<Longrightarrow>
   validate_loop seen vs = Inr vs"
proof (induction vs arbitrary: seen)
  case (Cons v vs)
  then have "trim_facts v = v" by (simp add: fact_ok_def)
  with Cons show ?case by (simp add: validate_loop_Cons del: validate_loop.simps)
qed simp

lemma validate_fixpoint: "validateModelFacts vs = Inr vs \<longleftrightarrow>
    vs \<noteq> [] \<and> list_all fact_ok vs \<and> distinct (map mf_ID vs)"
  using validate_loop_sound [of "[]" vs vs] validate_ok_loop [of vs "[]"]
  by (auto simp: validateModelFacts_def)

lemma validate_again: "validateModelFacts ms = Inr vs \<Longrightarrow> validateModelFacts vs = Inr vs"
  using validate_loop_sound [of "[]" ms vs] unfolding validate_fixpoint
  by (cases ms) (auto simp: validateModelFacts_def validate_loop_Cons simp del: validate_loop.simps)

lemma parsed_valid:
  "parseWorkBuddyV3Config v = Inr ms \<Longrightarrow> validateModelFacts ms = Inr ms"
  "parseWorkBuddyLegacyModels l = Inr ms \<Longrightarrow> validateModelFacts ms = Inr ms"
  by (auto simp: parseWorkBuddyV3Config_def parseWorkBuddyLegacyModels_def
      split: option.splits if_splits list.splits sum.splits intro: validate_again)

section \<open>Merging the answers of several clients\<close>

lemma merge_models_ok:
  assumes "list_all fact_ok merged" and "distinct (map mf_ID merged)" and "list_all fact_ok ms"
  shows "list_all fact_ok (merge_models merged ms) \<and> distinct (map mf_ID (merge_models merged ms))"
  using assms by (induction merged ms rule: merge_models.induct) auto

definition global_ok :: "global_fetch \<Rightarrow> bool" where
  "global_ok g = (list_all fact_ok (gf_merged g) \<and> distinct (map mf_ID (gf_merged g)) \<and>
     gf_endpoint g \<in> {V3Config, LegacyPersonalModels})"

lemma global_request_ok:
  assumes "global_ok g" and "\<And>body ms. parse body = Inr ms \<Longrightarrow> validateModelFacts ms = Inr ms"
  shows "global_ok (snd (global_request send path ua parse g))"
  using assms merge_models_ok
  by (fastforce simp: global_request_def global_ok_def validate_fixpoint split: option.splits sum.splits)

lemma global_requests_ok: "global_ok (global_requests lib send desktop)"
proof -
  have "global_ok \<lparr>gf_merged = [], gf_endpoint = LegacyPersonalModels, gf_lastErr = None\<rparr>"
    by (simp add: global_ok_def)
  then have "global_ok (foldl (\<lambda>g ua. snd (global_request send v3_path ua
      (\<lambda>body. parseWorkBuddyV3Config (cj_v3 lib body)) g))
      \<lparr>gf_merged = [], gf_endpoint = LegacyPersonalModels, gf_lastErr = None\<rparr> uas)" for uas
    by (induction uas rule: rev_induct) (auto intro!: global_request_ok dest: parsed_valid)
  then show ?thesis
    using global_request_ok [of _ "\<lambda>body. parseWorkBuddyLegacyModels (cj_legacy lib body)" send _ desktop]
      parsed_valid(2)
    by (auto simp: global_requests_def Let_def split: prod.splits bool.splits) (metis snd_conv)+
qed

lemma fetched_valid:
  assumes "fetchWorkBuddyCatalog lib realm send backend desktop = Inr cat"
    and "realm \<in> {Some RealmCN, Some RealmGlobal}"
  shows "validateModelFacts (wc_Models cat) = Inr (wc_Models cat) \<and> Some (wc_Realm cat) = realm \<and>
    wc_Endpoint cat \<in> {V3Config, LegacyPersonalModels}"
proof (cases "realm = Some RealmGlobal")
  case True
  then show ?thesis
    using assms(1) global_requests_ok [of lib send desktop]
    by (auto simp: fetchWorkBuddyCatalog_def fetchGlobalWorkBuddyCatalog_def Let_def global_ok_def
        validate_fixpoint split: if_splits)
next
  case False
  then show ?thesis
    using assms parsed_valid
    by (auto simp: fetchWorkBuddyCatalog_def fetch_cn_def schema_error_def split: option.splits if_splits sum.splits)
qed


section \<open>What is fetched can be cached and read back\<close>

definition fetched_cache :: "string \<Rightarrow> gtime \<Rightarrow> workBuddyCatalog \<Rightarrow> modelCatalogCacheV1" where
  "fetched_cache identity t cat = \<lparr>ct_SchemaVersion = modelCacheSchemaVersion, ct_IdentitySHA256 = identity,
     ct_Realm = wc_Realm cat, ct_FetchedAt = t, ct_Endpoint = wc_Endpoint cat, ct_Models = wc_Models cat\<rparr>"

lemma fetched_cache_valid:
  assumes "fetchWorkBuddyCatalog cj realm send backend desktop = Inr cat"
    and "realm \<in> {Some RealmCN, Some RealmGlobal}" and "validModelIdentitySHA256 identity" and "t \<noteq> 0"
  shows "validateModelCatalogCache (fetched_cache identity t cat) identity (wc_Realm cat) = None"
  using fetched_valid [OF assms(1,2)] assms(2-4)
  by (auto simp: validateModelCatalogCache_def fetched_cache_def validateModelCacheSchema_def IsZero_def
      list_all2_same)

lemma write_succeeds:
  assumes "\<And>s. ok s" and "fs path \<noteq> Unreadable" and "fs (bak path) \<noteq> Unreadable"
    and "\<And>raw. fs path = Bytes raw \<or> fs (bak path) = Bytes raw \<Longrightarrow> validate raw \<noteq> Some FutureSchema"
  shows "fst (writeModelCacheAtomic windows ok path data validate fs) = None"
  using assms
  by (cases "fs path"; cases "fs (bak path)")
    (simp_all add: writeModelCacheAtomic_def readModelCacheIfExists_def is_future_def write_files_def
      write_backup_def replaceModelCacheFile_def Let_def)

text \<open>
  (C15) Every catalogue that can be fetched can be cached. The models that a fetch returns, in either
  realm, over whatever endpoints answered, already have the normal form that the cache demands; so
  saving them fails only when a file operation does or a newer version of the plugin owns the file,
  and when it succeeds, loading returns exactly the catalogue that was fetched. Hypotheses on the
  surroundings: the JSON codec reads back what it wrote, and the identity is a hash.
\<close>

theorem catalogue_cached:
  assumes "fetchWorkBuddyCatalog cj (Some realm) send backend desktop = Inr cat"
    and "realm \<in> {RealmCN, RealmGlobal}" and "validModelIdentitySHA256 identity" and "t \<noteq> 0"
    and "cc_decModels lib (cc_encModels lib (fetched_cache identity t cat)) = Some (fetched_cache identity t cat)"
    and "saveModels lib windows ok dir (fetched_cache identity t cat) fs = (err, fs')"
  shows "(err = None \<longrightarrow> loadModels lib dir identity realm fs' = Inr (Some (fetched_cache identity t cat))) \<and>
    ((\<forall>s. ok s) \<and> loadModels lib dir identity realm fs \<noteq> Inl FutureSchema \<and>
      fs (models_path dir identity) \<noteq> Unreadable \<and> fs (bak (models_path dir identity)) = Absent \<longrightarrow> err = None)"
proof -
  let ?c = "fetched_cache identity t cat" and ?path = "models_path dir identity"
  let ?decode = "decodeModelCatalogCache lib identity realm"
  have r: "wc_Realm cat = realm" using fetched_valid [OF assms(1)] assms(2) by auto
  have c: "ct_IdentitySHA256 ?c = identity" "ct_Realm ?c = realm" by (simp_all add: fetched_cache_def r)
  have valid: "validateModelCatalogCache ?c identity realm = None"
    using fetched_cache_valid [OF assms(1) _ assms(3,4)] assms(2) r by auto
  have wr: "writeModelCacheAtomic windows ok ?path (cc_encModels lib ?c) (\<lambda>raw. error_of (?decode raw)) fs = (err, fs')"
    using assms(6) valid by (simp add: saveModels_def c)
  have new: "?decode (cc_encModels lib ?c) = Inr ?c" using assms(5) valid by (simp add: decodeModelCatalogCache_def)
  have "loadModels lib dir identity realm fs' = Inr (Some ?c)" if "err = None"
    using cache_write_safe [OF wr new] that assms(3) by (simp add: loadModels_def)
  moreover have "err = None" if "\<forall>s. ok s" and "loadModels lib dir identity realm fs \<noteq> Inl FutureSchema"
    and "fs ?path \<noteq> Unreadable" and "fs (bak ?path) = Absent"
  proof -
    have "error_of (?decode raw) \<noteq> Some FutureSchema" if "fs ?path = Bytes raw \<or> fs (bak ?path) = Bytes raw" for raw
      using that \<open>loadModels _ _ _ _ _ \<noteq> _\<close> \<open>fs (bak ?path) = Absent\<close> assms(3)
      by (auto simp: loadModels_def loadModelCache_def error_of_def split: sum.splits cacheError.splits)
    then show ?thesis
      using write_succeeds [of ok fs ?path "\<lambda>raw. error_of (?decode raw)" windows "cc_encModels lib ?c"] that wr
      by simp
  qed
  ultimately show ?thesis by blast
qed

text \<open>An account of the international realm whose clients see different models.\<close>

definition demo_json :: catalog_json where
  "demo_json = \<lparr>cj_v3 = (\<lambda>body. Some \<lparr>v3_Code = Some 0, v3_Data = Some ([], [\<lparr>vm_ID = body, vm_Name = '' Model '',
     vm_Disabled = False, vm_Context = Some 1000, vm_Output = None, vm_Images = True\<rparr>])\<rparr>), cj_legacy = (\<lambda>_. None)\<rparr>"

definition demo_send :: model_do where
  "demo_send path ua = (if path = v3_path then Some \<lparr>ha_Status = 200, ha_Body = (if ua = ''d'' then ''m1'' else ''m2'')\<rparr>
     else None)"

definition demo_fact :: "string \<Rightarrow> modelFacts" where
  "demo_fact m = \<lparr>mf_ID = m, mf_Name = ''Model'', mf_Description = [], mf_ContextLength = Some 1000,
     mf_MaxCompletionTokens = None, mf_InputModalities = Some [''text'', ''image''], mf_OutputModalities = None\<rparr>"

definition demo_catalog :: workBuddyCatalog where
  "demo_catalog = \<lparr>wc_Realm = RealmGlobal, wc_Endpoint = V3Config, wc_Models = [demo_fact ''m1'', demo_fact ''m2'']\<rparr>"

definition demo_hash :: string where "demo_hash = replicate 64 CHR ''a''"

definition demo_codec :: cache_json where
  "demo_codec = \<lparr>cc_encModels = (\<lambda>_. ''c''), cc_decModels = (\<lambda>_. Some (fetched_cache demo_hash 7 demo_catalog)),
     cc_encMeta = (\<lambda>_. ''m''), cc_decMeta = (\<lambda>_. None)\<rparr>"

theorem catalogue_cached_witness:
  "\<exists>fs'. loadModels demo_codec ''d'' demo_hash RealmGlobal fs' = Inr (Some (fetched_cache demo_hash 7 demo_catalog))"
proof -
  let ?c = "fetched_cache demo_hash 7 demo_catalog" and ?fs = "\<lambda>_. Absent"
  have fetched: "fetchWorkBuddyCatalog demo_json (Some RealmGlobal) demo_send ''b'' ''d'' = Inr demo_catalog"
    by code_simp
  have hash: "validModelIdentitySHA256 demo_hash" by code_simp
  have codec: "cc_decModels demo_codec (cc_encModels demo_codec ?c) = Some ?c" by (simp add: demo_codec_def)
  have none: "loadModels demo_codec ''d'' demo_hash RealmGlobal ?fs = Inr None"
    using hash by (simp add: loadModels_def loadModelCache_def)
  obtain err fs' where saved: "saveModels demo_codec False (\<lambda>_. True) ''d'' ?c ?fs = (err, fs')" by fastforce
  show ?thesis using catalogue_cached [OF fetched _ hash _ codec saved] none by auto
qed

section \<open>Matching the public metadata\<close>

lemma match_loop_found: "match_loop rawID rs (Some r) =
    (if list_ex (\<lambda>b. last_segment (fst b) = rawID) rs then None else Some r)"
  by (induction rs) auto

lemma match_loop_filter: "match_loop rawID rs None = (case filter (\<lambda>b. last_segment (fst b) = rawID) rs of
    [b] \<Rightarrow> Some (snd b) | _ \<Rightarrow> None)"
proof (induction rs)
  case (Cons b rs)
  show ?case
  proof (cases "last_segment (fst b) = rawID")
    case True
    have "filter P rs = [] \<longleftrightarrow> \<not> list_ex P rs" for P :: "string \<times> modelFacts \<Rightarrow> bool"
      by (auto simp: filter_empty_conv list_ex_iff)
    from this [of "\<lambda>b. last_segment (fst b) = rawID"] show ?thesis
      using True by (cases b) (auto simp: match_loop_found split: list.split)
  next
    case False
    then show ?thesis using Cons by (cases b) auto
  qed
qed simp

lemma distinct_single: "distinct ys \<Longrightarrow> set ys = {b} \<longleftrightarrow> ys = [b]"
proof (cases ys)
  case (Cons a zs)
  then show "distinct ys \<Longrightarrow> ?thesis" by (cases zs) auto
qed simp

lemma filter_single: "distinct xs \<Longrightarrow> filter P xs = [b] \<longleftrightarrow> {x \<in> set xs. P x} = {b}"
  using distinct_single [of "filter P xs" b] by simp

lemma single_key:
  assumes "distinct (map fst m)"
  shows "(\<exists>k. {b \<in> set m. P (fst b)} = {(k, r)}) \<longleftrightarrow> (\<exists>k. gm_get m k = Some r \<and> {i \<in> set (map fst m). P i} = {k})"
proof
  assume "\<exists>k. {b \<in> set m. P (fst b)} = {(k, r)}"
  then obtain k where k: "{b \<in> set m. P (fst b)} = {(k, r)}" by blast
  then have "(k, r) \<in> set m" "{i \<in> set (map fst m). P i} = {k}" by force+
  then show "\<exists>k. gm_get m k = Some r \<and> {i \<in> set (map fst m). P i} = {k}" using assms by auto
next
  assume "\<exists>k. gm_get m k = Some r \<and> {i \<in> set (map fst m). P i} = {k}"
  then obtain k where k: "gm_get m k = Some r" "{i \<in> set (map fst m). P i} = {k}" by blast
  have "b = (k, r)" if "b \<in> set m" "P (fst b)" for b
  proof -
    have "fst b \<in> {i \<in> set (map fst m). P i}" using that by simp
    then have "fst b = k" unfolding k(2) by simp
    then have "(k, snd b) \<in> set m" using that(1) by (metis prod.collapse)
    then show ?thesis using \<open>fst b = k\<close> k(1) assms by (cases b) simp
  qed
  moreover have "(k, r) \<in> set m" using k(1) by (rule map_of_SomeD)
  moreover have "P k" using k(2) by blast
  ultimately have "b \<in> set m \<and> P (fst b) \<longleftrightarrow> b = (k, r)" for b by (metis fst_conv)
  then show "\<exists>k. {b \<in> set m. P (fst b)} = {(k, r)}" by (intro exI [of _ k]) simp
qed

lemma option_eqI: "(\<And>x. a = Some x \<longleftrightarrow> b = Some x) \<Longrightarrow> a = b"
  by (cases a; cases b) auto

text \<open>
  The public metadata of a model is found independently of the iteration order of Go's map, and
  never guessed: it is the record under the model's full identifier, or else the only record whose
  last path segment is the identifier; two such records are a tie and none is taken.
\<close>

theorem match_order_free:
  assumes "gm_wf records" and "mset records' = mset records"
  shows "matchModelsDevRecord rawID records' = matchModelsDevRecord rawID records \<and>
    (matchModelsDevRecord rawID records = Some r \<longleftrightarrow>
      gm_get records rawID = Some r \<or>
      gm_get records rawID = None \<and>
        (\<exists>k. gm_get records k = Some r \<and> {i \<in> set (gm_keys records). last_segment i = rawID} = {k}))"
proof -
  let ?P = "\<lambda>b. last_segment (fst b) = rawID"
  have wf: "distinct (map fst records)" "distinct records" "distinct (map fst records')" "distinct records'"
    using assms by (auto simp: gm_wf_def distinct_map intro: mset_eq_imp_distinct_iff [THEN iffD1]
        dest: mset_eq_setD inj_on_cong)
  have same: "set records' = set records" using assms(2) by (rule mset_eq_setD)
  have get: "gm_get records' k = gm_get records k" for k
    using wf same by (metis map_of_inject_set)
  have loop: "match_loop rawID rs None = Some x \<longleftrightarrow> (\<exists>k. {b \<in> set rs. ?P b} = {(k, x)})"
    if "distinct rs" for rs x
    unfolding match_loop_filter filter_single [OF that, symmetric] by (auto split: list.splits)
  have "match_loop rawID records' None = match_loop rawID records None"
    by (rule option_eqI) (simp add: loop wf same)
  moreover have "(\<exists>k. {b \<in> set records. ?P b} = {(k, r)}) \<longleftrightarrow>
      (\<exists>k. gm_get records k = Some r \<and> {i \<in> set (gm_keys records). last_segment i = rawID} = {k})"
    using single_key [OF wf(1)] by (simp add: gm_keys_def)
  ultimately show ?thesis
    using get loop [OF wf(2)] by (auto simp: matchModelsDevRecord_def split: option.splits)
qed


theorem match_order_free_witness:
  "matchModelsDevRecord ''m1'' [(''b/m2'', demo_fact ''b/m2''), (''a/m1'', demo_fact ''a/m1'')] = Some (demo_fact ''a/m1'')"
proof -
  let ?rs = "[(''a/m1'', demo_fact ''a/m1''), (''b/m2'', demo_fact ''b/m2'')]"
  have "matchModelsDevRecord ''m1'' ?rs = Some (demo_fact ''a/m1'')" by code_simp
  then show ?thesis
    using match_order_free [of ?rs "[(''b/m2'', demo_fact ''b/m2''), (''a/m1'', demo_fact ''a/m1'')]" "''m1''"]
    by (simp add: gm_wf_def)
qed

end
