(* ===== verification/Model_Readiness.thy ===== *)
theory Model_Readiness
  imports Model_Store
begin

text \<open>
  Which models an account can serve, after \<^verbatim>\<open>src/plugin/model_readiness.go\<close>. Any number of goroutines
  ask for the models of accounts at once (\<open>ensureForAuth\<close>); for every account and generation one of them
  loads and the others wait, the catalogues of accounts with the same identity are ordered by sequence
  numbers, and all share one fetch of the public metadata. A change of the configuration or of the
  credentials starts a new generation, and a result of an old one must not be published.

  The shared \<open>modelRuntime\<close> is a record. A goroutine is its program counter \<open>readiness_pc\<close> with the local
  variables that are alive there. A step is one critical section of the code, that is what it does
  between taking its locks and releasing them, or one input or output; a step that waits on a channel
  which is not closed is not enabled (\<open>None\<close>). A call object such as \<open>modelAuthCall\<close> is its address,
  taken from the counter \<open>mr_next\<close>, and an identity call its sequence number; a channel is closed when
  its call is in the respective list. Closing a channel twice, and a slice of negative capacity, are the
  program counter \<open>RPanic\<close>, with the place of the panic.

  Copies that the code makes against aliasing (\<open>cloneModelReadinessSnapshot\<close>) are the values themselves.
  Generations are \<open>nat\<close>, without the wrap-around of \<open>uint64\<close>.
\<close>

section \<open>Snapshots\<close>

datatype modelReadinessState = modelNotStarted | modelLoading | modelReady | modelStale | modelFailed

text \<open>\<open>modelSourceUnset\<close> is the empty string, the source in a zero \<open>modelMetadataResult\<close>.\<close>

datatype modelSnapshotSource =
  modelSourceFresh | modelSourceCache | modelSourceConfig | modelSourceNone | modelSourceUnset

datatype modelErrorCode =
    modelErrorNone | modelErrorAuthInvalid
  | modelErrorWorkBuddyTransport | modelErrorWorkBuddyHTTP | modelErrorWorkBuddySchema
  | modelErrorModelsDevTransport | modelErrorModelsDevHTTP | modelErrorModelsDevSchema
  | modelErrorCacheRead | modelErrorCacheWrite

fun executable :: "modelReadinessState \<Rightarrow> bool" where
  "executable s = (s = modelReady \<or> s = modelStale)"

record modelReadinessSnapshot =
  rs_State :: modelReadinessState
  rs_ModelSource :: modelSnapshotSource
  rs_MetadataSource :: modelSnapshotSource
  rs_ModelsFetchedAt :: gtime
  rs_MetadataFetchedAt :: gtime
  rs_ErrorCode :: modelErrorCode
  rs_Models :: "modelInfo list"
  rs_config :: nat
  rs_auth :: nat
  rs_identity :: string

definition empty_snapshot :: "modelReadinessState \<Rightarrow> nat \<Rightarrow> nat \<Rightarrow> string \<Rightarrow> modelReadinessSnapshot" where
  "empty_snapshot state config auth identity = \<lparr>rs_State = state, rs_ModelSource = modelSourceNone,
     rs_MetadataSource = modelSourceNone, rs_ModelsFetchedAt = 0, rs_MetadataFetchedAt = 0,
     rs_ErrorCode = modelErrorNone, rs_Models = [], rs_config = config, rs_auth = auth, rs_identity = identity\<rparr>"

definition notStartedModelReadinessSnapshot :: "nat \<Rightarrow> modelReadinessSnapshot" where
  "notStartedModelReadinessSnapshot config = empty_snapshot modelNotStarted config 0 []"

definition modelSourceErrorCode ::
  "modelSourceError \<Rightarrow> modelErrorCode \<Rightarrow> modelErrorCode \<Rightarrow> modelErrorCode \<Rightarrow> modelErrorCode" where
  "modelSourceErrorCode err transport http schema = (case err of
      TransportFailure \<Rightarrow> transport | HTTPFailure _ \<Rightarrow> http | SchemaFailure _ \<Rightarrow> schema)"

definition workBuddyModelErrorCode :: "modelSourceError \<Rightarrow> modelErrorCode" where
  "workBuddyModelErrorCode err = modelSourceErrorCode err
     modelErrorWorkBuddyTransport modelErrorWorkBuddyHTTP modelErrorWorkBuddySchema"

definition modelsDevModelErrorCode :: "modelSourceError \<Rightarrow> modelErrorCode" where
  "modelsDevModelErrorCode err = modelSourceErrorCode err
     modelErrorModelsDevTransport modelErrorModelsDevHTTP modelErrorModelsDevSchema"

section \<open>Selections\<close>

text \<open>A selection without a cache has \<open>ok = false\<close>.\<close>

record modelCatalogSelection =
  se_cache :: "modelCatalogCacheV1 option"
  se_source :: modelSnapshotSource
  se_errorCode :: modelErrorCode

definition selectModelCatalog ::
  "modelCatalogCacheV1 option \<Rightarrow> modelCatalogCacheV1 option \<Rightarrow> modelErrorCode \<Rightarrow> modelCatalogSelection" where
  "selectModelCatalog fresh cached failure = (case fresh of
      Some c \<Rightarrow> \<lparr>se_cache = Some c, se_source = modelSourceFresh, se_errorCode = modelErrorNone\<rparr>
    | None \<Rightarrow> (case cached of
          Some c \<Rightarrow> \<lparr>se_cache = Some c, se_source = modelSourceCache, se_errorCode = failure\<rparr>
        | None \<Rightarrow> \<lparr>se_cache = None, se_source = modelSourceNone, se_errorCode = failure\<rparr>))"

record metadataSelection =
  me_cache :: "metadataCacheV1 option"
  me_source :: modelSnapshotSource
  me_errorCode :: modelErrorCode

definition selectMetadata ::
  "metadataCacheV1 option \<Rightarrow> metadataCacheV1 option \<Rightarrow> modelErrorCode \<Rightarrow> metadataSelection" where
  "selectMetadata fresh cached failure = (case fresh of
      Some c \<Rightarrow> \<lparr>me_cache = Some c, me_source = modelSourceFresh, me_errorCode = modelErrorNone\<rparr>
    | None \<Rightarrow> (case cached of
          Some c \<Rightarrow> \<lparr>me_cache = Some c, me_source = modelSourceCache, me_errorCode = failure\<rparr>
        | None \<Rightarrow> \<lparr>me_cache = None, me_source = modelSourceNone, me_errorCode = failure\<rparr>))"

definition zero_metadata :: metadataSelection where
  "zero_metadata = \<lparr>me_cache = None, me_source = modelSourceUnset, me_errorCode = modelErrorNone\<rparr>"

section \<open>The shared state\<close>

record modelGenerationKey =
  gk_Config :: nat
  gk_TokenSHA256 :: string
  gk_IdentitySHA256 :: string

definition config_key :: "nat \<Rightarrow> modelGenerationKey" where
  "config_key config = \<lparr>gk_Config = config, gk_TokenSHA256 = [], gk_IdentitySHA256 = []\<rparr>"

record modelAuthSlot =
  as_current :: "modelReadinessSnapshot option"
  as_calls :: "(nat, nat) gomap"
  as_nextAuth :: nat
  as_key :: modelGenerationKey

definition new_auth_slot :: modelAuthSlot where
  "new_auth_slot = \<lparr>as_current = None, as_calls = [], as_nextAuth = 0, as_key = config_key 0\<rparr>"

record modelIdentitySlot =
  is_nextSequence :: nat
  is_committedSequence :: nat
  is_committedConfig :: nat
  is_active :: "nat list"
  is_closed :: "nat list"

definition new_identity_slot :: modelIdentitySlot where
  "new_identity_slot = \<lparr>is_nextSequence = 0, is_committedSequence = 0, is_committedConfig = 0,
     is_active = [], is_closed = []\<rparr>"

text \<open>
  \<open>mr_store\<close> is \<open>store != nil\<close>, which is the same as \<open>storeError == \"\"\<close>; \<open>mr_configured\<close> are the configured
  models of the current feature runtime; \<open>mr_metadataDone\<close> are the finished metadata calls with what they
  returned if they were committed.
\<close>

record modelRuntime =
  mr_store :: bool
  mr_config :: nat
  mr_configured :: "string list"
  mr_authSlots :: "(string, modelAuthSlot) gomap"
  mr_identitySlots :: "(string, modelIdentitySlot) gomap"
  mr_metadataCall :: "nat option"
  mr_metadataCache :: "metadataCacheV1 option"
  mr_metadataResult :: "metadataSelection option"
  mr_metadataDone :: "(nat, metadataSelection option) gomap"
  mr_authDone :: "nat list"
  mr_next :: nat
  mr_files :: files

text \<open>What does not change while the plugin runs.\<close>

record model_env =
  en_codec :: cache_json
  en_json :: catalog_json
  en_dir :: string
  en_windows :: bool
  en_backend :: string
  en_desktop :: string
  en_claims :: "string \<Rightarrow> string option"
  en_host :: "string \<Rightarrow> string option"
  en_token :: "string \<Rightarrow> string"
  en_hash :: "modelAuthIdentity \<Rightarrow> string"

definition newModelRuntime :: "model_env \<Rightarrow> bool \<Rightarrow> string list \<Rightarrow> files \<Rightarrow> modelRuntime" where
  "newModelRuntime env store configured fs =
     (let r = \<lparr>mr_store = store, mr_config = 0, mr_configured = configured, mr_authSlots = [], mr_identitySlots = [],
            mr_metadataCall = None, mr_metadataCache = None, mr_metadataResult = None, mr_metadataDone = [],
            mr_authDone = [], mr_next = 0, mr_files = fs\<rparr>
      in if \<not> store then r
         else case loadMetadata (en_codec env) (en_dir env) fs of
             Inl e \<Rightarrow> r\<lparr>mr_metadataResult := Some \<lparr>me_cache = None, me_source = modelSourceNone,
               me_errorCode = modelErrorCacheRead\<rparr>\<rparr>
           | Inr None \<Rightarrow> r
           | Inr (Some cache) \<Rightarrow> r\<lparr>mr_metadataCache := Some cache\<rparr>)"

text \<open>
  The one runtime of the process: \<open>candidate\<close> is the freshly built one, which the compare-and-swap installs
  unless there is one already.
\<close>

definition currentModelRuntime :: "modelRuntime \<Rightarrow> modelRuntime option \<Rightarrow> modelRuntime \<times> modelRuntime option" where
  "currentModelRuntime candidate active = (case active of
      Some runtime \<Rightarrow> (runtime, active)
    | None \<Rightarrow> (candidate, Some candidate))"

definition authSlot :: "modelRuntime \<Rightarrow> string \<Rightarrow> modelAuthSlot" where
  "authSlot r a = (case gm_get (mr_authSlots r) a of Some s \<Rightarrow> s | None \<Rightarrow> new_auth_slot)"

definition put_auth :: "string \<Rightarrow> modelAuthSlot \<Rightarrow> modelRuntime \<Rightarrow> modelRuntime" where
  "put_auth a s r = r\<lparr>mr_authSlots := gm_put a s (mr_authSlots r)\<rparr>"

definition identitySlot :: "modelRuntime \<Rightarrow> string \<Rightarrow> modelIdentitySlot" where
  "identitySlot r h = (case gm_get (mr_identitySlots r) h of Some s \<Rightarrow> s | None \<Rightarrow> new_identity_slot)"

definition put_identity :: "string \<Rightarrow> modelIdentitySlot \<Rightarrow> modelRuntime \<Rightarrow> modelRuntime" where
  "put_identity h s r = r\<lparr>mr_identitySlots := gm_put h s (mr_identitySlots r)\<rparr>"

definition storeModelReadinessSnapshot :: "modelAuthSlot \<Rightarrow> modelReadinessSnapshot \<Rightarrow> modelAuthSlot" where
  "storeModelReadinessSnapshot s snap = s\<lparr>as_current := Some snap\<rparr>"

definition take_key :: "modelGenerationKey \<Rightarrow> modelAuthSlot \<Rightarrow> modelAuthSlot" where
  "take_key key s = (if as_key s \<noteq> key then s\<lparr>as_key := key, as_nextAuth := as_nextAuth s + 1\<rparr> else s)"

definition authGenerationCurrentLocked :: "modelRuntime \<Rightarrow> modelAuthSlot \<Rightarrow> modelGenerationKey \<Rightarrow> nat \<Rightarrow> bool" where
  "authGenerationCurrentLocked r s key gen =
     (as_key s = key \<and> as_nextAuth s = gen \<and> mr_config r = gk_Config key)"

section \<open>Goroutines\<close>

record model_request =
  rq_AuthID :: string
  rq_Stored :: "storedAuth option"

text \<open>The local variables of a goroutine that loads.\<close>

record model_load =
  ld_auth :: string
  ld_key :: modelGenerationKey
  ld_gen :: nat
  ld_call :: nat
  ld_realm :: workBuddyRealm
  ld_configured :: "string list"
  ld_snap :: modelReadinessSnapshot

definition ld_identity :: "model_load \<Rightarrow> string" where
  "ld_identity l = gk_IdentitySHA256 (ld_key l)"

type_synonym model_cached = "cacheError + modelCatalogCacheV1 option"

datatype metadata_fetch =
    MetaFailed modelErrorCode
  | MetaUnchanged metadataCacheV1
  | MetaFetched metadataCacheV1

datatype readiness_pc =
    RStart model_request
  | RAuthWait string nat nat
  | RSnapConfig string
  | RSnapLoad string nat
  | RSnapCheck string nat "modelReadinessSnapshot option"
  | RIdentStart model_load
  | RIdentLoad model_load nat
  | RIdentFetch model_load nat model_cached
  | RIdentSettle model_load nat modelErrorCode
  | RIdentSave model_load nat model_cached modelCatalogCacheV1
  | RIdentReload model_load model_cached
  | RIdentWait model_load "nat list" modelErrorCode
  | RMetaCheck model_load "modelCatalogSelection option"
  | RMetaEnter model_load "modelCatalogSelection option"
  | RMetaWait model_load "modelCatalogSelection option" nat
  | RMetaFetch model_load "modelCatalogSelection option" nat "metadataCacheV1 option" bool
  | RMetaCommit model_load "modelCatalogSelection option" nat "metadataCacheV1 option" bool metadata_fetch
  | RFinish model_load modelReadinessSnapshot
  | RDone modelReadinessSnapshot
  | RPanic readiness_pc

text \<open>What the surroundings decide in a step: answers of the two services, the clock, the disk.\<close>

record model_input =
  in_send :: model_do
  in_dev :: "dev_answer option"
  in_now :: gtime
  in_ok :: "write_step \<Rightarrow> bool"

subsection \<open>The start\<close>

definition auth_invalid :: "string \<Rightarrow> modelRuntime \<Rightarrow> modelRuntime \<times> readiness_pc" where
  "auth_invalid a r =
     (let s = take_key (config_key (mr_config r)) (authSlot r a);
          snap = (empty_snapshot modelFailed (mr_config r) (as_nextAuth s) [])\<lparr>rs_ErrorCode := modelErrorAuthInvalid\<rparr>
      in (put_auth a (storeModelReadinessSnapshot s snap) r, RDone snap))"

text \<open>After the loading snapshot is published: without a store nothing can be loaded.\<close>

definition after_publish :: "modelRuntime \<Rightarrow> model_load \<Rightarrow> readiness_pc" where
  "after_publish r l =
     (if \<not> mr_store r then
        RFinish l ((ld_snap l)\<lparr>rs_ModelSource := (if ld_configured l \<noteq> [] then modelSourceConfig else modelSourceNone),
          rs_State := modelFailed, rs_ErrorCode := modelErrorCacheRead\<rparr>)
      else if ld_configured l \<noteq> [] then RMetaCheck l None
      else RIdentStart l)"

definition begin_or_wait ::
  "string \<Rightarrow> modelGenerationKey \<Rightarrow> workBuddyRealm \<Rightarrow> modelAuthSlot \<Rightarrow> modelRuntime \<Rightarrow> modelRuntime \<times> readiness_pc" where
  "begin_or_wait a key realm s r = (case gm_get (as_calls s) (as_nextAuth s) of
      Some call \<Rightarrow> (put_auth a s r, RAuthWait a (as_nextAuth s) call)
    | None \<Rightarrow>
        (let gen = as_nextAuth s; call = mr_next r;
             snap = empty_snapshot modelLoading (mr_config r) gen (gk_IdentitySHA256 key);
             s = storeModelReadinessSnapshot (s\<lparr>as_calls := gm_put gen call (as_calls s)\<rparr>) snap;
             l = \<lparr>ld_auth = a, ld_key = key, ld_gen = gen, ld_call = call, ld_realm = realm,
                  ld_configured = mr_configured r, ld_snap = snap\<rparr>
         in ((put_auth a s r)\<lparr>mr_next := call + 1\<rparr>, after_publish r l)))"

definition begin_load ::
  "string \<Rightarrow> modelGenerationKey \<Rightarrow> workBuddyRealm \<Rightarrow> modelRuntime \<Rightarrow> modelRuntime \<times> readiness_pc" where
  "begin_load a key realm r =
     (let s = take_key key (authSlot r a) in
      case as_current s of
        Some cur \<Rightarrow>
          if rs_auth cur = as_nextAuth s \<and> rs_State cur \<noteq> modelLoading then (put_auth a s r, RDone cur)
          else begin_or_wait a key realm s r
      | None \<Rightarrow> begin_or_wait a key realm s r)"

definition request_realm :: "model_env \<Rightarrow> storedAuth \<Rightarrow> workBuddyRealm option" where
  "request_realm env sa = workBuddyRealmFromAccessToken (en_claims env) (en_host env) (sto_AccessToken sa)"

definition start_step :: "model_env \<Rightarrow> model_request \<Rightarrow> modelRuntime \<Rightarrow> modelRuntime \<times> readiness_pc" where
  "start_step env req r = (case rq_Stored req of
      None \<Rightarrow> auth_invalid (rq_AuthID req) r
    | Some sa \<Rightarrow> (case request_realm env sa of
          None \<Rightarrow> auth_invalid (rq_AuthID req) r
        | Some realm \<Rightarrow> (case modelAuthIdentityFor (Some realm) (rq_AuthID req) sa of
              None \<Rightarrow> auth_invalid (rq_AuthID req) r
            | Some i \<Rightarrow> begin_load (rq_AuthID req)
                \<lparr>gk_Config = mr_config r, gk_TokenSHA256 = en_token env (sto_AccessToken sa),
                 gk_IdentitySHA256 = identity_sha256 (en_hash env) i\<rparr> (id_Realm i) r)))"

subsection \<open>The catalogue of an identity\<close>

definition startIdentityCall :: "model_load \<Rightarrow> modelRuntime \<Rightarrow> modelRuntime \<times> readiness_pc" where
  "startIdentityCall l r =
     (let d = identitySlot r (ld_identity l); seq = is_nextSequence d + 1
      in (put_identity (ld_identity l) (d\<lparr>is_nextSequence := seq, is_active := seq # is_active d\<rparr>) r, RIdentLoad l seq))"

definition load_cached :: "model_env \<Rightarrow> model_load \<Rightarrow> modelRuntime \<Rightarrow> model_cached" where
  "load_cached env l r = loadModels (en_codec env) (en_dir env) (ld_identity l) (ld_realm l) (mr_files r)"

definition cached_models :: "model_cached \<Rightarrow> modelCatalogCacheV1 option" where
  "cached_models c = (case c of Inl _ \<Rightarrow> None | Inr m \<Rightarrow> m)"

definition fetch_step :: "model_env \<Rightarrow> model_input \<Rightarrow> model_load \<Rightarrow> nat \<Rightarrow> model_cached \<Rightarrow> readiness_pc" where
  "fetch_step env inp l seq cached =
     (case fetchWorkBuddyCatalog (en_json env) (Some (ld_realm l)) (in_send inp) (en_backend env) (en_desktop env) of
        Inl e \<Rightarrow> RIdentSettle l seq (workBuddyModelErrorCode e)
      | Inr cat \<Rightarrow> RIdentSave l seq cached \<lparr>ct_SchemaVersion = modelCacheSchemaVersion, ct_IdentitySHA256 = ld_identity l,
          ct_Realm = wc_Realm cat, ct_FetchedAt = in_now inp, ct_Endpoint = wc_Endpoint cat, ct_Models = wc_Models cat\<rparr>)"

definition settleIdentityCallLocked :: "modelIdentitySlot \<Rightarrow> nat \<Rightarrow> (nat list \<times> modelIdentitySlot) option" where
  "settleIdentityCallLocked d call =
     (if is_active d = [] \<or> call \<in> set (is_closed d) then None
      else Some (filter (\<lambda>c. c \<noteq> call) (is_active d),
        d\<lparr>is_active := filter (\<lambda>c. c \<noteq> call) (is_active d), is_closed := call # is_closed d\<rparr>))"

definition settleIdentityCall ::
  "model_load \<Rightarrow> nat \<Rightarrow> modelErrorCode \<Rightarrow> modelRuntime \<Rightarrow> modelRuntime \<times> readiness_pc" where
  "settleIdentityCall l seq failure r =
     (case settleIdentityCallLocked (identitySlot r (ld_identity l)) seq of
        None \<Rightarrow> (r, RPanic (RIdentSettle l seq failure))
      | Some (waits, d) \<Rightarrow> (put_identity (ld_identity l) d r, RIdentWait l waits failure))"

definition saveModelsForGeneration ::
  "model_env \<Rightarrow> model_input \<Rightarrow> model_load \<Rightarrow> nat \<Rightarrow> model_cached \<Rightarrow> modelCatalogCacheV1 \<Rightarrow> modelRuntime \<Rightarrow>
   modelRuntime \<times> readiness_pc" where
  "saveModelsForGeneration env inp l seq cached cache r =
     (let d = identitySlot r (ld_identity l) in
      if \<not> authGenerationCurrentLocked r (authSlot r (ld_auth l)) (ld_key l) (ld_gen l) then
        (case settleIdentityCallLocked d seq of
           None \<Rightarrow> (r, RPanic (RIdentSave l seq cached cache))
         | Some (_, d) \<Rightarrow> (put_identity (ld_identity l) d r, RFinish l (ld_snap l)))
      else if is_committedConfig d = gk_Config (ld_key l) \<and> seq < is_committedSequence d then
        (case settleIdentityCallLocked d seq of
           None \<Rightarrow> (r, RPanic (RIdentSave l seq cached cache))
         | Some (_, d) \<Rightarrow> (put_identity (ld_identity l) d r, RIdentReload l cached))
      else
        (case saveModels (en_codec env) (en_windows env) (in_ok inp) (en_dir env) cache (mr_files r) of (err, fs) \<Rightarrow>
           (let d = (if err = None then d\<lparr>is_committedConfig := gk_Config (ld_key l), is_committedSequence := seq\<rparr> else d)
            in case settleIdentityCallLocked d seq of
                 None \<Rightarrow> (r\<lparr>mr_files := fs\<rparr>, RPanic (RIdentSave l seq cached cache))
               | Some (waits, d) \<Rightarrow> ((put_identity (ld_identity l) d r)\<lparr>mr_files := fs\<rparr>,
                   if err \<noteq> None then
                     RIdentWait l waits (case cached of Inl _ \<Rightarrow> modelErrorCacheRead | Inr _ \<Rightarrow> modelErrorCacheWrite)
                   else RMetaCheck l (Some (selectModelCatalog (Some cache) (cached_models cached) modelErrorNone))))))"

definition reload_step :: "model_env \<Rightarrow> model_load \<Rightarrow> model_cached \<Rightarrow> modelRuntime \<Rightarrow> readiness_pc" where
  "reload_step env l cached r = RMetaCheck l (Some (case load_cached env l r of
      Inr (Some committed) \<Rightarrow> selectModelCatalog (Some committed) (cached_models cached) modelErrorNone
    | _ \<Rightarrow> selectModelCatalog None (cached_models cached) modelErrorCacheRead))"

definition waitForIdentityCalls ::
  "model_env \<Rightarrow> model_load \<Rightarrow> nat list \<Rightarrow> modelErrorCode \<Rightarrow> modelRuntime \<Rightarrow> readiness_pc option" where
  "waitForIdentityCalls env l waits failure r = (case waits of
      w # ws \<Rightarrow> if w \<in> set (is_closed (identitySlot r (ld_identity l))) then Some (RIdentWait l ws failure) else None
    | [] \<Rightarrow> (let cached = load_cached env l r in
        Some (RMetaCheck l (Some (selectModelCatalog None (cached_models cached)
          (case cached of Inl _ \<Rightarrow> modelErrorCacheRead | Inr _ \<Rightarrow> failure))))))"

subsection \<open>The metadata\<close>

text \<open>The snapshot that is published, from the selected catalogue (or the configured models) and the metadata.\<close>

definition with_models :: "modelReadinessSnapshot \<Rightarrow> modelInfo list \<Rightarrow> bool \<Rightarrow> modelReadinessSnapshot" where
  "with_models snap models fresh =
     (if fresh then snap\<lparr>rs_Models := models, rs_State := modelReady, rs_ErrorCode := modelErrorNone\<rparr>
      else snap\<lparr>rs_Models := models, rs_State := modelStale\<rparr>)"

definition with_metadata :: "modelReadinessSnapshot \<Rightarrow> metadataSelection \<Rightarrow> modelReadinessSnapshot" where
  "with_metadata snap m = snap\<lparr>rs_MetadataSource := me_source m,
     rs_MetadataFetchedAt := (case me_cache m of Some c \<Rightarrow> md_FetchedAt c | None \<Rightarrow> rs_MetadataFetchedAt snap)\<rparr>"

definition configured_snapshot :: "model_load \<Rightarrow> metadataSelection \<Rightarrow> modelReadinessSnapshot" where
  "configured_snapshot l m =
     (let snap = (with_metadata ((ld_snap l)\<lparr>rs_ModelSource := modelSourceConfig\<rparr>) m)\<lparr>rs_ErrorCode := me_errorCode m\<rparr>
      in case me_cache m of
           None \<Rightarrow> snap\<lparr>rs_State := modelFailed\<rparr>
         | Some meta \<Rightarrow> with_models snap
             (map (\<lambda>i. modelInfoFromSources (no_facts i) (matchModelsDevRecord i (md_Records meta))) (ld_configured l))
             (me_source m = modelSourceFresh))"

definition catalog_snapshot ::
  "model_load \<Rightarrow> modelCatalogSelection \<Rightarrow> metadataSelection \<Rightarrow> modelReadinessSnapshot" where
  "catalog_snapshot l sel m =
     (let snap = (ld_snap l)\<lparr>rs_ModelSource := se_source sel,
            rs_ModelsFetchedAt := (case se_cache sel of Some c \<Rightarrow> ct_FetchedAt c | None \<Rightarrow> rs_ModelsFetchedAt (ld_snap l))\<rparr>;
          snap = (with_metadata snap m)\<lparr>rs_ErrorCode :=
            (if se_errorCode sel = modelErrorNone then me_errorCode m else se_errorCode sel)\<rparr>
      in case (se_cache sel, me_cache m) of
           (Some cat, Some meta) \<Rightarrow> with_models snap
             (map (\<lambda>f. modelInfoFromSources f (matchModelsDevRecord (mf_ID f) (md_Records meta))) (ct_Models cat))
             (se_source sel = modelSourceFresh \<and> me_source m = modelSourceFresh)
         | _ \<Rightarrow> snap\<lparr>rs_State := modelFailed\<rparr>)"

definition after_metadata :: "model_load \<Rightarrow> modelCatalogSelection option \<Rightarrow> metadataSelection \<Rightarrow> readiness_pc" where
  "after_metadata l sel m = RFinish l (case sel of
      None \<Rightarrow> configured_snapshot l m | Some s \<Rightarrow> catalog_snapshot l s m)"

definition meta_check :: "model_load \<Rightarrow> modelCatalogSelection option \<Rightarrow> modelRuntime \<Rightarrow> readiness_pc" where
  "meta_check l sel r =
     (if authGenerationCurrentLocked r (authSlot r (ld_auth l)) (ld_key l) (ld_gen l) then RMetaEnter l sel
      else after_metadata l sel zero_metadata)"

definition cache_read_failed :: "modelRuntime \<Rightarrow> bool" where
  "cache_read_failed r = (case mr_metadataResult r of None \<Rightarrow> False | Some m \<Rightarrow> me_errorCode m = modelErrorCacheRead)"

definition settled_metadata :: "modelRuntime \<Rightarrow> metadataSelection option" where
  "settled_metadata r = (case mr_metadataResult r of
      None \<Rightarrow> None | Some m \<Rightarrow> if me_cache m \<noteq> None then Some m else None)"

definition meta_enter ::
  "model_load \<Rightarrow> modelCatalogSelection option \<Rightarrow> modelRuntime \<Rightarrow> modelRuntime \<times> readiness_pc" where
  "meta_enter l sel r = (case settled_metadata r of
      Some m \<Rightarrow> (r, after_metadata l sel m)
    | None \<Rightarrow> (case mr_metadataCall r of
          Some call \<Rightarrow> (r, RMetaWait l sel call)
        | None \<Rightarrow> (r\<lparr>mr_metadataCall := Some (mr_next r), mr_next := mr_next r + 1\<rparr>,
            RMetaFetch l sel (mr_next r) (mr_metadataCache r) (cache_read_failed r))))"

definition meta_wait ::
  "model_load \<Rightarrow> modelCatalogSelection option \<Rightarrow> nat \<Rightarrow> modelRuntime \<Rightarrow> readiness_pc option" where
  "meta_wait l sel call r = (case gm_get (mr_metadataDone r) call of
      None \<Rightarrow> None
    | Some (Some m) \<Rightarrow> Some (after_metadata l sel m)
    | Some None \<Rightarrow> Some (RMetaCheck l sel))"

definition meta_fetch :: "model_input \<Rightarrow> metadataCacheV1 option \<Rightarrow> metadata_fetch" where
  "meta_fetch inp cached = (case fetchModelsDevMetadata (in_dev inp) of
      Inl e \<Rightarrow> MetaFailed (modelsDevModelErrorCode e)
    | Inr (NotModified _) \<Rightarrow> (case cached of Some c \<Rightarrow> MetaUnchanged c | None \<Rightarrow> MetaFailed modelErrorModelsDevSchema)
    | Inr (Fetched etag records) \<Rightarrow> MetaFetched \<lparr>md_SchemaVersion = modelCacheSchemaVersion, md_ETag = etag,
        md_FetchedAt = in_now inp, md_Records = records\<rparr>)"

definition close_metadata :: "nat \<Rightarrow> metadataSelection option \<Rightarrow> modelRuntime \<Rightarrow> modelRuntime" where
  "close_metadata call result r = r\<lparr>mr_metadataDone := gm_put call result (mr_metadataDone r),
     mr_metadataCall := (if mr_metadataCall r = Some call then None else mr_metadataCall r)\<rparr>"

text \<open>Saving fetched metadata: what is fresh then, the failure otherwise, and the files.\<close>

definition save_fetched ::
  "model_env \<Rightarrow> model_input \<Rightarrow> bool \<Rightarrow> metadata_fetch \<Rightarrow> files \<Rightarrow> metadataCacheV1 option \<times> modelErrorCode \<times> files" where
  "save_fetched env inp readFailed f fs = (case f of
      MetaFailed e \<Rightarrow> (None, e, fs)
    | MetaUnchanged c \<Rightarrow> (Some c, modelErrorNone, fs)
    | MetaFetched c \<Rightarrow> (case saveMetadata (en_codec env) (en_windows env) (in_ok inp) (en_dir env) c fs of
          (None, fs) \<Rightarrow> (Some c, modelErrorNone, fs)
        | (Some _, fs) \<Rightarrow> (None, if readFailed then modelErrorCacheRead else modelErrorCacheWrite, fs)))"

definition meta_commit ::
  "model_env \<Rightarrow> model_input \<Rightarrow> model_load \<Rightarrow> modelCatalogSelection option \<Rightarrow> nat \<Rightarrow> metadataCacheV1 option \<Rightarrow> bool \<Rightarrow>
   metadata_fetch \<Rightarrow> modelRuntime \<Rightarrow> modelRuntime \<times> readiness_pc" where
  "meta_commit env inp l sel call cached readFailed f r =
     (if gm_get (mr_metadataDone r) call \<noteq> None then (r, RPanic (RMetaCommit l sel call cached readFailed f))
      else if \<not> authGenerationCurrentLocked r (authSlot r (ld_auth l)) (ld_key l) (ld_gen l) then
        (close_metadata call None r, after_metadata l sel zero_metadata)
      else (case save_fetched env inp readFailed f (mr_files r) of (fresh, failure, fs) \<Rightarrow>
        (let selected = selectMetadata fresh cached failure;
             r = r\<lparr>mr_files := fs,
               mr_metadataResult := (if me_cache selected \<noteq> None then Some selected
                 else if readFailed then Some \<lparr>me_cache = None, me_source = modelSourceNone, me_errorCode = modelErrorCacheRead\<rparr>
                 else None),
               mr_metadataCache := (if me_cache selected \<noteq> None then me_cache selected else mr_metadataCache r)\<rparr>
         in (close_metadata call (Some selected) r, after_metadata l sel selected))))"

subsection \<open>The end\<close>

definition current_or_not_started :: "modelRuntime \<Rightarrow> modelReadinessSnapshot option \<Rightarrow> modelReadinessSnapshot" where
  "current_or_not_started r cur = (case cur of
      Some c \<Rightarrow> if rs_config c = mr_config r then c else notStartedModelReadinessSnapshot (mr_config r)
    | None \<Rightarrow> notStartedModelReadinessSnapshot (mr_config r))"

definition finishAuthCall :: "model_load \<Rightarrow> modelReadinessSnapshot \<Rightarrow> modelRuntime \<Rightarrow> modelRuntime \<times> readiness_pc" where
  "finishAuthCall l snap r =
     (if ld_call l \<in> set (mr_authDone r) then (r, RPanic (RFinish l snap))
      else
        (let s = authSlot r (ld_auth l);
             publish = authGenerationCurrentLocked r s (ld_key l) (ld_gen l);
             result = (if publish then snap else current_or_not_started r (as_current s));
             s = (if publish then storeModelReadinessSnapshot s snap else s);
             s = (if gm_get (as_calls s) (ld_gen l) = Some (ld_call l) then s\<lparr>as_calls := gm_del (ld_gen l) (as_calls s)\<rparr> else s)
         in ((put_auth (ld_auth l) s r)\<lparr>mr_authDone := ld_call l # mr_authDone r\<rparr>, RDone result)))"

text \<open>\<open>snapshotForAuthID\<close> reads without a lock: the generation, the snapshot, the generation again.\<close>

definition snapshotForAuthID :: "modelRuntime \<Rightarrow> string \<Rightarrow> modelReadinessSnapshot" where
  "snapshotForAuthID r a = current_or_not_started r (as_current (authSlot r a))"

definition snap_check :: "string \<Rightarrow> nat \<Rightarrow> modelReadinessSnapshot option \<Rightarrow> modelRuntime \<Rightarrow> readiness_pc" where
  "snap_check a g cur r =
     (if mr_config r \<noteq> g then RSnapConfig a
      else RDone (current_or_not_started r cur))"

fun readiness_step ::
  "model_env \<Rightarrow> model_input \<Rightarrow> modelRuntime \<Rightarrow> readiness_pc \<Rightarrow> (modelRuntime \<times> readiness_pc) option" where
  "readiness_step env inp r (RStart req) = Some (start_step env req r)"
| "readiness_step env inp r (RAuthWait a g call) =
     (if call \<in> set (mr_authDone r) then Some (r, RSnapConfig a) else None)"
| "readiness_step env inp r (RSnapConfig a) = Some (r, RSnapLoad a (mr_config r))"
| "readiness_step env inp r (RSnapLoad a g) = Some (r, RSnapCheck a g (as_current (authSlot r a)))"
| "readiness_step env inp r (RSnapCheck a g cur) = Some (r, snap_check a g cur r)"
| "readiness_step env inp r (RIdentStart l) = Some (startIdentityCall l r)"
| "readiness_step env inp r (RIdentLoad l seq) = Some (r, RIdentFetch l seq (load_cached env l r))"
| "readiness_step env inp r (RIdentFetch l seq cached) = Some (r, fetch_step env inp l seq cached)"
| "readiness_step env inp r (RIdentSettle l seq failure) = Some (settleIdentityCall l seq failure r)"
| "readiness_step env inp r (RIdentSave l seq cached cache) = Some (saveModelsForGeneration env inp l seq cached cache r)"
| "readiness_step env inp r (RIdentReload l cached) = Some (r, reload_step env l cached r)"
| "readiness_step env inp r (RIdentWait l waits failure) =
     map_option (\<lambda>pc. (r, pc)) (waitForIdentityCalls env l waits failure r)"
| "readiness_step env inp r (RMetaCheck l sel) = Some (r, meta_check l sel r)"
| "readiness_step env inp r (RMetaEnter l sel) = Some (meta_enter l sel r)"
| "readiness_step env inp r (RMetaWait l sel call) = map_option (\<lambda>pc. (r, pc)) (meta_wait l sel call r)"
| "readiness_step env inp r (RMetaFetch l sel call cached readFailed) =
     Some (r, RMetaCommit l sel call cached readFailed (meta_fetch inp cached))"
| "readiness_step env inp r (RMetaCommit l sel call cached readFailed f) =
     Some (meta_commit env inp l sel call cached readFailed f r)"
| "readiness_step env inp r (RFinish l snap) = Some (finishAuthCall l snap r)"
| "readiness_step env inp r (RDone snap) = None"
| "readiness_step env inp r (RPanic p) = None"

section \<open>Operations that are one critical section\<close>

definition commitFeatureRuntime :: "string list \<Rightarrow> modelRuntime \<Rightarrow> nat \<times> modelRuntime" where
  "commitFeatureRuntime configured r =
     (mr_config r + 1, r\<lparr>mr_configured := configured, mr_config := mr_config r + 1\<rparr>)"

definition advanceConfigGeneration :: "modelRuntime \<Rightarrow> nat \<times> modelRuntime" where
  "advanceConfigGeneration r = (mr_config r + 1, r\<lparr>mr_config := mr_config r + 1\<rparr>)"

definition markAuthNotStarted :: "string \<Rightarrow> modelRuntime \<Rightarrow> modelRuntime" where
  "markAuthNotStarted a r =
     (let s = take_key (config_key (mr_config r)) (authSlot r a)
      in put_auth a (storeModelReadinessSnapshot s (empty_snapshot modelNotStarted (mr_config r) (as_nextAuth s) [])) r)"

text \<open>The status for the panel: source, time and error.\<close>

definition metadataStatus :: "modelRuntime \<Rightarrow> modelSnapshotSource \<times> gtime \<times> modelErrorCode" where
  "metadataStatus r = (case mr_metadataResult r of
      Some m \<Rightarrow> (me_source m, case me_cache m of Some c \<Rightarrow> md_FetchedAt c | None \<Rightarrow> 0, me_errorCode m)
    | None \<Rightarrow> (case mr_metadataCache r of
          Some c \<Rightarrow> (modelSourceCache, md_FetchedAt c, modelErrorNone)
        | None \<Rightarrow> (modelSourceNone, 0, if mr_store r then modelErrorNone else modelErrorCacheRead)))"

section \<open>All goroutines together\<close>

type_synonym readiness_state = "modelRuntime \<times> readiness_pc list"

inductive model_step :: "model_env \<Rightarrow> readiness_state \<Rightarrow> readiness_state \<Rightarrow> bool" for env where
  ensureForAuth: "model_step env (r, ts) (r, ts @ [RStart req])"
| snapshot: "model_step env (r, ts) (r, ts @ [RSnapConfig a])"
| goroutine: "i < length ts \<Longrightarrow> readiness_step env inp r (ts ! i) = Some (r', t) \<Longrightarrow>
    model_step env (r, ts) (r', ts[i := t])"
| feature_runtime: "model_step env (r, ts) (snd (commitFeatureRuntime configured r), ts)"
| advance_config: "model_step env (r, ts) (snd (advanceConfigGeneration r), ts)"
| not_started: "model_step env (r, ts) (markAuthNotStarted a r, ts)"

inductive model_reachable :: "model_env \<Rightarrow> readiness_state \<Rightarrow> bool" for env where
  start: "model_reachable env (newModelRuntime env store configured fs, [])"
| step: "model_reachable env s \<Longrightarrow> model_step env s s' \<Longrightarrow> model_reachable env s'"

inductive_cases model_stepE: "model_step env (r, ts) s"

end
