(* ===== verification/Call_Registry.thy ===== *)
theory Call_Registry
  imports Prelude
begin

text \<open>
  Calls that goroutines share. Several parts of the plugin let one goroutine do a piece of work while the
  others wait for it on a channel that is closed at the end. The locale \<open>call_registry\<close> states the contract of
  such a registry: a step begins a new call, ends the one its goroutine holds, or leaves the registry alone.
  It derives once that the running calls are exactly those that some goroutine holds, that no call has two
  holders, and that whoever waits waits for a call that is running or already closed.
\<close>

lemma at_most_one:
  assumes "\<And>i j. i < length ts \<Longrightarrow> j < length ts \<Longrightarrow> P (ts ! i) \<Longrightarrow> P (ts ! j) \<Longrightarrow> i = j"
  shows "length (filter P ts) \<le> 1"
proof -
  have "finite {i. i < length ts \<and> P (ts ! i)}" by simp
  then have "card {i. i < length ts \<and> P (ts ! i)} \<le> 1"
    using assms by (auto simp: card_le_Suc0_iff_eq)
  then show ?thesis by (simp add: length_filter_conv_card)
qed

locale call_registry =
  fixes holds :: "'p \<Rightarrow> 'k option"
    and waits :: "'p \<Rightarrow> 'k set"
    and active :: "'r \<Rightarrow> 'k set"
    and closed :: "'r \<Rightarrow> 'k set"
    and wf :: "'r \<Rightarrow> bool"
    and go :: "'r \<Rightarrow> 'p \<Rightarrow> 'r \<Rightarrow> 'p \<Rightarrow> bool"
    and ctl :: "'r \<Rightarrow> 'r \<Rightarrow> bool"
    and new :: "'p \<Rightarrow> bool"
  assumes go_wf: "go r p r' p' \<Longrightarrow> wf r \<Longrightarrow> (\<And>k. holds p = Some k \<Longrightarrow> k \<in> active r) \<Longrightarrow> wf r'"
    and go_waits: "go r p r' p' \<Longrightarrow> waits p' \<subseteq> waits p \<union> active r \<union> closed r"
    and go_event: "go r p r' p' \<Longrightarrow> wf r \<Longrightarrow> active r \<inter> closed r = {} \<Longrightarrow>
      (\<And>k. holds p = Some k \<Longrightarrow> k \<in> active r) \<Longrightarrow>
      holds p' = holds p \<and> active r' = active r \<and> closed r' = closed r \<or>
      (\<exists>k. holds p = None \<and> holds p' = Some k \<and> k \<notin> active r \<union> closed r \<and>
        active r' = insert k (active r) \<and> closed r' = closed r) \<or>
      (\<exists>k. holds p = Some k \<and> holds p' = None \<and> active r' = active r - {k} \<and>
        insert k (closed r) \<subseteq> closed r' \<and> active r' \<inter> closed r' = {})"
    and ctl_same: "ctl r r' \<Longrightarrow> wf r \<Longrightarrow> wf r' \<and> active r' = active r \<and> closed r' = closed r"
    and new_idle: "new p \<Longrightarrow> holds p = None \<and> waits p = {}"
begin

definition holdings :: "'p list \<Rightarrow> 'k set" where
  "holdings ts = {k. \<exists>i<length ts. holds (ts ! i) = Some k}"

definition exclusive :: "'p list \<Rightarrow> bool" where
  "exclusive ts = (\<forall>i<length ts. \<forall>j<length ts. \<forall>k. holds (ts ! i) = Some k \<longrightarrow> holds (ts ! j) = Some k \<longrightarrow> i = j)"

definition inv :: "'r \<Rightarrow> 'p list \<Rightarrow> bool" where
  "inv r ts = (wf r \<and> active r \<inter> closed r = {} \<and> holdings ts = active r \<and> exclusive ts \<and>
     (\<forall>i<length ts. waits (ts ! i) \<subseteq> active r \<union> closed r))"

lemma inv_start: "wf r \<Longrightarrow> active r = {} \<Longrightarrow> inv r []"
  by (simp add: inv_def holdings_def exclusive_def)

lemma inv_holder: "inv r ts \<Longrightarrow> k \<in> active r \<Longrightarrow> \<exists>i<length ts. holds (ts ! i) = Some k"
  unfolding inv_def holdings_def by blast

lemma inv_held:
  assumes "inv r ts" and "i < length ts" and "holds (ts ! i) = Some k"
  shows "k \<in> active r \<and> k \<notin> closed r"
proof -
  have "k \<in> holdings ts" using assms(2,3) by (auto simp: holdings_def)
  then show ?thesis using assms(1) by (auto simp: inv_def)
qed

lemma inv_one: "inv r ts \<Longrightarrow> i < length ts \<Longrightarrow> j < length ts \<Longrightarrow> holds (ts ! i) = Some k \<Longrightarrow>
    holds (ts ! j) = Some k \<Longrightarrow> i = j"
  by (simp add: inv_def exclusive_def)

lemma inv_waits: "inv r ts \<Longrightarrow> i < length ts \<Longrightarrow> k \<in> waits (ts ! i) \<Longrightarrow> k \<in> active r \<or> k \<in> closed r"
  unfolding inv_def by blast

lemma inv_control: "inv r ts \<Longrightarrow> ctl r r' \<Longrightarrow> inv r' ts"
  using ctl_same [of r r'] unfolding inv_def by metis

lemma inv_spawn:
  assumes "inv r ts" and "new t"
  shows "inv r (ts @ [t])"
proof -
  have idle: "holds t = None" "waits t = {}" using new_idle [OF assms(2)] by simp_all
  have "holdings (ts @ [t]) = holdings ts"
    using idle(1) by (fastforce simp: holdings_def nth_append less_Suc_eq split: if_splits)
  moreover have "exclusive (ts @ [t])"
    using assms(1) idle(1) by (auto simp: inv_def exclusive_def nth_append less_Suc_eq)
  ultimately show ?thesis
    using assms(1) idle(2) by (auto simp: inv_def nth_append less_Suc_eq)
qed

lemma holdings_update:
  assumes "exclusive ts" and "i < length ts"
  shows "holdings (ts[i := t]) = (holdings ts - set_option (holds (ts ! i))) \<union> set_option (holds t)"
proof (intro set_eqI iffI)
  fix k assume "k \<in> holdings (ts[i := t])"
  then obtain j where j: "j < length ts" "holds (ts[i := t] ! j) = Some k" by (auto simp: holdings_def)
  show "k \<in> (holdings ts - set_option (holds (ts ! i))) \<union> set_option (holds t)"
  proof (cases "j = i")
    case False
    then have h: "holds (ts ! j) = Some k" using j by simp
    then have "holds (ts ! i) \<noteq> Some k" using assms False j(1) by (auto simp: exclusive_def)
    then show ?thesis using h j(1) by (auto simp: holdings_def)
  qed (use j in simp)
next
  fix k assume "k \<in> (holdings ts - set_option (holds (ts ! i))) \<union> set_option (holds t)"
  then consider "holds t = Some k" | j where "j < length ts" "holds (ts ! j) = Some k" "holds (ts ! i) \<noteq> Some k"
    by (auto simp: holdings_def)
  then show "k \<in> holdings (ts[i := t])"
  proof cases
    case 1
    then show ?thesis using assms(2) by (auto simp: holdings_def intro!: exI [of _ i])
  next
    case (2 j)
    then have "j \<noteq> i" by auto
    then show ?thesis using 2 by (auto simp: holdings_def intro!: exI [of _ j])
  qed
qed

lemma exclusive_update:
  assumes "exclusive ts" and "i < length ts" and "\<And>k. holds t = Some k \<Longrightarrow> holds (ts ! i) = Some k \<or> k \<notin> holdings ts"
  shows "exclusive (ts[i := t])"
proof -
  have other: "holds (ts ! j) \<noteq> Some k" if "j < length ts" "j \<noteq> i" "holds t = Some k" for j k
    using assms that unfolding exclusive_def holdings_def by blast
  have "j = j'" if j: "j < length ts" "j' < length ts"
    and h: "holds (ts[i := t] ! j) = Some k" "holds (ts[i := t] ! j') = Some k" for j j' k
  proof (rule ccontr)
    assume "j \<noteq> j'"
    then consider "j = i" "j' \<noteq> i" | "j \<noteq> i" "j' = i" | "j \<noteq> i" "j' \<noteq> i" by blast
    then show False
    proof cases
      case 3
      then show ?thesis using assms(1) j h \<open>j \<noteq> j'\<close> unfolding exclusive_def by auto
    qed (use other j h assms(2) in auto)
  qed
  then show ?thesis unfolding exclusive_def by simp
qed

lemma inv_go:
  assumes "inv r ts" and "i < length ts" and "go r (ts ! i) r' t"
  shows "inv r' (ts[i := t])"
proof -
  have wf: "wf r" and disj: "active r \<inter> closed r = {}" and hold: "holdings ts = active r"
    and ex: "exclusive ts" and ws: "\<And>j. j < length ts \<Longrightarrow> waits (ts ! j) \<subseteq> active r \<union> closed r"
    using assms(1) unfolding inv_def by blast+
  have mine: "\<And>k. holds (ts ! i) = Some k \<Longrightarrow> k \<in> active r" using inv_held [OF assms(1,2)] by blast
  have waiting: "waits (ts[i := t] ! j) \<subseteq> active r \<union> closed r" if "j < length ts" for j
    using ws [OF that] ws [OF assms(2)] go_waits [OF assms(3)] by (cases "j = i") (use that in auto)
  from go_event [OF assms(3) wf disj mine] consider
      (same) "holds t = holds (ts ! i)" "active r' = active r" "closed r' = closed r"
    | (enter) k where "holds (ts ! i) = None" "holds t = Some k" "k \<notin> active r \<union> closed r"
        "active r' = insert k (active r)" "closed r' = closed r"
    | (leave) k where "holds (ts ! i) = Some k" "holds t = None" "active r' = active r - {k}"
        "insert k (closed r) \<subseteq> closed r'" "active r' \<inter> closed r' = {}"
    by blast
  then have "active r' = holdings (ts[i := t]) \<and> exclusive (ts[i := t]) \<and> active r' \<inter> closed r' = {} \<and>
      active r \<union> closed r \<subseteq> active r' \<union> closed r'"
  proof cases
    case same
    then show ?thesis
      using holdings_update [OF ex assms(2), of t] exclusive_update [OF ex assms(2), of t] disj hold mine
      by (auto simp: elem_set)
  next
    case (enter k)
    then show ?thesis
      using holdings_update [OF ex assms(2), of t] exclusive_update [OF ex assms(2), of t] disj hold by auto
  next
    case (leave k)
    then show ?thesis
      using holdings_update [OF ex assms(2), of t] exclusive_update [OF ex assms(2), of t] hold by auto
  qed
  then show ?thesis unfolding inv_def using go_wf [OF assms(3) wf mine] waiting by (metis length_list_update order_trans)
qed

end

end
