(* ===== verification/Model_Registry.thy ===== *)
theory Model_Registry
  imports Model_Readiness Call_Registry
begin

text \<open>
  The registries of running calls in model readiness: the loads of an account, the calls of an identity
  and the fetch of the metadata. Each is shown to meet the contract \<open>call_registry\<close>, so that the calls that
  run are exactly those that some goroutine holds, and whoever waits waits for a call that is running or
  already closed.
\<close>

section \<open>Steps of one goroutine, of the control, and new goroutines\<close>

definition gstep :: "model_env \<Rightarrow> modelRuntime \<Rightarrow> readiness_pc \<Rightarrow> modelRuntime \<Rightarrow> readiness_pc \<Rightarrow> bool" where
  "gstep env r p r' p' = (\<exists>inp. readiness_step env inp r p = Some (r', p'))"

definition control :: "modelRuntime \<Rightarrow> modelRuntime \<Rightarrow> bool" where
  "control r r' = ((\<exists>configured. r' = snd (commitFeatureRuntime configured r)) \<or> r' = snd (advanceConfigGeneration r) \<or>
     (\<exists>a. r' = markAuthNotStarted a r))"

definition spawned :: "readiness_pc \<Rightarrow> bool" where
  "spawned p = ((\<exists>req. p = RStart req) \<or> (\<exists>a. p = RSnapConfig a))"

lemma reachable_invariant [consumes 1, case_names start go control spawn]:
  assumes "model_reachable env (r, ts)"
    and "\<And>store configured fs. P (newModelRuntime env store configured fs) []"
    and "\<And>r ts i r' t. P r ts \<Longrightarrow> i < length ts \<Longrightarrow> gstep env r (ts ! i) r' t \<Longrightarrow> P r' (ts[i := t])"
    and "\<And>r ts r'. P r ts \<Longrightarrow> control r r' \<Longrightarrow> P r' ts"
    and "\<And>r ts t. P r ts \<Longrightarrow> spawned t \<Longrightarrow> P r (ts @ [t])"
  shows "P r ts"
proof -
  have "P (fst s) (snd s)" if "model_reachable env s" for s
    using that
  proof (induction rule: model_reachable.induct)
    case (step s s')
    from step.hyps(2) show ?case
    proof (cases rule: model_step.cases)
      case (goroutine i ts inp r r' t)
      then show ?thesis using step.IH assms(3) [of r ts i r' t] by (auto simp: gstep_def)
    next
      case (ensureForAuth r ts req)
      then show ?thesis using step.IH assms(5) [of r ts "RStart req"] by (simp add: spawned_def)
    next
      case (snapshot r ts a)
      then show ?thesis using step.IH assms(5) [of r ts "RSnapConfig a"] by (simp add: spawned_def)
    next
      case (feature_runtime r ts configured)
      then show ?thesis
        using step.IH assms(4) [of r ts "snd (commitFeatureRuntime configured r)"] by (auto simp: control_def)
    next
      case (advance_config r ts)
      then show ?thesis using step.IH assms(4) [of r ts "snd (advanceConfigGeneration r)"] by (auto simp: control_def)
    next
      case (not_started r ts a)
      then show ?thesis using step.IH assms(4) [of r ts "markAuthNotStarted a r"] by (auto simp: control_def)
    qed
  qed (simp add: assms(2))
  from this [OF assms(1)] show ?thesis by simp
qed

section \<open>Fields after the elementary updates\<close>

lemma put_fields [simp]:
  "mr_metadataCall (put_auth a s r) = mr_metadataCall r" "mr_metadataDone (put_auth a s r) = mr_metadataDone r"
  "mr_authDone (put_auth a s r) = mr_authDone r" "mr_next (put_auth a s r) = mr_next r"
  "mr_identitySlots (put_auth a s r) = mr_identitySlots r" "mr_config (put_auth a s r) = mr_config r"
  "mr_metadataResult (put_auth a s r) = mr_metadataResult r" "mr_files (put_auth a s r) = mr_files r"
  "mr_metadataCall (put_identity h d r) = mr_metadataCall r" "mr_metadataDone (put_identity h d r) = mr_metadataDone r"
  "mr_authDone (put_identity h d r) = mr_authDone r" "mr_next (put_identity h d r) = mr_next r"
  "mr_authSlots (put_identity h d r) = mr_authSlots r" "mr_config (put_identity h d r) = mr_config r"
  "mr_metadataResult (put_identity h d r) = mr_metadataResult r" "mr_files (put_identity h d r) = mr_files r"
  by (simp_all add: put_auth_def put_identity_def)

lemma close_fields [simp]:
  "mr_authSlots (close_metadata c m r) = mr_authSlots r" "mr_identitySlots (close_metadata c m r) = mr_identitySlots r"
  "mr_authDone (close_metadata c m r) = mr_authDone r" "mr_next (close_metadata c m r) = mr_next r"
  "mr_config (close_metadata c m r) = mr_config r" "mr_metadataResult (close_metadata c m r) = mr_metadataResult r"
  "mr_metadataDone (close_metadata c m r) = gm_put c m (mr_metadataDone r)"
  "mr_metadataCall (close_metadata c m r) = (if mr_metadataCall r = Some c then None else mr_metadataCall r)"
  by (simp_all add: close_metadata_def)

lemma slot_put [simp]:
  "authSlot (put_auth a s r) b = (if b = a then s else authSlot r b)"
  "identitySlot (put_identity h d r) i = (if i = h then d else identitySlot r i)"
  "authSlot (put_identity h d r) b = authSlot r b"
  "identitySlot (put_auth a s r) i = identitySlot r i"
  by (simp_all add: authSlot_def identitySlot_def put_auth_def put_identity_def)

lemma slot_cong:
  "mr_authSlots r' = mr_authSlots r \<Longrightarrow> authSlot r' a = authSlot r a"
  "mr_identitySlots r' = mr_identitySlots r \<Longrightarrow> identitySlot r' h = identitySlot r h"
  by (simp_all add: authSlot_def identitySlot_def)

lemma take_key_calls [simp]: "as_calls (take_key key s) = as_calls s"
  by (simp add: take_key_def)

lemmas begin_defs = start_step_def auth_invalid_def begin_load_def begin_or_wait_def after_publish_def
lemmas pure_defs = fetch_step_def reload_step_def waitForIdentityCalls_def meta_check_def meta_wait_def
  after_metadata_def snap_check_def
lemmas control_defs = control_def commitFeatureRuntime_def advanceConfigGeneration_def markAuthNotStarted_def

section \<open>The fetch of the metadata\<close>

fun meta_holds :: "readiness_pc \<Rightarrow> nat option" where
  "meta_holds (RMetaFetch l sel c cached rf) = Some c"
| "meta_holds (RMetaCommit l sel c cached rf f) = Some c"
| "meta_holds (RPanic p) = meta_holds p"
| "meta_holds _ = None"

fun meta_waits :: "readiness_pc \<Rightarrow> nat set" where
  "meta_waits (RMetaWait l sel c) = {c}"
| "meta_waits _ = {}"

definition meta_active :: "modelRuntime \<Rightarrow> nat set" where
  "meta_active r = set_option (mr_metadataCall r)"

definition meta_closed :: "modelRuntime \<Rightarrow> nat set" where
  "meta_closed r = {c. gm_get (mr_metadataDone r) c \<noteq> None}"

definition meta_wf :: "modelRuntime \<Rightarrow> bool" where
  "meta_wf r = (\<forall>c \<in> meta_active r \<union> meta_closed r. c < mr_next r)"

definition meta_same :: "modelRuntime \<Rightarrow> modelRuntime \<Rightarrow> bool" where
  "meta_same r r' = (mr_metadataCall r' = mr_metadataCall r \<and> mr_metadataDone r' = mr_metadataDone r \<and> mr_next r \<le> mr_next r')"

lemma meta_sameD:
  assumes "meta_same r r'"
  shows "meta_active r' = meta_active r" and "meta_closed r' = meta_closed r" and "meta_wf r \<Longrightarrow> meta_wf r'"
proof -
  show "meta_active r' = meta_active r" "meta_closed r' = meta_closed r"
    using assms by (simp_all add: meta_same_def meta_active_def meta_closed_def)
  then show "meta_wf r \<Longrightarrow> meta_wf r'"
    using assms unfolding meta_wf_def meta_same_def by (metis order_less_le_trans)
qed

lemma meta_commit_shape:
  assumes "gm_get (mr_metadataDone r) c = None"
  shows "\<exists>m r1 q. meta_commit env inp l sel c cached rf f r = (close_metadata c m r1, after_metadata l sel q) \<and>
    mr_metadataCall r1 = mr_metadataCall r \<and> mr_metadataDone r1 = mr_metadataDone r \<and> mr_next r1 = mr_next r \<and>
    mr_authSlots r1 = mr_authSlots r \<and> mr_identitySlots r1 = mr_identitySlots r \<and> mr_authDone r1 = mr_authDone r \<and>
    mr_config r1 = mr_config r"
proof (cases "authGenerationCurrentLocked r (authSlot r (ld_auth l)) (ld_key l) (ld_gen l)")
  case False
  then have "meta_commit env inp l sel c cached rf f r = (close_metadata c None r, after_metadata l sel zero_metadata)"
    using assms by (simp add: meta_commit_def)
  then show ?thesis by blast
next
  case True
  obtain fresh failure fs where "save_fetched env inp rf f (mr_files r) = (fresh, failure, fs)" by (metis prod_cases3)
  then show ?thesis
    using assms True unfolding meta_commit_def Let_def by (simp only: if_False if_True not_True_eq_False prod.case not_not simp_thms)
      (intro exI conjI, rule refl, simp_all)
qed

text \<open>What a step can do to the registry.\<close>

lemma meta_events:
  assumes "gstep env r p r' p'"
  obtains (same) "meta_same r r'" "meta_holds p' = meta_holds p" "meta_waits p' \<subseteq> meta_active r"
  | (enter) "meta_holds p = None" "meta_holds p' = Some (mr_next r)" "mr_metadataCall r = None"
      "mr_metadataCall r' = Some (mr_next r)" "mr_metadataDone r' = mr_metadataDone r" "mr_next r' = mr_next r + 1" "meta_waits p' = {}"
  | (leave) c m where "meta_holds p = Some c" "meta_holds p' = None" "meta_waits p' = {}" "mr_next r' = mr_next r"
      "mr_metadataCall r' = (if mr_metadataCall r = Some c then None else mr_metadataCall r)"
      "mr_metadataDone r' = gm_put c m (mr_metadataDone r)"
proof -
  from assms obtain inp where step: "readiness_step env inp r p = Some (r', p')" by (auto simp: gstep_def)
  show thesis
  proof (cases p)
    case (RMetaEnter l sel)
    note here = step [unfolded RMetaEnter readiness_step.simps meta_enter_def]
    show thesis
    proof (cases "settled_metadata r")
      case (Some m)
      then show thesis using here RMetaEnter by (intro same) (auto simp: meta_same_def after_metadata_def)
    next
      case none: None
      show thesis
      proof (cases "mr_metadataCall r")
        case None
        then show thesis using here none RMetaEnter by (intro enter) auto
      next
        case (Some c)
        then show thesis using here none RMetaEnter by (intro same) (auto simp: meta_same_def meta_active_def)
      qed
    qed
  next
    case (RMetaCommit l sel c cached rf f)
    show thesis
    proof (cases "gm_get (mr_metadataDone r) c = None")
      case False
      then have "r' = r" "p' = RPanic p" using step RMetaCommit by (simp_all add: meta_commit_def)
      then show thesis using RMetaCommit by (intro same) (simp_all add: meta_same_def)
    next
      case fresh: True
      obtain m r1 q where shape: "meta_commit env inp l sel c cached rf f r = (close_metadata c m r1, after_metadata l sel q)"
        and "mr_metadataCall r1 = mr_metadataCall r" "mr_metadataDone r1 = mr_metadataDone r" "mr_next r1 = mr_next r"
        using meta_commit_shape [OF fresh] by blast
      moreover have "r' = close_metadata c m r1" "p' = after_metadata l sel q"
        using step RMetaCommit shape by simp_all
      ultimately show thesis
        using RMetaCommit by (intro leave [of c m]) (simp_all add: after_metadata_def)
    qed
  next
    case (RStart req)
    then show thesis using step
      by (intro same) (auto simp: begin_defs meta_same_def Let_def split: option.splits if_splits)
  next
    case (RIdentSettle l q e)
    then show thesis using step
      by (intro same) (auto simp: settleIdentityCall_def meta_same_def split: option.splits)
  next
    case (RIdentSave l q cached c)
    then show thesis using step
      by (intro same) (auto simp: saveModelsForGeneration_def meta_same_def Let_def split: option.splits if_splits prod.splits)
  next
    case (RFinish l s)
    then show thesis using step
      by (intro same) (auto simp: finishAuthCall_def meta_same_def Let_def split: if_splits)
  qed (use step in \<open>(intro same; auto simp: pure_defs startIdentityCall_def meta_same_def Let_def split: option.splits list.splits if_splits sum.splits)\<close>)+
qed

lemma control_frame:
  assumes "control r r'"
  shows "mr_metadataCall r' = mr_metadataCall r" "mr_metadataDone r' = mr_metadataDone r" "mr_next r' = mr_next r"
    "mr_authDone r' = mr_authDone r" "mr_identitySlots r' = mr_identitySlots r" "mr_metadataResult r' = mr_metadataResult r"
    "as_calls (authSlot r' a) = as_calls (authSlot r a)"
  using assms by (auto simp: control_defs Let_def storeModelReadinessSnapshot_def authSlot_def put_auth_def take_key_def
    split: if_splits)

interpretation meta_reg: call_registry meta_holds meta_waits meta_active meta_closed meta_wf "gstep env" control spawned
  for env
proof (unfold_locales, goal_cases)
  case (1 r p r' p')
  from 1(1) show ?case
  proof (cases rule: meta_events)
    case same
    then show ?thesis using 1(2) meta_sameD by blast
  next
    case enter
    then show ?thesis using 1(2) by (auto simp: meta_wf_def meta_active_def meta_closed_def less_Suc_eq)
  next
    case (leave c m)
    have "c < mr_next r" using 1(2) 1(3) [OF leave(1)] by (simp add: meta_wf_def)
    then show ?thesis using leave 1(2) by (auto simp: meta_wf_def meta_active_def meta_closed_def split: if_splits)
  qed
next
  case (2 r p r' p')
  then show ?case by (cases rule: meta_events) auto
next
  case (3 r p r' p')
  from 3(1) show ?case
  proof (cases rule: meta_events)
    case same
    then show ?thesis using meta_sameD by blast
  next
    case enter
    then have "mr_next r \<notin> meta_active r \<union> meta_closed r" using 3(2) by (auto simp: meta_wf_def)
    with enter show ?thesis by (auto simp: meta_active_def meta_closed_def)
  next
    case (leave c m)
    then have "mr_metadataCall r = Some c" using 3(4) [OF leave(1)] by (simp add: meta_active_def)
    then show ?thesis using leave by (auto simp: meta_active_def meta_closed_def)
  qed
next
  case (4 r r')
  then show ?case using control_frame by (auto simp: meta_active_def meta_closed_def meta_wf_def)
next
  case (5 p)
  then show ?case by (auto simp: spawned_def)
qed

lemma meta_registered: "model_reachable env (r, ts) \<Longrightarrow> meta_reg.inv r ts"
proof (induction rule: reachable_invariant)
  case (start store configured fs)
  have "meta_active (newModelRuntime env store configured fs) = {}" "meta_closed (newModelRuntime env store configured fs) = {}"
    by (auto simp: newModelRuntime_def meta_active_def meta_closed_def Let_def split: sum.splits option.splits)
  then show ?case by (intro meta_reg.inv_start) (simp_all add: meta_wf_def)
qed (auto intro: meta_reg.inv_go meta_reg.inv_control meta_reg.inv_spawn)

section \<open>The calls of an identity\<close>

fun ident_holds :: "readiness_pc \<Rightarrow> (string \<times> nat) option" where
  "ident_holds (RIdentLoad l q) = Some (ld_identity l, q)"
| "ident_holds (RIdentFetch l q cached) = Some (ld_identity l, q)"
| "ident_holds (RIdentSettle l q failure) = Some (ld_identity l, q)"
| "ident_holds (RIdentSave l q cached cache) = Some (ld_identity l, q)"
| "ident_holds (RPanic p) = ident_holds p"
| "ident_holds _ = None"

fun ident_waits :: "readiness_pc \<Rightarrow> (string \<times> nat) set" where
  "ident_waits (RIdentWait l ws failure) = Pair (ld_identity l) ` set ws"
| "ident_waits _ = {}"

definition ident_active :: "modelRuntime \<Rightarrow> (string \<times> nat) set" where
  "ident_active r = {(h, q). q \<in> set (is_active (identitySlot r h))}"

definition ident_closed :: "modelRuntime \<Rightarrow> (string \<times> nat) set" where
  "ident_closed r = {(h, q). q \<in> set (is_closed (identitySlot r h))}"

definition ident_wf :: "modelRuntime \<Rightarrow> bool" where
  "ident_wf r = (\<forall>h. list_all (\<lambda>q. q \<le> is_nextSequence (identitySlot r h))
     (is_active (identitySlot r h) @ is_closed (identitySlot r h)))"

lemma ident_cong:
  assumes "mr_identitySlots r' = mr_identitySlots r"
  shows "ident_active r' = ident_active r" "ident_closed r' = ident_closed r" "ident_wf r' = ident_wf r"
  using slot_cong(2) [OF assms] by (simp_all add: ident_active_def ident_closed_def ident_wf_def)

lemma settle_shape:
  "settleIdentityCallLocked d q = None \<or>
   settleIdentityCallLocked d q = Some (filter (\<lambda>c. c \<noteq> q) (is_active d),
     d\<lparr>is_active := filter (\<lambda>c. c \<noteq> q) (is_active d), is_closed := q # is_closed d\<rparr>)"
  by (simp add: settleIdentityCallLocked_def)

text \<open>Removing a call from the running and adding it to the closed ones, whatever was committed before.\<close>

definition settled :: "modelIdentitySlot \<Rightarrow> nat \<Rightarrow> modelIdentitySlot \<Rightarrow> bool" where
  "settled d q d' = (is_active d' = filter (\<lambda>c. c \<noteq> q) (is_active d) \<and> is_closed d' = q # is_closed d \<and>
     is_nextSequence d' = is_nextSequence d)"

lemma save_shape:
  assumes "saveModelsForGeneration env inp l q cached c r = x"
  obtains (panic) "snd x = RPanic (RIdentSave l q cached c)" "mr_identitySlots (fst x) = mr_identitySlots r"
      "mr_authSlots (fst x) = mr_authSlots r" "mr_authDone (fst x) = mr_authDone r" "mr_next (fst x) = mr_next r"
  | (settled) d' where "settled (identitySlot r (ld_identity l)) q d'"
      "\<And>i. identitySlot (fst x) i = (if i = ld_identity l then d' else identitySlot r i)"
      "ident_holds (snd x) = None" "ident_waits (snd x) \<subseteq> ident_active r"
      "mr_authSlots (fst x) = mr_authSlots r" "mr_authDone (fst x) = mr_authDone r" "mr_next (fst x) = mr_next r"
proof -
  let ?h = "ld_identity l"
  obtain err fs where sv: "saveModels (en_codec env) (en_windows env) (in_ok inp) (en_dir env) c (mr_files r) = (err, fs)" by fastforce
  define d where "d = identitySlot r ?h"
  define e where "e = (if err = None then d\<lparr>is_committedConfig := gk_Config (ld_key l), is_committedSequence := q\<rparr> else d)"
  note run = assms [unfolded saveModelsForGeneration_def Let_def sv prod.case, folded d_def, folded e_def]
  have e: "is_active e = is_active d" "is_closed e = is_closed d" "is_nextSequence e = is_nextSequence d"
    by (simp_all add: e_def)
  show thesis
  proof (cases "is_active d = [] \<or> q \<in> set (is_closed d)")
    case True
    then have "settleIdentityCallLocked d q = None" "settleIdentityCallLocked e q = None"
      by (auto simp: settleIdentityCallLocked_def e)
    then have "snd x = RPanic (RIdentSave l q cached c) \<and> mr_identitySlots (fst x) = mr_identitySlots r \<and>
      mr_authSlots (fst x) = mr_authSlots r \<and> mr_authDone (fst x) = mr_authDone r \<and> mr_next (fst x) = mr_next r"
      using run by (auto split: if_splits)
    then show thesis using panic by blast
  next
    case False
    let ?ws = "filter (\<lambda>c. c \<noteq> q) (is_active d)"
    let ?s = "\<lambda>d. d\<lparr>is_active := ?ws, is_closed := q # is_closed d\<rparr>"
    have "settleIdentityCallLocked d q = Some (?ws, ?s d)" "settleIdentityCallLocked e q = Some (?ws, ?s e)"
      using False by (auto simp: settleIdentityCallLocked_def e)
    then have "\<exists>d'\<in>{?s d, ?s e}. mr_identitySlots (fst x) = mr_identitySlots (put_identity ?h d' r) \<and>
      ident_holds (snd x) = None \<and> ident_waits (snd x) \<subseteq> Pair ?h ` set ?ws \<and>
      mr_authSlots (fst x) = mr_authSlots r \<and> mr_authDone (fst x) = mr_authDone r \<and> mr_next (fst x) = mr_next r"
      using run by (auto split: if_splits)
    then obtain d' where d': "d' \<in> {?s d, ?s e}" "mr_identitySlots (fst x) = mr_identitySlots (put_identity ?h d' r)"
      and rest: "ident_holds (snd x) = None" "ident_waits (snd x) \<subseteq> Pair ?h ` set ?ws"
      "mr_authSlots (fst x) = mr_authSlots r" "mr_authDone (fst x) = mr_authDone r" "mr_next (fst x) = mr_next r"
      by blast
    have "settled d q d'" using d'(1) e by (auto simp: settled_def)
    moreover have "identitySlot (fst x) i = (if i = ?h then d' else identitySlot r i)" for i
      using slot_cong(2) [OF d'(2), of i] by simp
    moreover have "ident_waits (snd x) \<subseteq> ident_active r" using rest(2) by (auto simp: ident_active_def d_def)
    ultimately show thesis using settled [of d'] rest d_def by blast
  qed
qed

lemma ident_events:
  assumes "gstep env r p r' p'"
  obtains (same) "mr_identitySlots r' = mr_identitySlots r" "ident_holds p' = ident_holds p" "ident_waits p' \<subseteq> ident_waits p"
  | (enter) h d where "ident_holds p = None" "ident_holds p' = Some (h, is_nextSequence d + 1)" "ident_waits p' = {}"
      "d = identitySlot r h"
      "\<And>i. identitySlot r' i = (if i = h then d\<lparr>is_nextSequence := is_nextSequence d + 1,
         is_active := (is_nextSequence d + 1) # is_active d\<rparr> else identitySlot r i)"
  | (leave) h q d' where "ident_holds p = Some (h, q)" "ident_holds p' = None" "ident_waits p' \<subseteq> ident_active r"
      "settled (identitySlot r h) q d'" "\<And>i. identitySlot r' i = (if i = h then d' else identitySlot r i)"
proof -
  from assms obtain inp where step: "readiness_step env inp r p = Some (r', p')" by (auto simp: gstep_def)
  show thesis
  proof (cases p)
    case (RIdentStart l)
    then show thesis
      using step by (intro enter [of "ld_identity l" "identitySlot r (ld_identity l)"]) (auto simp: startIdentityCall_def Let_def)
  next
    case (RIdentSettle l q e)
    note here = step [unfolded RIdentSettle readiness_step.simps settleIdentityCall_def]
    show thesis
    proof (cases "settleIdentityCallLocked (identitySlot r (ld_identity l)) q")
      case None
      then show thesis using here RIdentSettle by (intro same) auto
    next
      case (Some x)
      then show thesis
        using here RIdentSettle settle_shape [of "identitySlot r (ld_identity l)" q]
        by (intro leave [of "ld_identity l" q "snd x"]) (auto simp: settled_def ident_active_def)
    qed
  next
    case (RIdentSave l q cached c)
    let ?h = "ld_identity l"
    obtain x where x: "saveModelsForGeneration env inp l q cached c r = x" by blast
    from x show thesis
    proof (cases rule: save_shape)
      case panic
      then show thesis using step x RIdentSave by (intro same) auto
    next
      case (settled d')
      then show thesis using step x RIdentSave by (intro leave [of ?h q d']) auto
    qed
  next
    case (RStart req)
    then show thesis using step
      by (intro same) (auto simp: begin_defs Let_def split: option.splits if_splits)
  next
    case (RMetaEnter l sel)
    then show thesis using step by (intro same) (auto simp: meta_enter_def after_metadata_def split: option.splits)
  next
    case (RMetaCommit l sel c cached rf f)
    then show thesis
      using step meta_commit_shape [of r c env inp l sel cached rf f]
      by (intro same) (auto simp: meta_commit_def [of env inp l sel c cached rf f r] after_metadata_def split: if_splits)
  next
    case (RFinish l s)
    then show thesis using step
      by (intro same) (auto simp: finishAuthCall_def Let_def split: if_splits)
  qed (use step in \<open>(intro same; auto simp: pure_defs Let_def split: option.splits list.splits if_splits sum.splits)\<close>)+
qed

interpretation ident_reg: call_registry ident_holds ident_waits ident_active ident_closed ident_wf "gstep env" control spawned
  for env
proof (unfold_locales, goal_cases)
  case (1 r p r' p')
  from 1(1) show ?case
  proof (cases rule: ident_events)
    case same
    then show ?thesis using 1(2) ident_cong by blast
  next
    case (enter h d)
    then show ?thesis using 1(2) by (auto simp: ident_wf_def list_all_iff le_SucI)
  next
    case (leave h q d')
    have "q \<le> is_nextSequence (identitySlot r h)" using 1(2) 1(3) [OF leave(1)] by (simp add: ident_wf_def ident_active_def list_all_iff)
    then show ?thesis using 1(2) leave(4,5)
      by (auto simp: ident_wf_def settled_def list_all_iff)
  qed
next
  case (2 r p r' p')
  then show ?case by (cases rule: ident_events) auto
next
  case (3 r p r' p')
  from 3(1) show ?case
  proof (cases rule: ident_events)
    case same
    then show ?thesis using ident_cong by blast
  next
    case (enter h d)
    let ?k = "(h, is_nextSequence d + 1)"
    have "?k \<notin> ident_active r \<union> ident_closed r" using 3(2) enter(4)
      by (force simp: ident_wf_def ident_active_def ident_closed_def list_all_iff)
    moreover have "ident_active r' = insert ?k (ident_active r)" "ident_closed r' = ident_closed r"
      using enter(4,5) by (auto simp: ident_active_def ident_closed_def split: if_splits)
    ultimately show ?thesis using enter(1,2) by blast
  next
    case (leave h q d')
    have "ident_active r' = ident_active r - {(h, q)}" "ident_closed r' = insert (h, q) (ident_closed r)"
      using leave(4,5) by (auto simp: ident_active_def ident_closed_def settled_def split: if_splits)
    then show ?thesis using leave(1,2) 3(3) by auto
  qed
next
  case (4 r r')
  then show ?case using control_frame(5) ident_cong by blast
next
  case (5 p)
  then show ?case by (auto simp: spawned_def)
qed

lemma ident_registered: "model_reachable env (r, ts) \<Longrightarrow> ident_reg.inv r ts"
proof (induction rule: reachable_invariant)
  case (start store configured fs)
  have "mr_identitySlots (newModelRuntime env store configured fs) = []"
    by (auto simp: newModelRuntime_def Let_def split: sum.splits option.splits)
  then show ?case
    by (intro ident_reg.inv_start)
      (simp_all add: ident_wf_def ident_active_def ident_closed_def identitySlot_def new_identity_slot_def)
qed (auto intro: ident_reg.inv_go ident_reg.inv_control ident_reg.inv_spawn)

section \<open>The loads of an account\<close>

fun load_of :: "readiness_pc \<Rightarrow> model_load option" where
  "load_of (RIdentStart l) = Some l"
| "load_of (RIdentLoad l q) = Some l"
| "load_of (RIdentFetch l q cached) = Some l"
| "load_of (RIdentSettle l q failure) = Some l"
| "load_of (RIdentSave l q cached cache) = Some l"
| "load_of (RIdentReload l cached) = Some l"
| "load_of (RIdentWait l ws failure) = Some l"
| "load_of (RMetaCheck l sel) = Some l"
| "load_of (RMetaEnter l sel) = Some l"
| "load_of (RMetaWait l sel c) = Some l"
| "load_of (RMetaFetch l sel c cached rf) = Some l"
| "load_of (RMetaCommit l sel c cached rf f) = Some l"
| "load_of (RFinish l snap) = Some l"
| "load_of (RPanic p) = load_of p"
| "load_of _ = None"

definition auth_holds :: "readiness_pc \<Rightarrow> (string \<times> nat \<times> nat) option" where
  "auth_holds p = map_option (\<lambda>l. (ld_auth l, ld_gen l, ld_call l)) (load_of p)"

fun auth_waits :: "readiness_pc \<Rightarrow> (string \<times> nat \<times> nat) set" where
  "auth_waits (RAuthWait a g c) = {(a, g, c)}"
| "auth_waits _ = {}"

definition auth_active :: "modelRuntime \<Rightarrow> (string \<times> nat \<times> nat) set" where
  "auth_active r = {(a, g, c). gm_get (as_calls (authSlot r a)) g = Some c}"

definition auth_closed :: "modelRuntime \<Rightarrow> (string \<times> nat \<times> nat) set" where
  "auth_closed r = {(a, g, c). c \<in> set (mr_authDone r)}"

definition auth_wf :: "modelRuntime \<Rightarrow> bool" where
  "auth_wf r = ((\<forall>(a, g, c) \<in> auth_active r. c < mr_next r) \<and> (\<forall>c \<in> set (mr_authDone r). c < mr_next r) \<and>
     (\<forall>a g c a' g'. (a, g, c) \<in> auth_active r \<longrightarrow> (a', g', c) \<in> auth_active r \<longrightarrow> a' = a \<and> g' = g))"

definition auth_same :: "modelRuntime \<Rightarrow> modelRuntime \<Rightarrow> bool" where
  "auth_same r r' = ((\<forall>a. as_calls (authSlot r' a) = as_calls (authSlot r a)) \<and> mr_authDone r' = mr_authDone r \<and>
     mr_next r \<le> mr_next r')"

lemma auth_sameD:
  assumes "auth_same r r'"
  shows "auth_active r' = auth_active r" and "auth_closed r' = auth_closed r" and "auth_wf r \<Longrightarrow> auth_wf r'"
proof -
  show active: "auth_active r' = auth_active r" and "auth_closed r' = auth_closed r"
    using assms by (simp_all add: auth_same_def auth_active_def auth_closed_def)
  show "auth_wf r \<Longrightarrow> auth_wf r'"
    using assms unfolding auth_wf_def active auth_same_def by (fastforce intro: order_less_le_trans)
qed

lemma auth_same_slots:
  "mr_authSlots r' = mr_authSlots r \<Longrightarrow> mr_authDone r' = mr_authDone r \<Longrightarrow> mr_next r \<le> mr_next r' \<Longrightarrow> auth_same r r'"
  using slot_cong(1) [of r' r] by (simp add: auth_same_def)

text \<open>The critical section at the start, by its effect on the registry.\<close>

lemma begin_or_wait_shape:
  assumes "begin_or_wait a key realm s r = x" and "as_calls s = as_calls (authSlot r a)"
  obtains (waits) c where "auth_same r (fst x)" "snd x = RAuthWait a (as_nextAuth s) c" "(a, as_nextAuth s, c) \<in> auth_active r"
  | (begins) l where "load_of (snd x) = Some l" "ld_auth l = a" "ld_gen l = as_nextAuth s" "ld_call l = mr_next r"
      "gm_get (as_calls (authSlot r a)) (as_nextAuth s) = None" "mr_authDone (fst x) = mr_authDone r"
      "mr_next (fst x) = mr_next r + 1"
      "\<And>b. as_calls (authSlot (fst x) b) = (if b = a then gm_put (as_nextAuth s) (mr_next r) (as_calls (authSlot r a))
         else as_calls (authSlot r b))"
proof (cases "gm_get (as_calls s) (as_nextAuth s)")
  case (Some c)
  then show thesis
    using assms by (intro waits [of c]) (auto simp: begin_or_wait_def auth_same_def auth_active_def)
next
  case None
  let ?snap = "empty_snapshot modelLoading (mr_config r) (as_nextAuth s) (gk_IdentitySHA256 key)"
  let ?l = "\<lparr>ld_auth = a, ld_key = key, ld_gen = as_nextAuth s, ld_call = mr_next r, ld_realm = realm,
    ld_configured = mr_configured r, ld_snap = ?snap\<rparr>"
  let ?s = "storeModelReadinessSnapshot (s\<lparr>as_calls := gm_put (as_nextAuth s) (mr_next r) (as_calls s)\<rparr>) ?snap"
  have x: "x = ((put_auth a ?s r)\<lparr>mr_next := mr_next r + 1\<rparr>, after_publish r ?l)"
    using assms(1) None by (simp add: begin_or_wait_def Let_def)
  have slot: "authSlot (fst x) b = (if b = a then ?s else authSlot r b)" for b
    using slot_cong(1) [of "fst x" "put_auth a ?s r" b] by (simp add: x)
  show thesis
    using None assms(2)
    by (intro begins [of ?l]) (simp_all add: slot, simp_all add: x after_publish_def storeModelReadinessSnapshot_def)
qed

lemma authSlot_update [simp]:
  "authSlot (r\<lparr>mr_authDone := x\<rparr>) = authSlot r" "authSlot (r\<lparr>mr_next := n\<rparr>) = authSlot r"
  by (simp_all add: authSlot_def fun_eq_iff)

lemma start_shape:
  assumes "start_step env req r = (r', p')"
  obtains (ends) snap where "auth_same r r'" "p' = RDone snap"
  | (loads) key realm s where "begin_or_wait (rq_AuthID req) key realm s r = (r', p')"
      "as_calls s = as_calls (authSlot r (rq_AuthID req))"
proof -
  let ?a = "rq_AuthID req"
  have stored: "auth_same r (put_auth ?a s r)" if "as_calls s = as_calls (authSlot r ?a)" for s
    using that by (simp add: auth_same_def)
  have invalid: thesis if "auth_invalid ?a r = (r', p')"
    using that by (intro ends) (auto simp: auth_invalid_def Let_def storeModelReadinessSnapshot_def intro!: stored)
  have load: thesis if "begin_load ?a key realm r = (r', p')" for key realm
  proof (cases "\<exists>cur. as_current (take_key key (authSlot r ?a)) = Some cur \<and>
      rs_auth cur = as_nextAuth (take_key key (authSlot r ?a)) \<and> rs_State cur \<noteq> modelLoading")
    case True
    then obtain cur where "as_current (take_key key (authSlot r ?a)) = Some cur"
      "rs_auth cur = as_nextAuth (take_key key (authSlot r ?a))" "rs_State cur \<noteq> modelLoading" by blast
    then show thesis using that by (intro ends [of cur]) (auto simp: begin_load_def Let_def intro!: stored)
  next
    case False
    then have "begin_or_wait ?a key realm (take_key key (authSlot r ?a)) r = (r', p')"
      using that by (auto simp: begin_load_def Let_def split: option.splits if_splits)
    then show thesis by (rule loads) simp
  qed
  show thesis using assms invalid load by (auto simp: start_step_def split: option.splits)
qed

lemma auth_events:
  assumes "gstep env r p r' p'"
  obtains (same) "auth_same r r'" "auth_holds p' = auth_holds p" "auth_waits p' \<subseteq> auth_active r"
  | (enter) a g where "auth_holds p = None" "auth_holds p' = Some (a, g, mr_next r)" "auth_waits p' = {}"
      "gm_get (as_calls (authSlot r a)) g = None" "mr_authDone r' = mr_authDone r" "mr_next r' = mr_next r + 1"
      "\<And>b. as_calls (authSlot r' b) = (if b = a then gm_put g (mr_next r) (as_calls (authSlot r a)) else as_calls (authSlot r b))"
  | (leave) a g c where "auth_holds p = Some (a, g, c)" "auth_holds p' = None" "auth_waits p' = {}"
      "mr_authDone r' = c # mr_authDone r" "mr_next r' = mr_next r"
      "\<And>b. as_calls (authSlot r' b) = (if b = a \<and> gm_get (as_calls (authSlot r a)) g = Some c
         then gm_del g (as_calls (authSlot r a)) else as_calls (authSlot r b))"
proof -
  from assms obtain inp where step: "readiness_step env inp r p = Some (r', p')" by (auto simp: gstep_def)
  show thesis
  proof (cases p)
    case (RStart req)
    have x: "start_step env req r = (r', p')" using step RStart by simp
    from x show thesis
    proof (cases rule: start_shape)
      case (ends snap)
      then show thesis using RStart by (intro same) (simp_all add: auth_holds_def)
    next
      case (loads key realm s)
      from loads show thesis
      proof (cases rule: begin_or_wait_shape)
        case (waits c)
        then show thesis using RStart by (intro same) (simp_all add: auth_holds_def)
      next
        case (begins l)
        then show thesis
          using RStart by (intro enter [of "rq_AuthID req" "as_nextAuth s"]) (auto simp: auth_holds_def elim: load_of.elims)
      qed
    qed
  next
    case (RFinish l snap)
    show thesis
    proof (cases "ld_call l \<in> set (mr_authDone r)")
      case True
      then show thesis using step RFinish by (intro same) (auto simp: finishAuthCall_def auth_same_def auth_holds_def)
    next
      case False
      then show thesis using step RFinish
        by (intro leave [of "ld_auth l" "ld_gen l" "ld_call l"])
          (auto simp: finishAuthCall_def Let_def auth_holds_def storeModelReadinessSnapshot_def authSlot_update)
    qed
  next
    case (RIdentSave l q cached c)
    have x: "saveModelsForGeneration env inp l q cached c r = (r', p')" using step RIdentSave by simp
    have "auth_holds p' = auth_holds p" "auth_waits p' = {}"
      using step RIdentSave
      by (auto simp: saveModelsForGeneration_def auth_holds_def Let_def split: option.splits if_splits prod.splits)
    moreover have "auth_same r r'" using x by (cases rule: save_shape) (auto intro!: auth_same_slots)
    ultimately show thesis by (intro same) simp_all
  next
    case (RIdentSettle l q e)
    then show thesis using step
      by (intro same) (auto simp: settleIdentityCall_def auth_holds_def intro!: auth_same_slots split: option.splits)
  next
    case (RMetaEnter l sel)
    then show thesis using step
      by (intro same) (auto simp: meta_enter_def after_metadata_def auth_holds_def intro!: auth_same_slots split: option.splits)
  next
    case (RMetaCommit l sel c cached rf f)
    then show thesis
      using step meta_commit_shape [of r c env inp l sel cached rf f]
      by (intro same) (auto simp: meta_commit_def [of env inp l sel c cached rf f r] after_metadata_def auth_holds_def
          intro!: auth_same_slots split: if_splits)
  qed (use step in \<open>(intro same; auto simp: pure_defs startIdentityCall_def auth_holds_def Let_def
      intro!: auth_same_slots split: option.splits list.splits if_splits sum.splits)\<close>)+
qed

interpretation auth_reg: call_registry auth_holds auth_waits auth_active auth_closed auth_wf "gstep env" control spawned
  for env
proof (unfold_locales, goal_cases)
  case (1 r p r' p')
  from 1(1) show ?case
  proof (cases rule: auth_events)
    case same
    then show ?thesis using 1(2) auth_sameD by blast
  next
    case (enter a g)
    have active: "auth_active r' = insert (a, g, mr_next r) (auth_active r)"
      using enter(4,7) by (auto simp: auth_active_def split: if_splits)
    show ?thesis using 1(2) enter(5,6) unfolding auth_wf_def active by (auto simp: less_Suc_eq)
  next
    case (leave a g c)
    have "(a, g, c) \<in> auth_active r" by (rule 1(3) [OF leave(1)])
    then have "c < mr_next r" using 1(2) unfolding auth_wf_def by blast
    moreover have sub: "auth_active r' \<subseteq> auth_active r"
      using leave(6) by (auto simp: auth_active_def gm_get_del split: if_splits)
    ultimately show ?thesis
      unfolding auth_wf_def leave(4,5)
    proof (intro conjI)
      show "\<forall>(a, g, c)\<in>auth_active r'. c < mr_next r" using 1(2) sub unfolding auth_wf_def by blast
      show "\<forall>a g c a' g'. (a, g, c) \<in> auth_active r' \<longrightarrow> (a', g', c) \<in> auth_active r' \<longrightarrow> a' = a \<and> g' = g"
        using 1(2) sub unfolding auth_wf_def by blast
    qed (use 1(2) in \<open>simp add: auth_wf_def\<close>)
  qed
next
  case (2 r p r' p')
  then show ?case by (cases rule: auth_events) auto
next
  case (3 r p r' p')
  from 3(1) show ?case
  proof (cases rule: auth_events)
    case same
    then show ?thesis using auth_sameD by blast
  next
    case (enter a g)
    have "auth_active r' = insert (a, g, mr_next r) (auth_active r)"
      using enter(4,7) by (auto simp: auth_active_def split: if_splits)
    moreover have "auth_closed r' = auth_closed r" using enter(5) by (simp add: auth_closed_def)
    moreover have "(a, g, mr_next r) \<notin> auth_active r \<union> auth_closed r"
      using 3(2) by (auto simp: auth_wf_def auth_closed_def)
    ultimately show ?thesis using enter(1,2) by blast
  next
    case (leave a g c)
    have mine: "(a, g, c) \<in> auth_active r" by (rule 3(4) [OF leave(1)])
    then have active: "auth_active r' = auth_active r - {(a, g, c)}"
      using leave(6) by (auto simp: auth_active_def gm_get_del split: if_splits)
    moreover have "auth_closed r' = auth_closed r \<union> {(a', g', c') |a' g' c'. c' = c}"
      using leave(4) by (auto simp: auth_closed_def)
    moreover have "(a', g', c) \<notin> auth_active r'" for a' g'
      using 3(2) mine active unfolding auth_wf_def by blast
    ultimately show ?thesis using leave(1,2) 3(3) by auto
  qed
next
  case (4 r r')
  then show ?case using control_frame auth_sameD [of r r'] by (simp add: auth_same_def)
next
  case (5 p)
  then show ?case by (auto simp: spawned_def auth_holds_def)
qed

lemma auth_registered: "model_reachable env (r, ts) \<Longrightarrow> auth_reg.inv r ts"
proof (induction rule: reachable_invariant)
  case (start store configured fs)
  have "mr_authSlots (newModelRuntime env store configured fs) = []" "mr_authDone (newModelRuntime env store configured fs) = []"
    by (auto simp: newModelRuntime_def Let_def split: sum.splits option.splits)
  then show ?case
    by (intro auth_reg.inv_start)
      (simp_all add: auth_wf_def auth_active_def authSlot_def new_auth_slot_def)
qed (auto intro: auth_reg.inv_go auth_reg.inv_control auth_reg.inv_spawn)

end
