(* ===== verification/Model_Readiness_Props.thy ===== *)
theory Model_Readiness_Props
  imports Model_Registry
begin

text \<open>
  The properties of model readiness under every interleaving of goroutines, changes of configuration and
  credentials, and failures of the network and the disk.
\<close>

section \<open>No deadlock, no panic, no work done twice\<close>

definition enabled :: "model_env \<Rightarrow> modelRuntime \<Rightarrow> readiness_pc \<Rightarrow> bool" where
  "enabled env r p = (\<exists>r' p'. gstep env r p r' p')"

fun finished :: "readiness_pc \<Rightarrow> bool" where
  "finished (RDone snap) = True"
| "finished _ = False"

fun panicked :: "readiness_pc \<Rightarrow> bool" where
  "panicked (RPanic p) = True"
| "panicked _ = False"

lemma enabledI: "readiness_step env inp r p \<noteq> None \<Longrightarrow> enabled env r p"
  by (auto simp: enabled_def gstep_def)

lemma not_enabled:
  assumes "\<not> enabled env r p" and "\<not> finished p" and "\<not> panicked p"
  obtains (auth) a g c where "p = RAuthWait a g c" "(a, g, c) \<notin> auth_closed r"
  | (identity) l w ws e where "p = RIdentWait l (w # ws) e" "(ld_identity l, w) \<notin> ident_closed r"
  | (metadata) l sel c where "p = RMetaWait l sel c" "c \<notin> meta_closed r"
proof -
  have stuck: "readiness_step env inp r p = None" for inp using assms(1) enabledI by blast
  show thesis
  proof (cases p)
    case (RAuthWait a g c)
    then show thesis using stuck auth by (auto simp: auth_closed_def split: if_splits)
  next
    case (RIdentWait l ws e)
    then show thesis using stuck identity
      by (auto simp: waitForIdentityCalls_def ident_closed_def Let_def split: list.splits if_splits)
  next
    case (RMetaWait l sel c)
    then show thesis using stuck metadata by (auto simp: meta_wait_def meta_closed_def split: option.splits)
  qed (use stuck assms(2,3) in auto)
qed

lemma identity_holder_enabled: "ident_holds p = Some k \<Longrightarrow> \<not> panicked p \<Longrightarrow> enabled env r p"
  by (cases p) (auto intro: enabledI)

lemma metadata_holder_enabled: "meta_holds p = Some c \<Longrightarrow> \<not> panicked p \<Longrightarrow> enabled env r p"
  by (cases p) (auto intro: enabledI)

text \<open>No reachable goroutine has panicked.\<close>

lemma step_no_panic:
  assumes "gstep env r p r' p'" and "\<not> panicked p"
    and "\<And>k. ident_holds p = Some k \<Longrightarrow> k \<in> ident_active r \<and> k \<notin> ident_closed r"
    and "\<And>c. meta_holds p = Some c \<Longrightarrow> c \<notin> meta_closed r"
    and "\<And>k. auth_holds p = Some k \<Longrightarrow> k \<notin> auth_closed r"
  shows "\<not> panicked p'"
proof -
  from assms(1) obtain inp where step: "readiness_step env inp r p = Some (r', p')" by (auto simp: gstep_def)
  have settle: "settleIdentityCallLocked d q \<noteq> None"
    if "is_active d = is_active (identitySlot r h)" "is_closed d = is_closed (identitySlot r h)" "ident_holds p = Some (h, q)" for d h q
    using assms(3) [OF that(3)] that(1,2) by (auto simp: settleIdentityCallLocked_def ident_active_def ident_closed_def)
  show ?thesis
  proof (cases p)
    case (RIdentSettle l q e)
    then show ?thesis using step settle [of "identitySlot r (ld_identity l)" "ld_identity l" q]
      by (auto simp: settleIdentityCall_def split: option.splits)
  next
    case (RIdentSave l q cached c)
    let ?d = "identitySlot r (ld_identity l)"
    have "settleIdentityCallLocked ?d q \<noteq> None"
      "settleIdentityCallLocked (?d\<lparr>is_committedConfig := gk_Config (ld_key l), is_committedSequence := q\<rparr>) q \<noteq> None"
      using RIdentSave by (intro settle [of _ "ld_identity l"]; simp)+
    then show ?thesis using step RIdentSave
      by (auto simp: saveModelsForGeneration_def Let_def split: option.splits if_splits prod.splits)
  next
    case (RMetaCommit l sel c cached rf f)
    then have fresh: "gm_get (mr_metadataDone r) c = None" using assms(4) by (simp add: meta_closed_def)
    show ?thesis using meta_commit_shape [OF fresh, of env inp l sel cached rf f] step RMetaCommit
      by (auto simp: after_metadata_def)
  next
    case (RFinish l snap)
    then have "ld_call l \<notin> set (mr_authDone r)" using assms(5) by (auto simp: auth_holds_def auth_closed_def)
    then show ?thesis using step RFinish by (auto simp: finishAuthCall_def Let_def)
  next
    case (RStart req)
    then show ?thesis using step by (auto simp: begin_defs Let_def split: option.splits if_splits)
  next
    case (RMetaEnter l sel)
    then show ?thesis using step by (auto simp: meta_enter_def after_metadata_def split: option.splits)
  qed (use step assms(2) in \<open>auto simp: pure_defs startIdentityCall_def Let_def split: option.splits list.splits if_splits sum.splits\<close>)
qed

definition registered :: "modelRuntime \<Rightarrow> readiness_pc list \<Rightarrow> bool" where
  "registered r ts = (auth_reg.inv r ts \<and> ident_reg.inv r ts \<and> meta_reg.inv r ts)"

lemma reachable_registered: "model_reachable env (r, ts) \<Longrightarrow> registered r ts"
  by (simp add: registered_def auth_registered ident_registered meta_registered)

lemma registered_go: "registered r ts \<Longrightarrow> i < length ts \<Longrightarrow> gstep env r (ts ! i) r' t \<Longrightarrow> registered r' (ts[i := t])"
  unfolding registered_def using auth_reg.inv_go ident_reg.inv_go meta_reg.inv_go by blast

lemma reachable_no_panic:
  assumes "model_reachable env (r, ts)"
  shows "list_all (\<lambda>p. \<not> panicked p) ts"
proof -
  from assms have "registered r ts \<and> list_all (\<lambda>p. \<not> panicked p) ts"
  proof (induction rule: reachable_invariant)
    case (start store configured fs)
    show ?case using reachable_registered [OF model_reachable.start] by simp
  next
    case (go r ts i r' t)
    note reg = go(1) [THEN conjunct1, unfolded registered_def]
    have "\<not> panicked t"
      using go(1,2) auth_reg.inv_held ident_reg.inv_held meta_reg.inv_held reg
      by (intro step_no_panic [OF go(3)]) (fastforce simp: list_all_length)+
    then show ?case using go registered_go by (auto simp: list_all_length nth_list_update)
  next
    case (control r ts r')
    then show ?case
      unfolding registered_def using auth_reg.inv_control ident_reg.inv_control meta_reg.inv_control by blast
  next
    case (spawn r ts t)
    then show ?case
      unfolding registered_def using auth_reg.inv_spawn ident_reg.inv_spawn meta_reg.inv_spawn
      by (auto simp: spawned_def)
  qed
  then show ?thesis ..
qed

lemma waits_for_enabled:
  assumes "registered r ts" and "list_all (\<lambda>p. \<not> panicked p) ts" and "i < length ts"
    and "\<not> enabled env r (ts ! i)" and "\<not> finished (ts ! i)"
    and "\<And>a g c. ts ! i \<noteq> RAuthWait a g c"
  shows "\<exists>j<length ts. enabled env r (ts ! j)"
proof -
  have ok: "\<not> panicked (ts ! j)" if "j < length ts" for j using assms(2) that by (simp add: list_all_length)
  note reg = assms(1) [unfolded registered_def]
  from assms(4,5) ok [OF assms(3)] show ?thesis
  proof (cases rule: not_enabled)
    case (identity l w ws e)
    then have "(ld_identity l, w) \<in> ident_active r"
      using ident_reg.inv_waits [of r ts i "(ld_identity l, w)"] reg assms(3) by auto
    then show ?thesis using ident_reg.inv_holder reg identity_holder_enabled ok by meson
  next
    case (metadata l sel c)
    then have "c \<in> meta_active r" using meta_reg.inv_waits [of r ts i c] reg assms(3) by auto
    then show ?thesis using meta_reg.inv_holder reg metadata_holder_enabled ok by meson
  qed (use assms(6) in blast)
qed

section \<open>A run\<close>

text \<open>Two requests for the same account: the first loads, the second waits; then the configuration changes.\<close>

definition rdemo_env :: model_env where
  "rdemo_env = \<lparr>en_codec = \<lparr>cc_encModels = (\<lambda>_. ''c''), cc_decModels = (\<lambda>_. None), cc_encMeta = (\<lambda>_. ''m''), cc_decMeta = (\<lambda>_. None)\<rparr>,
     en_json = \<lparr>cj_v3 = (\<lambda>_. None), cj_legacy = (\<lambda>_. None)\<rparr>, en_dir = ''d'', en_windows = False, en_backend = ''b'',
     en_desktop = ''w'', en_claims = (\<lambda>_. Some ''i''), en_host = (\<lambda>_. Some ''workbuddy.ai''), en_token = (\<lambda>t. t),
     en_hash = (\<lambda>i. id_UID i)\<rparr>"

definition rdemo_request :: model_request where
  "rdemo_request = \<lparr>rq_AuthID = ''a'', rq_Stored = Some \<lparr>sto_AccessToken = ''x.y.z'', sto_RefreshToken = [], sto_ExpiresAt = 0,
     sto_Domain = [], sto_UID = ''u'', sto_EnterpriseID = [], sto_Nickname = [], sto_DeviceToken = []\<rparr>\<rparr>"

definition rdemo_runtime :: modelRuntime where
  "rdemo_runtime = newModelRuntime rdemo_env True [] (\<lambda>_. Absent)"

definition rdemo_loading :: modelRuntime where
  "rdemo_loading = fst (start_step rdemo_env rdemo_request rdemo_runtime)"

definition rdemo_load :: model_load where
  "rdemo_load = \<lparr>ld_auth = ''a'', ld_key = \<lparr>gk_Config = 0, gk_TokenSHA256 = ''x.y.z'', gk_IdentitySHA256 = ''u''\<rparr>, ld_gen = 1,
     ld_call = 0, ld_realm = RealmGlobal, ld_configured = [], ld_snap = empty_snapshot modelLoading 0 1 ''u''\<rparr>"

lemma rdemo_first: "start_step rdemo_env rdemo_request rdemo_runtime = (rdemo_loading, RIdentStart rdemo_load)"
proof -
  have "snd (start_step rdemo_env rdemo_request rdemo_runtime) = RIdentStart rdemo_load" by code_simp
  then show ?thesis by (simp add: rdemo_loading_def prod_eq_iff)
qed

definition rdemo_waiting :: modelRuntime where
  "rdemo_waiting = fst (start_step rdemo_env rdemo_request rdemo_loading)"

lemma rdemo_second: "start_step rdemo_env rdemo_request rdemo_loading = (rdemo_waiting, RAuthWait ''a'' 1 0)"
proof -
  have "snd (start_step rdemo_env rdemo_request rdemo_loading) = RAuthWait ''a'' 1 0" by code_simp
  then show ?thesis by (simp add: rdemo_waiting_def prod_eq_iff)
qed

lemma rdemo_reachable: "model_reachable rdemo_env (rdemo_waiting, [RIdentStart rdemo_load, RAuthWait ''a'' 1 0])"
proof -
  have "model_step rdemo_env (rdemo_runtime, []) (rdemo_runtime, [] @ [RStart rdemo_request])" by (rule ensureForAuth)
  moreover have "model_step rdemo_env (rdemo_runtime, [] @ [RStart rdemo_request])
      (rdemo_loading, ([] @ [RStart rdemo_request])[0 := RIdentStart rdemo_load])"
    by (rule goroutine) (simp_all add: rdemo_first)
  moreover have "model_step rdemo_env (rdemo_loading, [RIdentStart rdemo_load]) (rdemo_loading, [RIdentStart rdemo_load] @ [RStart rdemo_request])"
    by (rule ensureForAuth)
  moreover have "model_step rdemo_env (rdemo_loading, [RIdentStart rdemo_load] @ [RStart rdemo_request])
      (rdemo_waiting, ([RIdentStart rdemo_load] @ [RStart rdemo_request])[1 := RAuthWait ''a'' 1 0])"
    by (rule goroutine) (simp_all add: rdemo_second)
  moreover have "model_reachable rdemo_env (rdemo_runtime, [])" unfolding rdemo_runtime_def by (rule start)
  ultimately show ?thesis by simp (blast intro: model_reachable.step)
qed

definition rdemo_moved :: modelRuntime where
  "rdemo_moved = snd (advanceConfigGeneration rdemo_waiting)"

lemma rdemo_moves: "model_step rdemo_env (rdemo_waiting, ts) (rdemo_moved, ts)"
  unfolding rdemo_moved_def by (rule advance_config)

section \<open>The theorems\<close>

text \<open>
  (C10) Loading the models of accounts never deadlocks and never panics. Whatever goroutines wait for
  each other's loads, catalogue calls and the shared metadata fetch, and however configuration changes
  fall in between: in every reachable state with an unfinished goroutine some goroutine can take a step,
  and no goroutine closes a channel twice or computes a negative capacity.
\<close>

theorem readiness_no_deadlock:
  assumes "model_reachable env (r, ts)"
  shows "list_all (\<lambda>p. \<not> panicked p) ts \<and> (list_ex (\<lambda>p. \<not> finished p) ts \<longrightarrow> list_ex (enabled env r) ts)"
proof (intro conjI impI)
  show ok: "list_all (\<lambda>p. \<not> panicked p) ts" by (rule reachable_no_panic [OF assms])
  assume "list_ex (\<lambda>p. \<not> finished p) ts"
  then obtain i where i: "i < length ts" "\<not> finished (ts ! i)" by (auto simp: list_ex_length)
  have reg: "registered r ts" by (rule reachable_registered [OF assms])
  have "\<exists>j<length ts. enabled env r (ts ! j)"
  proof (cases "\<exists>a g c. ts ! i = RAuthWait a g c \<and> \<not> enabled env r (ts ! i)")
    case True
    then obtain a g c where w: "ts ! i = RAuthWait a g c" "\<not> enabled env r (ts ! i)" by blast
    then have "(a, g, c) \<notin> auth_closed r" using enabledI [of env _ r] by (fastforce simp: auth_closed_def split: if_splits)
    then have "(a, g, c) \<in> auth_active r"
      using auth_reg.inv_waits [of r ts i "(a, g, c)"] reg i(1) w(1) by (simp add: registered_def)
    then obtain j where j: "j < length ts" "auth_holds (ts ! j) = Some (a, g, c)"
      using auth_reg.inv_holder [of r ts] reg unfolding registered_def by blast
    then have "\<not> finished (ts ! j)" "\<And>a g c. ts ! j \<noteq> RAuthWait a g c" by (auto simp: auth_holds_def elim: finished.elims)
    then show ?thesis using waits_for_enabled [OF reg ok j(1)] j(1) by blast
  next
    case False
    then show ?thesis using waits_for_enabled [OF reg ok i(1) _ i(2)] i(1) by blast
  qed
  then show "list_ex (enabled env r) ts" by (auto simp: list_ex_length)
qed

theorem readiness_no_deadlock_witness:
  "list_ex (enabled rdemo_env rdemo_waiting) [RIdentStart rdemo_load, RAuthWait ''a'' 1 0]"
  using readiness_no_deadlock [OF rdemo_reachable] by simp

lemma one_flight:
  assumes "model_reachable env (r, ts)" and "i < length ts" and "j < length ts"
    and "meta_holds (ts ! i) \<noteq> None \<and> meta_holds (ts ! j) \<noteq> None \<or>
      (\<exists>l m. load_of (ts ! i) = Some l \<and> load_of (ts ! j) = Some m \<and> ld_auth l = ld_auth m \<and> ld_gen l = ld_gen m)"
  shows "i = j"
proof -
  note reg = reachable_registered [OF assms(1), unfolded registered_def]
  from assms(4) show ?thesis
  proof (elim disjE exE conjE)
    assume "meta_holds (ts ! i) \<noteq> None" and "meta_holds (ts ! j) \<noteq> None"
    then obtain c d where cd: "meta_holds (ts ! i) = Some c" "meta_holds (ts ! j) = Some d" by blast
    then have "c \<in> meta_active r" "d \<in> meta_active r" using meta_reg.inv_held reg assms(2,3) by blast+
    then have "c = d" by (simp add: meta_active_def)
    then show ?thesis using cd meta_reg.inv_one reg assms(2,3) by blast
  next
    fix l m
    assume lm: "load_of (ts ! i) = Some l" "load_of (ts ! j) = Some m" "ld_auth l = ld_auth m" "ld_gen l = ld_gen m"
    then have held: "auth_holds (ts ! i) = Some (ld_auth l, ld_gen l, ld_call l)"
        "auth_holds (ts ! j) = Some (ld_auth l, ld_gen l, ld_call m)" by (simp_all add: auth_holds_def)
    then have "(ld_auth l, ld_gen l, ld_call l) \<in> auth_active r" "(ld_auth l, ld_gen l, ld_call m) \<in> auth_active r"
      using auth_reg.inv_held reg assms(2,3) by blast+
    then have "ld_call l = ld_call m" by (simp add: auth_active_def)
    then show ?thesis using held auth_reg.inv_one reg assms(2,3) by metis
  qed
qed

text \<open>
  No work is done twice at the same time: in every reachable state at most one goroutine fetches
  the public metadata, and for every account and generation at most one goroutine loads.
\<close>

theorem readiness_single_flight:
  assumes "model_reachable env (r, ts)"
  shows "length (filter (\<lambda>p. meta_holds p \<noteq> None) ts) \<le> 1 \<and>
    length (filter (\<lambda>p. map_option (\<lambda>l. (ld_auth l, ld_gen l)) (load_of p) = Some (a, g)) ts) \<le> 1"
  using one_flight [OF assms] by (intro conjI at_most_one) auto

theorem readiness_single_flight_witness:
  "length (filter (\<lambda>p. map_option (\<lambda>l. (ld_auth l, ld_gen l)) (load_of p) = Some (''a'', 1))
     [RIdentStart rdemo_load, RAuthWait ''a'' 1 0]) \<le> 1"
  using readiness_single_flight [OF rdemo_reachable] by blast

section \<open>Generations only grow\<close>

definition no_earlier :: "modelRuntime \<Rightarrow> modelRuntime \<Rightarrow> bool" where
  "no_earlier r r' = (mr_config r \<le> mr_config r' \<and>
     (\<forall>a. as_nextAuth (authSlot r a) < as_nextAuth (authSlot r' a) \<or>
       as_nextAuth (authSlot r' a) = as_nextAuth (authSlot r a) \<and> as_key (authSlot r' a) = as_key (authSlot r a)))"

lemma later_refl: "no_earlier r r"
  by (simp add: no_earlier_def)

lemma later_trans: "no_earlier r s \<Longrightarrow> no_earlier s t \<Longrightarrow> no_earlier r t"
proof -
  assume rs: "no_earlier r s" and st: "no_earlier s t"
  have "as_nextAuth (authSlot r a) < as_nextAuth (authSlot t a) \<or>
      as_nextAuth (authSlot t a) = as_nextAuth (authSlot r a) \<and> as_key (authSlot t a) = as_key (authSlot r a)" for a
    using rs [unfolded no_earlier_def, THEN conjunct2, rule_format, of a] st [unfolded no_earlier_def, THEN conjunct2, rule_format, of a]
    by auto
  then show "no_earlier r t" using rs st by (auto simp: no_earlier_def)
qed

lemma later_slots: "mr_authSlots r' = mr_authSlots r \<Longrightarrow> mr_config r \<le> mr_config r' \<Longrightarrow> no_earlier r r'"
  using slot_cong(1) [of r' r] by (simp add: no_earlier_def)

lemma later_put:
  "as_nextAuth (authSlot r a) < as_nextAuth s \<or> as_nextAuth s = as_nextAuth (authSlot r a) \<and> as_key s = as_key (authSlot r a) \<Longrightarrow>
   no_earlier r (put_auth a s r)"
  by (simp add: no_earlier_def)

lemma later_take:
  "as_nextAuth s = as_nextAuth (take_key key (authSlot r a)) \<Longrightarrow> as_key s = as_key (take_key key (authSlot r a)) \<Longrightarrow>
   no_earlier r (put_auth a s r)"
  by (intro later_put) (simp add: take_key_def)

lemma control_later:
  assumes "control r r'"
  shows "no_earlier r r'"
proof -
  have "no_earlier r (markAuthNotStarted a r)" for a
    unfolding markAuthNotStarted_def Let_def
    by (rule later_take [of _ "config_key (mr_config r)"]) (simp_all add: storeModelReadinessSnapshot_def)
  then show ?thesis
    using assms by (auto simp: control_def commitFeatureRuntime_def advanceConfigGeneration_def intro: later_slots)
qed

lemma later_more [simp]: "no_earlier r (r'\<lparr>mr_next := n\<rparr>) = no_earlier r r'" "no_earlier r (r'\<lparr>mr_authDone := x\<rparr>) = no_earlier r r'"
  "no_earlier r (r'\<lparr>mr_files := fs\<rparr>) = no_earlier r r'"
  by (simp_all add: no_earlier_def authSlot_def)

lemma begin_or_wait_later:
  assumes "begin_or_wait a key realm (take_key key (authSlot r a)) r = (r', p')"
  shows "no_earlier r r'"
  using assms
  by (auto simp: begin_or_wait_def Let_def storeModelReadinessSnapshot_def intro!: later_take [of _ key] split: option.splits)

lemma go_later:
  assumes "gstep env r p r' p'"
  shows "no_earlier r r'"
proof -
  from assms obtain inp where step: "readiness_step env inp r p = Some (r', p')" by (auto simp: gstep_def)
  show ?thesis
  proof (cases p)
    case (RStart req)
    have "no_earlier r r'" if "begin_load (rq_AuthID req) key realm r = (r', p')" for key realm
      using that begin_or_wait_later
      by (auto simp: begin_load_def Let_def intro!: later_take [of _ key] split: option.splits if_splits)
    moreover have "no_earlier r r'" if "auth_invalid (rq_AuthID req) r = (r', p')"
      using that
      by (auto simp: auth_invalid_def Let_def storeModelReadinessSnapshot_def
          intro!: later_take [of _ "config_key (mr_config r)"])
    ultimately show ?thesis using step RStart by (auto simp: start_step_def split: option.splits)
  next
    case (RFinish l snap)
    then show ?thesis using step
      by (auto simp: finishAuthCall_def Let_def storeModelReadinessSnapshot_def later_refl intro!: later_put split: if_splits)
  next
    case (RIdentSave l q cached c)
    then show ?thesis using step
      by (auto simp: saveModelsForGeneration_def Let_def intro!: later_slots split: option.splits if_splits prod.splits)
  next
    case (RIdentSettle l q e)
    then show ?thesis using step by (auto simp: settleIdentityCall_def intro!: later_slots split: option.splits)
  next
    case (RMetaEnter l sel)
    then show ?thesis using step by (auto simp: meta_enter_def intro!: later_slots split: option.splits)
  next
    case (RMetaCommit l sel c cached rf f)
    then show ?thesis
      using step meta_commit_shape [of r c env inp l sel cached rf f]
      by (auto simp: meta_commit_def [of env inp l sel c cached rf f r] intro!: later_slots split: if_splits)
  qed (use step in \<open>auto simp: startIdentityCall_def later_refl Let_def intro!: later_slots split: if_splits\<close>)
qed

text \<open>
  A goroutine that loads holds a generation the slot has had: if the slot is still at that generation,
  it has its key. Hence a generation that is no longer current never becomes current again.
\<close>

definition generation_ok :: "modelRuntime \<Rightarrow> model_load \<Rightarrow> bool" where
  "generation_ok r l = (ld_gen l \<le> as_nextAuth (authSlot r (ld_auth l)) \<and>
     (ld_gen l = as_nextAuth (authSlot r (ld_auth l)) \<longrightarrow> as_key (authSlot r (ld_auth l)) = ld_key l) \<and>
     gk_Config (ld_key l) \<le> mr_config r)"

definition current :: "modelRuntime \<Rightarrow> model_load \<Rightarrow> bool" where
  "current r l = authGenerationCurrentLocked r (authSlot r (ld_auth l)) (ld_key l) (ld_gen l)"

lemma generation_later: "generation_ok r l \<Longrightarrow> no_earlier r r' \<Longrightarrow> generation_ok r' l"
  unfolding generation_ok_def no_earlier_def by (metis (no_types, lifting) le_less_trans less_or_eq_imp_le order_trans less_irrefl)

lemma retired_later:
  assumes "generation_ok r l" and "no_earlier r r'" and "\<not> current r l"
  shows "\<not> current r' l"
proof
  let ?s = "authSlot r (ld_auth l)" and ?s' = "authSlot r' (ld_auth l)"
  assume "current r' l"
  then have now: "as_key ?s' = ld_key l" "as_nextAuth ?s' = ld_gen l" "mr_config r' = gk_Config (ld_key l)"
    by (simp_all add: current_def authGenerationCurrentLocked_def)
  moreover have "as_nextAuth ?s < as_nextAuth ?s' \<or> as_nextAuth ?s' = as_nextAuth ?s" "mr_config r \<le> mr_config r'"
    using assms(2) unfolding no_earlier_def by blast+
  ultimately have "as_nextAuth ?s = ld_gen l" "mr_config r = gk_Config (ld_key l)"
    using assms(1) by (auto simp: generation_ok_def)
  then show False using assms(1,3) by (simp add: current_def authGenerationCurrentLocked_def generation_ok_def)
qed

lemma begin_or_wait_generation:
  assumes "begin_or_wait a key realm (take_key key (authSlot r a)) r = (r', p')" and "gk_Config key = mr_config r"
    and "load_of p' = Some l"
  shows "generation_ok r' l"
proof -
  let ?s = "take_key key (authSlot r a)"
  have "gm_get (as_calls ?s) (as_nextAuth ?s) = None" using assms(1,3) by (auto simp: begin_or_wait_def split: option.splits)
  then have "r' = (put_auth a (storeModelReadinessSnapshot (?s\<lparr>as_calls := gm_put (as_nextAuth ?s) (mr_next r) (as_calls ?s)\<rparr>)
      (empty_snapshot modelLoading (mr_config r) (as_nextAuth ?s) (gk_IdentitySHA256 key))) r)\<lparr>mr_next := mr_next r + 1\<rparr>"
    and "ld_auth l = a" "ld_gen l = as_nextAuth ?s" "ld_key l = key"
    using assms(1,3) by (auto simp: begin_or_wait_def Let_def after_publish_def split: if_splits)
  moreover have "as_key ?s = key" by (simp add: take_key_def)
  ultimately show ?thesis using assms(2) by (simp add: generation_ok_def storeModelReadinessSnapshot_def)
qed

lemma go_load:
  assumes "gstep env r p r' p'" and "load_of p' = Some l"
  shows "load_of p = Some l \<or> generation_ok r' l"
proof (cases "\<exists>req. p = RStart req")
  case True
  then obtain req where start: "start_step env req r = (r', p')" using assms(1) by (auto simp: gstep_def)
  have "generation_ok r' l" if "begin_load (rq_AuthID req) key realm r = (r', p')" "gk_Config key = mr_config r" for key realm
    using that begin_or_wait_generation [OF _ that(2) assms(2)] assms(2)
    by (auto simp: begin_load_def Let_def split: option.splits if_splits)
  then show ?thesis using start assms(2)
    by (auto simp: start_step_def auth_invalid_def Let_def split: option.splits)
next
  case False
  from assms(1) obtain inp where step: "readiness_step env inp r p = Some (r', p')" by (auto simp: gstep_def)
  have "load_of p' = load_of p \<or> load_of p' = None"
  proof (cases p)
    case (RStart req)
    then show ?thesis using False by blast
  next
    case (RIdentSave l q cached c)
    then show ?thesis using step
      by (auto simp: saveModelsForGeneration_def Let_def split: option.splits if_splits prod.splits)
  next
    case (RIdentSettle l q e)
    then show ?thesis using step by (auto simp: settleIdentityCall_def split: option.splits)
  next
    case (RMetaEnter l sel)
    then show ?thesis using step by (auto simp: meta_enter_def after_metadata_def split: option.splits)
  next
    case (RMetaCommit l sel c cached rf f)
    then show ?thesis
      using step meta_commit_shape [of r c env inp l sel cached rf f]
      by (auto simp: meta_commit_def [of env inp l sel c cached rf f r] after_metadata_def split: if_splits)
  next
    case (RFinish l snap)
    then show ?thesis using step by (auto simp: finishAuthCall_def Let_def split: if_splits)
  qed (use step in \<open>auto simp: pure_defs startIdentityCall_def Let_def split: option.splits list.splits if_splits sum.splits\<close>)
  then show ?thesis using assms(2) by auto
qed

lemma reachable_generations:
  assumes "model_reachable env (r, ts)"
  shows "\<forall>i<length ts. \<forall>l. load_of (ts ! i) = Some l \<longrightarrow> generation_ok r l"
  using assms
proof (induction rule: reachable_invariant)
  case (go r ts i r' t)
  have "generation_ok r' l" if "j < length ts" "load_of (ts[i := t] ! j) = Some l" for j l
    using go(1,2) that go_load [OF go(3)] generation_later go_later [OF go(3)] by (cases "j = i") auto
  then show ?case by simp
next
  case (control r ts r')
  then show ?case using generation_later control_later by blast
next
  case (spawn r ts t)
  then show ?case by (auto simp: nth_append less_Suc_eq spawned_def)
qed simp

text \<open>
  (C11) A result of an old generation is never published. Once the credentials of an account or the
  configuration have moved on from the generation that a goroutine loads for, the generation stays
  retired through every further history, and whatever snapshot the goroutine finally offers, finishing
  leaves the published snapshot of every account as it is.
\<close>

theorem old_generation_never_published:
  assumes "model_reachable env (r, ts)" and "i < length ts" and "load_of (ts ! i) = Some l" and "\<not> current r l"
    and "(model_step env)\<^sup>*\<^sup>* (r, ts) (r', ts')"
  shows "\<not> current r' l \<and> as_current (authSlot (fst (finishAuthCall l snap r')) a) = as_current (authSlot r' a)"
proof -
  have "no_earlier (fst s) (fst s')" if "model_step env s s'" for s s'
    using that
  proof (cases rule: model_step.cases)
    case (goroutine i ts inp r r' t)
    then show ?thesis using go_later [of env r "ts ! i" r' t] by (auto simp: gstep_def)
  qed (auto simp: later_refl control_def intro!: control_later)
  with assms(5) have "no_earlier (fst (r, ts)) (fst (r', ts'))"
    by (induction rule: rtranclp_induct) (auto intro: later_refl later_trans)
  then have "no_earlier r r'" by simp
  moreover have "generation_ok r l" using reachable_generations [OF assms(1)] assms(2,3) by blast
  ultimately have retired: "\<not> current r' l" using retired_later assms(4) by blast
  then have "as_current (authSlot (fst (finishAuthCall l snap r')) a) = as_current (authSlot r' a)"
    by (auto simp: finishAuthCall_def current_def Let_def)
  with retired show ?thesis by blast
qed

text \<open>The configuration changes while the first request loads.\<close>

theorem old_generation_never_published_witness:
  "as_current (authSlot (fst (finishAuthCall rdemo_load (ld_snap rdemo_load) rdemo_moved)) ''a'') = as_current (authSlot rdemo_moved ''a'')"
proof -
  let ?ts = "[RIdentStart rdemo_load, RAuthWait ''a'' 1 0]"
  have reach: "model_reachable rdemo_env (rdemo_moved, ?ts)"
    using rdemo_reachable rdemo_moves by (rule model_reachable.step)
  have "\<not> current rdemo_moved rdemo_load" by code_simp
  then show ?thesis using old_generation_never_published [OF reach, of 0 rdemo_load rdemo_moved ?ts] by simp
qed

section \<open>What a snapshot says is so\<close>

definition snapshot_ok :: "modelReadinessSnapshot \<Rightarrow> bool" where
  "snapshot_ok s = (case rs_State s of
      modelReady \<Rightarrow> rs_ErrorCode s = modelErrorNone \<and> rs_ModelSource s \<in> {modelSourceFresh, modelSourceConfig} \<and>
        rs_MetadataSource s = modelSourceFresh
    | modelStale \<Rightarrow> rs_ErrorCode s \<noteq> modelErrorNone \<and> (rs_ModelSource s = modelSourceCache \<or> rs_MetadataSource s = modelSourceCache)
    | modelFailed \<Rightarrow> rs_ErrorCode s \<noteq> modelErrorNone \<and> rs_Models s = []
    | _ \<Rightarrow> rs_ErrorCode s = modelErrorNone \<and> rs_Models s = [])"

definition selection_ok :: "bool \<Rightarrow> modelSnapshotSource \<Rightarrow> modelErrorCode \<Rightarrow> bool" where
  "selection_ok ok source e = (ok \<and> source = modelSourceFresh \<and> e = modelErrorNone \<or>
     ok \<and> source = modelSourceCache \<and> e \<noteq> modelErrorNone \<or> \<not> ok \<and> e \<noteq> modelErrorNone)"

definition catalog_ok :: "modelCatalogSelection \<Rightarrow> bool" where
  "catalog_ok s = selection_ok (se_cache s \<noteq> None) (se_source s) (se_errorCode s)"

definition metadata_ok :: "metadataSelection \<Rightarrow> bool" where
  "metadata_ok m = selection_ok (me_cache m \<noteq> None) (me_source m) (me_errorCode m)"

lemma select_ok:
  "failure \<noteq> modelErrorNone \<or> fresh \<noteq> None \<Longrightarrow> catalog_ok (selectModelCatalog fresh cached failure)"
  "failure \<noteq> modelErrorNone \<or> fresh' \<noteq> None \<Longrightarrow> metadata_ok (selectMetadata fresh' cached' failure)"
  by (auto simp: selectModelCatalog_def selectMetadata_def catalog_ok_def metadata_ok_def selection_ok_def split: option.splits)

definition load_ok :: "model_load \<Rightarrow> bool" where
  "load_ok l = (rs_State (ld_snap l) = modelLoading \<and> rs_ErrorCode (ld_snap l) = modelErrorNone \<and> rs_Models (ld_snap l) = [])"

lemma snapshots_ok:
  assumes "load_ok l" and "metadata_ok m"
  shows "snapshot_ok (configured_snapshot l m)" and "catalog_ok s \<Longrightarrow> snapshot_ok (catalog_snapshot l s m)"
  using assms
  by (auto simp: snapshot_ok_def configured_snapshot_def catalog_snapshot_def with_metadata_def with_models_def load_ok_def
      metadata_ok_def catalog_ok_def selection_ok_def Let_def split: option.splits)

text \<open>What the goroutine knows at each place; \<open>r\<close> only matters for an offer of a retired generation.\<close>

fun readiness_ok :: "modelRuntime \<Rightarrow> readiness_pc \<Rightarrow> bool" where
  "readiness_ok r (RSnapCheck a g cur) = (\<forall>s. cur = Some s \<longrightarrow> snapshot_ok s)"
| "readiness_ok r (RIdentSettle l q e) = (load_ok l \<and> e \<noteq> modelErrorNone)"
| "readiness_ok r (RIdentWait l ws e) = (load_ok l \<and> e \<noteq> modelErrorNone)"
| "readiness_ok r (RMetaCheck l sel) = (load_ok l \<and> (\<forall>s. sel = Some s \<longrightarrow> catalog_ok s))"
| "readiness_ok r (RMetaEnter l sel) = (load_ok l \<and> (\<forall>s. sel = Some s \<longrightarrow> catalog_ok s))"
| "readiness_ok r (RMetaWait l sel c) = (load_ok l \<and> (\<forall>s. sel = Some s \<longrightarrow> catalog_ok s))"
| "readiness_ok r (RMetaFetch l sel c cached rf) = (load_ok l \<and> (\<forall>s. sel = Some s \<longrightarrow> catalog_ok s))"
| "readiness_ok r (RMetaCommit l sel c cached rf f) =
     (load_ok l \<and> (\<forall>s. sel = Some s \<longrightarrow> catalog_ok s) \<and> f \<noteq> MetaFailed modelErrorNone)"
| "readiness_ok r (RFinish l s) = (load_ok l \<and> (snapshot_ok s \<or> \<not> current r l))"
| "readiness_ok r (RDone s) = snapshot_ok s"
| "readiness_ok r (RPanic p) = True"
| "readiness_ok r p = (\<forall>l. load_of p = Some l \<longrightarrow> load_ok l)"

definition runtime_ok :: "modelRuntime \<Rightarrow> bool" where
  "runtime_ok r = ((\<forall>a s. as_current (authSlot r a) = Some s \<longrightarrow> snapshot_ok s) \<and>
     (\<forall>m. settled_metadata r = Some m \<longrightarrow> metadata_ok m) \<and>
     (\<forall>c m. gm_get (mr_metadataDone r) c = Some (Some m) \<longrightarrow> metadata_ok m))"

lemma after_metadata_ok:
  "load_ok l \<Longrightarrow> (\<And>s. sel = Some s \<Longrightarrow> catalog_ok s) \<Longrightarrow> metadata_ok m \<Longrightarrow> readiness_ok r (after_metadata l sel m)"
  "load_ok l \<Longrightarrow> \<not> current r l \<Longrightarrow> readiness_ok r (after_metadata l sel m)"
  by (auto simp: after_metadata_def snapshots_ok split: option.splits)

lemma error_codes: "workBuddyModelErrorCode e \<noteq> modelErrorNone" "modelsDevModelErrorCode e \<noteq> modelErrorNone"
  by (cases e; simp add: workBuddyModelErrorCode_def modelsDevModelErrorCode_def modelSourceErrorCode_def)+

lemma current_cong: "mr_authSlots r' = mr_authSlots r \<Longrightarrow> mr_config r' = mr_config r \<Longrightarrow> current r' l = current r l"
  using slot_cong(1) [of r' r] by (simp add: current_def authGenerationCurrentLocked_def)

lemma runtime_cong:
  "mr_authSlots r' = mr_authSlots r \<Longrightarrow> mr_metadataResult r' = mr_metadataResult r \<Longrightarrow> mr_metadataDone r' = mr_metadataDone r \<Longrightarrow>
   runtime_ok r' = runtime_ok r"
  using slot_cong(1) [of r' r] by (simp add: runtime_ok_def settled_metadata_def)

lemma empty_ok: "snapshot_ok (empty_snapshot modelLoading c g i)" "snapshot_ok (empty_snapshot modelNotStarted c g i)"
  "e \<noteq> modelErrorNone \<Longrightarrow> snapshot_ok ((empty_snapshot modelFailed c g i)\<lparr>rs_ErrorCode := e\<rparr>)"
  by (simp_all add: snapshot_ok_def empty_snapshot_def)

lemma runtime_put:
  "runtime_ok r \<Longrightarrow> (\<And>t. as_current s = Some t \<Longrightarrow> snapshot_ok t) \<Longrightarrow> runtime_ok (put_auth a s r)"
  by (auto simp: runtime_ok_def settled_metadata_def split: if_splits)

lemma runtime_more [simp]: "runtime_ok (r\<lparr>mr_next := n\<rparr>) = runtime_ok r" "runtime_ok (r\<lparr>mr_authDone := x\<rparr>) = runtime_ok r"
  by (simp_all add: runtime_ok_def settled_metadata_def)

lemma runtime_current: "runtime_ok r \<Longrightarrow> as_current (authSlot r a) = Some t \<Longrightarrow> snapshot_ok t"
  by (simp add: runtime_ok_def)

lemma current_or_not_started_ok:
  "(\<And>t. cur = Some t \<Longrightarrow> snapshot_ok t) \<Longrightarrow> snapshot_ok (current_or_not_started r cur)"
  by (auto simp: current_or_not_started_def notStartedModelReadinessSnapshot_def empty_ok split: option.splits)

lemma begin_or_wait_ok:
  assumes "runtime_ok r" and "begin_or_wait a key realm s r = (r', p')" and "as_current s = as_current (authSlot r a)"
  shows "runtime_ok r' \<and> readiness_ok r' p'"
proof (cases "gm_get (as_calls s) (as_nextAuth s)")
  case (Some c)
  then have "r' = put_auth a s r" "p' = RAuthWait a (as_nextAuth s) c" using assms(2) by (simp_all add: begin_or_wait_def)
  then show ?thesis using assms(1,3) runtime_current by (auto intro!: runtime_put)
next
  case None
  then show ?thesis using assms(1,2)
    by (auto simp: begin_or_wait_def Let_def after_publish_def load_ok_def storeModelReadinessSnapshot_def empty_snapshot_def
        snapshot_ok_def intro!: runtime_put)
qed

lemma take_key_current [simp]: "as_current (take_key key s) = as_current s"
  by (simp add: take_key_def)

lemma start_ok:
  assumes "runtime_ok r" and "start_step env req r = (r', p')"
  shows "runtime_ok r' \<and> readiness_ok r' p'"
proof -
  have "runtime_ok r' \<and> readiness_ok r' p'" if "begin_load (rq_AuthID req) key realm r = (r', p')" for key realm
  proof (cases "begin_or_wait (rq_AuthID req) key realm (take_key key (authSlot r (rq_AuthID req))) r = (r', p')")
    case True
    then show ?thesis by (rule begin_or_wait_ok [OF assms(1)]) simp
  next
    case False
    then show ?thesis using that assms(1) runtime_current
      by (auto simp: begin_load_def Let_def intro!: runtime_put split: option.splits if_splits)
  qed
  moreover have "runtime_ok r' \<and> readiness_ok r' p'" if "auth_invalid (rq_AuthID req) r = (r', p')"
    using that assms(1)
    by (auto simp: auth_invalid_def Let_def storeModelReadinessSnapshot_def empty_ok intro!: runtime_put)
  ultimately show ?thesis using assms(2) by (auto simp: start_step_def split: option.splits)
qed

lemma load_snapshot_ok: "load_ok l \<Longrightarrow> snapshot_ok (ld_snap l)"
  by (simp add: load_ok_def snapshot_ok_def)

lemma save_keeps_ok:
  assumes "load_ok l" and "saveModelsForGeneration env inp l q cached c r = (r', p')"
  shows "readiness_ok r' p' \<and> mr_authSlots r' = mr_authSlots r \<and> mr_metadataResult r' = mr_metadataResult r \<and>
    mr_metadataDone r' = mr_metadataDone r"
  using assms select_ok(1) [of _ "Some c"] load_snapshot_ok [OF assms(1)]
  by (auto simp: saveModelsForGeneration_def Let_def load_ok_def split: option.splits if_splits prod.splits sum.splits)

lemma save_fetched_ok:
  assumes "f \<noteq> MetaFailed modelErrorNone" and "save_fetched env inp rf f fs = (fresh, failure, fs')"
  shows "metadata_ok (selectMetadata fresh cached failure)"
  using assms by (intro select_ok(2)) (auto simp: save_fetched_def split: metadata_fetch.splits prod.splits option.splits if_splits)

lemma meta_commit_ok:
  assumes "runtime_ok r" and "readiness_ok r (RMetaCommit l sel c cached rf f)"
    and "meta_commit env inp l sel c cached rf f r = (r', p')"
  shows "runtime_ok r' \<and> readiness_ok r' p'"
proof (cases "gm_get (mr_metadataDone r) c = None \<and> current r l")
  case False
  show ?thesis
  proof (cases "gm_get (mr_metadataDone r) c = None")
    case True
    with False assms(3) have r': "r' = close_metadata c None r" "p' = after_metadata l sel zero_metadata"
      by (auto simp: meta_commit_def current_def)
    have "\<not> current r' l" using False True r' current_cong [of r' r] by simp
    moreover have "runtime_ok r'"
      using assms(1) slot_cong(1) [of r' r] by (auto simp: r' runtime_ok_def settled_metadata_def split: if_splits)
    ultimately show ?thesis using assms(2) r' after_metadata_ok(2) by simp
  qed (use assms(1,3) in \<open>auto simp: meta_commit_def\<close>)
next
  case True
  obtain fresh failure fs where sf: "save_fetched env inp rf f (mr_files r) = (fresh, failure, fs)" by (metis prod_cases3)
  let ?m = "selectMetadata fresh cached failure"
  have ok: "metadata_ok ?m" using assms(2) save_fetched_ok [OF _ sf] by simp
  have "p' = after_metadata l sel ?m" "mr_authSlots r' = mr_authSlots r"
    "mr_metadataDone r' = gm_put c (Some ?m) (mr_metadataDone r)"
    "mr_metadataResult r' = (if me_cache ?m \<noteq> None then Some ?m else mr_metadataResult r') \<and>
     (me_cache ?m = None \<longrightarrow> (\<forall>m. mr_metadataResult r' = Some m \<longrightarrow> me_cache m = None))"
    using assms(3) True sf by (auto simp: meta_commit_def current_def Let_def split: if_splits)
  then show ?thesis
    using assms(1,2) ok slot_cong(1) [of r' r] after_metadata_ok(1) [of l sel ?m]
    by (auto simp: runtime_ok_def settled_metadata_def split: if_splits option.splits)
qed

lemma finish_ok:
  assumes "runtime_ok r" and "readiness_ok r (RFinish l snap)" and "finishAuthCall l snap r = (r', p')"
  shows "runtime_ok r' \<and> readiness_ok r' p'"
proof (cases "ld_call l \<in> set (mr_authDone r)")
  case True
  then show ?thesis using assms(1,3) by (auto simp: finishAuthCall_def)
next
  case False
  show ?thesis
  proof (cases "current r l")
    case True
    then show ?thesis using assms False
      by (auto simp: finishAuthCall_def Let_def current_def storeModelReadinessSnapshot_def intro!: runtime_put split: if_splits)
  next
    case retired: False
    then show ?thesis using assms(1,3) False runtime_current [OF assms(1)]
      by (auto simp: finishAuthCall_def Let_def current_def intro!: runtime_put current_or_not_started_ok split: if_splits)
  qed
qed

lemma go_ok:
  assumes "runtime_ok r" and "readiness_ok r p" and "gstep env r p r' p'"
  shows "runtime_ok r' \<and> readiness_ok r' p'"
proof -
  from assms(3) obtain inp where step: "readiness_step env inp r p = Some (r', p')" by (auto simp: gstep_def)
  show ?thesis
  proof (cases p)
    case (RStart req)
    then show ?thesis using step start_ok [OF assms(1)] by simp
  next
    case (RSnapLoad a g)
    then show ?thesis using step assms(1) runtime_current by auto
  next
    case (RSnapCheck a g cur)
    then show ?thesis using step assms(1,2) by (auto simp: snap_check_def intro!: current_or_not_started_ok)
  next
    case (RIdentStart l)
    then show ?thesis using step assms(1,2) runtime_cong [of r' r] by (auto simp: startIdentityCall_def Let_def)
  next
    case (RIdentFetch l q cached)
    then show ?thesis using step assms(1,2) by (auto simp: fetch_step_def error_codes split: sum.splits)
  next
    case (RIdentSettle l q e)
    then show ?thesis using step assms(1,2) runtime_cong [of r' r] by (auto simp: settleIdentityCall_def split: option.splits)
  next
    case (RIdentSave l q cached c)
    then show ?thesis using step assms(1,2) save_keeps_ok [of l env inp q cached c r r' p'] runtime_cong [of r' r] by simp
  next
    case (RIdentReload l cached)
    then show ?thesis using step assms(1,2) by (auto simp: reload_step_def intro!: select_ok split: sum.splits option.splits)
  next
    case (RIdentWait l ws e)
    then show ?thesis using step assms(1,2)
      by (auto simp: waitForIdentityCalls_def Let_def intro!: select_ok split: list.splits if_splits sum.splits)
  next
    case (RMetaCheck l sel)
    then show ?thesis using step assms(1,2) after_metadata_ok(2) [of l r sel zero_metadata]
      by (auto simp: meta_check_def current_def split: if_splits)
  next
    case (RMetaEnter l sel)
    have "metadata_ok m" if "settled_metadata r = Some m" for m using assms(1) that by (simp add: runtime_ok_def)
    then show ?thesis using RMetaEnter step assms(1,2) after_metadata_ok(1) [of l sel] runtime_cong [of r' r]
      by (auto simp: meta_enter_def split: option.splits)
  next
    case (RMetaWait l sel c)
    then show ?thesis using step assms(1,2) after_metadata_ok(1) [of l sel]
      by (auto simp: meta_wait_def runtime_ok_def split: option.splits)
  next
    case (RMetaFetch l sel c cached rf)
    then show ?thesis using step assms(1,2)
      by (auto simp: meta_fetch_def error_codes split: sum.splits modelsDevFetchResult.splits option.splits)
  next
    case (RMetaCommit l sel c cached rf f)
    then show ?thesis using step assms(1,2) meta_commit_ok by simp
  next
    case (RFinish l snap)
    then show ?thesis using step assms(1,2) finish_ok by simp
  qed (use step assms(1,2) in \<open>auto split: if_splits\<close>)
qed

lemma readiness_ok_later:
  assumes "readiness_ok r p" and "no_earlier r r'" and "\<And>l. load_of p = Some l \<Longrightarrow> generation_ok r l"
  shows "readiness_ok r' p"
  using assms retired_later by (cases p) auto

lemma control_ok: "control r r' \<Longrightarrow> runtime_ok r \<Longrightarrow> runtime_ok r'"
proof -
  assume ok: "runtime_ok r"
  have "runtime_ok (markAuthNotStarted a r)" for a
    using ok by (auto simp: markAuthNotStarted_def Let_def storeModelReadinessSnapshot_def empty_ok intro!: runtime_put)
  moreover have "runtime_ok (snd (commitFeatureRuntime configured r))" "runtime_ok (snd (advanceConfigGeneration r))" for configured
    using ok runtime_cong [of "snd (commitFeatureRuntime configured r)" r] runtime_cong [of "snd (advanceConfigGeneration r)" r]
    by (simp_all add: commitFeatureRuntime_def advanceConfigGeneration_def)
  ultimately show "control r r' \<Longrightarrow> runtime_ok r'" by (auto simp: control_def)
qed

lemma reachable_ok:
  assumes "model_reachable env (r, ts)"
  shows "runtime_ok r \<and> (\<forall>i<length ts. readiness_ok r (ts ! i)) \<and>
    (\<forall>i<length ts. \<forall>l. load_of (ts ! i) = Some l \<longrightarrow> generation_ok r l)"
  using assms
proof (induction rule: reachable_invariant)
  case (start store configured fs)
  have "mr_authSlots (newModelRuntime env store configured fs) = []" "mr_metadataDone (newModelRuntime env store configured fs) = []"
    "settled_metadata (newModelRuntime env store configured fs) = None"
    by (auto simp: newModelRuntime_def settled_metadata_def Let_def split: sum.splits option.splits)
  then show ?case by (simp add: runtime_ok_def authSlot_def new_auth_slot_def)
next
  case (go r ts i r' t)
  have "generation_ok r' l" if "j < length ts" "load_of (ts[i := t] ! j) = Some l" for j l
    using go(1,2) that go_load [OF go(3)] generation_later go_later [OF go(3)] by (cases "j = i") auto
  moreover have "readiness_ok r' (ts[i := t] ! j)" if "j < length ts" for j
    using go(1,2) that go_ok [OF _ _ go(3)] readiness_ok_later [OF _ go_later [OF go(3)]] by (cases "j = i") auto
  ultimately show ?case using go(1,2) go_ok [OF _ _ go(3)] by simp
next
  case (control r ts r')
  note later = control_later [OF control(2)]
  show ?case
  proof (intro conjI allI impI)
    show "runtime_ok r'" using control control_ok by blast
    fix i l assume i: "i < length ts"
    show "load_of (ts ! i) = Some l \<Longrightarrow> generation_ok r' l" using control(1) i generation_later [OF _ later] by blast
    show "readiness_ok r' (ts ! i)" using control(1) i by (intro readiness_ok_later [OF _ later]) blast+
  qed
next
  case (spawn r ts t)
  then show ?case by (auto simp: nth_append less_Suc_eq spawned_def)
qed

text \<open>
  (C12) What a snapshot says of itself is so, in every reachable state, for every published snapshot and
  everything that \<open>ensureForAuth\<close> or a query returns: ready means that catalogue and metadata are fresh
  (or the catalogue configured) and there is no error; stale means that one of them comes from the cache
  and the reason is given; failed gives a reason and offers no model; and an account that is loading or
  not started offers none.
\<close>

theorem snapshots_honest:
  assumes "model_reachable env (r, ts)"
    and "as_current (authSlot r a) = Some s \<or> RDone s \<in> set ts \<or> s = snapshotForAuthID r a"
  shows "snapshot_ok s"
proof -
  note ok = reachable_ok [OF assms(1)]
  have cur: "snapshot_ok t" if "as_current (authSlot r a) = Some t" for t using ok runtime_current that by blast
  from assms(2) show ?thesis
  proof (elim disjE)
    assume "RDone s \<in> set ts"
    then show ?thesis using ok by (metis in_set_conv_nth readiness_ok.simps(10))
  next
    assume "s = snapshotForAuthID r a"
    then show ?thesis using cur by (simp add: snapshotForAuthID_def current_or_not_started_ok)
  qed (rule cur)
qed

theorem snapshots_honest_witness: "snapshot_ok (snapshotForAuthID rdemo_waiting ''a'')"
  using snapshots_honest [OF rdemo_reachable] by blast

section \<open>Catalogues are committed in order\<close>

definition commit_stamp :: "modelRuntime \<Rightarrow> string \<Rightarrow> nat \<times> nat" where
  "commit_stamp r h = (is_committedConfig (identitySlot r h), is_committedSequence (identitySlot r h))"

lemma stamp_cong: "mr_identitySlots r' = mr_identitySlots r \<Longrightarrow> commit_stamp r' h = commit_stamp r h"
  using slot_cong(2) [of r' r] by (simp add: commit_stamp_def)

lemma settle_stamp:
  assumes "settleIdentityCallLocked d q = Some (ws, d')"
  shows "is_committedConfig d' = is_committedConfig d" and "is_committedSequence d' = is_committedSequence d"
  using assms by (auto simp: settleIdentityCallLocked_def split: if_splits)

definition stamp_le :: "nat \<times> nat \<Rightarrow> nat \<times> nat \<Rightarrow> bool" where
  "stamp_le x y = (fst x < fst y \<or> fst x = fst y \<and> snd x \<le> snd y)"

lemma save_stamp:
  assumes "saveModelsForGeneration env inp l q cached c r = (r', p')"
  shows "commit_stamp r' h = commit_stamp r h \<or>
    h = ld_identity l \<and> commit_stamp r' h = (mr_config r, q) \<and> (fst (commit_stamp r h) = mr_config r \<longrightarrow> snd (commit_stamp r h) \<le> q)"
proof -
  have "commit_stamp r' h = commit_stamp r h" if "settleIdentityCallLocked (identitySlot r (ld_identity l)) q = Some (ws, d)"
      "mr_identitySlots r' = mr_identitySlots (put_identity (ld_identity l) d r)" for ws d
    using settle_stamp [OF that(1)] slot_cong(2) [OF that(2)] by (simp add: commit_stamp_def)
  moreover have "h = ld_identity l \<and> commit_stamp r' h = (mr_config r, q) \<or> commit_stamp r' h = commit_stamp r h"
    if "settleIdentityCallLocked (identitySlot r (ld_identity l)\<lparr>is_committedConfig := mr_config r, is_committedSequence := q\<rparr>) q = Some (ws, d)"
      "mr_identitySlots r' = mr_identitySlots (put_identity (ld_identity l) d r)" for ws d
    using settle_stamp [OF that(1)] slot_cong(2) [OF that(2)] by (simp add: commit_stamp_def)
  ultimately show ?thesis
    using assms stamp_cong [of r' r h]
    by (auto simp: saveModelsForGeneration_def Let_def authGenerationCurrentLocked_def commit_stamp_def
        split: option.splits if_splits prod.splits)
qed

lemma go_stamp:
  assumes "gstep env r p r' p'"
  shows "commit_stamp r' h = commit_stamp r h \<or> commit_stamp r' h = (mr_config r, snd (commit_stamp r' h)) \<and>
    (fst (commit_stamp r h) = mr_config r \<longrightarrow> snd (commit_stamp r h) \<le> snd (commit_stamp r' h))"
proof (cases "\<exists>l q cached c. p = RIdentSave l q cached c")
  case True
  then obtain l q cached c where p: "p = RIdentSave l q cached c" by blast
  from assms obtain inp where "readiness_step env inp r p = Some (r', p')" by (auto simp: gstep_def)
  then show ?thesis using save_stamp [of env inp l q cached c r r' p' h] p by auto
next
  case False
  from assms show ?thesis
  proof (cases rule: ident_events)
    case same
    then show ?thesis using stamp_cong by blast
  next
    case (enter i d)
    then show ?thesis by (simp add: commit_stamp_def)
  next
    case (leave i q d')
    from assms obtain inp where step: "readiness_step env inp r p = Some (r', p')" by (auto simp: gstep_def)
    show ?thesis
    proof (cases p)
      case (RIdentSettle l q e)
      show ?thesis
      proof (cases "settleIdentityCallLocked (identitySlot r (ld_identity l)) q")
        case (Some x)
        then have "r' = put_identity (ld_identity l) (snd x) r"
          using step RIdentSettle by (auto simp: settleIdentityCall_def split: prod.splits)
        then show ?thesis using settle_stamp [of _ q "fst x" "snd x"] Some by (auto simp: commit_stamp_def)
      qed (use step RIdentSettle in \<open>simp add: settleIdentityCall_def\<close>)
    qed (use step leave(1) False in auto)
  qed
qed

lemma controlI: "control r (snd (commitFeatureRuntime configured r))" "control r (snd (advanceConfigGeneration r))"
  "control r (markAuthNotStarted a r)"
  by (auto simp: control_def)

lemma control_stamp: "control r r' \<Longrightarrow> commit_stamp r' h = commit_stamp r h"
  by (rule stamp_cong) (rule control_frame(5))

lemma commits_not_ahead:
  assumes "model_reachable env (r, ts)"
  shows "\<forall>h. fst (commit_stamp r h) \<le> mr_config r"
  using assms
proof (induction rule: reachable_invariant)
  case (start store configured fs)
  have "mr_identitySlots (newModelRuntime env store configured fs) = []"
    by (auto simp: newModelRuntime_def Let_def split: sum.splits option.splits)
  then show ?case by (simp add: commit_stamp_def identitySlot_def new_identity_slot_def)
next
  case (go r ts i r' t)
  have "mr_config r \<le> mr_config r'" using go_later [OF go(3)] by (simp add: no_earlier_def)
  then show ?case using go(1) go_stamp [OF go(3)] by (metis fst_conv order_trans)
next
  case (control r ts r')
  have "mr_config r \<le> mr_config r'" using control_later [OF control(2)] by (simp add: no_earlier_def)
  then show ?case using control stamp_cong [OF control_frame(5) [OF control(2)]] by (metis order_trans)
qed

text \<open>
  (C13) An older answer never overwrites a newer one. The catalogues that accounts of one identity fetch
  at the same time carry sequence numbers; in every step of every history the pair of configuration
  generation and sequence number of the last committed catalogue stays or grows, and never runs ahead of
  the configuration.
\<close>

theorem catalogues_in_order:
  assumes "model_reachable env (r, ts)" and "model_step env (r, ts) (r', ts')"
  shows "stamp_le (commit_stamp r h) (commit_stamp r' h) \<and> fst (commit_stamp r' h) \<le> mr_config r'"
proof
  have "model_reachable env (r', ts')" using assms model_reachable.step by blast
  then show "fst (commit_stamp r' h) \<le> mr_config r'" using commits_not_ahead by blast
  have before: "fst (commit_stamp r h) \<le> mr_config r" using commits_not_ahead [OF assms(1)] by blast
  from assms(2) show "stamp_le (commit_stamp r h) (commit_stamp r' h)"
  proof (cases rule: model_step.cases)
    case (goroutine i inp t)
    then have "gstep env r (ts ! i) r' t" by (auto simp: gstep_def)
    from go_stamp [OF this, of h] before show ?thesis
      by (metis fst_conv le_neq_implies_less nle_le stamp_le_def)
  qed (simp_all add: stamp_le_def control_stamp [OF controlI(1)] control_stamp [OF controlI(2)] control_stamp [OF controlI(3)])
qed

lemma rdemo_moved_config: "mr_config rdemo_moved = 1"
  by code_simp

theorem catalogues_in_order_witness: "stamp_le (commit_stamp rdemo_waiting ''u'') (commit_stamp rdemo_moved ''u'') \<and> fst (commit_stamp rdemo_moved ''u'') \<le> 1"
  using catalogues_in_order [OF rdemo_reachable rdemo_moves, of "''u''"] by (simp add: rdemo_moved_config)

end
