(* ===== verification/Account_Cache.thy ===== *)
theory Account_Cache
  imports Scheduler Call_Registry
begin

text \<open>
  What the plugin remembers of an account's plan, check-in and credits, after \<^verbatim>\<open>src/plugin/cache.go\<close> and the
  invalidation of \<^verbatim>\<open>src/plugin/lifecycle.go\<close>. Goroutines that need the details of the same account share one
  fetch (\<open>accountDetailFlight\<close>): a goroutine is its program counter \<open>detail_pc\<close> and a step is one access to a
  concurrent map or channel, or the fetch. The heap of call objects is the list \<open>fl_calls\<close>: the account a call
  was made for, and its results once its channel is closed.
\<close>

section \<open>The cache\<close>

record checkinSummary =
  ck_Active :: bool
  ck_TodayCheckedIn :: bool
  ck_StreakDays :: int
  ck_DailyCredit :: int
  ck_TodayCredit :: int
  ck_TotalCredits :: int
  ck_WeekCheckinDays :: int
  ck_ActivityName :: string
  ck_Season :: int
  ck_CheckinDates :: "string list"

record accountCacheEntry =
  ce_checkin :: "checkinSummary option"
  ce_credits :: "creditsSummary option"
  ce_plan :: string
  ce_fetched :: gtime
  ce_uid :: string

type_synonym account_cache = "(string, accountCacheEntry) gomap"

definition accountCacheTTL :: duration where "accountCacheTTL = 45 * Second"
definition accountCacheSoftCap :: int where "accountCacheSoftCap = 256"

text \<open>The results of a fetch and of a call.\<close>

record account_details =
  ad_plan :: string
  ad_checkin :: "checkinSummary option"
  ad_credits :: "creditsSummary option"
  ad_errs :: "string list"

text \<open>
  What the three concurrent requests return; an error is its text. \<open>df_first\<close> says that the check-in error, if
  there are two, is noted first.
\<close>

record details_fetch =
  df_plan :: string
  df_checkin :: "string + checkinSummary"
  df_credits :: "string + creditsSummary"
  df_first :: bool

definition right :: "string + 'a \<Rightarrow> 'a option" where
  "right r = (case r of Inl _ \<Rightarrow> None | Inr x \<Rightarrow> Some x)"

definition fetch_errors :: "details_fetch \<Rightarrow> string list" where
  "fetch_errors f =
     (let ci = (case df_checkin f of Inl e \<Rightarrow> [''checkin: '' @ e] | Inr _ \<Rightarrow> []);
          cr = (case df_credits f of Inl e \<Rightarrow> [''credits: '' @ e] | Inr _ \<Rightarrow> [])
      in if df_first f then ci @ cr else cr @ ci)"

definition entry_details :: "accountCacheEntry \<Rightarrow> string list \<Rightarrow> account_details" where
  "entry_details e errs = \<lparr>ad_plan = ce_plan e, ad_checkin = ce_checkin e, ad_credits = ce_credits e, ad_errs = errs\<rparr>"

text \<open>The first look at the cache: the answer, or the previous entry for the fetch.\<close>

definition detail_lookup ::
  "string \<Rightarrow> bool \<Rightarrow> gtime \<Rightarrow> account_cache \<Rightarrow> account_details + accountCacheEntry option" where
  "detail_lookup authID force now m = (case gm_get m authID of
      None \<Rightarrow> Inr None
    | Some prev \<Rightarrow>
        if \<not> force \<and> Sub now (ce_fetched prev) < accountCacheTTL then Inl (entry_details prev []) else Inr (Some prev))"

text \<open>
  The result of a fetch: failed fields come from the previous entry, and credits, fetched or carried over, are
  stamped with the time. \<open>fmt\<close> prints a time in UTC.
\<close>

definition carry :: "'a option \<Rightarrow> 'a option \<Rightarrow> 'a option" where
  "carry new old = (case new of None \<Rightarrow> old | Some x \<Rightarrow> Some x)"

definition detail_result ::
  "(gtime \<Rightarrow> string) \<Rightarrow> gtime \<Rightarrow> accountCacheEntry option \<Rightarrow> details_fetch \<Rightarrow> account_details" where
  "detail_result fmt now prev f =
     (let ci = carry (right (df_checkin f)) (Option.bind prev ce_checkin);
          cr = carry (right (df_credits f)) (Option.bind prev ce_credits);
          plan = (case prev of None \<Rightarrow> df_plan f | Some p \<Rightarrow> if df_plan f = [] then ce_plan p else df_plan f)
      in \<lparr>ad_plan = plan, ad_checkin = ci, ad_credits = map_option (\<lambda>c. c\<lparr>cs_FetchedAt := fmt now\<rparr>) cr,
          ad_errs = fetch_errors f\<rparr>)"

text \<open>
  \<open>order\<close> enumerates the keys; the library's sort is not stable, which is covered by the choice of the order.
\<close>

definition pruneAccountCacheSoftCap :: "string list \<Rightarrow> int \<Rightarrow> account_cache \<Rightarrow> account_cache" where
  "pruneAccountCacheSoftCap order capN m =
     (if capN \<le> 0 then m
      else let m = gm_del [] m; items = sort_key (\<lambda>(k, e). ce_fetched e) (range_map order m)
           in if int (length items) \<le> capN then m
              else foldl (\<lambda>m k. gm_del k m) m (map fst (take (length items - nat capN) items)))"

definition detail_store ::
  "string list \<Rightarrow> gtime \<Rightarrow> string \<Rightarrow> string \<Rightarrow> account_details \<Rightarrow> account_cache \<Rightarrow> account_cache" where
  "detail_store order now authID uid d m = pruneAccountCacheSoftCap order accountCacheSoftCap
     (gm_put authID \<lparr>ce_checkin = ad_checkin d, ce_credits = ad_credits d, ce_plan = ad_plan d, ce_fetched = now,
        ce_uid = TrimSpace uid\<rparr> m)"

text \<open>The whole call when no other goroutine interferes. \<open>t\<close> and \<open>t'\<close> are its two readings of the clock.\<close>

definition cachedAccountDetails ::
  "(gtime \<Rightarrow> string) \<Rightarrow> string list \<Rightarrow> string \<Rightarrow> string \<Rightarrow> bool \<Rightarrow> gtime \<Rightarrow> gtime \<Rightarrow> details_fetch \<Rightarrow> account_cache \<Rightarrow>
   account_details \<times> account_cache" where
  "cachedAccountDetails fmt order authID uid force t t' f m = (case detail_lookup authID force t m of
      Inl d \<Rightarrow> (d, m)
    | Inr prev \<Rightarrow> (let d = detail_result fmt t' prev f in (d, detail_store order t' authID uid d m)))"

definition cachedCheckinToday :: "string \<Rightarrow> account_cache \<Rightarrow> bool option" where
  "cachedCheckinToday authID m =
     Option.bind (gm_get m authID) (\<lambda>e. map_option ck_TodayCheckedIn (ce_checkin e))"

section \<open>Invalidation\<close>

definition invalidateCredits :: "gtime \<Rightarrow> string \<Rightarrow> account_cache \<Rightarrow> account_cache" where
  "invalidateCredits now authID m = (case gm_get m authID of
      None \<Rightarrow> m | Some e \<Rightarrow> gm_put authID (e\<lparr>ce_credits := None, ce_fetched := now\<rparr>) m)"

definition invalidateAccountCredits :: "gtime \<Rightarrow> string \<Rightarrow> string \<Rightarrow> account_cache \<Rightarrow> account_cache" where
  "invalidateAccountCredits now authID authUID m =
     (let m = (if authID \<noteq> [] then invalidateCredits now authID m else m) in
      if authUID = [] \<or> authUID = authID then m
      else foldl (\<lambda>m k. invalidateCredits now k m) m
        (map fst (filter (\<lambda>(k, e). ce_uid e = authUID \<and> k \<noteq> authID) m)))"

definition mergeCheckinCache :: "gtime \<Rightarrow> string \<Rightarrow> checkinSummary \<Rightarrow> account_cache \<Rightarrow> account_cache" where
  "mergeCheckinCache now authID ci m = gm_put authID (case gm_get m authID of
      None \<Rightarrow> \<lparr>ce_checkin = Some ci, ce_credits = None, ce_plan = [], ce_fetched = now, ce_uid = []\<rparr>
    | Some prev \<Rightarrow> prev\<lparr>ce_checkin := Some ci, ce_fetched := now\<rparr>) m"

section \<open>Shared fetches\<close>

record detail_runtime =
  fl_cache :: account_cache
  fl_flight :: "(string, nat) gomap"
  fl_calls :: "(string \<times> account_details option) list"

datatype detail_pc =
    DStart string string bool
  | DEnter string string "accountCacheEntry option"
  | DWait string nat
  | DReread string nat
  | DFetch string string "accountCacheEntry option" nat
  | DStore string string "accountCacheEntry option" nat details_fetch
  | DClose string nat account_details
  | DRelease string nat account_details
  | DDone account_details

record detail_input =
  di_now :: gtime
  di_fetch :: details_fetch
  di_order :: "string list"

fun detail_step ::
  "(gtime \<Rightarrow> string) \<Rightarrow> detail_input \<Rightarrow> detail_runtime \<Rightarrow> detail_pc \<Rightarrow> (detail_runtime \<times> detail_pc) option" where
  "detail_step fmt inp r (DStart a uid force) = (case detail_lookup a force (di_now inp) (fl_cache r) of
      Inl d \<Rightarrow> Some (r, DDone d)
    | Inr prev \<Rightarrow> Some (r, DEnter a uid prev))"
| "detail_step fmt inp r (DEnter a uid prev) = (case gm_get (fl_flight r) a of
      Some call \<Rightarrow> Some (r, DWait a call)
    | None \<Rightarrow> (let call = length (fl_calls r) in
        Some (r\<lparr>fl_flight := gm_put a call (fl_flight r), fl_calls := fl_calls r @ [(a, None)]\<rparr>, DFetch a uid prev call)))"
| "detail_step fmt inp r (DWait a call) =
     (if call < length (fl_calls r) \<and> snd (fl_calls r ! call) \<noteq> None then Some (r, DReread a call) else None)"
| "detail_step fmt inp r (DReread a call) = (case snd (fl_calls r ! call) of
      None \<Rightarrow> None
    | Some other \<Rightarrow> Some (r, DDone (case gm_get (fl_cache r) a of
          Some e \<Rightarrow> entry_details e (ad_errs other) | None \<Rightarrow> other)))"
| "detail_step fmt inp r (DFetch a uid prev call) = Some (r, DStore a uid prev call (di_fetch inp))"
| "detail_step fmt inp r (DStore a uid prev call f) =
     (let d = detail_result fmt (di_now inp) prev f in
      Some (r\<lparr>fl_cache := detail_store (di_order inp) (di_now inp) a uid d (fl_cache r)\<rparr>, DClose a call d))"
| "detail_step fmt inp r (DClose a call d) =
     Some (r\<lparr>fl_calls := (fl_calls r)[call := (fst (fl_calls r ! call), Some d)]\<rparr>, DRelease a call d)"
| "detail_step fmt inp r (DRelease a call d) = Some (r\<lparr>fl_flight := gm_del a (fl_flight r)\<rparr>, DDone d)"
| "detail_step fmt inp r (DDone d) = None"

text \<open>
  All goroutines together. \<open>other\<close> stands for every other writer of the cache: invalidation, check-in,
  credit queries and pruning.
\<close>

inductive flight_step ::
  "(gtime \<Rightarrow> string) \<Rightarrow> detail_runtime \<times> detail_pc list \<Rightarrow> detail_runtime \<times> detail_pc list \<Rightarrow> bool" for fmt where
  call: "flight_step fmt (r, ts) (r, ts @ [DStart a uid force])"
| goroutine: "i < length ts \<Longrightarrow> detail_step fmt inp r (ts ! i) = Some (r', t) \<Longrightarrow>
    flight_step fmt (r, ts) (r', ts[i := t])"
| other: "flight_step fmt (r, ts) (r\<lparr>fl_cache := m\<rparr>, ts)"

inductive flight_reachable :: "(gtime \<Rightarrow> string) \<Rightarrow> detail_runtime \<times> detail_pc list \<Rightarrow> bool" for fmt where
  start: "flight_reachable fmt (\<lparr>fl_cache = [], fl_flight = [], fl_calls = []\<rparr>, [])"
| step: "flight_reachable fmt s \<Longrightarrow> flight_step fmt s s' \<Longrightarrow> flight_reachable fmt s'"

end
