(* ===== verification/Account_Cache_Props.thy ===== *)
theory Account_Cache_Props
  imports Account_Cache
begin

text \<open>
  The properties of the account cache: the shared fetch under every interleaving, the bound on the size, and
  what an invalidation does to the next reader.
\<close>

section \<open>Shared fetches\<close>

fun flight_holds :: "detail_pc \<Rightarrow> (string \<times> nat) option" where
  "flight_holds (DFetch a uid prev c) = Some (a, c)"
| "flight_holds (DStore a uid prev c f) = Some (a, c)"
| "flight_holds (DClose a c d) = Some (a, c)"
| "flight_holds (DRelease a c d) = Some (a, c)"
| "flight_holds _ = None"

fun flight_waits :: "detail_pc \<Rightarrow> (string \<times> nat) set" where
  "flight_waits (DWait a c) = {(a, c)}"
| "flight_waits (DReread a c) = {(a, c)}"
| "flight_waits _ = {}"

definition flight_active :: "detail_runtime \<Rightarrow> (string \<times> nat) set" where
  "flight_active r = {(a, c). gm_get (fl_flight r) a = Some c}"

definition flight_closed :: "detail_runtime \<Rightarrow> (string \<times> nat) set" where
  "flight_closed r = {(a, c). c < length (fl_calls r) \<and> fst (fl_calls r ! c) = a \<and> gm_get (fl_flight r) a \<noteq> Some c}"

definition flight_wf :: "detail_runtime \<Rightarrow> bool" where
  "flight_wf r = (\<forall>a c. gm_get (fl_flight r) a = Some c \<longrightarrow> c < length (fl_calls r) \<and> fst (fl_calls r ! c) = a)"

definition flight_go ::
  "(gtime \<Rightarrow> string) \<Rightarrow> detail_runtime \<Rightarrow> detail_pc \<Rightarrow> detail_runtime \<Rightarrow> detail_pc \<Rightarrow> bool" where
  "flight_go fmt r p r' p' = (\<exists>inp. detail_step fmt inp r p = Some (r', p'))"

definition flight_ctl :: "detail_runtime \<Rightarrow> detail_runtime \<Rightarrow> bool" where
  "flight_ctl r r' = (\<exists>m. r' = r\<lparr>fl_cache := m\<rparr>)"

definition flight_new :: "detail_pc \<Rightarrow> bool" where
  "flight_new p = (\<exists>a uid force. p = DStart a uid force)"

lemmas flight_sets = flight_active_def flight_closed_def

lemma flight_go_elim:
  assumes "flight_go fmt r p r' p'"
  obtains (quiet) "flight_holds p' = flight_holds p" "fl_flight r' = fl_flight r" "fl_calls r' = fl_calls r"
      "flight_waits p' \<subseteq> flight_waits p \<union> flight_active r" "\<And>a c d. p' \<noteq> DRelease a c d"
      "\<And>a c. p' = DReread a c \<Longrightarrow> c < length (fl_calls r) \<and> snd (fl_calls r ! c) \<noteq> None"
  | (enter) a uid prev where "p = DEnter a uid prev" "gm_get (fl_flight r) a = None" "p' = DFetch a uid prev (length (fl_calls r))"
      "r' = r\<lparr>fl_flight := gm_put a (length (fl_calls r)) (fl_flight r), fl_calls := fl_calls r @ [(a, None)]\<rparr>"
  | (close) a c d where "p = DClose a c d" "p' = DRelease a c d"
      "r' = r\<lparr>fl_calls := (fl_calls r)[c := (fst (fl_calls r ! c), Some d)]\<rparr>"
  | (release) a c d where "p = DRelease a c d" "p' = DDone d" "r' = r\<lparr>fl_flight := gm_del a (fl_flight r)\<rparr>"
proof -
  obtain inp where step: "detail_step fmt inp r p = Some (r', p')" using assms by (auto simp: flight_go_def)
  show thesis
  proof (cases p)
    case (DEnter a uid prev)
    then show thesis
    proof (cases "gm_get (fl_flight r) a")
      case None
      then show thesis using enter DEnter step by (auto simp: Let_def)
    next
      case (Some call)
      then show thesis using quiet DEnter step by (auto simp: flight_active_def)
    qed
  next
    case (DClose a c d)
    then show thesis using close step by auto
  next
    case (DRelease a c d)
    then show thesis using release step by auto
  next
    case (DStart a uid force)
    then show thesis using quiet step by (auto split: sum.splits)
  next
    case (DWait a c)
    then show thesis using quiet step by (auto split: if_splits)
  next
    case (DReread a c)
    then show thesis using quiet step by (auto split: option.splits)
  qed (use quiet step in \<open>auto simp: Let_def\<close>)
qed

lemma enter_sets:
  assumes "flight_wf r" and "gm_get (fl_flight r) a = None"
    and "r' = r\<lparr>fl_flight := gm_put a (length (fl_calls r)) (fl_flight r), fl_calls := fl_calls r @ [(a, None)]\<rparr>"
  shows "flight_active r' = insert (a, length (fl_calls r)) (flight_active r)" "flight_closed r' = flight_closed r"
    "(a, length (fl_calls r)) \<notin> flight_active r \<union> flight_closed r" "flight_wf r'"
proof -
  have bound: "c < length (fl_calls r)" if "gm_get (fl_flight r) b = Some c" for b c
    using assms(1) that by (auto simp: flight_wf_def)
  show "flight_active r' = insert (a, length (fl_calls r)) (flight_active r)"
    using assms(2) by (auto simp: flight_active_def assms(3) split: if_splits)
  show "flight_closed r' = flight_closed r"
    using assms(2) by (auto simp: flight_closed_def assms(3) nth_append less_Suc_eq split: if_splits)
  show "(a, length (fl_calls r)) \<notin> flight_active r \<union> flight_closed r"
    using assms(2) by (auto simp: flight_sets)
  show "flight_wf r'"
    using assms(1) bound unfolding flight_wf_def assms(3) by (auto simp: nth_append dest: bound split: if_splits)
qed

lemma close_sets:
  assumes "r' = r\<lparr>fl_calls := (fl_calls r)[c := (fst (fl_calls r ! c), Some d)]\<rparr>"
  shows "flight_active r' = flight_active r" "flight_closed r' = flight_closed r" "flight_wf r' = flight_wf r"
proof -
  have same: "fst (fl_calls r' ! k) = fst (fl_calls r ! k)" if "k < length (fl_calls r)" for k
    using that by (cases "k = c") (simp_all add: assms)
  show "flight_active r' = flight_active r" by (simp add: flight_active_def assms)
  show "flight_closed r' = flight_closed r" using same by (auto simp: flight_closed_def assms)
  show "flight_wf r' = flight_wf r" unfolding flight_wf_def using same [unfolded assms]
    by (simp add: assms cong: conj_cong)
qed

lemma release_sets:
  assumes "flight_wf r" and "gm_get (fl_flight r) a = Some c" and "r' = r\<lparr>fl_flight := gm_del a (fl_flight r)\<rparr>"
  shows "flight_active r' = flight_active r - {(a, c)}" "flight_closed r' = insert (a, c) (flight_closed r)" "flight_wf r'"
proof -
  have get: "gm_get (fl_flight r') b = (if b = a then None else gm_get (fl_flight r) b)" for b
    by (simp add: assms(3) gm_get_del)
  have calls: "fl_calls r' = fl_calls r" by (simp add: assms(3))
  have c: "c < length (fl_calls r)" "fst (fl_calls r ! c) = a" using assms(1,2) by (auto simp: flight_wf_def)
  show "flight_active r' = flight_active r - {(a, c)}"
    unfolding flight_active_def get using assms(2) by (auto split: if_splits)
  show "flight_closed r' = insert (a, c) (flight_closed r)"
    unfolding flight_closed_def get calls using c assms(2) by (auto split: if_splits)
  show "flight_wf r'" using assms(1) unfolding flight_wf_def get calls by auto
qed

interpretation flight: call_registry flight_holds flight_waits flight_active flight_closed flight_wf
  "flight_go fmt" flight_ctl flight_new
proof (unfold_locales, goal_cases)
  case (1 r p r' p')
  from 1(1) show ?case
  proof (cases rule: flight_go_elim)
    case (release a c d)
    then show ?thesis using 1 release_sets(3) [of r a c r'] by (auto simp: flight_active_def)
  next
    case (enter a uid prev)
    then show ?thesis using 1 enter_sets(4) by blast
  next
    case (close a c d)
    then show ?thesis using 1 close_sets(3) by blast
  qed (use 1 in \<open>auto simp: flight_wf_def\<close>)
next
  case (2 r p r' p')
  then show ?case by (cases rule: flight_go_elim) auto
next
  case (3 r p r' p')
  from 3(1) show ?case
  proof (cases rule: flight_go_elim)
    case (enter a uid prev)
    then show ?thesis using enter_sets [OF 3(2) enter(2,4)] by auto
  next
    case (close a c d)
    then show ?thesis using close_sets(1,2) [OF close(3)] by auto
  next
    case (release a c d)
    then have "gm_get (fl_flight r) a = Some c" using 3(4) by (auto simp: flight_active_def)
    note sets = release_sets [OF 3(2) this release(3)]
    have "flight_active r' \<inter> flight_closed r' = {}" unfolding sets using 3(3) by blast
    then show ?thesis using sets release(1,2) by (intro disjI2 exI [of _ "(a, c)"]) simp
  qed (auto simp: flight_sets)
next
  case (4 r r')
  then obtain m where "r' = r\<lparr>fl_cache := m\<rparr>" by (auto simp: flight_ctl_def)
  with 4(2) show ?case by (simp add: flight_active_def flight_closed_def flight_wf_def)
next
  case (5 p)
  then show ?case by (auto simp: flight_new_def)
qed

text \<open>A call that has left the flight is closed, and so is one that is about to.\<close>

definition results_ready :: "detail_runtime \<Rightarrow> detail_pc list \<Rightarrow> bool" where
  "results_ready r ts = ((\<forall>(a, c) \<in> flight_closed r. snd (fl_calls r ! c) \<noteq> None) \<and>
     (\<forall>t \<in> set ts. \<forall>a c d. t = DRelease a c d \<or> t = DReread a c \<longrightarrow> c < length (fl_calls r) \<and> snd (fl_calls r ! c) \<noteq> None))"

lemma ready_go:
  assumes "flight.inv r ts" and "results_ready r ts" and "i < length ts" and "flight_go fmt r (ts ! i) r' t"
  shows "results_ready r' (ts[i := t])"
proof -
  have wf: "flight_wf r" using assms(1) by (simp add: flight.inv_def)
  have sub: "set (ts[i := t]) \<subseteq> insert t (set ts)" by (rule set_update_subset_insert)
  have old: "c < length (fl_calls r) \<and> snd (fl_calls r ! c) \<noteq> None" if "x \<in> set ts" "x = DRelease a c d \<or> x = DReread a c" for x a c d
    using assms(2) that unfolding results_ready_def by blast
  have cl: "snd (fl_calls r ! c) \<noteq> None" if "(a, c) \<in> flight_closed r" for a c
    using assms(2) that unfolding results_ready_def by blast
  from assms(4) show ?thesis
  proof (cases rule: flight_go_elim)
    case quiet
    have closed: "flight_closed r' = flight_closed r" using quiet(2,3) by (simp add: flight_closed_def)
    show ?thesis unfolding results_ready_def closed quiet(3)
      using sub old cl quiet(5,6) by blast
  next
    case (enter a uid prev)
    note sets = enter_sets [OF wf enter(2,4)]
    have keep: "fl_calls r' ! c = fl_calls r ! c \<and> c < length (fl_calls r')" if "c < length (fl_calls r)" for c
      using that by (simp add: enter(4) nth_append)
    have "snd (fl_calls r' ! c) \<noteq> None" if "(b, c) \<in> flight_closed r'" for b c
      using that [unfolded sets(2)] cl [of b c] keep [of c] by (auto simp: flight_closed_def)
    moreover have "c < length (fl_calls r') \<and> snd (fl_calls r' ! c) \<noteq> None"
      if "x \<in> set (ts[i := t])" "x = DRelease b c d \<or> x = DReread b c" for x b c d
      using that sub old [of x b c d] keep [of c] enter(3) by auto
    ultimately show ?thesis unfolding results_ready_def by blast
  next
    case (close a c d)
    have "(a, c) \<in> flight_active r" using flight.inv_held [OF assms(1,3)] close(1) by simp
    then have c: "c < length (fl_calls r)" using wf by (auto simp: flight_active_def flight_wf_def)
    have "snd (fl_calls r' ! k) \<noteq> None" if "k < length (fl_calls r)" "snd (fl_calls r ! k) \<noteq> None" for k
      using that by (cases "k = c") (simp_all add: close(3))
    moreover have "snd (fl_calls r' ! c) \<noteq> None" using c by (simp add: close(3))
    moreover have "length (fl_calls r') = length (fl_calls r)" by (simp add: close(3))
    ultimately have keep: "k < length (fl_calls r') \<and> snd (fl_calls r' ! k) \<noteq> None"
      if "k = c \<or> k < length (fl_calls r) \<and> snd (fl_calls r ! k) \<noteq> None" for k
      using that c by auto
    have "snd (fl_calls r' ! k) \<noteq> None" if "(b, k) \<in> flight_closed r'" for b k
      using that [unfolded close_sets(2) [OF close(3)]] cl [of b k] keep [of k] by (auto simp: flight_closed_def)
    moreover have "k < length (fl_calls r') \<and> snd (fl_calls r' ! k) \<noteq> None"
      if "x \<in> set (ts[i := t])" "x = DRelease b k e \<or> x = DReread b k" for x b k e
      using that sub old [of x b k e] keep [of k] close(2) by auto
    ultimately show ?thesis unfolding results_ready_def by blast
  next
    case (release a c d)
    have "gm_get (fl_flight r) a = Some c" using flight.inv_held [OF assms(1,3)] release(1) by (simp add: flight_active_def)
    note sets = release_sets [OF wf this release(3)]
    have "snd (fl_calls r ! c) \<noteq> None" using old [of "ts ! i" a c d] nth_mem [OF assms(3)] release(1) by simp
    then show ?thesis
      unfolding results_ready_def sets(2) using sub old cl release(2) by (auto simp: release(3))
  qed
qed

definition flight_ok :: "detail_runtime \<Rightarrow> detail_pc list \<Rightarrow> bool" where
  "flight_ok r ts = (flight.inv r ts \<and> results_ready r ts)"

lemma flight_ok_reachable:
  assumes "flight_reachable fmt s"
  shows "flight_ok (fst s) (snd s)"
  using assms
proof (induction rule: flight_reachable.induct)
  case start
  have "flight.inv \<lparr>fl_cache = [], fl_flight = [], fl_calls = []\<rparr> []"
    by (rule flight.inv_start) (simp_all add: flight_wf_def flight_active_def)
  then show ?case by (simp add: flight_ok_def results_ready_def flight_closed_def)
next
  case (step s s')
  from step.hyps(2) show ?case
  proof (cases rule: flight_step.cases)
    case (call r ts a uid force)
    have "flight.inv r (ts @ [DStart a uid force])"
      by (rule flight.inv_spawn) (use step.IH call in \<open>auto simp: flight_ok_def flight_new_def\<close>)
    then show ?thesis using step.IH call by (auto simp: flight_ok_def results_ready_def)
  next
    case (goroutine i ts inp r r' t)
    then have "flight_go fmt r (ts ! i) r' t" by (auto simp: flight_go_def)
    then show ?thesis
      using step.IH goroutine flight.inv_go [of r ts i fmt r' t] ready_go [of r ts i fmt r' t] by (simp add: flight_ok_def)
  next
    case (other r ts m)
    have "flight.inv (r\<lparr>fl_cache := m\<rparr>) ts"
      by (rule flight.inv_control [of r]) (use step.IH other in \<open>auto simp: flight_ok_def flight_ctl_def\<close>)
    then show ?thesis using step.IH other by (auto simp: flight_ok_def results_ready_def flight_closed_def)
  qed
qed

fun detail_done :: "detail_pc \<Rightarrow> bool" where
  "detail_done (DDone d) = True"
| "detail_done _ = False"

fun fetches_for :: "string \<Rightarrow> detail_pc \<Rightarrow> bool" where
  "fetches_for a (DFetch b uid prev c) = (a = b)"
| "fetches_for a (DStore b uid prev c f) = (a = b)"
| "fetches_for a _ = False"

definition detail_enabled :: "(gtime \<Rightarrow> string) \<Rightarrow> detail_runtime \<Rightarrow> detail_pc \<Rightarrow> bool" where
  "detail_enabled fmt r p = (\<exists>inp. detail_step fmt inp r p \<noteq> None)"

lemma fetches_hold: "fetches_for a p \<Longrightarrow> \<exists>c. flight_holds p = Some (a, c)"
  by (cases p) auto

lemma holder_enabled: "flight_holds p = Some k \<Longrightarrow> detail_enabled fmt r p"
  by (cases p) (auto simp: detail_enabled_def Let_def)

lemma stuck_waits:
  assumes "\<not> detail_enabled fmt r p" and "\<not> detail_done p"
  obtains a c where "p = DWait a c" "\<not> (c < length (fl_calls r) \<and> snd (fl_calls r ! c) \<noteq> None)"
    | a c where "p = DReread a c" "snd (fl_calls r ! c) = None"
  using assms
proof (cases p)
  case (DStart a uid force)
  then have "detail_step fmt inp r p \<noteq> None" for inp by (simp split: sum.splits)
  then show thesis using assms(1) by (auto simp: detail_enabled_def)
next
  case (DEnter a uid prev)
  then have "detail_step fmt inp r p \<noteq> None" for inp by (simp add: Let_def split: option.splits)
  then show thesis using assms(1) by (auto simp: detail_enabled_def)
qed (auto simp: detail_enabled_def Let_def split: if_splits option.splits intro: that)

text \<open>
  (C19) Goroutines that need the details of an account share one fetch. However they interleave with each
  other and with every other writer of the cache, in each reachable state at most one goroutine fetches for
  an account, and while any goroutine has not returned, some goroutine can take a step: nobody waits for a
  call that nobody will finish, although a call is closed before it leaves the flight.
\<close>

theorem details_shared:
  assumes "flight_reachable fmt (r, ts)"
  shows "length (filter (fetches_for a) ts) \<le> 1 \<and>
    (list_ex (\<lambda>p. \<not> detail_done p) ts \<longrightarrow> list_ex (detail_enabled fmt r) ts)"
proof
  have inv: "flight.inv r ts" and ready: "results_ready r ts"
    using flight_ok_reachable [OF assms] by (simp_all add: flight_ok_def)
  show "length (filter (fetches_for a) ts) \<le> 1"
  proof (rule at_most_one)
    fix i j assume ij: "i < length ts" "j < length ts" "fetches_for a (ts ! i)" "fetches_for a (ts ! j)"
    then obtain c c' where h: "flight_holds (ts ! i) = Some (a, c)" "flight_holds (ts ! j) = Some (a, c')"
      using fetches_hold by blast
    then have "(a, c) \<in> flight_active r" "(a, c') \<in> flight_active r" using flight.inv_held [OF inv] ij by blast+
    then have "c = c'" by (simp add: flight_active_def)
    then show "i = j" using flight.inv_one [OF inv ij(1,2)] h by simp
  qed
  show "list_ex (\<lambda>p. \<not> detail_done p) ts \<longrightarrow> list_ex (detail_enabled fmt r) ts"
  proof
    assume "list_ex (\<lambda>p. \<not> detail_done p) ts"
    then obtain i where i: "i < length ts" "\<not> detail_done (ts ! i)" by (auto simp: list_ex_length)
    have "\<exists>j < length ts. detail_enabled fmt r (ts ! j)"
    proof (cases "detail_enabled fmt r (ts ! i)")
      case False
      then show ?thesis using i(2)
      proof (cases rule: stuck_waits)
        case (1 b c)
        then have "(b, c) \<in> flight_active r \<or> (b, c) \<in> flight_closed r" using flight.inv_waits [OF inv i(1)] by simp
        moreover have "(b, c) \<notin> flight_closed r"
          using 1(2) ready by (auto simp: results_ready_def flight_closed_def)
        ultimately obtain j where "j < length ts" "flight_holds (ts ! j) = Some (b, c)"
          using flight.inv_holder [OF inv] by blast
        then show ?thesis using holder_enabled by blast
      next
        case (2 b c)
        then show ?thesis using ready i(1) nth_mem [OF i(1)] by (auto simp: results_ready_def)
      qed
    qed (use i in blast)
    then show "list_ex (detail_enabled fmt r) ts" by (auto simp: list_ex_length)
  qed
qed

text \<open>Two goroutines ask for the same account: the first fetches, the second waits for its call.\<close>

definition fdemo_runtime :: detail_runtime where
  "fdemo_runtime = \<lparr>fl_cache = [], fl_flight = [(''a'', 0)], fl_calls = [(''a'', None)]\<rparr>"

lemma fdemo_reachable: "flight_reachable fmt (fdemo_runtime, [DFetch ''a'' ''u'' None 0, DWait ''a'' 0])"
proof -
  let ?r = "\<lparr>fl_cache = [], fl_flight = [], fl_calls = []\<rparr>" and ?s = "DStart ''a'' ''u'' True"
    and ?e = "DEnter ''a'' ''u'' None" and ?f = "DFetch ''a'' ''u'' None 0"
  let ?inp = "\<lparr>di_now = 0, di_fetch = \<lparr>df_plan = [], df_checkin = Inl [], df_credits = Inl [], df_first = True\<rparr>, di_order = []\<rparr>"
  note go = flight_reachable.step [OF _ flight_step.goroutine [of _ _ _ ?inp]]
  have "flight_reachable fmt (?r, [?s, ?s])"
    using flight_reachable.step [OF flight_reachable.step [OF flight_reachable.start flight_step.call [of fmt _ "[]" "''a''" "''u''" True]]
        flight_step.call [of fmt _ _ "''a''" "''u''" True]] by simp
  then have "flight_reachable fmt (?r, [?s, ?s][0 := ?e])" by (rule go) (simp_all add: detail_lookup_def)
  then have "flight_reachable fmt (?r, [?e, ?s])" by simp
  then have "flight_reachable fmt (?r, [?e, ?s][1 := ?e])" by (rule go) (simp_all add: detail_lookup_def)
  then have "flight_reachable fmt (?r, [?e, ?e])" by simp
  then have "flight_reachable fmt (fdemo_runtime, [?e, ?e][0 := ?f])" by (rule go) (simp_all add: fdemo_runtime_def)
  then have "flight_reachable fmt (fdemo_runtime, [?f, ?e])" by simp
  then have "flight_reachable fmt (fdemo_runtime, [?f, ?e][1 := DWait ''a'' 0])"
    by (rule go) (simp_all add: fdemo_runtime_def)
  then show ?thesis by simp
qed

theorem details_shared_witness:
  "list_ex (detail_enabled (\<lambda>t. []) fdemo_runtime) [DFetch ''a'' ''u'' None 0, DWait ''a'' 0]"
  using details_shared [OF fdemo_reachable [of "\<lambda>t. []"]] by simp

section \<open>The bound on the size\<close>

lemma length_del: "gm_wf m \<Longrightarrow> k \<in> fst ` set m \<Longrightarrow> Suc (length (gm_del k m)) = length m"
  using gm.len_del [of m k] by (simp add: gm_keys_def map_of_eq_None_iff)

lemma delete_all:
  assumes "gm_wf m" and "distinct ks" and "set ks \<subseteq> fst ` set m"
  shows "length (foldl (\<lambda>m k. gm_del k m) m ks) = length m - length ks"
  using assms
proof (induction ks arbitrary: m)
  case (Cons k ks)
  have wf: "gm_wf (gm_del k m)" using Cons.prems(1) by (rule gm.wf_del)
  have "set ks \<subseteq> fst ` set (gm_del k m)"
    using Cons.prems gm.keys_del [OF Cons.prems(1), of k] by (auto simp: gm_keys_def)
  then show ?case using Cons.IH [OF wf] Cons.prems length_del [OF Cons.prems(1), of k] by simp
qed simp

lemma delete_all_get:
  "gm_get (foldl (\<lambda>m k. gm_del k m) m ks) k = (if k \<in> set ks then None else gm_get m k)"
  by (induction ks arbitrary: m) (auto simp: gm_get_del)

lemma length_range_map: "gm_wf m \<Longrightarrow> enumerates ks m \<Longrightarrow> length (range_map ks m) = length m"
  using mset_range_map [of m ks] by (metis size_mset)

lemma sorted_take_drop: "sorted (map f xs) \<Longrightarrow> x \<in> set (take n xs) \<Longrightarrow> y \<in> set (drop n xs) \<Longrightarrow> f x \<le> f y"
proof -
  assume s: "sorted (map f xs)" and xy: "x \<in> set (take n xs)" "y \<in> set (drop n xs)"
  have "sorted (map f (take n xs) @ map f (drop n xs))" using s by (simp only: map_append [symmetric] append_take_drop_id)
  then show ?thesis using xy by (auto simp: sorted_append)
qed

text \<open>
  The cache never outgrows its bound, and what a store drops is older than what it keeps: after a store the
  cache has at most \<open>accountCacheSoftCap\<close> entries, every entry that is left was there or is the new one, and no
  entry that was dropped is younger than one that was kept.
\<close>

lemma prune_keeps_youngest:
  assumes "gm_wf m" and "0 < capN" and "enumerates order (gm_del [] m)" and "m' = pruneAccountCacheSoftCap order capN m"
  shows "int (length m') \<le> capN"
    and "gm_get m' k = Some e \<Longrightarrow> gm_get m k = Some e"
    and "gm_get m k = Some e \<Longrightarrow> k \<noteq> [] \<Longrightarrow> gm_get m' k = None \<Longrightarrow> gm_get m' k' = Some e' \<Longrightarrow> ce_fetched e \<le> ce_fetched e'"
proof -
  let ?m = "gm_del [] m" and ?f = "\<lambda>(k, e). ce_fetched (e :: accountCacheEntry)"
  define items where "items = sort_key ?f (range_map order ?m)"
  have wf: "gm_wf ?m" by (rule gm.wf_del [OF assms(1)])
  have len: "length items = length ?m" using length_range_map [OF wf assms(3)] by (simp add: items_def)
  have sorted: "sorted (map ?f items)" unfolding items_def by (rule sorted_sort_key)
  have in_items: "(k, e) \<in> set items \<longleftrightarrow> gm_get ?m k = Some e" for k e
    using set_range_map [OF assms(3)] by (simp add: items_def)
  have keys: "distinct (map fst items)"
    using range_map_distinct [of order ?m] assms(3) mset_map [of fst items] mset_map [of fst "range_map order ?m"]
    by (metis (no_types, lifting) items_def enumerates_def mset_eq_imp_distinct_iff mset_sort)
  define old where "old = take (length items - nat capN) items"
  have old_in: "(k, e) \<in> set old \<Longrightarrow> gm_get ?m k = Some e" for k e
    unfolding old_def using in_items in_set_takeD by metis
  have m': "m' = (if int (length items) \<le> capN then ?m else foldl (\<lambda>m k. gm_del k m) ?m (map fst old))"
    using assms(2,4) by (simp add: pruneAccountCacheSoftCap_def Let_def items_def old_def)
  have "set (map fst old) \<subseteq> fst ` set ?m" using old_in by (fastforce dest: map_of_SomeD)
  moreover have "distinct (map fst old)" unfolding old_def take_map [symmetric] by (rule distinct_take [OF keys])
  ultimately have "length (foldl (\<lambda>m k. gm_del k m) ?m (map fst old)) = length ?m - length old"
    using delete_all [OF wf] by simp
  then show "int (length m') \<le> capN" using assms(2) len by (auto simp: m' old_def)
  have get: "gm_get m' j = (if int (length items) > capN \<and> j \<in> set (map fst old) then None else gm_get ?m j)" for j
    by (simp add: m' delete_all_get)
  then show "gm_get m' k = Some e \<Longrightarrow> gm_get m k = Some e" by (auto simp: gm_get_del split: if_splits)
  assume e: "gm_get m k = Some e" "k \<noteq> []" "gm_get m' k = None" and e': "gm_get m' k' = Some e'"
  have k: "gm_get ?m k = Some e" using e by (simp add: gm_get_del)
  then have k_in: "k \<in> set (map fst old)" "int (length items) > capN" using e(3) get [of k] by (auto split: if_splits)
  then have k': "gm_get ?m k' = Some e'" "k' \<notin> set (map fst old)" using e' get [of k'] by (auto split: if_splits)
  from k_in(1) obtain e0 where e0: "(k, e0) \<in> set old" by (auto simp: image_iff)
  then have "e0 = e" using old_in [OF e0] k by simp
  then have in_old: "(k, e) \<in> set old" using e0 by simp
  have "(k', e') \<in> set items" using in_items k'(1) by blast
  then have "(k', e') \<in> set (drop (length items - nat capN) items)"
    using k'(2) by (metis Un_iff append_take_drop_id fst_conv image_eqI list.set_map old_def set_append)
  then have "?f (k, e) \<le> ?f (k', e')" using sorted_take_drop [OF sorted] in_old unfolding old_def by blast
  then show "ce_fetched e \<le> ce_fetched e'" by simp
qed

section \<open>Invalidation\<close>

lemma invalidate_get: "gm_get (invalidateCredits now k m) j =
    (if j = k then map_option (\<lambda>e. e\<lparr>ce_credits := None, ce_fetched := now\<rparr>) (gm_get m j) else gm_get m j)"
  by (auto simp: invalidateCredits_def split: option.splits)

lemma invalidate_all_get:
  "gm_get (foldl (\<lambda>m k. invalidateCredits now k m) m ks) j =
    (if j \<in> set ks then map_option (\<lambda>e. e\<lparr>ce_credits := None, ce_fetched := now\<rparr>) (gm_get m j) else gm_get m j)"
  by (induction ks arbitrary: m) (auto simp: invalidate_get option.map_comp comp_def)

text \<open>
  Invalidation reaches every entry of the account, under its own key and under every key whose entry carries
  the account's identifier, and touches no other.
\<close>

lemma invalidateAccountCredits_get:
  assumes "gm_wf m" and "authID \<noteq> []" and "authUID \<noteq> authID"
  shows "gm_get (invalidateAccountCredits now authID authUID m) k =
    map_option (\<lambda>e. if k = authID \<or> authUID \<noteq> [] \<and> ce_uid e = authUID
      then e\<lparr>ce_credits := None, ce_fetched := now\<rparr> else e) (gm_get m k)"
proof (cases "authUID = []")
  case True
  then show ?thesis
    using assms(2) by (cases "gm_get m k") (auto simp: invalidateAccountCredits_def invalidate_get)
next
  case False
  let ?m = "invalidateCredits now authID m"
  let ?ks = "map fst (filter (\<lambda>(k, e). ce_uid e = authUID \<and> k \<noteq> authID) ?m)"
  have wf: "gm_wf ?m" using assms(1) gm.wf_put by (auto simp: invalidateCredits_def split: option.splits)
  have ks: "k \<in> set ?ks \<longleftrightarrow> k \<noteq> authID \<and> (\<exists>e. gm_get ?m k = Some e \<and> ce_uid e = authUID)"
    using wf by (force simp: gm_wf_def)
  have res: "invalidateAccountCredits now authID authUID m = foldl (\<lambda>m k. invalidateCredits now k m) ?m ?ks"
    using False assms(2,3) by (simp add: invalidateAccountCredits_def Let_def)
  show ?thesis
    unfolding res invalidate_all_get ks using False by (cases "gm_get m k") (auto simp: invalidate_get)
qed

text \<open>
  Dropping the credits does not make the next reader fetch them. The invalidation also renews the time of the
  entry, so that for the whole lifetime of an entry a reader without \<open>force\<close> is answered from the cache, with
  no credits at all, and no request is made.
\<close>

theorem invalidation_hides_credits:
  assumes "gm_get m authID = Some e" and "authID \<noteq> []" and "now \<le> t" and "t - now < accountCacheTTL"
  shows "detail_lookup authID False t (invalidateAccountCredits now authID [] m) =
    Inl \<lparr>ad_plan = ce_plan e, ad_checkin = ce_checkin e, ad_credits = None, ad_errs = []\<rparr>"
proof -
  have "Sub t now < accountCacheTTL"
    using assms(3,4) by (auto simp: Sub_def Let_def accountCacheTTL_def time_units maxDuration_def minDuration_def)
  then show ?thesis
    using assms(1,2) by (simp add: detail_lookup_def invalidateAccountCredits_def invalidate_get entry_details_def)
qed

text \<open>
  Credits that could not be fetched are carried over from the cache with the time of the failed fetch, so that
  their stamp does not say when they were read.
\<close>

theorem stale_credits_restamped:
  assumes "df_credits f = Inl err" and "ce_credits prev = Some cr"
  shows "ad_credits (detail_result fmt now (Some prev) f) = Some (cr\<lparr>cs_FetchedAt := fmt now\<rparr>) \<and>
    (\<exists>m \<in> set (ad_errs (detail_result fmt now (Some prev) f)). HasPrefix m ''credits:'')"
  using assms by (auto simp: detail_result_def Let_def carry_def right_def fetch_errors_def)

end
