(* ===== verification/Auth_File.thy ===== *)
theory Auth_File
  imports Go_Path Model_Store
begin

text \<open>
  The credential files of the accounts, after \<^verbatim>\<open>src/plugin/authfile.go\<close>, \<^verbatim>\<open>src/plugin/host_auth.go\<close> and
  \<open>parseStored\<close> of \<^verbatim>\<open>src/plugin/main.go\<close>: how a file is named, which paths may be deleted, how a file is
  rewritten without losing fields that the plugin does not own, and the calls to the host's auth store.

  The host and the disk are the argument \<open>host_world\<close>: what they answer to each call. What the plugin does
  to them is the list of effects that an operation returns, in order. The JSON codec is the argument \<open>lib\<close>;
  a document is a map from its top-level keys to raw JSON, as in the code.
\<close>

section \<open>The codec, the host and the disk\<close>

text \<open>
  \<open>aj_obj\<close> decodes into \<open>map[string]json.RawMessage\<close>; the value \<open>null\<close> decodes without error into a nil map, which
  reads as an empty one and panics when a key is stored (\<open>aj_null\<close>). \<open>aj_nested\<close> and \<open>aj_flat\<close> decode into the
  two structures of a stored credential, \<open>aj_auth\<close> and \<open>aj_account\<close> are the encoded members of one.
\<close>

record auth_json =
  aj_obj :: "string \<Rightarrow> (string, string) gomap option"
  aj_null :: "string \<Rightarrow> bool"
  aj_nested :: "string \<Rightarrow> storedAuth option"
  aj_flat :: "string \<Rightarrow> storedAuth option"
  aj_disabled :: "string \<Rightarrow> bool"
  aj_encode :: "(string, string) gomap \<Rightarrow> string"
  aj_auth :: "storedAuth \<Rightarrow> string"
  aj_account :: "storedAuth \<Rightarrow> string"
  aj_string :: "string \<Rightarrow> string"
  aj_bool :: "bool \<Rightarrow> string"

record hostAuthFileEntry =
  fe_ID :: string
  fe_AuthIndex :: string
  fe_Name :: string
  fe_Path :: string
  fe_Disabled :: bool

record rpcHostAuthGetResponse =
  gr_AuthIndex :: string
  gr_Name :: string
  gr_Path :: string
  gr_JSON :: string

record host_world =
  hw_list :: "hostAuthFileEntry list option"
  hw_get :: "string \<Rightarrow> rpcHostAuthGetResponse option"
  hw_save :: "string \<Rightarrow> string \<Rightarrow> bool"
  hw_read :: "string \<Rightarrow> string option"
  hw_remove :: "string \<Rightarrow> bool"

datatype host_effect = SaveAuth string string | RemoveFile string

section \<open>Names\<close>

definition authFileName :: string where "authFileName = ''workbuddy.json''"
definition pluginLogoURL :: string where
  "pluginLogoURL = ''https://raw.githubusercontent.com/DGZSbot/ai-icon/refs/heads/main/WorkBuddy.png''"

definition uid_char :: "char \<Rightarrow> bool" where
  "uid_char c = (word_char c \<or> c = CHR ''-'')"

text \<open>\<open>unsafeUIDChars.ReplaceAllString(uid, \"_\")\<close>: every run of other characters becomes one underscore.\<close>

fun unsafeUIDChars :: "bool \<Rightarrow> string \<Rightarrow> string" where
  "unsafeUIDChars run [] = []"
| "unsafeUIDChars run (c # cs) =
     (if uid_char c then c # unsafeUIDChars False cs
      else if run then unsafeUIDChars True cs
      else CHR ''_'' # unsafeUIDChars True cs)"

definition sanitizeUIDForFileName :: "string \<Rightarrow> string" where
  "sanitizeUIDForFileName uid =
     (let uid = unsafeUIDChars False (TrimSpace uid) in
      if uid = [] \<or> uid = ''.'' \<or> uid = ''..'' then [] else take 64 uid)"

definition authFileNameFor :: "storedAuth option \<Rightarrow> string" where
  "authFileNameFor sa = (case sa of
      None \<Rightarrow> authFileName
    | Some sa \<Rightarrow> (let uid = sanitizeUIDForFileName (sto_UID sa) in
        if uid \<noteq> [] then ''workbuddy-'' @ uid @ ''.json'' else authFileName))"

definition isLegacyWorkbuddyAuthName :: "string \<Rightarrow> bool" where
  "isLegacyWorkbuddyAuthName name = EqualFold (TrimSpace name) authFileName"

section \<open>Stored credentials\<close>

definition parseStored :: "auth_json \<Rightarrow> string \<Rightarrow> storedAuth option" where
  "parseStored lib raw =
     (if raw = [] then None
      else case aj_obj lib raw of
          None \<Rightarrow> None
        | Some probe \<Rightarrow>
            (case (if gm_get probe ''auth'' \<noteq> None then aj_nested lib raw else aj_flat lib raw) of
               None \<Rightarrow> None
             | Some sa \<Rightarrow> if sto_AccessToken sa = [] then None else Some sa))"

definition shouldDeleteLegacyForUID :: "auth_json \<Rightarrow> string \<Rightarrow> string \<Rightarrow> bool" where
  "shouldDeleteLegacyForUID lib raw uid =
     (let uid = TrimSpace uid in
      if uid = [] then False
      else case parseStored lib raw of
          None \<Rightarrow> False
        | Some sa \<Rightarrow> EqualFold (TrimSpace (sto_UID sa)) uid)"

definition parseDisabledFromAuthJSON :: "auth_json \<Rightarrow> string \<Rightarrow> bool" where
  "parseDisabledFromAuthJSON lib raw = aj_disabled lib raw"

section \<open>Reading from the host\<close>

record hostAuthPhysical =
  hp_AuthIndex :: string
  hp_Name :: string
  hp_Path :: string
  hp_JSON :: string
  hp_Disabled :: bool

definition hostAuthGetPhysical :: "auth_json \<Rightarrow> host_world \<Rightarrow> string \<Rightarrow> hostAuthPhysical option" where
  "hostAuthGetPhysical lib w authIndex = map_option (\<lambda>resp.
     \<lparr>hp_AuthIndex = gr_AuthIndex resp, hp_Name = gr_Name resp, hp_Path = gr_Path resp, hp_JSON = gr_JSON resp,
      hp_Disabled = parseDisabledFromAuthJSON lib (gr_JSON resp)\<rparr>) (hw_get w authIndex)"

definition isWorkbuddyAuthListName :: "string \<Rightarrow> bool" where
  "isWorkbuddyAuthListName name =
     (let name = ToLower (TrimSpace name) in name = authFileName \<or> HasPrefix name (providerName @ ''-''))"

definition hostAuthList :: "host_world \<Rightarrow> hostAuthFileEntry list option" where
  "hostAuthList w = map_option (filter (\<lambda>f. isWorkbuddyAuthListName (fe_Name f))) (hw_list w)"

definition hostAuthGet :: "auth_json \<Rightarrow> host_world \<Rightarrow> string \<Rightarrow> storedAuth option" where
  "hostAuthGet lib w authIndex = (case hostAuthGetPhysical lib w authIndex of
      None \<Rightarrow> None | Some phys \<Rightarrow> parseStored lib (hp_JSON phys))"

text \<open>Both the credential and the file, or an error.\<close>

definition hostAuthGetBundle :: "auth_json \<Rightarrow> host_world \<Rightarrow> string \<Rightarrow> (storedAuth \<times> hostAuthPhysical) option" where
  "hostAuthGetBundle lib w authIndex = (case hostAuthGetPhysical lib w authIndex of
      None \<Rightarrow> None
    | Some phys \<Rightarrow> (case parseStored lib (hp_JSON phys) of None \<Rightarrow> None | Some sa \<Rightarrow> Some (sa, phys)))"

definition requireWorkbuddyAuthIndex :: "host_world \<Rightarrow> string \<Rightarrow> hostAuthFileEntry option" where
  "requireWorkbuddyAuthIndex w authIndex = (case hostAuthList w of
      None \<Rightarrow> None | Some files \<Rightarrow> find (\<lambda>f. fe_AuthIndex f = authIndex) files)"

definition listEntryMatchesUID :: "hostAuthFileEntry \<Rightarrow> string \<Rightarrow> string \<Rightarrow> bool" where
  "listEntryMatchesUID f uid wantName =
     (if uid = [] then False
      else if EqualFold (fe_Name f) wantName \<or> EqualFold (fe_ID f) wantName then True
      else EqualFold (TrimSuffix (fe_Name f) ''.json'') (''workbuddy-'' @ uid))"

section \<open>Where a file is written\<close>

text \<open>The name, the path and the legacy path, which is empty unless the file has to be migrated.\<close>

definition resolveAuthFileTarget ::
  "storedAuth option \<Rightarrow> hostAuthPhysical option \<Rightarrow> string \<times> string \<times> string" where
  "resolveAuthFileTarget sa phys = (case phys of
      None \<Rightarrow> (authFileNameFor sa, [], [])
    | Some phys \<Rightarrow>
        (let path = TrimSpace (hp_Path phys); physName = TrimSpace (hp_Name phys);
             name = (if physName \<noteq> [] \<and> \<not> isLegacyWorkbuddyAuthName physName then physName else authFileNameFor sa);
             legacy = isLegacyWorkbuddyAuthName physName \<or> isLegacyWorkbuddyAuthName (Base path)
         in (name, path, if legacy \<and> (case sa of None \<Rightarrow> False | Some sa \<Rightarrow> TrimSpace (sto_UID sa) \<noteq> []) then path else [])))"

section \<open>Which paths may be deleted\<close>

definition isSafeWorkbuddyAuthPath :: "string \<Rightarrow> bool" where
  "isSafeWorkbuddyAuthPath path =
     (let path = TrimSpace path; base = Base path; lower = ToLower base in
      path \<noteq> [] \<and> \<not> Contains path ''../'' \<and> \<not> Contains path ''/..'' \<and>
      (HasPrefix lower ''workbuddy-'' \<or> lower = ''workbuddy.json'') \<and> HasSuffix lower ''.json'' \<and>
      base = Base (Clean path))"

definition isPathUnder :: "string \<Rightarrow> string \<Rightarrow> bool" where
  "isPathUnder path dir =
     (let path = TrimSpace path; dir = TrimSpace dir in
      if dir = [] then True
      else if Clean path = Clean dir then False
      else case Rel (Clean dir) (Clean path) of
          None \<Rightarrow> False
        | Some rel \<Rightarrow> rel \<noteq> ''.'' \<and> \<not> HasPrefix rel ''..'' \<and> \<not> Contains rel ''/..'')"

text \<open>A missing file is a success of \<open>hw_remove\<close>.\<close>

definition deleteAuthFileAt :: "host_world \<Rightarrow> string \<Rightarrow> bool \<times> host_effect list" where
  "deleteAuthFileAt w path =
     (if \<not> isSafeWorkbuddyAuthPath path then (False, []) else (hw_remove w path, [RemoveFile path]))"

definition deleteAuthFileInDir :: "host_world \<Rightarrow> string \<Rightarrow> string \<Rightarrow> bool \<times> host_effect list" where
  "deleteAuthFileInDir w path dir =
     (if \<not> isSafeWorkbuddyAuthPath path then (False, [])
      else if \<not> IsAbs path then (False, [])
      else if dir \<noteq> [] \<and> \<not> isPathUnder path dir then (False, [])
      else (hw_remove w path, [RemoveFile path]))"

section \<open>Writing through the host\<close>

definition hostAuthSaveJSON :: "host_world \<Rightarrow> string \<Rightarrow> string \<Rightarrow> bool \<times> host_effect list" where
  "hostAuthSaveJSON w name raw =
     (let name = TrimSpace name in
      if name = [] then (False, []) else (hw_save w name raw, [SaveAuth name raw]))"

definition hostAuthPersist :: "host_world \<Rightarrow> string \<Rightarrow> string \<Rightarrow> bool \<times> host_effect list" where
  "hostAuthPersist w name raw =
     (let name = TrimSpace name in if name = [] then (False, []) else hostAuthSaveJSON w name raw)"

definition migrate_legacy :: "auth_json \<Rightarrow> host_world \<Rightarrow> string \<Rightarrow> string \<Rightarrow> string \<Rightarrow> host_effect list" where
  "migrate_legacy lib w name legacyPath raw =
     (if legacyPath \<noteq> [] \<and> \<not> EqualFold (Base legacyPath) name then
        (case (parseStored lib raw, hw_read w legacyPath) of
           (Some target, Some legacyRaw) \<Rightarrow>
             if shouldDeleteLegacyForUID lib legacyRaw (sto_UID target)
             then snd (deleteAuthFileInDir w legacyPath (Dir legacyPath)) else []
         | _ \<Rightarrow> [])
      else [])"

definition hostAuthPersistMigrate ::
  "auth_json \<Rightarrow> host_world \<Rightarrow> string \<Rightarrow> string \<Rightarrow> string \<Rightarrow> bool \<times> host_effect list" where
  "hostAuthPersistMigrate lib w name legacyPath raw = (case hostAuthPersist w name raw of
      (False, fx) \<Rightarrow> (False, fx)
    | (True, fx) \<Rightarrow> (True, fx @ migrate_legacy lib w name legacyPath raw))"

section \<open>Building a file\<close>

definition mergeStoredAuthFieldsRaw ::
  "auth_json \<Rightarrow> (string, string) gomap \<Rightarrow> storedAuth \<Rightarrow> (string, string) gomap" where
  "mergeStoredAuthFieldsRaw lib doc sa =
     (let doc = gm_put ''account'' (aj_account lib sa) (gm_put ''auth'' (aj_auth lib sa) doc) in
      if sto_DeviceToken sa \<noteq> [] then gm_put ''device_token'' (aj_string lib (sto_DeviceToken sa)) doc else doc)"

definition metadata_fields :: "auth_json \<Rightarrow> bool \<Rightarrow> string \<Rightarrow> (string \<times> string) list" where
  "metadata_fields lib disabled note =
     [(''type'', aj_string lib providerName), (''provider'', aj_string lib providerName),
      (''logo'', aj_string lib pluginLogoURL), (''disabled'', aj_bool lib disabled), (''note'', aj_string lib note)]"

definition put_all :: "(string \<times> string) list \<Rightarrow> (string, string) gomap \<Rightarrow> (string, string) gomap" where
  "put_all fs doc = foldl (\<lambda>d (k, v). gm_put k v d) doc fs"

text \<open>The document that is written, from the decoded physical file.\<close>

definition auth_document ::
  "auth_json \<Rightarrow> (string, string) gomap \<Rightarrow> storedAuth \<Rightarrow> bool \<Rightarrow> string \<Rightarrow> (string \<times> string) list \<Rightarrow> (string, string) gomap" where
  "auth_document lib doc sa disabled note extra =
     put_all extra (put_all (metadata_fields lib disabled note) (mergeStoredAuthFieldsRaw lib doc sa))"

definition buildAuthFileJSONPreserving ::
  "auth_json \<Rightarrow> string \<Rightarrow> storedAuth option \<Rightarrow> bool \<Rightarrow> string \<Rightarrow> (string \<times> string) list \<Rightarrow> string option" where
  "buildAuthFileJSONPreserving lib physical sa disabled note extra = (case sa of
      None \<Rightarrow> None
    | Some sa \<Rightarrow>
        if TrimSpace physical \<noteq> [] then
          (case aj_obj lib physical of
             None \<Rightarrow> None
           | Some doc \<Rightarrow> Some (aj_encode lib (auth_document lib doc sa disabled note extra)))
        else Some (aj_encode lib (auth_document lib [] sa disabled note extra)))"

definition buildAuthFileJSON ::
  "auth_json \<Rightarrow> storedAuth option \<Rightarrow> bool \<Rightarrow> string \<Rightarrow> (string \<times> string) list \<Rightarrow> string option" where
  "buildAuthFileJSON lib sa disabled note extra = buildAuthFileJSONPreserving lib [] sa disabled note extra"

text \<open>An operation that may fail or store into a nil map.\<close>

datatype 'a go_result = Returns 'a | Fails | Panics

definition buildRefreshedAuthJSON :: "auth_json \<Rightarrow> string \<Rightarrow> storedAuth option \<Rightarrow> string go_result" where
  "buildRefreshedAuthJSON lib physical sa = (case sa of
      None \<Rightarrow> Fails
    | Some sa \<Rightarrow> (case aj_obj lib physical of
          None \<Rightarrow> Fails
        | Some doc \<Rightarrow> if aj_null lib physical then Panics
            else Returns (aj_encode lib (mergeStoredAuthFieldsRaw lib doc sa))))"

end
