(* ===== verification/Lifecycle.thy ===== *)
theory Lifecycle
  imports Auth_File Account_Cache
begin

text \<open>
  The lifecycle of accounts by their credits, after \<^verbatim>\<open>src/plugin/lifecycle.go\<close> and \<open>displayNote\<close> of
  \<^verbatim>\<open>src/plugin/policy.go\<close>: an exhausted account of the CN service is disabled and enabled again when it has
  credits, an exhausted account of the global service is deleted, and the note on its card is kept current.

  \<open>life\<close> holds the package variables. The clock is a function of the number of the reading, so that every reading
  is arbitrary; the host is asked twice in a reconciliation, and the two answers are independent worlds. An
  operation returns whether it succeeded, the new state and its effects on the host and the disk, in order.
\<close>

record lifecycleStateEntry =
  le_disabled :: bool
  le_note :: string
  le_at :: gtime

record life =
  lf_auto :: bool
  lf_state :: "(string, lifecycleStateEntry) gomap"
  lf_cache :: account_cache
  lf_active :: string

definition lifecycleSaveTTL :: duration where "lifecycleSaveTTL = 30 * Second"

section \<open>Notes\<close>

definition note_sep :: string where
  "note_sep = [CHR 0x20, CHR 0xC2, CHR 0xB7, CHR 0x20]"
definition note_disabled :: string where
  "note_disabled = [CHR 0xE5, CHR 0xB7, CHR 0xB2, CHR 0xE7, CHR 0xA6, CHR 0x81, CHR 0xE7, CHR 0x94, CHR 0xA8]"
definition note_unknown :: string where
  "note_unknown = [CHR 0xE7, CHR 0xA7, CHR 0xAF, CHR 0xE5, CHR 0x88, CHR 0x86, CHR 0xE6, CHR 0x9C, CHR 0xAA,
     CHR 0xE7, CHR 0x9F, CHR 0xA5]"
definition note_exhausted :: string where
  "note_exhausted = [CHR 0xE8, CHR 0x80, CHR 0x97, CHR 0xE5, CHR 0xB0, CHR 0xBD]"
definition note_remain :: string where
  "note_remain = [CHR 0xE4, CHR 0xBD, CHR 0x99]"
definition note_used :: string where
  "note_used = [CHR 0xE5, CHR 0xB7, CHR 0xB2, CHR 0xE7, CHR 0x94, CHR 0xA8]"
definition note_pool :: string where
  "note_pool = [CHR 0xE6, CHR 0xB1, CHR 0xA0]"
definition note_manual :: string where
  "note_manual = [CHR 0xE6, CHR 0x89, CHR 0x8B, CHR 0xE5, CHR 0x8A, CHR 0xA8, CHR 0xE5, CHR 0x81, CHR 0x9C,
     CHR 0xE7, CHR 0x94, CHR 0xA8]"
definition note_no_path :: string where
  "note_no_path = [CHR 0xE5, CHR 0xBA, CHR 0x94, CHR 0xE5, CHR 0x88, CHR 0xA0, CHR 0xE9, CHR 0x99, CHR 0xA4,
     CHR 0xE4, CHR 0xBD, CHR 0x86, CHR 0xE6, CHR 0x97, CHR 0xA0] @ '' path''"

definition balance_note :: "creditsSummary \<Rightarrow> string" where
  "balance_note c = note_remain @ show_int (cs_TotalRemain c) @ '' '' @ note_used @ show_int (cs_TotalUsed c)"

definition displayNote :: "storedAuth \<Rightarrow> creditsSummary option \<Rightarrow> bool \<Rightarrow> string" where
  "displayNote sa cr disabled =
     (let region = (if accountRegion sa = ''cn'' then ''CN'' else ''Global'');
          balance = (case cr of
              None \<Rightarrow> note_unknown
            | Some c \<Rightarrow>
                if isCreditsExhausted cr then note_exhausted @ note_sep @ balance_note c
                else if cs_TotalSize c > 0 then balance_note c @ '' '' @ note_pool @ show_int (cs_TotalSize c)
                else balance_note c);
          note = join_with note_sep ([region] @ (if disabled then [note_disabled] else []) @ [balance])
      in if length note > 80 then take 77 note @ ''...'' else note)"

definition appendNote :: "string \<Rightarrow> string \<Rightarrow> string" where
  "appendNote note extra =
     (let extra = TrimSpace extra in
      if extra = [] \<or> Contains note extra then note
      else if length note + length extra \<ge> 75 then note
      else if note = [] then extra
      else note @ note_sep @ extra)"

section \<open>The last state written\<close>

definition lifecycleStateUnchanged :: "gtime \<Rightarrow> life \<Rightarrow> string \<Rightarrow> bool \<Rightarrow> string \<Rightarrow> bool" where
  "lifecycleStateUnchanged now st authID disabled note = (case gm_get (lf_state st) authID of
      None \<Rightarrow> False
    | Some e \<Rightarrow> \<not> (le_disabled e \<noteq> disabled \<or> le_note e \<noteq> note) \<and> Sub now (le_at e) < lifecycleSaveTTL)"

definition rememberLifecycleState :: "gtime \<Rightarrow> string \<Rightarrow> bool \<Rightarrow> string \<Rightarrow> life \<Rightarrow> life" where
  "rememberLifecycleState now authID disabled note st =
     st\<lparr>lf_state := gm_put authID \<lparr>le_disabled = disabled, le_note = note, le_at = now\<rparr> (lf_state st)\<rparr>"

definition pruneLifecycleState :: "gtime \<Rightarrow> host_world \<Rightarrow> life \<Rightarrow> life" where
  "pruneLifecycleState now w st = (case hostAuthList w of
      None \<Rightarrow> st
    | Some files \<Rightarrow> st\<lparr>lf_state := filter (\<lambda>(k, e). k \<in> fe_ID ` set files \<and> \<not> Sub now (le_at e) > 10 * Minute) (lf_state st)\<rparr>)"

section \<open>Disabling, enabling, deleting\<close>

text \<open>Building the file, writing it and remembering what was written, which three operations do alike.\<close>

definition write_auth ::
  "auth_json \<Rightarrow> host_world \<Rightarrow> gtime \<Rightarrow> string \<Rightarrow> storedAuth \<Rightarrow> hostAuthPhysical option \<Rightarrow> bool \<Rightarrow> string \<Rightarrow> life \<Rightarrow>
   bool \<times> life \<times> host_effect list" where
  "write_auth lib w now authID sa phys disabled note st =
     (case resolveAuthFileTarget (Some sa) phys of (name, path, legacyPath) \<Rightarrow>
        (case buildAuthFileJSONPreserving lib (case phys of None \<Rightarrow> [] | Some p \<Rightarrow> hp_JSON p) (Some sa) disabled note [] of
           None \<Rightarrow> (False, st, [])
         | Some raw \<Rightarrow> (case hostAuthPersistMigrate lib w name legacyPath raw of
               (False, fx) \<Rightarrow> (False, st, fx)
             | (True, fx) \<Rightarrow> (True, rememberLifecycleState now authID disabled note st, fx))))"

definition drop_cached :: "string \<Rightarrow> bool \<times> life \<times> host_effect list \<Rightarrow> bool \<times> life \<times> host_effect list" where
  "drop_cached authID r = (case r of
      (True, st, fx) \<Rightarrow> (True, st\<lparr>lf_cache := gm_del authID (lf_cache st)\<rparr>, fx)
    | (False, st, fx) \<Rightarrow> (False, st, fx))"

definition disableAuth ::
  "auth_json \<Rightarrow> host_world \<Rightarrow> (nat \<Rightarrow> gtime) \<Rightarrow> string \<Rightarrow> string \<Rightarrow> storedAuth \<Rightarrow> creditsSummary option \<Rightarrow> string \<Rightarrow> life \<Rightarrow>
   bool \<times> life \<times> host_effect list" where
  "disableAuth lib w t authIndex authID sa cr reason st =
     (let note = displayNote sa cr True;
          note = (if reason \<noteq> [] \<and> \<not> Contains note reason \<and> length note + length reason < 75
                  then note @ note_sep @ reason else note)
      in if lifecycleStateUnchanged (t 0) st authID True note then (True, st, [])
         else let phys = hostAuthGetPhysical lib w authIndex in
           if (case phys of None \<Rightarrow> False | Some p \<Rightarrow> parseDisabledFromAuthJSON lib (hp_JSON p)) \<and>
              lifecycleStateUnchanged (t 1) st authID True note then (True, st, [])
           else drop_cached authID (write_auth lib w (t 2) authID sa phys True note st))"

definition reenableAuth ::
  "auth_json \<Rightarrow> host_world \<Rightarrow> (nat \<Rightarrow> gtime) \<Rightarrow> string \<Rightarrow> string \<Rightarrow> storedAuth \<Rightarrow> creditsSummary option \<Rightarrow> life \<Rightarrow>
   bool \<times> life \<times> host_effect list" where
  "reenableAuth lib w t authIndex authID sa cr st =
     (if \<not> shouldReenableCN True cr then (True, st, [])
      else let note = displayNote sa cr False in
        if lifecycleStateUnchanged (t 0) st authID False note then (True, st, [])
        else drop_cached authID (write_auth lib w (t 2) authID sa (hostAuthGetPhysical lib w authIndex) False note st))"

definition peerAuthDir :: "host_world \<Rightarrow> string" where
  "peerAuthDir w = (case hostAuthList w of
      None \<Rightarrow> []
    | Some files \<Rightarrow> (case find (\<lambda>f. TrimSpace (fe_Path f) \<noteq> []) files of
          None \<Rightarrow> [] | Some f \<Rightarrow> Dir (TrimSpace (fe_Path f))))"

definition forget :: "string \<Rightarrow> life \<Rightarrow> life" where
  "forget authID st = st\<lparr>lf_cache := gm_del authID (lf_cache st), lf_active := clearActiveAuthIfMatch authID (lf_active st)\<rparr>"

definition canonical_name :: "storedAuth \<Rightarrow> hostAuthPhysical \<Rightarrow> string" where
  "canonical_name sa phys =
     (if hp_Name phys \<noteq> [] \<and> \<not> isLegacyWorkbuddyAuthName (hp_Name phys) then hp_Name phys else authFileNameFor (Some sa))"

text \<open>The path to delete: what the host says, or the canonical name beside another account's file.\<close>

definition delete_path :: "host_world \<Rightarrow> storedAuth \<Rightarrow> hostAuthPhysical \<Rightarrow> string" where
  "delete_path w sa phys =
     (let path = TrimSpace (hp_Path phys) in
      if path \<noteq> [] then path
      else let name = canonical_name sa phys; dir = peerAuthDir w in
        if dir \<noteq> [] \<and> name \<noteq> [] \<and> isSafeWorkbuddyAuthPath (PathJoin dir name) then PathJoin dir name else [])"

definition disable_without_path ::
  "auth_json \<Rightarrow> host_world \<Rightarrow> gtime \<Rightarrow> string \<Rightarrow> storedAuth \<Rightarrow> hostAuthPhysical \<Rightarrow> life \<Rightarrow> bool \<times> life \<times> host_effect list" where
  "disable_without_path lib w now authID sa phys st =
     (let note = displayNote sa None True @ note_sep @ note_no_path in
      case buildAuthFileJSONPreserving lib (hp_JSON phys) (Some sa) True note [] of
        None \<Rightarrow> (False, st, [])
      | Some raw \<Rightarrow> (case hostAuthPersistMigrate lib w (canonical_name sa phys) [] raw of
            (False, fx) \<Rightarrow> (False, st, fx)
          | (True, fx) \<Rightarrow> (True, forget authID (rememberLifecycleState now authID True note st), fx)))"

definition delete_legacy :: "auth_json \<Rightarrow> host_world \<Rightarrow> storedAuth \<Rightarrow> string \<Rightarrow> host_effect list" where
  "delete_legacy lib w sa path =
     (if TrimSpace (sto_UID sa) \<noteq> [] \<and> Dir path \<noteq> [] then
        (let legacy = PathJoin (Dir path) authFileName in
         case hw_read w legacy of
           None \<Rightarrow> []
         | Some raw \<Rightarrow> if shouldDeleteLegacyForUID lib raw (sto_UID sa)
             then snd (deleteAuthFileInDir w legacy (Dir path)) else [])
      else [])"

definition deleteAuth ::
  "auth_json \<Rightarrow> host_world \<Rightarrow> (nat \<Rightarrow> gtime) \<Rightarrow> string \<Rightarrow> string \<Rightarrow> storedAuth \<Rightarrow> life \<Rightarrow> bool \<times> life \<times> host_effect list" where
  "deleteAuth lib w t authIndex authID sa st = (case hostAuthGetPhysical lib w authIndex of
      None \<Rightarrow> (False, st, [])
    | Some phys \<Rightarrow>
        (let path = delete_path w sa phys in
         if path = [] then disable_without_path lib w (t 2) authID sa phys st
         else case deleteAuthFileInDir w path (Dir path) of
             (False, fx) \<Rightarrow> (False, st, fx)
           | (True, fx) \<Rightarrow> (True, forget authID (st\<lparr>lf_state := gm_del authID (lf_state st)\<rparr>),
               fx @ delete_legacy lib w sa path)))"

definition applyExhaustedPolicy ::
  "auth_json \<Rightarrow> host_world \<Rightarrow> (nat \<Rightarrow> gtime) \<Rightarrow> string \<Rightarrow> string \<Rightarrow> storedAuth \<Rightarrow> creditsSummary option \<Rightarrow> string \<Rightarrow> life \<Rightarrow>
   bool \<times> life \<times> host_effect list" where
  "applyExhaustedPolicy lib w t authIndex authID sa cr reason st =
     (if \<not> lf_auto st then (True, st, [])
      else case lifecycleActionFor (accountRegion sa) cr of
          lifecycleDelete \<Rightarrow> deleteAuth lib w t authIndex authID sa st
        | lifecycleDisable \<Rightarrow> disableAuth lib w t authIndex authID sa cr reason st
        | _ \<Rightarrow> (True, st, []))"

section \<open>The note\<close>

definition auth_note :: "(string \<Rightarrow> bool) \<Rightarrow> storedAuth \<Rightarrow> creditsSummary option \<Rightarrow> bool \<Rightarrow> string" where
  "auth_note manual sa cr disabled =
     (let note = displayNote sa cr disabled in if manual (sto_UID sa) then appendNote note note_manual else note)"

definition syncAuthNote ::
  "auth_json \<Rightarrow> host_world \<Rightarrow> (string \<Rightarrow> bool) \<Rightarrow> (nat \<Rightarrow> gtime) \<Rightarrow> string \<Rightarrow> string \<Rightarrow> storedAuth \<Rightarrow> creditsSummary option \<Rightarrow>
   bool \<Rightarrow> life \<Rightarrow> bool \<times> life \<times> host_effect list" where
  "syncAuthNote lib w manual t authIndex authID sa cr disabled st =
     (if lifecycleStateUnchanged (t 0) st authID disabled (auth_note manual sa cr disabled) then (True, st, [])
      else let phys = hostAuthGetPhysical lib w authIndex;
               disabled = (case phys of None \<Rightarrow> disabled | Some p \<Rightarrow> parseDisabledFromAuthJSON lib (hp_JSON p));
               note = auth_note manual sa cr disabled
           in if lifecycleStateUnchanged (t 1) st authID disabled note then (True, st, [])
              else write_auth lib w (t 2) authID sa phys disabled note st)"

section \<open>Reconciliation\<close>

definition creditsErrorsBlockLifecycle :: "string list \<Rightarrow> bool" where
  "creditsErrorsBlockLifecycle errs = list_ex (\<lambda>m. HasPrefix m ''credits:'') errs"

text \<open>
  The surroundings of one reconciliation: the host when the account is read (\<open>ri_bundle\<close>) and when it is changed
  (\<open>ri_world\<close>), the clock, the answers of the upstream to the fetch of the details and to the second query of the
  credits (\<open>ri_confirm\<close>, nothing on an error), and whether the operator has switched an account off.
\<close>

record reconcile_input =
  ri_bundle :: host_world
  ri_world :: host_world
  ri_clock :: "nat \<Rightarrow> gtime"
  ri_fetch :: details_fetch
  ri_order :: "string list"
  ri_fmt :: "gtime \<Rightarrow> string"
  ri_confirm :: "creditsSummary option"
  ri_manual :: "string \<Rightarrow> bool"

text \<open>Credits from the cache, unless they are forced.\<close>

definition cached_credits :: "gtime \<Rightarrow> bool \<Rightarrow> string \<Rightarrow> life \<Rightarrow> creditsSummary option" where
  "cached_credits now force authID st =
     (if force then None
      else case gm_get (lf_cache st) authID of
          None \<Rightarrow> None
        | Some e \<Rightarrow> if ce_credits e \<noteq> None \<and> Sub now (ce_fetched e) < accountCacheTTL then ce_credits e else None)"

definition known_credits ::
  "reconcile_input \<Rightarrow> bool \<Rightarrow> string \<Rightarrow> storedAuth \<Rightarrow> life \<Rightarrow> creditsSummary option \<times> life" where
  "known_credits inp force authID sa st = (case cached_credits (ri_clock inp 3) force authID st of
      Some cr \<Rightarrow> (Some cr, st)
    | None \<Rightarrow>
        (case cachedAccountDetails (ri_fmt inp) (ri_order inp) authID (sto_UID sa) True (ri_clock inp 4) (ri_clock inp 5)
             (ri_fetch inp) (lf_cache st) of (d, m) \<Rightarrow>
           (if creditsErrorsBlockLifecycle (ad_errs d) then None else ad_credits d, st\<lparr>lf_cache := m\<rparr>)))"

definition apply_lifecycle ::
  "auth_json \<Rightarrow> reconcile_input \<Rightarrow> string \<Rightarrow> string \<Rightarrow> storedAuth \<Rightarrow> bool \<Rightarrow> creditsSummary \<Rightarrow> life \<Rightarrow>
   lifecycleAction \<times> bool \<times> life \<times> host_effect list" where
  "apply_lifecycle lib inp authIndex authID sa disabled cr st =
     (let region = accountRegion sa; w = ri_world inp; t = ri_clock inp in
      if region = ''cn'' \<and> disabled then
        (if shouldReenableCN True (Some cr) then (lifecycleReenable, reenableAuth lib w t authIndex authID sa (Some cr) st)
         else (lifecycleNone, True, snd (syncAuthNote lib w (ri_manual inp) t authIndex authID sa (Some cr) True st)))
      else case lifecycleActionFor region (Some cr) of
          lifecycleDelete \<Rightarrow>
            if ri_confirm inp = None \<or> \<not> isCreditsExhausted (ri_confirm inp) then (lifecycleNone, True, st, [])
            else (lifecycleDelete, deleteAuth lib w t authIndex authID sa st)
        | lifecycleDisable \<Rightarrow> (lifecycleDisable, disableAuth lib w t authIndex authID sa (Some cr) note_exhausted st)
        | _ \<Rightarrow> (lifecycleNone, True, snd (syncAuthNote lib w (ri_manual inp) t authIndex authID sa (Some cr) False st)))"

definition reconcileOneAccount ::
  "auth_json \<Rightarrow> reconcile_input \<Rightarrow> string \<Rightarrow> string \<Rightarrow> bool \<Rightarrow> life \<Rightarrow> lifecycleAction \<times> bool \<times> life \<times> host_effect list" where
  "reconcileOneAccount lib inp authIndex authID force st =
     (if \<not> lf_auto st then (lifecycleNone, True, st, [])
      else case hostAuthGetBundle lib (ri_bundle inp) authIndex of
          None \<Rightarrow> (lifecycleNone, False, st, [])
        | Some (sa, phys) \<Rightarrow> (case known_credits inp force authID sa st of
              (None, st) \<Rightarrow> (lifecycleNone, True, st, [])
            | (Some cr, st) \<Rightarrow> apply_lifecycle lib inp authIndex authID sa (hp_Disabled phys) cr st))"

text \<open>All accounts in turn; \<open>inp\<close> gives the surroundings of each.\<close>

fun reconcile_each ::
  "auth_json \<Rightarrow> (nat \<Rightarrow> reconcile_input) \<Rightarrow> bool \<Rightarrow> nat \<Rightarrow> hostAuthFileEntry list \<Rightarrow> life \<Rightarrow>
   (string \<times> string \<times> bool) list \<times> life \<times> host_effect list" where
  "reconcile_each lib inp force i [] st = ([], st, [])"
| "reconcile_each lib inp force i (f # files) st =
     (case reconcileOneAccount lib (inp i) (fe_AuthIndex f) (fe_ID f) force st of (act, ok, st, fx) \<Rightarrow>
        (case reconcile_each lib inp force (Suc i) files st of (rows, st, fx') \<Rightarrow>
           ((if act \<noteq> lifecycleNone \<or> \<not> ok then (fe_AuthIndex f, lifecycleAction_String act, ok) # rows else rows), st, fx @ fx')))"

definition reconcileAllAccounts ::
  "auth_json \<Rightarrow> host_world \<Rightarrow> (nat \<Rightarrow> reconcile_input) \<Rightarrow> bool \<Rightarrow> life \<Rightarrow>
   (string \<times> string \<times> bool) list option \<times> life \<times> host_effect list" where
  "reconcileAllAccounts lib w inp force st =
     (if \<not> lf_auto st then (Some [], st, [])
      else case hostAuthList w of
          None \<Rightarrow> (None, st, [])
        | Some files \<Rightarrow> (case reconcile_each lib inp force 0 files st of (rows, st, fx) \<Rightarrow> (Some rows, st, fx)))"

section \<open>After an error of the upstream\<close>

text \<open>The index and the identifier of the account that an executor names; both are empty if there is none.\<close>

definition find_listed :: "string \<Rightarrow> hostAuthFileEntry list \<Rightarrow> hostAuthFileEntry option" where
  "find_listed authID files = find (\<lambda>f. fe_AuthIndex f = authID \<or> fe_ID f = authID \<or> fe_Name f = authID \<or>
     listEntryMatchesUID f authID (''workbuddy-'' @ authID @ ''.json'')) files"

definition resolveAuthIndexAndID :: "auth_json \<Rightarrow> host_world \<Rightarrow> string \<Rightarrow> string \<times> string" where
  "resolveAuthIndexAndID lib w authID =
     (let authID = TrimSpace authID in
      if authID = [] then ([], [])
      else if hostAuthGet lib w authID \<noteq> None then
        (authID, case Option.bind (hostAuthList w) (find (\<lambda>f. fe_AuthIndex f = authID)) of None \<Rightarrow> [] | Some f \<Rightarrow> fe_ID f)
      else case hostAuthList w of
          None \<Rightarrow> ([], [])
        | Some files \<Rightarrow> (case find_listed authID files of
              Some f \<Rightarrow> (fe_AuthIndex f, fe_ID f)
            | None \<Rightarrow> (case find (\<lambda>f. case hostAuthGet lib w (fe_AuthIndex f) of
                    None \<Rightarrow> False | Some sa \<Rightarrow> TrimSpace (sto_UID sa) = authID) files of
                  Some f \<Rightarrow> (fe_AuthIndex f, fe_ID f)
                | None \<Rightarrow> ([], []))))"

definition reconcile_resolved ::
  "auth_json \<Rightarrow> host_world \<Rightarrow> reconcile_input \<Rightarrow> string \<Rightarrow> life \<Rightarrow> life \<times> host_effect list" where
  "reconcile_resolved lib w inp authID st = (case resolveAuthIndexAndID lib w authID of (idx, i) \<Rightarrow>
     if idx = [] then (st, [])
     else case reconcileOneAccount lib inp idx i True st of (_, _, st, fx) \<Rightarrow> (st, fx))"

definition reconcileAfterExecutorError ::
  "auth_json \<Rightarrow> host_world \<Rightarrow> reconcile_input \<Rightarrow> string \<Rightarrow> int \<Rightarrow> string \<Rightarrow> life \<Rightarrow> life \<times> host_effect list" where
  "reconcileAfterExecutorError lib w inp authID status body st =
     (if \<not> lf_auto st \<or> TrimSpace authID = [] then (st, [])
      else if isSoftRateLimit status body \<and> \<not> isHardCreditError status body then (st, [])
      else if \<not> isHardCreditError status body then (st, [])
      else reconcile_resolved lib w inp authID st)"

definition reconcileByUID ::
  "auth_json \<Rightarrow> host_world \<Rightarrow> reconcile_input \<Rightarrow> string \<Rightarrow> int \<Rightarrow> string \<Rightarrow> life \<Rightarrow> life \<times> host_effect list" where
  "reconcileByUID lib w inp uid status body st =
     (let uid = TrimSpace uid in
      if uid = [] \<or> \<not> lf_auto st then (st, [])
      else if \<not> isHardCreditError status body then (st, [])
      else reconcile_resolved lib w inp uid st)"

end
