(* ===== verification/Lifecycle_Props.thy ===== *)
theory Lifecycle_Props
  imports Lifecycle
begin

text \<open>
  The properties of the credential files and of the lifecycle: what may be deleted and when, what a rewritten
  file keeps, and what the reconciliation does when the credits are not known.
\<close>

section \<open>Effects\<close>

lemma delete_effects:
  "e \<in> set (snd (deleteAuthFileInDir w path dir)) \<Longrightarrow>
   e = RemoveFile path \<and> isSafeWorkbuddyAuthPath path \<and> IsAbs path"
  by (auto simp: deleteAuthFileInDir_def split: if_splits)

lemma persist_effects:
  "hostAuthPersist w name raw = (b, fx) \<Longrightarrow>
   fx = [] \<and> \<not> b \<or> TrimSpace name \<noteq> [] \<and> fx = [SaveAuth (TrimSpace name) raw] \<and> b = hw_save w (TrimSpace name) raw"
  by (auto simp: hostAuthPersist_def hostAuthSaveJSON_def Let_def TrimSpace_idem split: if_splits)

text \<open>
  A file is migrated away only after the credential has been saved under another name, and only if it holds
  the same account.
\<close>

definition same_account :: "auth_json \<Rightarrow> string \<Rightarrow> string \<Rightarrow> bool" where
  "same_account lib raw old = (case (parseStored lib raw, parseStored lib old) of
      (Some target, Some sa) \<Rightarrow> EqualFold (TrimSpace (sto_UID sa)) (TrimSpace (sto_UID target))
    | _ \<Rightarrow> False)"

definition migrated :: "auth_json \<Rightarrow> host_world \<Rightarrow> host_effect list \<Rightarrow> string \<Rightarrow> bool" where
  "migrated lib w fx p = (\<exists>name raw old. SaveAuth name raw \<in> set fx \<and> hw_save w name raw \<and>
     \<not> EqualFold (Base p) name \<and> hw_read w p = Some old \<and> same_account lib raw old)"

lemma legacy_same_account:
  "parseStored lib raw = Some target \<Longrightarrow> shouldDeleteLegacyForUID lib old (sto_UID target) \<Longrightarrow> same_account lib raw old"
  by (simp add: shouldDeleteLegacyForUID_def same_account_def Let_def split: if_splits option.splits)

lemma migrate_legacy_cases:
  "migrate_legacy lib w name legacyPath raw = [] \<or>
   \<not> EqualFold (Base legacyPath) name \<and> (\<exists>old. hw_read w legacyPath = Some old \<and> same_account lib raw old) \<and>
   migrate_legacy lib w name legacyPath raw = snd (deleteAuthFileInDir w legacyPath (Dir legacyPath))"
  by (cases "parseStored lib raw"; cases "hw_read w legacyPath")
    (simp_all add: migrate_legacy_def legacy_same_account)

lemma legacy_effects:
  "e \<in> set (migrate_legacy lib w name legacyPath raw) \<Longrightarrow>
   e = RemoveFile legacyPath \<and> isSafeWorkbuddyAuthPath legacyPath \<and> IsAbs legacyPath \<and>
   \<not> EqualFold (Base legacyPath) name \<and> (\<exists>old. hw_read w legacyPath = Some old \<and> same_account lib raw old)"
  using migrate_legacy_cases [of lib w name legacyPath raw] delete_effects [of e w legacyPath "Dir legacyPath"] by auto

lemma migrate_effects:
  assumes "hostAuthPersistMigrate lib w name legacyPath raw = (b, fx)" and "TrimSpace name = name"
  shows "RemoveFile p \<in> set fx \<Longrightarrow> isSafeWorkbuddyAuthPath p \<and> IsAbs p \<and> migrated lib w fx p"
    and "SaveAuth n r \<in> set fx \<Longrightarrow> n = name \<and> r = raw"
proof -
  obtain b0 fx0 where p: "hostAuthPersist w name raw = (b0, fx0)" by (metis surj_pair)
  note saved = persist_effects [OF p]
  have fx: "fx = (if b0 then fx0 @ migrate_legacy lib w name legacyPath raw else fx0)"
    using assms(1) p by (auto simp: hostAuthPersistMigrate_def split: bool.splits)
  note legacy = legacy_effects [of _ lib w name legacyPath raw]
  {
    assume "RemoveFile p \<in> set fx"
    then have b0: b0 and "RemoveFile p \<in> set (migrate_legacy lib w name legacyPath raw)"
      using fx saved by (auto split: if_splits)
    moreover from this have "SaveAuth name raw \<in> set fx" "hw_save w name raw" using saved fx assms(2) by auto
    ultimately show "isSafeWorkbuddyAuthPath p \<and> IsAbs p \<and> migrated lib w fx p"
      using legacy [of "RemoveFile p"]
      unfolding migrated_def by auto
  }
  assume "SaveAuth n r \<in> set fx"
  then have "SaveAuth n r \<in> set fx0" using fx legacy by (auto split: if_splits)
  then show "n = name \<and> r = raw" using saved assms(2) by auto
qed

text \<open>The names that are written are trimmed.\<close>

lemma authFileNameFor_trimmed: "TrimSpace (authFileNameFor sa) = authFileNameFor sa"
proof -
  have "TrimSpace (''workbuddy-'' @ u @ ''.json'') = ''workbuddy-'' @ u @ ''.json''" for u
    by (rule TrimSpace_id) (auto simp: is_space_def)
  moreover have "TrimSpace authFileName = authFileName"
    by (simp add: authFileName_def TrimSpace_def is_space_def)
  ultimately show ?thesis by (simp add: authFileNameFor_def Let_def split: option.splits)
qed

lemma target_trimmed: "resolveAuthFileTarget sa phys = (name, path, legacy) \<Longrightarrow> TrimSpace name = name"
  by (auto simp: resolveAuthFileTarget_def Let_def authFileNameFor_trimmed TrimSpace_idem split: option.splits if_splits)

definition only_migrates :: "auth_json \<Rightarrow> host_world \<Rightarrow> host_effect list \<Rightarrow> bool" where
  "only_migrates lib w fx = (\<forall>p. RemoveFile p \<in> set fx \<longrightarrow> isSafeWorkbuddyAuthPath p \<and> IsAbs p \<and> migrated lib w fx p)"

lemma only_migrates_Nil: "only_migrates lib w []"
  by (simp add: only_migrates_def)

lemma write_effects: "only_migrates lib w (snd (snd (write_auth lib w now authID sa phys disabled note st)))"
proof -
  obtain name path legacy where t: "resolveAuthFileTarget (Some sa) phys = (name, path, legacy)" by (metis prod_cases3)
  show ?thesis
  proof (cases "buildAuthFileJSONPreserving lib (case phys of None \<Rightarrow> [] | Some p \<Rightarrow> hp_JSON p) (Some sa) disabled note []")
    case None
    with t show ?thesis by (simp add: write_auth_def only_migrates_Nil)
  next
    case (Some raw)
    obtain b fx where m: "hostAuthPersistMigrate lib w name legacy raw = (b, fx)" by (metis surj_pair)
    have "snd (snd (write_auth lib w now authID sa phys disabled note st)) = fx"
      using Some t m by (simp add: write_auth_def split: bool.splits)
    with migrate_effects(1) [OF m target_trimmed [OF t]] show ?thesis unfolding only_migrates_def by simp
  qed
qed

lemma drop_cached_effects: "snd (snd (drop_cached authID r)) = snd (snd r)"
  by (auto simp: drop_cached_def split: prod.splits bool.splits)

text \<open>The three operations that only rewrite a file remove nothing but a migrated one.\<close>

lemma rewrite_effects:
  shows disable_effects: "only_migrates lib w (snd (snd (disableAuth lib w t authIndex authID sa cr reason st)))"
    and reenable_effects: "only_migrates lib w (snd (snd (reenableAuth lib w t authIndex authID sa cr st)))"
    and sync_effects: "only_migrates lib w (snd (snd (syncAuthNote lib w manual t authIndex authID sa cr disabled st)))"
  by (simp_all add: disableAuth_def reenableAuth_def syncAuthNote_def Let_def drop_cached_effects write_effects only_migrates_Nil)

text \<open>Deleting an account removes safe absolute paths only.\<close>

lemma remove_effects:
  assumes "RemoveFile p \<in> set (snd (snd (deleteAuth lib w t authIndex authID sa st)))"
  shows "isSafeWorkbuddyAuthPath p \<and> IsAbs p"
proof (cases "hostAuthGetPhysical lib w authIndex")
  case None
  with assms show ?thesis by (simp add: deleteAuth_def)
next
  case (Some phys)
  show ?thesis
  proof (cases "delete_path w sa phys = []")
    case True
    have no: "RemoveFile p \<notin> set (snd (hostAuthPersistMigrate lib w n [] raw))" for n raw
      using persist_effects [of w n raw]
      by (cases "hostAuthPersist w n raw") (auto simp: hostAuthPersistMigrate_def migrate_legacy_def split: bool.splits)
    with assms Some True show ?thesis
      by (auto simp: deleteAuth_def disable_without_path_def Let_def split: option.splits prod.splits bool.splits)
        (metis no snd_conv)+
  next
    case False
    define path where "path = delete_path w sa phys"
    have "set (snd (snd (deleteAuth lib w t authIndex authID sa st))) \<subseteq>
        set (snd (deleteAuthFileInDir w path (Dir path))) \<union> set (delete_legacy lib w sa path)"
      using Some False unfolding path_def by (auto simp: deleteAuth_def Let_def split: prod.splits bool.splits)
    with assms consider "RemoveFile p \<in> set (snd (deleteAuthFileInDir w path (Dir path)))"
      | "RemoveFile p \<in> set (snd (deleteAuthFileInDir w (PathJoin (Dir path) authFileName) (Dir path)))"
      by (auto simp: delete_legacy_def Let_def split: if_splits option.splits)
    then show ?thesis by cases (auto dest!: delete_effects)
  qed
qed

section \<open>When a file is deleted\<close>

lemma apply_cn_disabled:
  assumes "accountRegion sa = ''cn''" and "disabled"
  shows "only_migrates lib (ri_world inp) (snd (snd (snd (apply_lifecycle lib inp authIndex authID sa disabled cr st))))"
  using assms rewrite_effects by (simp add: apply_lifecycle_def Let_def)

lemma apply_effects:
  assumes "apply_lifecycle lib inp authIndex authID sa disabled cr st = (act, ok, st', fx)" and "RemoveFile p \<in> set fx"
  obtains (del) "act = lifecycleDelete" "lifecycleActionFor (accountRegion sa) (Some cr) = lifecycleDelete"
      "isCreditsExhausted (ri_confirm inp)" "fx = snd (snd (deleteAuth lib (ri_world inp) (ri_clock inp) authIndex authID sa st))"
    | (rewrite) "only_migrates lib (ri_world inp) fx"
proof (cases "accountRegion sa = ''cn'' \<and> disabled")
  case True
  with assms apply_cn_disabled [of sa disabled lib inp authIndex authID cr st] show ?thesis by (intro rewrite) simp
next
  case False
  show ?thesis
  proof (cases "lifecycleActionFor (accountRegion sa) (Some cr)")
    case lifecycleDelete
    with assms False show ?thesis by (intro del) (auto simp: apply_lifecycle_def split: if_splits)
  next
    case lifecycleDisable
    with assms False disable_effects [of lib "ri_world inp" "ri_clock inp" authIndex authID sa "Some cr" note_exhausted st]
    show ?thesis by (intro rewrite) (simp add: apply_lifecycle_def)
  next
    case lifecycleNone
    with assms False sync_effects [of lib "ri_world inp" "ri_manual inp" "ri_clock inp" authIndex authID sa "Some cr" False st]
    show ?thesis by (intro rewrite) (simp add: apply_lifecycle_def)
  next
    case lifecycleReenable
    then show ?thesis by (simp add: lifecycleActionFor_def split: if_splits)
  qed
qed

lemma reconcile_acts:
  assumes "reconcileOneAccount lib inp authIndex authID force st = (act, ok, st', fx)" and "fx \<noteq> []"
  obtains sa phys cr st1 where "lf_auto st" "hostAuthGetBundle lib (ri_bundle inp) authIndex = Some (sa, phys)"
    "known_credits inp force authID sa st = (Some cr, st1)"
    "apply_lifecycle lib inp authIndex authID sa (hp_Disabled phys) cr st1 = (act, ok, st', fx)"
  using assms by (auto simp: reconcileOneAccount_def split: if_splits option.splits prod.splits)

text \<open>
  (C16) Deletion is confirmed: a reconciliation deletes a file only if the lifecycle is switched on and the path is
  an absolute one of a credential file, and either the account is of the global service, the credits known for it
  are exhausted and a second query finds them exhausted again, or the same account has just been saved under
  another name.
\<close>

theorem deletion_confirmed:
  assumes run: "reconcileOneAccount lib inp authIndex authID force st = (act, ok, st', fx)"
    and removed: "RemoveFile p \<in> set fx"
  shows "lf_auto st \<and> isSafeWorkbuddyAuthPath p \<and> IsAbs p \<and>
    (act = lifecycleDelete \<and> isCreditsExhausted (ri_confirm inp) \<and>
       (case hostAuthGetBundle lib (ri_bundle inp) authIndex of
          None \<Rightarrow> False
        | Some (sa, phys) \<Rightarrow> accountRegion sa = ''global'' \<and> isCreditsExhausted (fst (known_credits inp force authID sa st)))
     \<or> migrated lib (ri_world inp) fx p)"
proof -
  obtain sa phys cr st1 where a: "lf_auto st" "hostAuthGetBundle lib (ri_bundle inp) authIndex = Some (sa, phys)"
      "known_credits inp force authID sa st = (Some cr, st1)"
      "apply_lifecycle lib inp authIndex authID sa (hp_Disabled phys) cr st1 = (act, ok, st', fx)"
    using reconcile_acts [OF run] removed by (metis empty_iff empty_set)
  from a(4) removed show ?thesis
  proof (cases rule: apply_effects)
    case del
    have "accountRegion sa = ''global''" "isCreditsExhausted (Some cr)"
      using del(2) by (simp_all add: lifecycleActionFor_def shouldActOnCredits_def split: if_splits)
    with del removed remove_effects a show ?thesis by simp
  next
    case rewrite
    with removed a show ?thesis by (simp add: only_migrates_def)
  qed
qed

section \<open>When the credits are not known\<close>

lemma credits_error_blocks: "df_credits f = Inl e \<Longrightarrow> creditsErrorsBlockLifecycle (fetch_errors f)"
  by (auto simp: creditsErrorsBlockLifecycle_def fetch_errors_def Let_def split: sum.splits)

lemma known_credits_error:
  assumes "df_credits (ri_fetch inp) = Inl err" and "cached_credits (ri_clock inp 3) force authID st = None"
  shows "known_credits inp force authID sa st = (None, st\<lparr>lf_cache := snd (cachedAccountDetails (ri_fmt inp) (ri_order inp) authID
     (sto_UID sa) True (ri_clock inp 4) (ri_clock inp 5) (ri_fetch inp) (lf_cache st))\<rparr>)"
proof -
  obtain d m where d: "cachedAccountDetails (ri_fmt inp) (ri_order inp) authID (sto_UID sa) True (ri_clock inp 4) (ri_clock inp 5)
      (ri_fetch inp) (lf_cache st) = (d, m)" by (metis surj_pair)
  then have "ad_errs d = fetch_errors (ri_fetch inp)"
    by (auto simp: cachedAccountDetails_def detail_lookup_def detail_result_def Let_def split: option.splits)
  with d credits_error_blocks [OF assms(1)] assms(2) show ?thesis by (simp add: known_credits_def)
qed

text \<open>
  (C18) Unknown credits change nothing: if the query of the credits fails, and the cache holds none that are fresh,
  no file is written or deleted, no account is switched, and the selection stays as it was.
\<close>

theorem unknown_credits_untouched:
  assumes "reconcileOneAccount lib inp authIndex authID force st = (act, ok, st', fx)"
    and "df_credits (ri_fetch inp) = Inl err" and "cached_credits (ri_clock inp 3) force authID st = None"
  shows "act = lifecycleNone \<and> fx = [] \<and> lf_state st' = lf_state st \<and> lf_active st' = lf_active st"
  using assms(1) known_credits_error [OF assms(2,3)]
  by (auto simp: reconcileOneAccount_def split: if_splits option.splits prod.splits)

section \<open>What a rewritten file holds\<close>

text \<open>The keys that the plugin owns, and the file that a rewrite starts from.\<close>

definition owned_keys :: "string list" where
  "owned_keys = [''auth'', ''account'', ''device_token'', ''type'', ''provider'', ''logo'', ''disabled'', ''note'']"

definition base_document :: "auth_json \<Rightarrow> host_world \<Rightarrow> string \<Rightarrow> (string, string) gomap option" where
  "base_document lib w authIndex = (case hostAuthGetPhysical lib w authIndex of
      None \<Rightarrow> Some []
    | Some p \<Rightarrow> if TrimSpace (hp_JSON p) \<noteq> [] then aj_obj lib (hp_JSON p) else Some [])"

definition rewritten :: "auth_json \<Rightarrow> host_world \<Rightarrow> string \<Rightarrow> storedAuth \<Rightarrow> string \<Rightarrow> bool" where
  "rewritten lib w authIndex sa raw = (\<exists>doc disabled note. base_document lib w authIndex = Some doc \<and>
     raw = aj_encode lib (auth_document lib doc sa disabled note []))"

lemma auth_document_get:
  "gm_get (auth_document lib doc sa disabled note []) k =
    (if k = ''auth'' then Some (aj_auth lib sa)
     else if k = ''account'' then Some (aj_account lib sa)
     else if k = ''type'' \<or> k = ''provider'' then Some (aj_string lib providerName)
     else if k = ''logo'' then Some (aj_string lib pluginLogoURL)
     else if k = ''disabled'' then Some (aj_bool lib disabled)
     else if k = ''note'' then Some (aj_string lib note)
     else if k = ''device_token'' \<and> sto_DeviceToken sa \<noteq> [] then Some (aj_string lib (sto_DeviceToken sa))
     else gm_get doc k)"
  by (simp add: auth_document_def mergeStoredAuthFieldsRaw_def metadata_fields_def put_all_def Let_def)

lemma build_rewrites:
  assumes "buildAuthFileJSONPreserving lib (case hostAuthGetPhysical lib w authIndex of None \<Rightarrow> [] | Some p \<Rightarrow> hp_JSON p)
      (Some sa) disabled note [] = Some raw"
  shows "rewritten lib w authIndex sa raw"
  using assms unfolding rewritten_def base_document_def buildAuthFileJSONPreserving_def
  by (auto split: option.splits if_splits)

definition only_rewrites :: "auth_json \<Rightarrow> host_world \<Rightarrow> string \<Rightarrow> storedAuth \<Rightarrow> host_effect list \<Rightarrow> bool" where
  "only_rewrites lib w authIndex sa fx = (\<forall>n r. SaveAuth n r \<in> set fx \<longrightarrow> rewritten lib w authIndex sa r)"

lemma only_rewrites_Nil: "only_rewrites lib w authIndex sa []"
  by (simp add: only_rewrites_def)

lemma write_rewrites:
  "only_rewrites lib w authIndex sa
     (snd (snd (write_auth lib w now authID sa (hostAuthGetPhysical lib w authIndex) disabled note st)))"
proof -
  let ?phys = "hostAuthGetPhysical lib w authIndex"
  obtain name path legacy where t: "resolveAuthFileTarget (Some sa) ?phys = (name, path, legacy)" by (metis prod_cases3)
  show ?thesis
  proof (cases "buildAuthFileJSONPreserving lib (case ?phys of None \<Rightarrow> [] | Some p \<Rightarrow> hp_JSON p) (Some sa) disabled note []")
    case None
    with t show ?thesis by (simp add: write_auth_def only_rewrites_Nil)
  next
    case (Some raw)
    obtain b fx where m: "hostAuthPersistMigrate lib w name legacy raw = (b, fx)" by (metis surj_pair)
    have "snd (snd (write_auth lib w now authID sa ?phys disabled note st)) = fx"
      using Some t m by (simp add: write_auth_def split: bool.splits)
    with migrate_effects(2) [OF m target_trimmed [OF t]] build_rewrites [OF Some] show ?thesis
      unfolding only_rewrites_def by auto
  qed
qed

lemma rewrite_saves:
  shows disable_saves: "only_rewrites lib w authIndex sa (snd (snd (disableAuth lib w t authIndex authID sa cr reason st)))"
    and reenable_saves: "only_rewrites lib w authIndex sa (snd (snd (reenableAuth lib w t authIndex authID sa cr st)))"
    and sync_saves: "only_rewrites lib w authIndex sa (snd (snd (syncAuthNote lib w manual t authIndex authID sa cr disabled st)))"
  by (simp_all add: disableAuth_def reenableAuth_def syncAuthNote_def Let_def drop_cached_effects write_rewrites only_rewrites_Nil)

text \<open>Deletion saves a file only when it has no path, and then the file that the host returned.\<close>

lemma delete_no_save: "SaveAuth n r \<notin> set (snd (deleteAuthFileInDir w path dir))"
  by (auto dest: delete_effects)

lemma delete_legacy_no_save: "SaveAuth n r \<notin> set (delete_legacy lib w sa path)"
  using delete_no_save by (cases "hw_read w (PathJoin (Dir path) authFileName)") (simp_all add: delete_legacy_def Let_def)

lemma persist_no_path: "SaveAuth n r \<in> set (snd (hostAuthPersistMigrate lib w name [] raw)) \<Longrightarrow> r = raw"
  using persist_effects [of w name raw]
  by (cases "hostAuthPersist w name raw") (auto simp: hostAuthPersistMigrate_def migrate_legacy_def split: bool.splits)

lemma disable_without_path_saves:
  assumes "hostAuthGetPhysical lib w authIndex = Some phys"
  shows "only_rewrites lib w authIndex sa (snd (snd (disable_without_path lib w now authID sa phys st)))"
proof -
  let ?note = "displayNote sa None True @ note_sep @ note_no_path"
  show ?thesis
  proof (cases "buildAuthFileJSONPreserving lib (hp_JSON phys) (Some sa) True ?note []")
    case None
    then show ?thesis by (simp add: disable_without_path_def only_rewrites_Nil)
  next
    case (Some raw)
    then have "snd (snd (disable_without_path lib w now authID sa phys st)) =
        snd (hostAuthPersistMigrate lib w (canonical_name sa phys) [] raw)"
      by (simp add: disable_without_path_def split: prod.splits bool.splits)
    moreover have "rewritten lib w authIndex sa raw" using build_rewrites [of lib w authIndex] Some assms by simp
    ultimately show ?thesis unfolding only_rewrites_def using persist_no_path by metis
  qed
qed

lemma delete_saves: "only_rewrites lib w authIndex sa (snd (snd (deleteAuth lib w t authIndex authID sa st)))"
proof (cases "hostAuthGetPhysical lib w authIndex")
  case None
  then show ?thesis by (simp add: deleteAuth_def only_rewrites_Nil)
next
  case (Some phys)
  show ?thesis
  proof (cases "delete_path w sa phys = []")
    case True
    with Some disable_without_path_saves [OF Some] show ?thesis by (simp add: deleteAuth_def)
  next
    case False
    with Some delete_no_save [of _ _ w "delete_path w sa phys" "Dir (delete_path w sa phys)"] delete_legacy_no_save
    show ?thesis by (auto simp: deleteAuth_def only_rewrites_def Let_def split: prod.splits bool.splits)
  qed
qed

lemma apply_saves:
  "only_rewrites lib (ri_world inp) authIndex sa (snd (snd (snd (apply_lifecycle lib inp authIndex authID sa disabled cr st))))"
proof (cases "accountRegion sa = ''cn'' \<and> disabled")
  case True
  with rewrite_saves show ?thesis by (simp add: apply_lifecycle_def Let_def)
next
  case False
  with rewrite_saves delete_saves show ?thesis
    by (cases "lifecycleActionFor (accountRegion sa) (Some cr)") (simp_all add: apply_lifecycle_def Let_def only_rewrites_Nil)
qed

text \<open>A rewrite of a document that changes the plugin's own keys only, and the device token only if there is another one.\<close>

definition preserves_document :: "auth_json \<Rightarrow> storedAuth \<Rightarrow> (string, string) gomap \<Rightarrow> (string, string) gomap \<Rightarrow> bool" where
  "preserves_document lib sa doc doc' =
     (gm_get doc' ''device_token'' =
        (if sto_DeviceToken sa = [] then gm_get doc ''device_token'' else Some (aj_string lib (sto_DeviceToken sa))) \<and>
      (\<forall>k. k \<notin> {''auth'', ''account'', ''device_token'', ''type'', ''provider'', ''logo'', ''disabled'', ''note''} \<longrightarrow>
         gm_get doc' k = gm_get doc k))"

lemma rewritten_document:
  assumes "rewritten lib w authIndex sa raw"
  shows "\<exists>doc doc'. base_document lib w authIndex = Some doc \<and> raw = aj_encode lib doc' \<and>
    gm_get doc' ''auth'' = Some (aj_auth lib sa) \<and> gm_get doc' ''account'' = Some (aj_account lib sa) \<and>
    preserves_document lib sa doc doc'"
proof -
  obtain doc dis txt1 where d: "base_document lib w authIndex = Some doc"
      "raw = aj_encode lib (auth_document lib doc sa dis txt1 [])"
    using assms unfolding rewritten_def by blast
  then show ?thesis
    by (intro exI [of _ doc] exI [of _ "auth_document lib doc sa dis txt1 []"])
      (simp add: auth_document_get preserves_document_def)
qed

text \<open>
  (C17) What a reconciliation saves. Every credential file that it saves holds the tokens and the account that were read. If
  the host returns the file again when it is to be changed, every key that the plugin does not own is as in that
  file, and a device token is replaced only by another one. If the host does not return it, nothing of the
  file is known and only the plugin's own keys are saved: this loses the others, against what the comment at
  \<open>buildAuthFileJSONPreserving\<close> promises.
\<close>

theorem credentials_preserved:
  assumes run: "reconcileOneAccount lib inp authIndex authID force st = (act, ok, st', fx)"
    and saved: "SaveAuth name raw \<in> set fx"
  shows "\<exists>sa phys doc'. hostAuthGetBundle lib (ri_bundle inp) authIndex = Some (sa, phys) \<and> raw = aj_encode lib doc' \<and>
    gm_get doc' ''auth'' = Some (aj_auth lib sa) \<and> gm_get doc' ''account'' = Some (aj_account lib sa) \<and>
    (case hostAuthGetPhysical lib (ri_world inp) authIndex of
       Some p \<Rightarrow> (\<exists>doc. (if TrimSpace (hp_JSON p) = [] then Some [] else aj_obj lib (hp_JSON p)) = Some doc \<and>
         preserves_document lib sa doc doc')
     | None \<Rightarrow> preserves_document lib sa [] doc')"
proof -
  obtain sa phys cr st1 where b: "hostAuthGetBundle lib (ri_bundle inp) authIndex = Some (sa, phys)"
      and "apply_lifecycle lib inp authIndex authID sa (hp_Disabled phys) cr st1 = (act, ok, st', fx)"
    using reconcile_acts [OF run] saved by (metis empty_iff empty_set)
  with apply_saves [of lib inp authIndex sa authID "hp_Disabled phys" cr st1] saved have "rewritten lib (ri_world inp) authIndex sa raw"
    by (simp add: only_rewrites_def)
  from rewritten_document [OF this] obtain doc doc' where d: "base_document lib (ri_world inp) authIndex = Some doc"
      "raw = aj_encode lib doc'" "gm_get doc' ''auth'' = Some (aj_auth lib sa)" "gm_get doc' ''account'' = Some (aj_account lib sa)"
      "preserves_document lib sa doc doc'" by blast
  have "case hostAuthGetPhysical lib (ri_world inp) authIndex of
       Some p \<Rightarrow> (\<exists>doc. (if TrimSpace (hp_JSON p) = [] then Some [] else aj_obj lib (hp_JSON p)) = Some doc \<and>
         preserves_document lib sa doc doc')
     | None \<Rightarrow> preserves_document lib sa [] doc'"
    using d(1,5) by (cases "hostAuthGetPhysical lib (ri_world inp) authIndex") (simp_all add: base_document_def split: if_splits)
  with b d(2-4) show ?thesis by blast
qed

section \<open>Concrete accounts\<close>

text \<open>An account of the global service whose file the host holds, with a codec that knows this file.\<close>

definition demo_stored :: "string \<Rightarrow> storedAuth" where
  "demo_stored domain = \<lparr>sto_AccessToken = ''t'', sto_RefreshToken = [], sto_ExpiresAt = 0, sto_Domain = domain, sto_UID = ''u'',
     sto_EnterpriseID = [], sto_Nickname = [], sto_DeviceToken = []\<rparr>"

definition demo_codec :: "string \<Rightarrow> auth_json" where
  "demo_codec domain = \<lparr>aj_obj = (\<lambda>s. Some [(''auth'', ''{}''), (''tags'', ''[]'')]), aj_null = (\<lambda>s. False),
     aj_nested = (\<lambda>s. Some (demo_stored domain)), aj_flat = (\<lambda>s. None), aj_disabled = (\<lambda>s. False),
     aj_encode = (\<lambda>d. concat (map fst d)), aj_auth = (\<lambda>sa. ''{}''), aj_account = (\<lambda>sa. ''{}''), aj_string = (\<lambda>s. s),
     aj_bool = (\<lambda>b. ''b'')\<rparr>"

definition demo_world :: host_world where
  "demo_world = \<lparr>hw_list = None, hw_get = (\<lambda>i. Some \<lparr>gr_AuthIndex = i, gr_Name = ''workbuddy-u.json'',
     gr_Path = ''/a/workbuddy-u.json'', gr_JSON = ''{}''\<rparr>), hw_save = (\<lambda>n r. True), hw_read = (\<lambda>p. None), hw_remove = (\<lambda>p. True)\<rparr>"

definition demo_balance :: "int \<Rightarrow> creditsSummary" where
  "demo_balance n = \<lparr>cs_TotalRemain = n, cs_TotalUsed = 5, cs_TotalSize = 5 + n, cs_PackCount = 1, cs_FetchedAt = [], cs_Packages = []\<rparr>"

definition demo_reconcile :: "string + creditsSummary \<Rightarrow> reconcile_input" where
  "demo_reconcile cr = \<lparr>ri_bundle = demo_world, ri_world = demo_world, ri_clock = (\<lambda>n. 0),
     ri_fetch = \<lparr>df_plan = [], df_checkin = Inl [], df_credits = cr, df_first = True\<rparr>, ri_order = [], ri_fmt = (\<lambda>t. []),
     ri_confirm = right cr, ri_manual = (\<lambda>u. False)\<rparr>"

definition demo_life :: life where
  "demo_life = \<lparr>lf_auto = True, lf_state = [], lf_cache = [], lf_active = []\<rparr>"

definition demo_run :: "string \<Rightarrow> string + creditsSummary \<Rightarrow> lifecycleAction \<times> bool \<times> life \<times> host_effect list" where
  "demo_run domain cr = reconcileOneAccount (demo_codec domain) (demo_reconcile cr) ''i'' ''d'' True demo_life"

lemma demo_deletes: "snd (snd (snd (demo_run ''workbuddy.ai'' (Inr (demo_balance 0))))) = [RemoveFile ''/a/workbuddy-u.json'']"
  by code_simp

lemma demo_disables: "snd (snd (snd (demo_run ''codebuddy.cn'' (Inr (demo_balance 0))))) =
    [SaveAuth ''workbuddy-u.json'' ''authtagsaccounttypeproviderlogodisablednote'']"
  by code_simp

lemma demo_unmigrated: "\<not> migrated lib demo_world fx p"
  by (simp add: migrated_def demo_world_def)

theorem deletion_confirmed_witness:
  "RemoveFile ''/a/workbuddy-u.json'' \<in> set (snd (snd (snd (demo_run ''workbuddy.ai'' (Inr (demo_balance 0)))))) \<and>
   fst (demo_run ''workbuddy.ai'' (Inr (demo_balance 0))) = lifecycleDelete \<and> isSafeWorkbuddyAuthPath ''/a/workbuddy-u.json''"
proof -
  obtain act ok st' fx where r: "demo_run ''workbuddy.ai'' (Inr (demo_balance 0)) = (act, ok, st', fx)" by (metis prod_cases4)
  moreover from r demo_deletes have "RemoveFile ''/a/workbuddy-u.json'' \<in> set fx" by simp
  moreover have "ri_world (demo_reconcile c) = demo_world" for c by (simp add: demo_reconcile_def)
  ultimately show ?thesis
    using deletion_confirmed [OF r [unfolded demo_run_def], of "''/a/workbuddy-u.json''"] demo_unmigrated by simp
qed

theorem unknown_credits_untouched_witness:
  "fst (demo_run ''workbuddy.ai'' (Inl ''down'')) = lifecycleNone \<and> snd (snd (snd (demo_run ''workbuddy.ai'' (Inl ''down'')))) = []"
proof -
  obtain act ok st' fx where r: "demo_run ''workbuddy.ai'' (Inl ''down'') = (act, ok, st', fx)" by (metis prod_cases4)
  then show ?thesis
    using unknown_credits_untouched [OF r [unfolded demo_run_def], of "''down''"] by (simp add: demo_reconcile_def cached_credits_def)
qed

theorem credentials_preserved_witness:
  "\<exists>doc'. snd (snd (snd (demo_run ''codebuddy.cn'' (Inr (demo_balance 0))))) = [SaveAuth ''workbuddy-u.json'' (aj_encode (demo_codec ''codebuddy.cn'') doc')] \<and>
     gm_get doc' ''tags'' = Some ''[]''"
proof -
  let ?raw = "''authtagsaccounttypeproviderlogodisablednote''"
  let ?p = "\<lparr>hp_AuthIndex = ''i'', hp_Name = ''workbuddy-u.json'', hp_Path = ''/a/workbuddy-u.json'', hp_JSON = ''{}'', hp_Disabled = False\<rparr>"
  obtain act ok st' fx where r: "demo_run ''codebuddy.cn'' (Inr (demo_balance 0)) = (act, ok, st', fx)" by (metis prod_cases4)
  with demo_disables have fx: "fx = [SaveAuth ''workbuddy-u.json'' ?raw]" by simp
  have p: "hostAuthGetPhysical (demo_codec ''codebuddy.cn'') demo_world ''i'' = Some ?p" by code_simp
  have o: "aj_obj (demo_codec ''codebuddy.cn'') s = Some [(''auth'', ''{}''), (''tags'', ''[]'')]" for s by (simp add: demo_codec_def)
  have w: "ri_world (demo_reconcile c) = demo_world" for c by (simp add: demo_reconcile_def)
  have t: "TrimSpace ''{}'' \<noteq> []" by code_simp
  have "SaveAuth ''workbuddy-u.json'' ?raw \<in> set fx" by (simp add: fx)
  from credentials_preserved [OF r [unfolded demo_run_def] this]
  obtain sa doc' where e: "?raw = aj_encode (demo_codec ''codebuddy.cn'') doc'"
      and keep: "preserves_document (demo_codec ''codebuddy.cn'') sa [(''auth'', ''{}''), (''tags'', ''[]'')] doc'"
    unfolding w p option.case using t o by auto
  have "gm_get doc' ''tags'' = Some ''[]''" using keep by (simp add: preserves_document_def)
  then show ?thesis using r unfolding fx by (intro exI [of _ doc']) (simp only: e [symmetric] snd_conv simp_thms)
qed

section \<open>Where the code and its comments differ\<close>

text \<open>
  The comments promise that a rewrite preserves the fields it does not own. When the host does not return the
  file, it is overwritten with the plugin's own keys only.
\<close>

theorem unread_file_overwritten:
  assumes "hw_get w authIndex = None" and "rewritten lib w authIndex sa raw"
  shows "\<exists>doc'. raw = aj_encode lib doc' \<and> (\<forall>k. k \<notin> set owned_keys \<longrightarrow> gm_get doc' k = None)"
proof -
  from assms obtain dis txt1 where "raw = aj_encode lib (auth_document lib [] sa dis txt1 [])"
    by (auto simp: rewritten_def base_document_def hostAuthGetPhysical_def)
  then show ?thesis
    by (intro exI [of _ "auth_document lib [] sa dis txt1 []"]) (simp add: auth_document_get owned_keys_def)
qed

lemma disable_overwrites:
  "hw_get demo_world1 ''i'' = None \<and>
   snd (snd (disableAuth (demo_codec ''codebuddy.cn'') demo_world1 (\<lambda>n. 0) ''i'' ''d'' (demo_stored ''codebuddy.cn'') None [] demo_life)) =
     [SaveAuth ''workbuddy-u.json'' ''authaccounttypeproviderlogodisablednote'']"
  if "demo_world1 = demo_world\<lparr>hw_get := (\<lambda>i. None)\<rparr>" for demo_world1
  unfolding that by code_simp

text \<open>Two accounts whose identifiers differ only in unsafe characters share one file.\<close>

theorem file_names_collide:
  "authFileNameFor (Some (demo_stored d\<lparr>sto_UID := ''a.b''\<rparr>)) = authFileNameFor (Some (demo_stored d\<lparr>sto_UID := ''a_b''\<rparr>))"
  by code_simp

text \<open>Any disabled account of the CN service that has credits is switched on again, whatever it was disabled for.\<close>

theorem disabled_reenabled:
  assumes "lf_auto st" and "hostAuthGetBundle lib (ri_bundle inp) authIndex = Some (sa, phys)" and "hp_Disabled phys"
    and "accountRegion sa = ''cn''" and "fst (known_credits inp force authID sa st) = Some cr" and "cs_TotalRemain cr > 0"
  shows "fst (reconcileOneAccount lib inp authIndex authID force st) = lifecycleReenable"
  using assms by (cases "known_credits inp force authID sa st")
    (simp add: reconcileOneAccount_def apply_lifecycle_def shouldReenableCN_def isCreditsExhausted_def)

text \<open>
  The deletion is said to be confined to a directory. Its callers pass the directory of the path itself, and every
  file lies in its own directory.
\<close>

lemma Clean_idem: "IsAbs p \<Longrightarrow> Clean (Clean p) = Clean p"
  using Clean_plain(1) [OF clean_segs_plain [of p]] by (auto simp: Clean_def IsAbs_def)

lemma IsAbs_Clean: "IsAbs p \<Longrightarrow> IsAbs (Clean p)"
  by (auto simp: Clean_def IsAbs_def)

theorem own_directory_confines_nothing:
  assumes "IsAbs (d @ ''/'')" and "plain_seg f" and "\<not> HasPrefix f ''..''"
    and "path = d @ ''/'' @ f" and "TrimSpace path = path" and "TrimSpace (Dir path) = Dir path"
  shows "isPathUnder path (Dir path)"
proof -
  have free: "slash \<notin> set f" using assms(2) by (simp add: plain_seg_def seg_ok_def)
  have abs: "IsAbs path" "IsAbs (Dir path)"
    using assms(1) IsAbs_dir [of d f] IsAbs_Clean Dir_file [OF free, of d] unfolding assms(4) by simp_all
  have "Clean path \<noteq> Clean (Dir path)" "Rel (Clean (Dir path)) (Clean path) = Some f"
    using Rel_own_dir [OF assms(1,2)] Clean_idem [OF abs(1)] Clean_idem [OF abs(2)] unfolding assms(4) by (simp_all add: Rel_def)
  moreover have "\<not> Contains f ''/..''" using free by (auto simp: Contains_append)
  moreover have "f \<noteq> ''.''" using assms(2) by (simp add: plain_seg_def seg_ok_def)
  ultimately show ?thesis using assms(3,5,6) by (simp add: isPathUnder_def Let_def)
qed

section \<open>Bounds\<close>

text \<open>
  Notes stay short: the note that is made for an account has at most eighty bytes, and a text is appended to
  it only while the whole stays below that.
\<close>

theorem note_bounded:
  "length (displayNote sa cr disabled) \<le> 80 \<and> length (auth_note manual sa cr disabled) \<le> 80"
proof -
  have d: "length (displayNote sa cr disabled) \<le> 80" by (simp add: displayNote_def Let_def)
  moreover have "length (appendNote n note_manual) \<le> 80" if "length n \<le> 80" for n
    using that by (auto simp: appendNote_def Let_def note_sep_def)
  ultimately show ?thesis by (simp add: auth_note_def Let_def)
qed

end
