(* ===== verification/Redact.thy ===== *)
theory Redact
  imports Sanitize
begin

text \<open>
  The removal of credentials from texts that are logged or shown, after \<^verbatim>\<open>src/plugin/redact.go\<close>, with the
  matchers of \<open>Sanitize\<close>. A repeated class is never followed by one of its own elements, so that taking as much as
  there is finds the match of the Go engine; only the closing word boundary of a token may have to step back.
  Case is folded on ASCII.
\<close>

section \<open>Pieces of expressions\<close>

text \<open>\<open>[A-Za-z0-9._\-+/=]\<close> and \<open>[A-Za-z0-9_\-]\<close>\<close>

definition token_char :: "char \<Rightarrow> bool" where
  "token_char c = (word_char c \<or> c \<in> set ''.-+/='')"

definition jwt_char :: "char \<Rightarrow> bool" where
  "jwt_char c = (word_char c \<or> c = CHR ''-'')"

definition run_of :: "(char \<Rightarrow> bool) \<Rightarrow> nat \<Rightarrow> string \<Rightarrow> string option" where
  "run_of p n s = (if n \<le> length (takeWhile p s) then Some (dropWhile p s) else None)"

definition byte :: "char list \<Rightarrow> string \<Rightarrow> string option" where
  "byte cs s = (case s of [] \<Rightarrow> None | c # r \<Rightarrow> if c \<in> set cs then Some r else None)"

definition opt_byte :: "char list \<Rightarrow> string \<Rightarrow> string" where
  "opt_byte cs s = (case byte cs s of None \<Rightarrow> s | Some r \<Rightarrow> r)"

definition is_word :: "char option \<Rightarrow> bool" where
  "is_word c = (case c of None \<Rightarrow> False | Some c \<Rightarrow> word_char c)"

text \<open>The longest run of at most \<open>k\<close> and at least \<open>n\<close> bytes that ends at a word boundary.\<close>

fun cut_boundary :: "nat \<Rightarrow> nat \<Rightarrow> string \<Rightarrow> string option" where
  "cut_boundary 0 n s = None"
| "cut_boundary (Suc k) n s =
     (if Suc k < n then None
      else if word_char (s ! k) \<noteq> is_word (if Suc k < length s then Some (s ! Suc k) else None) then Some (drop (Suc k) s)
      else cut_boundary k n s)"

definition jwt_end :: "nat \<Rightarrow> string \<Rightarrow> string option" where
  "jwt_end n s = cut_boundary (length (takeWhile jwt_char s)) n s"

text \<open>\<open>\beyJ[A-Za-z0-9_\-]{n,}\.\<close>\<close>

definition jwt_head :: "nat \<Rightarrow> char option \<Rightarrow> string \<Rightarrow> string option" where
  "jwt_head n before s =
     (if is_word before \<or> \<not> HasPrefix s ''eyJ'' then None
      else Option.bind (run_of jwt_char n (drop 3 s)) (byte ''.''))"

section \<open>The expressions\<close>

definition redactREBearer :: matcher where
  "redactREBearer before s =
     Option.bind (fold_lit ''Bearer'' s) (\<lambda>s. Option.bind (run_of is_re_space 1 s) (run_of token_char 12))"

definition redactREJWT :: matcher where
  "redactREJWT before s =
     Option.bind (jwt_head 10 before s) (\<lambda>s. Option.bind (run_of jwt_char 10 s) (\<lambda>s. Option.bind (byte ''.'' s) (jwt_end 10)))"

definition redactREJWTLoose :: matcher where
  "redactREJWTLoose before s = Option.bind (jwt_head 8 before s) (\<lambda>s.
     case Option.bind (run_of jwt_char 4 s) (\<lambda>s. Option.bind (byte ''.'' s) (jwt_end 4)) of
       Some r \<Rightarrow> Some r | None \<Rightarrow> jwt_end 4 s)"

definition token_keys :: "(string \<times> string) list" where
  "token_keys = [(''access'', ''token''), (''refresh'', ''token''), (''id'', ''token''), (''device'', ''token''),
     (''session'', ''token''), (''api'', ''key''), (''client'', ''secret''), (''authorization'', [])]"

definition token_key :: "string \<times> string \<Rightarrow> string \<Rightarrow> string option" where
  "token_key k s = Option.bind (fold_lit (fst k) s)
     (\<lambda>r. if snd k = [] then Some r else fold_lit (snd k) (opt_byte ''_-'' r))"

fun first_some :: "('a \<Rightarrow> 'b option) \<Rightarrow> 'a list \<Rightarrow> 'b option" where
  "first_some f [] = None"
| "first_some f (x # xs) = (case f x of Some y \<Rightarrow> Some y | None \<Rightarrow> first_some f xs)"

definition quote :: char where "quote = CHR 0x22"

text \<open>What follows the first group, and what follows the whole.\<close>

definition redactRETokenKV :: "string \<Rightarrow> (string \<times> string) option" where
  "redactRETokenKV s =
     Option.bind (first_some (\<lambda>k. token_key k (opt_byte [quote] s)) token_keys) (\<lambda>r.
     Option.bind (byte ''=:'' (dropWhile is_re_space (opt_byte [quote] r))) (\<lambda>r.
       let v = opt_byte [quote] (dropWhile is_re_space r) in map_option (\<lambda>r. (v, r)) (run_of token_char 12 v)))"

text \<open>\<open>ReplaceAllString(s, \"${1}***\")\<close>\<close>

function redact_values :: "string \<Rightarrow> string" where
  "redact_values s =
     (case s of [] \<Rightarrow> []
      | c # cs \<Rightarrow>
          (case redactRETokenKV s of
             Some (v, r) \<Rightarrow>
               if length r < length s then take (length s - length v) s @ ''***'' @ redact_values r else c # redact_values cs
           | None \<Rightarrow> c # redact_values cs))"
  by pat_completeness auto
termination
  by (relation "measure length") auto

declare redact_values.simps [simp del]

section \<open>Redaction\<close>

definition redactSecrets :: "string \<Rightarrow> string" where
  "redactSecrets s =
     (if s = [] then s
      else let s = replace_re redactREBearer ''Bearer ***'' None s;
               s = replace_re redactREJWT ''***jwt***'' None s;
               s = redact_values s
           in replace_re redactREJWTLoose ''***jwt***'' None s)"

definition truncate :: "string \<Rightarrow> nat \<Rightarrow> string" where
  "truncate s n = (if length s \<le> n then s else take n s)"

definition truncateRedacted :: "string \<Rightarrow> nat \<Rightarrow> string" where
  "truncateRedacted s n = truncate (redactSecrets s) n"

end
