(* ===== verification/Billing.thy ===== *)
theory Billing
  imports Redact Lifecycle
begin

text \<open>
  The billing calls, after \<^verbatim>\<open>src/plugin/billing.go\<close>: requests with retries, the check-in status, the packages
  of an account page by page and their totals, the credits of an enterprise account, and the claims of the daily
  check-in and of the trial.

  What the upstream answers is the argument \<open>w\<close>: the answer to an attempt of a call on a path, where an operation
  that calls a path several times numbers its calls. An answer that does not arrive is its error text. The JSON
  codec is the argument \<open>lib\<close>. Amounts are \<open>int64\<close> and wrap (\<open>wrap64\<close>); \<open>float64\<close> is \<open>rat\<close>.
\<close>

section \<open>Answers and their decoding\<close>

record billing_answer =
  ha_status :: int
  ha_body :: string

type_synonym billing_world = "string \<Rightarrow> nat \<Rightarrow> nat \<Rightarrow> string + billing_answer"

record apiEnvelope =
  env_Code :: int
  env_Msg :: string
  env_Data :: string

record resourcePackage =
  rp_PackageName :: string
  rp_CapacityRemain :: int
  rp_CapacityUsed :: int
  rp_CapacitySize :: int
  rp_CycleCapacityRemain :: int
  rp_CycleCapacityUsed :: int
  rp_CycleCapacitySize :: int
  rp_CycleStartTime :: string
  rp_CycleEndTime :: string
  rp_DeductionEndTime :: int
  rp_ExpiredTime :: string
  rp_PackageEndTime :: string

record resource_page =
  pg_TotalCount :: int
  pg_TotalDosage :: int
  pg_Accounts :: "resourcePackage list"

text \<open>
  \<open>bj_map\<close> decodes into \<open>map[string]any\<close>; \<open>Inr None\<close> is the value \<open>null\<close>, which decodes into a nil map. \<open>bj_int\<close> decodes
  into \<open>*int\<close>, \<open>bj_text\<close> gives the text of a number or a string, \<open>bj_float\<close> is \<open>strconv.ParseFloat\<close> without errors,
  infinities and NaN, \<open>bj_string\<close> decodes into a string.
\<close>

record billing_json = auth_json +
  bj_envelope :: "string \<Rightarrow> string + apiEnvelope"
  bj_map :: "string \<Rightarrow> string + (string \<times> json) list option"
  bj_page :: "string \<Rightarrow> string + resource_page"
  bj_int :: "string \<Rightarrow> int option"
  bj_text :: "string \<Rightarrow> string option"
  bj_float :: "string \<Rightarrow> rat option"
  bj_string :: "string \<Rightarrow> string option"

section \<open>Requests\<close>

definition billingHeaders :: "storedAuth \<Rightarrow> (string, string) gomap" where
  "billingHeaders sa =
     (let h = gm_put ''Content-Type'' ''application/json'' (gm_put ''Accept'' ''application/json''
                (gm_put ''Authorization'' (''Bearer '' @ sto_AccessToken sa) []));
          h = (if sto_UID sa \<noteq> [] then gm_put ''X-User-Id'' (sto_UID sa) h else h);
          h = (if sto_EnterpriseID sa \<noteq> [] then gm_put ''X-Tenant-Id'' (sto_EnterpriseID sa)
                 (gm_put ''X-Enterprise-Id'' (sto_EnterpriseID sa) h) else h);
          h = (if sto_Domain sa \<noteq> [] then gm_put ''X-Domain'' (sto_Domain sa) h else h)
      in if sto_DeviceToken sa \<noteq> [] then gm_put ''X-Device-Token'' (sto_DeviceToken sa) h else h)"

definition billingBaseFor :: "string \<Rightarrow> string \<Rightarrow> storedAuth option \<Rightarrow> string" where
  "billingBaseFor billingBase billingBaseGlobal sa = (case sa of
      None \<Rightarrow> billingBase
    | Some sa \<Rightarrow> if isGlobalDomain (sto_Domain sa) then billingBaseGlobal else billingBase)"

definition billingRetryDelays :: "duration list" where
  "billingRetryDelays = [300 * Millisecond, 900 * Millisecond]"

definition isTransientBillingErr :: "string \<Rightarrow> bool" where
  "isTransientBillingErr msg = (HasPrefix msg ''http 5'' \<or> HasPrefix msg ''http=5'' \<or> Contains msg ''status 5'')"

definition body_snippet :: "string \<Rightarrow> string" where
  "body_snippet raw = take 120 (TrimSpace (redactSecrets raw))"

definition billingCallOnce :: "'a billing_json_scheme \<Rightarrow> string \<Rightarrow> string + billing_answer \<Rightarrow> string + string" where
  "billingCallOnce lib path answer = (case answer of
      Inl err \<Rightarrow> Inl err
    | Inr resp \<Rightarrow>
        if ha_status resp \<ge> 500
        then Inl (''http '' @ show_int (ha_status resp) @ '' from '' @ path @ '': '' @ body_snippet (ha_body resp))
        else case bj_envelope lib (ha_body resp) of
            Inl err \<Rightarrow> Inl (''parse failed: '' @ err @ '' (body: '' @ body_snippet (ha_body resp) @ '')'')
          | Inr env \<Rightarrow>
              if env_Code env \<noteq> 0
              then Inl (''code='' @ show_int (env_Code env) @ '' msg='' @ truncateRedacted (env_Msg env) 120)
              else Inr (env_Data env))"

text \<open>The result and the number of attempts. \<open>n\<close> attempts have been made.\<close>

fun billing_retry ::
  "'a billing_json_scheme \<Rightarrow> string \<Rightarrow> (nat \<Rightarrow> string + billing_answer) \<Rightarrow> duration list \<Rightarrow> nat \<Rightarrow> string + string \<Rightarrow>
   (string + string) \<times> nat" where
  "billing_retry lib path answer [] n r = (r, n)"
| "billing_retry lib path answer (d # ds) n r =
     (case r of
        Inr data \<Rightarrow> (r, n)
      | Inl err \<Rightarrow> if \<not> isTransientBillingErr err then (r, n)
          else billing_retry lib path answer ds (Suc n) (billingCallOnce lib path (answer n)))"

definition billing_attempts ::
  "'a billing_json_scheme \<Rightarrow> string \<Rightarrow> (nat \<Rightarrow> string + billing_answer) \<Rightarrow> (string + string) \<times> nat" where
  "billing_attempts lib path answer =
     billing_retry lib path answer billingRetryDelays 1 (billingCallOnce lib path (answer 0))"

definition billingCall :: "'a billing_json_scheme \<Rightarrow> billing_world \<Rightarrow> string \<Rightarrow> nat \<Rightarrow> string + string" where
  "billingCall lib w path i = fst (billing_attempts lib path (w path i))"

section \<open>Loosely typed fields\<close>

fun jsonBool :: "(string \<times> json) list \<Rightarrow> string list \<Rightarrow> bool" where
  "jsonBool m [] = False"
| "jsonBool m (k # ks) = (case gm_get m k of
      Some (JBool b) \<Rightarrow> b
    | Some (JNum n) \<Rightarrow> n \<noteq> 0
    | Some (JStr s) \<Rightarrow> s = ''true'' \<or> s = ''1''
    | _ \<Rightarrow> jsonBool m ks)"

text \<open>\<open>int64(f)\<close>, which gives the least integer when the value does not fit, as on amd64.\<close>

definition float_int64 :: "rat \<Rightarrow> int" where
  "float_int64 x = (let n = (if 0 \<le> x then floor x else ceiling x) in if - (2 ^ 63) \<le> n \<and> n < 2 ^ 63 then n else - (2 ^ 63))"

text \<open>
  \<open>fmt.Sscanf(t, \"%d\", &n)\<close>: blanks but no line end, a sign, digits; nothing is stored when there are none or the
  number does not fit.
\<close>

definition digits_int :: "string \<Rightarrow> int" where
  "digits_int ds = foldl (\<lambda>n c. 10 * n + (of_char c - 48)) 0 ds"

definition sscanf_d :: "string \<Rightarrow> int" where
  "sscanf_d t =
     (let s = dropWhile (\<lambda>c. is_space c \<and> c \<noteq> CHR 0x0A) t;
          neg = HasPrefix s ''-'';
          ds = takeWhile is_digit (if neg \<or> HasPrefix s ''+'' then tl s else s);
          n = (if neg then - digits_int ds else digits_int ds)
      in if ds = [] \<or> n < - (2 ^ 63) \<or> 2 ^ 63 \<le> n then 0 else n)"

fun jsonI64 :: "(string \<times> json) list \<Rightarrow> string list \<Rightarrow> int" where
  "jsonI64 m [] = 0"
| "jsonI64 m (k # ks) = (case gm_get m k of
      Some (JNum n) \<Rightarrow> float_int64 n
    | Some (JStr s) \<Rightarrow> sscanf_d s
    | _ \<Rightarrow> jsonI64 m ks)"

fun jsonStr :: "(string \<times> json) list \<Rightarrow> string list \<Rightarrow> string" where
  "jsonStr m [] = []"
| "jsonStr m (k # ks) = (case gm_get m k of Some (JStr s) \<Rightarrow> s | _ \<Rightarrow> jsonStr m ks)"

section \<open>The check-in status\<close>

definition json_strings :: "json list \<Rightarrow> string list" where
  "json_strings xs = concat (map (\<lambda>v. case v of JStr s \<Rightarrow> [s] | _ \<Rightarrow> []) xs)"

definition checkin_dates :: "(string \<times> json) list \<Rightarrow> string list" where
  "checkin_dates m = (case gm_get m ''checkin_dates'' of
      Some (JArr xs) \<Rightarrow> json_strings xs
    | _ \<Rightarrow> (case gm_get m ''checkinDates'' of Some (JArr xs) \<Rightarrow> json_strings xs | _ \<Rightarrow> []))"

definition checkin_summary :: "(string \<times> json) list \<Rightarrow> checkinSummary" where
  "checkin_summary m =
     \<lparr>ck_Active = jsonBool m [''active'', ''Active''], ck_TodayCheckedIn = jsonBool m [''today_checked_in'', ''todayCheckedIn''],
      ck_StreakDays = jsonI64 m [''streak_days'', ''streakDays''], ck_DailyCredit = jsonI64 m [''daily_credit'', ''dailyCredit''],
      ck_TodayCredit = jsonI64 m [''today_credit'', ''todayCredit''], ck_TotalCredits = jsonI64 m [''total_credits'', ''totalCredits''],
      ck_WeekCheckinDays = jsonI64 m [''week_checkin_days'', ''weekCheckinDays''],
      ck_ActivityName = jsonStr m [''activity_name'', ''activityName''], ck_Season = jsonI64 m [''season'', ''season''],
      ck_CheckinDates = checkin_dates m\<rparr>"

definition fetchCheckinStatus :: "'a billing_json_scheme \<Rightarrow> billing_world \<Rightarrow> nat \<Rightarrow> string + checkinSummary" where
  "fetchCheckinStatus lib w i =
     (case (case billingCall lib w ''/v2/billing/meter/checkin-activity-status'' i of
              Inr data \<Rightarrow> Inr data
            | Inl _ \<Rightarrow> billingCall lib w ''/v2/billing/meter/checkin-status'' i) of
        Inl err \<Rightarrow> Inl err
      | Inr data \<Rightarrow> (case bj_map lib data of
            Inl err \<Rightarrow> Inl err
          | Inr m \<Rightarrow> Inr (checkin_summary (case m of None \<Rightarrow> [] | Some m \<Rightarrow> m))))"

section \<open>Packages\<close>

text \<open>Remain, used and size of one package.\<close>

definition cycle_figures :: "resourcePackage \<Rightarrow> int \<times> int \<times> int" where
  "cycle_figures a =
     (let size = rp_CycleCapacitySize a; remain = min size (max 0 (rp_CycleCapacityRemain a)); used = wrap64 (size - remain)
      in if rp_CycleCapacityUsed a > used
         then (if size \<ge> rp_CycleCapacityUsed a then wrap64 (size - rp_CycleCapacityUsed a) else remain, rp_CycleCapacityUsed a, size)
         else (remain, used, size))"

definition partial_figures :: "resourcePackage \<Rightarrow> int \<times> int \<times> int" where
  "partial_figures a =
     (let remain = max 0 (rp_CycleCapacityRemain a); used = max 0 (rp_CycleCapacityUsed a); size = wrap64 (remain + used)
      in if rp_CapacitySize a > size
         then (remain, if rp_CapacitySize a \<ge> remain then wrap64 (rp_CapacitySize a - remain) else used, rp_CapacitySize a)
         else (remain, used, size))"

definition lifetime_figures :: "resourcePackage \<Rightarrow> int \<times> int \<times> int" where
  "lifetime_figures a =
     (let remain = max 0 (rp_CapacityRemain a); used = max 0 (rp_CapacityUsed a);
          size = (if rp_CapacitySize a \<le> 0 then wrap64 (remain + used) else rp_CapacitySize a)
      in (remain, if used = 0 \<and> size > remain then wrap64 (size - remain) else used, size))"

definition packageRemainUsed :: "resourcePackage \<Rightarrow> int \<times> int \<times> int" where
  "packageRemainUsed a =
     (if rp_CycleCapacitySize a > 0 then cycle_figures a
      else if rp_CycleCapacityRemain a > 0 \<or> rp_CycleCapacityUsed a > 0 then partial_figures a
      else lifetime_figures a)"

fun firstNonEmpty :: "string list \<Rightarrow> string" where
  "firstNonEmpty [] = []"
| "firstNonEmpty (v # vs) = (if TrimSpace v \<noteq> [] then TrimSpace v else firstNonEmpty vs)"

text \<open>\<open>fmt\<close> prints the milliseconds since the epoch as a time in UTC+8.\<close>

definition resourcePackageExpiry :: "(int \<Rightarrow> string) \<Rightarrow> resourcePackage \<Rightarrow> string" where
  "resourcePackageExpiry fmt p =
     (if rp_DeductionEndTime p > 0 then fmt (rp_DeductionEndTime p)
      else firstNonEmpty [rp_ExpiredTime p, rp_PackageEndTime p, rp_CycleEndTime p])"

definition package_summary :: "(int \<Rightarrow> string) \<Rightarrow> resourcePackage \<Rightarrow> packageSummary" where
  "package_summary fmt a = (case packageRemainUsed a of (remain, used, sz) \<Rightarrow>
     \<lparr>ps_Name = rp_PackageName a, ps_Remain = remain, ps_Used = used, ps_Size = sz, ps_CycleStart = rp_CycleStartTime a,
      ps_CycleEnd = resourcePackageExpiry fmt a\<rparr>)"

definition add_package :: "(int \<Rightarrow> string) \<Rightarrow> creditsSummary \<Rightarrow> resourcePackage \<Rightarrow> creditsSummary" where
  "add_package fmt tot a =
     (let p = package_summary fmt a in
      tot\<lparr>cs_TotalRemain := wrap64 (cs_TotalRemain tot + ps_Remain p), cs_TotalUsed := wrap64 (cs_TotalUsed tot + ps_Used p),
          cs_TotalSize := wrap64 (cs_TotalSize tot + ps_Size p), cs_Packages := cs_Packages tot @ [p]\<rparr>)"

definition zero_credits :: creditsSummary where
  "zero_credits = \<lparr>cs_TotalRemain = 0, cs_TotalUsed = 0, cs_TotalSize = 0, cs_PackCount = 0, cs_FetchedAt = [], cs_Packages = []\<rparr>"

text \<open>Raising what is used to what is missing.\<close>

definition raise_used :: "creditsSummary \<Rightarrow> creditsSummary" where
  "raise_used tot =
     (let derived = max 0 (wrap64 (cs_TotalSize tot - cs_TotalRemain tot))
      in if derived > cs_TotalUsed tot then tot\<lparr>cs_TotalUsed := derived\<rparr> else tot)"

definition credit_totals :: "(int \<Rightarrow> string) \<Rightarrow> resourcePackage list \<Rightarrow> int \<Rightarrow> creditsSummary" where
  "credit_totals fmt all totalDosage =
     (let tot = foldl (add_package fmt) zero_credits all;
          tot = tot\<lparr>cs_PackCount := int (length (cs_Packages tot))\<rparr>;
          tot = (if cs_TotalSize tot > 0 then raise_used tot else tot)
      in if totalDosage > cs_TotalSize tot then raise_used (tot\<lparr>cs_TotalSize := totalDosage\<rparr>) else tot)"

definition page_size :: nat where "page_size = 100"

definition resource_path :: string where "resource_path = ''/v2/billing/meter/get-user-resource''"

definition fetch_page :: "'a billing_json_scheme \<Rightarrow> billing_world \<Rightarrow> nat \<Rightarrow> string + resource_page" where
  "fetch_page lib w page = (case billingCall lib w resource_path page of Inl err \<Rightarrow> Inl err | Inr data \<Rightarrow> bj_page lib data)"

text \<open>
  The pages from \<open>page\<close> on. A listing that does not end keeps the loop running: the value is then \<open>None\<close>. \<open>first\<close> is
  the first page, whose counts are used, and \<open>all\<close> what has been read.
\<close>

partial_function (option) page_loop ::
  "(nat \<Rightarrow> string + resource_page) \<Rightarrow> nat \<Rightarrow> resource_page option \<Rightarrow> resourcePackage list \<Rightarrow>
   (string + resourcePackage list \<times> int) option" where
  "page_loop fetch page first all = (case fetch page of
      Inl err \<Rightarrow> Some (Inl err)
    | Inr p \<Rightarrow>
        (let first = (case first of None \<Rightarrow> p | Some f \<Rightarrow> f); all = all @ pg_Accounts p in
         if length (pg_Accounts p) < page_size \<or> pg_TotalCount first > 0 \<and> pg_TotalCount first \<le> int (length all)
         then Some (Inr (all, pg_TotalDosage first))
         else page_loop fetch (Suc page) (Some first) all))"

definition fetchPersonalUserResource ::
  "(int \<Rightarrow> string) \<Rightarrow> 'a billing_json_scheme \<Rightarrow> billing_world \<Rightarrow> (string + creditsSummary) option" where
  "fetchPersonalUserResource fmt lib w =
     map_option (map_sum id (\<lambda>(all, dosage). credit_totals fmt all dosage)) (page_loop (fetch_page lib w) 1 None [])"

section \<open>Enterprise accounts\<close>

datatype enterprise_error = EnterpriseUnsupported | EnterpriseFailed string

definition classifyEnterpriseHTTPStatus :: "int \<Rightarrow> enterprise_error" where
  "classifyEnterpriseHTTPStatus status =
     (if status = 404 then EnterpriseUnsupported else EnterpriseFailed (''enterprise credits status '' @ show_int status))"

definition enterpriseCreditNumber :: "'a billing_json_scheme \<Rightarrow> (string, string) gomap \<Rightarrow> string \<Rightarrow> rat option" where
  "enterpriseCreditNumber lib data key =
     Option.bind (gm_get data key) (\<lambda>raw. Option.bind (bj_text lib raw) (\<lambda>text.
       case bj_float lib text of None \<Rightarrow> None | Some n \<Rightarrow> if n < 0 then None else Some n))"

text \<open>\<open>math.Round\<close> of a number that is not negative.\<close>

definition roundedEnterpriseCredits :: "rat \<Rightarrow> int option" where
  "roundedEnterpriseCredits x = (let r = floor (x + 1 / 2) in if r \<ge> 2 ^ 63 then None else Some r)"

definition enterpriseCreditString :: "'a billing_json_scheme \<Rightarrow> string option \<Rightarrow> string" where
  "enterpriseCreditString lib raw = (case Option.bind raw (bj_string lib) of None \<Rightarrow> [] | Some v \<Rightarrow> v)"

definition enterprise_summary :: "'a billing_json_scheme \<Rightarrow> (string, string) gomap \<Rightarrow> creditsSummary option" where
  "enterprise_summary lib data =
     Option.bind (enterpriseCreditNumber lib data ''credit'') (\<lambda>credit.
     Option.bind (enterpriseCreditNumber lib data ''limitNum'') (\<lambda>limit.
       if limit \<le> 0 then None
       else Option.bind (roundedEnterpriseCredits credit) (\<lambda>used. Option.bind (roundedEnterpriseCredits limit) (\<lambda>size.
         let remain = max 0 (wrap64 (size - used)) in
         Some \<lparr>cs_TotalRemain = remain, cs_TotalUsed = used, cs_TotalSize = size, cs_PackCount = 1, cs_FetchedAt = [],
           cs_Packages = [\<lparr>ps_Name = ''Enterprise'', ps_Remain = remain, ps_Used = used, ps_Size = size,
             ps_CycleStart = enterpriseCreditString lib (gm_get data ''cycleStartTime''),
             ps_CycleEnd = enterpriseCreditString lib (gm_get data ''cycleEndTime'')\<rparr>]\<rparr>))))"

definition parseEnterpriseCredits :: "'a billing_json_scheme \<Rightarrow> string \<Rightarrow> creditsSummary option" where
  "parseEnterpriseCredits lib raw =
     Option.bind (aj_obj lib raw) (\<lambda>envelope. Option.bind (gm_get envelope ''code'') (\<lambda>code.
       if bj_int lib code \<noteq> Some 0 then None
       else Option.bind (gm_get envelope ''data'') (\<lambda>dataRaw. Option.bind (aj_obj lib dataRaw) (\<lambda>data.
         if aj_null lib dataRaw then None else enterprise_summary lib data))))"

definition fetchEnterpriseCreditsCN ::
  "'a billing_json_scheme \<Rightarrow> string + billing_answer \<Rightarrow> enterprise_error + creditsSummary" where
  "fetchEnterpriseCreditsCN lib answer = (case answer of
      Inl err \<Rightarrow> Inl (EnterpriseFailed err)
    | Inr resp \<Rightarrow>
        if ha_status resp < 200 \<or> ha_status resp \<ge> 300 then Inl (classifyEnterpriseHTTPStatus (ha_status resp))
        else case parseEnterpriseCredits lib (ha_body resp) of
            None \<Rightarrow> Inl (EnterpriseFailed ''enterprise credits response'') | Some cr \<Rightarrow> Inr cr)"

definition enterprise_path :: string where "enterprise_path = ''/billing/meter/get-enterprise-user-usage''"

text \<open>\<open>enterprise\<close> is the flag of the feature configuration, false if there is none.\<close>

definition fetchUserResource ::
  "(int \<Rightarrow> string) \<Rightarrow> bool \<Rightarrow> 'a billing_json_scheme \<Rightarrow> billing_world \<Rightarrow> storedAuth \<Rightarrow> (string + creditsSummary) option" where
  "fetchUserResource fmt enterprise lib w sa =
     (if enterprise \<and> accountRegion sa = ''cn'' then
        (case fetchEnterpriseCreditsCN lib (w enterprise_path 0 0) of
           Inr cr \<Rightarrow> Some (Inr cr)
         | Inl EnterpriseUnsupported \<Rightarrow> fetchPersonalUserResource fmt lib w
         | Inl (EnterpriseFailed err) \<Rightarrow> Some (Inl err))
      else fetchPersonalUserResource fmt lib w)"

section \<open>Plan, check-in and trial\<close>

definition fetchPaymentType :: "'a billing_json_scheme \<Rightarrow> billing_world \<Rightarrow> string" where
  "fetchPaymentType lib w = (case billingCall lib w ''/v2/billing/meter/get-payment-type'' 0 of
      Inl _ \<Rightarrow> []
    | Inr data \<Rightarrow> (case bj_map lib data of
          Inr (Some m) \<Rightarrow> (case gm_get m ''paymentType'' of Some (JStr s) \<Rightarrow> s | _ \<Rightarrow> [])
        | _ \<Rightarrow> []))"

text \<open>
  The decoded answer with its success set, or the error of the decoder; storing into the nil map of a \<open>null\<close> panics.
\<close>

type_synonym claim = "(string + (string \<times> json) list) go_result"

definition claimed :: "'a billing_json_scheme \<Rightarrow> string \<Rightarrow> claim" where
  "claimed lib data = (case bj_map lib data of
      Inl err \<Rightarrow> Returns (Inl err)
    | Inr None \<Rightarrow> Panics
    | Inr (Some m) \<Rightarrow> Returns (Inr (gm_put ''success'' (JBool True) m)))"

definition performCheckinCall :: "'a billing_json_scheme \<Rightarrow> billing_world \<Rightarrow> claim" where
  "performCheckinCall lib w = (case billingCall lib w ''/v2/billing/meter/daily-checkin'' 0 of
      Inl err \<Rightarrow> Returns (Inr [(''success'', JBool False), (''message'', JStr err)])
    | Inr data \<Rightarrow> claimed lib data)"

definition trial_claimed_text :: string where
  "trial_claimed_text = [CHR 0xE5, CHR 0xB7, CHR 0xB2, CHR 0xE9, CHR 0xA2, CHR 0x86, CHR 0xE5, CHR 0x8F, CHR 0x96,
     CHR 0xE8, CHR 0xBF, CHR 0x87, CHR 0xE4, CHR 0xB8, CHR 0x93, CHR 0xE5, CHR 0xAE, CHR 0xB6, CHR 0xE5, CHR 0x8A, CHR 0xA0,
     CHR 0xE6, CHR 0xB2, CHR 0xB9, CHR 0xE5, CHR 0x8C, CHR 0x85]"

definition performTrialCall :: "'a billing_json_scheme \<Rightarrow> billing_world \<Rightarrow> claim" where
  "performTrialCall lib w = (case billingCall lib w ''/billing/ide/trial'' 0 of
      Inl msg \<Rightarrow>
        Returns (Inr (if Contains msg ''14051''
          then [(''success'', JBool False), (''message'', JStr trial_claimed_text), (''already_claimed'', JBool True)]
          else [(''success'', JBool False), (''message'', JStr msg)]))
    | Inr data \<Rightarrow> claimed lib data)"

definition expert_pack_texts :: "string list" where
  "expert_pack_texts =
    [[CHR 0xE4, CHR 0xB8, CHR 0x93, CHR 0xE5, CHR 0xAE, CHR 0xB6, CHR 0xE5, CHR 0x8A, CHR 0xA0, CHR 0xE6, CHR 0xB2, CHR 0xB9],
     [CHR 0xE4, CHR 0xB8, CHR 0x93, CHR 0xE5, CHR 0xAE, CHR 0xB6, CHR 0xE4, CHR 0xBD, CHR 0x93, CHR 0xE9, CHR 0xAA, CHR 0x8C,
      CHR 0xE5, CHR 0x8C, CHR 0x85]]"

definition is_trial_name :: "string \<Rightarrow> bool" where
  "is_trial_name n =
     (let name = ToLower (TrimSpace n) in
      name \<noteq> [] \<and>
      (Contains name ''trial'' \<or>
       Contains name ''pro plan'' \<and> (Contains name ''free'' \<or> Contains name ''one-time'' \<or> Contains name ''2-week'' \<or> Contains name ''2 week'') \<or>
       list_ex (Contains name) expert_pack_texts))"

definition hasTrialPack :: "creditsSummary option \<Rightarrow> bool" where
  "hasTrialPack cr = (case cr of None \<Rightarrow> False | Some c \<Rightarrow> list_ex (\<lambda>p. is_trial_name (ps_Name p)) (cs_Packages c))"

end
