(* ===== verification/Checkin.thy ===== *)
theory Checkin
  imports Billing
begin

text \<open>
  The daily tasks and the check-in, after \<^verbatim>\<open>src/plugin/checkin.go\<close>: when the timer of the task loop fires and
  what it then starts, the check-in of one account and of all on demand, and the scheduled tick of an account,
  which checks in and reconciles.

  The location of the clock is a fixed offset, as in \<open>Cooldown\<close>. What the upstream answers to a credit query is an
  input, as in \<open>Account_Cache\<close>; the status and the claim go through the calls of \<open>Billing\<close>. The lock of an account is
  implicit: an operation is one step. Rows for the panel's task log are returned in order.
\<close>

section \<open>The schedule\<close>

definition checkinHours :: "int list" where "checkinHours = [9, 21]"
definition keepaliveHours :: "int list" where "keepaliveHours = [22]"
definition activityHours :: "int list" where "activityHours = [10]"
definition travelHours :: "int list" where "travelHours = [9, 21]"

definition slot_today :: "int \<Rightarrow> gtime \<Rightarrow> int \<Rightarrow> gtime" where
  "slot_today off now h = at_hour off (local_day off now) h"

definition scheduledInCurrentHour :: "int \<Rightarrow> gtime \<Rightarrow> int list \<Rightarrow> bool" where
  "scheduledInCurrentHour off now hours =
     list_ex (\<lambda>h. \<not> now < slot_today off now h \<and> now < slot_today off now h + Hour) hours"

definition scheduledActionsFor :: "int \<Rightarrow> gtime \<Rightarrow> bool \<times> bool \<times> bool \<times> bool" where
  "scheduledActionsFor off now =
     (scheduledInCurrentHour off now checkinHours, scheduledInCurrentHour off now keepaliveHours,
      scheduledInCurrentHour off now activityHours, scheduledInCurrentHour off now travelHours)"

definition next_slot :: "int \<Rightarrow> gtime \<Rightarrow> int \<Rightarrow> gtime" where
  "next_slot off now h =
     (if \<not> slot_today off now h > now then slot_today off now h + 24 * Hour else slot_today off now h)"

text \<open>The earliest of some times, where the zero time stands for none.\<close>

definition earlier :: "gtime \<Rightarrow> gtime \<Rightarrow> gtime" where
  "earlier earliest t = (if earliest = 0 \<or> t < earliest then t else earliest)"

definition all_hours :: "int list" where
  "all_hours = checkinHours @ keepaliveHours @ activityHours @ travelHours"

definition nextCheckinTime :: "int \<Rightarrow> gtime \<Rightarrow> gtime" where
  "nextCheckinTime off now = foldl (\<lambda>e h. earlier e (next_slot off now h)) 0 all_hours"

definition nextKeepaliveTime :: "int \<Rightarrow> gtime \<Rightarrow> gtime" where
  "nextKeepaliveTime off now = foldl (\<lambda>e h. earlier e (next_slot off now h)) 0 keepaliveHours"

section \<open>The task log\<close>

record taskRow =
  tr_Task :: string
  tr_Account :: string
  tr_OK :: bool
  tr_Credit :: int
  tr_Message :: string

definition recordTaskCredit :: "string \<Rightarrow> string \<Rightarrow> bool \<Rightarrow> int \<Rightarrow> string \<Rightarrow> taskRow" where
  "recordTaskCredit task account ok credit message =
     \<lparr>tr_Task = task, tr_Account = account, tr_OK = ok, tr_Credit = credit,
      tr_Message = truncateRedacted (map (\<lambda>c. if c = CHR 0x0A then CHR 0x20 else c) message) 160\<rparr>"

definition recordTask :: "string \<Rightarrow> string \<Rightarrow> bool \<Rightarrow> string \<Rightarrow> taskRow" where
  "recordTask task account ok message = recordTaskCredit task account ok 0 message"

type_synonym row = "(string \<times> json) list"

definition row_string :: "row \<Rightarrow> string \<Rightarrow> string" where
  "row_string out k = (case gm_get out k of Some (JStr s) \<Rightarrow> s | _ \<Rightarrow> [])"

definition recordCheckinTaskResult :: "string \<Rightarrow> string + row \<Rightarrow> taskRow" where
  "recordCheckinTaskResult account r = (case r of
      Inl err \<Rightarrow> recordTaskCredit ''checkin'' account False 0 err
    | Inr out \<Rightarrow> recordTaskCredit ''checkin'' account (gm_get out ''success'' = Some (JBool True))
        (jsonI64 out [''credit'', ''daily_credit'']) (row_string out ''message''))"

section \<open>The check-in of one account\<close>

definition enterprise_text :: string where
  "enterprise_text = [CHR 0xE4, CHR 0xBC, CHR 0x81, CHR 0xE4, CHR 0xB8, CHR 0x9A, CHR 0xE7, CHR 0x89, CHR 0x88, CHR 0xE8, CHR 0xB4,
     CHR 0xA6, CHR 0xE5, CHR 0x8F, CHR 0xB7, CHR 0xE4, CHR 0xB8, CHR 0x8D, CHR 0xE6, CHR 0x94, CHR 0xAF, CHR 0xE6, CHR 0x8C, CHR 0x81,
     CHR 0xE4, CHR 0xB8, CHR 0xAA, CHR 0xE4, CHR 0xBA, CHR 0xBA, CHR 0xE7, CHR 0xAD, CHR 0xBE, CHR 0xE5, CHR 0x88, CHR 0xB0]"

definition global_text :: string where
  "global_text = [CHR 0xE5, CHR 0x9B, CHR 0xBD, CHR 0xE9, CHR 0x99, CHR 0x85, CHR 0xE7, CHR 0x89, CHR 0x88, CHR 0xE8, CHR 0xB4, CHR 0xA6,
     CHR 0xE5, CHR 0x8F, CHR 0xB7, CHR 0xE4, CHR 0xB8, CHR 0x8D, CHR 0xE6, CHR 0x94, CHR 0xAF, CHR 0xE6, CHR 0x8C, CHR 0x81, CHR 0xE7,
     CHR 0xAD, CHR 0xBE, CHR 0xE5, CHR 0x88, CHR 0xB0, CHR 0xEF, CHR 0xBC, CHR 0x8C, CHR 0xE8, CHR 0xAF, CHR 0xB7, CHR 0xE4, CHR 0xBD,
     CHR 0xBF, CHR 0xE7, CHR 0x94, CHR 0xA8, CHR 0xE9, CHR 0xA2, CHR 0x86, CHR 0xE5, CHR 0x8F, CHR 0x96, CHR 0xE4, CHR 0xB8, CHR 0x93,
     CHR 0xE5, CHR 0xAE, CHR 0xB6, CHR 0xE5, CHR 0x8A, CHR 0xA0, CHR 0xE6, CHR 0xB2, CHR 0xB9, CHR 0xE5, CHR 0x8C, CHR 0x85]"

definition already_texts :: "string list" where
  "already_texts = [[CHR 0xE5, CHR 0xB7, CHR 0xB2, CHR 0xE7, CHR 0xAD, CHR 0xBE], [CHR 0xE4, CHR 0xBB, CHR 0x8A, CHR 0xE6, CHR 0x97, CHR 0xA5]]"

definition skipped_row :: "bool \<Rightarrow> string \<Rightarrow> string \<Rightarrow> row \<Rightarrow> row" where
  "skipped_row ok reason message out = gm_put ''message'' (JStr message) (gm_put ''reason'' (JStr reason)
     (gm_put ''skipped'' (JBool True) (gm_put ''success'' (JBool ok) out)))"

text \<open>A failure that says that the account has checked in already is none.\<close>

definition soft_already :: "row \<Rightarrow> row" where
  "soft_already out =
     (let msg = row_string out ''message'' in
      if msg \<noteq> [] \<and> gm_get out ''success'' = Some (JBool False) \<and>
         (Contains (ToLower msg) ''already'' \<or> list_ex (Contains msg) already_texts)
      then gm_put ''reason'' (JStr ''already'') (gm_put ''skipped'' (JBool True) (gm_put ''success'' (JBool True) out))
      else out)"

definition default_success :: "row \<Rightarrow> row" where
  "default_success out = (if gm_get out ''success'' = None then gm_put ''success'' (JBool True) out else out)"

definition copy_row :: "row \<Rightarrow> row \<Rightarrow> row" where
  "copy_row res out = foldl (\<lambda>o1 (k, v). gm_put k v o1) out res"

definition checked_in_placeholder :: checkinSummary where
  "checked_in_placeholder = (checkin_summary [])\<lparr>ck_TodayCheckedIn := True\<rparr>"

definition checkin_status_row ::
  "'a billing_json_scheme \<Rightarrow> billing_world \<Rightarrow> gtime \<Rightarrow> string \<Rightarrow> row \<Rightarrow> account_cache \<Rightarrow> (row \<times> account_cache) go_result" where
  "checkin_status_row lib w now authID out m = (case performCheckinCall lib w of
      Panics \<Rightarrow> Panics
    | Fails \<Rightarrow> Fails
    | Returns (Inl err) \<Rightarrow> Returns (gm_put ''success'' (JBool False) (gm_put ''error'' (JStr err) out), m)
    | Returns (Inr res) \<Rightarrow> Returns (default_success (soft_already (copy_row res out)),
        mergeCheckinCache now authID (case fetchCheckinStatus lib w 1 of Inr ci2 \<Rightarrow> ci2 | Inl _ \<Rightarrow> checked_in_placeholder) m))"

text \<open>\<open>host\<close> is the host's store and \<open>err\<close> the text of its error, if it has one.\<close>

definition checkinOneAccount ::
  "'a billing_json_scheme \<Rightarrow> host_world \<Rightarrow> string \<Rightarrow> billing_world \<Rightarrow> gtime \<Rightarrow> hostAuthFileEntry \<Rightarrow> account_cache \<Rightarrow>
   (row \<times> account_cache) go_result" where
  "checkinOneAccount lib host err w now f m =
     (let out = [(''auth_index'', JStr (fe_AuthIndex f))] in
      case hostAuthGet (auth_json.truncate lib) host (fe_AuthIndex f) of
        None \<Rightarrow> Returns (gm_put ''error'' (JStr err) out, m)
      | Some sa \<Rightarrow>
          (let out = gm_put ''nickname'' (JStr (sto_Nickname sa)) out in
           if TrimSpace (sto_EnterpriseID sa) \<noteq> [] then Returns (skipped_row False ''enterprise'' enterprise_text out, m)
           else if isGlobalDomain (sto_Domain sa) then Returns (skipped_row False ''global'' global_text out, m)
           else case fetchCheckinStatus lib w 0 of
               Inr ci \<Rightarrow> if ck_TodayCheckedIn ci
                 then Returns (skipped_row True ''already'' ''already checked in today'' out, mergeCheckinCache now (fe_ID f) ci m)
                 else checkin_status_row lib w now (fe_ID f) out m
             | Inl _ \<Rightarrow> checkin_status_row lib w now (fe_ID f) out m))"

section \<open>The check-in on demand\<close>

record checkin_counts =
  cc_success :: nat
  cc_fail :: nat
  cc_already :: nat
  cc_global :: nat
  cc_eligible :: nat

definition count_row :: "checkin_counts \<Rightarrow> row \<Rightarrow> checkin_counts" where
  "count_row c out =
     (if gm_get out ''error'' \<notin> {None, Some JNull} then c\<lparr>cc_fail := cc_fail c + 1\<rparr>
      else if row_string out ''reason'' = ''already'' then c\<lparr>cc_already := cc_already c + 1\<rparr>
      else if row_string out ''reason'' = ''global'' then c\<lparr>cc_global := cc_global c + 1\<rparr>
      else let c = c\<lparr>cc_eligible := cc_eligible c + 1\<rparr> in
        if gm_get out ''success'' = Some (JBool True) then c\<lparr>cc_success := cc_success c + 1\<rparr>
        else c\<lparr>cc_fail := cc_fail c + 1\<rparr>)"

definition count_rows :: "row list \<Rightarrow> checkin_counts" where
  "count_rows rows = foldl count_row \<lparr>cc_success = 0, cc_fail = 0, cc_already = 0, cc_global = 0, cc_eligible = 0\<rparr> rows"

definition logged_rows :: "row list \<Rightarrow> taskRow list" where
  "logged_rows rows = map (\<lambda>out. recordCheckinTaskResult (row_string out ''nickname'') (Inr out))
     (filter (\<lambda>out. gm_get out ''error'' \<in> {None, Some JNull} \<and> row_string out ''reason'' \<notin> {''already'', ''global''}) rows)"

text \<open>
  The goroutines write to their own place of the result and meet only in the cache, which each changes at its own
  key; \<open>w\<close>, \<open>err\<close> and \<open>now\<close> give the surroundings of each account.
\<close>

fun checkin_each ::
  "'a billing_json_scheme \<Rightarrow> host_world \<Rightarrow> (nat \<Rightarrow> string) \<Rightarrow> (nat \<Rightarrow> billing_world) \<Rightarrow> (nat \<Rightarrow> gtime) \<Rightarrow> nat \<Rightarrow>
   hostAuthFileEntry list \<Rightarrow> account_cache \<Rightarrow> (row list \<times> account_cache) go_result" where
  "checkin_each lib host err w now i [] m = Returns ([], m)"
| "checkin_each lib host err w now i (f # fs) m =
     (case checkinOneAccount lib host (err i) (w i) (now i) f m of
        Returns (out, m) \<Rightarrow> (case checkin_each lib host err w now (Suc i) fs m of
            Returns (outs, m) \<Rightarrow> Returns (out # outs, m) | Fails \<Rightarrow> Fails | Panics \<Rightarrow> Panics)
      | Fails \<Rightarrow> Fails
      | Panics \<Rightarrow> Panics)"

datatype checkin_reply =
    CheckinError string
  | CheckinReply "row list" checkin_counts nat

definition handleManualCheckin ::
  "'a billing_json_scheme \<Rightarrow> host_world \<Rightarrow> string \<Rightarrow> (nat \<Rightarrow> string) \<Rightarrow> (nat \<Rightarrow> billing_world) \<Rightarrow> (nat \<Rightarrow> gtime) \<Rightarrow> string \<Rightarrow>
   account_cache \<Rightarrow> (checkin_reply \<times> taskRow list \<times> account_cache) go_result" where
  "handleManualCheckin lib host list_err err w now body_index m =
     (let authIndex = TrimSpace body_index in
      case hostAuthList host of
        None \<Rightarrow> Returns (CheckinError list_err, [], m)
      | Some files \<Rightarrow>
          (let targets = filter (\<lambda>f. authIndex = [] \<or> fe_AuthIndex f = authIndex) files in
           if targets = [] then Returns (CheckinError ''no matching account'', [], m)
           else case checkin_each lib host err w now 0 targets m of
               Returns (rows, m) \<Rightarrow> Returns (CheckinReply rows (count_rows rows) (length targets), logged_rows rows, m)
             | Fails \<Rightarrow> Fails
             | Panics \<Rightarrow> Panics))"

section \<open>The scheduled tick of an account\<close>

definition fresh_credits :: "gtime \<Rightarrow> string \<Rightarrow> string + creditsSummary \<Rightarrow> account_cache \<Rightarrow> account_cache" where
  "fresh_credits now authID cr m = (case (cr, gm_get m authID) of
      (Inr c, Some e) \<Rightarrow> gm_put authID (e\<lparr>ce_credits := Some c, ce_fetched := now\<rparr>) m
    | _ \<Rightarrow> m)"

text \<open>The part under the lock: status, claim, cache. \<open>cr\<close> is what the query of the credits returns.\<close>

definition auto_checkin ::
  "'a billing_json_scheme \<Rightarrow> billing_world \<Rightarrow> string + creditsSummary \<Rightarrow> (nat \<Rightarrow> gtime) \<Rightarrow> string \<Rightarrow> storedAuth \<Rightarrow> account_cache \<Rightarrow>
   (account_cache \<times> taskRow list) go_result" where
  "auto_checkin lib w cr t authID sa m = (case fetchCheckinStatus lib w 0 of
      Inl _ \<Rightarrow> Returns (m, [])
    | Inr ci \<Rightarrow>
        if \<not> (ck_Active ci \<and> \<not> ck_TodayCheckedIn ci) then Returns (mergeCheckinCache (t 1) authID ci m, [])
        else case performCheckinCall lib w of
            Panics \<Rightarrow> Panics
          | Fails \<Rightarrow> Fails
          | Returns r \<Rightarrow>
              (let rows = [recordCheckinTaskResult (sto_Nickname sa) r] in
               case r of
                 Inl _ \<Rightarrow> Returns (mergeCheckinCache (t 1) authID ci m, rows)
               | Inr out \<Rightarrow>
                   (let ci = (case fetchCheckinStatus lib w 1 of Inr ci2 \<Rightarrow> ci2 | Inl _ \<Rightarrow> ci) in
                    Returns (mergeCheckinCache (t 1) authID ci (fresh_credits (t 0) authID cr m), rows))))"

record tick_input =
  ti_host :: host_world
  ti_billing :: billing_world
  ti_credits :: "string + creditsSummary"
  ti_clock :: "nat \<Rightarrow> gtime"
  ti_reconcile :: reconcile_input

definition reconcile_tick ::
  "'a billing_json_scheme \<Rightarrow> tick_input \<Rightarrow> hostAuthFileEntry \<Rightarrow> taskRow list \<Rightarrow> life \<Rightarrow> life \<times> taskRow list \<times> host_effect list" where
  "reconcile_tick lib inp f rows st = (case reconcileOneAccount (auth_json.truncate lib) (ti_reconcile inp) (fe_AuthIndex f) (fe_ID f) True st of
      (_, _, st, fx) \<Rightarrow> (st, rows, fx))"

definition processAutoCheckinAccount ::
  "'a billing_json_scheme \<Rightarrow> tick_input \<Rightarrow> hostAuthFileEntry \<Rightarrow> bool \<Rightarrow> life \<Rightarrow> (life \<times> taskRow list \<times> host_effect list) go_result" where
  "processAutoCheckinAccount lib inp f doCheckin st =
     (if \<not> doCheckin then Returns (reconcile_tick lib inp f [] st)
      else case hostAuthGet (auth_json.truncate lib) (ti_host inp) (fe_AuthIndex f) of
          None \<Rightarrow> Returns (st, [], [])
        | Some sa \<Rightarrow>
            if isGlobalDomain (sto_Domain sa) \<or> TrimSpace (sto_EnterpriseID sa) \<noteq> [] then
              Returns (reconcile_tick lib inp f [] (st\<lparr>lf_cache := invalidateCredits (ti_clock inp 0) (fe_ID f) (lf_cache st)\<rparr>))
            else case auto_checkin lib (ti_billing inp) (ti_credits inp) (ti_clock inp) (fe_ID f) sa (lf_cache st) of
                Returns (m, rows) \<Rightarrow> Returns (reconcile_tick lib inp f rows (st\<lparr>lf_cache := m\<rparr>))
              | Fails \<Rightarrow> Fails
              | Panics \<Rightarrow> Panics)"

section \<open>The locks\<close>

text \<open>The keys of the lock table.\<close>

definition checkinLockFor :: "string \<Rightarrow> string list \<Rightarrow> string list" where
  "checkinLockFor authIndex locks = List.insert authIndex locks"

definition pruneCheckinLocks :: "host_world \<Rightarrow> string list \<Rightarrow> string list" where
  "pruneCheckinLocks host locks = (case hostAuthList host of
      None \<Rightarrow> locks
    | Some files \<Rightarrow> filter (\<lambda>k. k \<in> fe_ID ` set files \<union> fe_AuthIndex ` set files) locks)"

end
