(* ===== verification/Billing_Props.thy ===== *)
theory Billing_Props
  imports Billing Lifecycle_Props
begin

text \<open>
  The properties of the billing calls: the number of attempts, the end of the listing of packages, and what the
  totals of an account mean for the lifecycle.
\<close>

section \<open>Attempts\<close>

definition transient :: "string + 'a \<Rightarrow> bool" where
  "transient r = (case r of Inl err \<Rightarrow> isTransientBillingErr err | Inr _ \<Rightarrow> False)"

lemma retry_step:
  "billing_retry lib path answer (d # ds) n r =
     (if transient r then billing_retry lib path answer ds (Suc n) (billingCallOnce lib path (answer n)) else (r, n))"
  by (simp add: transient_def split: sum.splits)

text \<open>
  Retries are bounded and justified: a billing call makes at most three attempts, its result is that of the
  last one, every attempt before it failed with a transient error, and it stops early only at a result that is not
  a transient error.
\<close>

theorem retry_bounded:
  assumes "billing_attempts lib path answer = (r, n)"
  shows "1 \<le> n \<and> n \<le> 3 \<and> r = billingCallOnce lib path (answer (n - 1)) \<and>
    list_all (\<lambda>i. transient (billingCallOnce lib path (answer i))) [0..<n - 1] \<and> (n < 3 \<longrightarrow> \<not> transient r)"
  using assms unfolding billing_attempts_def billingRetryDelays_def
  by (auto simp: retry_step numeral_2_eq_2 numeral_3_eq_3 simp del: billing_retry.simps(2) split: if_splits)

section \<open>Pages\<close>

text \<open>A listing that is cut into pages; \<open>c\<close> is the count that the upstream announces.\<close>

definition listing :: "resourcePackage list \<Rightarrow> int \<Rightarrow> int \<Rightarrow> nat \<Rightarrow> resource_page" where
  "listing L c d p = \<lparr>pg_TotalCount = c, pg_TotalDosage = d, pg_Accounts = take page_size (drop (page_size * (p - 1)) L)\<rparr>"

lemma page_loop_listing:
  assumes "\<And>p. 1 \<le> p \<Longrightarrow> fetch p = Inr (listing L c d p)" and "c = 0 \<or> c = int (length L)"
    and "first = None \<or> first = Some (listing L c d 1)" and "first = None \<Longrightarrow> k = 0" and "page_size * k \<le> length L"
  shows "page_loop fetch (Suc k) first (take (page_size * k) L) = Some (Inr (L, d))"
  using assms(3-5)
proof (induction "length L - page_size * k" arbitrary: k first rule: less_induct)
  case less
  let ?P = "listing L c d (Suc k)"
  have first: "pg_TotalCount (case first of None \<Rightarrow> ?P | Some f \<Rightarrow> f) = c" "pg_TotalDosage (case first of None \<Rightarrow> ?P | Some f \<Rightarrow> f) = d"
    using less.prems(1) by (auto simp: listing_def)
  have all: "take (page_size * k) L @ pg_Accounts ?P = take (page_size * Suc k) L"
    by (simp add: listing_def take_add [symmetric] add.commute)
  have done_: "take (page_size * Suc k) L = L" if "length (pg_Accounts ?P) < page_size \<or> c > 0 \<and> c \<le> int (length (take (page_size * Suc k) L))"
    using that assms(2) less.prems(3) by (auto simp: listing_def)
  have unfold: "page_loop fetch (Suc k) first (take (page_size * k) L) =
      (if length (pg_Accounts ?P) < page_size \<or> c > 0 \<and> c \<le> int (length (take (page_size * Suc k) L))
       then Some (Inr (take (page_size * Suc k) L, d))
       else page_loop fetch (Suc (Suc k)) (Some (case first of None \<Rightarrow> ?P | Some f \<Rightarrow> f)) (take (page_size * Suc k) L))"
    by (subst page_loop.simps) (simp only: assms(1) le_numeral_extra Let_def sum.case first all One_nat_def Suc_le_mono zero_le)
  show ?case
  proof (cases "length (pg_Accounts ?P) < page_size \<or> c > 0 \<and> c \<le> int (length (take (page_size * Suc k) L))")
    case True
    with unfold done_ show ?thesis by simp
  next
    case False
    then have "page_size * Suc k \<le> length L"
      using less.prems(3) by (simp add: listing_def page_size_def min_def split: if_splits) linarith
    moreover have "(case first of None \<Rightarrow> ?P | Some f \<Rightarrow> f) = listing L c d 1"
      using less.prems(1,2) by (auto simp: listing_def)
    moreover have "length L - page_size * Suc k < length L - page_size * k"
      using \<open>page_size * Suc k \<le> length L\<close> by (simp add: page_size_def)
    ultimately have "page_loop fetch (Suc (Suc k)) (Some (case first of None \<Rightarrow> ?P | Some f \<Rightarrow> f)) (take (page_size * Suc k) L) = Some (Inr (L, d))"
      using less.hyps [of "Suc k" "Some (listing L c d 1)"] by simp
    then show ?thesis unfolding unfold using False by (simp only: if_False)
  qed
qed

text \<open>
  (C21) The listing is read completely: if the upstream cuts the packages of an account into pages of a hundred and
  announces either their number or none, the query ends, and its result is computed from all packages, in order.
\<close>

theorem pages_complete:
  assumes "\<And>p. 1 \<le> p \<Longrightarrow> fetch_page lib w p = Inr (listing L c dosage p)" and "c = 0 \<or> c = int (length L)"
  shows "fetchPersonalUserResource fmt lib w = Some (Inr (credit_totals fmt L dosage))"
  using page_loop_listing [OF assms, of None 0] by (simp add: fetchPersonalUserResource_def)

text \<open>
  An upstream that returns a full page for every number and announces no count keeps the loop running for ever,
  with one of the four slots for such queries taken.
\<close>

theorem full_pages_never_end:
  assumes "\<And>p. \<exists>xs. fetch p = Inr \<lparr>pg_TotalCount = 0, pg_TotalDosage = d, pg_Accounts = xs\<rparr> \<and> length xs = page_size"
  shows "page_loop fetch 1 None [] = None"
proof -
  let ?P = "\<lambda>f page first all r. f = fetch \<longrightarrow> (first = None \<or> pg_TotalCount (the first) = 0) \<longrightarrow> False"
  have step: "?P f page first all r"
    if IH: "\<And>f page first all r. loop f page first all = Some r \<Longrightarrow> ?P f page first all r"
      and run: "(case f page of Inl err \<Rightarrow> Some (Inl err)
        | Inr p \<Rightarrow> (let first = (case first of None \<Rightarrow> p | Some f \<Rightarrow> f); all = all @ pg_Accounts p in
            if length (pg_Accounts p) < page_size \<or> pg_TotalCount first > 0 \<and> pg_TotalCount first \<le> int (length all)
            then Some (Inr (all, pg_TotalDosage first)) else loop f (Suc page) (Some first) all)) = Some r"
    for loop f page first all r
  proof (intro impI)
    assume f: "f = fetch" and first: "first = None \<or> pg_TotalCount (the first) = 0"
    from assms [of page] obtain xs where p: "fetch page = Inr \<lparr>pg_TotalCount = 0, pg_TotalDosage = d, pg_Accounts = xs\<rparr>"
        "length xs = page_size" by blast
    define g where "g = (case first of None \<Rightarrow> \<lparr>pg_TotalCount = 0, pg_TotalDosage = d, pg_Accounts = xs\<rparr> | Some f \<Rightarrow> f)"
    have g: "pg_TotalCount g = 0" using first by (cases first) (simp_all add: g_def)
    from run have "loop fetch (Suc page) (Some g) (all @ xs) = Some r" by (simp add: f p g Let_def g_def [symmetric])
    from IH [OF this] g show False by simp
  qed
  have "?P f page first all r" if "page_loop f page first all = Some r" for f page first all r
    by (rule page_loop.raw_induct [where P = ?P, OF step that])
  then show ?thesis by fastforce
qed

section \<open>Totals\<close>

text \<open>Amounts of at most a million million, so that no sum leaves \<open>int64\<close>.\<close>

definition sane :: "resourcePackage \<Rightarrow> bool" where
  "sane a = list_all (\<lambda>x. - (2 ^ 40) \<le> x \<and> x \<le> 2 ^ 40) [rp_CapacityRemain a, rp_CapacityUsed a, rp_CapacitySize a,
     rp_CycleCapacityRemain a, rp_CycleCapacityUsed a, rp_CycleCapacitySize a]"

definition in_range :: "int \<times> int \<times> int \<Rightarrow> bool" where
  "in_range f = (case f of (r, u, z) \<Rightarrow> 0 \<le> r \<and> r \<le> 2 ^ 41 \<and> 0 \<le> u \<and> u \<le> 2 ^ 41 \<and> 0 \<le> z \<and> z \<le> 2 ^ 41)"

lemma wrap64_small: "- (2 ^ 62) \<le> x \<Longrightarrow> x \<le> 2 ^ 62 \<Longrightarrow> wrap64 x = x"
  by (rule wrap64_id) simp_all

lemma figures_in_range:
  assumes "sane a"
  shows "in_range (packageRemainUsed a)"
proof -
  note bounds = assms [unfolded sane_def, simplified]
  have "in_range (cycle_figures a)" if "rp_CycleCapacitySize a > 0"
    using bounds that by (auto simp: in_range_def cycle_figures_def Let_def wrap64_small min_def max_def)
  moreover have "in_range (partial_figures a)"
    using bounds by (auto simp: in_range_def partial_figures_def Let_def wrap64_small max_def)
  moreover have "in_range (lifetime_figures a)"
    using bounds by (auto simp: in_range_def lifetime_figures_def Let_def wrap64_small max_def)
  ultimately show ?thesis by (simp add: packageRemainUsed_def)
qed

definition total_of :: "(packageSummary \<Rightarrow> int) \<Rightarrow> (int \<Rightarrow> string) \<Rightarrow> resourcePackage list \<Rightarrow> int" where
  "total_of f fmt all = sum_list (map (f \<circ> package_summary fmt) all)"

lemma summary_in_range:
  assumes "sane a"
  shows "0 \<le> ps_Remain (package_summary fmt a) \<and> ps_Remain (package_summary fmt a) \<le> 2 ^ 41 \<and>
    0 \<le> ps_Used (package_summary fmt a) \<and> ps_Used (package_summary fmt a) \<le> 2 ^ 41 \<and>
    0 \<le> ps_Size (package_summary fmt a) \<and> ps_Size (package_summary fmt a) \<le> 2 ^ 41"
  using figures_in_range [OF assms] by (cases "packageRemainUsed a") (simp add: package_summary_def in_range_def)

lemma total_bounds:
  assumes "list_all sane all" and "f = ps_Remain \<or> f = ps_Used \<or> f = ps_Size"
  shows "0 \<le> total_of f fmt all \<and> total_of f fmt all \<le> int (length all) * 2 ^ 41"
  using assms(1)
proof (induction all)
  case (Cons a all)
  then show ?case using summary_in_range [of a fmt] assms(2) by (auto simp: total_of_def algebra_simps)
qed (simp add: total_of_def)

lemma fold_packages:
  assumes "list_all sane all" and "length all \<le> 2 ^ 20"
  shows "foldl (add_package fmt) zero_credits all = zero_credits\<lparr>cs_TotalRemain := total_of ps_Remain fmt all,
     cs_TotalUsed := total_of ps_Used fmt all, cs_TotalSize := total_of ps_Size fmt all, cs_Packages := map (package_summary fmt) all\<rparr>"
  using assms
proof (induction all rule: rev_induct)
  case (snoc a all)
  have "int (length all) * 2 ^ 41 \<le> 2 ^ 20 * 2 ^ 41" using snoc.prems(2) by simp
  then have small: "wrap64 (total_of f fmt all + f (package_summary fmt a)) = total_of f fmt all + f (package_summary fmt a)"
    if "f = ps_Remain \<or> f = ps_Used \<or> f = ps_Size" for f
    using total_bounds [of all f fmt] summary_in_range [of a fmt] that snoc.prems(1) by (intro wrap64_small) auto
  then have "add_package fmt (zero_credits\<lparr>cs_TotalRemain := total_of ps_Remain fmt all, cs_TotalUsed := total_of ps_Used fmt all,
      cs_TotalSize := total_of ps_Size fmt all, cs_Packages := map (package_summary fmt) all\<rparr>) a =
    zero_credits\<lparr>cs_TotalRemain := total_of ps_Remain fmt (all @ [a]), cs_TotalUsed := total_of ps_Used fmt (all @ [a]),
      cs_TotalSize := total_of ps_Size fmt (all @ [a]), cs_Packages := map (package_summary fmt) (all @ [a])\<rparr>"
    by (simp add: add_package_def Let_def total_of_def)
  with snoc show ?case by simp
qed (simp add: total_of_def zero_credits_def)

lemma raise_used_spec:
  assumes "- (2 ^ 62) \<le> cs_TotalSize t - cs_TotalRemain t" and "cs_TotalSize t - cs_TotalRemain t \<le> 2 ^ 62"
  shows "raise_used t = t\<lparr>cs_TotalUsed := max (cs_TotalUsed t) (max 0 (cs_TotalSize t - cs_TotalRemain t))\<rparr>"
  using wrap64_small [OF assms] by (simp add: raise_used_def Let_def max_def)

definition totals_ok :: "(int \<Rightarrow> string) \<Rightarrow> resourcePackage list \<Rightarrow> int \<Rightarrow> creditsSummary \<Rightarrow> bool" where
  "totals_ok fmt all dosage t = (cs_TotalRemain t = total_of ps_Remain fmt all \<and>
     cs_TotalSize t = max (total_of ps_Size fmt all) dosage \<and> total_of ps_Used fmt all \<le> cs_TotalUsed t \<and>
     cs_TotalSize t \<le> cs_TotalUsed t + cs_TotalRemain t \<and> cs_PackCount t = int (length all) \<and>
     cs_Packages t = map (package_summary fmt) all)"

lemma credit_totals_ok:
  assumes "list_all sane all" and "length all \<le> 2 ^ 20" and "dosage \<le> 2 ^ 61"
  shows "totals_ok fmt all dosage (credit_totals fmt all dosage)"
proof -
  let ?R = "total_of ps_Remain fmt all" and ?U = "total_of ps_Used fmt all" and ?Z = "total_of ps_Size fmt all"
  have "int (length all) * 2 ^ 41 \<le> 2 ^ 20 * 2 ^ 41" using assms(2) by simp
  then have b: "0 \<le> ?R" "?R \<le> 2 ^ 61" "0 \<le> ?U" "?U \<le> 2 ^ 61" "0 \<le> ?Z" "?Z \<le> 2 ^ 61"
    using total_bounds [OF assms(1), of ps_Remain fmt] total_bounds [OF assms(1), of ps_Used fmt]
      total_bounds [OF assms(1), of ps_Size fmt] by auto
  define t where "t = (zero_credits\<lparr>cs_TotalRemain := ?R, cs_TotalUsed := ?U, cs_TotalSize := ?Z,
      cs_Packages := map (package_summary fmt) all\<rparr>)\<lparr>cs_PackCount := int (length all)\<rparr>"
  have f: "cs_TotalRemain t = ?R" "cs_TotalUsed t = ?U" "cs_TotalSize t = ?Z" "cs_PackCount t = int (length all)"
      "cs_Packages t = map (package_summary fmt) all" by (simp_all add: t_def)
  define t1 where "t1 = (if cs_TotalSize t > 0 then raise_used t else t)"
  have t1: "t1 = t\<lparr>cs_TotalUsed := max ?U (?Z - ?R)\<rparr>"
  proof (cases "cs_TotalSize t > 0")
    case True
    with b f show ?thesis by (simp add: t1_def raise_used_spec)
  next
    case False
    with b f have "max ?U (?Z - ?R) = cs_TotalUsed t" by simp
    with False show ?thesis by (simp add: t1_def)
  qed
  have "credit_totals fmt all dosage = (if dosage > cs_TotalSize t1 then raise_used (t1\<lparr>cs_TotalSize := dosage\<rparr>) else t1)"
    unfolding credit_totals_def fold_packages [OF assms(1,2)] by (simp add: Let_def t_def t1_def)
  moreover have "raise_used (t1\<lparr>cs_TotalSize := dosage\<rparr>) = t1\<lparr>cs_TotalSize := dosage, cs_TotalUsed := max (cs_TotalUsed t1) (max 0 (dosage - ?R))\<rparr>"
    if "dosage > ?Z" using that b f assms(3) t1 by (subst raise_used_spec) simp_all
  ultimately show ?thesis using b f t1 by (auto simp: totals_ok_def)
qed

lemma total_remain_zero:
  assumes "list_all sane all"
  shows "total_of ps_Remain fmt all \<le> 0 \<longleftrightarrow> list_all (\<lambda>a. ps_Remain (package_summary fmt a) = 0) all"
  using assms
proof (induction all)
  case (Cons a all)
  have "total_of ps_Remain fmt (a # all) = ps_Remain (package_summary fmt a) + total_of ps_Remain fmt all" by (simp add: total_of_def)
  with Cons summary_in_range [of a fmt] total_bounds [of all ps_Remain fmt] show ?case by auto
qed (simp add: total_of_def)

text \<open>
  (C20) The totals mean what the lifecycle takes them for: the remainder is the sum over the packages, what is used and
  what remains cover the capacity, and the account counts as exhausted exactly if no package has anything left and
  the upstream listed a package or announced a capacity. Amounts are supposed to be below a million million and
  packages below a million, which keeps the sums within 64 bits.
\<close>

theorem exhausted_iff_packages_empty:
  assumes "list_all sane all" and "length all \<le> 2 ^ 20" and "dosage \<le> 2 ^ 61"
  shows "totals_ok fmt all dosage (credit_totals fmt all dosage) \<and>
    (isCreditsExhausted (Some (credit_totals fmt all dosage)) \<longleftrightarrow>
      list_all (\<lambda>p. ps_Remain p = 0) (cs_Packages (credit_totals fmt all dosage)) \<and> (all \<noteq> [] \<or> dosage > 0))"
proof -
  define t where "t = credit_totals fmt all dosage"
  have ok: "totals_ok fmt all dosage t" using credit_totals_ok [OF assms] by (simp add: t_def)
  then have empty: "\<not> cs_TotalRemain t > 0 \<longleftrightarrow> list_all (\<lambda>p. ps_Remain p = 0) (cs_Packages t)"
    using total_remain_zero [OF assms(1), of fmt] by (auto simp: totals_ok_def list_all_iff)
  have "isCreditsExhausted (Some t) \<longleftrightarrow> list_all (\<lambda>p. ps_Remain p = 0) (cs_Packages t) \<and> (all \<noteq> [] \<or> dosage > 0)"
  proof (cases "all = []")
    case True
    have "wrap64 dosage = dosage" if "dosage > 0" using that assms(3) by (intro wrap64_small) simp_all
    then show ?thesis
      by (simp add: t_def True credit_totals_def Let_def zero_credits_def isCreditsExhausted_def raise_used_def)
  next
    case False
    then have "cs_Packages t \<noteq> []" using ok by (simp add: totals_ok_def)
    with False show ?thesis by (simp add: isCreditsExhausted_def empty [symmetric])
  qed
  with ok show ?thesis by (simp add: t_def)
qed

section \<open>Concrete listings\<close>

definition demo_package :: "int \<Rightarrow> resourcePackage" where
  "demo_package n = \<lparr>rp_PackageName = ''p'', rp_CapacityRemain = n, rp_CapacityUsed = 5, rp_CapacitySize = n + 5, rp_CycleCapacityRemain = 0,
     rp_CycleCapacityUsed = 0, rp_CycleCapacitySize = 0, rp_CycleStartTime = [], rp_CycleEndTime = [], rp_DeductionEndTime = 0,
     rp_ExpiredTime = [], rp_PackageEndTime = []\<rparr>"

text \<open>The body of an answer is the number of its page in unary.\<close>

definition demo_billing :: billing_json where
  "demo_billing = auth_json.extend (demo_codec [])
     (billing_json.fields (\<lambda>s. Inr \<lparr>env_Code = 0, env_Msg = [], env_Data = s\<rparr>) (\<lambda>s. Inr None)
       (\<lambda>s. Inr (listing [demo_package 0] 1 0 (length s))) (\<lambda>s. None) (\<lambda>s. None) (\<lambda>s. None) (\<lambda>s. None))"

definition demo_answers :: billing_world where
  "demo_answers path i n = (if path = resource_path then Inr \<lparr>ha_status = 200, ha_body = replicate i CHR ''1''\<rparr>
     else Inr \<lparr>ha_status = (if n = 0 then 502 else 200), ha_body = []\<rparr>)"

lemma demo_page: "fetch_page demo_billing demo_answers p = Inr (listing [demo_package 0] 1 0 p)"
  by (simp add: fetch_page_def billingCall_def billing_attempts_def billingRetryDelays_def billingCallOnce_def demo_answers_def
      demo_billing_def auth_json.defs billing_json.defs)

theorem pages_complete_witness:
  "fetchPersonalUserResource (\<lambda>t. []) demo_billing demo_answers = Some (Inr (credit_totals (\<lambda>t. []) [demo_package 0] 0))"
  using pages_complete [of demo_billing demo_answers "[demo_package 0]" 1 0 "\<lambda>t. []"] demo_page by simp

theorem exhausted_iff_packages_empty_witness:
  "isCreditsExhausted (Some (credit_totals (\<lambda>t. []) [demo_package 0] 0))"
proof -
  have "sane (demo_package 0)" by (simp add: sane_def demo_package_def)
  moreover have "list_all (\<lambda>p. ps_Remain p = 0) (cs_Packages (credit_totals (\<lambda>t. []) [demo_package 0] 0))" by code_simp
  ultimately show ?thesis
    using exhausted_iff_packages_empty [of "[demo_package 0]" 0 "\<lambda>t. []"] by simp
qed

theorem retry_bounded_witness:
  "transient (billingCallOnce demo_billing ''/x'' (demo_answers ''/x'' 0 0)) \<and> snd (billing_attempts demo_billing ''/x'' (demo_answers ''/x'' 0)) = 2"
proof -
  have r: "billing_attempts demo_billing ''/x'' (demo_answers ''/x'' 0) = (Inr [], 2)" by code_simp
  show ?thesis using retry_bounded [OF r] r by simp
qed

section \<open>Where the code and its comments differ\<close>

text \<open>A failure of the transport is not retried, although the comment says so.\<close>

theorem transport_failure_not_retried:
  "billing_attempts lib path (\<lambda>n. Inl ''connection refused'') = (Inl ''connection refused'', 1)"
proof -
  have "\<not> isTransientBillingErr ''connection refused''" by code_simp
  then show ?thesis by (simp add: billing_attempts_def billingRetryDelays_def billingCallOnce_def)
qed

text \<open>A claim that is answered with \<open>null\<close> data stores into a nil map.\<close>

theorem null_claim_panics:
  "billingCall lib w ''/v2/billing/meter/daily-checkin'' 0 = Inr data \<Longrightarrow> bj_map lib data = Inr None \<Longrightarrow> performCheckinCall lib w = Panics"
  by (simp add: performCheckinCall_def claimed_def)

end
