(* ===== verification/Checkin_Props.thy ===== *)
theory Checkin_Props
  imports Checkin Billing_Props
begin

text \<open>
  The properties of the schedule and of the check-in: what is started when, and when the timer
  fires; the counts of a check-in add up, and the cache keeps what the check-in does not know.
\<close>

section \<open>The schedule\<close>

lemma hours_valid: "h \<in> set all_hours \<Longrightarrow> 0 \<le> h \<and> h < 24"
  by (auto simp: all_hours_def checkinHours_def keepaliveHours_def activityHours_def travelHours_def)

text \<open>Every slot is ahead, by a day at most, and is the slot of its own day.\<close>

lemma next_slot_ahead:
  assumes "0 \<le> h" and "h < 24"
  shows "now < next_slot off now h" "next_slot off now h \<le> now + 24 * Hour"
    "next_slot off now h = at_hour off (local_day off now) h \<or> next_slot off now h = at_hour off (local_day off now + 1) h"
proof -
  define r where "r = (now + off) mod (24 * Hour)"
  define b where "b = local_day off now * (24 * Hour) - off"
  define s where "s = slot_today off now h"
  have now: "now = b + r" using local_split [of now off] by (simp add: r_def b_def)
  have r: "0 \<le> r" "r < 24 * Hour" by (simp_all add: r_def Hour_ns)
  have s: "s = b + h * Hour" by (simp add: s_def b_def slot_today_def at_hour_def)
  have h: "0 \<le> h * Hour" "h * Hour < 24 * Hour" using assms by (simp_all add: Hour_ns)
  have n: "next_slot off now h = (if \<not> s > now then s + 24 * Hour else s)" by (simp add: next_slot_def s_def)
  show "now < next_slot off now h" "next_slot off now h \<le> now + 24 * Hour"
    unfolding n using now r s h by (cases "s > now"; simp)+
  show "next_slot off now h = at_hour off (local_day off now) h \<or> next_slot off now h = at_hour off (local_day off now + 1) h"
    unfolding n s by (simp add: b_def at_hour_def algebra_simps)
qed

lemma slot_hour:
  assumes "0 \<le> h" and "h < 24" and "at_hour off d h \<le> t" and "t < at_hour off d h + Hour"
  shows "slot_today off t h = at_hour off d h"
proof -
  have "(t + off) div (24 * Hour) = d"
    by (rule int_div_pos_eq [of _ _ _ "t + off - d * (24 * Hour)"]) (use assms in \<open>auto simp: at_hour_def Hour_ns\<close>)
  then show ?thesis by (simp add: slot_today_def local_day_def)
qed

lemma fold_earlier:
  assumes "\<And>h. h \<in> set hs \<Longrightarrow> 0 < f h" and "0 < e"
  shows "foldl (\<lambda>e h. earlier e (f h)) e hs \<in> insert e (f ` set hs) \<and> foldl (\<lambda>e h. earlier e (f h)) e hs \<le> e \<and>
    (\<forall>h \<in> set hs. foldl (\<lambda>e h. earlier e (f h)) e hs \<le> f h)"
  using assms
proof (induction hs arbitrary: e)
  case (Cons h hs)
  then have e: "0 < earlier e (f h)" "earlier e (f h) \<le> e" "earlier e (f h) \<le> f h" "earlier e (f h) \<in> {e, f h}"
    by (auto simp: earlier_def)
  with Cons.IH [OF Cons.prems(1) e(1)] Cons.prems(1) show ?case by (auto intro: order_trans)
qed simp

lemma next_time:
  assumes "0 \<le> now" and "hs \<noteq> []" and "\<And>h. h \<in> set hs \<Longrightarrow> 0 \<le> h \<and> h < 24"
    and "t = foldl (\<lambda>e h. earlier e (next_slot off now h)) 0 hs"
  shows "(\<exists>h \<in> set hs. t = next_slot off now h) \<and> (\<forall>h \<in> set hs. t \<le> next_slot off now h)"
proof -
  obtain h hs' where hs: "hs = h # hs'" using assms(2) by (cases hs) auto
  have pos: "0 < next_slot off now k" if "k \<in> set hs" for k
    using next_slot_ahead(1) [where h = k and now = now and off = off] assms(1,3) that by (meson order_le_less_trans)
  have t: "t = foldl (\<lambda>e h. earlier e (next_slot off now h)) (next_slot off now h) hs'"
    using assms(4) by (simp add: hs earlier_def)
  show ?thesis using fold_earlier [of hs' "next_slot off now" "next_slot off now h"] pos unfolding t by (auto simp: hs)
qed

text \<open>The hour of the local day, and the full hours at which a task is due.\<close>

definition clock_hour :: "int \<Rightarrow> gtime \<Rightarrow> int" where
  "clock_hour off t = (t + off) div Hour mod 24"

definition due :: "int \<Rightarrow> gtime \<Rightarrow> bool" where
  "due off t = ((t + off) mod Hour = 0 \<and> clock_hour off t \<in> {9, 10, 21, 22})"

lemma day_split:
  "t + off = local_day off t * (24 * Hour) + (clock_hour off t * Hour + (t + off) mod Hour)"
  "0 \<le> (t + off) mod Hour" "(t + off) mod Hour < Hour" "0 \<le> clock_hour off t" "clock_hour off t < 24"
proof -
  have "(t + off) mod (24 * Hour) = clock_hour off t * Hour + (t + off) mod Hour"
    using zmod_zmult2_eq [of 24 "t + off" Hour] by (simp add: clock_hour_def mult.commute)
  then show "t + off = local_day off t * (24 * Hour) + (clock_hour off t * Hour + (t + off) mod Hour)"
    using div_mult_mod_eq [of "t + off" "24 * Hour"] by (simp add: local_day_def)
qed (simp_all add: Hour_ns clock_hour_def)

lemma slot_offset: "slot_today off t h = t + (h - clock_hour off t) * Hour - (t + off) mod Hour"
  using day_split(1) [of t off] by (simp add: slot_today_def at_hour_def algebra_simps)

lemma slot_now: "\<not> t < slot_today off t h \<and> t < slot_today off t h + Hour \<longleftrightarrow> clock_hour off t = h"
proof -
  define x where "x = (h - clock_hour off t) * Hour"
  have "x \<ge> Hour" if "h > clock_hour off t"
    using that mult_right_mono [of 1 "h - clock_hour off t" Hour] by (simp add: Hour_ns x_def)
  moreover have "x \<le> - Hour" if "h < clock_hour off t"
    using that mult_right_mono [of "h - clock_hour off t" "- 1" Hour] by (simp add: Hour_ns x_def)
  moreover have "x = 0" if "h = clock_hour off t" using that by (simp add: x_def)
  moreover have "slot_today off t h = t + x - (t + off) mod Hour" by (simp add: slot_offset x_def)
  moreover have "0 \<le> (t + off) mod Hour" "(t + off) mod Hour < Hour" by (rule day_split)+
  ultimately show ?thesis by (cases h "clock_hour off t" rule: linorder_cases) linarith+
qed

lemma actions_by_hour:
  "scheduledActionsFor off t =
     (clock_hour off t \<in> {9, 21}, clock_hour off t = 22, clock_hour off t = 10, clock_hour off t \<in> {9, 21})"
  by (auto simp: scheduledActionsFor_def scheduledInCurrentHour_def slot_now checkinHours_def keepaliveHours_def
      activityHours_def travelHours_def)

lemma all_hours_set: "set all_hours = {9, 10, 21, 22}"
  by (auto simp: all_hours_def checkinHours_def keepaliveHours_def activityHours_def travelHours_def)

lemma slot_due: "0 \<le> h \<Longrightarrow> h < 24 \<Longrightarrow> (at_hour off d h + off) mod Hour = 0 \<and> clock_hour off (at_hour off d h) = h"
proof -
  assume h: "0 \<le> h" "h < 24"
  have "at_hour off d h + off = (d * 24 + h) * Hour" by (simp add: at_hour_def algebra_simps)
  then show ?thesis using h by (simp add: clock_hour_def Hour_ns)
qed

text \<open>No full hour of a task lies between now and its next slot.\<close>

lemma next_slot_least:
  assumes "now < t" and "(t + off) mod Hour = 0"
  shows "next_slot off now (clock_hour off t) \<le> t"
proof -
  let ?h = "clock_hour off t" and ?d = "local_day off now" and ?e = "local_day off t"
  have t: "t = at_hour off ?e ?h" using day_split(1) [of t off] assms(2) by (simp add: at_hour_def algebra_simps)
  have step: "at_hour off d ?h + 24 * Hour = at_hour off (d + 1) ?h" for d by (simp add: at_hour_def algebra_simps)
  have mono: "d \<le> d' \<Longrightarrow> at_hour off d ?h \<le> at_hour off d' ?h" for d d'
    by (simp add: at_hour_def Hour_ns)
  have "?d \<le> ?e" using assms(1) by (simp add: local_day_def zdiv_mono1 Hour_ns)
  show ?thesis
  proof (cases "slot_today off now ?h > now")
    case True
    then show ?thesis using mono [OF \<open>?d \<le> ?e\<close>] t by (simp add: next_slot_def slot_today_def)
  next
    case False
    then have "at_hour off ?d ?h < at_hour off ?e ?h" using assms(1) t by (simp add: slot_today_def)
    then have "?d + 1 \<le> ?e" using mono [of ?e ?d] by linarith
    then show ?thesis using False mono [of "?d + 1" ?e] t by (simp add: next_slot_def slot_today_def step)
  qed
qed

text \<open>
  (C24) The daily tasks. At every moment the tasks to start are those of the local hour: the check-in and the travel at 9 and
  21 o'clock, the activity at 10, the refresh of the tokens at 22. The timer fires at the first of these full hours
  after now, at most a day ahead, and within the hour that begins then the same tasks are started, at least one.
\<close>

theorem wake_runs_task:
  assumes "0 \<le> now"
  shows "(\<forall>t. scheduledActionsFor off t =
       (clock_hour off t \<in> {9, 21}, clock_hour off t = 22, clock_hour off t = 10, clock_hour off t \<in> {9, 21})) \<and>
    now < nextCheckinTime off now \<and> nextCheckinTime off now \<le> now + 24 * Hour \<and>
    due off (nextCheckinTime off now) \<and> (\<forall>t. now < t \<and> t < nextCheckinTime off now \<longrightarrow> \<not> due off t) \<and>
    (\<forall>t. nextCheckinTime off now \<le> t \<and> t < nextCheckinTime off now + Hour \<longrightarrow>
      scheduledActionsFor off t = scheduledActionsFor off (nextCheckinTime off now) \<and>
      scheduledActionsFor off t \<noteq> (False, False, False, False))"
proof -
  have ne: "all_hours \<noteq> []" by (simp add: all_hours_def checkinHours_def)
  obtain h where h: "h \<in> set all_hours" "nextCheckinTime off now = next_slot off now h"
      and least: "\<forall>h \<in> set all_hours. nextCheckinTime off now \<le> next_slot off now h"
    using next_time [OF assms ne hours_valid nextCheckinTime_def] by blast
  note v = hours_valid [OF h(1)]
  obtain d where d: "next_slot off now h = at_hour off d h" using next_slot_ahead(3) [where h = h and now = now and off = off] v by blast
  have wake: "(nextCheckinTime off now + off) mod Hour = 0" "clock_hour off (nextCheckinTime off now) = h"
    using slot_due [of h off d] v by (simp_all add: h(2) d)
  have "\<not> due off t" if "now < t" "t < nextCheckinTime off now" for t
  proof
    assume "due off t"
    then have "clock_hour off t \<in> set all_hours" "next_slot off now (clock_hour off t) \<le> t"
      using next_slot_least that(1) by (simp_all add: due_def all_hours_set)
    with least that(2) show False by force
  qed
  moreover have "clock_hour off t = h" if "nextCheckinTime off now \<le> t" "t < nextCheckinTime off now + Hour" for t
  proof -
    have "slot_today off t h = at_hour off d h" using slot_hour [of h off d t] v that by (simp add: h(2) d)
    with that show ?thesis using slot_now [of t off h] by (simp add: h(2) d)
  qed
  moreover have "due off (nextCheckinTime off now)" using wake h(1) by (simp add: due_def all_hours_set)
  ultimately show ?thesis
    using next_slot_ahead [where h = h and now = now and off = off] v h wake
    by (auto simp: actions_by_hour all_hours_set)
qed

theorem wake_runs_task_witness: "due 0 (nextCheckinTime 0 0) \<and> nextCheckinTime 0 0 \<le> 24 * Hour"
  using wake_runs_task [of 0 0] by simp

section \<open>Counts\<close>

lemma count_row_sum:
  "cc_success (count_row c out) + cc_fail (count_row c out) + cc_already (count_row c out) + cc_global (count_row c out) =
   Suc (cc_success c + cc_fail c + cc_already c + cc_global c)"
  by (simp add: count_row_def Let_def)

lemma count_rows_sum:
  "cc_success (foldl count_row c rows) + cc_fail (foldl count_row c rows) + cc_already (foldl count_row c rows) +
   cc_global (foldl count_row c rows) = length rows + (cc_success c + cc_fail c + cc_already c + cc_global c)"
  by (induction rows arbitrary: c) (simp_all add: count_row_sum)

lemma checkin_each_length: "checkin_each lib host err w now i fs m = Returns (rows, m') \<Longrightarrow> length rows = length fs"
  by (induction fs arbitrary: i m rows) (auto split: go_result.splits)

text \<open>
  The counts of a check-in add up: the reply to a check-in on demand has one row for every account that was
  asked for, in their order, and the successes, failures, accounts done before and global accounts are as many.
\<close>

theorem checkin_counts_add_up:
  assumes "handleManualCheckin lib host list_err err w now index m = Returns (CheckinReply rows c n, log_rows, m')"
  shows "length rows = n \<and> cc_success c + cc_fail c + cc_already c + cc_global c = n \<and> log_rows = logged_rows rows"
proof -
  have "n = length rows" "c = count_rows rows" "log_rows = logged_rows rows"
    using assms
    by (auto simp: handleManualCheckin_def Let_def dest: checkin_each_length split: option.splits if_splits go_result.splits)
  then show ?thesis using count_rows_sum [of _ rows] by (simp add: count_rows_def)
qed

section \<open>The cache\<close>

text \<open>What a check-in leaves of the entry of an account.\<close>

definition keeps_account :: "string + creditsSummary \<Rightarrow> accountCacheEntry \<Rightarrow> accountCacheEntry \<Rightarrow> bool" where
  "keeps_account cr e e' = (ce_plan e' = ce_plan e \<and> ce_uid e' = ce_uid e \<and> (ce_credits e' = ce_credits e \<or> ce_credits e' = right cr))"

lemma merge_other: "k \<noteq> authID \<Longrightarrow> gm_get (mergeCheckinCache now authID ci m) k = gm_get m k"
  by (simp add: mergeCheckinCache_def)

lemma fresh_other: "k \<noteq> authID \<Longrightarrow> gm_get (fresh_credits now authID cr m) k = gm_get m k"
  by (auto simp: fresh_credits_def split: sum.splits option.splits)

lemma merge_same: "gm_get m authID = Some e \<Longrightarrow> gm_get (mergeCheckinCache now authID ci m) authID = Some (e\<lparr>ce_checkin := Some ci, ce_fetched := now\<rparr>)"
  by (simp add: mergeCheckinCache_def)

lemma fresh_same:
  "gm_get m authID = Some e \<Longrightarrow> \<exists>e'. gm_get (fresh_credits now authID cr m) authID = Some e' \<and> keeps_account cr e e'"
  by (auto simp: fresh_credits_def keeps_account_def right_def split: sum.splits)

text \<open>
  A scheduled check-in keeps what it does not know: it changes the cached entry of its own account only, and
  there the plan, the owner and the credits stay, unless the credits were queried again.
\<close>

theorem checkin_keeps_cache:
  assumes "auto_checkin lib w cr t authID sa m = Returns (m', rows)"
  shows "(\<forall>k. k \<noteq> authID \<longrightarrow> gm_get m' k = gm_get m k) \<and>
    (case gm_get m authID of None \<Rightarrow> True | Some e \<Rightarrow> (case gm_get m' authID of None \<Rightarrow> False | Some e' \<Rightarrow> keeps_account cr e e'))"
proof -
  have k: "keeps_account cr e e" for e by (simp add: keeps_account_def)
  have merged: ?thesis if "m' = mergeCheckinCache now authID ci m0" "m0 = m \<or> m0 = fresh_credits now0 authID cr m" for now now0 ci m0
  proof -
    have "\<exists>e'. gm_get m0 authID = Some e' \<and> keeps_account cr e e'" if "gm_get m authID = Some e" for e
      using that fresh_same [OF that, of now0 cr] \<open>m0 = m \<or> _\<close> k by auto
    then show ?thesis using that merge_other fresh_other
      by (auto simp: merge_same keeps_account_def split: option.splits)
  qed
  from assms consider "m' = m" | now ci where "m' = mergeCheckinCache now authID ci m"
    | now now0 ci where "m' = mergeCheckinCache now authID ci (fresh_credits now0 authID cr m)"
    by (auto simp: auto_checkin_def Let_def split: sum.splits if_splits go_result.splits)
  then show ?thesis
  proof cases
    case 1
    then show ?thesis using k by (simp split: option.splits)
  qed (use merged in blast)+
qed

section \<open>A concrete check-in\<close>

definition demo_file :: hostAuthFileEntry where
  "demo_file = \<lparr>fe_ID = ''d'', fe_AuthIndex = ''i'', fe_Name = ''workbuddy-u.json'', fe_Path = [], fe_Disabled = False\<rparr>"

definition demo_hosted :: host_world where
  "demo_hosted = demo_world\<lparr>hw_list := Some [demo_file]\<rparr>"

definition down :: billing_world where
  "down path i n = Inl ''down''"

definition demo_checkin :: "(checkin_reply \<times> taskRow list \<times> account_cache) go_result" where
  "demo_checkin = handleManualCheckin demo_billing demo_hosted [] (\<lambda>i. []) (\<lambda>i. down) (\<lambda>i. 0) [] []"

definition demo_rows :: "row list" where
  "demo_rows = [[(''auth_index'', JStr ''i''), (''nickname'', JStr []), (''success'', JBool False), (''message'', JStr ''down'')]]"

lemma demo_checkin_reply:
  "demo_checkin = Returns (CheckinReply demo_rows (count_rows demo_rows) 1, logged_rows demo_rows,
     mergeCheckinCache 0 ''d'' checked_in_placeholder [])"
  by code_simp

theorem checkin_counts_add_up_witness:
  "cc_success (count_rows demo_rows) + cc_fail (count_rows demo_rows) + cc_already (count_rows demo_rows) + cc_global (count_rows demo_rows) = 1"
  using checkin_counts_add_up [OF demo_checkin_reply [unfolded demo_checkin_def]] by simp

definition demo_entry :: accountCacheEntry where
  "demo_entry = \<lparr>ce_checkin = None, ce_credits = None, ce_plan = ''pro'', ce_fetched = 0, ce_uid = ''u''\<rparr>"

theorem checkin_keeps_cache_witness:
  "\<exists>m'. auto_checkin demo_billing demo_answers (Inl []) (\<lambda>n. 0) ''d'' (demo_stored []) [(''d'', demo_entry)] = Returns (m', []) \<and>
     gm_get m' ''d'' \<noteq> None"
proof -
  have f: "fetchCheckinStatus demo_billing demo_answers 0 = Inr (checkin_summary [])" by code_simp
  have inactive: "\<not> ck_Active (checkin_summary [])" by (simp add: checkin_summary_def)
  have r: "auto_checkin demo_billing demo_answers (Inl []) (\<lambda>n. 0) ''d'' (demo_stored []) [(''d'', demo_entry)] =
      Returns (mergeCheckinCache 0 ''d'' (checkin_summary []) [(''d'', demo_entry)], [])"
    by (simp add: auto_checkin_def f inactive)
  from checkin_keeps_cache [OF r] show ?thesis unfolding r by (auto split: option.splits)
qed

section \<open>Where the code and its comments differ\<close>

text \<open>
  When the upstream cannot be reached, the check-in fails, and the cache nevertheless says that the account has
  checked in today: the placeholder is stored whatever the claim returned.
\<close>

lemma call_down: "(\<And>n. w path i n = Inl err) \<Longrightarrow> billingCall lib w path i = Inl err"
  by (simp add: billingCall_def billing_attempts_def billingRetryDelays_def billingCallOnce_def)

theorem failed_checkin_marked_done:
  assumes "hostAuthGet (auth_json.truncate lib) host (fe_AuthIndex f) = Some sa"
    and "TrimSpace (sto_EnterpriseID sa) = []" and "\<not> isGlobalDomain (sto_Domain sa)"
    and "\<And>path i n. w path i n = Inl ''connection refused''"
  shows "\<exists>out. checkinOneAccount lib host err w now f m =
      Returns (out, mergeCheckinCache now (fe_ID f) checked_in_placeholder m) \<and> gm_get out ''success'' = Some (JBool False)"
proof -
  have down: "billingCall lib w path i = Inl ''connection refused''" for path i by (rule call_down) (rule assms(4))
  have "\<not> Contains (ToLower ''connection refused'') ''already''" "\<not> list_ex (Contains ''connection refused'') already_texts"
    by code_simp+
  then show ?thesis
    using assms(1-3) by (simp add: checkinOneAccount_def Let_def fetchCheckinStatus_def down checkin_status_row_def performCheckinCall_def
        copy_row_def soft_already_def default_success_def row_string_def)
qed

text \<open>
  The row of an enterprise account, which may not check in at all, is counted as an eligible account that failed, and
  goes into the task log, unlike that of a global account.
\<close>

theorem enterprise_counted_failed:
  assumes "gm_get out ''error'' = None"
  shows "count_rows [skipped_row False ''enterprise'' text1 out] =
      \<lparr>cc_success = 0, cc_fail = 1, cc_already = 0, cc_global = 0, cc_eligible = 1\<rparr> \<and>
    length (logged_rows [skipped_row False ''enterprise'' text1 out]) = 1 \<and>
    count_rows [skipped_row False ''global'' text1 out] =
      \<lparr>cc_success = 0, cc_fail = 0, cc_already = 0, cc_global = 1, cc_eligible = 0\<rparr>"
  using assms by (simp add: count_rows_def count_row_def skipped_row_def row_string_def logged_rows_def)

end
