(* ===== verification/Requests.thy ===== *)
theory Requests
  imports Billing
begin

text \<open>
  Where the plugin sends its requests and with which headers, after \<^verbatim>\<open>src/plugin/main.go\<close>, the profiles of
  \<^verbatim>\<open>src/plugin/oauth.go\<close> and \<^verbatim>\<open>src/plugin/proxy.go\<close>, and what the host is told about a credential. A header is a
  map from names to values that \<open>Set\<close> replaces; random identifiers are arguments.
\<close>

section \<open>Endpoints\<close>

definition upstreamBaseCN :: string where "upstreamBaseCN = ''https://copilot.tencent.com''"
definition upstreamBaseGlobal :: string where "upstreamBaseGlobal = ''https://www.workbuddy.ai''"
definition clientUA :: string where "clientUA = ''CLI/2.63.2 CodeBuddy/2.63.2''"
definition originReferer :: string where "originReferer = ''https://www.codebuddy.cn''"
definition originRefererGlobal :: string where "originRefererGlobal = ''https://www.workbuddy.ai''"
definition endpointAuthState :: string where "endpointAuthState = upstreamBaseCN @ ''/v2/plugin/auth/state?platform=CLI''"
definition endpointLoginAcct :: string where "endpointLoginAcct = upstreamBaseCN @ ''/v2/plugin/login/account?state=''"
definition endpointAuthToken :: string where "endpointAuthToken = upstreamBaseCN @ ''/v2/plugin/auth/token?state=''"

definition is_global :: "storedAuth option \<Rightarrow> bool" where
  "is_global sa = (case sa of None \<Rightarrow> False | Some sa \<Rightarrow> isGlobalDomain (sto_Domain sa))"

definition originRefererFor :: "storedAuth option \<Rightarrow> string" where
  "originRefererFor sa = (if is_global sa then originRefererGlobal else originReferer)"

definition upstreamBaseFor :: "storedAuth option \<Rightarrow> string" where
  "upstreamBaseFor sa = (if is_global sa then upstreamBaseGlobal else upstreamBaseCN)"

definition endpointChatFor :: "storedAuth option \<Rightarrow> string" where
  "endpointChatFor sa = upstreamBaseFor sa @ ''/v2/chat/completions''"

definition endpointTokenRefreshFor :: "storedAuth option \<Rightarrow> string" where
  "endpointTokenRefreshFor sa = upstreamBaseFor sa @ ''/v2/plugin/auth/token/refresh''"

section \<open>Headers\<close>

type_synonym header = "(string, string) gomap"

definition set_all :: "(string \<times> string) list \<Rightarrow> header \<Rightarrow> header" where
  "set_all fs h = put_all fs h"

definition commonHeaders :: "header \<Rightarrow> header" where
  "commonHeaders h = set_all [(''Content-Type'', ''application/json''), (''Accept'', ''application/json, text/plain, */*''),
     (''X-Requested-With'', ''XMLHttpRequest''), (''Origin'', originReferer), (''Referer'', originReferer @ ''/''),
     (''User-Agent'', clientUA)] h"

text \<open>A field that is present under its name, or its absence under another one.\<close>

definition present_or :: "string \<Rightarrow> string \<Rightarrow> string \<Rightarrow> string \<Rightarrow> header \<Rightarrow> header" where
  "present_or k pre absent v h = (if v \<noteq> [] then gm_put k (pre @ v) h else gm_put absent ''1'' h)"

definition backendHeaders :: "storedAuth \<Rightarrow> string list \<Rightarrow> header \<Rightarrow> header" where
  "backendHeaders sa rnd h =
     (let h = commonHeaders h;
          h = present_or ''Authorization'' ''Bearer '' ''X-No-Authorization'' (sto_AccessToken sa) h;
          h = present_or ''X-User-Id'' [] ''X-No-User-Id'' (sto_UID sa) h;
          h = present_or ''X-Enterprise-Id'' [] ''X-No-Enterprise-Id'' (sto_EnterpriseID sa) h;
          h = present_or ''X-Domain'' [] ''X-No-Department-Info'' (sto_Domain sa) h;
          h = (if sto_DeviceToken sa \<noteq> [] then gm_put ''X-Device-Token'' (sto_DeviceToken sa) h else h);
          h = set_all [(''X-Product'', ''SaaS''), (''X-IDE-Type'', ''CLI''), (''X-IDE-Name'', ''CLI''), (''X-IDE-Version'', ''2.63.2''),
                (''X-Agent-Intent'', ''craft'')] h;
          h = set_all (zip [''X-Request-ID'', ''X-Conversation-ID'', ''X-Conversation-Request-ID'', ''X-Conversation-Message-ID''] rnd) h;
          origin = originRefererFor (Some sa)
      in set_all [(''Origin'', origin), (''Referer'', origin @ ''/'')] h)"

section \<open>Login profiles\<close>

definition oauthClientModeCLI :: string where "oauthClientModeCLI = ''cli''"
definition oauthClientModeWorkBuddy :: string where "oauthClientModeWorkBuddy = ''workbuddy''"

record oauthRequestProfile =
  op_mode :: string
  op_stateURL :: string
  op_userAgent :: string
  op_origin :: string

definition oauthProfileForMode :: "string \<Rightarrow> oauthRequestProfile" where
  "oauthProfileForMode mode =
     (if mode = oauthClientModeWorkBuddy
      then \<lparr>op_mode = oauthClientModeWorkBuddy, op_stateURL = upstreamBaseCN @ ''/v2/plugin/auth/state?platform=workbuddy'',
            op_userAgent = ''WorkBuddy/5.3.14 WorkBuddy/5.3.14 CLI/2.115.0'', op_origin = ''https://www.workbuddy.cn''\<rparr>
      else \<lparr>op_mode = oauthClientModeCLI, op_stateURL = endpointAuthState, op_userAgent = clientUA, op_origin = originReferer\<rparr>)"

definition applyOAuthProfileHeaders :: "oauthRequestProfile \<Rightarrow> header \<Rightarrow> header" where
  "applyOAuthProfileHeaders profile h =
     (let h = commonHeaders h in
      if op_mode profile \<noteq> oauthClientModeWorkBuddy then h
      else set_all [(''User-Agent'', op_userAgent profile), (''Origin'', op_origin profile), (''Referer'', op_origin profile @ ''/'')] h)"

definition applyAnonymousOAuthHeaders :: "oauthRequestProfile \<Rightarrow> header \<Rightarrow> header" where
  "applyAnonymousOAuthHeaders profile h =
     (let h = applyOAuthProfileHeaders profile h in
      if op_mode profile \<noteq> oauthClientModeWorkBuddy then h
      else set_all [(''X-No-Authorization'', ''true''), (''X-No-User-Id'', ''true''), (''X-No-Enterprise-Id'', ''true''),
             (''X-No-Department-Info'', ''true'')] h)"

text \<open>A request is its address and its header.\<close>

definition buildAuthStateRequest :: "oauthRequestProfile \<Rightarrow> string \<times> header" where
  "buildAuthStateRequest profile = (op_stateURL profile, applyAnonymousOAuthHeaders profile [])"

definition buildAuthTokenRequest :: "oauthRequestProfile \<Rightarrow> string \<Rightarrow> string \<times> header" where
  "buildAuthTokenRequest profile state = (endpointAuthToken @ state, applyAnonymousOAuthHeaders profile [])"

definition buildLoginAccountRequest :: "oauthRequestProfile \<Rightarrow> string \<Rightarrow> string \<Rightarrow> string \<times> header" where
  "buildLoginAccountRequest profile state accessToken =
     (endpointLoginAcct @ state,
      let h = gm_put ''Authorization'' (''Bearer '' @ accessToken) (applyOAuthProfileHeaders profile []) in
      if op_mode profile = oauthClientModeWorkBuddy
      then set_all [(''X-No-User-Id'', ''true''), (''X-No-Enterprise-Id'', ''true''), (''X-No-Department-Info'', ''true'')] h else h)"

definition buildTokenRefreshRequest :: "oauthRequestProfile \<Rightarrow> storedAuth \<Rightarrow> string \<times> header" where
  "buildTokenRefreshRequest profile sa =
     (endpointTokenRefreshFor (Some sa),
      let h = applyOAuthProfileHeaders profile [];
          h = (if op_mode profile = oauthClientModeWorkBuddy
               then set_all ([(''X-No-Authorization'', ''true''), (''X-No-User-Id'', ''true''), (''X-No-Department-Info'', ''true'')] @
                      (if sto_EnterpriseID sa = [] then [(''X-No-Enterprise-Id'', ''true'')] else [])) h
               else h);
          h = gm_put ''X-Refresh-Token'' (sto_RefreshToken sa) h;
          h = (if sto_EnterpriseID sa \<noteq> [] then gm_put ''X-Enterprise-Id'' (sto_EnterpriseID sa) h else h)
      in gm_put ''X-Auth-Refresh-Source'' ''plugin'' h)"

section \<open>Routing\<close>

datatype proxyMode = proxyModeInherit | proxyModeExplicit | proxyModeBlocked

text \<open>The mode, and whether it has a client of its own.\<close>

type_synonym proxyRoutingState = "proxyMode \<times> bool"

definition configureProxy :: "string \<Rightarrow> bool \<times> proxyRoutingState" where
  "configureProxy raw = (if raw = [] then (True, (proxyModeInherit, False)) else (False, (proxyModeBlocked, False)))"

definition routing_blocked :: "proxyRoutingState \<Rightarrow> bool" where
  "routing_blocked st = (fst st = proxyModeBlocked \<or> fst st = proxyModeExplicit \<and> \<not> snd st)"

section \<open>What the host is told about a credential\<close>

record authData =
  ad_Provider :: string
  ad_ID :: string
  ad_FileName :: string
  ad_Label :: string
  ad_Disabled :: bool
  ad_Storage :: storedAuth
  ad_Note :: string

definition labelForAuth :: "storedAuth \<Rightarrow> string" where
  "labelForAuth sa =
     (let base = (if TrimSpace (sto_Nickname sa) \<noteq> [] then TrimSpace (sto_Nickname sa) else ''WorkBuddy'');
          tag = (if accountRegion sa = ''global'' then ''Global'' else ''CN'')
      in base @ '' ['' @ tag @ '']'')"

text \<open>Provider, logo and type of the metadata are constants; the storage is encoded by the host boundary.\<close>

definition toAuthDataOpts :: "storedAuth \<Rightarrow> creditsSummary option \<Rightarrow> bool \<Rightarrow> authData" where
  "toAuthDataOpts sa cr disabled =
     (let uid = sanitizeUIDForFileName (sto_UID sa) in
      \<lparr>ad_Provider = providerName, ad_ID = (if uid \<noteq> [] then uid else providerName),
       ad_FileName = (if uid \<noteq> [] then ''workbuddy-'' @ uid @ ''.json'' else authFileName), ad_Label = labelForAuth sa,
       ad_Disabled = disabled, ad_Storage = sa, ad_Note = displayNote sa cr disabled\<rparr>)"

definition toAuthData :: "storedAuth \<Rightarrow> authData" where
  "toAuthData sa = toAuthDataOpts sa None False"

definition toAuthDataForLoginPoll :: "storedAuth \<Rightarrow> authData" where
  "toAuthDataForLoginPoll sa = (toAuthData sa)\<lparr>ad_ID := []\<rparr>"

definition toAuthDataForRefresh :: "storedAuth \<Rightarrow> authData" where
  "toAuthDataForRefresh sa = (toAuthDataOpts sa None False)\<lparr>ad_FileName := [], ad_ID := []\<rparr>"

text \<open>
  Whether a file of the host is one of this provider's, and what it holds. \<open>declared\<close> is the type that the file
  states, as the decoder reads it, and the empty string if it states none.
\<close>

definition handleParseAuth :: "auth_json \<Rightarrow> string \<Rightarrow> string \<Rightarrow> string \<Rightarrow> string \<Rightarrow> authData option" where
  "handleParseAuth lib declared provider fileName raw =
     (let declared = ToLower (TrimSpace declared) in
      if declared \<noteq> [] \<and> declared \<noteq> providerName then None
      else if declared = [] \<and> \<not> EqualFold (TrimSpace provider) providerName \<and>
              \<not> HasPrefix (ToLower (TrimSpace fileName)) (providerName @ ''-'') then None
      else case parseStored lib raw of
          None \<Rightarrow> None
        | Some sa \<Rightarrow>
            (let ad = (toAuthDataOpts sa None False)\<lparr>ad_ID := []\<rparr> in
             Some (if TrimSpace fileName \<noteq> [] then ad\<lparr>ad_FileName := TrimSpace fileName\<rparr> else ad)))"

end
