(* ===== verification/Login.thy ===== *)
theory Login
  imports Requests Model_Readiness
begin

text \<open>
  The browser login and the refresh of tokens, after \<^verbatim>\<open>src/plugin/oauth.go\<close> and the janitor of
  \<^verbatim>\<open>src/plugin/main.go\<close>. A login is a state that the upstream issues; the host polls until the upstream returns
  tokens and the account. \<open>login_states\<close> holds the logins in progress. A context's HTTP client with its cookies is
  input and output; what the upstream answers to a request is an argument.
\<close>

record tokenData =
  tok_AccessToken :: string
  tok_RefreshToken :: string
  tok_ExpiresIn :: int
  tok_RefreshExpiresIn :: int
  tok_Domain :: string

record accountData =
  acc_UID :: string
  acc_EnterpriseID :: string
  acc_Nickname :: string

record authStateData =
  as_State :: string
  as_AuthURL :: string

text \<open>
  The decoders of the login, where a failure to decode the state is the empty state, \<open>net/url\<close> setting parameters
  of a query, and the test of \<open>http.NewRequest\<close> on an address.
\<close>

record login_json = billing_json +
  lj_token :: "string \<Rightarrow> tokenData option"
  lj_account :: "string \<Rightarrow> accountData option"
  lj_state :: "string \<Rightarrow> authStateData"
  lj_query :: "string \<Rightarrow> (string \<times> string) list \<Rightarrow> string option"
  lj_url :: "string \<Rightarrow> bool"
  lj_encode :: "(string \<times> json) list \<Rightarrow> string"

section \<open>Credentials from tokens\<close>

definition expiryFromExpiresIn :: "gtime \<Rightarrow> int \<Rightarrow> int \<Rightarrow> int" where
  "expiryFromExpiresIn now expiresIn oldExpiry =
     (if expiresIn \<le> 0 then oldExpiry else Unix (now + wrap64 (expiresIn * Second)))"

definition preserveExpiry :: "int \<Rightarrow> int \<Rightarrow> int" where
  "preserveExpiry newExpiry oldExpiry = (if newExpiry > 0 then newExpiry else oldExpiry)"

definition buildLoginStoredAuth :: "gtime \<Rightarrow> tokenData \<Rightarrow> accountData \<Rightarrow> storedAuth option" where
  "buildLoginStoredAuth now tok acct =
     (if TrimSpace (tok_AccessToken tok) = [] then None
      else if TrimSpace (acc_UID acct) = [] then None
      else Some \<lparr>sto_AccessToken = tok_AccessToken tok, sto_RefreshToken = tok_RefreshToken tok,
        sto_ExpiresAt = expiryFromExpiresIn now (tok_ExpiresIn tok) 0, sto_Domain = tok_Domain tok, sto_UID = acc_UID acct,
        sto_EnterpriseID = acc_EnterpriseID acct, sto_Nickname = acc_Nickname acct, sto_DeviceToken = []\<rparr>)"

text \<open>The credential after a refresh, which keeps what the upstream omits.\<close>

definition refreshed :: "gtime \<Rightarrow> tokenData \<Rightarrow> storedAuth \<Rightarrow> storedAuth" where
  "refreshed now tok sa = sa\<lparr>sto_AccessToken := tok_AccessToken tok,
     sto_RefreshToken := (if tok_RefreshToken tok \<noteq> [] then tok_RefreshToken tok else sto_RefreshToken sa),
     sto_Domain := (if tok_Domain tok \<noteq> [] then tok_Domain tok else sto_Domain sa),
     sto_ExpiresAt := expiryFromExpiresIn now (tok_ExpiresIn tok) (sto_ExpiresAt sa)\<rparr>"

section \<open>Requests\<close>

text \<open>What the upstream answers to a request, and an error text if nothing arrives.\<close>

type_synonym upstream = "string \<times> header \<Rightarrow> string + billing_answer"

text \<open>The data with the status, or the error text with the status, which is 0 without an answer.\<close>

definition doJSONRequest :: "'a billing_json_scheme \<Rightarrow> string + billing_answer \<Rightarrow> (string \<times> int) + (string \<times> int)" where
  "doJSONRequest lib answer = (case answer of
      Inl err \<Rightarrow> Inl (err, 0)
    | Inr resp \<Rightarrow>
        (let status = ha_status resp in
         if status \<ge> 400 then Inl (''http_error: upstream '' @ show_int status, status)
         else if status \<ge> 300 then Inl (''http_error: upstream redirect '' @ show_int status, status)
         else case bj_envelope lib (ha_body resp) of
             Inl err \<Rightarrow> Inl (''parse failed: '' @ err, status)
           | Inr env \<Rightarrow>
               if env_Code env \<noteq> 0
               then Inl (''code='' @ show_int (env_Code env) @ '' msg='' @ truncateRedacted (env_Msg env) 120, status)
               else Inr (env_Data env, status)))"

definition decorateDesktopAuthURL :: "'a login_json_scheme \<Rightarrow> string \<Rightarrow> string \<Rightarrow> string option" where
  "decorateDesktopAuthURL lib rawURL loginSessionID =
     lj_query lib rawURL [(''version'', ''5.3.14''), (''loginSessionId'', loginSessionID)]"

section \<open>The logins in progress\<close>

record loginCtx =
  lc_expires :: gtime
  lc_profile :: oauthRequestProfile
  lc_loginSessionID :: string

type_synonym login_states = "(string, loginCtx) gomap"

definition loginTTL :: duration where "loginTTL = 5 * Minute"

text \<open>The janitor's sweep.\<close>

definition prune_logins :: "gtime \<Rightarrow> login_states \<Rightarrow> login_states" where
  "prune_logins now m = gm_filter (\<lambda>lc. \<not> now > lc_expires lc) m"

text \<open>The address to open and the state, or an error. \<open>t\<close> and \<open>t'\<close> are the readings for the context and the reply.\<close>

definition handleStartLogin ::
  "'a login_json_scheme \<Rightarrow> proxyRoutingState \<Rightarrow> string \<Rightarrow> upstream \<Rightarrow> string \<Rightarrow> gtime \<Rightarrow> gtime \<Rightarrow> login_states \<Rightarrow>
   (string \<times> string \<times> gtime) option \<times> login_states" where
  "handleStartLogin lib routing mode answer rnd t t' m =
     (if routing_blocked routing then (None, m)
      else let profile = oauthProfileForMode mode in
        case doJSONRequest lib (answer (buildAuthStateRequest profile)) of
          Inl _ \<Rightarrow> (None, m)
        | Inr (data, _) \<Rightarrow>
            (let st = lj_state lib data in
             if as_State st = [] \<or> as_AuthURL st = [] then (None, m)
             else let desktop = (op_mode profile = oauthClientModeWorkBuddy); session = (if desktop then rnd else []) in
               case (if desktop then decorateDesktopAuthURL lib (as_AuthURL st) session else Some (as_AuthURL st)) of
                 None \<Rightarrow> (None, m)
               | Some url \<Rightarrow> (Some (url, as_State st, t' + loginTTL),
                   gm_put (as_State st) \<lparr>lc_expires = t + loginTTL, lc_profile = profile, lc_loginSessionID = session\<rparr> m)))"

datatype poll_reply = PollError | PollPending | PollSuccess authData

record poll_input =
  pi_now :: gtime
  pi_routing1 :: proxyRoutingState
  pi_token :: upstream
  pi_routing2 :: proxyRoutingState
  pi_account :: upstream
  pi_now2 :: gtime

text \<open>The account of the login, once the tokens are there; every outcome ends the login.\<close>

definition poll_account :: "'a login_json_scheme \<Rightarrow> poll_input \<Rightarrow> oauthRequestProfile \<Rightarrow> string \<Rightarrow> tokenData \<Rightarrow> poll_reply" where
  "poll_account lib inp profile state tok =
     (if routing_blocked (pi_routing2 inp) then PollError
      else if \<not> lj_url lib (endpointLoginAcct @ state) then PollError
      else case doJSONRequest lib (pi_account inp (buildLoginAccountRequest profile state (tok_AccessToken tok))) of
          Inl _ \<Rightarrow> PollError
        | Inr (data, _) \<Rightarrow> (case lj_account lib data of
              None \<Rightarrow> PollError
            | Some acct \<Rightarrow> (case buildLoginStoredAuth (pi_now2 inp) tok acct of
                  None \<Rightarrow> PollError
                | Some sa \<Rightarrow> PollSuccess (toAuthDataForLoginPoll sa))))"

definition poll_token :: "'a login_json_scheme \<Rightarrow> poll_input \<Rightarrow> oauthRequestProfile \<Rightarrow> string \<Rightarrow> poll_reply" where
  "poll_token lib inp profile state =
     (if \<not> lj_url lib (endpointAuthToken @ state) then PollError
      else case doJSONRequest lib (pi_token inp (buildAuthTokenRequest profile state)) of
          Inl (_, status) \<Rightarrow> if status = 0 \<or> status \<ge> 500 then PollError else PollPending
        | Inr (data, _) \<Rightarrow> (case lj_token lib data of
              None \<Rightarrow> PollPending
            | Some tok \<Rightarrow> if tok_AccessToken tok = [] then PollPending else poll_account lib inp profile state tok))"

text \<open>
  A poll loads its context, talks to the upstream, and deletes the context if that ends the login. No lock is held in
  between, so that these are two steps: \<open>load_login\<close> is the access at the beginning, \<open>finish_poll\<close> all that
  follows, whose only access to the logins is the deletion at its end.
\<close>

definition load_login :: "string \<Rightarrow> login_states \<Rightarrow> (string \<times> loginCtx) option" where
  "load_login reqState m =
     (let state = TrimSpace reqState in
      if state = [] then None else map_option (\<lambda>lc. (state, lc)) (gm_get m state))"

definition finish_poll ::
  "'a login_json_scheme \<Rightarrow> poll_input \<Rightarrow> string \<Rightarrow> loginCtx \<Rightarrow> login_states \<Rightarrow> poll_reply \<times> login_states" where
  "finish_poll lib inp state lc m =
     (if pi_now inp > lc_expires lc then (PollError, gm_del state m)
      else if routing_blocked (pi_routing1 inp) then (PollError, gm_del state m)
      else case poll_token lib inp
               (if op_mode (lc_profile lc) = [] then oauthProfileForMode oauthClientModeCLI else lc_profile lc) state of
          PollPending \<Rightarrow> (PollPending, m)
        | r \<Rightarrow> (r, gm_del state m))"

text \<open>A poll during which nobody else touches the logins.\<close>

definition handlePollLogin ::
  "'a login_json_scheme \<Rightarrow> poll_input \<Rightarrow> string \<Rightarrow> login_states \<Rightarrow> poll_reply \<times> login_states" where
  "handlePollLogin lib inp reqState m = (case load_login reqState m of
      None \<Rightarrow> (PollError, m)
    | Some (state, lc) \<Rightarrow> finish_poll lib inp state lc m)"

section \<open>Histories of logins\<close>

text \<open>
  Any number of polls may run at once, each under a number of its own: \<open>BeginPoll\<close> is its load, \<open>EndPoll\<close> the rest. The
  state is the logins in progress and the polls that run, with the context that each has loaded.
\<close>

datatype login_event =
    StartLogin proxyRoutingState string upstream string gtime gtime
  | BeginPoll nat string
  | EndPoll nat poll_input
  | Janitor gtime

datatype login_output =
    Started "(string \<times> string \<times> gtime) option"
  | Polling
  | Polled string poll_reply
  | Swept
  | Ignored

type_synonym login_system = "login_states \<times> (nat, string \<times> loginCtx) gomap"

fun login_step :: "'a login_json_scheme \<Rightarrow> login_event \<Rightarrow> login_system \<Rightarrow> login_output \<times> login_system" where
  "login_step lib (StartLogin routing mode answer rnd t t') (m, run) =
     (case handleStartLogin lib routing mode answer rnd t t' m of (r, m) \<Rightarrow> (Started r, m, run))"
| "login_step lib (BeginPoll i q) (m, run) =
     (if gm_get run i \<noteq> None then (Ignored, m, run)
      else case load_login q m of
          None \<Rightarrow> (Polled (TrimSpace q) PollError, m, run)
        | Some p \<Rightarrow> (Polling, m, gm_put i p run))"
| "login_step lib (EndPoll i inp) (m, run) = (case gm_get run i of
      None \<Rightarrow> (Ignored, m, run)
    | Some (state, lc) \<Rightarrow> (case finish_poll lib inp state lc m of (r, m) \<Rightarrow> (Polled state r, m, gm_del i run)))"
| "login_step lib (Janitor now) (m, run) = (Swept, prune_logins now m, run)"

fun login_run :: "'a login_json_scheme \<Rightarrow> login_event list \<Rightarrow> login_system \<Rightarrow> login_output list \<times> login_system" where
  "login_run lib [] s = ([], s)"
| "login_run lib (e # es) s = (case login_step lib e s of (out, s) \<Rightarrow>
     case login_run lib es s of (outs, s) \<Rightarrow> (out # outs, s))"

section \<open>Refreshing\<close>

text \<open>The data, or the error text with the body and the status.\<close>

definition refreshCall :: "'a billing_json_scheme \<Rightarrow> string \<Rightarrow> upstream \<Rightarrow> storedAuth \<Rightarrow> (string \<times> string \<times> int) + string" where
  "refreshCall lib mode answer sa = (case answer (buildTokenRefreshRequest (oauthProfileForMode mode) sa) of
      Inl err \<Rightarrow> Inl (err, [], 0)
    | Inr resp \<Rightarrow>
        (let raw = ha_body resp; status = ha_status resp in
         if status \<ge> 400 then Inl (''upstream '' @ show_int status, raw, status)
         else case bj_envelope lib raw of
             Inl err \<Rightarrow> Inl (''parse failed: '' @ err, raw, status)
           | Inr env \<Rightarrow>
               if env_Code env \<noteq> 0
               then Inl (''code='' @ show_int (env_Code env) @ '' msg='' @ truncateRedacted (env_Msg env) 120, raw, status)
               else Inr (env_Data env)))"

text \<open>The refresh that the host asks for; afterwards the models of the account have to be loaded again.\<close>

definition handleRefreshAuth ::
  "'a login_json_scheme \<Rightarrow> string \<Rightarrow> upstream \<Rightarrow> string \<Rightarrow> gtime \<Rightarrow> string \<Rightarrow> modelRuntime \<Rightarrow> authData option \<times> modelRuntime" where
  "handleRefreshAuth lib mode answer storage now authID r =
     (case parseStored (auth_json.truncate lib) storage of
        None \<Rightarrow> (None, r)
      | Some sa \<Rightarrow> (case refreshCall lib mode answer sa of
            Inl _ \<Rightarrow> (None, r)
          | Inr data \<Rightarrow> (case lj_token lib data of
                None \<Rightarrow> (None, r)
              | Some tok \<Rightarrow>
                  if tok_AccessToken tok = [] then (None, r)
                  else (Some (toAuthDataForRefresh (refreshed now tok sa)), markAuthNotStarted authID r))))"

end
