(* ===== verification/Keepalive.thy ===== *)
theory Keepalive
  imports Login Checkin
begin

text \<open>
  The daily refresh of the tokens, after \<^verbatim>\<open>src/plugin/keepalive.go\<close>: the refresh of one account and what it writes,
  the run over all accounts with its rows and its lines in the panel's task log, and the manual trigger.

  An account is refreshed under its lock, but other processes may change the host's store while the upstream
  answers: \<open>kw_read\<close> is the store before the request and \<open>kw_write\<close> the store afterwards. The result of an operation
  carries its effects on the host in order.
\<close>

section \<open>Dead sessions\<close>

definition sessionDeadMarkers :: "string list" where
  "sessionDeadMarkers = [''Offline user session not found'', ''12153'']"

definition isSessionDeadError :: "string \<Rightarrow> bool" where
  "isSessionDeadError msg = list_ex (Contains msg) sessionDeadMarkers"

definition dead_note :: string where "dead_note = ''Session dead (12153): re-login required''"

text \<open>The name under which a file is written: its own, or that of the account.\<close>

definition target_name :: "hostAuthPhysical \<Rightarrow> storedAuth \<Rightarrow> string" where
  "target_name phys sa = (if hp_Name phys = [] then authFileNameFor (Some sa) else hp_Name phys)"

definition markSessionDead ::
  "'a login_json_scheme \<Rightarrow> host_world \<Rightarrow> string \<Rightarrow> storedAuth \<Rightarrow> (bool \<times> host_effect list) go_result" where
  "markSessionDead lib w authIndex sa = (case hostAuthGetPhysical (auth_json.truncate lib) w authIndex of
      None \<Rightarrow> Returns (False, [])
    | Some phys \<Rightarrow>
        if hp_Disabled phys then Returns (True, [])
        else case bj_map lib (hp_JSON phys) of
            Inl _ \<Rightarrow> Returns (False, [])
          | Inr None \<Rightarrow> Panics
          | Inr (Some doc) \<Rightarrow> Returns (hostAuthSaveJSON w (target_name phys sa)
              (lj_encode lib (gm_put ''note'' (JStr dead_note) (gm_put ''disabled'' (JBool True) doc)))))"

definition persistAuthTokens ::
  "auth_json \<Rightarrow> host_world \<Rightarrow> string \<Rightarrow> storedAuth \<Rightarrow> (bool \<times> host_effect list) go_result" where
  "persistAuthTokens lib w authIndex sa = (case hostAuthGetPhysical lib w authIndex of
      None \<Rightarrow> Returns (False, [])
    | Some phys \<Rightarrow> (case buildRefreshedAuthJSON lib (hp_JSON phys) (Some sa) of
          Fails \<Rightarrow> Returns (False, [])
        | Panics \<Rightarrow> Panics
        | Returns raw \<Rightarrow> Returns (hostAuthSaveJSON w (target_name phys sa) raw)))"

section \<open>One account\<close>

text \<open>\<open>kw_err\<close> is the text of an error of the host, \<open>kw_peek\<close> the store when the row is prepared.\<close>

record keep_world =
  kw_peek :: host_world
  kw_read :: host_world
  kw_write :: host_world
  kw_answer :: upstream
  kw_now :: gtime
  kw_err :: string

type_synonym refresh_result = "(string \<times> string option) \<times> host_effect list"

definition refresh_dead ::
  "'a login_json_scheme \<Rightarrow> keep_world \<Rightarrow> string \<Rightarrow> storedAuth \<Rightarrow> refresh_result go_result" where
  "refresh_dead lib w authIndex sa = (case markSessionDead lib (kw_write w) authIndex sa of
      Panics \<Rightarrow> Panics
    | Fails \<Rightarrow> Fails
    | Returns (ok, fx) \<Rightarrow> Returns ((''session-dead'',
        Some (if ok then ''session dead (12153): flagged disabled'' else ''session dead; flag failed: '' @ kw_err w)), fx))"

definition refresh_persist ::
  "'a login_json_scheme \<Rightarrow> keep_world \<Rightarrow> string \<Rightarrow> storedAuth \<Rightarrow> refresh_result go_result" where
  "refresh_persist lib w authIndex sa = (case persistAuthTokens (auth_json.truncate lib) (kw_write w) authIndex sa of
      Panics \<Rightarrow> Panics
    | Fails \<Rightarrow> Fails
    | Returns (ok, fx) \<Rightarrow>
        Returns (if ok then (''refreshed'', None) else (''error'', Some (''persist: '' @ kw_err w)), fx))"

definition refreshOneAuthUnlocked ::
  "'a login_json_scheme \<Rightarrow> string \<Rightarrow> keep_world \<Rightarrow> string \<Rightarrow> refresh_result go_result" where
  "refreshOneAuthUnlocked lib mode w authIndex =
     (case hostAuthGet (auth_json.truncate lib) (kw_read w) authIndex of
        None \<Rightarrow> Returns ((''error'', Some (''get auth: '' @ kw_err w)), [])
      | Some sa \<Rightarrow>
          if TrimSpace (sto_RefreshToken sa) = [] then Returns ((''skipped'', Some ''no refreshToken''), [])
          else case refreshCall lib mode (kw_answer w) sa of
              Inl (err, raw, status) \<Rightarrow>
                if isSessionDeadError raw \<or> isSessionDeadError err then refresh_dead lib w authIndex sa
                else Returns ((''failed'', Some (''refresh rejected (HTTP '' @ show_int status @ ''): '' @ truncateRedacted err 120)), [])
            | Inr data \<Rightarrow> (case lj_token lib data of
                  None \<Rightarrow> Returns ((''failed'', Some ''refresh_failed: no accessToken in response''), [])
                | Some tok \<Rightarrow>
                    if tok_AccessToken tok = [] then Returns ((''failed'', Some ''refresh_failed: no accessToken in response''), [])
                    else refresh_persist lib w authIndex (refreshed (kw_now w) tok sa)))"

section \<open>All accounts\<close>

record keepaliveRow =
  kr_AuthIndex :: string
  kr_Nickname :: string
  kr_Region :: string
  kr_Status :: string
  kr_Detail :: string

record keepaliveSummary =
  ks_When :: gtime
  ks_Results :: "keepaliveRow list"

definition keepalive_row :: "'a login_json_scheme \<Rightarrow> keep_world \<Rightarrow> string \<Rightarrow> string \<times> string option \<Rightarrow> keepaliveRow" where
  "keepalive_row lib w authIndex r =
     (let sa = hostAuthGet (auth_json.truncate lib) (kw_peek w) authIndex in
      \<lparr>kr_AuthIndex = authIndex, kr_Nickname = (case sa of None \<Rightarrow> [] | Some sa \<Rightarrow> sto_Nickname sa),
       kr_Region = (case sa of None \<Rightarrow> [] | Some sa \<Rightarrow> accountRegion sa), kr_Status = fst r,
       kr_Detail = (case snd r of None \<Rightarrow> [] | Some err \<Rightarrow> truncateRedacted err 200)\<rparr>)"

fun keep_each ::
  "'a login_json_scheme \<Rightarrow> string \<Rightarrow> (nat \<Rightarrow> keep_world) \<Rightarrow> nat \<Rightarrow> hostAuthFileEntry list \<Rightarrow>
   (keepaliveRow \<times> host_effect list) list go_result" where
  "keep_each lib mode w i [] = Returns []"
| "keep_each lib mode w i (f # fs) = (case refreshOneAuthUnlocked lib mode (w i) (fe_AuthIndex f) of
      Panics \<Rightarrow> Panics
    | Fails \<Rightarrow> Fails
    | Returns (r, fx) \<Rightarrow> (case keep_each lib mode w (Suc i) fs of
          Panics \<Rightarrow> Panics
        | Fails \<Rightarrow> Fails
        | Returns rest \<Rightarrow> Returns ((keepalive_row lib (w i) (fe_AuthIndex f) r, fx) # rest)))"

definition keepalive_tasks :: "keepaliveRow list \<Rightarrow> taskRow list" where
  "keepalive_tasks rows = map (\<lambda>r. recordTask ''keepalive'' (kr_Nickname r) (kr_Status r = ''refreshed'') (kr_Detail r))
     (filter (\<lambda>r. kr_Status r \<noteq> ''skipped'') rows)"

text \<open>
  \<open>kn_order\<close> is the order in which the goroutines finish, as positions of the list of accounts; \<open>prev\<close> is the summary of
  the last run. The result is the summary, the lines of the task log, the new \<open>prev\<close> and the effects.
\<close>

record keep_run =
  kn_enabled :: bool
  kn_mode :: string
  kn_list :: host_world
  kn_list_err :: string
  kn_when :: gtime
  kn_world :: "nat \<Rightarrow> keep_world"
  kn_order :: "nat list"

definition runTokenKeepalive ::
  "'a login_json_scheme \<Rightarrow> keep_run \<Rightarrow> keepaliveSummary option \<Rightarrow>
   (keepaliveSummary \<times> taskRow list \<times> keepaliveSummary option \<times> host_effect list) go_result" where
  "runTokenKeepalive lib k prev =
     (if \<not> kn_enabled k then Returns (\<lparr>ks_When = kn_when k, ks_Results = []\<rparr>, [], prev, [])
      else case hostAuthList (kn_list k) of
          None \<Rightarrow> (let s = \<lparr>ks_When = kn_when k, ks_Results = [\<lparr>kr_AuthIndex = [], kr_Nickname = [], kr_Region = [],
                      kr_Status = ''error'', kr_Detail = kn_list_err k\<rparr>]\<rparr> in Returns (s, [], Some s, []))
        | Some files \<Rightarrow> (case keep_each lib (kn_mode k) (kn_world k) 0 files of
              Panics \<Rightarrow> Panics
            | Fails \<Rightarrow> Fails
            | Returns outs \<Rightarrow>
                (let outs = map (\<lambda>i. outs ! i) (kn_order k);
                     s = \<lparr>ks_When = kn_when k, ks_Results = map fst outs\<rparr>
                 in Returns (s, keepalive_tasks (ks_Results s), Some s, concat (map snd outs)))))"

datatype keepalive_reply =
    KeepaliveError string
  | KeepaliveReply gtime "keepaliveRow list"

definition handleKeepaliveNow ::
  "'a login_json_scheme \<Rightarrow> keep_run \<Rightarrow> string \<Rightarrow> keepaliveSummary option \<Rightarrow>
   (keepalive_reply \<times> taskRow list \<times> keepaliveSummary option \<times> host_effect list) go_result" where
  "handleKeepaliveNow lib k body_index prev =
     (let authIndex = TrimSpace body_index; w = kn_world k 0 in
      if authIndex = [] then
        (case runTokenKeepalive lib k prev of
           Panics \<Rightarrow> Panics
         | Fails \<Rightarrow> Fails
         | Returns (s, tasks, prev, fx) \<Rightarrow> Returns (KeepaliveReply (ks_When s) (ks_Results s), tasks, prev, fx))
      else if requireWorkbuddyAuthIndex (kn_list k) authIndex = None then
        Returns (KeepaliveError ''account not found'', [], prev, [])
      else case hostAuthGet (auth_json.truncate lib) (kw_peek w) authIndex of
          None \<Rightarrow> Returns (KeepaliveError (kw_err w), [], prev, [])
        | Some _ \<Rightarrow> (case refreshOneAuthUnlocked lib (kn_mode k) w authIndex of
              Panics \<Rightarrow> Panics
            | Fails \<Rightarrow> Fails
            | Returns (r, fx) \<Rightarrow> Returns (KeepaliveReply (kn_when k) [keepalive_row lib w authIndex r], [], prev, fx)))"

record keepalive_status =
  kt_enabled :: bool
  kt_schedule :: "int list"
  kt_last_run :: "keepaliveSummary option"

definition handleKeepaliveStatus :: "bool \<Rightarrow> keepaliveSummary option \<Rightarrow> keepalive_status" where
  "handleKeepaliveStatus enabled prev =
     \<lparr>kt_enabled = enabled, kt_schedule = keepaliveHours, kt_last_run = prev\<rparr>"

end
