(* ===== verification/Login_Props.thy ===== *)
theory Login_Props
  imports Login Billing_Props
begin

text \<open>
  The properties of the login: every success goes back to a start, in time, and brings tokens and an account; where polls
  overlap; and the expiry of a token, within the range that 64 bits hold.
\<close>

section \<open>What a step does to the logins in progress\<close>

lemma start_map:
  assumes "handleStartLogin lib routing mode answer rnd t t' m = (r, m')"
  obtains (failed) "r = None" "m' = m"
  | (started) url st profile session where "r = Some (url, st, t' + loginTTL)"
      "m' = gm_put st \<lparr>lc_expires = t + loginTTL, lc_profile = profile, lc_loginSessionID = session\<rparr> m"
  using assms
  by (auto simp: handleStartLogin_def Let_def split: if_splits sum.splits option.splits prod.splits)

definition usable :: "authData \<Rightarrow> bool" where
  "usable a = (TrimSpace (sto_AccessToken (ad_Storage a)) \<noteq> [] \<and> TrimSpace (sto_UID (ad_Storage a)) \<noteq> [])"

lemma built_usable: "buildLoginStoredAuth now tok acct = Some sa \<Longrightarrow> usable (toAuthDataForLoginPoll sa)"
  by (auto simp: buildLoginStoredAuth_def usable_def toAuthDataForLoginPoll_def toAuthData_def toAuthDataOpts_def Let_def
      split: if_splits)

lemma account_usable: "poll_account lib inp profile st tok = PollSuccess a \<Longrightarrow> usable a"
  by (auto simp: poll_account_def built_usable split: if_splits sum.splits option.splits)

lemma account_not_pending: "poll_account lib inp profile st tok \<noteq> PollPending"
  by (auto simp: poll_account_def split: sum.splits option.splits)

lemma token_usable: "poll_token lib inp profile st = PollSuccess a \<Longrightarrow> usable a"
  by (auto simp: poll_token_def account_usable split: if_splits sum.splits option.splits)

lemma finish_map:
  assumes "finish_poll lib inp state lc m = (r, m')"
  shows "m' = (if r = PollPending then m else gm_del state m)"
  using assms by (auto simp: finish_poll_def split: if_splits poll_reply.splits)

lemma finish_success:
  assumes "finish_poll lib inp state lc m = (PollSuccess a, m')"
  shows "pi_now inp \<le> lc_expires lc \<and> usable a"
  using assms by (auto simp: finish_poll_def token_usable split: if_splits poll_reply.splits)

section \<open>Histories\<close>

text \<open>Without an access to the logins in between, the two steps of a poll are \<open>handlePollLogin\<close>.\<close>

lemma poll_undisturbed:
  assumes "gm_get run i = None" and "load_login q m \<noteq> None"
    and "login_run lib [BeginPoll i q, EndPoll i inp] (m, run) = (outs, (m', run'))"
  shows "outs = [Polling, Polled (TrimSpace q) (fst (handlePollLogin lib inp q m))]"
    and "m' = snd (handlePollLogin lib inp q m)"
  using assms
  by (auto simp: handlePollLogin_def load_login_def Let_def gm_get_put split: if_splits option.splits prod.splits)

definition start_of :: "string \<Rightarrow> gtime \<Rightarrow> login_event \<Rightarrow> login_output \<Rightarrow> bool" where
  "start_of s t e out = (case (e, out) of
      (StartLogin _ _ _ _ t0 _, Started (Some (_, s', _))) \<Rightarrow> t0 = t \<and> s' = s | _ \<Rightarrow> False)"

text \<open>The end of a poll that ends the login.\<close>

definition login_ended :: "string \<Rightarrow> login_event \<Rightarrow> login_output \<Rightarrow> bool" where
  "login_ended s e out = (\<exists>i inp r. e = EndPoll i inp \<and> out = Polled s r \<and> r \<noteq> PollPending)"

text \<open>A start of the login with this expiry, which no poll has ended since.\<close>

definition live :: "string \<Rightarrow> gtime \<Rightarrow> login_event list \<Rightarrow> login_output list \<Rightarrow> bool" where
  "live s x es outs = (\<exists>k<length es. start_of s (x - loginTTL) (es ! k) (outs ! k) \<and>
     (\<forall>n. k < n \<and> n < length es \<longrightarrow> \<not> login_ended s (es ! n) (outs ! n)))"

text \<open>A poll under way, which began when the login was live.\<close>

definition underway :: "nat \<Rightarrow> string \<Rightarrow> gtime \<Rightarrow> login_event list \<Rightarrow> login_output list \<Rightarrow> bool" where
  "underway i s x es outs = (\<exists>b<length es. \<exists>q. es ! b = BeginPoll i q \<and> TrimSpace q = s \<and> live s x (take b es) (take b outs) \<and>
     (\<forall>n. b < n \<and> n < length es \<longrightarrow> (\<forall>inp. es ! n \<noteq> EndPoll i inp)))"

lemma live_snoc:
  assumes "live s x es outs" and "length outs = length es" and "\<not> login_ended s e out"
  shows "live s x (es @ [e]) (outs @ [out])"
proof -
  obtain k where "k < length es" "start_of s (x - loginTTL) (es ! k) (outs ! k)"
      "\<forall>n. k < n \<and> n < length es \<longrightarrow> \<not> login_ended s (es ! n) (outs ! n)"
    using assms(1) by (auto simp: live_def)
  then show ?thesis using assms(2,3) unfolding live_def
    by (intro exI [of _ k]) (auto simp: nth_append)
qed

lemma live_start: "start_of s t e out \<Longrightarrow> length outs = length es \<Longrightarrow> live s (t + loginTTL) (es @ [e]) (outs @ [out])"
  unfolding live_def by (intro exI [of _ "length es"]) (auto simp: nth_append)

lemma underway_snoc:
  assumes "underway i s x es outs" and "length outs = length es" and "\<And>inp. e \<noteq> EndPoll i inp"
  shows "underway i s x (es @ [e]) (outs @ [out])"
proof -
  obtain b q where b: "b < length es" "es ! b = BeginPoll i q" "TrimSpace q = s" "live s x (take b es) (take b outs)"
      "\<forall>n. b < n \<and> n < length es \<longrightarrow> (\<forall>inp. es ! n \<noteq> EndPoll i inp)"
    using assms(1) by (auto simp: underway_def)
  with assms(2,3) show ?thesis unfolding underway_def
    by (intro exI [of _ b] conjI exI [of _ q]) (auto simp: nth_append)
qed

lemma underway_begin:
  "live s x es outs \<Longrightarrow> length outs = length es \<Longrightarrow> TrimSpace q = s \<Longrightarrow> underway i s x (es @ [BeginPoll i q]) (outs @ [out])"
  unfolding underway_def by (intro exI [of _ "length es"] conjI exI [of _ q]) (auto simp: nth_append)

text \<open>The invariant of a history.\<close>

definition login_inv :: "login_event list \<Rightarrow> login_output list \<Rightarrow> login_system \<Rightarrow> bool" where
  "login_inv es outs s = (length outs = length es \<and> gm_wf (fst s) \<and>
     (\<forall>st lc. gm_get (fst s) st = Some lc \<longrightarrow> live st (lc_expires lc) es outs) \<and>
     (\<forall>i st lc. gm_get (snd s) i = Some (st, lc) \<longrightarrow> underway i st (lc_expires lc) es outs))"

lemma login_invI:
  assumes "length outs = length es" and "gm_wf m" and "\<And>st lc. gm_get m st = Some lc \<Longrightarrow> live st (lc_expires lc) es outs"
    and "\<And>i st lc. gm_get run i = Some (st, lc) \<Longrightarrow> underway i st (lc_expires lc) es outs"
  shows "login_inv es outs (m, run)"
  using assms by (simp add: login_inv_def)

lemma login_inv_step:
  assumes inv: "login_inv es outs (m, run)" and step: "login_step lib e (m, run) = (out, s')"
  shows "login_inv (es @ [e]) (outs @ [out]) s'"
proof -
  have len: "length outs = length es" and wf: "gm_wf m"
    and lv: "\<And>st lc. gm_get m st = Some lc \<Longrightarrow> live st (lc_expires lc) es outs"
    and uw: "\<And>i st lc. gm_get run i = Some (st, lc) \<Longrightarrow> underway i st (lc_expires lc) es outs"
    using inv by (simp_all add: login_inv_def)
  note keep = live_snoc [OF lv len] underway_snoc [OF uw len]
  show ?thesis
  proof (cases e)
    case (StartLogin routing mode answer rnd t t')
    obtain r m' where h: "handleStartLogin lib routing mode answer rnd t t' m = (r, m')" "out = Started r" "s' = (m', run)"
      using step StartLogin by (auto split: prod.splits)
    have no: "\<not> login_ended st e out" for st by (simp add: login_ended_def StartLogin)
    from h(1) show ?thesis
    proof (cases rule: start_map)
      case failed
      then show ?thesis unfolding h(3) using len wf keep no by (intro login_invI) (simp_all add: StartLogin)
    next
      case (started url st profile session)
      have s: "start_of st t e out" using StartLogin h(2) started(1) by (simp add: start_of_def)
      show ?thesis unfolding h(3) started(2)
      proof (rule login_invI)
        fix st' lc assume "gm_get (gm_put st \<lparr>lc_expires = t + loginTTL, lc_profile = profile, lc_loginSessionID = session\<rparr> m) st' = Some lc"
        then show "live st' (lc_expires lc) (es @ [e]) (outs @ [out])"
          using live_start [OF s len] keep(1) no by (auto split: if_splits)
      qed (use len wf keep(2) in \<open>simp_all add: gm.wf_put StartLogin\<close>)
    qed
  next
    case (BeginPoll i q)
    have no: "\<not> login_ended st e out" for st by (simp add: login_ended_def BeginPoll)
    from step consider (same) "s' = (m, run)" | (began) lc where "s' = (m, gm_put i (TrimSpace q, lc) run)" "gm_get m (TrimSpace q) = Some lc"
      by (auto simp: BeginPoll load_login_def Let_def split: if_splits option.splits)
    then show ?thesis
    proof cases
      case same
      then show ?thesis unfolding same using len wf keep no by (intro login_invI) (simp_all add: BeginPoll)
    next
      case began
      show ?thesis unfolding began(1)
      proof (rule login_invI)
        fix k st lc' assume "gm_get (gm_put i (TrimSpace q, lc) run) k = Some (st, lc')"
        then show "underway k st (lc_expires lc') (es @ [e]) (outs @ [out])"
          using underway_begin [OF lv [OF began(2)] len refl] keep(2) by (auto simp: BeginPoll split: if_splits)
      qed (use len wf keep(1) no in simp_all)
    qed
  next
    case (EndPoll i inp)
    show ?thesis
    proof (cases "gm_get run i")
      case None
      then have h: "s' = (m, run)" "\<not> login_ended st e out" for st using step by (simp_all add: EndPoll login_ended_def)
      show ?thesis unfolding h(1)
      proof (rule login_invI)
        fix k st lc assume "gm_get run k = Some (st, lc)"
        then show "underway k st (lc_expires lc) (es @ [e]) (outs @ [out])" using None by (intro keep(2)) (auto simp: EndPoll)
      qed (use len wf keep(1) h(2) in simp_all)
    next
      case (Some p)
      obtain st lc where p: "p = (st, lc)" by (cases p)
      obtain r m' where f: "finish_poll lib inp st lc m = (r, m')" by (metis prod.exhaust)
      then have s': "s' = (m', gm_del i run)" "out = Polled st r" using step Some p by (auto simp: EndPoll)
      have m': "m' = (if r = PollPending then m else gm_del st m)" by (rule finish_map [OF f])
      show ?thesis unfolding s'(1)
      proof (rule login_invI)
        fix st' lc' assume g: "gm_get m' st' = Some lc'"
        then have "gm_get m st' = Some lc'" "\<not> login_ended st' e out"
          unfolding m' by (auto simp: gm_get_del login_ended_def s'(2) split: if_splits)
        then show "live st' (lc_expires lc') (es @ [e]) (outs @ [out])" by (rule keep(1))
      next
        fix k st' lc' assume "gm_get (gm_del i run) k = Some (st', lc')"
        then show "underway k st' (lc_expires lc') (es @ [e]) (outs @ [out])"
          by (intro keep(2)) (auto simp: gm_get_del EndPoll split: if_splits)
      qed (use len wf in \<open>simp_all add: m' gm.wf_del\<close>)
    qed
  next
    case (Janitor now)
    then have h: "s' = (prune_logins now m, run)" "\<not> login_ended st e out" for st using step by (simp_all add: login_ended_def)
    show ?thesis unfolding h(1)
    proof (rule login_invI)
      fix st lc assume "gm_get (prune_logins now m) st = Some lc"
      then have "gm_get m st = Some lc"
        using wf by (cases "gm_get m st") (simp_all add: prune_logins_def gm_filter_get split: if_splits)
      then show "live st (lc_expires lc) (es @ [e]) (outs @ [out])" using h(2) by (rule keep(1))
    qed (use len wf keep(2) in \<open>simp_all add: prune_logins_def gm_filter_wf Janitor\<close>)
  qed
qed

lemma login_run_snoc:
  "login_run lib (es @ [e]) s = (case login_run lib es s of (outs, s) \<Rightarrow>
     case login_step lib e s of (out, s) \<Rightarrow> (outs @ [out], s))"
  by (induction es arbitrary: s) (auto split: prod.splits)

lemma login_run_inv: "login_run lib es ([], []) = (outs, s) \<Longrightarrow> login_inv es outs s"
proof (induction es arbitrary: outs s rule: rev_induct)
  case Nil
  then show ?case by (auto simp: gm_wf_def intro!: login_invI)
next
  case (snoc e es)
  obtain outs' m run where r: "login_run lib es ([], []) = (outs', m, run)" by (metis prod_cases3)
  obtain out s' where o: "login_step lib e (m, run) = (out, s')" by (metis prod.exhaust)
  from login_inv_step [OF snoc.IH [OF r] o] snoc.prems r o show ?case by (simp add: login_run_snoc)
qed

lemma login_run_take:
  assumes "login_run lib es s = (outs, s')" and "j < length es"
  shows "\<exists>t u. login_run lib (take j es) s = (take j outs, t) \<and> login_step lib (es ! j) t = (outs ! j, u)"
  using assms
proof (induction es arbitrary: s outs j)
  case (Cons e es)
  obtain out t where o: "login_step lib e s = (out, t)" by (metis prod.exhaust)
  obtain outs1 t1 where r: "login_run lib es t = (outs1, t1)" by (metis prod.exhaust)
  have outs: "outs = out # outs1" "t1 = s'" using Cons.prems(1) o r by simp_all
  show ?case
  proof (cases j)
    case (Suc i)
    with Cons.IH [of t outs1 i] Cons.prems(2) r outs o show ?thesis by auto
  qed (use o outs in simp)
qed simp

text \<open>
  (C22) In a history of starts, polls and sweeps that begins without logins, and in which any number of polls overlap: every
  success of a poll belongs to a state that was started at most five minutes before the poll looked at the
  clock; when the poll began, no poll had ended the login since that start, neither with a success nor with an error;
  and the credential that it returns has a token and an account.
\<close>

theorem login_success_started:
  assumes "login_run lib es ([], []) = (outs, s)" and "j < length es" and "outs ! j = Polled st (PollSuccess a)"
  shows "TrimSpace (sto_AccessToken (ad_Storage a)) \<noteq> [] \<and> TrimSpace (sto_UID (ad_Storage a)) \<noteq> [] \<and>
    (\<exists>k b i q inp t. k < b \<and> b < j \<and> start_of st t (es ! k) (outs ! k) \<and>
       es ! b = BeginPoll i q \<and> TrimSpace q = st \<and> es ! j = EndPoll i inp \<and>
       (\<forall>n. b < n \<and> n < j \<longrightarrow> (\<forall>inp'. es ! n \<noteq> EndPoll i inp')) \<and>
       pi_now inp \<le> t + loginTTL \<and> (\<forall>n. k < n \<and> n < b \<longrightarrow> \<not> login_ended st (es ! n) (outs ! n)))"
proof -
  obtain m run u where r: "login_run lib (take j es) ([], []) = (take j outs, m, run)"
      and o: "login_step lib (es ! j) (m, run) = (outs ! j, u)"
    using login_run_take [OF assms(1,2)] by (metis prod.exhaust)
  obtain i inp lc m' where e: "es ! j = EndPoll i inp" "gm_get run i = Some (st, lc)" "finish_poll lib inp st lc m = (PollSuccess a, m')"
    using o assms(3) by (cases "es ! j") (auto split: prod.splits option.splits if_splits)
  note ok = finish_success [OF e(3)]
  have "underway i st (lc_expires lc) (take j es) (take j outs)"
    using login_run_inv [OF r] e(2) by (simp add: login_inv_def)
  then obtain b q where b: "b < j" "es ! b = BeginPoll i q" "TrimSpace q = st" "live st (lc_expires lc) (take b es) (take b outs)"
      "\<forall>n. b < n \<and> n < j \<longrightarrow> (\<forall>inp. es ! n \<noteq> EndPoll i inp)"
    using assms(2) by (auto simp: underway_def min_def split: if_splits)
  from b(4) obtain k where "k < b" "start_of st (lc_expires lc - loginTTL) (es ! k) (outs ! k)"
      "\<forall>n. k < n \<and> n < b \<longrightarrow> \<not> login_ended st (es ! n) (outs ! n)"
    using b(1) assms(2) by (auto simp: live_def min_def split: if_splits)
  moreover have "pi_now inp \<le> lc_expires lc - loginTTL + loginTTL" using ok by simp
  ultimately show ?thesis using ok b(1,2,3,5) e(1) unfolding usable_def by blast
qed

section \<open>Expiry\<close>

text \<open>
  A lifetime of up to 292 years is added to the clock as it is; a credential without one keeps the expiry it had.
\<close>

theorem expiry_exact:
  assumes "n \<le> 9223372036"
  shows "expiryFromExpiresIn now n old = (if n \<le> 0 then old else Unix (now + n * Second))"
proof (cases "n \<le> 0")
  case False
  then have "wrap64 (n * Second) = n * Second"
    using assms by (intro wrap64_id) (simp_all add: time_units)
  with False show ?thesis by (simp add: expiryFromExpiresIn_def)
qed (simp add: expiryFromExpiresIn_def)

text \<open>A longer one wraps: the credential is marked as expired decades ago.\<close>

theorem long_expiry_wraps: "expiryFromExpiresIn now 17179869184 0 < Unix now - 1000000000"
proof -
  have "wrap64 (17179869184 * Second) = - 1266874889709551616" by code_simp
  then show ?thesis by (simp add: expiryFromExpiresIn_def Unix_def time_units)
qed

section \<open>A concrete login\<close>

definition demo_login :: login_json where
  "demo_login = billing_json.extend demo_billing
     (login_json.fields
       (\<lambda>s. Some \<lparr>tok_AccessToken = ''new'', tok_RefreshToken = [], tok_ExpiresIn = 3600, tok_RefreshExpiresIn = 0, tok_Domain = []\<rparr>)
       (\<lambda>s. Some \<lparr>acc_UID = ''u'', acc_EnterpriseID = [], acc_Nickname = ''n''\<rparr>)
       (\<lambda>s. \<lparr>as_State = ''s'', as_AuthURL = ''https://a''\<rparr>) (\<lambda>u q. Some u) (\<lambda>u. True) (\<lambda>d. concat (map fst d)))"

definition answers_ok :: upstream where
  "answers_ok req = Inr \<lparr>ha_status = 200, ha_body = []\<rparr>"

definition demo_poll :: "gtime \<Rightarrow> poll_input" where
  "demo_poll now = \<lparr>pi_now = now, pi_routing1 = (proxyModeInherit, False), pi_token = answers_ok,
     pi_routing2 = (proxyModeInherit, False), pi_account = answers_ok, pi_now2 = now\<rparr>"

definition demo_start :: login_event where
  "demo_start = StartLogin (proxyModeInherit, False) ''cli'' answers_ok [] 0 0"

definition demo_logins :: "login_event list" where
  "demo_logins = [demo_start, BeginPoll 0 '' s '', EndPoll 0 (demo_poll Second), BeginPoll 0 ''s'']"

definition demo_success :: poll_reply where
  "demo_success = PollSuccess (toAuthDataForLoginPoll \<lparr>sto_AccessToken = ''new'', sto_RefreshToken = [],
     sto_ExpiresAt = Unix (3601 * Second), sto_Domain = [], sto_UID = ''u'', sto_EnterpriseID = [], sto_Nickname = ''n'', sto_DeviceToken = []\<rparr>)"

lemma demo_login_outputs:
  "login_run demo_login demo_logins ([], []) =
     ([Started (Some (''https://a'', ''s'', loginTTL)), Polling, Polled ''s'' demo_success, Polled ''s'' PollError], [], [])"
  by code_simp

theorem login_success_started_witness:
  "\<exists>k b i q inp t. k < b \<and> b < 2 \<and> start_of ''s'' t (demo_logins ! k) (fst (login_run demo_login demo_logins ([], [])) ! k) \<and>
     demo_logins ! b = BeginPoll i q \<and> demo_logins ! 2 = EndPoll i inp \<and> pi_now inp \<le> t + loginTTL"
proof -
  obtain a where "[Started (Some (''https://a'', ''s'', loginTTL)), Polling, Polled ''s'' demo_success, Polled ''s'' PollError] ! 2 =
      Polled ''s'' (PollSuccess a)"
    by (simp add: demo_success_def)
  from login_success_started [OF demo_login_outputs _ this] show ?thesis
    unfolding demo_login_outputs fst_conv by (simp add: demo_logins_def) blast
qed

text \<open>Two polls of one login that overlap both succeed: nothing takes the login away before the upstream is asked.\<close>

theorem overlapping_polls_both_succeed:
  "fst (login_run demo_login [demo_start, BeginPoll 0 ''s'', BeginPoll 1 ''s'', EndPoll 0 (demo_poll Second), EndPoll 1 (demo_poll Second)]
     ([], [])) =
   [Started (Some (''https://a'', ''s'', loginTTL)), Polling, Polling, Polled ''s'' demo_success, Polled ''s'' demo_success]"
  by code_simp

theorem expiry_exact_witness: "expiryFromExpiresIn 0 3600 0 = Unix (3600 * Second)"
  using expiry_exact [of 3600 0 0] by simp

end
