(* ===== verification/Keepalive_Props.thy ===== *)
theory Keepalive_Props
  imports Keepalive Login_Props
begin

text \<open>
  What the refresh of an account writes: nothing but the file of that account, with the fields that it does not own
  unchanged; and when the code and its comments differ.
\<close>

lemma save_effects:
  assumes "hostAuthSaveJSON w n raw = (ok, fx)"
  shows "e \<in> set fx \<Longrightarrow> e = SaveAuth (TrimSpace n) raw" and "ok \<Longrightarrow> fx \<noteq> []"
  using assms by (auto simp: hostAuthSaveJSON_def Let_def split: if_splits)

lemma dead_effects:
  assumes "markSessionDead lib w i sa = Returns (ok, fx)" and "e \<in> set fx"
  obtains phys doc where "hostAuthGetPhysical (auth_json.truncate lib) w i = Some phys" "\<not> hp_Disabled phys"
    "bj_map lib (hp_JSON phys) = Inr (Some doc)"
    "e = SaveAuth (TrimSpace (target_name phys sa))
       (lj_encode lib (gm_put ''note'' (JStr dead_note) (gm_put ''disabled'' (JBool True) doc)))"
  using assms by (auto simp: markSessionDead_def dest: save_effects(1) split: option.splits if_splits sum.splits)

lemma token_file_effects:
  assumes "persistAuthTokens lib w i sa = Returns (ok, fx)"
  shows "ok \<Longrightarrow> fx \<noteq> []"
    and "e \<in> set fx \<Longrightarrow> \<exists>phys doc. hostAuthGetPhysical lib w i = Some phys \<and> aj_obj lib (hp_JSON phys) = Some doc \<and>
      e = SaveAuth (TrimSpace (target_name phys sa)) (aj_encode lib (mergeStoredAuthFieldsRaw lib doc sa))"
  using assms
  by (auto simp: persistAuthTokens_def buildRefreshedAuthJSON_def dest: save_effects split: option.splits go_result.splits if_splits)

lemma persist_result:
  assumes "refresh_persist lib w i c = Returns (r, fx)"
  obtains ok where "persistAuthTokens (auth_json.truncate lib) (kw_write w) i c = Returns (ok, fx)"
    "r = (if ok then (''refreshed'', None) else (''error'', Some (''persist: '' @ kw_err w)))"
proof (cases "persistAuthTokens (auth_json.truncate lib) (kw_write w) i c")
  case (Returns p)
  obtain ok g where p: "p = (ok, g)" by (cases p)
  have "r = (if ok then (''refreshed'', None) else (''error'', Some (''persist: '' @ kw_err w))) \<and> g = fx"
    using assms unfolding refresh_persist_def Returns p by simp
  with Returns p that show thesis by blast
qed (use assms in \<open>simp_all add: refresh_persist_def\<close>)

text \<open>How the refresh of an account ends.\<close>

lemma refresh_cases:
  assumes "refreshOneAuthUnlocked lib mode w i = Returns ((status, detail), fx)"
  obtains (no_write) "status \<in> {''error'', ''skipped'', ''failed''}" "detail \<noteq> None" "fx = []"
  | (dead) sa err raw n ok where "status = ''session-dead''" "detail \<noteq> None" "hostAuthGet (auth_json.truncate lib) (kw_read w) i = Some sa"
      "refreshCall lib mode (kw_answer w) sa = Inl (err, raw, n)" "isSessionDeadError raw \<or> isSessionDeadError err"
      "markSessionDead lib (kw_write w) i sa = Returns (ok, fx)"
  | (tokens) sa data tok ok where "status = (if ok then ''refreshed'' else ''error'')" "(detail = None) = ok"
      "hostAuthGet (auth_json.truncate lib) (kw_read w) i = Some sa"
      "refreshCall lib mode (kw_answer w) sa = Inr data" "lj_token lib data = Some tok" "tok_AccessToken tok \<noteq> []"
      "persistAuthTokens (auth_json.truncate lib) (kw_write w) i (refreshed (kw_now w) tok sa) = Returns (ok, fx)"
proof -
  define sa where "sa = hostAuthGet (auth_json.truncate lib) (kw_read w) i"
  note unf = assms [unfolded refreshOneAuthUnlocked_def, folded sa_def]
  show thesis
  proof (cases sa)
    case None
    with unf show ?thesis by (intro no_write) auto
  next
    case (Some c)
    note got = Some [unfolded sa_def]
    show ?thesis
    proof (cases "TrimSpace (sto_RefreshToken c) = []")
      case True
      with unf Some show ?thesis by (intro no_write) auto
    next
      case False
      note unf = unf [unfolded Some option.case if_not_P [OF False]]
      show ?thesis
      proof (cases "refreshCall lib mode (kw_answer w) c")
        case (Inl e)
        obtain err raw n where e: "e = (err, raw, n)" by (cases e)
        show ?thesis
        proof (cases "isSessionDeadError raw \<or> isSessionDeadError err")
          case True
          with unf Inl e have "refresh_dead lib w i c = Returns ((status, detail), fx)" by simp
          then obtain ok where "markSessionDead lib (kw_write w) i c = Returns (ok, fx)" "status = ''session-dead''" "detail \<noteq> None"
            unfolding refresh_dead_def by (cases "markSessionDead lib (kw_write w) i c") auto
          with got dead Inl e True show ?thesis by blast
        next
          case False
          with unf Inl e show ?thesis by (intro no_write) auto
        qed
      next
        case (Inr data)
        show ?thesis
        proof (cases "lj_token lib data")
          case None
          with unf Inr show ?thesis by (intro no_write) auto
        next
          case (Some tok)
          show ?thesis
          proof (cases "tok_AccessToken tok = []")
            case True
            with unf Inr Some show ?thesis by (intro no_write) auto
          next
            case False
            with unf Inr Some have "refresh_persist lib w i (refreshed (kw_now w) tok c) = Returns ((status, detail), fx)" by simp
            then obtain ok where p:
              "persistAuthTokens (auth_json.truncate lib) (kw_write w) i (refreshed (kw_now w) tok c) = Returns (ok, fx)"
              "(status, detail) = (if ok then (''refreshed'', None) else (''error'', Some (''persist: '' @ kw_err w)))"
              by (rule persist_result)
            show ?thesis by (rule tokens [OF _ _ got Inr Some False p(1)]) (use p(2) in \<open>cases ok; simp\<close>)+
          qed
        qed
      qed
    qed
  qed
qed

text \<open>The credential with a new token: what the upstream omits stays, and the account is the same.\<close>

definition with_token :: "gtime \<Rightarrow> tokenData \<Rightarrow> storedAuth \<Rightarrow> storedAuth" where
  "with_token now tok sa = \<lparr>sto_AccessToken = tok_AccessToken tok,
     sto_RefreshToken = (if tok_RefreshToken tok = [] then sto_RefreshToken sa else tok_RefreshToken tok),
     sto_ExpiresAt = (if tok_ExpiresIn tok > 0 then Unix (now + wrap64 (tok_ExpiresIn tok * Second)) else sto_ExpiresAt sa),
     sto_Domain = (if tok_Domain tok = [] then sto_Domain sa else tok_Domain tok), sto_UID = sto_UID sa,
     sto_EnterpriseID = sto_EnterpriseID sa, sto_Nickname = sto_Nickname sa, sto_DeviceToken = sto_DeviceToken sa\<rparr>"

lemma refreshed_with_token: "refreshed now tok sa = with_token now tok sa"
  by (cases sa) (simp add: refreshed_def with_token_def expiryFromExpiresIn_def)

text \<open>
  The documents that a refresh may write for the account \<open>sa\<close>: after the upstream has declared the session dead, the
  file that the host returns, disabled and with the note; after a new token, that file with the new credential.
\<close>

definition dead_write :: "'a login_json_scheme \<Rightarrow> string \<Rightarrow> keep_world \<Rightarrow> storedAuth \<Rightarrow> hostAuthPhysical \<Rightarrow> string \<Rightarrow> bool" where
  "dead_write lib mode w sa phys raw = (\<exists>doc doc' err body n. refreshCall lib mode (kw_answer w) sa = Inl (err, body, n) \<and>
     (Contains body ''12153'' \<or> Contains body ''Offline user session not found'' \<or>
      Contains err ''12153'' \<or> Contains err ''Offline user session not found'') \<and>
     bj_map lib (hp_JSON phys) = Inr (Some doc) \<and> raw = lj_encode lib doc' \<and> gm_get doc' ''disabled'' = Some (JBool True) \<and>
     gm_get doc' ''note'' = Some (JStr ''Session dead (12153): re-login required'') \<and>
     (\<forall>k. k \<notin> {''disabled'', ''note''} \<longrightarrow> gm_get doc' k = gm_get doc k))"

definition token_write :: "'a login_json_scheme \<Rightarrow> string \<Rightarrow> keep_world \<Rightarrow> storedAuth \<Rightarrow> hostAuthPhysical \<Rightarrow> string \<Rightarrow> bool" where
  "token_write lib mode w sa phys raw = (\<exists>doc doc' data tok. refreshCall lib mode (kw_answer w) sa = Inr data \<and>
     lj_token lib data = Some tok \<and> tok_AccessToken tok \<noteq> [] \<and>
     aj_obj lib (hp_JSON phys) = Some doc \<and> raw = aj_encode lib doc' \<and>
     gm_get doc' ''auth'' = Some (aj_auth lib (with_token (kw_now w) tok sa)) \<and>
     gm_get doc' ''account'' = Some (aj_account lib (with_token (kw_now w) tok sa)) \<and>
     gm_get doc' ''device_token'' =
       (if sto_DeviceToken sa = [] then gm_get doc ''device_token'' else Some (aj_string lib (sto_DeviceToken sa))) \<and>
     (\<forall>k. k \<notin> {''auth'', ''account'', ''device_token''} \<longrightarrow> gm_get doc' k = gm_get doc k))"

text \<open>The file of an account: the name that the host gives, or the canonical one.\<close>

definition own_file :: "storedAuth \<Rightarrow> hostAuthPhysical \<Rightarrow> string" where
  "own_file sa phys = TrimSpace (if hp_Name phys = [] then authFileNameFor (Some sa) else hp_Name phys)"

lemma target_own_file: "TrimSpace (target_name phys sa) = own_file sa phys"
  by (simp add: target_name_def own_file_def)

lemma with_token_file: "own_file (with_token now tok sa) phys = own_file sa phys"
  by (simp add: own_file_def authFileNameFor_def with_token_def)

lemma dead_writes:
  assumes "markSessionDead lib (kw_write w) i sa = Returns (ok, fx)" and "e \<in> set fx"
    and call: "refreshCall lib mode (kw_answer w) sa = Inl (err, body, n)" and over: "isSessionDeadError body \<or> isSessionDeadError err"
  shows "\<exists>phys raw. hostAuthGetPhysical (auth_json.truncate lib) (kw_write w) i = Some phys \<and> e = SaveAuth (own_file sa phys) raw \<and>
    \<not> hp_Disabled phys \<and> dead_write lib mode w sa phys raw"
proof -
  from assms(1,2) obtain phys doc where h: "hostAuthGetPhysical (auth_json.truncate lib) (kw_write w) i = Some phys" "\<not> hp_Disabled phys"
    "bj_map lib (hp_JSON phys) = Inr (Some doc)"
    "e = SaveAuth (TrimSpace (target_name phys sa))
       (lj_encode lib (gm_put ''note'' (JStr dead_note) (gm_put ''disabled'' (JBool True) doc)))"
    by (rule dead_effects)
  have m: "Contains body ''12153'' \<or> Contains body ''Offline user session not found'' \<or>
      Contains err ''12153'' \<or> Contains err ''Offline user session not found''"
    using over by (auto simp: isSessionDeadError_def sessionDeadMarkers_def)
  have "dead_write lib mode w sa phys (lj_encode lib (gm_put ''note'' (JStr dead_note) (gm_put ''disabled'' (JBool True) doc)))"
    unfolding dead_write_def
    by (intro exI conjI, rule call, rule m, rule h(3), rule refl)
      (simp_all add: dead_note_def)
  with h(1,2,4) show ?thesis unfolding target_own_file by blast
qed

lemma token_writes:
  assumes "persistAuthTokens (auth_json.truncate lib) (kw_write w) i (refreshed (kw_now w) tok sa) = Returns (ok, fx)" and "e \<in> set fx"
    and "refreshCall lib mode (kw_answer w) sa = Inr data" and "lj_token lib data = Some tok" and "tok_AccessToken tok \<noteq> []"
  shows "\<exists>phys raw. hostAuthGetPhysical (auth_json.truncate lib) (kw_write w) i = Some phys \<and> e = SaveAuth (own_file sa phys) raw \<and>
    token_write lib mode w sa phys raw"
proof -
  let ?l = "auth_json.truncate lib" and ?sa = "with_token (kw_now w) tok sa"
  from token_file_effects(2) [OF assms(1,2)] obtain phys doc where
    h: "hostAuthGetPhysical ?l (kw_write w) i = Some phys" "aj_obj ?l (hp_JSON phys) = Some doc"
      "e = SaveAuth (own_file sa phys) (aj_encode ?l (mergeStoredAuthFieldsRaw ?l doc ?sa))"
    unfolding target_own_file refreshed_with_token with_token_file by blast
  have l: "aj_obj ?l = aj_obj lib" "aj_encode ?l = aj_encode lib" "aj_auth ?l = aj_auth lib" "aj_account ?l = aj_account lib"
      "aj_string ?l = aj_string lib"
    by (simp_all add: auth_json.defs)
  have d: "sto_DeviceToken ?sa = sto_DeviceToken sa" by (simp add: with_token_def)
  have "token_write lib mode w sa phys (aj_encode lib (mergeStoredAuthFieldsRaw ?l doc ?sa))"
    unfolding token_write_def
    by (intro exI conjI, rule assms(3), rule assms(4), rule assms(5), rule h(2) [unfolded l], rule refl)
      (simp_all add: mergeStoredAuthFieldsRaw_def l d Let_def)
  with h(1,3) l(2) show ?thesis by metis
qed

text \<open>
  (C23) The refresh of an account writes the file of that account or nothing: the name is the one that the host gives
  for the account, or the one made of its identifier. Without an error it has written the token that the upstream
  returned, with what the upstream omits as it was, and every other field of the file unchanged. If the upstream reports
  the session as dead it only disables the account and sets the note, and only if it was enabled. Skipped and failed
  refreshes write nothing.
\<close>

theorem refresh_writes:
  assumes "refreshOneAuthUnlocked lib mode w i = Returns ((status, detail), fx)"
  shows "(detail = None) = (status = ''refreshed'') \<and> (detail = None \<longrightarrow> fx \<noteq> []) \<and>
    (status \<in> {''skipped'', ''failed''} \<longrightarrow> fx = []) \<and>
    (\<forall>e\<in>set fx. \<exists>sa phys raw. hostAuthGet (auth_json.truncate lib) (kw_read w) i = Some sa \<and>
       hostAuthGetPhysical (auth_json.truncate lib) (kw_write w) i = Some phys \<and> e = SaveAuth (own_file sa phys) raw \<and>
       (if status = ''session-dead'' then \<not> hp_Disabled phys \<and> dead_write lib mode w sa phys raw
        else token_write lib mode w sa phys raw))"
  using assms
proof (cases rule: refresh_cases)
  case no_write
  then show ?thesis by auto
next
  case (dead sa err raw n ok)
  have "detail = None \<longrightarrow> fx \<noteq> []" using dead(2) by blast
  with dead(1-3) dead_writes [OF dead(6) _ dead(4,5)] show ?thesis by simp
next
  case (tokens sa data tok ok)
  have s: "status \<noteq> ''session-dead''" "status \<notin> {''skipped'', ''failed''}" "(detail = None) = (status = ''refreshed'')"
    using tokens(1,2) by simp_all
  show ?thesis
    using s token_file_effects(1) [OF tokens(7)] tokens(2,3) token_writes [OF tokens(7) _ tokens(4,5,6)] by simp
qed

section \<open>A concrete refresh\<close>

definition demo_keep :: "upstream \<Rightarrow> keep_world" where
  "demo_keep answer = \<lparr>kw_peek = demo_world, kw_read = demo_world, kw_write = demo_world, kw_answer = answer, kw_now = 0, kw_err = []\<rparr>"

definition demo_refreshable :: login_json where
  "demo_refreshable = demo_login\<lparr>aj_nested := (\<lambda>s. Some ((demo_stored [])\<lparr>sto_RefreshToken := ''r''\<rparr>)), bj_map := (\<lambda>s. Inr (Some []))\<rparr>"

lemma demo_refreshed:
  "refreshOneAuthUnlocked demo_refreshable ''cli'' (demo_keep answers_ok) ''i'' =
     Returns ((''refreshed'', None), [SaveAuth ''workbuddy-u.json'' ''authtagsaccount''])"
  by code_simp

theorem refresh_writes_witness:
  "\<exists>sa phys raw. SaveAuth ''workbuddy-u.json'' ''authtagsaccount'' = SaveAuth (own_file sa phys) raw \<and>
     token_write demo_refreshable ''cli'' (demo_keep answers_ok) sa phys raw"
  using refresh_writes [OF demo_refreshed] by auto

section \<open>Where the code and its comments differ\<close>

text \<open>
  Every failing answer that contains the digits 12153 disables the account, also a gateway's error page that has them
  in a request number.
\<close>

theorem any_12153_disables:
  "refreshOneAuthUnlocked demo_refreshable ''cli''
     (demo_keep (\<lambda>req. Inr \<lparr>ha_status = 502, ha_body = ''bad gateway, request 9121530''\<rparr>)) ''i'' =
   Returns ((''session-dead'', Some ''session dead (12153): flagged disabled''), [SaveAuth ''workbuddy-u.json'' ''disablednote''])"
  by code_simp

text \<open>A manual run over all accounts obeys the toggle.\<close>

theorem manual_run_obeys_toggle:
  assumes "\<not> kn_enabled k" and "TrimSpace body_index = []"
  shows "handleKeepaliveNow lib k body_index prev = Returns (KeepaliveReply (kn_when k) [], [], prev, [])"
  using assms by (simp add: handleKeepaliveNow_def runTokenKeepalive_def Let_def)

text \<open>The note that marks a dead session has no such prefix.\<close>

theorem dead_note_unmarked: "\<not> HasPrefix dead_note ''[SESSION-DEAD]''"
  by code_simp

end
