(* ===== verification/Desensitize.thy ===== *)
theory Desensitize
  imports ToolPairing Model_Facts
begin

text \<open>
  The desensitising of outgoing requests, after \<^verbatim>\<open>src/plugin/desensitize.go\<close>: a zero-width space after the first
  character of every blocked term, in prompts and in the metadata of tools.

  Strings are bytes; where the code counts or matches characters, they are read as runes by the rules of
  \<open>utf8.DecodeRune\<close> (\<open>runes\<close>). Two runes match if they fold to the same (\<open>fold_rune\<close>): exact for the letters of ASCII,
  which the long s and the Kelvin sign fold to as well; other letters match only themselves. The loop of \<open>replace\<close> has
  no bound in the code: its value is an option, \<open>None\<close> if it does not end.
\<close>

section \<open>Runes\<close>

abbreviation (input) byte_of :: "char \<Rightarrow> nat" where "byte_of c \<equiv> of_char c"

text \<open>The length of a sequence with this first byte, and the range of its second byte.\<close>

definition lead_range :: "nat \<Rightarrow> (nat \<times> nat \<times> nat) option" where
  "lead_range b =
     (if b < 0xC2 then None
      else if b \<le> 0xDF then Some (2, 0x80, 0xBF)
      else if b = 0xE0 then Some (3, 0xA0, 0xBF)
      else if b = 0xED then Some (3, 0x80, 0x9F)
      else if b \<le> 0xEF then Some (3, 0x80, 0xBF)
      else if b = 0xF0 then Some (4, 0x90, 0xBF)
      else if b \<le> 0xF3 then Some (4, 0x80, 0xBF)
      else if b = 0xF4 then Some (4, 0x80, 0x8F)
      else None)"

definition byte_range :: "nat \<Rightarrow> nat \<Rightarrow> char \<Rightarrow> bool" where
  "byte_range lo hi c = (lo \<le> byte_of c \<and> byte_of c \<le> hi)"

definition rune_size :: "string \<Rightarrow> nat" where
  "rune_size s = (case s of [] \<Rightarrow> 0 | c # cs \<Rightarrow> (case lead_range (byte_of c) of
      None \<Rightarrow> 1
    | Some (n, lo, hi) \<Rightarrow>
        if n \<le> Suc (length cs) \<and> byte_range lo hi (hd cs) \<and> list_all (byte_range 0x80 0xBF) (take (n - 2) (tl cs))
        then n else 1))"

function runes :: "string \<Rightarrow> string list" where
  "runes s = (if s = [] then [] else take (rune_size s) s # runes (drop (rune_size s) s))"
  by pat_completeness auto
termination
proof (relation "measure length")
  fix s :: string
  assume "s \<noteq> []"
  moreover have "lead_range b = Some (n, lo, hi) \<Longrightarrow> n \<noteq> 0" for b n lo hi
    by (auto simp: lead_range_def split: if_splits)
  ultimately have "rune_size s \<noteq> 0" by (auto simp: rune_size_def split: list.split option.split)
  with \<open>s \<noteq> []\<close> show "(drop (rune_size s) s, s) \<in> measure length" by simp
qed simp

declare runes.simps [simp del]

definition zeroWidthSpace :: string where
  "zeroWidthSpace = [CHR 0xE2, CHR 0x80, CHR 0x8B]"

definition valid_rune :: "string \<Rightarrow> bool" where
  "valid_rune r = (r \<noteq> [] \<and> rune_size r = length r \<and> (length r = 1 \<longrightarrow> byte_of (hd r) < 0x80))"

text \<open>A byte that is no rune reads as U+FFFD.\<close>

definition fold_rune :: "string \<Rightarrow> string" where
  "fold_rune r =
     (if length r = 1 \<and> \<not> byte_of (hd r) < 0x80 then [CHR 0xEF, CHR 0xBF, CHR 0xBD]
      else if r = [CHR 0xC5, CHR 0xBF] then ''s''
      else if r = [CHR 0xE2, CHR 0x84, CHR 0xAA] then ''k''
      else if length r = 1 then ToLower r
      else r)"

definition fold_equal :: "string \<Rightarrow> string \<Rightarrow> bool" where
  "fold_equal s t = (map fold_rune (runes s) = map fold_rune (runes t))"

section \<open>The terms\<close>

definition defaultDesensitizeTerms :: "string list" where
  "defaultDesensitizeTerms =
    [''DoS'', ''DDoS'', ''exploit'', ''credential testing'', ''credential stuffing'',
     ''supply chain compromise'', ''supply-chain compromise'', ''detection evasion'', ''C2 frameworks'',
     ''C2 framework'', ''command and control'', ''malicious purposes'', ''malicious intent'',
     ''mass targeting'', ''brute force'', ''brute-force'', ''privilege escalation'', ''reverse shell'',
     ''remote code execution'', ''SQL injection'', ''XSS'', ''CSRF'', ''phishing'', ''malware'',
     ''ransomware'', ''keylogger'', ''rootkit'', ''backdoor'', ''botnet'', ''zero-day'', ''0day'',
     ''vulnerability'', ''vulnerabilities'', ''red teaming'', ''red-teaming'', ''sandbox'', ''sandboxing'',
     ''sandboxed'', ''unsandboxed'', ''escalated privileges'', ''escalated'', ''escalation'',
     ''destructive action'', ''destructive command'', ''destructive'', ''attack'', ''attacks'',
     ''cybersecurity'', ''security review'', ''exploit development'', ''hacking'', ''penetration testing'',
     ''penetration test'', ''injection'', ''weaponize'', ''weaponized'', ''harmful'', ''dangerous'',
     ''abuse'', ''abusive'', ''illegal'', ''terrorist'', ''terrorism'', ''bomb'', ''weapon'', ''weapons'',
     ''drug'', ''drugs'', ''narcotic'', ''suicide'', ''self-harm'', ''murder'', ''kill'', ''violence'',
     ''violent'', ''Claude Code'', ''Claude Opus'', ''Claude Sonnet'', ''Claude Haiku'', ''Claude Fable'',
     ''Anthropic'', ''Co-Authored-By'', ''noreply@anthropic.com'', ''Codex'', ''codex'']"

datatype term_error = TooShort | HasZeroWidthSpace

text \<open>\<open>seen\<close> is what has been kept.\<close>

fun normal_terms :: "string list \<Rightarrow> string list \<Rightarrow> term_error + string list" where
  "normal_terms seen [] = Inr seen"
| "normal_terms seen (raw # input) =
     (let t = TrimSpace raw in
      if t = [] \<or> t \<in> set seen then normal_terms seen input
      else if length (runes t) < 2 then Inl TooShort
      else if Contains t zeroWidthSpace then Inl HasZeroWidthSpace
      else normal_terms (seen @ [t]) input)"

definition normalizedDesensitizeTerms :: "string list option \<Rightarrow> term_error + (string list \<times> string)" where
  "normalizedDesensitizeTerms configured = (case configured of
      None \<Rightarrow> map_sum id (\<lambda>ts. (ts, ''default'')) (normal_terms [] defaultDesensitizeTerms)
    | Some input \<Rightarrow> map_sum id (\<lambda>ts. (ts, ''custom'')) (normal_terms [] input))"

text \<open>The alternatives of the expression in order, each as its runes. Without alternatives there is no expression.\<close>

type_synonym desensitizeMatcher = "string list list"

definition longest_first :: "string list \<Rightarrow> string list" where
  "longest_first terms = sort_key (\<lambda>t. - int (length (runes t))) terms"

definition add_alternative :: "string list \<Rightarrow> string \<Rightarrow> string list" where
  "add_alternative alts t = (if list_ex (fold_equal t) alts then alts else alts @ [t])"

text \<open>An expression with bytes that are no runes does not compile.\<close>

definition compileDesensitizeMatcher :: "string list \<Rightarrow> desensitizeMatcher option" where
  "compileDesensitizeMatcher terms =
     (let alternatives = map runes (foldl add_alternative [] (longest_first terms)) in
      if list_all (list_all valid_rune) alternatives then Some alternatives else None)"

section \<open>Replacing\<close>

definition term_prefix :: "string list \<Rightarrow> string list \<Rightarrow> bool" where
  "term_prefix t rs = (length t \<le> length rs \<and> map fold_rune t = map fold_rune (take (length t) rs))"

text \<open>
  \<open>ReplaceAllStringFunc\<close>: from left to right the first alternative that matches, and on behind the match. An
  alternative is never empty.
\<close>

function replace_matches :: "desensitizeMatcher \<Rightarrow> string list \<Rightarrow> string list \<times> bool" where
  "replace_matches ts [] = ([], False)"
| "replace_matches ts (r # rs) = (case find (\<lambda>t. term_prefix t (r # rs)) ts of
      None \<Rightarrow> (case replace_matches ts rs of (out, changed) \<Rightarrow> (r # out, changed))
    | Some t \<Rightarrow> (r # zeroWidthSpace # take (length t - 1) rs @ fst (replace_matches ts (drop (length t - 1) rs)), True))"
  by pat_completeness auto
termination by (relation "measure (\<lambda>(ts, rs). length rs)") auto

partial_function (option) replace_loop :: "desensitizeMatcher \<Rightarrow> string \<Rightarrow> string option" where
  "replace_loop m input = (case replace_matches m (runes input) of (out, changed) \<Rightarrow>
     if \<not> changed then Some input else replace_loop m (concat out))"

definition replace :: "desensitizeMatcher \<Rightarrow> string \<Rightarrow> string option" where
  "replace m input = (if m = [] \<or> input = [] then Some input else replace_loop m input)"

section \<open>The fields of a request\<close>

definition desensitizeUserMarkers :: "string list" where
  "desensitizeUserMarkers = [''# AGENTS.md instructions'', ''<environment_context>'', ''<permissions instructions>'',
     ''<collaboration_mode>'', ''<skills_instructions>'', ''<system-reminder>'', ''# claudeMd'']"

definition hasDesensitizeUserMarker :: "string \<Rightarrow> bool" where
  "hasDesensitizeUserMarker text1 = list_ex (Contains text1) desensitizeUserMarkers"

text \<open>A value after the change and whether it changed.\<close>

definition desensitizeStringField :: "desensitizeMatcher \<Rightarrow> string \<Rightarrow> (json \<times> bool) option" where
  "desensitizeStringField m v = map_option (\<lambda>r. (JStr r, r \<noteq> v)) (replace m v)"

fun sweep :: "('a \<Rightarrow> ('a \<times> bool) option) \<Rightarrow> 'a list \<Rightarrow> ('a list \<times> bool) option" where
  "sweep f [] = Some ([], False)"
| "sweep f (x # xs) = (case f x of
      None \<Rightarrow> None
    | Some (y, c) \<Rightarrow> map_option (\<lambda>(ys, d). (y # ys, c \<or> d)) (sweep f xs))"

text \<open>A member of an object, changed in its place.\<close>

definition change_member ::
  "string \<Rightarrow> (json \<Rightarrow> (json \<times> bool) option) \<Rightarrow> (string \<times> json) list \<Rightarrow> ((string \<times> json) list \<times> bool) option" where
  "change_member k f obj = (case gm_get obj k of
      None \<Rightarrow> Some (obj, False)
    | Some v \<Rightarrow> map_option (\<lambda>(v', c). (if c then gm_put k v' obj else obj, c)) (f v))"

definition text_field :: "desensitizeMatcher \<Rightarrow> json \<Rightarrow> (json \<times> bool) option" where
  "text_field m v = (case v of JStr s \<Rightarrow> desensitizeStringField m s | _ \<Rightarrow> Some (v, False))"

definition is_text_part :: "json \<Rightarrow> bool" where
  "is_text_part raw = (case raw of JObj part \<Rightarrow> gm_get part ''type'' = Some (JStr ''text'') | _ \<Rightarrow> False)"

definition text_part :: "desensitizeMatcher \<Rightarrow> json \<Rightarrow> (json \<times> bool) option" where
  "text_part m raw = (case raw of
      JObj part \<Rightarrow> if is_text_part raw then map_option (\<lambda>(p, c). (JObj p, c)) (change_member ''text'' (text_field m) part)
        else Some (raw, False)
    | _ \<Rightarrow> Some (raw, False))"

definition desensitizeTextBlocksInPlace :: "desensitizeMatcher \<Rightarrow> bool \<Rightarrow> json list \<Rightarrow> (json \<times> bool) option" where
  "desensitizeTextBlocksInPlace m enabled content =
     (if \<not> enabled then Some (JArr content, False)
      else map_option (\<lambda>(xs, c). (JArr xs, c)) (sweep (text_part m) content))"

definition block_text :: "json list \<Rightarrow> string" where
  "block_text content = concat (map (str_of ''text'') (filter is_text_part content))"

definition message_content :: "desensitizeMatcher \<Rightarrow> string \<Rightarrow> json \<Rightarrow> (json \<times> bool) option" where
  "message_content m role content =
     (if role = ''system'' \<or> role = ''developer'' then
        (case content of
           JStr v \<Rightarrow> desensitizeStringField m v
         | JArr v \<Rightarrow> desensitizeTextBlocksInPlace m True v
         | _ \<Rightarrow> Some (content, False))
      else if role = ''user'' then
        (case content of
           JStr v \<Rightarrow> if hasDesensitizeUserMarker v then desensitizeStringField m v else Some (content, False)
         | JArr v \<Rightarrow> desensitizeTextBlocksInPlace m (hasDesensitizeUserMarker (block_text v)) v
         | _ \<Rightarrow> Some (content, False))
      else Some (content, False))"

definition desensitizeMessageInPlace :: "desensitizeMatcher \<Rightarrow> json \<Rightarrow> (json \<times> bool) option" where
  "desensitizeMessageInPlace m raw = (case raw of
      JObj msg \<Rightarrow> map_option (\<lambda>(ms, c). (JObj ms, c)) (change_member ''content'' (message_content m (str_of ''role'' raw)) msg)
    | _ \<Rightarrow> Some (raw, False))"

fun desensitizeToolMetadataInPlace :: "desensitizeMatcher \<Rightarrow> json \<Rightarrow> (json \<times> bool) option"
  and metadata_items :: "desensitizeMatcher \<Rightarrow> json list \<Rightarrow> (json list \<times> bool) option"
  and metadata_members :: "desensitizeMatcher \<Rightarrow> (string \<times> json) list \<Rightarrow> ((string \<times> json) list \<times> bool) option" where
  "desensitizeToolMetadataInPlace m (JObj node) = map_option (\<lambda>(fs, c). (JObj fs, c)) (metadata_members m node)"
| "desensitizeToolMetadataInPlace m (JArr node) = map_option (\<lambda>(xs, c). (JArr xs, c)) (metadata_items m node)"
| "desensitizeToolMetadataInPlace m JNull = Some (JNull, False)"
| "desensitizeToolMetadataInPlace m (JBool b) = Some (JBool b, False)"
| "desensitizeToolMetadataInPlace m (JNum n) = Some (JNum n, False)"
| "desensitizeToolMetadataInPlace m (JStr s) = Some (JStr s, False)"
| "metadata_items m [] = Some ([], False)"
| "metadata_items m (x # xs) = (case desensitizeToolMetadataInPlace m x of
      None \<Rightarrow> None
    | Some (y, c) \<Rightarrow> map_option (\<lambda>(ys, d). (y # ys, c \<or> d)) (metadata_items m xs))"
| "metadata_members m [] = Some ([], False)"
| "metadata_members m ((k, v) # fs) =
     (case (if (k = ''description'' \<or> k = ''title'') \<and> (case v of JStr _ \<Rightarrow> True | _ \<Rightarrow> False) then text_field m v
            else desensitizeToolMetadataInPlace m v) of
        None \<Rightarrow> None
      | Some (v', c) \<Rightarrow> map_option (\<lambda>(gs, d). ((k, v') # gs, c \<or> d)) (metadata_members m fs))"

record featureRuntimeConfig =
  fr_desensitizeEnabled :: bool
  fr_desensitizeTerms :: "string list"
  fr_desensitizeSource :: string
  fr_matcher :: desensitizeMatcher
  fr_oauthClientMode :: string
  fr_enterpriseCredits :: bool
  fr_configuredModels :: "string list"

definition messages_field :: "desensitizeMatcher \<Rightarrow> json \<Rightarrow> (json \<times> bool) option" where
  "messages_field m v = (case v of
      JArr ms \<Rightarrow> map_option (\<lambda>(xs, c). (JArr xs, c)) (sweep (desensitizeMessageInPlace m) ms)
    | _ \<Rightarrow> Some (v, False))"

definition applyDesensitizeInPlace ::
  "featureRuntimeConfig option \<Rightarrow> (string \<times> json) list \<Rightarrow> ((string \<times> json) list \<times> bool) option" where
  "applyDesensitizeInPlace cfg obj = (case cfg of
      None \<Rightarrow> Some (obj, False)
    | Some cfg \<Rightarrow>
        if \<not> fr_desensitizeEnabled cfg then Some (obj, False)
        else case change_member ''messages'' (messages_field (fr_matcher cfg)) obj of
            None \<Rightarrow> None
          | Some (obj, c) \<Rightarrow> map_option (\<lambda>(obj, d). (obj, c \<or> d))
              (change_member ''tools'' (desensitizeToolMetadataInPlace (fr_matcher cfg)) obj))"

end
