(* ===== verification/Auth_Store.thy ===== *)
theory Auth_Store
  imports Auth ToolPairing Markup
begin

text \<open>
  Credential files on disk, after \<^verbatim>\<open>src/internal/auth/auth.go\<close>: reading both shapes, writing one atomically, and
  loading a directory with the migration of files that do not name their realm.

  A file is read as decoded JSON (\<open>json_text\<close>; \<open>MarshalAny\<close> stands for \<open>MarshalIndent\<close>), its members into the fields
  of a struct by the rules of \<open>encoding/json\<close>: names match but for case, null leaves a field alone, another type is an
  error. A number is an \<open>int64\<close> if it is whole and in range; the decoded value does not tell \<open>1\<close> from \<open>1.0\<close>. The disk is
  a map from paths to contents, and every write and rename may fail.
\<close>

section \<open>Decoding a struct\<close>

definition field :: "('v \<Rightarrow> json \<Rightarrow> 'v option) \<Rightarrow> string \<Rightarrow> 'v \<Rightarrow> (string \<times> json) list \<Rightarrow> 'v option" where
  "field f name z obj = foldl (\<lambda>acc (k, v). case acc of None \<Rightarrow> None | Some x \<Rightarrow> if EqualFold k name then f x v else Some x) (Some z) obj"

fun into_string :: "string \<Rightarrow> json \<Rightarrow> string option" where
  "into_string old (JStr s) = Some s"
| "into_string old JNull = Some old"
| "into_string old _ = None"

fun into_int64 :: "int \<Rightarrow> json \<Rightarrow> int option" where
  "into_int64 old (JNum q) = (if q = of_int \<lfloor>q\<rfloor> \<and> - (2 ^ 63) \<le> \<lfloor>q\<rfloor> \<and> \<lfloor>q\<rfloor> < 2 ^ 63 then Some \<lfloor>q\<rfloor> else None)"
| "into_int64 old JNull = Some old"
| "into_int64 old _ = None"

text \<open>A struct inside: its members one after the other.\<close>

fun into_members :: "(string \<times> json) list \<Rightarrow> json \<Rightarrow> (string \<times> json) list option" where
  "into_members old (JObj fs) = Some (old @ fs)"
| "into_members old JNull = Some old"
| "into_members old _ = None"

definition auth_fields :: "(string \<times> json) list \<Rightarrow> auth \<Rightarrow> auth option" where
  "auth_fields obj a =
     (case (field into_string ''accessToken'' [] obj, field into_string ''refreshToken'' [] obj, field into_int64 ''expiresAt'' 0 obj,
            field into_string ''domain'' [] obj, field into_string ''realm'' [] obj) of
        (Some access, Some refresh, Some expires, Some domain, Some realm) \<Rightarrow>
          Some (a\<lparr>a_AccessToken := access, a_RefreshToken := refresh, a_ExpiresAt := expires, a_Domain := domain, a_realm := realm\<rparr>)
      | _ \<Rightarrow> None)"

definition account_fields :: "(string \<times> json) list \<Rightarrow> auth \<Rightarrow> auth option" where
  "account_fields obj a =
     (case (field into_string ''uid'' [] obj, field into_string ''enterpriseId'' [] obj, field into_string ''nickname'' [] obj) of
        (Some uid, Some enterprise, Some nickname) \<Rightarrow>
          Some (a\<lparr>a_UID := uid, a_EnterpriseID := enterprise, a_Nickname := nickname\<rparr>)
      | _ \<Rightarrow> None)"

definition device_field :: "(string \<times> json) list \<Rightarrow> auth \<Rightarrow> auth option" where
  "device_field obj a = map_option (\<lambda>t. a\<lparr>a_DeviceToken := t\<rparr>) (field into_string ''device_token'' [] obj)"

section \<open>Reading\<close>

datatype auth_error = EmptyStorage | StorageParseError | MissingAccessToken | SaveRefused | NoFilePath | MarshalFailed | WriteFailed | RenameFailed

definition nested_auth :: "(string \<times> json) list \<Rightarrow> auth option" where
  "nested_auth obj =
     Option.bind (field into_members ''auth'' [] obj) (\<lambda>inner. Option.bind (auth_fields inner zero_auth) (\<lambda>a.
       Option.bind (field into_members ''account'' [] obj) (\<lambda>account. Option.bind (account_fields account a) (device_field obj))))"

definition flat_auth :: "(string \<times> json) list \<Rightarrow> auth option" where
  "flat_auth obj = Option.bind (auth_fields obj zero_auth) (\<lambda>a. Option.bind (account_fields obj a) (device_field obj))"

definition Parse :: "json_text \<Rightarrow> string \<Rightarrow> auth_error + auth" where
  "Parse lib raw =
     (if raw = [] then Inl EmptyStorage
      else case (case UnmarshalAny lib raw of Some (JObj fs) \<Rightarrow> Some fs | Some JNull \<Rightarrow> Some [] | _ \<Rightarrow> None) of
        None \<Rightarrow> Inl StorageParseError
      | Some obj \<Rightarrow>
          (case (if gm_get obj ''auth'' \<noteq> None then nested_auth obj else flat_auth obj) of
             None \<Rightarrow> Inl StorageParseError
           | Some a \<Rightarrow> if TrimSpace (a_AccessToken a) = [] then Inl MissingAccessToken else Inr a))"

section \<open>Writing\<close>

type_synonym disk = "(string, string) gomap"

definition saved_document :: "auth \<Rightarrow> (string \<times> json) list" where
  "saved_document a =
     [(''auth'', JObj [(''accessToken'', JStr (a_AccessToken a)), (''refreshToken'', JStr (a_RefreshToken a)),
         (''expiresAt'', JNum (of_int (a_ExpiresAt a))), (''domain'', JStr (a_Domain a)), (''realm'', JStr (a_realm a))]),
      (''account'', JObj [(''uid'', JStr (a_UID a)), (''enterpriseId'', JStr (a_EnterpriseID a)), (''nickname'', JStr (a_Nickname a))])] @
     (if a_DeviceToken a \<noteq> [] then [(''device_token'', JStr (a_DeviceToken a))] else [])"

text \<open>
  What a write leaves behind: nothing new, the part that was written before it failed, or all; and whether a rename
  succeeds.
\<close>

datatype write_result = Unwritten | Partly string | Written

record save_io =
  si_write :: write_result
  si_rename :: bool

definition write_file :: "write_result \<Rightarrow> string \<Rightarrow> string \<Rightarrow> disk \<Rightarrow> disk" where
  "write_file w path raw d = (case w of Unwritten \<Rightarrow> d | Partly part \<Rightarrow> gm_put path part d | Written \<Rightarrow> gm_put path raw d)"

definition SaveAtomic :: "json_text \<Rightarrow> save_io \<Rightarrow> auth \<Rightarrow> disk \<Rightarrow> auth_error option \<times> disk" where
  "SaveAtomic lib si a d =
     (if TrimSpace (a_AccessToken a) = [] then (Some SaveRefused, d)
      else if a_FilePath a = [] then (Some NoFilePath, d)
      else case MarshalAny lib (JObj (saved_document a)) of
        None \<Rightarrow> (Some MarshalFailed, d)
      | Some raw \<Rightarrow>
          (let tmp = a_FilePath a @ ''.tmp''; d = write_file (si_write si) tmp raw d in
           if si_write si \<noteq> Written then (Some WriteFailed, d)
           else if \<not> si_rename si then (Some RenameFailed, d)
           else (None, gm_put (a_FilePath a) raw (gm_del tmp d))))"

section \<open>Loading a directory\<close>

definition AuthFileGlob :: string where "AuthFileGlob = ''workbuddy*.json''"

text \<open>The paths that \<open>Glob\<close> matches, sorted; \<open>None\<close> is its error.\<close>

definition LoadAuthFiles :: "string list option \<Rightarrow> string list option" where
  "LoadAuthFiles matches = map_option sort matches"

text \<open>A file that cannot be read or parsed is passed over. The realm is only written back if it is missing altogether.\<close>

definition load_file :: "json_text \<Rightarrow> (string \<Rightarrow> bool) \<Rightarrow> (string \<Rightarrow> save_io) \<Rightarrow> string \<Rightarrow> disk \<Rightarrow> auth option \<times> disk" where
  "load_file lib readable io f d =
     (case (if readable f then gm_get d f else None) of
        None \<Rightarrow> (None, d)
      | Some raw \<Rightarrow>
          (case Parse lib raw of
             Inl e \<Rightarrow> (None, d)
           | Inr a \<Rightarrow>
               (let a = a\<lparr>a_FilePath := f\<rparr> in
                if RealmStored a \<noteq> [] then (Some a, d)
                else (case BackfillRealm a of ((changed, r), a) \<Rightarrow>
                  (Some a, if changed then snd (SaveAtomic lib (io f) a d) else d)))))"

fun load_files :: "json_text \<Rightarrow> (string \<Rightarrow> bool) \<Rightarrow> (string \<Rightarrow> save_io) \<Rightarrow> string list \<Rightarrow> disk \<Rightarrow> auth list \<times> disk" where
  "load_files lib readable io [] d = ([], d)"
| "load_files lib readable io (f # fs) d =
     (case load_file lib readable io f d of (a, d) \<Rightarrow>
        (case load_files lib readable io fs d of (as, d) \<Rightarrow> (case a of None \<Rightarrow> as | Some a \<Rightarrow> a # as, d)))"

definition LoadDir :: "json_text \<Rightarrow> string list option \<Rightarrow> (string \<Rightarrow> bool) \<Rightarrow> (string \<Rightarrow> save_io) \<Rightarrow> disk \<Rightarrow> (auth list \<times> disk) option" where
  "LoadDir lib matches readable io d = map_option (\<lambda>files. load_files lib readable io files d) (LoadAuthFiles matches)"

end
