(* ===== verification/Outbound.thy ===== *)
theory Outbound
  imports Desensitize Payload Session_Ids Auth_File Auth_Store
begin

text \<open>
  The body that leaves the plugin, after \<^verbatim>\<open>src/plugin/wb_upstream.go\<close>, \<^verbatim>\<open>src/plugin/payload.go\<close>, the assembly of
  \<^verbatim>\<open>src/internal/upstream/client.go\<close> and the tables of \<^verbatim>\<open>effort_catalog.go\<close> and \<^verbatim>\<open>context_catalog.go\<close>: the model
  is replaced, the body is prepared by the rules of \<open>Payload\<close> with the levels of effort known for the realm, it gets
  its cache key and, for a global account, a system message, and is desensitised last.

  An operation that stores into a nil map panics, as the body \<open>null\<close> makes some do (\<open>go_result\<close>); the desensitiser may
  not end, which is \<open>None\<close> outside.
\<close>

section \<open>Levels of effort\<close>

record effortCap =
  ec_efforts :: "string list"
  ec_default :: string

definition cnEffortFallback :: "(string, effortCap) gomap" where
  "cnEffortFallback =
    [(''deepseek-v4-flash'', \<lparr>ec_efforts = [''low'', ''high'', ''max''], ec_default = []\<rparr>),
     (''deepseek-v4.1-flash'', \<lparr>ec_efforts = [''low'', ''high'', ''max''], ec_default = ''high''\<rparr>),
     (''deepseek-v4-pro'', \<lparr>ec_efforts = [''low'', ''high'', ''xhigh''], ec_default = ''high''\<rparr>),
     (''hy4-preview'', \<lparr>ec_efforts = [''high''], ec_default = ''high''\<rparr>),
     (''hy4-preview-x'', \<lparr>ec_efforts = [''high''], ec_default = []\<rparr>),
     (''hy3'', \<lparr>ec_efforts = [''low'', ''high''], ec_default = ''high''\<rparr>),
     (''hy3-x'', \<lparr>ec_efforts = [''low'', ''high''], ec_default = ''high''\<rparr>),
     (''glm-5.3'', \<lparr>ec_efforts = [''low'', ''high'', ''max''], ec_default = ''high''\<rparr>),
     (''glm-5.3-flash'', \<lparr>ec_efforts = [''low'', ''high'', ''max''], ec_default = ''high''\<rparr>),
     (''glm-5.2'', \<lparr>ec_efforts = [''high'', ''xhigh''], ec_default = ''high''\<rparr>),
     (''glm-5.1'', \<lparr>ec_efforts = [''medium''], ec_default = []\<rparr>),
     (''glm-5v-turbo'', \<lparr>ec_efforts = [''medium''], ec_default = []\<rparr>),
     (''kimi-k3-1'', \<lparr>ec_efforts = [''medium''], ec_default = []\<rparr>),
     (''kimi-k2.7'', \<lparr>ec_efforts = [''medium''], ec_default = []\<rparr>),
     (''kimi-k2.6'', \<lparr>ec_efforts = [''medium''], ec_default = []\<rparr>),
     (''minimax-m3'', \<lparr>ec_efforts = [''medium''], ec_default = []\<rparr>)]"

definition globalEffortFallback :: "(string, effortCap) gomap" where
  "globalEffortFallback =
    [(''fast-model'', \<lparr>ec_efforts = [''medium''], ec_default = []\<rparr>),
     (''balanced-model'', \<lparr>ec_efforts = [''medium''], ec_default = []\<rparr>),
     (''primary-model'', \<lparr>ec_efforts = [''high''], ec_default = []\<rparr>),
     (''hy4-preview-f'', \<lparr>ec_efforts = [''high''], ec_default = ''high''\<rparr>),
     (''hy3'', \<lparr>ec_efforts = [''low'', ''high''], ec_default = ''high''\<rparr>),
     (''deepseek-v4.1-flash'', \<lparr>ec_efforts = [''high''], ec_default = []\<rparr>),
     (''gpt-6-astra'', \<lparr>ec_efforts = [''low'', ''medium'', ''high'', ''xhigh'', ''max''], ec_default = ''high''\<rparr>),
     (''gpt-5.6-sol'', \<lparr>ec_efforts = [''low'', ''medium'', ''high'', ''xhigh'', ''max''], ec_default = ''high''\<rparr>),
     (''gpt-5.6-terra'', \<lparr>ec_efforts = [''low'', ''medium'', ''high'', ''xhigh'', ''max''], ec_default = ''high''\<rparr>),
     (''gpt-5.6-luna'', \<lparr>ec_efforts = [''low'', ''medium'', ''high'', ''xhigh'', ''max''], ec_default = ''high''\<rparr>),
     (''gpt-5.5'', \<lparr>ec_efforts = [''low'', ''medium'', ''high'', ''xhigh''], ec_default = ''high''\<rparr>),
     (''gpt-5.4'', \<lparr>ec_efforts = [''low'', ''medium'', ''high'', ''xhigh''], ec_default = ''high''\<rparr>),
     (''gpt-5.3-codex'', \<lparr>ec_efforts = [''medium''], ec_default = []\<rparr>),
     (''gemini-3.5-flash'', \<lparr>ec_efforts = [''medium''], ec_default = []\<rparr>),
     (''glm-5.3'', \<lparr>ec_efforts = [''low'', ''high'', ''max''], ec_default = ''high''\<rparr>),
     (''glm-5.2'', \<lparr>ec_efforts = [''high'', ''xhigh''], ec_default = ''high''\<rparr>),
     (''kimi-k3'', \<lparr>ec_efforts = [''medium''], ec_default = []\<rparr>),
     (''kimi-k2.6'', \<lparr>ec_efforts = [''medium''], ec_default = []\<rparr>)]"

definition realmKey :: "string \<Rightarrow> string" where
  "realmKey realm = (if realm = [] then ''cn'' else realm)"

definition staticEffortCap :: "string \<Rightarrow> string \<Rightarrow> effortCap" where
  "staticEffortCap realm model =
     (case gm_get (if realmKey realm = ''global'' then globalEffortFallback else cnEffortFallback) model of
        Some c \<Rightarrow> c | None \<Rightarrow> \<lparr>ec_efforts = [], ec_default = []\<rparr>)"

definition EffortListing :: "string \<Rightarrow> string \<Rightarrow> string list \<Rightarrow> string \<Rightarrow> string list \<times> string" where
  "EffortListing realm model remoteEfforts remoteDefault =
     (let src = (if remoteEfforts \<noteq> [] then \<lparr>ec_efforts = remoteEfforts, ec_default = remoteDefault\<rparr>
                 else staticEffortCap realm model) in
      if ec_efforts src = [] then ([], [])
      else (ec_efforts src, if ec_default src \<noteq> [] \<and> ec_default src \<in> set (ec_efforts src) then ec_default src else []))"

definition put_where :: "('v \<Rightarrow> bool) \<Rightarrow> (string \<times> 'v) list \<Rightarrow> (string, 'v) gomap \<Rightarrow> (string, 'v) gomap" where
  "put_where P kvs m = foldl (\<lambda>m (k, v). if P v then gm_put k v m else m) m kvs"

definition globalEffortMap ::
  "(string, string list) gomap \<Rightarrow> (string, string) gomap \<Rightarrow> (string, string list) gomap \<times> (string, string) gomap" where
  "globalEffortMap remoteEfforts remoteDefaults =
     (put_where (\<lambda>v. v \<noteq> []) remoteEfforts (map (\<lambda>(k, c). (k, ec_efforts c)) globalEffortFallback),
      put_where (\<lambda>v. v \<noteq> []) remoteDefaults
        (map (\<lambda>(k, c). (k, ec_default c)) (filter (\<lambda>(k, c). ec_default c \<noteq> []) globalEffortFallback)))"

text \<open>The levels that the upstream has told, by realm. A missing bucket and an empty one read alike.\<close>

record effort_buckets =
  eb_efforts :: "(string, (string, string list) gomap) gomap"
  eb_defaults :: "(string, (string, string) gomap) gomap"

definition effortsSnapshot :: "effort_buckets \<Rightarrow> string \<Rightarrow> (string, string list) gomap" where
  "effortsSnapshot b realm = (case gm_get (eb_efforts b) (realmKey realm) of None \<Rightarrow> [] | Some m \<Rightarrow> m)"

definition defaultEffortsSnapshot :: "effort_buckets \<Rightarrow> string \<Rightarrow> (string, string) gomap" where
  "defaultEffortsSnapshot b realm = (case gm_get (eb_defaults b) (realmKey realm) of None \<Rightarrow> [] | Some m \<Rightarrow> m)"

definition storeEfforts ::
  "string \<Rightarrow> (string, string list) gomap \<Rightarrow> (string, string) gomap \<Rightarrow> effort_buckets \<Rightarrow> effort_buckets" where
  "storeEfforts realm efforts defs b =
     (if efforts = [] \<and> defs = []
      then b\<lparr>eb_efforts := gm_del (realmKey realm) (eb_efforts b), eb_defaults := gm_del (realmKey realm) (eb_defaults b)\<rparr>
      else b\<lparr>eb_efforts := gm_put (realmKey realm) efforts (eb_efforts b),
             eb_defaults := gm_put (realmKey realm) defs (eb_defaults b)\<rparr>)"

text \<open>The levels and defaults that a body of the realm is prepared with.\<close>

definition effort_tables :: "effort_buckets \<Rightarrow> string \<Rightarrow> (string, string list) gomap \<times> (string, string) gomap" where
  "effort_tables b realm =
     (if realmKey realm = ''global'' then globalEffortMap (effortsSnapshot b realm) (defaultEffortsSnapshot b realm)
      else (effortsSnapshot b realm, defaultEffortsSnapshot b realm))"

section \<open>Sizes of contexts\<close>

definition DefaultContextWindow :: int where "DefaultContextWindow = 1000000"

text \<open>Context and output.\<close>

definition contextCapFallback :: "(string, int \<times> int) gomap" where
  "contextCapFallback =
    [(''glm-5.2'', (1000000, 131072)), (''glm-5.1'', (200000, 131072)), (''glm-5.3'', (1000000, 131072)),
     (''glm-5.3-flash'', (1000000, 131072)), (''glm-5v-turbo'', (200000, 131072)),
     (''kimi-k2.7'', (256000, 65536)), (''kimi-k2.6'', (256000, 262144)), (''kimi-k2.5'', (164000, 262144)),
     (''kimi-k3'', (1048576, 131072)), (''kimi-k2.8-preview'', (1048576, 0)),
     (''minimax-m3'', (512000, 512000)), (''hy3'', (192000, 64000)), (''hy3-preview'', (262144, 64000)),
     (''hy4-preview'', (1000000, 64000)), (''hy4-preview-x'', (1000000, 64000)),
     (''deepseek-v4-pro'', (1000000, 384000)), (''deepseek-v4-flash'', (1000000, 384000)),
     (''deepseek-v4.1-flash'', (1000000, 384000)), (''gpt-6-astra'', (1050000, 128000)),
     (''gpt-5.6-sol'', (1050000, 128000)), (''gpt-5.6-terra'', (1050000, 128000)),
     (''gpt-5.6-luna'', (1050000, 128000)), (''gpt-5.5'', (1050000, 128000)), (''gpt-5.4'', (1050000, 128000)),
     (''gpt-5.3-codex'', (400000, 128000)), (''gemini-3.5-flash'', (1048576, 65536)), (''auto'', (168000, 0))]"

definition ContextWindowListing :: "string \<Rightarrow> int \<Rightarrow> int" where
  "ContextWindowListing model remote =
     (if remote > 0 then remote
      else case gm_get contextCapFallback model of
          Some (context, _) \<Rightarrow> if context > 0 then context else DefaultContextWindow
        | None \<Rightarrow> DefaultContextWindow)"

definition MaxOutputTokensListing :: "string \<Rightarrow> int \<Rightarrow> int option" where
  "MaxOutputTokensListing model remote =
     (if remote > 0 then Some remote
      else case gm_get contextCapFallback model of
          Some (_, maxOutput) \<Rightarrow> if maxOutput > 0 then Some maxOutput else None
        | None \<Rightarrow> None)"

section \<open>Assembling the body\<close>

definition of_option :: "'a option \<Rightarrow> 'a go_result" where
  "of_option r = (case r of None \<Rightarrow> Panics | Some x \<Rightarrow> Returns x)"

record client =
  cl_GlobalEnabled :: bool
  cl_SanitizeFingerprints :: bool
  cl_buckets :: effort_buckets

definition newWBClient :: "effort_buckets \<Rightarrow> client" where
  "newWBClient b = \<lparr>cl_GlobalEnabled = True, cl_SanitizeFingerprints = True, cl_buckets = b\<rparr>"

definition prepareBody ::
  "json_text \<Rightarrow> (string \<Rightarrow> string) \<Rightarrow> client \<Rightarrow> string \<Rightarrow> string \<Rightarrow> string \<Rightarrow> string \<Rightarrow> string go_result" where
  "prepareBody lib hash c body realm uid conversationID =
     (case effort_tables (cl_buckets c) realm of (efforts, defs) \<Rightarrow>
        of_option (Option.bind (PrepareBodyOptWithEffortsAndDefault lib body (cl_SanitizeFingerprints c) efforts defs)
          (\<lambda>body. InjectPromptCacheKey lib hash body uid conversationID)))"

text \<open>\<open>globalEnabled\<close> is the switch of the package \<open>auth\<close>.\<close>

definition globalOn :: "bool \<Rightarrow> client \<Rightarrow> auth \<Rightarrow> bool" where
  "globalOn globalEnabled c a = (cl_GlobalEnabled c \<and> Realm globalEnabled a = ''global'')"

definition PrepareChatBodyForRealm ::
  "json_text \<Rightarrow> (string \<Rightarrow> string) \<Rightarrow> bool \<Rightarrow> client \<Rightarrow> string \<Rightarrow> auth \<Rightarrow> string \<Rightarrow> string go_result" where
  "PrepareChatBodyForRealm lib hash globalEnabled c body a conversationID =
     (case prepareBody lib hash c body (Realm globalEnabled a) (a_UID a) conversationID of
        Returns prepared \<Rightarrow> Returns (if globalOn globalEnabled c a then ensureConsoleSystem lib prepared else prepared)
      | r \<Rightarrow> r)"

text \<open>\<open>marshal\<close> is the encoding of the host's record.\<close>

definition wbAuth :: "json_text \<Rightarrow> (storedAuth \<Rightarrow> string option) \<Rightarrow> string \<Rightarrow> storedAuth option \<Rightarrow> auth" where
  "wbAuth lib marshal storageJSON sa =
     (case (if storageJSON = [] then Inl EmptyStorage else Parse lib storageJSON) of
        Inr a \<Rightarrow> a
      | Inl _ \<Rightarrow>
          (case sa of
             None \<Rightarrow> zero_auth
           | Some sa \<Rightarrow>
               (case marshal sa of
                  None \<Rightarrow> zero_auth
                | Some raw \<Rightarrow> (case Parse lib raw of Inr a \<Rightarrow> a | Inl _ \<Rightarrow> zero_auth))))"

definition rewriteModelInBody :: "json_text \<Rightarrow> string \<Rightarrow> string \<Rightarrow> string go_result" where
  "rewriteModelInBody lib body upstreamModel =
     (if body = [] \<or> TrimSpace upstreamModel = [] then Returns body
      else case unmarshal_map lib body of
          DecodeError \<Rightarrow> Returns body
        | NilMap \<Rightarrow> Panics
        | Decoded obj \<Rightarrow>
            if EqualFold (TrimSpace (str_in obj ''model'')) (TrimSpace upstreamModel) then Returns body
            else Returns (case MarshalAny lib (JObj (gm_put ''model'' (JStr upstreamModel) obj)) of Some out \<Rightarrow> out | None \<Rightarrow> body))"

definition applyDesensitizeBody :: "json_text \<Rightarrow> featureRuntimeConfig option \<Rightarrow> string \<Rightarrow> string option" where
  "applyDesensitizeBody lib cfg src = (case unmarshal_map lib src of
      DecodeError \<Rightarrow> Some src
    | NilMap \<Rightarrow> Some src
    | Decoded obj \<Rightarrow> map_option (\<lambda>(obj', changed).
        if \<not> changed then src else case MarshalAny lib (JObj obj') of Some out \<Rightarrow> out | None \<Rightarrow> src)
        (applyDesensitizeInPlace cfg obj))"

record outbound =
  ob_hash :: "string \<Rightarrow> string"
  ob_raw :: raw_lib
  ob_globalEnabled :: bool
  ob_client :: client
  ob_features :: "featureRuntimeConfig option"

definition wbPrepareBody ::
  "json_text \<Rightarrow> outbound \<Rightarrow> string \<Rightarrow> string \<Rightarrow> auth option \<Rightarrow> string \<Rightarrow> string go_result option" where
  "wbPrepareBody lib ob payload original a upstreamModel =
     (let src = (if payload = [] then original else payload) in
      case a of
        None \<Rightarrow> Some (Returns src)
      | Some a \<Rightarrow>
          if src = [] then Some (Returns src)
          else (case rewriteModelInBody lib src upstreamModel of
              Returns src \<Rightarrow>
                (let convID = CacheConversationID lib (ob_raw ob) src in
                 case PrepareChatBodyForRealm lib (ob_hash ob) (ob_globalEnabled ob) (ob_client ob) src a convID of
                   Returns src \<Rightarrow> map_option Returns (applyDesensitizeBody lib (ob_features ob) src)
                 | r \<Rightarrow> Some r)
            | r \<Rightarrow> Some r))"

end
