(* ===== verification/Desensitize_Props.thy ===== *)
theory Desensitize_Props
  imports Desensitize
begin

text \<open>
  Desensitising ends for every configuration that is accepted, leaves no blocked term, and inserts nothing but
  zero-width spaces, only in the fields it may change.
\<close>

section \<open>Runes\<close>

lemma runes_Nil [simp]: "runes [] = []"
  by (simp add: runes.simps)

lemma rune_size_le: "rune_size s \<le> length s"
  by (auto simp: rune_size_def split: list.split option.split)

lemma concat_runes [simp]: "concat (runes s) = s"
  by (induction s rule: runes.induct) (subst runes.simps, simp)

lemma rune_size_append:
  assumes "valid_rune r"
  shows "rune_size (r @ x) = length r"
proof -
  obtain c cs where r: "r = c # cs" using assms by (cases r) (auto simp: valid_rune_def)
  show ?thesis
  proof (cases "lead_range (byte_of c)")
    case None
    with assms show ?thesis by (simp add: r valid_rune_def rune_size_def)
  next
    case (Some p)
    obtain n lo hi where p: "p = (n, lo, hi)" by (cases p)
    have low: "\<not> byte_of c < 0x80" using Some by (auto simp: lead_range_def)
    have n2: "2 \<le> n" using Some p by (auto simp: lead_range_def split: if_splits)
    have sz: "rune_size r = Suc (length cs)" "cs \<noteq> []" using assms low by (auto simp: r valid_rune_def)
    have ok: "n \<le> Suc (length cs) \<and> byte_range lo hi (hd cs) \<and> list_all (byte_range 0x80 0xBF) (take (n - 2) (tl cs))"
      "n = Suc (length cs)"
      using sz Some p by (auto simp: r rune_size_def split: if_splits)
    have "hd (cs @ x) = hd cs" "tl (cs @ x) = tl cs @ x" using sz(2) by simp_all
    moreover have "take (n - 2) (tl cs @ x) = take (n - 2) (tl cs)" using ok(2) by simp
    ultimately show ?thesis using ok Some p by (simp add: r rune_size_def)
  qed
qed

lemma zero_width_rune: "valid_rune zeroWidthSpace"
  by code_simp

section \<open>Case folding\<close>

lemma fold_zero_width: "fold_rune r = fold_rune zeroWidthSpace \<longleftrightarrow> r = zeroWidthSpace"
proof -
  have "fold_rune zeroWidthSpace = zeroWidthSpace" by code_simp
  then show ?thesis by (auto simp: fold_rune_def zeroWidthSpace_def ToLower_def)
qed

lemma term_prefix_alt: "term_prefix t rs \<longleftrightarrow> prefix (map fold_rune t) (map fold_rune rs)"
proof
  assume "term_prefix t rs"
  then have "map fold_rune t = take (length t) (map fold_rune rs)" by (simp add: term_prefix_def take_map)
  then show "prefix (map fold_rune t) (map fold_rune rs)" by (metis take_is_prefix)
next
  assume "prefix (map fold_rune t) (map fold_rune rs)"
  then obtain zs where z: "map fold_rune rs = map fold_rune t @ zs" by (auto simp: prefix_def)
  then have "length (map fold_rune rs) = length t + length zs" by simp
  moreover from z have "take (length t) (map fold_rune rs) = map fold_rune t" by simp
  ultimately show "term_prefix t rs" by (simp add: term_prefix_def take_map)
qed

section \<open>A pass\<close>

text \<open>Adjacent characters that are not separated by a zero-width space, nor are one.\<close>

fun gaps :: "string list \<Rightarrow> nat" where
  "gaps (a # b # rs) = (if a \<noteq> zeroWidthSpace \<and> b \<noteq> zeroWidthSpace then 1 else 0) + gaps (b # rs)"
| "gaps rs = 0"

lemma gaps_Cons: "gaps (a # rs) = (if rs \<noteq> [] \<and> a \<noteq> zeroWidthSpace \<and> hd rs \<noteq> zeroWidthSpace then 1 else 0) + gaps rs"
  by (cases rs) simp_all

lemma gaps_append:
  assumes "gaps out \<le> gaps rest" and "(out = []) = (rest = [])" and "rest \<noteq> [] \<Longrightarrow> hd out = hd rest"
  shows "gaps (xs @ out) \<le> gaps (xs @ rest)"
proof (induction xs)
  case Nil
  show ?case using assms(1) by simp
next
  case (Cons x xs)
  define A B where "A = xs @ out" and "B = xs @ rest"
  have "(A = []) = (B = [])" using assms(2) by (simp add: A_def B_def)
  moreover have "B \<noteq> [] \<Longrightarrow> hd A = hd B" using assms(3) by (cases xs) (simp_all add: A_def B_def)
  ultimately have "gaps (x # A) \<le> gaps (x # B)" using Cons by (cases "B = []") (simp_all add: gaps_Cons A_def [symmetric] B_def [symmetric])
  then show ?case by (simp add: A_def B_def)
qed

definition terms_ok :: "desensitizeMatcher \<Rightarrow> bool" where
  "terms_ok ts = list_all (\<lambda>t. 2 \<le> length t \<and> zeroWidthSpace \<notin> set t) ts"

lemma terms_okD: "terms_ok ts \<Longrightarrow> t \<in> set ts \<Longrightarrow> 2 \<le> length t \<and> zeroWidthSpace \<notin> set t"
  by (simp add: terms_ok_def list_all_iff)

lemma match_free:
  assumes "term_prefix t rs" and "zeroWidthSpace \<notin> set t"
  shows "zeroWidthSpace \<notin> set (take (length t) rs)"
proof
  assume "zeroWidthSpace \<in> set (take (length t) rs)"
  then obtain i where i: "i < length t" "take (length t) rs ! i = zeroWidthSpace"
    by (auto simp: in_set_conv_nth)
  have "map fold_rune t ! i = map fold_rune (take (length t) rs) ! i" using assms(1) by (simp only: term_prefix_def)
  then have "fold_rune (t ! i) = fold_rune (take (length t) rs ! i)" using assms(1) i(1) by (simp add: term_prefix_def)
  then have "t ! i = zeroWidthSpace" unfolding i(2) fold_zero_width .
  with assms(2) i(1) show False by (metis nth_mem)
qed

lemma pass_head: "replace_matches ts rs = (out, c) \<Longrightarrow> (out = []) = (rs = []) \<and> (rs \<noteq> [] \<longrightarrow> hd out = hd rs)"
  by (cases rs) (auto split: option.splits prod.splits)

text \<open>A pass closes a gap if it changes anything, and it inserts nothing but zero-width spaces.\<close>

lemma pass_props:
  assumes "replace_matches ts rs = (out, c)" and "terms_ok ts"
  shows "filter (\<lambda>r. r \<noteq> zeroWidthSpace) out = filter (\<lambda>r. r \<noteq> zeroWidthSpace) rs \<and>
    set out \<subseteq> insert zeroWidthSpace (set rs) \<and> gaps out \<le> gaps rs \<and> (c \<longrightarrow> gaps out < gaps rs) \<and>
    (\<not> c \<longrightarrow> out = rs \<and> (\<forall>i t. t \<in> set ts \<longrightarrow> \<not> term_prefix t (drop i rs)))"
  using assms
proof (induction ts rs arbitrary: out c rule: replace_matches.induct)
  case (1 ts)
  have "[] \<notin> set ts"
  proof
    assume "[] \<in> set ts"
    from terms_okD [OF 1(2) this] show False by simp
  qed
  then have "\<not> term_prefix t []" if "t \<in> set ts" for t using that by (cases t) (auto simp: term_prefix_def)
  with 1 show ?case by simp
next
  case (2 ts r rs)
  show ?case
  proof (cases "find (\<lambda>t. term_prefix t (r # rs)) ts")
    case None
    obtain out1 c1 where p: "replace_matches ts rs = (out1, c1)" by (cases "replace_matches ts rs")
    have out: "out = r # out1" "c = c1" using 2(3) None p by simp_all
    note IH = 2(1) [OF None p 2(4)]
    note hd = pass_head [OF p]
    have g: "gaps (r # out1) \<le> gaps (r # rs)" "c1 \<longrightarrow> gaps (r # out1) < gaps (r # rs)"
      using IH hd by (auto simp: gaps_Cons)
    have "\<not> term_prefix t (drop i (r # rs))" if "\<not> c1" "t \<in> set ts" for i t
      using IH None that by (cases i) (auto simp: find_None_iff)
    with IH g out show ?thesis by auto
  next
    case (Some t)
    have t: "t \<in> set ts" "term_prefix t (r # rs)" using Some by (auto simp: find_Some_iff)
    have ok: "2 \<le> length t" "zeroWidthSpace \<notin> set t" using terms_okD [OF 2(4) t(1)] by simp_all
    obtain k where k: "length t = Suc (Suc k)" using ok(1) by (metis Suc_le_D add_2_eq_Suc le_Suc_ex)
    define m where "m = take (Suc k) rs"
    define rest where "rest = drop (Suc k) rs"
    obtain out1 c1 where p: "replace_matches ts rest = (out1, c1)" by (cases "replace_matches ts rest")
    have out: "out = r # zeroWidthSpace # m @ out1" "c" using 2(3) Some p by (simp_all add: k m_def rest_def)
    have rs: "rs = m @ rest" by (simp add: m_def rest_def)
    have free: "r \<noteq> zeroWidthSpace" "zeroWidthSpace \<notin> set m" using match_free [OF t(2) ok(2)] by (auto simp: k m_def)
    have m: "m \<noteq> []" using t(2) by (auto simp: term_prefix_def k m_def)
    note IH = 2(2) [OF Some, simplified k diff_Suc_1, folded rest_def, OF p 2(4)]
    note hd = pass_head [OF p]
    have "gaps out = gaps (m @ out1)" by (simp add: out(1) gaps_Cons)
    also have "\<dots> \<le> gaps (m @ rest)" using IH hd by (intro gaps_append) auto
    also have "\<dots> < gaps (r # rs)" using m free by (cases m) (auto simp: rs gaps_Cons)
    finally show ?thesis using IH out rs by auto
  qed
qed

text \<open>
  The text after a pass decodes to the runes that the pass has written, also where it was no valid UTF-8: what is
  inserted does not begin with a continuation byte.
\<close>

abbreviation cont :: "char \<Rightarrow> bool" where "cont \<equiv> byte_range 0x80 0xBF"

lemma prefix_run: "list_all P (take k y) \<Longrightarrow> prefix (take k y) (takeWhile P y)"
proof (induction k arbitrary: y)
  case (Suc k)
  then show ?case by (cases y) auto
qed simp

lemma size_stable:
  assumes "prefix (takeWhile cont y) x" and "r \<noteq> []" and "rune_size (r @ x) = length r"
  shows "rune_size (r @ y) = length r"
proof -
  obtain c cs where r: "r = c # cs" using assms(2) by (cases r) auto
  show ?thesis
  proof (cases "lead_range (byte_of c)")
    case None
    with assms(3) show ?thesis by (simp add: r rune_size_def)
  next
    case (Some p)
    obtain n lo hi where p: "p = (n, lo, hi)" by (cases p)
    have n: "2 \<le> n" "0x80 \<le> lo" "hi \<le> 0xBF" using Some p by (auto simp: lead_range_def split: if_splits)
    let ?ok = "\<lambda>z. n \<le> Suc (length z) \<and> byte_range lo hi (hd z) \<and> list_all cont (take (n - 2) (tl z))"
    have size: "rune_size (c # z) = (if ?ok z then n else 1)" for z using Some p by (simp add: rune_size_def)
    show ?thesis
    proof (cases "cs = []")
      case True
      have x1: "rune_size (c # x) = 1" using assms(3) by (simp add: r True)
      have "\<not> ?ok x"
      proof
        assume "?ok x"
        with size [of x] have "rune_size (c # x) = n" by (simp only: simp_thms if_True)
        with x1 n(1) show False by simp
      qed
      moreover have "?ok x" if ok: "?ok y"
      proof -
        obtain d ds where y: "y = d # ds" using ok n(1) by (cases y) auto
        obtain k where k: "n = Suc (Suc k)" using n(1) by (metis add_2_eq_Suc le_Suc_ex)
        have "cont d" using ok n by (auto simp: y byte_range_def)
        then have "list_all cont (take (n - 1) y)" using ok by (simp add: y k)
        then have "prefix (take (n - 1) y) (takeWhile cont y)" by (rule prefix_run)
        then have pre: "prefix (take (n - 1) y) x" using assms(1) by (rule prefix_order.trans)
        then obtain w where x: "x = take (n - 1) y @ w" by (auto simp: prefix_def)
        have "length ds \<ge> k" using ok by (simp add: k y)
        then show ?thesis using ok by (simp add: x k y)
      qed
      ultimately have "\<not> ?ok y" by blast
      with size [of y] have "rune_size (c # y) = 1" by (simp only: simp_thms if_False)
      then show ?thesis by (simp add: r True)
    next
      case False
      have "rune_size (c # cs @ x) = Suc (length cs)" using assms(3) by (simp add: r)
      with False have "?ok (cs @ x) \<and> n = Suc (length cs)" by (cases "?ok (cs @ x)") (simp_all only: size if_True if_False, simp_all)
      then have "?ok (cs @ x)" "n = Suc (length cs)" by blast+
      then have "?ok (cs @ y)" using False n(1) by simp
      with size [of "cs @ y"] have "rune_size (c # cs @ y) = n" by (simp only: simp_thms if_True)
      then show ?thesis using \<open>n = Suc (length cs)\<close> by (simp add: r)
    qed
  qed
qed

lemma runes_Cons:
  assumes "r \<noteq> []"
  shows "runes (concat (r # rs)) = r # rs \<longleftrightarrow> rune_size (r @ concat rs) = length r \<and> runes (concat rs) = rs"
proof
  assume h: "runes (concat (r # rs)) = r # rs"
  let ?n = "rune_size (r @ concat rs)"
  have "runes (concat (r # rs)) = take ?n (r @ concat rs) # runes (drop ?n (r @ concat rs))"
    using assms by (subst runes.simps) simp
  with h have t: "take ?n (r @ concat rs) = r" "runes (drop ?n (r @ concat rs)) = rs" by simp_all
  have "?n = length r" using arg_cong [OF t(1), of length] rune_size_le [of "r @ concat rs"] by simp
  with t(2) show "?n = length r \<and> runes (concat rs) = rs" by simp
next
  assume "rune_size (r @ concat rs) = length r \<and> runes (concat rs) = rs"
  with assms show "runes (concat (r # rs)) = r # rs" by (subst runes.simps) simp
qed

definition decodes :: "string list \<Rightarrow> bool" where
  "decodes rs = ([] \<notin> set rs \<and> runes (concat rs) = rs)"

lemma decodes_Cons: "decodes (r # rs) \<longleftrightarrow> r \<noteq> [] \<and> rune_size (r @ concat rs) = length r \<and> decodes rs"
  using runes_Cons [of r rs] by (auto simp: decodes_def)

lemma decodes_runes: "decodes (runes s)"
proof -
  have "[] \<notin> set (runes s)"
  proof (induction s rule: runes.induct)
    case (1 s)
    show ?case
    proof (cases "s = []")
      case False
      have "rune_size s \<noteq> 0"
        using False by (auto simp: rune_size_def lead_range_def split: list.split option.split if_splits)
      with 1 [OF False] False show ?thesis by (subst runes.simps) auto
    qed simp
  qed
  then show ?thesis by (simp add: decodes_def)
qed

lemma cont_append:
  "prefix (takeWhile cont y) x \<Longrightarrow> prefix (takeWhile cont (r @ y)) (r @ x)"
  by (induction r) auto

lemma decodes_change:
  assumes "decodes out" and "prefix (takeWhile cont (concat out)) (concat rest)" and "decodes (xs @ rest)"
  shows "decodes (xs @ out) \<and> prefix (takeWhile cont (concat (xs @ out))) (concat (xs @ rest))"
  using assms(3)
proof (induction xs)
  case (Cons x xs)
  then have x: "x \<noteq> []" "rune_size (x @ concat (xs @ rest)) = length x" "decodes (xs @ rest)" by (auto simp: decodes_Cons)
  note IH = Cons.IH [OF x(3)]
  have "rune_size (x @ concat (xs @ out)) = length x" by (rule size_stable [OF _ x(1,2)]) (use IH in blast)
  then have "decodes (x # (xs @ out))" using IH x(1) by (simp only: decodes_Cons simp_thms)
  moreover have "prefix (takeWhile cont (x @ concat (xs @ out))) (x @ concat (xs @ rest))" using IH by (intro cont_append) blast
  ultimately show ?case by simp
qed (use assms(1,2) in simp)

lemma pass_decodes:
  assumes "replace_matches ts rs = (out, c)" and "decodes rs"
  shows "decodes out \<and> prefix (takeWhile cont (concat out)) (concat rs)"
  using assms
proof (induction ts rs arbitrary: out c rule: replace_matches.induct)
  case (1 ts)
  then show ?case by simp
next
  case (2 ts r rs)
  have rs: "decodes rs" "r \<noteq> []" "rune_size (r @ concat rs) = length r" using 2(4) by (auto simp: decodes_Cons)
  show ?case
  proof (cases "find (\<lambda>t. term_prefix t (r # rs)) ts")
    case None
    obtain out1 c1 where p: "replace_matches ts rs = (out1, c1)" by (cases "replace_matches ts rs")
    have out: "out = [r] @ out1" using 2(3) None p by simp
    show ?thesis unfolding out using decodes_change [of out1 rs "[r]"] 2(1) [OF None p rs(1)] 2(4) by simp
  next
    case (Some t)
    define m rest where "m = take (length t - 1) rs" and "rest = drop (length t - 1) rs"
    obtain out1 c1 where p: "replace_matches ts rest = (out1, c1)" by (cases "replace_matches ts rest")
    have out: "out = r # zeroWidthSpace # m @ out1" using 2(3) Some p by (simp add: m_def rest_def)
    have parts: "rs = m @ rest" by (simp add: m_def rest_def)
    have drest: "decodes rest" if "decodes (ys @ rest)" for ys using that by (induction ys) (auto simp: decodes_Cons)
    have tail: "decodes (m @ out1)"
      using decodes_change [of out1 rest m] 2(2) [OF Some, folded rest_def, OF p drest [of m]] rs(1) parts by simp
    have "rune_size (zeroWidthSpace @ concat (m @ out1)) = length zeroWidthSpace" by (rule rune_size_append [OF zero_width_rune])
    then have z: "decodes (zeroWidthSpace # m @ out1)" using tail by (simp add: decodes_Cons zeroWidthSpace_def)
    have nil: "takeWhile cont (zeroWidthSpace @ w) = []" for w by (simp add: zeroWidthSpace_def byte_range_def)
    have "rune_size (r @ concat (zeroWidthSpace # m @ out1)) = length r"
      by (rule size_stable [OF _ rs(2,3)]) (simp add: nil)
    then have "decodes out" using z rs(2) by (simp add: out decodes_Cons)
    moreover have "prefix (takeWhile cont (r @ concat (zeroWidthSpace # m @ out1))) (r @ concat rs)"
      by (rule cont_append) (simp add: nil)
    ultimately show ?thesis by (simp add: out)
  qed
qed

section \<open>The loop\<close>

definition visible :: "string \<Rightarrow> string" where
  "visible s = concat (filter (\<lambda>r. r \<noteq> zeroWidthSpace) (runes s))"

definition free_of :: "desensitizeMatcher \<Rightarrow> string \<Rightarrow> bool" where
  "free_of m s = (\<forall>i. \<forall>t \<in> set m. \<not> term_prefix t (drop i (runes s)))"

lemma loop_total:
  assumes "terms_ok m"
  shows "\<exists>r. replace_loop m s = Some r \<and> visible r = visible s \<and> free_of m r"
proof (induction "gaps (runes s)" arbitrary: s rule: less_induct)
  case less
  obtain out c where p: "replace_matches m (runes s) = (out, c)" by (cases "replace_matches m (runes s)")
  note q = pass_props [OF p assms]
  show ?case
  proof (cases c)
    case True
    have runes: "runes (concat out) = out" using pass_decodes [OF p decodes_runes] by (simp add: decodes_def)
    have "gaps (runes (concat out)) < gaps (runes s)" using q True runes by simp
    then obtain r where r: "replace_loop m (concat out) = Some r" "visible r = visible (concat out)" "free_of m r"
      using less.hyps by blast
    moreover have "visible (concat out) = visible s" using q runes by (simp add: visible_def)
    moreover have "replace_loop m s = replace_loop m (concat out)" using p True by (simp add: replace_loop.simps [of m s])
    ultimately show ?thesis by simp
  next
    case False
    then have "replace_loop m s = Some s" using p by (simp add: replace_loop.simps [of m s])
    moreover have "free_of m s" using q False by (simp add: free_of_def)
    ultimately show ?thesis by simp
  qed
qed

lemma replace_total:
  assumes "terms_ok m"
  shows "\<exists>r. replace m s = Some r \<and> visible r = visible s \<and> free_of m r"
proof (cases "m = [] \<or> s = []")
  case True
  have "free_of m s"
  proof (cases "m = []")
    case False
    then have "s = []" using True by simp
    then have r: "replace_matches m (runes s) = ([], False)" by simp
    have "\<forall>i t. t \<in> set m \<longrightarrow> \<not> term_prefix t (drop i (runes s))" using pass_props [OF r assms] by blast
    then show ?thesis by (simp add: free_of_def)
  qed (simp add: free_of_def)
  with True show ?thesis by (simp add: replace_def)
next
  case False
  with loop_total [OF assms] show ?thesis by (simp add: replace_def)
qed

section \<open>The terms\<close>

lemma normal_terms_ok:
  assumes "normal_terms seen input = Inr ts" and "\<forall>t \<in> set seen. 2 \<le> length (runes t) \<and> zeroWidthSpace \<notin> set (runes t)"
  shows "\<forall>t \<in> set ts. 2 \<le> length (runes t) \<and> zeroWidthSpace \<notin> set (runes t)"
  using assms
proof (induction seen input rule: normal_terms.induct)
  case (2 seen raw input)
  have no: "zeroWidthSpace \<notin> set (runes t)" if "\<not> Contains t zeroWidthSpace" for t
  proof
    assume "zeroWidthSpace \<in> set (runes t)"
    then obtain xs ys where "runes t = xs @ zeroWidthSpace # ys" by (auto simp: in_set_conv_decomp)
    then have "t = concat xs @ zeroWidthSpace @ concat ys" using concat_runes [of t] by simp
    with that show False by (auto simp: Contains_append)
  qed
  show ?case
  proof (cases "TrimSpace raw = [] \<or> TrimSpace raw \<in> set seen")
    case True
    with 2 show ?thesis by (simp add: Let_def)
  next
    case False
    have len: "\<not> length (runes (TrimSpace raw)) < 2" "\<not> Contains (TrimSpace raw) zeroWidthSpace"
      using 2(3) False by (auto simp: Let_def split: if_splits)
    have "normal_terms (seen @ [TrimSpace raw]) input = Inr ts" using 2(3) False len by (simp add: Let_def)
    then show ?thesis using 2(2) [OF refl False len] 2(4) len no by simp
  qed
qed simp

lemma alternatives_sub: "set (foldl add_alternative alts ts) \<subseteq> set alts \<union> set ts"
proof (induction ts arbitrary: alts)
  case (Cons x ts)
  show ?case using Cons [of "add_alternative alts x"] by (auto simp: add_alternative_def split: if_splits)
qed simp

lemma alternatives_cover: "\<forall>t \<in> set alts \<union> set ts. \<exists>a \<in> set (foldl add_alternative alts ts). fold_equal t a"
proof (induction ts arbitrary: alts)
  case Nil
  then show ?case by (auto simp: fold_equal_def)
next
  case (Cons x ts)
  let ?alts = "add_alternative alts x"
  have kept: "set alts \<subseteq> set ?alts" by (auto simp: add_alternative_def)
  obtain a where a: "a \<in> set ?alts" "fold_equal x a"
  proof (cases "list_ex (fold_equal x) alts")
    case True
    then obtain a where "a \<in> set alts" "fold_equal x a" by (auto simp: list_ex_iff)
    with True that show thesis by (simp add: add_alternative_def)
  next
    case False
    with that [of x] show thesis by (simp add: add_alternative_def fold_equal_def)
  qed
  have IH: "\<exists>b \<in> set (foldl add_alternative ?alts ts). fold_equal t b" if "t \<in> set ?alts \<union> set ts" for t
    using Cons [of ?alts] that by blast
  obtain b where b: "b \<in> set (foldl add_alternative ?alts ts)" "fold_equal a b" using IH [of a] a(1) by blast
  show ?case
  proof
    fix t assume "t \<in> set alts \<union> set (x # ts)"
    then consider "t = x" | "t \<in> set ?alts \<union> set ts" using kept by auto
    then show "\<exists>a \<in> set (foldl add_alternative alts (x # ts)). fold_equal t a"
    proof cases
      case 1
      then have "fold_equal t b" using a(2) b(2) by (simp add: fold_equal_def)
      then show ?thesis using b(1) by auto
    next
      case 2
      then show ?thesis using IH by simp
    qed
  qed
qed

lemma compiled_ok:
  assumes "compileDesensitizeMatcher ts = Some m" and "\<forall>t \<in> set ts. 2 \<le> length (runes t) \<and> zeroWidthSpace \<notin> set (runes t)"
  shows "terms_ok m"
proof -
  have "set (foldl add_alternative [] (longest_first ts)) \<subseteq> set ts"
    using alternatives_sub [of "[]" "longest_first ts"] by (simp add: longest_first_def)
  moreover have "m = map runes (foldl add_alternative [] (longest_first ts))"
    using assms(1) by (simp add: compileDesensitizeMatcher_def Let_def split: if_splits)
  ultimately show ?thesis using assms(2) by (auto simp: terms_ok_def list_all_iff)
qed

lemma compiled_covers:
  assumes "compileDesensitizeMatcher ts = Some m" and "free_of m s" and "t \<in> set ts"
  shows "\<not> term_prefix (runes t) (drop i (runes s))"
proof -
  obtain a where a: "a \<in> set (foldl add_alternative [] (longest_first ts))" "fold_equal t a"
    using alternatives_cover [of "[]" "longest_first ts"] assms(3) by (auto simp: longest_first_def)
  then have "runes a \<in> set m" using assms(1) by (auto simp: compileDesensitizeMatcher_def Let_def split: if_splits)
  then have "\<not> term_prefix (runes a) (drop i (runes s))" using assms(2) by (simp add: free_of_def)
  then show ?thesis using a(2) by (simp add: term_prefix_alt fold_equal_def)
qed

lemma configured_ok:
  assumes "normalizedDesensitizeTerms conf = Inr (ts, source)"
  shows "\<forall>t \<in> set ts. 2 \<le> length (runes t) \<and> zeroWidthSpace \<notin> set (runes t)"
  using assms normal_terms_ok [of "[]" _ ts]
  by (auto simp: normalizedDesensitizeTerms_def map_sum_def split: option.splits sum.splits)

definition accepted :: "featureRuntimeConfig \<Rightarrow> bool" where
  "accepted cfg = (\<exists>conf ts source. normalizedDesensitizeTerms conf = Inr (ts, source) \<and>
     compileDesensitizeMatcher ts = Some (fr_matcher cfg))"

lemma accepted_ok: "accepted cfg \<Longrightarrow> terms_ok (fr_matcher cfg)"
  unfolding accepted_def using compiled_ok configured_ok by blast

text \<open>
  (C38) With any list of terms that is accepted the loop of a replacement ends on every string of bytes. In the result no
  term occurs any more, in any capitalisation, and without its zero-width spaces it reads as the input did.
\<close>

theorem desensitize_terminates:
  assumes "normalizedDesensitizeTerms conf = Inr (ts, source)" and "compileDesensitizeMatcher ts = Some m"
  shows "\<exists>r. replace m s = Some r \<and> visible r = visible s \<and>
    (\<forall>t \<in> set ts. \<forall>i. \<not> term_prefix (runes t) (drop i (runes r)))"
  using replace_total [OF compiled_ok [OF assms(2) configured_ok [OF assms(1)]], of s] compiled_covers [OF assms(2)] by blast

theorem desensitize_terminates_witness:
  "\<exists>m r. compileDesensitizeMatcher [''DoS'', ''codex''] = Some m \<and> replace m ''a CODEX ddos'' = Some r \<and>
     visible r = visible ''a CODEX ddos''"
proof -
  have h: "normalizedDesensitizeTerms (Some ['' DoS'', ''codex'']) = Inr ([''DoS'', ''codex''], ''custom'')"
    "compileDesensitizeMatcher [''DoS'', ''codex''] = Some (map runes [''codex'', ''DoS''])"
    by code_simp+
  from desensitize_terminates [OF h, of "''a CODEX ddos''"] h(2) show ?thesis by blast
qed

end
