(* ===== verification/Desensitize_Scope.thy ===== *)
theory Desensitize_Scope
  imports Desensitize_Props
begin

text \<open>
  What desensitising may do to a request: it inserts zero-width spaces into the contents of prompts and into the
  metadata of tools, reports truthfully whether it did, and leaves everything else as it is.
\<close>

section \<open>Values without their zero-width spaces\<close>

fun visible_json :: "json \<Rightarrow> json" where
  "visible_json (JStr s) = JStr (visible s)"
| "visible_json (JArr xs) = JArr (map visible_json xs)"
| "visible_json (JObj fs) = JObj (map (\<lambda>(k, v). (k, visible_json v)) fs)"
| "visible_json v = v"

text \<open>A change that ends, tells whether it changed, and changes nothing that is visible.\<close>

definition harmless :: "(json \<Rightarrow> (json \<times> bool) option) \<Rightarrow> json \<Rightarrow> bool" where
  "harmless f v = (\<exists>v' c. f v = Some (v', c) \<and> c = (v' \<noteq> v) \<and> visible_json v' = visible_json v)"

lemma harmlessI: "f v = Some (v', c) \<Longrightarrow> c = (v' \<noteq> v) \<Longrightarrow> visible_json v' = visible_json v \<Longrightarrow> harmless f v"
  unfolding harmless_def by blast

lemma harmlessE:
  assumes "harmless f v"
  obtains v' c where "f v = Some (v', c)" "c = (v' \<noteq> v)" "visible_json v' = visible_json v"
  using assms unfolding harmless_def by blast

lemma harmless_cong: "f v = g v \<Longrightarrow> harmless g v \<Longrightarrow> harmless f v"
  by (simp add: harmless_def)

lemma harmless_same: "f v = Some (v, False) \<Longrightarrow> harmless f v"
  by (rule harmlessI [of _ _ _ False]) simp_all

lemma harmless_string:
  assumes "terms_ok m"
  shows "harmless (\<lambda>v. desensitizeStringField m s) (JStr s)"
proof -
  obtain r where r: "replace m s = Some r" "visible r = visible s" using replace_total [OF assms, of s] by blast
  show ?thesis by (rule harmlessI [of _ _ "JStr r" "r \<noteq> s"]) (simp_all add: desensitizeStringField_def r)
qed

lemma sweep_props:
  assumes "\<And>x. x \<in> set xs \<Longrightarrow> harmless f x"
  shows "\<exists>ys c. sweep f xs = Some (ys, c) \<and> c = (ys \<noteq> xs) \<and> map visible_json ys = map visible_json xs \<and>
    list_all2 (\<lambda>x y. \<exists>d. f x = Some (y, d)) xs ys"
  using assms
proof (induction xs)
  case (Cons x xs)
  obtain ys c where ys: "sweep f xs = Some (ys, c)" "c = (ys \<noteq> xs)" "map visible_json ys = map visible_json xs"
    "list_all2 (\<lambda>x y. \<exists>d. f x = Some (y, d)) xs ys"
  proof -
    have "harmless f z" if "z \<in> set xs" for z using Cons.prems that by simp
    from Cons.IH [OF this] that show thesis by blast
  qed
  have "harmless f x" using Cons.prems by simp
  then obtain y d where y: "f x = Some (y, d)" "d = (y \<noteq> x)" "visible_json y = visible_json x" by (rule harmlessE)
  have "sweep f (x # xs) = Some (y # ys, d \<or> c)" "(d \<or> c) = (y # ys \<noteq> x # xs)" using ys(1,2) y(1,2) by auto
  moreover have "map visible_json (y # ys) = map visible_json (x # xs)" using ys(3) y(3) by simp
  moreover have "list_all2 (\<lambda>x y. \<exists>d. f x = Some (y, d)) (x # xs) (y # ys)" using ys(4) y(1) by simp
  ultimately show ?case by blast
qed simp

lemma update_same: "map_of obj k = Some v \<Longrightarrow> AList.update k v' obj = obj \<longleftrightarrow> v' = v"
  by (induction obj) auto

lemma visible_update:
  "map_of obj k = Some v \<Longrightarrow> visible_json v' = visible_json v \<Longrightarrow>
   map (\<lambda>(k, v). (k, visible_json v)) (AList.update k v' obj) = map (\<lambda>(k, v). (k, visible_json v)) obj"
  by (induction obj) auto

lemma member_props:
  assumes "\<And>v. gm_get obj k = Some v \<Longrightarrow> harmless f v"
  shows "\<exists>obj' c. change_member k f obj = Some (obj', c) \<and> c = (obj' \<noteq> obj) \<and>
    visible_json (JObj obj') = visible_json (JObj obj) \<and> (\<forall>k'. k' \<noteq> k \<longrightarrow> gm_get obj' k' = gm_get obj k') \<and>
    gm_get obj' k = (case gm_get obj k of None \<Rightarrow> None | Some v \<Rightarrow> map_option fst (f v)) \<and>
    (c \<longrightarrow> gm_get obj' k \<noteq> gm_get obj k)"
proof (cases "gm_get obj k")
  case None
  then show ?thesis by (simp add: change_member_def)
next
  case (Some v)
  from assms [OF Some] obtain v' c where v: "f v = Some (v', c)" "c = (v' \<noteq> v)" "visible_json v' = visible_json v"
    by (rule harmlessE)
  have put: "(gm_put k v' obj \<noteq> obj) = (v' \<noteq> v)" using update_same [OF Some] by simp
  define obj' where "obj' = (if c then gm_put k v' obj else obj)"
  have "change_member k f obj = Some (obj', c)" using Some v(1) by (simp add: change_member_def obj'_def)
  moreover have "c = (obj' \<noteq> obj)" using put v(2) by (auto simp: obj'_def)
  moreover have "visible_json (JObj obj') = visible_json (JObj obj)" using visible_update [OF Some v(3)] by (simp add: obj'_def)
  moreover have "\<forall>k'. k' \<noteq> k \<longrightarrow> gm_get obj' k' = gm_get obj k'" by (simp add: obj'_def)
  moreover have "gm_get obj' k = Some v'" using v(2) Some by (simp add: obj'_def)
  ultimately show ?thesis using Some v(1,2) by auto
qed

lemma harmless_member:
  assumes "\<And>v. gm_get obj k = Some v \<Longrightarrow> harmless f v"
  shows "harmless (\<lambda>v. map_option (\<lambda>(p, c). (JObj p, c)) (change_member k f obj)) (JObj obj)"
proof -
  from member_props [OF assms] obtain obj' c where "change_member k f obj = Some (obj', c)" "c = (obj' \<noteq> obj)"
    "visible_json (JObj obj') = visible_json (JObj obj)" by blast
  then show ?thesis by (intro harmlessI [of _ _ "JObj obj'" c]) simp_all
qed

section \<open>Messages\<close>

lemma harmless_text: "terms_ok m \<Longrightarrow> harmless (text_field m) v"
proof (cases v)
  case (JStr s)
  assume "terms_ok m"
  then have "harmless (\<lambda>v. desensitizeStringField m s) (JStr s)" using JStr by (intro harmless_string) simp_all
  then show ?thesis by (simp add: harmless_def JStr text_field_def)
qed (auto intro: harmless_same simp: text_field_def)

lemma harmless_part:
  assumes "terms_ok m"
  shows "harmless (text_part m) v"
proof (cases "is_text_part v")
  case True
  then obtain part where v: "v = JObj part" by (cases v) (auto simp: is_text_part_def)
  have "harmless (\<lambda>v. map_option (\<lambda>(p, c). (JObj p, c)) (change_member ''text'' (text_field m) part)) (JObj part)"
    by (rule harmless_member) (rule harmless_text [OF assms])
  then show ?thesis using True by (simp add: harmless_def v text_part_def)
next
  case False
  then show ?thesis by (intro harmless_same) (cases v, simp_all add: text_part_def)
qed

lemma harmless_sweep:
  assumes "\<And>x. x \<in> set xs \<Longrightarrow> harmless f x"
  shows "harmless (\<lambda>v. map_option (\<lambda>(xs, c). (JArr xs, c)) (sweep f xs)) (JArr xs)"
proof -
  obtain ys c where "sweep f xs = Some (ys, c)" "c = (ys \<noteq> xs)" "map visible_json ys = map visible_json xs"
    using sweep_props [of xs f, OF assms] by blast
  then show ?thesis by (intro harmlessI [of _ _ "JArr ys" c]) simp_all
qed

lemma harmless_blocks:
  assumes "terms_ok m"
  shows "harmless (\<lambda>v. desensitizeTextBlocksInPlace m b xs) (JArr xs)"
proof (cases b)
  case True
  have "harmless (\<lambda>v. map_option (\<lambda>(xs, c). (JArr xs, c)) (sweep (text_part m) xs)) (JArr xs)"
    by (rule harmless_sweep) (use assms in \<open>simp add: harmless_part list_all_iff\<close>)
  with True show ?thesis by (simp add: desensitizeTextBlocksInPlace_def)
qed (simp add: desensitizeTextBlocksInPlace_def harmless_same)

lemma harmless_content:
  assumes "terms_ok m"
  shows "harmless (message_content m role) v"
proof (cases v)
  case (JStr s)
  then have "harmless (\<lambda>v. desensitizeStringField m s) v" using assms harmless_string by simp
  then show ?thesis by (simp add: harmless_def message_content_def JStr)
next
  case (JArr xs)
  then have "harmless (\<lambda>v. desensitizeTextBlocksInPlace m b xs) v" for b using assms harmless_blocks by simp
  from this [of True] this [of "hasDesensitizeUserMarker (block_text xs)"] show ?thesis
    by (simp add: harmless_def message_content_def JArr)
qed (auto intro!: harmless_same simp: message_content_def)

lemma harmless_message:
  assumes "terms_ok m"
  shows "harmless (desensitizeMessageInPlace m) v"
proof (cases v)
  case (JObj msg)
  have "harmless (\<lambda>w. map_option (\<lambda>(p, c). (JObj p, c)) (change_member ''content'' (message_content m (str_of ''role'' v)) msg)) (JObj msg)"
    by (rule harmless_member) (rule harmless_content [OF assms])
  then show ?thesis by (simp add: harmless_def desensitizeMessageInPlace_def JObj)
qed (auto intro!: harmless_same simp: desensitizeMessageInPlace_def)

section \<open>Tools\<close>

lemma harmless_metadata:
  assumes "terms_ok m"
  shows "harmless (desensitizeToolMetadataInPlace m) v"
    and "\<exists>ys c. metadata_items m xs = Some (ys, c) \<and> c = (ys \<noteq> xs) \<and> map visible_json ys = map visible_json xs"
    and "\<exists>gs c. metadata_members m fs = Some (gs, c) \<and> c = (gs \<noteq> fs) \<and>
      map (\<lambda>(k, v). (k, visible_json v)) gs = map (\<lambda>(k, v). (k, visible_json v)) fs"
  using assms
proof (induction m v and m xs and m fs rule: desensitizeToolMetadataInPlace_metadata_items_metadata_members.induct)
  case (1 m node)
  then obtain gs c where "metadata_members m node = Some (gs, c)" "c = (gs \<noteq> node)"
    "map (\<lambda>(k, v). (k, visible_json v)) gs = map (\<lambda>(k, v). (k, visible_json v)) node" by auto
  then show ?case by (intro harmlessI [of _ _ "JObj gs" c]) simp_all
next
  case (2 m node)
  then obtain ys c where "metadata_items m node = Some (ys, c)" "c = (ys \<noteq> node)" "map visible_json ys = map visible_json node" by auto
  then show ?case by (intro harmlessI [of _ _ "JArr ys" c]) simp_all
next
  case (8 m x xs)
  then have "harmless (desensitizeToolMetadataInPlace m) x" by simp
  then obtain y d where y: "desensitizeToolMetadataInPlace m x = Some (y, d)" "d = (y \<noteq> x)" "visible_json y = visible_json x"
    by (rule harmlessE)
  obtain ys c where ys: "metadata_items m xs = Some (ys, c)" "c = (ys \<noteq> xs)" "map visible_json ys = map visible_json xs"
    using 8(2) [OF y(1) refl] 8(3) by auto
  have "metadata_items m (x # xs) = Some (y # ys, d \<or> c)" "(d \<or> c) = (y # ys \<noteq> x # xs)" using y(1,2) ys(1,2) by auto
  with y(3) ys(3) show ?case by simp
next
  case (10 m k v fs)
  let ?f = "\<lambda>v. if (k = ''description'' \<or> k = ''title'') \<and> (case v of JStr _ \<Rightarrow> True | _ \<Rightarrow> False) then text_field m v
            else desensitizeToolMetadataInPlace m v"
  have "harmless ?f v"
  proof (cases "(k = ''description'' \<or> k = ''title'') \<and> (case v of JStr _ \<Rightarrow> True | _ \<Rightarrow> False)")
    case True
    have "harmless (text_field m) v" using 10(3) by (intro harmless_text) simp_all
    then show ?thesis by (rule harmless_cong [rotated]) (rule if_P [OF True])
  next
    case False
    have "harmless (desensitizeToolMetadataInPlace m) v" using 10(1) [OF False] 10(3) by simp
    then show ?thesis by (rule harmless_cong [rotated]) (rule if_not_P [OF False])
  qed
  then obtain v' d where v: "?f v = Some (v', d)" "d = (v' \<noteq> v)" "visible_json v' = visible_json v" by (rule harmlessE)
  obtain gs c where gs: "metadata_members m fs = Some (gs, c)" "c = (gs \<noteq> fs)"
    "map (\<lambda>(k, v). (k, visible_json v)) gs = map (\<lambda>(k, v). (k, visible_json v)) fs"
    using 10(2) [OF v(1) refl] 10(3) by auto
  have "metadata_members m ((k, v) # fs) = Some ((k, v') # gs, d \<or> c)" by (subst metadata_members.simps, unfold v(1)) (simp add: gs(1))
  moreover have "(d \<or> c) = ((k, v') # gs \<noteq> (k, v) # fs)" using v(2) gs(2) by auto
  ultimately show ?case using v(3) gs(3) by simp
qed (simp_all add: harmless_same)

section \<open>Requests\<close>

lemma harmless_messages:
  assumes "terms_ok m"
  shows "harmless (messages_field m) v"
proof (cases v)
  case (JArr xs)
  have "harmless (\<lambda>w. map_option (\<lambda>(xs, c). (JArr xs, c)) (sweep (desensitizeMessageInPlace m) xs)) (JArr xs)"
    by (rule harmless_sweep) (use assms JArr in \<open>simp add: harmless_message list_all_iff\<close>)
  then show ?thesis by (simp add: harmless_def messages_field_def JArr)
qed (auto intro!: harmless_same simp: messages_field_def)

text \<open>What may happen to a message: nothing, or a new content if it is a prompt or the user's.\<close>

definition message_scope :: "json \<Rightarrow> json \<Rightarrow> bool" where
  "message_scope x y = (y = x \<or> str_of ''role'' x \<in> {''system'', ''developer'', ''user''} \<and> is_obj x \<and> is_obj y \<and>
     (\<forall>k. k \<noteq> ''content'' \<longrightarrow> gm_get (members y) k = gm_get (members x) k))"

lemma scope_message:
  assumes "desensitizeMessageInPlace m x = Some (y, d)" and "terms_ok m"
  shows "message_scope x y"
proof (cases x)
  case (JObj msg)
  obtain msg' c where change: "change_member ''content'' (message_content m (str_of ''role'' x)) msg = Some (msg', c)"
      "c = (msg' \<noteq> msg)" "\<forall>k. k \<noteq> ''content'' \<longrightarrow> gm_get msg' k = gm_get msg k"
    using member_props [of msg "''content''" "message_content m (str_of ''role'' x)"]
      harmless_content [OF assms(2)] by blast
  have y: "y = JObj msg'" using assms(1) change(1) by (simp add: desensitizeMessageInPlace_def JObj)
  show ?thesis
  proof (cases "str_of ''role'' x \<in> {''system'', ''developer'', ''user''}")
    case True
    with change(3) show ?thesis by (simp add: message_scope_def y JObj members_def is_obj_def)
  next
    case False
    then have "message_content m (str_of ''role'' x) v = Some (v, False)" for v by (simp add: message_content_def)
    then have "change_member ''content'' (message_content m (str_of ''role'' x)) msg = Some (msg, False)"
      by (simp add: change_member_def split: option.split)
    with change(1) show ?thesis by (simp add: message_scope_def y JObj)
  qed
qed (use assms(1) in \<open>simp_all add: desensitizeMessageInPlace_def message_scope_def\<close>)

lemma scope_ok:
  assumes "terms_ok (fr_matcher cfg)"
  shows "\<exists>obj' c. applyDesensitizeInPlace (Some cfg) obj = Some (obj', c) \<and> (c \<longleftrightarrow> obj' \<noteq> obj) \<and>
    visible_json (JObj obj') = visible_json (JObj obj) \<and>
    (\<forall>k. k \<notin> {''messages'', ''tools''} \<longrightarrow> gm_get obj' k = gm_get obj k) \<and>
    (arr_of ''messages'' (JObj obj) = None \<longrightarrow> gm_get obj' ''messages'' = gm_get obj ''messages'') \<and>
    (\<forall>xs. gm_get obj ''messages'' = Some (JArr xs) \<longrightarrow>
       (\<exists>ys. gm_get obj' ''messages'' = Some (JArr ys) \<and> list_all2 message_scope xs ys))"
proof (cases "fr_desensitizeEnabled cfg")
  case False
  have "list_all2 message_scope xs xs" for xs by (simp add: list.rel_refl message_scope_def)
  with False show ?thesis by (auto simp: applyDesensitizeInPlace_def)
next
  case True
  let ?m = "fr_matcher cfg"
  note ok = assms
  obtain o1 c1 where o1: "change_member ''messages'' (messages_field ?m) obj = Some (o1, c1)" "c1 = (o1 \<noteq> obj)"
      "visible_json (JObj o1) = visible_json (JObj obj)" "\<forall>k. k \<noteq> ''messages'' \<longrightarrow> gm_get o1 k = gm_get obj k"
      "gm_get o1 ''messages'' = (case gm_get obj ''messages'' of None \<Rightarrow> None | Some v \<Rightarrow> map_option fst (messages_field ?m v))"
    using member_props [of obj "''messages''" "messages_field ?m"] harmless_messages [OF ok] by blast
  have tools: "gm_get o1 ''tools'' = gm_get obj ''tools''" using o1(4) by simp
  have h: "harmless (desensitizeToolMetadataInPlace ?m) v" if "gm_get o1 ''tools'' = Some v" for v
    by (rule harmless_metadata(1) [OF ok])
  obtain o2 c2 where o2: "change_member ''tools'' (desensitizeToolMetadataInPlace ?m) o1 = Some (o2, c2)" "c2 = (o2 \<noteq> o1)"
      "visible_json (JObj o2) = visible_json (JObj o1)" "\<forall>k. k \<noteq> ''tools'' \<longrightarrow> gm_get o2 k = gm_get o1 k"
      "c2 \<longrightarrow> gm_get o2 ''tools'' \<noteq> gm_get o1 ''tools''"
    using member_props [of o1 "''tools''" "desensitizeToolMetadataInPlace ?m", OF h] by blast
  have run: "applyDesensitizeInPlace (Some cfg) obj = Some (o2, c1 \<or> c2)"
    using True o1(1) o2(1) by (simp add: applyDesensitizeInPlace_def)
  have changed: "(c1 \<or> c2) = (o2 \<noteq> obj)" using o1(2) o2(2,5) tools by auto
  have rest: "\<forall>k. k \<notin> {''messages'', ''tools''} \<longrightarrow> gm_get o2 k = gm_get obj k" using o1(4) o2(4) by simp
  have scope: "\<exists>ys. gm_get o2 ''messages'' = Some (JArr ys) \<and> list_all2 message_scope xs ys"
    if xs: "gm_get obj ''messages'' = Some (JArr xs)" for xs
  proof -
    obtain ys c where ys: "sweep (desensitizeMessageInPlace ?m) xs = Some (ys, c)"
        "list_all2 (\<lambda>x y. \<exists>d. desensitizeMessageInPlace ?m x = Some (y, d)) xs ys"
      using sweep_props [of xs "desensitizeMessageInPlace ?m"] harmless_message [OF ok] by blast
    have "list_all2 message_scope xs ys"
      using ys(2) by (rule list.rel_mono_strong) (use scope_message [OF _ ok] in blast)
    moreover have "gm_get o2 ''messages'' = Some (JArr ys)" using o2(4) o1(5) xs ys(1) by (simp add: messages_field_def)
    ultimately show ?thesis by blast
  qed
  have other: "gm_get o2 ''messages'' = gm_get obj ''messages''" if none: "arr_of ''messages'' (JObj obj) = None"
  proof -
    have "v = v'" if "gm_get obj ''messages'' = Some v" "messages_field ?m v = Some (v', c)" for v v' c
      using none that by (cases v) (auto simp: messages_field_def arr_of_def members_def)
    moreover have "gm_get o2 ''messages'' = gm_get o1 ''messages''" using o2(4) by simp
    ultimately show ?thesis using o1(1,5) by (auto simp: change_member_def split: option.splits)
  qed
  show ?thesis
    by (intro exI [of _ o2] exI [of _ "c1 \<or> c2"] conjI allI impI; (rule run | rule changed | rule scope | rule other | simp only: o2(3) o1(3))?)
      (use rest in blast)
qed

text \<open>
  (C39) Desensitising a request with accepted terms ends. It reports a change exactly if there is one; without the
  zero-width spaces the request reads as before; members other than the messages and the tools stay, as do all
  messages but those of system, developer and user, where only the content can change.
\<close>

theorem desensitize_scope:
  assumes "normalizedDesensitizeTerms conf = Inr (ts, source)" and "compileDesensitizeMatcher ts = Some (fr_matcher cfg)"
  shows "\<exists>obj' c. applyDesensitizeInPlace (Some cfg) obj = Some (obj', c) \<and> (c \<longleftrightarrow> obj' \<noteq> obj) \<and>
    visible_json (JObj obj') = visible_json (JObj obj) \<and>
    (\<forall>k. k \<notin> {''messages'', ''tools''} \<longrightarrow> gm_get obj' k = gm_get obj k) \<and>
    (arr_of ''messages'' (JObj obj) = None \<longrightarrow> gm_get obj' ''messages'' = gm_get obj ''messages'') \<and>
    (\<forall>xs. gm_get obj ''messages'' = Some (JArr xs) \<longrightarrow>
       (\<exists>ys. gm_get obj' ''messages'' = Some (JArr ys) \<and> list_all2 message_scope xs ys))"
  by (rule scope_ok) (rule compiled_ok [OF assms(2) configured_ok [OF assms(1)]])

definition demo_features :: featureRuntimeConfig where
  "demo_features = \<lparr>fr_desensitizeEnabled = True, fr_desensitizeTerms = [''DoS'', ''codex''], fr_desensitizeSource = ''custom'',
     fr_matcher = map runes [''codex'', ''DoS''], fr_oauthClientMode = ''cli'', fr_enterpriseCredits = False,
     fr_configuredModels = []\<rparr>"

definition demo_prompt :: "(string \<times> json) list" where
  "demo_prompt = [(''model'', JStr ''codex''), (''messages'', JArr [JObj [(''role'', JStr ''system''), (''content'', JStr ''a Codex'')],
     JObj [(''role'', JStr ''assistant''), (''content'', JStr ''codex'')]])]"

theorem desensitize_scope_witness:
  "\<exists>obj' c. applyDesensitizeInPlace (Some demo_features) demo_prompt = Some (obj', c) \<and> (c \<longleftrightarrow> obj' \<noteq> demo_prompt) \<and>
     gm_get obj' ''model'' = Some (JStr ''codex'')"
proof -
  have h: "normalizedDesensitizeTerms (Some [''DoS'', ''codex'']) = Inr ([''DoS'', ''codex''], ''custom'')" by code_simp
  have m: "compileDesensitizeMatcher [''DoS'', ''codex''] = Some (fr_matcher demo_features)" by code_simp
  obtain obj' c where r: "applyDesensitizeInPlace (Some demo_features) demo_prompt = Some (obj', c)" "c \<longleftrightarrow> obj' \<noteq> demo_prompt"
      "\<forall>k. k \<notin> {''messages'', ''tools''} \<longrightarrow> gm_get obj' k = gm_get demo_prompt k"
    using desensitize_scope [OF h m, of demo_prompt] by (elim exE conjE) (rule that)
  have "gm_get obj' ''model'' = gm_get demo_prompt ''model''" using r(3) by simp
  then show ?thesis using r(1,2) by (simp add: demo_prompt_def)
qed

end
