(* ===== verification/Outbound_Props.thy ===== *)
theory Outbound_Props
  imports Outbound Desensitize_Scope Payload_Props Codec
begin

text \<open>
  The body that leaves the plugin: the levels of effort it is prepared with are those the catalogue lists, and after
  all its stages its tool traffic is paired, it names the resolved model and carries a cache key.
\<close>

section \<open>Levels of effort\<close>

lemma put_where_get:
  "distinct (map fst kvs) \<Longrightarrow>
   gm_get (put_where P kvs m) k = (case gm_get kvs k of Some v \<Rightarrow> if P v then Some v else gm_get m k | None \<Rightarrow> gm_get m k)"
proof (induction kvs arbitrary: m)
  case (Cons kv kvs)
  obtain j v where kv: "kv = (j, v)" by force
  have "gm_get kvs j = None" using Cons.prems by (simp add: kv map_of_eq_None_iff)
  moreover have "put_where P ((j, v) # kvs) m = put_where P kvs (if P v then gm_put j v m else m)" by (simp add: put_where_def)
  ultimately show ?case using Cons by (auto simp: kv split: option.split)
qed (simp add: put_where_def)

lemma map_values: "gm_get (map (\<lambda>(k, c). (k, f c)) kvs) k = map_option f (gm_get kvs k)"
  by (induction kvs) auto

lemma fallback_levels: "gm_get globalEffortFallback model = Some c \<Longrightarrow> ec_efforts c \<noteq> []"
proof -
  have "list_all (\<lambda>(k, c). ec_efforts c \<noteq> []) globalEffortFallback" by code_simp
  then show "gm_get globalEffortFallback model = Some c \<Longrightarrow> ec_efforts c \<noteq> []"
    by (auto simp: list_all_iff dest!: map_of_SomeD)
qed

text \<open>The levels that the upstream has told for a model.\<close>

definition told :: "effort_buckets \<Rightarrow> string \<Rightarrow> string \<Rightarrow> string list" where
  "told b realm model = (case gm_get (effortsSnapshot b realm) model of None \<Rightarrow> [] | Some ls \<Rightarrow> ls)"

lemma global_table:
  assumes "distinct (map fst (effortsSnapshot b ''global''))"
  shows "(case gm_get (fst (effort_tables b ''global'')) model of None \<Rightarrow> [] | Some ls \<Rightarrow> ls) =
    fst (EffortListing ''global'' model (told b ''global'' model) d)"
proof -
  have g: "gm_get (fst (effort_tables b ''global'')) model =
      (case gm_get (effortsSnapshot b ''global'') model of
         Some v \<Rightarrow> if v \<noteq> [] then Some v else map_option ec_efforts (gm_get globalEffortFallback model)
       | None \<Rightarrow> map_option ec_efforts (gm_get globalEffortFallback model))"
    using put_where_get [OF assms]
    by (simp add: effort_tables_def realmKey_def globalEffortMap_def map_values split: option.split)
  show ?thesis
    using fallback_levels [of model]
    by (auto simp: g told_def EffortListing_def staticEffortCap_def realmKey_def Let_def split: option.splits)
qed

text \<open>
  What the catalogue lists for a model of the international realm is what requests for it are held to: a known level
  of a request is sent as the best listed one, whether the upstream has told its levels or they come from the table.
\<close>

theorem listed_effort_sent:
  assumes "distinct (map fst (effortsSnapshot b ''global''))"
    and "fst (EffortListing ''global'' (str_in obj ''model'') (told b ''global'' (str_in obj ''model'')) d) = listed" and "listed \<noteq> []"
    and "str_in obj ''model'' \<noteq> []" and "effort_key obj = Some key" and "gm_get obj key = Some (JStr req)" and "rank_of req = Some r"
  shows "\<exists>e. gm_get (normalizeReasoningEffort (fst (effort_tables b ''global'')) obj) key = Some (JStr e) \<and>
    rank_of e = Some (effort_target (ranks listed) r) \<and> (e = req \<or> e \<in> set listed)"
proof -
  have "gm_get (fst (effort_tables b ''global'')) (str_in obj ''model'') = Some listed"
    using global_table [OF assms(1), of "str_in obj ''model''" d] assms(2,3) by (auto split: option.splits)
  then show ?thesis by (rule effort_normalised) (use assms(4-7) in simp_all)
qed

definition cold :: effort_buckets where
  "cold = \<lparr>eb_efforts = [], eb_defaults = []\<rparr>"

theorem listed_effort_sent_witness:
  "gm_get (normalizeReasoningEffort (fst (effort_tables cold ''global''))
     [(''model'', JStr ''deepseek-v4.1-flash''), (''reasoning_effort'', JStr ''max'')]) ''reasoning_effort'' = Some (JStr ''high'')"
proof -
  let ?obj = "[(''model'', JStr ''deepseek-v4.1-flash''), (''reasoning_effort'', JStr ''max'')]"
  have h: "distinct (map fst (effortsSnapshot cold ''global''))"
    "fst (EffortListing ''global'' (str_in ?obj ''model'') (told cold ''global'' (str_in ?obj ''model'')) []) = [''high'']"
    "[''high''] \<noteq> []" "str_in ?obj ''model'' \<noteq> []" "effort_key ?obj = Some ''reasoning_effort''"
    "gm_get ?obj ''reasoning_effort'' = Some (JStr ''max'')" "rank_of ''max'' = Some 6"
    by code_simp+
  have "rank_of ''high'' = Some 4" by code_simp
  then have "ranks [''high''] = {4}" by (auto simp: ranks_def)
  moreover have "{i \<in> {4}. i \<le> (6 :: nat)} = {4}" by auto
  ultimately have t: "effort_target (ranks [''high'']) 6 = 4" by (simp add: effort_target_def)
  from listed_effort_sent [OF h] obtain e where e: "gm_get (normalizeReasoningEffort (fst (effort_tables cold ''global'')) ?obj)
      ''reasoning_effort'' = Some (JStr e)" "rank_of e = Some 4" "e = ''max'' \<or> e \<in> set [''high'']"
    unfolding t by (elim exE conjE) (rule that)
  then show ?thesis using h(7) by auto
qed

section \<open>The stages of a body\<close>

definition reads :: "json_text \<Rightarrow> string \<Rightarrow> body \<Rightarrow> bool" where
  "reads lib s obj = (s \<noteq> [] \<and> UnmarshalAny lib s = Some (JObj obj))"

lemma marshalled:
  assumes "faithful lib"
  obtains s where "MarshalAny lib (JObj obj) = Some s" "reads lib s obj"
  using assms by (fastforce simp: faithful_def reads_def)

lemma readsD: "reads lib s obj \<Longrightarrow> s \<noteq> [] \<and> unmarshal_map lib s = Decoded obj"
  by (simp add: reads_def unmarshal_map_def)

lemma rewrite_reads:
  assumes "faithful lib" and "reads lib s obj"
  shows "\<exists>s' obj'. rewriteModelInBody lib s model = Returns s' \<and> reads lib s' obj' \<and>
    (TrimSpace model \<noteq> [] \<longrightarrow> EqualFold (TrimSpace (str_in obj' ''model'')) (TrimSpace model))"
proof -
  obtain s2 where m: "MarshalAny lib (JObj (gm_put ''model'' (JStr model) obj)) = Some s2" "reads lib s2 (gm_put ''model'' (JStr model) obj)"
    using assms(1) by (rule marshalled)
  have "str_in (gm_put ''model'' (JStr model) obj) ''model'' = model" by (simp add: str_in_def str_of_def members_def)
  moreover have "EqualFold x x" for x by (simp add: EqualFold_def)
  ultimately show ?thesis
    using assms(2) m readsD [OF assms(2)]
    by (cases "TrimSpace model = []"; cases "EqualFold (TrimSpace (str_in obj ''model'')) (TrimSpace model)")
      (auto simp: rewriteModelInBody_def)
qed

lemma prepare_reads:
  assumes "faithful lib" and "reads lib s obj"
  shows "\<exists>s'. PrepareBodyOptWithEffortsAndDefault lib s sz ef de = Some s' \<and> reads lib s' (prepare_obj sz ef de obj)"
proof -
  obtain s2 where "MarshalAny lib (JObj (prepare_obj sz ef de obj)) = Some s2" "reads lib s2 (prepare_obj sz ef de obj)"
    using assms(1) by (rule marshalled)
  then show ?thesis using readsD [OF assms(2)] by (simp add: PrepareBodyOptWithEffortsAndDefault_def)
qed

lemma key_reads:
  assumes "faithful lib" and "reads lib s obj"
  shows "\<exists>s' obj'. InjectPromptCacheKey lib hash s uid conv = Some s' \<and> reads lib s' obj' \<and>
    str_in obj' ''prompt_cache_key'' \<noteq> [] \<and> (\<forall>k. k \<noteq> ''prompt_cache_key'' \<longrightarrow> gm_get obj' k = gm_get obj k)"
proof (cases "str_in obj ''prompt_cache_key'' = []")
  case True
  define key where "key = buildCacheKey hash uid (cache_conversation obj conv)"
  define obj' where "obj' = gm_put ''prompt_cache_key'' (JStr key) obj"
  obtain s' where m: "MarshalAny lib (JObj obj') = Some s'" "reads lib s' obj'" using assms(1) by (rule marshalled)
  have "InjectPromptCacheKey lib hash s uid conv = Some s'"
    using readsD [OF assms(2)] True m(1) by (simp add: InjectPromptCacheKey_def obj'_def key_def)
  moreover have "key \<noteq> []" by (simp add: key_def buildCacheKey_def Let_def)
  then have "str_in obj' ''prompt_cache_key'' \<noteq> []" by (simp add: obj'_def str_in_def str_of_def members_def)
  moreover have "\<forall>k. k \<noteq> ''prompt_cache_key'' \<longrightarrow> gm_get obj' k = gm_get obj k" by (simp add: obj'_def)
  ultimately show ?thesis using m(2) by blast
next
  case False
  then have "InjectPromptCacheKey lib hash s uid conv = Some s"
    using readsD [OF assms(2)] by (simp add: InjectPromptCacheKey_def)
  with False assms(2) show ?thesis by blast
qed

text \<open>A message of the system in front, if there is any message.\<close>

definition led :: "json list \<Rightarrow> bool" where
  "led ms = (ms \<noteq> [] \<longrightarrow> EqualFold (TrimSpace (str_of ''role'' (hd ms))) ''system'')"

lemma console_reads:
  assumes "faithful lib" and "reads lib s obj"
  shows "\<exists>obj'. reads lib (ensureConsoleSystem lib s) obj' \<and> (\<forall>k. k \<noteq> ''messages'' \<longrightarrow> gm_get obj' k = gm_get obj k) \<and>
    (\<forall>ms'. arr_of ''messages'' (JObj obj') = Some ms' \<longrightarrow> led ms' \<and>
      (\<exists>ms. arr_of ''messages'' (JObj obj) = Some ms \<and> (ms' = ms \<or> ms' = console_system # ms)))"
proof (cases "\<exists>m ms. arr_of ''messages'' (JObj obj) = Some (m # ms) \<and> \<not> EqualFold (TrimSpace (str_of ''role'' m)) ''system''")
  case True
  then obtain m ms where ms: "arr_of ''messages'' (JObj obj) = Some (m # ms)" "\<not> EqualFold (TrimSpace (str_of ''role'' m)) ''system''"
    by blast
  define obj' where "obj' = gm_put ''messages'' (JArr (console_system # m # ms)) obj"
  obtain s' where s': "MarshalAny lib (JObj obj') = Some s'" "reads lib s' obj'" using assms(1) by (rule marshalled)
  have "ensureConsoleSystem lib s = s'"
    using readsD [OF assms(2)] ms s'(1) by (simp add: ensureConsoleSystem_def obj'_def)
  moreover have "led (console_system # m # ms)" by code_simp
  moreover have "arr_of ''messages'' (JObj obj') = Some (console_system # m # ms)" by (simp add: obj'_def)
  ultimately show ?thesis using ms(1) s'(2) by (intro exI [of _ obj']) (simp add: obj'_def)
next
  case False
  then have "ensureConsoleSystem lib s = s"
    using readsD [OF assms(2)] by (auto simp: ensureConsoleSystem_def split: option.split list.split)
  moreover have "led ms" if "arr_of ''messages'' (JObj obj) = Some ms" for ms
    using False that by (cases ms) (auto simp: led_def)
  ultimately show ?thesis using assms(2) by auto
qed

text \<open>Replacing the model panics exactly for the body \<open>null\<close>: the map is nil, and the model is stored into it.\<close>

theorem null_body_panics:
  "rewriteModelInBody lib s model = Panics \<longleftrightarrow> s \<noteq> [] \<and> TrimSpace model \<noteq> [] \<and> UnmarshalAny lib s = Some JNull"
  by (simp add: rewriteModelInBody_def unmarshal_map_def split: option.split json.split)

section \<open>Pairing\<close>

definition paired :: "json list \<Rightarrow> bool" where
  "paired ms = (set (callIDs ms) = set (resultIDs ms) \<and> nameBadIDs ms = [])"

lemma traffic_list:
  "list_all2 (\<lambda>x y. traffic y = traffic x) xs ys \<Longrightarrow>
   callIDs ys = callIDs xs \<and> nameBadIDs ys = nameBadIDs xs \<and> resultIDs ys = resultIDs xs"
proof (induction rule: list_all2_induct)
  case (Cons x xs y ys)
  have "has_role r y = has_role r x" for r using traffic_role [OF Cons(1)] .
  moreover have "str_of ''tool_call_id'' y = str_of ''tool_call_id'' x" "map call_key (calls_of y) = map call_key (calls_of x)"
    using Cons(1) by (auto simp: traffic_def)
  ultimately show ?case
    using Cons(3) traffic_calls [of "calls_of y" "calls_of x"]
    by (auto simp: callIDs_def call_objs_def nameBadIDs_def resultIDs_def)
qed simp

lemma traffic_scope:
  assumes "message_scope x y"
  shows "traffic y = traffic x" and "str_of ''role'' y = str_of ''role'' x"
  using assms by (auto simp: message_scope_def traffic_def str_of_def calls_of_def arr_of_def)

lemma paired_scope: "list_all2 message_scope xs ys \<Longrightarrow> paired xs \<Longrightarrow> paired ys"
  using traffic_list [of xs ys] list_all2_mono [of message_scope xs ys "\<lambda>x y. traffic y = traffic x"] traffic_scope(1)
  by (simp add: paired_def)

lemma led_scope: "list_all2 message_scope xs ys \<Longrightarrow> led xs \<Longrightarrow> led ys"
  using traffic_scope(2) by (cases xs; cases ys) (auto simp: led_def)

lemma paired_console: "paired ms \<Longrightarrow> paired (console_system # ms)"
proof -
  have "callIDs (console_system # ms) = callIDs ms" "resultIDs (console_system # ms) = resultIDs ms"
    "nameBadIDs (console_system # ms) = nameBadIDs ms"
    by (simp_all add: callIDs_def call_objs_def nameBadIDs_def resultIDs_def console_system_def has_role_def calls_of_def
        arr_of_def members_def)
  then show "paired ms \<Longrightarrow> paired (console_system # ms)" by (simp add: paired_def)
qed

section \<open>The whole\<close>

lemma prepared_stream: "gm_get (prepare_obj sz ef de obj) ''stream'' = Some (JBool True)"
  by (simp add: prepare_steps last_keeps messages_keep first_steps_def Let_def normalizeRoles_def normalizeImageURL_def
      patterns_keep choice_keeps limits_keep)

lemma prepared_model: "gm_get (prepare_obj sz ef de obj) ''model'' = gm_get obj ''model''"
  by (simp add: prepare_steps last_keeps messages_keep first_keeps)

lemma desensitize_reads:
  assumes "faithful lib" and "reads lib s obj" and "\<forall>c. cfg = Some c \<longrightarrow> terms_ok (fr_matcher c)"
  shows "\<exists>s' obj'. applyDesensitizeBody lib cfg s = Some s' \<and> reads lib s' obj' \<and>
    (\<forall>k. k \<notin> {''messages'', ''tools''} \<longrightarrow> gm_get obj' k = gm_get obj k) \<and>
    (\<forall>ys. arr_of ''messages'' (JObj obj') = Some ys \<longrightarrow>
      (\<exists>xs. arr_of ''messages'' (JObj obj) = Some xs \<and> list_all2 message_scope xs ys))"
proof -
  have same: "list_all2 message_scope xs xs" for xs by (simp add: list.rel_refl message_scope_def)
  obtain obj' c where r: "applyDesensitizeInPlace cfg obj = Some (obj', c)" "c \<longleftrightarrow> obj' \<noteq> obj"
      "\<forall>k. k \<notin> {''messages'', ''tools''} \<longrightarrow> gm_get obj' k = gm_get obj k"
      "\<forall>ys. arr_of ''messages'' (JObj obj') = Some ys \<longrightarrow>
        (\<exists>xs. arr_of ''messages'' (JObj obj) = Some xs \<and> list_all2 message_scope xs ys)"
  proof (cases cfg)
    case None
    with that [of obj False] same show thesis by (simp add: applyDesensitizeInPlace_def)
  next
    case (Some cfg')
    obtain obj' c where h: "applyDesensitizeInPlace (Some cfg') obj = Some (obj', c)" "c \<longleftrightarrow> obj' \<noteq> obj"
        "\<forall>k. k \<notin> {''messages'', ''tools''} \<longrightarrow> gm_get obj' k = gm_get obj k"
        "arr_of ''messages'' (JObj obj) = None \<longrightarrow> gm_get obj' ''messages'' = gm_get obj ''messages''"
        "\<forall>xs. gm_get obj ''messages'' = Some (JArr xs) \<longrightarrow>
           (\<exists>ys. gm_get obj' ''messages'' = Some (JArr ys) \<and> list_all2 message_scope xs ys)"
      using scope_ok [OF assms(3) [rule_format, OF Some], of obj] by (elim exE conjE) (rule that)
    have "\<exists>xs. arr_of ''messages'' (JObj obj) = Some xs \<and> list_all2 message_scope xs ys"
      if ys: "arr_of ''messages'' (JObj obj') = Some ys" for ys
    proof (cases "arr_of ''messages'' (JObj obj)")
      case None
      then have "arr_of ''messages'' (JObj obj') = None" using h(4) arr_of_cong [of obj' "''messages''" obj] by simp
      with ys show ?thesis by simp
    next
      case (Some xs)
      then have "gm_get obj ''messages'' = Some (JArr xs)"
        by (auto simp: arr_of_def members_def split: option.splits json.splits)
      with h(5) obtain zs where "gm_get obj' ''messages'' = Some (JArr zs)" "list_all2 message_scope xs zs" by blast
      with ys Some show ?thesis by (auto simp: arr_of_def members_def)
    qed
    then show thesis using that [of obj' c] h(1-3) Some by blast
  qed
  show ?thesis
  proof (cases c)
    case True
    obtain s' where "MarshalAny lib (JObj obj') = Some s'" "reads lib s' obj'" using assms(1) by (rule marshalled)
    then show ?thesis using r(1,3,4) True readsD [OF assms(2)] by (intro exI [of _ s'] exI [of _ obj']) (simp add: applyDesensitizeBody_def)
  next
    case False
    then show ?thesis
      using r assms(2) readsD [OF assms(2)] by (intro exI [of _ s] exI [of _ obj']) (simp add: applyDesensitizeBody_def)
  qed
qed

text \<open>
  (C34) Whatever request object the host hands over, a body goes out for it: the assembly neither panics nor hangs, if the
  terms of the desensitiser were accepted. The body streams, names the resolved model, has a cache key, pairs every
  call with a result under the same identifier and blanks no name, and a global account's begins with a message of
  the system.
\<close>

theorem outbound_body:
  assumes "faithful lib" and "reads lib (if payload = [] then original else payload) obj"
    and "\<forall>cfg. ob_features ob = Some cfg \<longrightarrow> accepted cfg"
  shows "\<exists>out sent. wbPrepareBody lib ob payload original (Some a) model = Some (Returns out) \<and>
    UnmarshalAny lib out = Some (JObj sent) \<and> gm_get sent ''stream'' = Some (JBool True) \<and>
    str_in sent ''prompt_cache_key'' \<noteq> [] \<and>
    (TrimSpace model \<noteq> [] \<longrightarrow> EqualFold (TrimSpace (str_in sent ''model'')) (TrimSpace model)) \<and>
    (\<forall>ms. arr_of ''messages'' (JObj sent) = Some ms \<longrightarrow>
      paired ms \<and> (globalOn (ob_globalEnabled ob) (ob_client ob) a \<longrightarrow> led ms))"
proof -
  let ?src = "if payload = [] then original else payload"
  let ?global = "globalOn (ob_globalEnabled ob) (ob_client ob) a"
  have ok: "\<forall>cfg. ob_features ob = Some cfg \<longrightarrow> terms_ok (fr_matcher cfg)"
    using assms(3) accepted_ok by simp
  obtain s1 o1 where s1: "rewriteModelInBody lib ?src model = Returns s1" "reads lib s1 o1"
      "TrimSpace model \<noteq> [] \<longrightarrow> EqualFold (TrimSpace (str_in o1 ''model'')) (TrimSpace model)"
    using rewrite_reads [OF assms(1,2)] by blast
  obtain ef de where tables: "effort_tables (cl_buckets (ob_client ob)) (Realm (ob_globalEnabled ob) a) = (ef, de)" by force
  define o2 where "o2 = prepare_obj (cl_SanitizeFingerprints (ob_client ob)) ef de o1"
  obtain s2 where s2: "PrepareBodyOptWithEffortsAndDefault lib s1 (cl_SanitizeFingerprints (ob_client ob)) ef de = Some s2"
      "reads lib s2 o2"
    unfolding o2_def using prepare_reads [OF assms(1) s1(2)] by blast
  define conv where "conv = CacheConversationID lib (ob_raw ob) s1"
  obtain s3 o3 where s3: "InjectPromptCacheKey lib (ob_hash ob) s2 (a_UID a) conv = Some s3" "reads lib s3 o3"
      "str_in o3 ''prompt_cache_key'' \<noteq> []" "\<forall>k. k \<noteq> ''prompt_cache_key'' \<longrightarrow> gm_get o3 k = gm_get o2 k"
    using key_reads [OF assms(1) s2(2)] by blast
  define s4 where "s4 = (if ?global then ensureConsoleSystem lib s3 else s3)"
  obtain o4 where s4: "reads lib s4 o4" "\<forall>k. k \<noteq> ''messages'' \<longrightarrow> gm_get o4 k = gm_get o3 k"
      "\<forall>ms'. arr_of ''messages'' (JObj o4) = Some ms' \<longrightarrow> (?global \<longrightarrow> led ms') \<and>
        (\<exists>ms. arr_of ''messages'' (JObj o3) = Some ms \<and> (ms' = ms \<or> ms' = console_system # ms))"
    using console_reads [OF assms(1) s3(2)] s3(2) by (cases ?global) (auto simp: s4_def)
  obtain s5 o5 where s5: "applyDesensitizeBody lib (ob_features ob) s4 = Some s5" "reads lib s5 o5"
      "\<forall>k. k \<notin> {''messages'', ''tools''} \<longrightarrow> gm_get o5 k = gm_get o4 k"
      "\<forall>ys. arr_of ''messages'' (JObj o5) = Some ys \<longrightarrow>
        (\<exists>xs. arr_of ''messages'' (JObj o4) = Some xs \<and> list_all2 message_scope xs ys)"
    using desensitize_reads [OF assms(1) s4(1) ok] by (elim exE conjE) (rule that)
  have "PrepareChatBodyForRealm lib (ob_hash ob) (ob_globalEnabled ob) (ob_client ob) s1 a conv = Returns s4"
    using s2(1) s3(1) by (simp add: PrepareChatBodyForRealm_def prepareBody_def tables of_option_def s4_def)
  then have run: "wbPrepareBody lib ob payload original (Some a) model = Some (Returns s5)"
    using s1(1) s5(1) readsD [OF assms(2)] by (simp add: wbPrepareBody_def Let_def conv_def)
  have keep: "gm_get o5 k = gm_get o2 k" if "k \<notin> {''messages'', ''tools'', ''prompt_cache_key''}" for k
    using that s3(4) s4(2) s5(3) by simp
  have "gm_get o5 ''prompt_cache_key'' = gm_get o3 ''prompt_cache_key''" using s4(2) s5(3) by simp
  then have key: "str_in o5 ''prompt_cache_key'' \<noteq> []" using s3(3) str_in_get by metis
  have "gm_get o5 ''model'' = gm_get o1 ''model''" using keep [of "''model''"] by (simp add: o2_def prepared_model)
  then have named: "str_in o5 ''model'' = str_in o1 ''model''" by (rule str_in_get)
  have stream: "gm_get o5 ''stream'' = Some (JBool True)" using keep [of "''stream''"] by (simp add: o2_def prepared_stream)
  have messages: "paired ys \<and> (?global \<longrightarrow> led ys)" if ys: "arr_of ''messages'' (JObj o5) = Some ys" for ys
  proof -
    obtain xs where xs: "arr_of ''messages'' (JObj o4) = Some xs" "list_all2 message_scope xs ys" using s5(4) ys by blast
    obtain ms where ms: "arr_of ''messages'' (JObj o3) = Some ms" "xs = ms \<or> xs = console_system # ms" "?global \<longrightarrow> led xs"
      using s4(3) xs(1) by blast
    have "arr_of ''messages'' (JObj o2) = Some ms" using ms(1) s3(4) arr_of_cong [of o3 "''messages''" o2] by simp
    then have "paired ms" unfolding o2_def paired_def by (rule prepared_paired)
    then have "paired xs" using ms(2) paired_console by blast
    then show ?thesis using paired_scope [OF xs(2)] led_scope [OF xs(2)] ms(3) by blast
  qed
  have decoded: "UnmarshalAny lib s5 = Some (JObj o5)" using s5(2) by (simp add: reads_def)
  have model: "TrimSpace model \<noteq> [] \<longrightarrow> EqualFold (TrimSpace (str_in o5 ''model'')) (TrimSpace model)"
    using s1(3) by (simp only: named)
  show ?thesis
    by (intro exI [of _ s5] exI [of _ o5] conjI allI impI)
      (rule run decoded stream key | rule mp [OF model], assumption | drule messages, blast)+
qed

definition demo_outgoing :: body where
  "demo_outgoing = [(''model'', JStr ''alias''), (''messages'', JArr [JObj [(''role'', JStr ''tool''), (''tool_call_id'', JStr ''c9'')]])]"

definition demo_outbound :: outbound where
  "demo_outbound = \<lparr>ob_hash = \<lambda>s. s, 
     ob_raw = \<lparr>rl_messages = \<lambda>s. None, rl_string = \<lambda>s. None, rl_parts = \<lambda>s. None, rl_part = \<lambda>s. None,
       rl_texts = \<lambda>s. None, rl_hash4 = \<lambda>s. s, rl_hash16 = \<lambda>s. s\<rparr>, ob_globalEnabled = True,
     ob_client = newWBClient cold, ob_features = Some demo_features\<rparr>"

theorem outbound_body_witness:
  "\<exists>out sent. wbPrepareBody unary demo_outbound (unary_text (JObj demo_outgoing)) [] (Some (zero_auth\<lparr>a_realm := ''global''\<rparr>)) ''hy3'' =
     Some (Returns out) \<and> UnmarshalAny unary out = Some (JObj sent) \<and> EqualFold (TrimSpace (str_in sent ''model'')) ''hy3''"
proof -
  have r: "reads unary (if unary_text (JObj demo_outgoing) = [] then [] else unary_text (JObj demo_outgoing)) demo_outgoing"
    by (simp add: reads_def)
  have "normalizedDesensitizeTerms (Some [''DoS'', ''codex'']) = Inr ([''DoS'', ''codex''], ''custom'')"
    "compileDesensitizeMatcher [''DoS'', ''codex''] = Some (fr_matcher demo_features)" by code_simp+
  then have a: "accepted demo_features" unfolding accepted_def by blast
  have t: "TrimSpace ''hy3'' = ''hy3''" by code_simp
  have f: "\<forall>cfg. ob_features demo_outbound = Some cfg \<longrightarrow> accepted cfg" using a by (simp add: demo_outbound_def)
  from outbound_body [OF unary_faithful r f, of "zero_auth\<lparr>a_realm := ''global''\<rparr>" "''hy3''"] t show ?thesis
    by (elim exE conjE) (intro exI conjI, assumption+, simp)
qed

end
