(* ===== verification/Headers.thy ===== *)
theory Headers
  imports Requests Session_Ids
begin

text \<open>
  The headers of upstream requests, after \<^verbatim>\<open>src/internal/upstream/headers.go\<close>, the cached file of the device token
  in \<^verbatim>\<open>device_token.go\<close>, and the metadata of a chat request in \<^verbatim>\<open>src/plugin/wb_upstream.go\<close>. A header is the map of
  \<open>Requests\<close>. SHA-256 in hexadecimal is the argument \<open>hash\<close>, a fresh message identifier an argument of its own.
\<close>

section \<open>The client\<close>

record header_config =
  hc_UserAgent :: string
  hc_ClientVersion :: string
  hc_CliVersion :: string
  hc_ClientName :: string
  hc_PassthroughIP :: bool
  hc_DeviceToken :: string
  hc_DeviceTokenFile :: string

definition defaultClientVersion :: string where "defaultClientVersion = ''5.5.4''"
definition defaultCliVersion :: string where "defaultCliVersion = ''2.137.1''"
definition originRefererCN :: string where "originRefererCN = ''https://www.codebuddy.cn''"
definition originRefererIntl :: string where "originRefererIntl = ''https://www.workbuddy.ai''"

text \<open>\<open>a != nil && a.IsGlobal()\<close>; \<open>ge\<close> is the switch of the package \<open>auth\<close>.\<close>

definition global_account :: "bool \<Rightarrow> auth option \<Rightarrow> bool" where
  "global_account ge a = (case a of None \<Rightarrow> False | Some a \<Rightarrow> IsGlobal ge a)"

definition originRefererForAuth :: "bool \<Rightarrow> auth option \<Rightarrow> string" where
  "originRefererForAuth ge a = (if global_account ge a then originRefererIntl else originRefererCN)"

definition clientVersion :: "header_config \<Rightarrow> string" where
  "clientVersion c = (if hc_ClientVersion c \<noteq> [] then hc_ClientVersion c else defaultClientVersion)"

definition cliVersion :: "header_config \<Rightarrow> string" where
  "cliVersion c = (if hc_CliVersion c \<noteq> [] then hc_CliVersion c else defaultCliVersion)"

definition defaultWorkBuddyUAFor :: "bool \<Rightarrow> header_config \<Rightarrow> auth option \<Rightarrow> string" where
  "defaultWorkBuddyUAFor ge c a =
     ''WorkBuddy/'' @ clientVersion c @ '' '' @ (if global_account ge a then ''WorkBuddy AI'' else ''WorkBuddy'') @
     ''/'' @ clientVersion c @ '' CLI/'' @ cliVersion c"

definition userAgent :: "bool \<Rightarrow> header_config \<Rightarrow> auth option \<Rightarrow> string" where
  "userAgent ge c a = (if hc_UserAgent c \<noteq> [] then hc_UserAgent c else defaultWorkBuddyUAFor ge c a)"

definition attributionClientName :: "header_config \<Rightarrow> string" where
  "attributionClientName c = (if hc_ClientName c \<noteq> [] then hc_ClientName c else ''WorkBuddy'')"

definition billingUA :: "header_config \<Rightarrow> string" where
  "billingUA c = (if attributionClientName c = ''SaaS'' then [] else ''WorkBuddy/'' @ clientVersion c)"

section \<open>The device token\<close>

definition deviceTokenFileTTL :: int where "deviceTokenFileTTL = 5 * Minute"
definition deviceTokenFileMaxLen :: int where "deviceTokenFileMaxLen = 1024"

record deviceTokenFileCache =
  dt_path :: string
  dt_token :: string
  dt_readAt :: int

text \<open>The size that \<open>Stat\<close> tells and the content that is read, each \<open>None\<close> on an error.\<close>

definition readTrimmedFile :: "int option \<Rightarrow> string option \<Rightarrow> string option" where
  "readTrimmedFile stat content = (case stat of
      None \<Rightarrow> None
    | Some sz \<Rightarrow> if sz > deviceTokenFileMaxLen then None else map_option TrimSpace content)"

definition readDeviceTokenFile ::
  "string \<Rightarrow> int \<Rightarrow> int option \<Rightarrow> string option \<Rightarrow> deviceTokenFileCache \<Rightarrow> string \<times> deviceTokenFileCache" where
  "readDeviceTokenFile path now stat content d =
     (if path = [] then ([], d)
      else if path = dt_path d \<and> Sub now (dt_readAt d) < deviceTokenFileTTL then (dt_token d, d)
      else (let tok = (case readTrimmedFile stat content of Some t \<Rightarrow> t | None \<Rightarrow> [])
            in (tok, \<lparr>dt_path = path, dt_token = tok, dt_readAt = now\<rparr>)))"

text \<open>\<open>file\<close> is what the file gives at this moment.\<close>

definition resolveDeviceToken :: "header_config \<Rightarrow> string \<Rightarrow> auth option \<Rightarrow> string" where
  "resolveDeviceToken c file a =
     (if (case a of Some a \<Rightarrow> a_DeviceToken a \<noteq> [] | None \<Rightarrow> False) then a_DeviceToken (the a)
      else if hc_DeviceToken c \<noteq> [] then hc_DeviceToken c
      else if hc_DeviceTokenFile c \<noteq> [] then file
      else [])"

definition injectDeviceToken :: "header_config \<Rightarrow> string \<Rightarrow> auth option \<Rightarrow> header \<Rightarrow> header" where
  "injectDeviceToken c file a h =
     (let tok = resolveDeviceToken c file a in if tok \<noteq> [] then gm_put ''X-Device-Token'' tok h else h)"

section \<open>Common headers\<close>

definition deriveAccountStableID :: "(string \<Rightarrow> string) \<Rightarrow> string \<Rightarrow> string \<Rightarrow> string" where
  "deriveAccountStableID hash uid purpose = take 36 (hash (''wb2a:'' @ purpose @ '':'' @ uid))"

definition injectAccountStableHeaders :: "(string \<Rightarrow> string) \<Rightarrow> auth option \<Rightarrow> header \<Rightarrow> header" where
  "injectAccountStableHeaders hash a h = (case a of
      None \<Rightarrow> h
    | Some a \<Rightarrow>
        if a_UID a = [] then h
        else set_all [(''X-Machine-ID'', deriveAccountStableID hash (a_UID a) ''machine''),
               (''X-Session-ID'', deriveAccountStableID hash (a_UID a) ''session'')] h)"

definition acceptLanguageFor :: "bool \<Rightarrow> auth option \<Rightarrow> string" where
  "acceptLanguageFor ge a = (if global_account ge a then ''en-US'' else ''zh-CN'')"

definition injectCodeBuddyRequest :: "header \<Rightarrow> header" where
  "injectCodeBuddyRequest h = gm_put ''X-CodeBuddy-Request'' ''1'' h"

definition CommonHeaders :: "(string \<Rightarrow> string) \<Rightarrow> bool \<Rightarrow> header_config \<Rightarrow> auth option \<Rightarrow> header \<Rightarrow> header" where
  "CommonHeaders hash ge c a h =
     (let origin = originRefererForAuth ge a;
          h = set_all [(''Content-Type'', ''application/json''), (''Accept'', ''application/json''),
                (''X-Requested-With'', ''XMLHttpRequest''), (''Origin'', origin), (''Referer'', origin @ ''/''),
                (''User-Agent'', userAgent ge c a), (''X-CodeBuddy-Request'', ''1''),
                (''Accept-Language'', acceptLanguageFor ge a)] h
      in injectAccountStableHeaders hash a h)"

section \<open>Chat headers\<close>

definition injectGlobalChatHeaders :: "bool \<Rightarrow> auth option \<Rightarrow> header \<Rightarrow> header" where
  "injectGlobalChatHeaders ge a h =
     (if \<not> global_account ge a then h
      else set_all [(''X-No-Enterprise-Id'', ''1''), (''X-Domain'', ''www.workbuddy.ai'')] h)"

definition injectAttribution :: "header_config \<Rightarrow> header \<Rightarrow> header" where
  "injectAttribution c h =
     (let name = attributionClientName c in
      if name = ''SaaS'' then gm_put ''X-Product'' ''SaaS'' h
      else set_all [(''X-Agent-Purpose'', ''conversation''), (''X-IDE-Name'', name), (''X-IDE-Type'', name),
             (''X-IDE-Version'', clientVersion c), (''X-Product'', name)] h)"

definition injectClientIP :: "header_config \<Rightarrow> string \<Rightarrow> header \<Rightarrow> header" where
  "injectClientIP c clientIP h =
     (if \<not> hc_PassthroughIP c \<or> clientIP = [] then h
      else set_all [(''X-Forwarded-For'', clientIP), (''X-Real-IP'', clientIP), (''X-Client-IP'', clientIP)] h)"

record ChatMeta =
  cm_ConversationID :: string
  cm_ConversationRequestID :: string
  cm_TraceID :: string

definition hex_char :: "char \<Rightarrow> bool" where
  "hex_char c = (CHR ''0'' \<le> c \<and> c \<le> CHR ''9'' \<or> CHR ''a'' \<le> c \<and> c \<le> CHR ''f'' \<or> CHR ''A'' \<le> c \<and> c \<le> CHR ''F'')"

definition validTraceID :: "string \<Rightarrow> bool" where
  "validTraceID s = ((length s = 16 \<or> length s = 32) \<and> list_all hex_char s)"

text \<open>\<open>fresh\<close> stands in for a missing identifier of the request, \<open>messageID\<close> is the message's own.\<close>

definition injectConversationHeaders :: "string \<Rightarrow> string \<Rightarrow> ChatMeta \<Rightarrow> header \<Rightarrow> header" where
  "injectConversationHeaders fresh messageID meta h =
     (let convReqID = (if cm_ConversationRequestID meta = [] then fresh else cm_ConversationRequestID meta);
          h = (if cm_ConversationID meta \<noteq> [] then gm_put ''X-Conversation-ID'' (cm_ConversationID meta) h else h);
          traceID = (if cm_TraceID meta = [] then convReqID else cm_TraceID meta);
          b3Trace = (if validTraceID convReqID then convReqID else messageID)
      in set_all [(''X-Conversation-Request-ID'', convReqID), (''X-Conversation-Message-ID'', messageID),
           (''X-Request-ID'', messageID), (''X-Root-Request-ID'', convReqID), (''X-Trace-ID'', traceID),
           (''X-B3-TraceId'', b3Trace), (''X-B3-SpanId'', take 16 messageID), (''X-B3-Sampled'', ''1'')] h)"

definition ChatHeaders ::
  "(string \<Rightarrow> string) \<Rightarrow> bool \<Rightarrow> header_config \<Rightarrow> string \<Rightarrow> string \<Rightarrow> string \<Rightarrow> auth \<Rightarrow> string \<Rightarrow> ChatMeta \<Rightarrow> header \<Rightarrow> header" where
  "ChatHeaders hash ge c file fresh messageID a clientIP meta h =
     (let h = gm_put ''Accept'' ''application/json, text/event-stream'' (CommonHeaders hash ge c (Some a) h);
          h = present_or ''Authorization'' ''Bearer '' ''X-No-Authorization'' (a_AccessToken a) h;
          h = present_or ''X-User-Id'' [] ''X-No-User-Id'' (a_UID a) h;
          h = (if \<not> IsGlobal ge a
               then present_or ''X-Domain'' [] ''X-No-Department-Info'' (a_Domain a)
                      (present_or ''X-Enterprise-Id'' [] ''X-No-Enterprise-Id'' (a_EnterpriseID a) h)
               else injectGlobalChatHeaders ge (Some a) h)
      in injectConversationHeaders fresh messageID meta
           (injectDeviceToken c file (Some a) (injectClientIP c clientIP (injectAttribution c h))))"

definition ExtractClientIP :: "header \<Rightarrow> string" where
  "ExtractClientIP h =
     (let xff = (case gm_get h ''X-Forwarded-For'' of Some v \<Rightarrow> v | None \<Rightarrow> []);
          real = TrimSpace (case gm_get h ''X-Real-IP'' of Some v \<Rightarrow> v | None \<Rightarrow> [])
      in if xff \<noteq> [] then TrimSpace (takeWhile (\<lambda>c. c \<noteq> CHR '','') xff) else real)"

section \<open>Other headers\<close>

definition BillingHeaders :: "bool \<Rightarrow> header_config \<Rightarrow> string \<Rightarrow> auth \<Rightarrow> header \<Rightarrow> header" where
  "BillingHeaders ge c file a h =
     (let h = set_all [(''Authorization'', ''Bearer '' @ a_AccessToken a), (''Accept'', ''application/json''),
                (''Content-Type'', ''application/json'')] h;
          h = gm_put ''Accept-Language'' (acceptLanguageFor ge (Some a)) (injectCodeBuddyRequest h);
          h = (if hc_UserAgent c \<noteq> [] then gm_put ''User-Agent'' (hc_UserAgent c) h
               else if billingUA c \<noteq> [] then gm_put ''User-Agent'' (billingUA c) h else h);
          h = (if a_UID a \<noteq> [] then gm_put ''X-User-Id'' (a_UID a) h else h);
          h = (if a_EnterpriseID a \<noteq> []
               then set_all [(''X-Enterprise-Id'', a_EnterpriseID a), (''X-Tenant-Id'', a_EnterpriseID a)] h else h);
          h = (if a_Domain a \<noteq> [] then gm_put ''X-Domain'' (a_Domain a) h else h)
      in injectDeviceToken c file (Some a) h)"

definition RefreshHeaders :: "(string \<Rightarrow> string) \<Rightarrow> bool \<Rightarrow> header_config \<Rightarrow> auth \<Rightarrow> header \<Rightarrow> header" where
  "RefreshHeaders hash ge c a h =
     (let h = gm_put ''X-Refresh-Token'' (a_RefreshToken a) (CommonHeaders hash ge c (Some a) h);
          h = (if a_EnterpriseID a \<noteq> [] then gm_put ''X-Enterprise-Id'' (a_EnterpriseID a) h else h)
      in gm_put ''X-Auth-Refresh-Source'' ''plugin'' h)"

section \<open>A chat request of the plugin\<close>

definition wbChatMeta :: "json_text \<Rightarrow> raw_lib \<Rightarrow> string \<Rightarrow> string \<Rightarrow> string \<Rightarrow> ChatMeta" where
  "wbChatMeta jlib lib salt fresh body =
     \<lparr>cm_ConversationID = ResolveConversationID jlib body,
      cm_ConversationRequestID = TurnRequestID lib salt fresh (TurnKey lib body), cm_TraceID = []\<rparr>"

text \<open>\<open>fresh\<close> and \<open>fresh'\<close> are two identifiers drawn one after the other.\<close>

definition wbApplyChatHeaders ::
  "(string \<Rightarrow> string) \<Rightarrow> bool \<Rightarrow> header_config \<Rightarrow> json_text \<Rightarrow> raw_lib \<Rightarrow> string \<Rightarrow> string \<Rightarrow> string \<Rightarrow> string \<Rightarrow> string \<Rightarrow> auth \<Rightarrow> string \<Rightarrow> header \<Rightarrow> header" where
  "wbApplyChatHeaders hash ge c jlib lib salt file fresh fresh' messageID a body h =
     ChatHeaders hash ge c file fresh' messageID a [] (wbChatMeta jlib lib salt fresh body) h"

end
