(* ===== verification/Headers_Props.thy ===== *)
theory Headers_Props
  imports Headers
begin

text \<open>
  The headers of a chat request: no refresh token leaves with it, the realm shows consistently in all of them, every
  statement about the account is made once, the trace identifier is valid; and the requests of one turn share their
  identifier.
\<close>

lemma set_all_get: "gm_get (set_all fs h) k = (case gm_get (rev fs) k of Some v \<Rightarrow> Some v | None \<Rightarrow> gm_get h k)"
proof (induction fs rule: rev_induct)
  case (snoc f fs)
  then show ?case by (cases f) (auto simp: set_all_def put_all_def)
qed (simp add: set_all_def put_all_def)

lemma present_or_get:
  "absent \<noteq> k \<Longrightarrow> gm_get (present_or k pre absent v h) j =
    (if j = k \<and> v \<noteq> [] then Some (pre @ v) else if j = absent \<and> v = [] then Some ''1'' else gm_get h j)"
  by (simp add: present_or_def)

lemmas header_gets = set_all_get present_or_get

lemma common_get:
  assumes "k \<notin> {''Content-Type'', ''Accept'', ''X-Requested-With'', ''Origin'', ''Referer'', ''User-Agent'',
    ''X-CodeBuddy-Request'', ''Accept-Language'', ''X-Machine-ID'', ''X-Session-ID''}"
  shows "gm_get (CommonHeaders hash ge c a h) k = gm_get h k"
  using assms by (simp add: CommonHeaders_def injectAccountStableHeaders_def Let_def header_gets split: option.split)

lemma common_realm:
  "gm_get (CommonHeaders hash ge c a h) ''Origin'' = Some (originRefererForAuth ge a)"
  "gm_get (CommonHeaders hash ge c a h) ''Accept-Language'' = Some (acceptLanguageFor ge a)"
  "gm_get (CommonHeaders hash ge c a h) ''User-Agent'' = Some (userAgent ge c a)"
  "gm_get (CommonHeaders hash ge c a h) ''Referer'' = Some (originRefererForAuth ge a @ ''/'')"
  by (simp_all add: CommonHeaders_def injectAccountStableHeaders_def Let_def header_gets split: option.split)

lemma conversation_get:
  assumes "k \<notin> {''X-Conversation-ID'', ''X-Conversation-Request-ID'', ''X-Conversation-Message-ID'', ''X-Request-ID'',
    ''X-Root-Request-ID'', ''X-Trace-ID'', ''X-B3-TraceId'', ''X-B3-SpanId'', ''X-B3-Sampled''}"
  shows "gm_get (injectConversationHeaders fresh messageID meta h) k = gm_get h k"
  using assms by (simp add: injectConversationHeaders_def Let_def header_gets)

lemma conversation_ids:
  "gm_get (injectConversationHeaders fresh messageID meta h) ''X-Conversation-Request-ID'' =
     Some (if cm_ConversationRequestID meta = [] then fresh else cm_ConversationRequestID meta)"
  "gm_get (injectConversationHeaders fresh messageID meta h) ''X-B3-TraceId'' =
     Some (let id = (if cm_ConversationRequestID meta = [] then fresh else cm_ConversationRequestID meta)
           in if validTraceID id then id else messageID)"
  by (simp_all add: injectConversationHeaders_def Let_def header_gets)

lemma client_get:
  assumes "k \<notin> {''X-Product'', ''X-Agent-Purpose'', ''X-IDE-Name'', ''X-IDE-Type'', ''X-IDE-Version'', ''X-Forwarded-For'',
    ''X-Real-IP'', ''X-Client-IP'', ''X-Device-Token''}"
  shows "gm_get (injectDeviceToken c file a (injectClientIP c ip (injectAttribution c h))) k = gm_get h k"
proof -
  have "gm_get (injectAttribution c h) k = gm_get h k" using assms by (simp add: injectAttribution_def Let_def header_gets)
  moreover have "gm_get (injectClientIP c ip g) k = gm_get g k" for g
    using assms by (simp add: injectClientIP_def header_gets)
  moreover have "gm_get (injectDeviceToken c file a g) k = gm_get g k" for g
    using assms by (simp add: injectDeviceToken_def Let_def)
  ultimately show ?thesis by simp
qed

text \<open>The sites, and the client that a request names when none is configured.\<close>

definition site_of :: "bool \<Rightarrow> string" where
  "site_of global = (if global then ''https://www.workbuddy.ai'' else ''https://www.codebuddy.cn'')"

definition default_agent :: "bool \<Rightarrow> string \<Rightarrow> string \<Rightarrow> string" where
  "default_agent global version cli =
     ''WorkBuddy/'' @ version @ (if global then '' WorkBuddy AI/'' else '' WorkBuddy/'') @ version @ '' CLI/'' @ cli"

text \<open>What a header says when there is a value, and the header that is sent instead.\<close>

definition tells :: "(string \<Rightarrow> string option) \<Rightarrow> string \<Rightarrow> string \<Rightarrow> string \<Rightarrow> string \<Rightarrow> bool" where
  "tells get k absent pre v = (if v = [] then get k = None \<and> get absent = Some ''1'' else get k = Some (pre @ v) \<and> get absent = None)"

text \<open>The refresh token is read nowhere.\<close>

lemma realm_ignores_refresh:
  "global_account ge (Some (a\<lparr>a_RefreshToken := r\<rparr>)) = global_account ge (Some a)"
  "IsGlobal ge (a\<lparr>a_RefreshToken := r\<rparr>) = IsGlobal ge a"
  by (simp_all add: global_account_def IsGlobal_def Realm_def realmLocked_def)

lemma common_ignores_refresh: "CommonHeaders hash ge c (Some (a\<lparr>a_RefreshToken := r\<rparr>)) h = CommonHeaders hash ge c (Some a) h"
proof -
  have "originRefererForAuth ge (Some (a\<lparr>a_RefreshToken := r\<rparr>)) = originRefererForAuth ge (Some a)"
    "userAgent ge c (Some (a\<lparr>a_RefreshToken := r\<rparr>)) = userAgent ge c (Some a)"
    "acceptLanguageFor ge (Some (a\<lparr>a_RefreshToken := r\<rparr>)) = acceptLanguageFor ge (Some a)"
    "injectAccountStableHeaders hash (Some (a\<lparr>a_RefreshToken := r\<rparr>)) g = injectAccountStableHeaders hash (Some a) g" for g
    by (simp_all add: originRefererForAuth_def userAgent_def defaultWorkBuddyUAFor_def acceptLanguageFor_def
        injectAccountStableHeaders_def realm_ignores_refresh)
  then show ?thesis by (simp only: CommonHeaders_def)
qed

lemma chat_ignores_refresh:
  "ChatHeaders hash ge c file fresh messageID (a\<lparr>a_RefreshToken := r\<rparr>) ip meta h = ChatHeaders hash ge c file fresh messageID a ip meta h"
proof -
  let ?b = "a\<lparr>a_RefreshToken := r\<rparr>"
  have "injectGlobalChatHeaders ge (Some ?b) g = injectGlobalChatHeaders ge (Some a) g"
    "injectDeviceToken c file (Some ?b) g = injectDeviceToken c file (Some a) g"
    "a_AccessToken ?b = a_AccessToken a" "a_UID ?b = a_UID a" "a_EnterpriseID ?b = a_EnterpriseID a" "a_Domain ?b = a_Domain a" for g
    by (simp_all add: injectGlobalChatHeaders_def realm_ignores_refresh injectDeviceToken_def resolveDeviceToken_def)
  then show ?thesis by (simp only: ChatHeaders_def common_ignores_refresh realm_ignores_refresh)
qed

text \<open>
  (C35) The headers of a chat request do not depend on the refresh token. Its origin, referer and language are those of the
  account's realm, and so is the brand in the user agent, unless an agent is configured. A domestic request
  tells the token, the user, the enterprise and the domain of the account as they are or declares each missing, an
  international one the token and the user, with the international domain and no enterprise; and the trace identifier is
  valid, whatever the conversation brings.
\<close>

theorem chat_headers:
  assumes "validTraceID messageID"
  shows "let get = gm_get (ChatHeaders hash ge c file fresh messageID a ip meta []); global = IsGlobal ge a in
    (\<forall>r. ChatHeaders hash ge c file fresh messageID (a\<lparr>a_RefreshToken := r\<rparr>) ip meta [] =
       ChatHeaders hash ge c file fresh messageID a ip meta []) \<and> get ''X-Refresh-Token'' = None \<and>
    get ''Origin'' = Some (site_of global) \<and> get ''Referer'' = Some (site_of global @ ''/'') \<and>
    get ''Accept-Language'' = Some (if global then ''en-US'' else ''zh-CN'') \<and>
    get ''User-Agent'' = Some (if hc_UserAgent c \<noteq> [] then hc_UserAgent c
      else default_agent global (if hc_ClientVersion c \<noteq> [] then hc_ClientVersion c else ''5.5.4'')
        (if hc_CliVersion c \<noteq> [] then hc_CliVersion c else ''2.137.1'')) \<and>
    tells get ''Authorization'' ''X-No-Authorization'' ''Bearer '' (a_AccessToken a) \<and>
    tells get ''X-User-Id'' ''X-No-User-Id'' [] (a_UID a) \<and>
    tells get ''X-Enterprise-Id'' ''X-No-Enterprise-Id'' [] (if global then [] else a_EnterpriseID a) \<and>
    tells get ''X-Domain'' ''X-No-Department-Info'' [] (if global then ''www.workbuddy.ai'' else a_Domain a) \<and>
    (\<exists>id. get ''X-B3-TraceId'' = Some id \<and> validTraceID id)"
proof -
  define h2 where "h2 = present_or ''X-User-Id'' [] ''X-No-User-Id'' (a_UID a) (present_or ''Authorization'' ''Bearer '' ''X-No-Authorization''
    (a_AccessToken a) (gm_put ''Accept'' ''application/json, text/event-stream'' (CommonHeaders hash ge c (Some a) [])))"
  define h3 where "h3 = (if \<not> IsGlobal ge a
      then present_or ''X-Domain'' [] ''X-No-Department-Info'' (a_Domain a)
             (present_or ''X-Enterprise-Id'' [] ''X-No-Enterprise-Id'' (a_EnterpriseID a) h2)
      else injectGlobalChatHeaders ge (Some a) h2)"
  have chat: "ChatHeaders hash ge c file fresh messageID a ip meta [] = injectConversationHeaders fresh messageID meta
      (injectDeviceToken c file (Some a) (injectClientIP c ip (injectAttribution c h3)))"
    by (simp add: ChatHeaders_def Let_def h3_def h2_def)
  have global: "global_account ge (Some a) = IsGlobal ge a" by (simp add: global_account_def)
  note get = chat conversation_get client_get
  show ?thesis
    unfolding Let_def
    by (intro conjI allI chat_ignores_refresh)
      (simp_all add: get conversation_ids h3_def h2_def header_gets common_get common_realm injectGlobalChatHeaders_def
        global originRefererForAuth_def acceptLanguageFor_def Let_def assms tells_def site_of_def default_agent_def userAgent_def
        defaultWorkBuddyUAFor_def clientVersion_def cliVersion_def originRefererIntl_def originRefererCN_def
        defaultClientVersion_def defaultCliVersion_def)
qed

definition demo_headers :: header_config where
  "demo_headers = \<lparr>hc_UserAgent = [], hc_ClientVersion = [], hc_CliVersion = [], hc_ClientName = [], hc_PassthroughIP = False,
     hc_DeviceToken = [], hc_DeviceTokenFile = []\<rparr>"

theorem chat_headers_witness:
  "gm_get (ChatHeaders (\<lambda>s. s) True demo_headers [] [] (replicate 32 CHR ''a'') (zero_auth\<lparr>a_Domain := ''www.workbuddy.ai''\<rparr>) []
     \<lparr>cm_ConversationID = [], cm_ConversationRequestID = ''no-hex'', cm_TraceID = []\<rparr> []) ''X-Domain'' = Some ''www.workbuddy.ai''"
proof -
  have v: "validTraceID (replicate 32 CHR ''a'')" by code_simp
  have "IsGlobal True (zero_auth\<lparr>a_Domain := ''www.workbuddy.ai''\<rparr>)" by code_simp
  then show ?thesis
    using chat_headers [OF v, of "\<lambda>s. s" True demo_headers "[]" "[]" "zero_auth\<lparr>a_Domain := ''www.workbuddy.ai''\<rparr>" "[]"
        "\<lparr>cm_ConversationID = [], cm_ConversationRequestID = ''no-hex'', cm_TraceID = []\<rparr>"]
    by (simp add: Let_def tells_def)
qed

text \<open>
  All requests of a turn carry the same request identifier, however often identifiers were drawn in between: a later
  body of the turn has more messages, but none of the user.
\<close>

theorem turn_shares_id:
  assumes "rl_messages lib b1 = Some ms" and "rl_messages lib b2 = Some (ms @ later)" and "b1 \<noteq> []" and "b2 \<noteq> []"
    and "list_all (\<lambda>m. rm_Role m \<noteq> ''user'') later" and "turn_key lib ms \<noteq> []" and "\<And>x. rl_hash16 lib x \<noteq> []"
  shows "gm_get (wbApplyChatHeaders hash ge c jlib lib salt file f1 g1 m1 a b1 []) ''X-Conversation-Request-ID'' =
    gm_get (wbApplyChatHeaders hash ge c jlib lib salt file' f2 g2 m2 a b2 []) ''X-Conversation-Request-ID''"
proof -
  have key: "TurnKey lib b1 = turn_key lib ms" "TurnKey lib b2 = turn_key lib ms"
    using assms turn_key_per_turn [OF assms(5), of lib ms] by (simp_all add: TurnKey_def)
  have "gm_get (wbApplyChatHeaders hash ge c jlib lib salt f3 f g m a b []) ''X-Conversation-Request-ID'' =
      Some (rl_hash16 lib (salt @ ''|'' @ TurnKey lib b))" if "TurnKey lib b \<noteq> []" for f3 f g m b
    using that assms(7) by (simp add: wbApplyChatHeaders_def ChatHeaders_def Let_def conversation_ids wbChatMeta_def TurnRequestID_def)
  then show ?thesis using key assms(6) by simp
qed

text \<open>Within its time the file of the device token is read once, and a failure to read it is remembered as long.\<close>

theorem device_token_cached:
  assumes "path \<noteq> []" and "path \<noteq> dt_path d" and "now \<le> later" and "Sub later now < deviceTokenFileTTL"
  shows "fst (readDeviceTokenFile path later stat' content' (snd (readDeviceTokenFile path now stat content d))) =
    (case readTrimmedFile stat content of Some t \<Rightarrow> t | None \<Rightarrow> [])"
  using assms by (simp add: readDeviceTokenFile_def Let_def)

end
