(* ===== verification/Config.thy ===== *)
theory Config
  imports Desensitize Requests Model_Readiness Scheduler
begin

text \<open>
  Configuring the plugin, after \<^verbatim>\<open>src/plugin/usage_config.go\<close> and the configuration half of
  \<^verbatim>\<open>src/plugin/desensitize.go\<close>: a document in YAML is checked and decoded completely before any setting changes.

  The YAML decoder is an argument: the nodes it reads, and the decoding into the struct of the features. So is the
  JSON of the request. Settings that the code keeps in package variables are a record.
\<close>

section \<open>Nodes\<close>

datatype yaml_kind = ZeroKind | DocumentNode | SequenceNode | MappingNode | ScalarNode | AliasNode

text \<open>\<open>Alias\<close> tells whether the pointer is set, \<open>Tagged\<close> whether the style has \<open>TaggedStyle\<close>.\<close>

datatype yaml_node = YNode (yn_Kind: yaml_kind) (yn_Tagged: bool) (yn_Tag: string) (yn_Value: string) (yn_Anchor: string)
  (yn_Alias: bool) (yn_Line: int) (yn_Column: int) (yn_Content: "yaml_node list")

record featureConfigYAML =
  fy_Desensitize :: "bool option"
  fy_DesensitizeTerms :: "string list option"
  fy_OAuthClientMode :: string
  fy_EnterpriseCredits :: "bool option"
  fy_Models :: yaml_node

definition zero_node :: yaml_node where
  "zero_node = YNode ZeroKind False [] [] [] False 0 0 []"

definition zero_features :: featureConfigYAML where
  "zero_features = \<lparr>fy_Desensitize = None, fy_DesensitizeTerms = None, fy_OAuthClientMode = [], fy_EnterpriseCredits = None,
     fy_Models = zero_node\<rparr>"

text \<open>The first document of a stream, whether the stream ends behind it, and the document read into the struct.\<close>

record yaml_lib =
  yl_first :: "string \<Rightarrow> yaml_node option"
  yl_ends :: "string \<Rightarrow> bool"
  yl_features :: "string \<Rightarrow> featureConfigYAML option"
  yl_request :: "string \<Rightarrow> string option"

datatype config_error =
    InvalidPluginConfiguration | InvalidYAML | NotOneDocument | NotAMapping | UsesAnchors | UsesTags | KeysNotStrings
  | MergeKeys | DuplicateKeys | MustBeScalar string | MustBeBoolean string | MustBeString string
  | ProxyUnsupported | UnknownMode | BadTerm term_error | BadExpression
  | ModelsNotArray | ModelNotString | ModelNotOneLine | ModelEmpty | ModelTooLong | ModelDuplicated

section \<open>Checking the document\<close>

definition nodeStartsWithNonSpecificTag :: "yaml_node \<Rightarrow> string list \<Rightarrow> bool" where
  "nodeStartsWithNonSpecificTag node lines =
     (if yn_Line node < 1 \<or> yn_Line node > int (length lines) \<or> yn_Column node < 1 then False
      else
        (let line = runes (TrimSuffix (lines ! nat (yn_Line node - 1)) [CHR 0x0D]); column = nat (yn_Column node - 1) in
         if column \<ge> length line \<or> line ! column \<noteq> ''!'' then False
         else column + 1 = length line \<or> line ! (column + 1) = '' '' \<or> line ! (column + 1) = [CHR 0x09]))"

fun key_error :: "string list \<Rightarrow> yaml_node list \<Rightarrow> config_error option" where
  "key_error seen (key # v # rest) =
     (if yn_Kind key \<noteq> ScalarNode \<or> yn_Tag key \<noteq> ''!!str'' then Some KeysNotStrings
      else if yn_Value key = ''<<'' \<or> yn_Tag key = ''!!merge'' then Some MergeKeys
      else if yn_Value key \<in> set seen then Some DuplicateKeys
      else key_error (yn_Value key # seen) rest)"
| "key_error seen _ = None"

definition node_error :: "yaml_node \<Rightarrow> string list \<Rightarrow> config_error option" where
  "node_error node lines =
     (if yn_Kind node = AliasNode \<or> yn_Alias node \<or> yn_Anchor node \<noteq> [] then Some UsesAnchors
      else if yn_Tagged node \<or> nodeStartsWithNonSpecificTag node lines then Some UsesTags
      else if yn_Kind node = MappingNode then key_error [] (yn_Content node)
      else None)"

primrec first_error :: "config_error option list \<Rightarrow> config_error option" where
  "first_error [] = None"
| "first_error (e # es) = (case e of None \<Rightarrow> first_error es | Some _ \<Rightarrow> e)"

primrec validateConfigYAMLNode :: "yaml_node \<Rightarrow> string list \<Rightarrow> config_error option" where
  "validateConfigYAMLNode (YNode kind tagged tag value anchor alias line column content) lines =
     first_error (node_error (YNode kind tagged tag value anchor alias line column content) lines #
       map (\<lambda>check. check lines) (map validateConfigYAMLNode content))"

text \<open>The mapping of the document, none if there is no text.\<close>

definition parseValidatedConfigRoot :: "yaml_lib \<Rightarrow> string \<Rightarrow> config_error + yaml_node option" where
  "parseValidatedConfigRoot yl raw =
     (if TrimSpace raw = [] then Inr None
      else case yl_first yl raw of
        None \<Rightarrow> Inl InvalidYAML
      | Some document \<Rightarrow>
          if \<not> yl_ends yl raw then Inl NotOneDocument
          else (case yn_Content document of
              [rootNode] \<Rightarrow>
                if yn_Kind rootNode \<noteq> MappingNode then Inl NotAMapping
                else (case validateConfigYAMLNode rootNode (Split (CHR 0x0A) raw) of Some e \<Rightarrow> Inl e | None \<Rightarrow> Inr (Some rootNode))
            | _ \<Rightarrow> Inl NotAMapping))"

section \<open>The settings\<close>

definition boolean_keys :: "string list" where
  "boolean_keys = [''checkin_auto'', ''lifecycle_auto'', ''token_keepalive'', ''activity_auto'', ''travel_auto'']"

definition string_keys :: "string list" where
  "string_keys = [''scheduler_mode'', ''usage_report_url'', ''usage_report_key'']"

fun scalars :: "(string, string) gomap \<Rightarrow> yaml_node list \<Rightarrow> config_error + (string, string) gomap" where
  "scalars vs (key # v # rest) =
     (let k = yn_Value key in
      if yn_Kind key \<noteq> ScalarNode \<or> k \<notin> set boolean_keys \<and> k \<notin> set string_keys then scalars vs rest
      else if yn_Kind v = ScalarNode \<and> yn_Tag v = ''!!null'' then scalars vs rest
      else if yn_Kind v \<noteq> ScalarNode then Inl (MustBeScalar k)
      else if k \<in> set boolean_keys \<and> yn_Tag v \<notin> {''!!bool'', ''!!int'', ''!!str''} then Inl (MustBeBoolean k)
      else if k \<notin> set boolean_keys \<and> yn_Tag v \<noteq> ''!!str'' then Inl (MustBeString k)
      else scalars (gm_put k (TrimSpace (yn_Value v)) vs) rest)"
| "scalars vs _ = Inr vs"

definition parseTopLevelConfigScalars :: "yaml_lib \<Rightarrow> string \<Rightarrow> config_error + (string, string) gomap" where
  "parseTopLevelConfigScalars yl raw = (case parseValidatedConfigRoot yl raw of
      Inl e \<Rightarrow> Inl e
    | Inr None \<Rightarrow> Inr []
    | Inr (Some rootNode) \<Rightarrow> scalars [] (yn_Content rootNode))"

definition enabledConfigValue :: "string \<Rightarrow> bool" where
  "enabledConfigValue value = (ToLower value \<in> {''true'', ''1'', ''yes'', ''on''})"

fun proxy_value :: "string \<Rightarrow> yaml_node list \<Rightarrow> config_error + string" where
  "proxy_value value (key # node # rest) =
     (if yn_Value key \<noteq> ''proxy-url'' then proxy_value value rest
      else if yn_Kind node \<noteq> ScalarNode then Inl (MustBeString ''proxy-url'')
      else if yn_Tag node = ''!!null'' then proxy_value [] rest
      else if yn_Tag node \<noteq> ''!!str'' then Inl (MustBeString ''proxy-url'')
      else proxy_value (yn_Value node) rest)"
| "proxy_value value _ = Inr value"

definition parseProxyURLConfig :: "yaml_lib \<Rightarrow> string \<Rightarrow> config_error + string" where
  "parseProxyURLConfig yl raw = (case parseValidatedConfigRoot yl raw of
      Inl e \<Rightarrow> Inl e
    | Inr None \<Rightarrow> Inr []
    | Inr (Some rootNode) \<Rightarrow> proxy_value [] (yn_Content rootNode))"

section \<open>The features\<close>

text \<open>The line breaks of one byte, U+0085, U+2028 and U+2029.\<close>

definition line_breaks :: "string list" where
  "line_breaks = [[CHR 0x0D], [CHR 0x0A], [CHR 0xC2, CHR 0x85], [CHR 0xE2, CHR 0x80, CHR 0xA8], [CHR 0xE2, CHR 0x80, CHR 0xA9]]"

fun model_entries :: "string list \<Rightarrow> yaml_node list \<Rightarrow> config_error + string list" where
  "model_entries models [] = Inr models"
| "model_entries models (entry # rest) =
     (let mid = TrimSpace (yn_Value entry) in
      if yn_Kind entry \<noteq> ScalarNode \<or> yn_Tag entry \<noteq> ''!!str'' \<or> yn_Tagged entry then Inl ModelNotString
      else if list_ex (\<lambda>r. r \<in> set line_breaks) (runes (yn_Value entry)) then Inl ModelNotOneLine
      else if mid = [] then Inl ModelEmpty
      else if length mid > maxDiscoveredModelIDBytes then Inl ModelTooLong
      else if mid \<in> set models then Inl ModelDuplicated
      else model_entries (models @ [mid]) rest)"

definition normalizedConfiguredModels :: "yaml_node \<Rightarrow> config_error + string list" where
  "normalizedConfiguredModels node =
     (if yn_Kind node = ZeroKind then Inr []
      else if yn_Kind node = ScalarNode \<and> yn_Tag node = ''!!null'' \<and> \<not> yn_Tagged node then Inr []
      else if yn_Kind node \<noteq> SequenceNode \<or> yn_Tag node \<noteq> ''!!seq'' \<or> yn_Tagged node then Inl ModelsNotArray
      else model_entries [] (yn_Content node))"

definition feature_mode :: "string \<Rightarrow> string" where
  "feature_mode raw = (let mode = ToLower (TrimSpace raw) in if mode = [] then oauthClientModeCLI else mode)"

definition features_of :: "featureConfigYAML \<Rightarrow> config_error + featureRuntimeConfig" where
  "features_of doc =
     (let mode = feature_mode (fy_OAuthClientMode doc) in
      if mode \<noteq> oauthClientModeCLI \<and> mode \<noteq> oauthClientModeWorkBuddy then Inl UnknownMode
      else case normalizedDesensitizeTerms (fy_DesensitizeTerms doc) of
        Inl e \<Rightarrow> Inl (BadTerm e)
      | Inr (terms, source) \<Rightarrow>
          (case compileDesensitizeMatcher terms of
             None \<Rightarrow> Inl BadExpression
           | Some matcher \<Rightarrow>
               (case normalizedConfiguredModels (fy_Models doc) of
                  Inl e \<Rightarrow> Inl e
                | Inr models \<Rightarrow> Inr
                    \<lparr>fr_desensitizeEnabled = (fy_Desensitize doc = Some True), fr_desensitizeTerms = terms,
                     fr_desensitizeSource = source, fr_matcher = matcher, fr_oauthClientMode = mode,
                     fr_enterpriseCredits = (fy_EnterpriseCredits doc = Some True), fr_configuredModels = models\<rparr>)))"

definition parseFeatureRuntime :: "yaml_lib \<Rightarrow> string \<Rightarrow> config_error + featureRuntimeConfig" where
  "parseFeatureRuntime yl raw =
     (if TrimSpace raw = [] then features_of zero_features
      else case parseValidatedConfigRoot yl raw of
        Inl e \<Rightarrow> Inl e
      | Inr _ \<Rightarrow> (case yl_features yl raw of None \<Rightarrow> Inl InvalidYAML | Some doc \<Rightarrow> features_of doc))"

section \<open>Configuring\<close>

record plugin_settings =
  ps_checkinAuto :: bool
  ps_lifecycleAuto :: bool
  ps_schedulerMode :: string
  ps_keepaliveAuto :: bool
  ps_activityAuto :: bool
  ps_travelAuto :: bool

record plugin_config =
  pc_settings :: plugin_settings
  pc_proxy :: proxyRoutingState
  pc_features :: "featureRuntimeConfig option"
  pc_runtime :: modelRuntime
  pc_scheduler :: bool

definition setting :: "(string, string) gomap \<Rightarrow> string \<Rightarrow> bool" where
  "setting vs k = (case gm_get vs k of Some v \<Rightarrow> enabledConfigValue v | None \<Rightarrow> True)"

definition settings_of :: "(string, string) gomap \<Rightarrow> plugin_settings" where
  "settings_of vs =
     \<lparr>ps_checkinAuto = setting vs ''checkin_auto'', ps_lifecycleAuto = setting vs ''lifecycle_auto'',
      ps_schedulerMode = (if gm_get vs ''scheduler_mode'' = Some ''credits'' then ''credits'' else schedulerModeOff),
      ps_keepaliveAuto = setting vs ''token_keepalive'', ps_activityAuto = setting vs ''activity_auto'',
      ps_travelAuto = setting vs ''travel_auto''\<rparr>"

definition block_routing :: "plugin_config \<Rightarrow> plugin_config" where
  "block_routing st = st\<lparr>pc_proxy := (proxyModeBlocked, False)\<rparr>"

text \<open>\<open>ensureScheduler\<close> starts the loop once.\<close>

definition ensureScheduler :: "plugin_config \<Rightarrow> plugin_config" where
  "ensureScheduler st = st\<lparr>pc_scheduler := True\<rparr>"

definition configure :: "yaml_lib \<Rightarrow> string \<Rightarrow> plugin_config \<Rightarrow> config_error option \<times> plugin_config" where
  "configure yl raw st =
     (case (if raw = [] then Some [] else yl_request yl raw) of
        None \<Rightarrow> (Some InvalidPluginConfiguration, block_routing st)
      | Some configYAML \<Rightarrow>
          (case parseTopLevelConfigScalars yl configYAML of
             Inl e \<Rightarrow> (Some e, block_routing st)
           | Inr vs \<Rightarrow>
               (case parseProxyURLConfig yl configYAML of
                  Inl e \<Rightarrow> (Some e, block_routing st)
                | Inr url \<Rightarrow>
                    (case parseFeatureRuntime yl configYAML of
                       Inl e \<Rightarrow> (Some e, st)
                     | Inr features \<Rightarrow>
                         (case configureProxy url of (ok, proxy) \<Rightarrow>
                            let st = st\<lparr>pc_proxy := proxy\<rparr> in
                            if \<not> ok then (Some ProxyUnsupported, st)
                            else
                              (let st = ensureScheduler (st\<lparr>pc_settings := settings_of vs\<rparr>) in
                               (None, st\<lparr>pc_features := Some features,
                                  pc_runtime := snd (commitFeatureRuntime (fr_configuredModels features) (pc_runtime st))\<rparr>)))))))"

end
