(* ===== verification/Config_Props.thy ===== *)
theory Config_Props
  imports Config Desensitize_Props
begin

text \<open>
  A configuration is taken as a whole or not at all, does not depend on the order of its entries, and whatever is
  taken is usable: the terms of the desensitiser are accepted and the models are proper identifiers.
\<close>

section \<open>The entries of a checked document\<close>

text \<open>The value of a key, the first one.\<close>

fun entry_of :: "string \<Rightarrow> yaml_node list \<Rightarrow> yaml_node option" where
  "entry_of k (key # v # rest) = (if yn_Value key = k then Some v else entry_of k rest)"
| "entry_of k _ = None"

lemma key_error_keys: "key_error seen content = None \<Longrightarrow> k \<in> set seen \<Longrightarrow> entry_of k content = None"
  by (induction seen content rule: key_error.induct) (auto split: if_splits)

lemma key_error_rest:
  assumes "key_error seen (key # v # rest) = None"
  shows "yn_Kind key = ScalarNode" "entry_of (yn_Value key) rest = None" "key_error (yn_Value key # seen) rest = None"
  using assms key_error_keys [of "yn_Value key # seen" rest "yn_Value key"] by (auto split: if_splits)

definition known_key :: "string \<Rightarrow> bool" where
  "known_key k = (k \<in> set boolean_keys \<or> k \<in> set string_keys)"

definition is_null :: "yaml_node \<Rightarrow> bool" where
  "is_null v = (yn_Kind v = ScalarNode \<and> yn_Tag v = ''!!null'')"

lemma scalars_get:
  assumes "scalars vs content = Inr out" and "key_error seen content = None" and "known_key k"
  shows "gm_get out k = (case entry_of k content of
      None \<Rightarrow> gm_get vs k | Some v \<Rightarrow> if is_null v then gm_get vs k else Some (TrimSpace (yn_Value v)))"
  using assms(1,2)
proof (induction vs content arbitrary: seen rule: scalars.induct)
  case (1 vs key v rest)
  note rest = key_error_rest [OF "1.prems"(2)]
  consider (skip) "\<not> known_key (yn_Value key) \<or> is_null v" "scalars vs rest = Inr out"
    | (put) "known_key (yn_Value key)" "\<not> is_null v" "scalars (gm_put (yn_Value key) (TrimSpace (yn_Value v)) vs) rest = Inr out"
    using "1.prems"(1) rest(1) by (auto simp: Let_def known_key_def is_null_def split: if_splits)
  then show ?case
  proof cases
    case skip
    then have "gm_get out k = (case entry_of k rest of
      None \<Rightarrow> gm_get vs k | Some v \<Rightarrow> if is_null v then gm_get vs k else Some (TrimSpace (yn_Value v)))"
      using "1.IH"(1) [OF refl _ skip(2) rest(3)] "1.IH"(2) [OF refl _ _ skip(2) rest(3)] rest(1)
      by (auto simp: known_key_def is_null_def)
    then show ?thesis using skip(1) assms(3) rest(2) by auto
  next
    case put
    have IH: "gm_get out k = (case entry_of k rest of None \<Rightarrow> gm_get (gm_put (yn_Value key) (TrimSpace (yn_Value v)) vs) k
      | Some w \<Rightarrow> if is_null w then gm_get (gm_put (yn_Value key) (TrimSpace (yn_Value v)) vs) k else Some (TrimSpace (yn_Value w)))"
      using "1.prems"(1) put "1.IH"(3) [OF refl _ _ _ _ _ put(3) rest(3)] rest(1)
      by (auto simp: known_key_def is_null_def Let_def split: if_splits)
    show ?thesis using IH put(2) rest(2) by (cases "yn_Value key = k") (auto split: option.split)
  qed
qed auto

lemma proxy_get:
  "proxy_value dflt content = Inr url \<Longrightarrow> key_error seen content = None \<Longrightarrow>
   url = (case entry_of ''proxy-url'' content of None \<Rightarrow> dflt | Some v \<Rightarrow> if is_null v then [] else yn_Value v)"
proof (induction dflt content arbitrary: seen rule: proxy_value.induct)
  case (1 dflt key node rest)
  note rest = key_error_rest [OF "1.prems"(2)]
  show ?case
    using 1 rest by (cases "yn_Value key = ''proxy-url''") (auto simp: is_null_def split: if_splits)
qed auto

lemma validated:
  assumes "parseValidatedConfigRoot yl raw = Inr (Some rootNode)"
  shows "key_error [] (yn_Content rootNode) = None"
proof -
  have v: "validateConfigYAMLNode rootNode (Split (CHR 0x0A) raw) = None" "yn_Kind rootNode = MappingNode"
    using assms by (auto simp: parseValidatedConfigRoot_def split: if_splits option.splits list.splits)
  then show ?thesis by (cases rootNode) (auto simp: node_error_def split: if_splits option.splits)
qed


section \<open>What is taken\<close>

text \<open>What a document says of a key, nothing if the entry is null.\<close>

definition says :: "yaml_node option \<Rightarrow> string \<Rightarrow> string option" where
  "says mapping k = (case mapping of None \<Rightarrow> None | Some m \<Rightarrow> (case entry_of k (yn_Content m) of
      None \<Rightarrow> None | Some v \<Rightarrow> if is_null v then None else Some (TrimSpace (yn_Value v))))"

lemma scalars_say:
  assumes "parseTopLevelConfigScalars yl raw = Inr vs" and "known_key k"
  shows "\<exists>m. parseValidatedConfigRoot yl raw = Inr m \<and> gm_get vs k = says m k"
proof (cases "parseValidatedConfigRoot yl raw")
  case (Inr m)
  show ?thesis
  proof (cases m)
    case (Some rootNode)
    have "scalars [] (yn_Content rootNode) = Inr vs" using assms(1) Inr Some by (simp add: parseTopLevelConfigScalars_def)
    from scalars_get [OF this validated assms(2)] show ?thesis
      using Inr Some by (auto simp: says_def split: option.split)
  qed (use assms(1) Inr in \<open>simp add: parseTopLevelConfigScalars_def says_def\<close>)
qed (use assms(1) in \<open>simp add: parseTopLevelConfigScalars_def\<close>)

text \<open>The settings of a document as such: a switch is on unless it is set to something else than the words for yes.\<close>

definition switched :: "yaml_node option \<Rightarrow> string \<Rightarrow> bool" where
  "switched m k = (case says m k of None \<Rightarrow> True | Some v \<Rightarrow> ToLower v \<in> {''true'', ''1'', ''yes'', ''on''})"

definition document_settings :: "yaml_node option \<Rightarrow> plugin_settings" where
  "document_settings m =
     \<lparr>ps_checkinAuto = switched m ''checkin_auto'', ps_lifecycleAuto = switched m ''lifecycle_auto'',
      ps_schedulerMode = (if says m ''scheduler_mode'' = Some ''credits'' then ''credits'' else ''off''),
      ps_keepaliveAuto = switched m ''token_keepalive'', ps_activityAuto = switched m ''activity_auto'',
      ps_travelAuto = switched m ''travel_auto''\<rparr>"

lemma settings_say:
  assumes "parseTopLevelConfigScalars yl raw = Inr vs"
  shows "\<exists>m. parseValidatedConfigRoot yl raw = Inr m \<and> settings_of vs = document_settings m"
proof -
  obtain m where m: "parseValidatedConfigRoot yl raw = Inr m"
    using assms by (auto simp: parseTopLevelConfigScalars_def split: sum.splits)
  have get: "gm_get vs k = says m k" if "known_key k" for k using scalars_say [OF assms that] m by simp
  have switch: "setting vs k = switched m k" if "known_key k" for k
    using get [OF that] by (simp add: setting_def switched_def enabledConfigValue_def split: option.split)
  have keys: "known_key ''checkin_auto''" "known_key ''lifecycle_auto''" "known_key ''scheduler_mode''"
    "known_key ''token_keepalive''" "known_key ''activity_auto''" "known_key ''travel_auto''" by code_simp+
  show ?thesis
    using m get [OF keys(3)] switch [OF keys(1)] switch [OF keys(2)] switch [OF keys(4)] switch [OF keys(5)] switch [OF keys(6)]
    by (simp add: settings_of_def document_settings_def schedulerModeOff_def)
qed

lemma configured:
  assumes "configure yl raw st = (None, st')"
  obtains doc vs features where "(if raw = [] then Some [] else yl_request yl raw) = Some doc"
    "parseTopLevelConfigScalars yl doc = Inr vs" "parseProxyURLConfig yl doc = Inr []" "parseFeatureRuntime yl doc = Inr features"
    "st' = st\<lparr>pc_proxy := (proxyModeInherit, False), pc_settings := settings_of vs, pc_scheduler := True,
       pc_features := Some features, pc_runtime := snd (commitFeatureRuntime (fr_configuredModels features) (pc_runtime st))\<rparr>"
  using assms by (auto simp: configure_def configureProxy_def ensureScheduler_def Let_def split: option.splits sum.splits if_splits)

lemma configure_error:
  assumes "configure yl raw st = (Some e, st')"
  shows "st' = st \<or> st' = st\<lparr>pc_proxy := (proxyModeBlocked, False)\<rparr>"
  using assms by (auto simp: configure_def block_routing_def configureProxy_def Let_def split: option.splits sum.splits if_splits)

text \<open>
  The features of a document: the switches that it sets, the terms that it lists or the default ones, normalised and
  compiled, the mode of the login in lower case, and the models that it lists, trimmed and in their order.
\<close>

definition document_features :: "featureConfigYAML \<Rightarrow> featureRuntimeConfig \<Rightarrow> bool" where
  "document_features doc f = (
     (fr_desensitizeEnabled f \<longleftrightarrow> fy_Desensitize doc = Some True) \<and>
     (fr_enterpriseCredits f \<longleftrightarrow> fy_EnterpriseCredits doc = Some True) \<and>
     fr_oauthClientMode f = (if TrimSpace (fy_OAuthClientMode doc) = [] then ''cli'' else ToLower (TrimSpace (fy_OAuthClientMode doc))) \<and>
     fr_oauthClientMode f \<in> {''cli'', ''workbuddy''} \<and>
     normalizedDesensitizeTerms (fy_DesensitizeTerms doc) = Inr (fr_desensitizeTerms f, fr_desensitizeSource f) \<and>
     compileDesensitizeMatcher (fr_desensitizeTerms f) = Some (fr_matcher f) \<and>
     fr_configuredModels f = (if yn_Kind (fy_Models doc) = SequenceNode
       then map (\<lambda>entry. TrimSpace (yn_Value entry)) (yn_Content (fy_Models doc)) else []))"

lemma model_entries_all: "model_entries models es = Inr out \<Longrightarrow> out = models @ map (\<lambda>entry. TrimSpace (yn_Value entry)) es"
  by (induction models es rule: model_entries.induct) (auto simp: Let_def split: if_splits)

lemma features_say:
  assumes "features_of doc = Inr f"
  shows "document_features doc f"
proof -
  have mode: "(ToLower s = []) = (s = [])" for s by (simp add: ToLower_def)
  have models: "ms = (if yn_Kind node = SequenceNode then map (\<lambda>entry. TrimSpace (yn_Value entry)) (yn_Content node) else [])"
    if "normalizedConfiguredModels node = Inr ms" for node ms
    using that model_entries_all [of "[]" "yn_Content node" ms]
    by (auto simp: normalizedConfiguredModels_def split: if_splits)
  show ?thesis
    using assms
    by (auto simp: features_of_def document_features_def feature_mode_def Let_def mode oauthClientModeCLI_def
        oauthClientModeWorkBuddy_def dest!: models split: if_splits sum.splits option.splits prod.splits)
qed

lemma runtime_features:
  assumes "parseFeatureRuntime yl raw = Inr f"
  obtains doc where "(if TrimSpace raw = [] then Some zero_features else yl_features yl raw) = Some doc" "document_features doc f"
  using assms features_say by (auto simp: parseFeatureRuntime_def split: if_splits sum.splits option.splits)

text \<open>
  (C36) A configuration takes effect as a whole or not at all. After an error every setting, the features, the generation of
  the models and the task loop are as before, and at most the routing is blocked. Without an error routing is open, the
  loop runs, all settings are those of the document with the defaults for what it does not say, the features in force are
  those that the document decodes to, with its models as the configured ones, and the generation has moved by one.
\<close>

theorem configure_atomic:
  assumes "configure yl raw st = (r, st')"
  shows "(r \<noteq> None \<longrightarrow> st' = st\<lparr>pc_proxy := pc_proxy st'\<rparr> \<and> pc_proxy st' \<in> {pc_proxy st, (proxyModeBlocked, False)}) \<and>
    (r = None \<longrightarrow> pc_proxy st' = (proxyModeInherit, False) \<and> pc_scheduler st' \<and>
       (\<exists>doc m fy f. (if raw = [] then Some [] else yl_request yl raw) = Some doc \<and> parseValidatedConfigRoot yl doc = Inr m \<and>
          pc_settings st' = document_settings m \<and>
          (if TrimSpace doc = [] then Some zero_features else yl_features yl doc) = Some fy \<and> document_features fy f \<and>
          pc_features st' = Some f \<and>
          pc_runtime st' = (pc_runtime st)\<lparr>mr_configured := fr_configuredModels f, mr_config := mr_config (pc_runtime st) + 1\<rparr>))"
proof (cases r)
  case (Some e)
  then show ?thesis using configure_error [OF assms [unfolded Some]] by auto
next
  case None
  from assms [unfolded None] obtain doc vs features where c: "(if raw = [] then Some [] else yl_request yl raw) = Some doc"
    "parseTopLevelConfigScalars yl doc = Inr vs" "parseFeatureRuntime yl doc = Inr features"
    "st' = st\<lparr>pc_proxy := (proxyModeInherit, False), pc_settings := settings_of vs, pc_scheduler := True,
       pc_features := Some features, pc_runtime := snd (commitFeatureRuntime (fr_configuredModels features) (pc_runtime st))\<rparr>"
    by (rule configured) (rule that)
  obtain m where "parseValidatedConfigRoot yl doc = Inr m" "settings_of vs = document_settings m"
    using settings_say [OF c(2)] by blast
  moreover obtain fy where "(if TrimSpace doc = [] then Some zero_features else yl_features yl doc) = Some fy" "document_features fy features"
    using c(3) by (rule runtime_features)
  moreover have "pc_proxy st' = (proxyModeInherit, False)" "pc_scheduler st'" "pc_settings st' = settings_of vs"
    "pc_features st' = Some features"
    "pc_runtime st' = (pc_runtime st)\<lparr>mr_configured := fr_configuredModels features, mr_config := mr_config (pc_runtime st) + 1\<rparr>"
    by (simp_all add: c(4) commitFeatureRuntime_def)
  ultimately show ?thesis using None c(1)
    by (intro conjI impI exI [of _ doc] exI [of _ m] exI [of _ fy] exI [of _ features]) simp_all
qed

definition scalar :: "string \<Rightarrow> yaml_node" where
  "scalar v = YNode ScalarNode False ''!!str'' v [] False 1 1 []"

definition demo_yaml :: yaml_lib where
  "demo_yaml = \<lparr>yl_first = \<lambda>s. Some (YNode DocumentNode False [] [] [] False 1 1
       [YNode MappingNode False ''!!map'' [] [] False 1 1 [scalar ''checkin_auto'', scalar '' Off'', scalar ''scheduler_mode'', scalar ''credits'']]),
     yl_ends = \<lambda>s. True, yl_features = \<lambda>s. Some (zero_features\<lparr>fy_DesensitizeTerms := Some []\<rparr>), yl_request = Some\<rparr>"

theorem configure_atomic_witness:
  "\<forall>st. \<exists>st'. configure demo_yaml ''x'' st = (None, st') \<and> \<not> ps_checkinAuto (pc_settings st') \<and>
     ps_schedulerMode (pc_settings st') = ''credits'' \<and> ps_travelAuto (pc_settings st')"
proof
  fix st
  have p: "parseTopLevelConfigScalars demo_yaml ''x'' = Inr [(''checkin_auto'', ''Off''), (''scheduler_mode'', ''credits'')]"
    "parseProxyURLConfig demo_yaml ''x'' = Inr []"
    by code_simp+
  have "case parseFeatureRuntime demo_yaml ''x'' of Inr f \<Rightarrow> True | Inl e \<Rightarrow> False" by code_simp
  then obtain f where f: "parseFeatureRuntime demo_yaml ''x'' = Inr f" by (auto split: sum.splits)
  have req: "yl_request demo_yaml ''x'' = Some ''x''" by (simp add: demo_yaml_def)
  obtain st' where st': "configure demo_yaml ''x'' st = (None, st')"
    using p f req by (simp add: configure_def configureProxy_def Let_def)
  obtain doc m where m: "(if ''x'' = [] then Some [] else yl_request demo_yaml ''x'') = Some doc"
    "parseValidatedConfigRoot demo_yaml doc = Inr m" "pc_settings st' = document_settings m"
    using configure_atomic [OF st'] by blast
  have doc: "doc = ''x''" using m(1) req by simp
  have "case parseValidatedConfigRoot demo_yaml ''x'' of Inr m \<Rightarrow>
      \<not> ps_checkinAuto (document_settings m) \<and> ps_schedulerMode (document_settings m) = ''credits'' \<and> ps_travelAuto (document_settings m)
    | Inl e \<Rightarrow> False" by code_simp
  with st' m(2,3) show "\<exists>st'. configure demo_yaml ''x'' st = (None, st') \<and> \<not> ps_checkinAuto (pc_settings st') \<and>
     ps_schedulerMode (pc_settings st') = ''credits'' \<and> ps_travelAuto (pc_settings st')" by (simp add: doc)
qed

section \<open>What is usable\<close>

definition proper_model :: "string \<Rightarrow> bool" where
  "proper_model m = (m \<noteq> [] \<and> TrimSpace m = m \<and> length m \<le> maxDiscoveredModelIDBytes)"

definition proper_models :: "string list \<Rightarrow> bool" where
  "proper_models ms = (distinct ms \<and> list_all proper_model ms)"

lemma model_entries_ok: "model_entries models es = Inr out \<Longrightarrow> proper_models models \<Longrightarrow> proper_models out"
proof (induction models es rule: model_entries.induct)
  case (2 models entry rest)
  let ?m = "TrimSpace (yn_Value entry)"
  have new: "model_entries (models @ [?m]) rest = Inr out" "?m \<noteq> []" "\<not> length ?m > maxDiscoveredModelIDBytes" "?m \<notin> set models"
    using 2(2) by (simp_all add: Let_def split: if_splits)
  have "TrimSpace ?m = ?m" by (rule TrimSpace_idem)
  with new(2-4) 2(3) have "proper_models (models @ [?m])" by (simp add: proper_models_def proper_model_def)
  then show ?case using 2 new by (simp add: Let_def split: if_splits)
qed simp

lemma features_ok:
  assumes "features_of doc = Inr cfg"
  shows "accepted cfg \<and> proper_models (fr_configuredModels cfg) \<and> fr_oauthClientMode cfg \<in> {oauthClientModeCLI, oauthClientModeWorkBuddy}"
proof -
  obtain terms source m models where t: "normalizedDesensitizeTerms (fy_DesensitizeTerms doc) = Inr (terms, source)"
      "compileDesensitizeMatcher terms = Some m" "normalizedConfiguredModels (fy_Models doc) = Inr models"
      "fr_matcher cfg = m" "fr_configuredModels cfg = models"
      "fr_oauthClientMode cfg \<in> {oauthClientModeCLI, oauthClientModeWorkBuddy}"
    using assms by (auto simp: features_of_def Let_def split: if_splits sum.splits option.splits prod.splits)
  have "proper_models models"
    using t(3) model_entries_ok [of "[]" "yn_Content (fy_Models doc)" models]
    by (auto simp: normalizedConfiguredModels_def proper_models_def split: if_splits)
  moreover have "accepted cfg" using t(1,2,4) by (auto simp: accepted_def)
  ultimately show ?thesis using t(5,6) by simp
qed

definition features_usable :: "plugin_config \<Rightarrow> bool" where
  "features_usable st = (\<forall>cfg. pc_features st = Some cfg \<longrightarrow> accepted cfg \<and> proper_models (fr_configuredModels cfg) \<and>
     fr_oauthClientMode cfg \<in> {oauthClientModeCLI, oauthClientModeWorkBuddy})"

definition configure_run :: "yaml_lib \<Rightarrow> string list \<Rightarrow> plugin_config \<Rightarrow> plugin_config" where
  "configure_run yl raws st = foldl (\<lambda>st raw. snd (configure yl raw st)) st raws"

lemma configure_usable:
  assumes "features_usable st"
  shows "features_usable (snd (configure yl raw st))"
proof (cases "configure yl raw st")
  case (Pair r st')
  show ?thesis
  proof (cases r)
    case (Some e)
    have "pc_features st' = pc_features st" using configure_error [OF Pair [unfolded Some]] by auto
    then show ?thesis using assms Pair by (simp add: features_usable_def)
  next
    case None
    from Pair [unfolded None] obtain doc features where c: "parseFeatureRuntime yl doc = Inr features" "pc_features st' = Some features"
      by (rule configured) (rule that, assumption, simp)
    then have "\<exists>y. features_of y = Inr features"
      by (auto simp: parseFeatureRuntime_def split: if_splits sum.splits option.splits)
    then show ?thesis using features_ok c(2) Pair None by (auto simp: features_usable_def)
  qed
qed

text \<open>
  Whatever configurations the host sends, one after the other and whether they are taken or not: the features in force
  have terms for which the desensitiser ends, distinct proper models and a known login mode.
\<close>

theorem configured_usable:
  assumes "features_usable st"
  shows "features_usable (configure_run yl raws st)"
  using assms by (induction raws arbitrary: st) (simp_all add: configure_run_def configure_usable)

theorem configured_usable_witness:
  "\<forall>st. features_usable (configure_run demo_yaml [''x'', ''y''] (st\<lparr>pc_features := None\<rparr>))"
  by (intro allI configured_usable) (simp add: features_usable_def)

end
