(* ===== verification/Aliases.thy ===== *)
theory Aliases
  imports Auth_File Model_Readiness
begin

text \<open>
  The names of models between the host and the upstream, after \<^verbatim>\<open>src/plugin/models.go\<close>: aliases from the host's
  configuration and from the attributes of an account, and the models that the host excludes. Decoding JSON is the
  argument \<open>alias_json\<close>; a \<open>range\<close> over a map goes in the order of the list.
\<close>

section \<open>The host's configuration\<close>

text \<open>An entry is a name and its alias.\<close>

type_synonym alias_entry = "string \<times> string"

record HostConfigSummary =
  hs_OAuthModelAlias :: "(string, alias_entry list) gomap"
  hs_ExcludedModels :: "(string, string list) gomap"

text \<open>The channel of the provider by its name, or the first whose name is the same but for case and blanks.\<close>

definition channel :: "(string, 'a list) gomap \<Rightarrow> 'a list" where
  "channel m =
     (let own = (case gm_get m providerName of Some es \<Rightarrow> es | None \<Rightarrow> []) in
      if own \<noteq> [] then own
      else case find (\<lambda>(c, es). EqualFold (TrimSpace c) providerName) m of Some (c, es) \<Rightarrow> es | None \<Rightarrow> [])"

definition add_alias :: "string \<Rightarrow> string \<Rightarrow> (string, string) gomap \<Rightarrow> (string, string) gomap" where
  "add_alias name alias m =
     (let name = TrimSpace name; alias = TrimSpace alias in
      if name = [] \<or> alias = [] \<or> EqualFold name alias then m else gm_put (ToLower alias) name m)"

definition add_aliases :: "alias_entry list \<Rightarrow> (string, string) gomap \<Rightarrow> (string, string) gomap" where
  "add_aliases es m = foldl (\<lambda>m (name, alias). add_alias name alias m) m es"

definition cacheModelAliases :: "HostConfigSummary \<Rightarrow> (string, string) gomap" where
  "cacheModelAliases host = add_aliases (channel (hs_OAuthModelAlias host)) []"

section \<open>Aliases of an account\<close>

record alias_json =
  al_list :: "string \<Rightarrow> alias_entry list option"
  al_map :: "string \<Rightarrow> (string, string) gomap option"

definition alias_keys :: "string list" where
  "alias_keys = [''model_alias'', ''model-alias'', ''oauth-model-alias'']"

definition attribute :: "(string, string) gomap \<Rightarrow> string \<Rightarrow> string" where
  "attribute m k = (case gm_get m k of Some v \<Rightarrow> TrimSpace v | None \<Rightarrow> [])"

text \<open>A pair that is split at its first equals sign, name and alias.\<close>

definition alias_pair :: "string \<Rightarrow> alias_entry option" where
  "alias_pair pair =
     (if CHR ''='' \<notin> set pair then None
      else Some (tl (dropWhile (\<lambda>c. c \<noteq> CHR ''='') pair), takeWhile (\<lambda>c. c \<noteq> CHR ''='') pair))"

definition alias_entries :: "alias_json \<Rightarrow> string \<Rightarrow> alias_entry list" where
  "alias_entries lib raw =
     (case (if HasPrefix raw [CHR 0x5B] then al_list lib raw else None) of
        Some es \<Rightarrow> es
      | None \<Rightarrow>
          (case (if HasPrefix raw [CHR 0x7B] then al_map lib raw else None) of
             Some m \<Rightarrow> map (\<lambda>(alias, name). (name, alias)) m
           | None \<Rightarrow> List.map_filter alias_pair (Split CHR '','' raw)))"

definition parseModelAliasAttribute :: "alias_json \<Rightarrow> (string, string) gomap \<Rightarrow> (string, string) gomap" where
  "parseModelAliasAttribute lib attributes =
     (case filter (\<lambda>v. v \<noteq> []) (map (attribute attributes) alias_keys) of
        [] \<Rightarrow> []
      | raw # _ \<Rightarrow> add_aliases (alias_entries lib raw) [])"

definition resolveUpstreamModel :: "alias_json \<Rightarrow> (string, string) gomap \<Rightarrow> string \<Rightarrow> (string, string) gomap \<Rightarrow> string" where
  "resolveUpstreamModel lib byAlias model attributes =
     (let m = TrimSpace model; key = ToLower m in
      if m = [] then model
      else case gm_get (parseModelAliasAttribute lib attributes) key of
        Some name \<Rightarrow> name
      | None \<Rightarrow> (case gm_get byAlias key of Some name \<Rightarrow> name | None \<Rightarrow> m))"

section \<open>Listing models\<close>

definition filterExcludedModels :: "modelInfo list \<Rightarrow> HostConfigSummary \<Rightarrow> modelInfo list" where
  "filterExcludedModels models host =
     (let excluded = channel (hs_ExcludedModels host) in
      if excluded = [] then models
      else filter (\<lambda>m. ToLower (mi_ID m) \<notin> set (map (\<lambda>x. ToLower (TrimSpace x)) excluded)) models)"

definition wbModels :: "modelInfo list" where
  "wbModels = [defaultModelInfo ''auto'' []]"

text \<open>The models that are answered and the aliases afterwards.\<close>

definition handleModelStatic :: "HostConfigSummary \<Rightarrow> modelInfo list \<times> (string, string) gomap" where
  "handleModelStatic host = (filterExcludedModels wbModels host, cacheModelAliases host)"

definition handleModelForAuth :: "HostConfigSummary \<Rightarrow> modelReadinessSnapshot \<Rightarrow> modelInfo list \<times> (string, string) gomap" where
  "handleModelForAuth host snap =
     ((if executable (rs_State snap) then filterExcludedModels (rs_Models snap) host else []), cacheModelAliases host)"

section \<open>Properties\<close>

lemma add_aliases_get:
  "gm_get (add_aliases es m) k =
    (case find (\<lambda>(n, a). TrimSpace n \<noteq> [] \<and> TrimSpace a \<noteq> [] \<and> \<not> EqualFold (TrimSpace n) (TrimSpace a) \<and> ToLower (TrimSpace a) = k) (rev es) of
       Some (n, a) \<Rightarrow> Some (TrimSpace n) | None \<Rightarrow> gm_get m k)"
proof (induction es rule: rev_induct)
  case (snoc e es)
  obtain n a where "e = (n, a)" by force
  with snoc show ?case by (auto simp: add_aliases_def add_alias_def Let_def)
qed (simp add: add_aliases_def)

text \<open>The entries that count, and the last of them for an alias.\<close>

definition names :: "alias_entry list \<Rightarrow> string \<Rightarrow> string option" where
  "names es alias = (case find (\<lambda>(n, a). TrimSpace n \<noteq> [] \<and> TrimSpace a \<noteq> [] \<and> \<not> EqualFold (TrimSpace n) (TrimSpace a) \<and>
      EqualFold (TrimSpace a) alias) (rev es) of Some (n, a) \<Rightarrow> Some (TrimSpace n) | None \<Rightarrow> None)"

lemma add_aliases_names: "gm_get (add_aliases es []) (ToLower alias) = names es alias"
  by (simp add: add_aliases_get names_def EqualFold_def split: option.split)

text \<open>
  A model resolves to the name that the account's own aliases give it, else to the one that the host's give it, else to
  itself without blanks; the last entry for an alias counts, in any capitalisation, and the result is never blank for a
  model that is not.
\<close>

theorem alias_resolution:
  assumes "TrimSpace model \<noteq> []"
    and "filter (\<lambda>v. v \<noteq> []) (map (attribute attributes) alias_keys) = raws"
    and "own = (case raws of [] \<Rightarrow> [] | raw # _ \<Rightarrow> alias_entries lib raw)"
  shows "resolveUpstreamModel lib (cacheModelAliases host) model attributes =
      (case names own (TrimSpace model) of Some n \<Rightarrow> n
       | None \<Rightarrow> (case names (channel (hs_OAuthModelAlias host)) (TrimSpace model) of Some n \<Rightarrow> n | None \<Rightarrow> TrimSpace model)) \<and>
    resolveUpstreamModel lib (cacheModelAliases host) model attributes \<noteq> []"
proof -
  have "parseModelAliasAttribute lib attributes = add_aliases own []"
    using assms(2,3) by (simp add: parseModelAliasAttribute_def add_aliases_def split: list.split)
  then have eq: "resolveUpstreamModel lib (cacheModelAliases host) model attributes =
      (case names own (TrimSpace model) of Some n \<Rightarrow> n
       | None \<Rightarrow> (case names (channel (hs_OAuthModelAlias host)) (TrimSpace model) of Some n \<Rightarrow> n | None \<Rightarrow> TrimSpace model))"
    using assms(1) by (simp add: resolveUpstreamModel_def Let_def cacheModelAliases_def add_aliases_names split: option.split)
  have "names es a \<noteq> Some []" for es a
  proof
    define P where "P = (\<lambda>(n, a'). TrimSpace n \<noteq> [] \<and> TrimSpace a' \<noteq> [] \<and> \<not> EqualFold (TrimSpace n) (TrimSpace a') \<and>
      EqualFold (TrimSpace a') a)"
    assume "names es a = Some []"
    then obtain n a' where "find P (rev es) = Some (n, a')" "TrimSpace n = []"
      by (auto simp: names_def P_def split: option.splits)
    then show False using find_Some_iff [of P "rev es" "(n, a')"] by (auto simp: P_def)
  qed
  then show ?thesis unfolding eq using assms(1) by (auto split: option.split)
qed

theorem alias_resolution_witness:
  "resolveUpstreamModel \<lparr>al_list = \<lambda>_. None, al_map = \<lambda>_. None\<rparr>
     (cacheModelAliases \<lparr>hs_OAuthModelAlias = [('' WorkBuddy'', [(''hy3'', ''Fast''), (''glm-5.3'', ''fast '')])], hs_ExcludedModels = []\<rparr>)
     ''FAST'' [] = ''glm-5.3''"
proof -
  let ?host = "\<lparr>hs_OAuthModelAlias = [('' WorkBuddy'', [(''hy3'', ''Fast''), (''glm-5.3'', ''fast '')])], hs_ExcludedModels = []\<rparr>"
  have h: "TrimSpace ''FAST'' \<noteq> []" "filter (\<lambda>v. v \<noteq> []) (map (attribute []) alias_keys) = []"
    "names [] (TrimSpace ''FAST'') = None" "names (channel (hs_OAuthModelAlias ?host)) (TrimSpace ''FAST'') = Some ''glm-5.3''"
    by code_simp+
  show ?thesis using alias_resolution [OF h(1,2) refl, of "\<lparr>al_list = \<lambda>_. None, al_map = \<lambda>_. None\<rparr>" ?host] h(3,4) by simp
qed

text \<open>
  What is listed for an account are models of a snapshot that can serve, in their order, without those that the host
  excludes.
\<close>

theorem listed_models:
  "set (fst (handleModelForAuth host snap)) =
    {m \<in> set (rs_Models snap). executable (rs_State snap) \<and> (\<forall>x \<in> set (channel (hs_ExcludedModels host)). \<not> EqualFold (mi_ID m) (TrimSpace x))}"
  by (auto simp: handleModelForAuth_def filterExcludedModels_def Let_def EqualFold_def)

end
