(* ===== verification/Auth_Store_Props.thy ===== *)
theory Auth_Store_Props
  imports Auth_Store Codec
begin

text \<open>
  A credential that is saved is read back as it was; a file holds the old or the new credential whichever step of the
  saving fails; and loading a directory migrates it once.
\<close>

section \<open>Decoding what is encoded\<close>

lemma field_None: "foldl (\<lambda>acc (k, v). case acc of None \<Rightarrow> None | Some x \<Rightarrow> if EqualFold k name then f x v else Some x) None obj = None"
  by (induction obj) auto

lemma field_Nil: "field f name z [] = Some z"
  by (simp add: field_def)

lemma field_Cons: "field f name z ((k, v) # obj) =
    (if EqualFold k name then (case f z v of None \<Rightarrow> None | Some y \<Rightarrow> field f name y obj) else field f name z obj)"
  by (simp add: field_def field_None split: option.split)

definition member_names :: "string list" where
  "member_names = [''accessToken'', ''refreshToken'', ''expiresAt'', ''domain'', ''realm'', ''uid'', ''enterpriseId'', ''nickname'',
     ''auth'', ''account'', ''device_token'']"

lemma names_fold: "a \<in> set member_names \<Longrightarrow> b \<in> set member_names \<Longrightarrow> EqualFold a b \<longleftrightarrow> a = b"
proof -
  have "list_all (\<lambda>a. list_all (\<lambda>b. EqualFold a b = (a = b)) member_names) member_names" by code_simp
  then show "a \<in> set member_names \<Longrightarrow> b \<in> set member_names \<Longrightarrow> EqualFold a b \<longleftrightarrow> a = b" by (simp add: list_all_iff)
qed

lemmas decode_simps = field_Cons field_Nil names_fold member_names_def

definition int64_ok :: "auth \<Rightarrow> bool" where
  "int64_ok a = (- (2 ^ 63) \<le> a_ExpiresAt a \<and> a_ExpiresAt a < 2 ^ 63)"

lemma nested_saved:
  assumes "int64_ok a"
  shows "nested_auth (saved_document a) = Some (a\<lparr>a_FilePath := []\<rparr>)"
proof -
  define inner where "inner = [(''accessToken'', JStr (a_AccessToken a)), (''refreshToken'', JStr (a_RefreshToken a)),
         (''expiresAt'', JNum (of_int (a_ExpiresAt a))), (''domain'', JStr (a_Domain a)), (''realm'', JStr (a_realm a))]"
  define account where "account = [(''uid'', JStr (a_UID a)), (''enterpriseId'', JStr (a_EnterpriseID a)), (''nickname'', JStr (a_Nickname a))]"
  have doc: "saved_document a = [(''auth'', JObj inner), (''account'', JObj account)] @
     (if a_DeviceToken a \<noteq> [] then [(''device_token'', JStr (a_DeviceToken a))] else [])"
    by (simp add: saved_document_def inner_def account_def)
  have parts: "field into_members ''auth'' [] (saved_document a) = Some inner"
    "field into_members ''account'' [] (saved_document a) = Some account"
    "field into_string ''device_token'' [] (saved_document a) = Some (a_DeviceToken a)"
    by (simp_all add: doc decode_simps)
  have "auth_fields inner zero_auth = Some (zero_auth\<lparr>a_AccessToken := a_AccessToken a, a_RefreshToken := a_RefreshToken a,
      a_ExpiresAt := a_ExpiresAt a, a_Domain := a_Domain a, a_realm := a_realm a\<rparr>)"
    using assms by (simp add: auth_fields_def inner_def decode_simps int64_ok_def)
  moreover have "account_fields account b = Some (b\<lparr>a_UID := a_UID a, a_EnterpriseID := a_EnterpriseID a, a_Nickname := a_Nickname a\<rparr>)" for b
    by (simp add: account_fields_def account_def decode_simps)
  ultimately show ?thesis using parts by (simp add: nested_auth_def device_field_def zero_auth_def)
qed

text \<open>The text of a credential, and that the codec keeps it.\<close>

definition kept :: "json_text \<Rightarrow> auth \<Rightarrow> string \<Rightarrow> bool" where
  "kept lib a raw = (raw \<noteq> [] \<and> MarshalAny lib (JObj (saved_document a)) = Some raw \<and>
     UnmarshalAny lib raw = Some (JObj (saved_document a)))"

lemma parse_saved:
  assumes "kept lib a raw" and "int64_ok a" and "TrimSpace (a_AccessToken a) \<noteq> []"
  shows "Parse lib raw = Inr (a\<lparr>a_FilePath := []\<rparr>)"
proof -
  have "gm_get (saved_document a) ''auth'' \<noteq> None" by (simp add: saved_document_def)
  then show ?thesis using assms nested_saved [OF assms(2)] by (simp add: Parse_def kept_def)
qed

section \<open>Saving\<close>

lemma tmp_other: "f @ ''.tmp'' \<noteq> f"
  by simp

lemma save_get:
  "gm_get (snd (SaveAtomic lib si a d)) g =
    (if TrimSpace (a_AccessToken a) = [] \<or> a_FilePath a = [] then gm_get d g
     else case MarshalAny lib (JObj (saved_document a)) of None \<Rightarrow> gm_get d g
     | Some raw \<Rightarrow>
        if si_write si = Written \<and> si_rename si
        then (if g = a_FilePath a then Some raw else if g = a_FilePath a @ ''.tmp'' then None else gm_get d g)
        else if g = a_FilePath a @ ''.tmp'' then gm_get (write_file (si_write si) g raw d) g else gm_get d g)"
  by (auto simp: SaveAtomic_def write_file_def Let_def gm_get_del tmp_other split: option.split write_result.split)

text \<open>
  Saving is atomic: whichever step fails, and however much of the temporary file was written, the file has its old
  content, and without an error the whole new one, which reads as the credential; no file but the temporary one
  changes.
\<close>

theorem save_atomic:
  assumes "SaveAtomic lib si a d = (r, d')" and "kept lib a raw" and "int64_ok a"
  shows "(r \<noteq> None \<longrightarrow> gm_get d' (a_FilePath a) = gm_get d (a_FilePath a)) \<and>
    (r = None \<longrightarrow> gm_get d' (a_FilePath a) = Some raw \<and> Parse lib raw = Inr (a\<lparr>a_FilePath := []\<rparr>)) \<and>
    (\<forall>g. g \<noteq> a_FilePath a \<longrightarrow> g \<noteq> a_FilePath a @ ''.tmp'' \<longrightarrow> gm_get d' g = gm_get d g)"
proof -
  have d': "gm_get d' g = gm_get (snd (SaveAtomic lib si a d)) g" for g using assms(1) by simp
  have r: "r = None \<longleftrightarrow> TrimSpace (a_AccessToken a) \<noteq> [] \<and> a_FilePath a \<noteq> [] \<and> si_write si = Written \<and> si_rename si"
    using assms(1,2) by (auto simp: SaveAtomic_def kept_def Let_def split: if_splits)
  have m: "MarshalAny lib (JObj (saved_document a)) = Some raw" using assms(2) by (simp add: kept_def)
  show ?thesis using r parse_saved [OF assms(2,3)] by (auto simp: d' save_get m tmp_other)
qed

theorem save_atomic_witness:
  "\<exists>d'. SaveAtomic unary \<lparr>si_write = Partly ''{'', si_rename = True\<rparr> (zero_auth\<lparr>a_AccessToken := ''t'', a_FilePath := ''f''\<rparr>) [(''f'', ''old'')] =
     (Some WriteFailed, d') \<and> gm_get d' ''f'' = Some ''old''"
proof -
  let ?a = "zero_auth\<lparr>a_AccessToken := ''t'', a_FilePath := ''f''\<rparr>"
  have t: "TrimSpace ''t'' = ''t''" by code_simp
  obtain d' where d': "SaveAtomic unary \<lparr>si_write = Partly ''{'', si_rename = True\<rparr> ?a [(''f'', ''old'')] = (Some WriteFailed, d')"
    using t by (simp add: SaveAtomic_def zero_auth_def Let_def)
  have "kept unary ?a (unary_text (JObj (saved_document ?a)))" "int64_ok ?a" by (simp_all add: kept_def int64_ok_def zero_auth_def)
  from save_atomic [OF d' this] d' show ?thesis by (simp add: zero_auth_def)
qed

section \<open>Loading\<close>

lemma field_range: "field into_int64 name z obj = Some x \<Longrightarrow> - (2 ^ 63) \<le> z \<and> z < 2 ^ 63 \<Longrightarrow> - (2 ^ 63) \<le> x \<and> x < 2 ^ 63"
proof (induction obj arbitrary: z)
  case (Cons kv obj)
  obtain k v where kv: "kv = (k, v)" by force
  show ?case
  proof (cases "EqualFold k name")
    case True
    then obtain y where y: "into_int64 z v = Some y" "field into_int64 name y obj = Some x"
      using Cons.prems(1) by (auto simp: kv field_Cons split: option.splits)
    have "- (2 ^ 63) \<le> y \<and> y < 2 ^ 63" using y(1) Cons.prems(2) by (cases v) (auto split: if_splits)
    then show ?thesis using Cons.IH y(2) by blast
  next
    case False
    then show ?thesis using Cons by (simp add: kv field_Cons)
  qed
qed (simp add: field_Nil)

lemma auth_fields_range: "auth_fields obj zero_auth = Some a \<Longrightarrow> int64_ok a"
proof -
  assume h: "auth_fields obj zero_auth = Some a"
  then have "field into_int64 ''expiresAt'' 0 obj = Some (a_ExpiresAt a)"
    by (auto simp: auth_fields_def split: option.splits)
  from field_range [OF this] show "int64_ok a" by (simp add: int64_ok_def)
qed

lemma other_fields: "account_fields obj a = Some b \<Longrightarrow> a_ExpiresAt b = a_ExpiresAt a" "device_field obj a = Some b \<Longrightarrow> a_ExpiresAt b = a_ExpiresAt a"
  by (auto simp: account_fields_def device_field_def split: option.splits)

lemma parse_range: "Parse lib raw = Inr a \<Longrightarrow> int64_ok a \<and> TrimSpace (a_AccessToken a) \<noteq> []"
proof -
  assume h: "Parse lib raw = Inr a"
  have "\<exists>obj. nested_auth obj = Some a \<or> flat_auth obj = Some a" and token: "TrimSpace (a_AccessToken a) \<noteq> []"
    using h by (auto simp: Parse_def split: if_splits option.splits)
  then obtain obj where obj: "nested_auth obj = Some a \<or> flat_auth obj = Some a" by blast
  have "nested_auth obj = Some a \<Longrightarrow> int64_ok a" "flat_auth obj = Some a \<Longrightarrow> int64_ok a"
    using auth_fields_range other_fields by (fastforce simp: nested_auth_def flat_auth_def int64_ok_def bind_eq_Some_conv)+
  with obj token show "int64_ok a \<and> TrimSpace (a_AccessToken a) \<noteq> []" by blast
qed

text \<open>What a pass over one file does: the account, and the file it leaves.\<close>

definition saves :: save_io where
  "saves = \<lparr>si_write = Written, si_rename = True\<rparr>"

definition codec :: "json_text \<Rightarrow> bool" where
  "codec lib = (\<forall>a. int64_ok a \<longrightarrow> (\<exists>raw. kept lib a raw))"

text \<open>The account with its path, and the realm it is given if it names none.\<close>

definition with_realm :: "string \<Rightarrow> auth \<Rightarrow> auth" where
  "with_realm f a = a\<lparr>a_FilePath := f, a_realm := ResolveRealm [] (a_Domain a)\<rparr>"

lemma load_file_cases:
  assumes "load_file lib readable io f d = (r, d')"
  obtains (skip) "r = None" "d' = d" "\<And>raw a. readable f \<Longrightarrow> gm_get d f = Some raw \<Longrightarrow> Parse lib raw \<noteq> Inr a"
    | (named) raw a where "readable f" "gm_get d f = Some raw" "Parse lib raw = Inr a" "a_realm a \<noteq> []" "r = Some (a\<lparr>a_FilePath := f\<rparr>)" "d' = d"
    | (unnamed) raw a where "readable f" "gm_get d f = Some raw" "Parse lib raw = Inr a" "a_realm a = []" "r = Some (with_realm f a)"
        "d' = snd (SaveAtomic lib (io f) (with_realm f a) d)"
proof (cases "\<exists>raw a. readable f \<and> gm_get d f = Some raw \<and> Parse lib raw = Inr a")
  case True
  then obtain raw a where h: "readable f" "gm_get d f = Some raw" "Parse lib raw = Inr a" by blast
  show thesis
  proof (cases "a_realm a = []")
    case True
    have "BackfillRealm (a\<lparr>a_FilePath := f\<rparr>) = ((True, ResolveRealm [] (a_Domain a)), with_realm f a)"
      using True by (simp add: BackfillRealm_def Let_def with_realm_def)
    then show thesis using unnamed [OF h True] assms h True by (simp add: load_file_def Let_def RealmStored_def)
  next
    case False
    then show thesis using named [OF h False] assms h by (simp add: load_file_def Let_def RealmStored_def)
  qed
next
  case False
  then have "r = None \<and> d' = d" using assms by (auto simp: load_file_def split: option.splits sum.splits if_splits)
  with False show thesis by (intro skip) blast+
qed

lemma load_file_frame:
  assumes "load_file lib readable io f d = (r, d')" and "g \<noteq> f" and "g \<noteq> f @ ''.tmp''"
  shows "gm_get d' g = gm_get d g"
  using assms(1)
proof (cases rule: load_file_cases)
  case (unnamed raw a)
  then show ?thesis using assms(2,3) by (simp add: save_get with_realm_def split: option.split)
qed simp_all

lemma load_files_frame:
  "load_files lib readable io fs d = (as, d') \<Longrightarrow> g \<notin> set fs \<Longrightarrow> g \<notin> (\<lambda>f. f @ ''.tmp'') ` set fs \<Longrightarrow> gm_get d' g = gm_get d g"
proof (induction fs arbitrary: d as d')
  case (Cons f fs)
  obtain r d1 where 1: "load_file lib readable io f d = (r, d1)" by force
  obtain bs d2 where 2: "load_files lib readable io fs d1 = (bs, d2)" by force
  have "d' = d2" using Cons.prems(1) 1 2 by simp
  then show ?case using Cons.IH [OF 2] load_file_frame [OF 1] Cons.prems(2,3) by simp
qed simp

text \<open>A file whose saving succeeded is read back on any disk where it stands, without another write.\<close>

lemma load_file_again:
  assumes "load_file lib readable (\<lambda>_. saves) f d = (r, d')" and "codec lib" and "f \<noteq> []" and "gm_get e f = gm_get d' f"
  shows "load_file lib readable io f e = (r, e) \<and> (\<forall>a. r = Some a \<longrightarrow> a_realm a \<noteq> [] \<and> TrimSpace (a_AccessToken a) \<noteq> [])"
  using assms(1)
proof (cases rule: load_file_cases)
  case skip
  then have "load_file lib readable io f e = (None, e)"
    using assms(4) by (cases "Parse lib (the (gm_get d f))") (auto simp: load_file_def split: option.split sum.split)
  with skip show ?thesis by simp
next
  case (named raw a)
  then show ?thesis using assms(4) parse_range by (simp add: load_file_def Let_def RealmStored_def)
next
  case (unnamed raw a)
  let ?b = "with_realm f a"
  have b: "int64_ok ?b" "TrimSpace (a_AccessToken ?b) \<noteq> []" "a_FilePath ?b = f" "a_realm ?b \<noteq> []"
    using parse_range [OF unnamed(3)] by (simp_all add: with_realm_def int64_ok_def ResolveRealm_Nil)
  obtain raw' where raw': "kept lib ?b raw'" using assms(2) b(1) by (auto simp: codec_def)
  have "gm_get d' f = Some raw'"
    using unnamed(6) raw' b(2,3) assms(3) by (simp add: save_get kept_def saves_def)
  moreover have "?b\<lparr>a_FilePath := [], a_FilePath := f\<rparr> = ?b" by (simp add: with_realm_def)
  ultimately show ?thesis
    using unnamed(1,5) assms(4) parse_saved [OF raw' b(1,2)] b by (simp add: load_file_def Let_def RealmStored_def with_realm_def)
qed

lemma load_files_again:
  assumes "load_files lib readable (\<lambda>_. saves) fs d = (as, d')" and "codec lib" and "[] \<notin> set fs" and "distinct fs"
    and "\<forall>f \<in> set fs. f @ ''.tmp'' \<notin> set fs" and "\<forall>f \<in> set fs. gm_get e f = gm_get d' f"
  shows "load_files lib readable io fs e = (as, e) \<and> (\<forall>a \<in> set as. a_realm a \<noteq> [] \<and> TrimSpace (a_AccessToken a) \<noteq> [])"
  using assms
proof (induction fs arbitrary: d as d')
  case (Cons f fs)
  obtain r d1 where 1: "load_file lib readable (\<lambda>_. saves) f d = (r, d1)" by force
  obtain bs d2 where 2: "load_files lib readable (\<lambda>_. saves) fs d1 = (bs, d2)" by force
  have eqs: "d' = d2" "as = (case r of None \<Rightarrow> bs | Some a \<Rightarrow> a # bs)" using Cons.prems(1) 1 2 by simp_all
  have ne: "f \<noteq> []" using Cons.prems(3) by auto
  have "f \<notin> (\<lambda>f. f @ ''.tmp'') ` set fs" using Cons.prems(5) by auto
  then have "gm_get e f = gm_get d1 f" using load_files_frame [OF 2] Cons.prems(4,6) eqs(1) by simp
  then have f: "load_file lib readable io f e = (r, e)" "\<forall>a. r = Some a \<longrightarrow> a_realm a \<noteq> [] \<and> TrimSpace (a_AccessToken a) \<noteq> []"
    using load_file_again [OF 1 Cons.prems(2) ne] by blast+
  have "load_files lib readable io fs e = (bs, e) \<and> (\<forall>a \<in> set bs. a_realm a \<noteq> [] \<and> TrimSpace (a_AccessToken a) \<noteq> [])"
    by (rule Cons.IH [OF 2]) (use Cons.prems eqs(1) in auto)
  then show ?case using f by (simp add: eqs(2) split: option.split)
qed simp

text \<open>
  (C37) Loading a directory migrates it once: every account that is loaded has a token and names its realm, and if the files
  could be written, loading it again gives the same accounts and leaves the disk as it is.
\<close>

theorem load_migrates_once:
  assumes "LoadDir lib (Some files) readable (\<lambda>_. saves) d = Some (as, d')" and "codec lib" and "[] \<notin> set files" and "distinct files"
    and "\<forall>f \<in> set files. f @ ''.tmp'' \<notin> set files"
  shows "LoadDir lib (Some files) readable io d' = Some (as, d') \<and> (\<forall>a \<in> set as. a_realm a \<noteq> [] \<and> TrimSpace (a_AccessToken a) \<noteq> [])"
proof -
  have "load_files lib readable (\<lambda>_. saves) (sort files) d = (as, d')" using assms(1) by (simp add: LoadDir_def LoadAuthFiles_def)
  from load_files_again [OF this assms(2), of d' io] show ?thesis using assms(3-5) by (simp add: LoadDir_def LoadAuthFiles_def)
qed

lemma unary_codec: "codec unary"
  unfolding codec_def kept_def by (metis unary_reads)

definition demo_flat_file :: string where
  "demo_flat_file = unary_text (JObj [(''accessToken'', JStr ''t''), (''uid'', JStr ''u'')])"

theorem load_migrates_once_witness:
  "\<exists>as d'. LoadDir unary (Some [''workbuddy-u.json'']) (\<lambda>_. True) (\<lambda>_. saves) [(''workbuddy-u.json'', demo_flat_file)] = Some (as, d') \<and>
     as \<noteq> [] \<and> LoadDir unary (Some [''workbuddy-u.json'']) (\<lambda>_. True) (\<lambda>_. saves) d' = Some (as, d')"
proof -
  have flat: "flat_auth [(''accessToken'', JStr ''t''), (''uid'', JStr ''u'')] = Some (zero_auth\<lparr>a_AccessToken := ''t'', a_UID := ''u''\<rparr>)"
    "TrimSpace ''t'' = ''t''"
    by code_simp+
  then have "Parse unary demo_flat_file = Inr (zero_auth\<lparr>a_AccessToken := ''t'', a_UID := ''u''\<rparr>)"
    by (simp add: Parse_def demo_flat_file_def zero_auth_def)
  then obtain a as d' where d': "LoadDir unary (Some [''workbuddy-u.json'']) (\<lambda>_. True) (\<lambda>_. saves) [(''workbuddy-u.json'', demo_flat_file)] = Some (a # as, d')"
    by (simp add: LoadDir_def LoadAuthFiles_def load_file_def RealmStored_def BackfillRealm_def zero_auth_def Let_def)
  then show ?thesis
    using load_migrates_once [OF d' unary_codec, of "\<lambda>_. saves"] by simp
qed

text \<open>
  The migration writes what the struct knows and no more: other members of the file, as the switch and the note that the
  plugin keeps there, are gone.
\<close>

theorem migration_drops_members:
  assumes "load_file lib readable (\<lambda>_. saves) f d = (Some a, d')" and "gm_get d f = Some raw" and "Parse lib raw = Inr b"
    and "a_realm b = []" and "codec lib" and "f \<noteq> []" and "k \<notin> {''auth'', ''account'', ''device_token''}"
  shows "\<exists>raw' obj. gm_get d' f = Some raw' \<and> UnmarshalAny lib raw' = Some (JObj obj) \<and> gm_get obj k = None"
  using assms(1)
proof (cases rule: load_file_cases)
  case (unnamed raw2 c)
  have c: "c = b" using unnamed(2,3) assms(2,3) by simp
  have ok: "int64_ok (with_realm f b)" "TrimSpace (a_AccessToken (with_realm f b)) \<noteq> []" "a_FilePath (with_realm f b) = f"
    using parse_range [OF assms(3)] by (simp_all add: with_realm_def int64_ok_def)
  obtain raw' where raw': "kept lib (with_realm f b) raw'" using assms(5) ok(1) by (auto simp: codec_def)
  have "gm_get d' f = Some raw'" using unnamed(6) raw' ok(2,3) assms(6) by (simp add: c save_get kept_def saves_def)
  moreover have "UnmarshalAny lib raw' = Some (JObj (saved_document (with_realm f b)))" using raw' by (simp add: kept_def)
  moreover have "gm_get (saved_document (with_realm f b)) k = None" using assms(7) by (simp add: saved_document_def)
  ultimately show ?thesis by blast
qed (use assms(2-4) in simp_all)

end
