(* ===== verification/Spec2Isabelle.thy ===== *)
theory Spec2Isabelle
  imports Pick_Props Persist_Props Account_Props Lease Pool_Machine Classify_Props Policy
    Scheduler_Props ToolPairing_Props Reset_Props
    Markup_Props Sse_Props Aggregate_Props Markup_Frames_Props Sanitize_Props Payload_Props Hint Session_Ids
    Model_Store_Props Model_Readiness_Props Account_Cache_Props Lifecycle_Props
    Checkin_Props Keepalive_Props Outbound_Props Headers_Props Config_Props Aliases Auth_Store_Props
begin

text \<open>
  A verification development of the WorkBuddy plugin, a Go shared library that lets a proxy host
  serve chat requests from a pool of upstream accounts.

  \<^bold>\<open>The program.\<close> The host asks the plugin which account should serve a request
  (\<^verbatim>\<open>src/plugin/scheduler.go\<close>); the plugin asks its account pool
  (\<^verbatim>\<open>src/internal/pool\<close>), which keeps for every account a balance, cooldowns, a circuit
  breaker, per-model blocks and measured prices, and which survives restarts through a state file and
  an optional mirror. The request body is rewritten (\<^verbatim>\<open>payload.go\<close>, \<^verbatim>\<open>tool_pairing.go\<close> and their
  neighbours in \<^verbatim>\<open>src/internal/upstream\<close>) and sent. The answer, a stream of events, is passed on frame by
  frame or aggregated into one answer (\<^verbatim>\<open>sse.go\<close>), and tool calls that the model wrote as text are
  recovered on the way (\<^verbatim>\<open>dsml.go\<close>, \<^verbatim>\<open>markup_chunks.go\<close>); an error is classified
  (\<^verbatim>\<open>src/internal/upstream/client.go\<close>), and the outcome is recorded in the pool (\<^verbatim>\<open>src/plugin/wb_pool.go\<close>), which closes the loop: what is recorded decides
  who is picked next. A panel lets the operator select an account or switch one off
  (\<^verbatim>\<open>src/plugin/active_auth.go\<close>), and a lifecycle policy (\<^verbatim>\<open>src/plugin/policy.go\<close>) disables,
  re-enables or deletes accounts by their balance. Which models an account can serve is learned from the
  upstream and from public metadata and cached on disk; goroutines that need it share their loads
  (\<^verbatim>\<open>src/plugin/model_readiness.go\<close>, \<^verbatim>\<open>model_store.go\<close>, \<^verbatim>\<open>model_source_*.go\<close>), and the
  scheduler routes only to accounts whose models are ready.

  \<^bold>\<open>Theories.\<close> Definitions and properties are in separate theories where both are long.
  \<^item> \<open>Prelude\<close>: the fragment of Go that the program uses (time, 64-bit durations, strings, maps with
    the contract \<open>go_map\<close>), and the generic lemmas.
  \<^item> \<open>Auth\<close>: the credential record and the realm of an account, \<^verbatim>\<open>internal/auth/auth.go\<close>.
  \<^item> \<open>Entry\<close>: one account of the pool, its health predicates, expiry and pruning,
    \<^verbatim>\<open>internal/pool/entry.go\<close>.
  \<^item> \<open>Pool\<close>: the pool record, setters, leases and insertion, \<^verbatim>\<open>internal/pool/pool.go\<close>; the
    invariant \<open>pool_inv\<close>, and the contract \<open>entry_update\<close> by which each operation on a single
    account inherits it.
  \<^item> \<open>Cooldown\<close>: cooling, blocking, breaker and degradation, \<^verbatim>\<open>cooldown.go\<close>,
    \<^verbatim>\<open>transition.go\<close> and \<^verbatim>\<open>degrade.go\<close>.
  \<^item> \<open>State\<close>: outcomes, revival, prices, queries and the status page, \<^verbatim>\<open>state.go\<close> and
    \<^verbatim>\<open>realm.go\<close>.
  \<^item> \<open>Pick\<close>, \<open>Pick_Facts\<close>, \<open>Pick_Props\<close>: account selection, \<^verbatim>\<open>pick.go\<close>. \<open>Pick_Facts\<close> states
    without loops who may be picked (\<open>eligible_uid\<close>, \<open>fallback_uid\<close>) and relates the loops to it.
  \<^item> \<open>Persist\<close>, \<open>Persist_Props\<close>: the state file, the mirror and the directory watch,
    \<^verbatim>\<open>persist.go\<close> and \<^verbatim>\<open>watch.go\<close>.
  \<^item> \<open>Account_Props\<close>: the properties of \<open>Entry\<close>, \<open>Cooldown\<close> and \<open>State\<close>.
  \<^item> \<open>Lease\<close>: the compare-and-swap loops of the in-flight lease under interleaving, \<^verbatim>\<open>pool.go\<close>.
  \<^item> \<open>Pool_Machine\<close>: histories of the pool as an inductive step relation over all its calls.
  \<^item> \<open>Classify\<close>, \<open>Classify_Props\<close>: marker tables, classification and the announced wait,
    \<^verbatim>\<open>internal/upstream/client.go\<close>.
  \<^item> \<open>Reset_Time\<close>, \<open>Reset_Props\<close>: the calendar, the parsing of dates and the reset time that a limit
    announces, \<^verbatim>\<open>client.go\<close> and \<^verbatim>\<open>wb_pool.go\<close>.
  \<^item> \<open>Policy\<close>: credit summaries, lifecycle decisions and the selected account, \<^verbatim>\<open>policy.go\<close>,
    \<^verbatim>\<open>active_auth.go\<close> and parts of \<^verbatim>\<open>management.go\<close> and \<^verbatim>\<open>billing.go\<close>.
  \<^item> \<open>Scheduler\<close>, \<open>Scheduler_Props\<close>: the scheduler callback, the draw through the pool and the
    recording of outcomes, \<^verbatim>\<open>scheduler.go\<close> and \<^verbatim>\<open>wb_pool.go\<close>. The scheduler's loop is proved
    correct against the contract \<open>account_picker\<close>, which the pool's selection is shown to meet.
  \<^item> \<open>ToolPairing\<close>, \<open>ToolPairing_Props\<close>: the repair of tool traffic, \<^verbatim>\<open>tool_pairing.go\<close>,
    on decoded JSON (\<open>json\<close>).
  \<^item> \<open>Sanitize\<close>, \<open>Sanitize_Props\<close>: the removal of client fingerprints with its regular expressions,
    \<^verbatim>\<open>sanitize.go\<close>.
  \<^item> \<open>Payload\<close>, \<open>Payload_Props\<close>: all rewrites of the request body in their order, \<^verbatim>\<open>payload.go\<close>,
    \<^verbatim>\<open>thinking.go\<close> and \<^verbatim>\<open>cache_key.go\<close>.
  \<^item> \<open>Session_Ids\<close>: conversation, message, turn and cache identifiers, \<^verbatim>\<open>internal/session/ids.go\<close>.
  \<^item> \<open>Markup\<close>, \<open>Markup_Calls\<close>, \<open>Markup_Props\<close>: the incremental recovery of tool calls from text, its
    parser, the allow-list and the repair of aggregated answers, \<^verbatim>\<open>dsml.go\<close>.
  \<^item> \<open>Markup_Frames\<close>, \<open>Markup_Frames_Props\<close>: the same recovery on stream frames,
    \<^verbatim>\<open>markup_chunks.go\<close>.
  \<^item> \<open>Sse\<close>, \<open>Sse_Props\<close>: frame normalisation and the streaming loop, \<^verbatim>\<open>sse.go\<close>.
  \<^item> \<open>Aggregate\<close>, \<open>Aggregate_Props\<close>: aggregation of a stream and the dropping of cut calls,
    \<^verbatim>\<open>sse.go\<close>, \<^verbatim>\<open>truncation.go\<close> and \<^verbatim>\<open>wb_upstream.go\<close>.
  \<^item> \<open>Hint\<close>: the gateway's hints for errors, \<^verbatim>\<open>hint.go\<close>.
  \<^item> \<open>Model_Facts\<close>: the catalogues of the upstream, their validation and union, and the public
    metadata, \<^verbatim>\<open>model_source_workbuddy.go\<close> and \<^verbatim>\<open>model_source_modelsdev.go\<close>.
  \<^item> \<open>Model_Store\<close>, \<open>Model_Store_Props\<close>: the model caches on disk and their replacement in steps
    that may fail, \<^verbatim>\<open>model_store.go\<close>.
  \<^item> \<open>Model_Readiness\<close>, \<open>Model_Registry\<close>, \<open>Model_Readiness_Props\<close>: the model runtime as a machine of
    interleaved goroutines, \<^verbatim>\<open>model_readiness.go\<close>. \<open>Model_Registry\<close> shows the contract of
    \<open>Call_Registry\<close> for the loads of accounts, the catalogue calls and the metadata call.
  \<^item> \<open>Call_Registry\<close>: the contract \<open>call_registry\<close> of a registry of calls in flight: a waiter's call is held by a
    goroutine or closed, and a call has one holder.
  \<^item> \<open>Go_Path\<close>: the path functions of Go's library that the program uses, with their laws.
  \<^item> \<open>Auth_File\<close>: names, safety, building, saving and deleting of credential files, \<^verbatim>\<open>authfile.go\<close> and
    \<^verbatim>\<open>host_auth.go\<close>. What the program does to the host and the disk is a list of effects in order.
  \<^item> \<open>Account_Cache\<close>, \<open>Account_Cache_Props\<close>: the cache of plan, check-in and credits, and its shared fetch as
    a machine of interleaved goroutines that meets \<open>call_registry\<close>, \<^verbatim>\<open>cache.go\<close>.
  \<^item> \<open>Lifecycle\<close>, \<open>Lifecycle_Props\<close>: notes, disabling, enabling, deleting and the reconciliation,
    \<^verbatim>\<open>lifecycle.go\<close>.
  \<^item> \<open>Redact\<close>: the removal of secrets from texts, \<^verbatim>\<open>redact.go\<close>.
  \<^item> \<open>Billing\<close>, \<open>Billing_Props\<close>: requests with retries, pages of packages and their totals, enterprise
    credits, check-in status and claims, \<^verbatim>\<open>billing.go\<close>.
  \<^item> \<open>Checkin\<close>, \<open>Checkin_Props\<close>: the schedule of the daily tasks, the check-in on demand and on schedule,
    and the rows of the task log, \<^verbatim>\<open>checkin.go\<close>.
  \<^item> \<open>Requests\<close>: endpoints, headers, login profiles, routing and what the host is told about a
    credential, \<^verbatim>\<open>main.go\<close>, \<^verbatim>\<open>oauth.go\<close> and \<^verbatim>\<open>proxy.go\<close>.
  \<^item> \<open>Login\<close>, \<open>Login_Props\<close>: the browser login as a map of states in progress with polls that may overlap, and the refresh that the host
    asks for, \<^verbatim>\<open>oauth.go\<close>.
  \<^item> \<open>Keepalive\<close>, \<open>Keepalive_Props\<close>: the daily refresh of tokens and what it writes, \<^verbatim>\<open>keepalive.go\<close>.
  \<^item> \<open>Desensitize\<close>, \<open>Desensitize_Props\<close>, \<open>Desensitize_Scope\<close>: runes of byte strings, the blocked terms, the
    loop that puts zero-width spaces into them, and the fields of a request it is applied to,
    \<^verbatim>\<open>desensitize.go\<close>.
  \<^item> \<open>Outbound\<close>, \<open>Outbound_Props\<close>: the tables of effort levels and context sizes, and the assembly of the body
    that leaves the plugin from all its stages, \<^verbatim>\<open>wb_upstream.go\<close>, \<^verbatim>\<open>payload.go\<close>, \<^verbatim>\<open>effort_catalog.go\<close>,
    \<^verbatim>\<open>context_catalog.go\<close> and \<^verbatim>\<open>client.go\<close>.

  \<^item> \<open>Codec\<close>: what the properties of whole texts need of a JSON codec, with a codec that has it.
  \<^item> \<open>Headers\<close>, \<open>Headers_Props\<close>: the headers of upstream requests, \<^verbatim>\<open>headers.go\<close> and \<^verbatim>\<open>device_token.go\<close>.
  \<^item> \<open>Config\<close>, \<open>Config_Props\<close>: checking, decoding and applying the plugin's configuration, \<^verbatim>\<open>usage_config.go\<close>
    and \<^verbatim>\<open>desensitize.go\<close>.
  \<^item> \<open>Aliases\<close>: aliases and exclusions of models, \<^verbatim>\<open>models.go\<close>.
  \<^item> \<open>Auth_Store\<close>, \<open>Auth_Store_Props\<close>: reading, saving and loading credential files of the vendored client,
    \<^verbatim>\<open>internal/auth/auth.go\<close>.

  \<^bold>\<open>Correspondence.\<close> A Go struct is a record whose fields carry a prefix (\<open>e_until\<close> is
  \<open>until\<close> of \<open>entry\<close>). A method under the pool's lock is a function from the pool to the pool; an
  operation on one account is a function on entries (suffix \<open>_e\<close>), lifted to the pool by
  \<open>touch_entry\<close> and its relatives the way the methods look up, change and mark dirty. A pointer to an entry
  is its key. Package variables are arguments or fields of a record of their own. What the program
  takes from outside is an argument: clock readings, the iteration order of maps, the shuffle, the
  random draw, results of disk and mirror, whether a model runtime can serve an account.

  \<^bold>\<open>What is proved.\<close>
  \<^item> Selection (\<open>Pick_Props\<close>): it returns an eligible account if there is one and otherwise the
    softly cooling one that recovers first; the cheapest cost tier wins, with at most one
    exploration per window; the draw is proportional to the weights; the result does not depend on
    the map order or on the shuffle; the pick counter stays strictly above all earlier picks.
  \<^item> Persistence (\<open>Persist_Props\<close>): a restart preserves health, prices, deadlines, balance, disable
    bits and counters at every later time, starts over how recently an account was used and its leases, and after the
    next scan of the directory an account is weighed as before; the file and the mirror agree; aligning with the directory keeps what it must; and a
    failed save is not retried.
  \<^item> Accounts (\<open>Account_Props\<close>): counters, three strikes, soft back-off, breaker, model blocks, the
    hard cooldown until 04:00, and the balance under measured spending.
  \<^item> Concurrency and histories (\<open>Lease\<close>, \<open>Pool_Machine\<close>): the lease counter is safe and
    linearisable under every interleaving: the completed calls, replayed one after the other, return what they returned;
    the pool invariant holds in every reachable state; a manual switch-off stays through calls, saves, alignments and
    restores until the operator lifts it, the credential file is lost or a mirror records another decision.
  \<^item> Classification and policy (\<open>Classify_Props\<close>, \<open>Reset_Props\<close>, \<open>Policy\<close>): precedence of the error
    classes, agreement of the two credit tests, bounds of the announced wait, the reading of an
    announced reset time, the sticky panel selection, consistency of the lifecycle decisions.
  \<^item> Routing (\<open>Scheduler_Props\<close>): the draw through the pool finds a good candidate whenever there is
    one, only live candidates are routed to, the panel selection overrides the pool, and a recorded
    failure takes the account out of selection without touching the others.
  \<^item> Request bodies (\<open>ToolPairing_Props\<close>, \<open>Sanitize_Props\<close>, \<open>Payload_Props\<close>): repacking permutes, the
    clean-up pairs calls and results exactly and is idempotent, merging loses nothing; a prepared
    body is paired, has the typed tool choice that the request asks for or neither choice nor tools, the right effort and, for a thinking model, reasoning on
    every answer; sanitised text has no rejected header.
  \<^item> Outgoing bodies (\<open>Desensitize_Props\<close>, \<open>Desensitize_Scope\<close>, \<open>Outbound_Props\<close>): the desensitiser ends on every
    byte string, leaves no term, changes nothing visible and only the fields it may; the listed levels of effort
    are those that requests are held to; and the assembled body is paired, keyed and names the resolved model,
    through all stages.
    The headers of a chat request are given by the realm, do not depend on the refresh token, and give all requests of a turn one
    identifier (\<open>Headers_Props\<close>); a model resolves to the last name its alias was given (\<open>Aliases\<close>).
  \<^item> Configuration (\<open>Config_Props\<close>): it is applied as a whole, settings, features and models, or not at all, and
    whatever is applied is usable.
  \<^item> Credential files (\<open>Auth_Store_Props\<close>): what is saved is read back, a failing save leaves the old file, and a
    directory is migrated once.
  \<^item> Streams (\<open>Sse_Props\<close>, \<open>Aggregate_Props\<close>): the streaming loop equals the frame-by-frame path and
    ends with exactly one end mark; a tool name is sent once; aggregation reads text and calls as an
    independent specification does; a cut stream leaves no call with undecodable arguments.
  \<^item> Markup (\<open>Markup_Props\<close>, \<open>Markup_Frames_Props\<close>): no byte of the text is lost or invented, calls
    come only from complete blocks with allowed names, and the result does not depend on how the
    stream was cut; on the wire \<open>NormalizeFrames\<close> loses and invents no text of a stream of text frames, and numbers
    its calls from zero, for a codec with the property of \<open>Codec\<close>.
  \<^item> Models (\<open>Model_Store_Props\<close>, \<open>Model_Readiness_Props\<close>): a cache survives a failure at any step of a
    write, every fetched catalogue can be cached and read back, metadata is matched independently of the
    map order; under every interleaving loading does not deadlock or panic, no work is in flight twice, a
    retired generation is never published, an older catalogue never overwrites a newer one, and every
    snapshot says truly where it comes from.
  \<^item> Lifecycle (\<open>Account_Cache_Props\<close>, \<open>Lifecycle_Props\<close>): a file is deleted only after a second query confirms
    the exhaustion, or when its account has been saved under another name; a failed query of the credits
    changes nothing; a rewritten file holds the credentials that were read and keeps all that the host returned for
    the change and the plugin does not own (nothing, if the host returned nothing); the
    details of an account are fetched once however many ask, and the waiters never deadlock.
  \<^item> Credits and tasks (\<open>Billing_Props\<close>, \<open>Checkin_Props\<close>): a listing in pages is read completely and the loop ends;
    the totals of sane packages add up, and an account counts as exhausted exactly when nothing remains in any
    package; a request is retried at most twice; every hour starts exactly the tasks of that hour, and the timer fires at the
    first hour that has one;
    the counters of a check-in add up, and it keeps what the cache knows of the account.
  \<^item> Credentials (\<open>Login_Props\<close>, \<open>Keepalive_Props\<close>): a success of a poll goes back to a start at most five minutes
    old that no earlier poll had ended, also when polls overlap, with a token and an account; polls that overlap can both
    succeed; a refresh writes nothing but the file of its account, with the token that the upstream returned, and
    keeps the fields it does not own.
  \<^item> Sessions (\<open>Session_Ids\<close>): a turn keeps its key during tool traffic and gets a new one with the
    next user message.

  \<^bold>\<open>Bounds and abstractions.\<close> Every definition is total, by structural recursion or a measure, but
  for two loops whose value is \<open>None\<close> where the code's loop does not end: \<open>page_loop\<close> (\<open>full_pages_never_end\<close>), which
  \<open>pages_complete\<close> shows to end for a proper listing, and \<open>replace_loop\<close>, which ends for all accepted terms
  (\<open>desensitize_terminates\<close>). The one loop with a budget is that of \<open>pickFromPool\<close>; the budget is the code's own (the pool's size
  plus the number of candidates) and \<open>pickFromPool_finds\<close> shows that it is enough. The compare-and-swap loops of the
  lease need no bound, as they are steps of a transition system. Durations are kept at 64 bits with
  the wrap-around written out; the time since Go's zero time, counters and balances are unbounded
  integers. \<open>float64\<close> is \<open>rat\<close>, without rounding. Strings are bytes, with case folding and trimming
  on ASCII. A time zone is a fixed offset. JSON is modelled after decoding:
  decoder and encoder are the argument \<open>lib\<close>, and what a theorem needs of them is one of its hypotheses.
  In the model runtime a step of a goroutine is a critical section or one input or output; generations and
  sequence numbers are natural numbers without the wrap-around of \<open>uint64\<close>.
  A JSON object is an association list that is read and written through the contract \<open>go_map\<close>.

  \<^bold>\<open>Not modelled.\<close> The host boundary (the C interface, the transport of host calls), the
  sending of HTTP requests, presentation in the panel and log lines are input and output. Goroutines are modelled
  where they share state through atomics or channels: in the lease, in the model runtime, in the account cache and in the login;
  elsewhere an operation under its lock is one step. The host-side stream pump wraps modelled code in timers and
  copies. The static model lists of \<^verbatim>\<open>src/internal/upstream\<close> are data, and their probes network calls. The growth and travel tasks and
  the usage page are sequences of requests whose answers they show.
\<close>

section \<open>From the text of a limit to selection\<close>

text \<open>
  (C28) A per-model limit is honoured until the time that upstream prints, and for that model only.
  Suppose a healthy account's answer is classified as a soft limit, carries the model code 6004 and
  announces a reset at a future wall clock. Then after recording it the account is refused for the
  model exactly until that time, or until the pool's maximal soft cooldown if that comes first,
  while for every other model, and as a whole, it is as healthy as before at every time.
\<close>

theorem model_limit_until_reset:
  assumes "0 \<le> now" and "u \<noteq> []" and "m \<noteq> []" and "k \<noteq> m"
    and "gm_get (p_byUID p) u = Some e" and "healthy e now"
    and "civil_ok c" and "\<not> Contains pre cn_head" and "now < Date c softRateResetLoc"
    and "body = pre @ cn_head @ stamp c @ zone_suffix b @ cn_tail @ post"
    and "IsModelRateLimit body" and "Classify lib status body = ErrSoftRate"
  shows "\<exists>f. gm_get (p_byUID (applyUpstreamError lib off now now2 u m status body p)) u = Some f \<and>
    (\<forall>t \<ge> now. healthyForModel f t m = (min (Date c softRateResetLoc) (now + softRateMaxOr p) \<le> t)) \<and>
    (\<forall>t. healthyForModel f t k = healthyForModel e t k \<and> healthy f t = healthy e t)"
proof -
  let ?t = "Date c softRateResetLoc"
  have reset: "ParseRateReset body = Some ?t" unfolding assms(10) by (rule reset_read [OF assms(7,8)])
  let ?f = "CooldownSoftForModel_e p now (10 * Minute) ?t m ''6004 model limit'' e"
  have get: "gm_get (p_byUID (applyUpstreamError lib off now now2 u m status body p)) u = Some ?f"
    using assms(2,3,5,11,12) reset by (simp add: failure_ops get_touch_entry)
  have until: "cappedSoftUntilLocked p now ?t = min ?t (now + softRateMaxOr p)"
    using assms(9) by (simp add: cappedSoftUntilLocked_def Let_def)
  have entry: "e_modelCooldowns ?f = gm_put m \<lparr>mc_Until = min ?t (now + softRateMaxOr p),
      mc_ResetAt = ?t, mc_Reason = ''6004 model limit'', mc_Hits = 0\<rparr> (e_modelCooldowns e)"
    "healthy ?f t = healthy e t" for t
    using assms(1,9) until by (simp_all add: CooldownSoftForModel_e_def IsZero_def healthy_def)
  have pos: "min ?t (now + softRateMaxOr p) \<noteq> 0"
    using assms(1,9) softRateMaxOr_pos [of p] by linarith
  have "healthyForModel ?f t m = (min ?t (now + softRateMaxOr p) \<le> t)" if "now \<le> t" for t
    using healthy_mono [OF that assms(6)] pos assms(3)
    by (auto simp: healthyForModel_iff entry modelCooled_def IsZero_def)
  moreover have "healthyForModel ?f t k = healthyForModel e t k" for t
    using assms(4) by (simp add: healthyForModel_iff entry modelCooled_def)
  ultimately show ?thesis using get entry(2) by blast
qed

text \<open>A 429 with the code 6004 at the start of 2024, announcing a reset an hour later.\<close>

definition demo_limit :: string where
  "demo_limit = ''{\"code\": 6004, \"msg\":\"'' @ cn_head @ ''2024-01-01 01:00:00'' @ '' UTC+8'' @ cn_tail @ ''\"}''"

definition demo_reset :: civil where
  "demo_reset = \<lparr>cv_year = 2024, cv_month = 1, cv_day = 1, cv_hour = 1, cv_min = 0, cv_sec = 0, cv_nsec = 0\<rparr>"

definition demo_pre :: string where "demo_pre = ''{\"code\": 6004, \"msg\":\"''"

theorem model_limit_until_reset_witness:
  "\<exists>f now. gm_get (p_byUID (applyUpstreamError no_json 0 now now ''a'' ''m'' 429 demo_limit demo_pool)) ''a'' =
      Some f \<and> \<not> healthyForModel f now ''m'' \<and> healthyForModel f (now + Hour) ''m'' \<and>
      healthyForModel f now ''k''"
proof -
  let ?t = "63839638800 * Second" and ?e = "new_entry (named_auth ''a'')"
  have date: "Date demo_reset softRateResetLoc = ?t" by code_simp
  have facts: "civil_ok demo_reset" "\<not> Contains demo_pre cn_head"
    "demo_limit = demo_pre @ cn_head @ stamp demo_reset @ zone_suffix True @ cn_tail @ ''\"}''"
    "IsModelRateLimit demo_limit" "Classify no_json 429 demo_limit = ErrSoftRate"
    "gm_get (p_byUID demo_pool) ''a'' = Some ?e" "softRateMaxOr demo_pool = 2 * Hour"
    by code_simp+
  have fresh: "healthy ?e s" "healthyForModel ?e s ''k''" for s
    by (simp_all add: healthyForModel_iff healthy_def modelCooled_def new_entry_def IsZero_def)
  have clock: "0 \<le> ?t - Hour" "?t - Hour < ?t" "min ?t (?t - Hour + 2 * Hour) = ?t"
    by (simp_all add: time_units)
  have "\<exists>f. gm_get (p_byUID (applyUpstreamError no_json 0 (?t - Hour) (?t - Hour) ''a'' ''m'' 429
        demo_limit demo_pool)) ''a'' = Some f \<and>
      (\<forall>s \<ge> ?t - Hour. healthyForModel f s ''m'' = (?t \<le> s)) \<and>
      (\<forall>s. healthyForModel f s ''k'' = healthyForModel ?e s ''k'' \<and> healthy f s = healthy ?e s)"
    using model_limit_until_reset [of "?t - Hour" "''a''" "''m''" "''k''" demo_pool ?e demo_reset
        demo_pre demo_limit True "''\"}''" no_json 429 0 "?t - Hour"] facts fresh(1)
    unfolding date clock(3) [folded facts(7)] using clock by simp
  then obtain f where f: "gm_get (p_byUID (applyUpstreamError no_json 0 (?t - Hour) (?t - Hour) ''a'' ''m''
        429 demo_limit demo_pool)) ''a'' = Some f"
      "\<And>s. ?t - Hour \<le> s \<Longrightarrow> healthyForModel f s ''m'' = (?t \<le> s)"
      "\<And>s. healthyForModel f s ''k'' = healthyForModel ?e s ''k''" by blast
  have "\<not> healthyForModel f (?t - Hour) ''m''" "healthyForModel f (?t - Hour + Hour) ''m''"
    using f(2) [of "?t - Hour"] f(2) [of ?t] clock by simp_all
  with f(1,3) fresh(2) show ?thesis by blast
qed

end
